(* ===== verification/Prelude.thy ===== *)
theory Prelude
  imports Main "HOL-Library.Word" "HOL-Library.Monad_Syntax"
begin

unbundle bit_operations_syntax

text \<open>
  Shared vocabulary of the development: the C integer types of
  \<^verbatim>\<open>ext/uspi/include/uspi/types.h\<close> for the AArch64 build, assertions, the generic lemmas
  on options, words and lists that the component theories use, and the interface of a pool of
  handles, which two components implement.

  The library is compiled with assertions on (\<^verbatim>\<open>NDEBUG\<close> is not defined in
  \<^verbatim>\<open>Rules.mk\<close>), and a failed assertion halts the system.  An operation that can stop there,
  that would dereference a null pointer or index past an array, or that may spin forever on a
  device register, therefore returns an option: \<open>None\<close> is a call that does not come back,
  \<open>Some r\<close> is a normal return.  C results that signal an
  error (\<^verbatim>\<open>FALSE\<close>, \<open>0\<close>, \<open>-1\<close>) are ordinary values inside \<open>Some\<close>.
\<close>

section \<open>C types\<close>

type_synonym u8 = "8 word"
type_synonym u16 = "16 word"
type_synonym u32 = "32 word"
type_synonym u64 = "64 word"
type_synonym uintptr = "64 word"
type_synonym addr = nat \<comment> \<open>a reference into one of the object stores\<close>

named_theorems fault_simps \<open>when a checked operation returns normally\<close>
named_theorems reg_simps \<open>fields of device registers\<close>

section \<open>Assertions and null checks\<close>

definition c_assert :: "bool \<Rightarrow> unit option" where
  "c_assert b = (if b then Some () else None)"

text \<open>A pointer is an option; dereferencing null halts.\<close>

definition deref :: "('k \<Rightarrow> 'v option) \<Rightarrow> 'k option \<Rightarrow> 'v option" where
  "deref st p = (case p of None \<Rightarrow> None | Some a \<Rightarrow> st a)"

definition array_get :: "'a list \<Rightarrow> nat \<Rightarrow> 'a option" where
  "array_get xs i = (if i < length xs then Some (xs ! i) else None)"

definition array_set :: "'a list \<Rightarrow> nat \<Rightarrow> 'a \<Rightarrow> 'a list option" where
  "array_set xs i v = (if i < length xs then Some (xs[i := v]) else None)"

lemma c_assert_simps [simp]: "c_assert True = Some ()" "c_assert False = None"
  by (simp_all add: c_assert_def)

lemma c_assert_Some [fault_simps, simp]: "c_assert b = Some u \<longleftrightarrow> b"
  by (simp add: c_assert_def)

lemma c_assert_None [simp]: "c_assert b = None \<longleftrightarrow> \<not> b"
  by (simp add: c_assert_def)

lemma bind_assert [simp]: "Option.bind (c_assert b) f = (if b then f () else None)"
  by (simp add: c_assert_def)

lemma bind_Some_iff [fault_simps]:
  "Option.bind m f = Some y \<longleftrightarrow> (\<exists>x. m = Some x \<and> f x = Some y)"
  by (cases m) auto

lemma if_Some_iff [fault_simps]: "(if b then f else None) = Some y \<longleftrightarrow> b \<and> f = Some y"
  by simp

lemma deref_Some [fault_simps]: "deref st p = Some v \<longleftrightarrow> (\<exists>a. p = Some a \<and> st a = Some v)"
  by (simp add: deref_def split: option.splits)

lemma deref_simps [simp]: "deref st None = None" "deref st (Some a) = st a"
  by (simp_all add: deref_def)

lemma array_get_Some [fault_simps]: "array_get xs i = Some v \<longleftrightarrow> i < length xs \<and> v = xs ! i"
  by (auto simp: array_get_def)

lemma array_set_Some [fault_simps]:
  "array_set xs i v = Some ys \<longleftrightarrow> i < length xs \<and> ys = xs[i := v]"
  by (auto simp: array_set_def)

lemma array_get_set: "array_set xs i v = Some ys \<Longrightarrow> array_get ys i = Some v"
  by (auto simp: fault_simps array_get_def)

lemma array_get_set_other:
  "array_set xs i v = Some ys \<Longrightarrow> i \<noteq> j \<Longrightarrow> array_get ys j = array_get xs j"
  by (auto simp: fault_simps array_get_def)

section \<open>Words\<close>

lemma word_and_mask_bit:
  "(w :: 'a::len word) AND push_bit n 1 = 0 \<longleftrightarrow> \<not> (n < LENGTH('a) \<and> bit w n)"
proof -
  have "w AND push_bit n 1 = (if bit w n then push_bit n 1 else 0)"
    by (rule bit_word_eqI) (auto simp: bit_simps)
  moreover have "push_bit n (1 :: 'a word) = 0 \<longleftrightarrow> \<not> n < LENGTH('a)"
    by (auto simp: exp_eq_zero_iff not_less)
  ultimately show ?thesis by (auto dest: bit_imp_le_length)
qed

lemma word_and_exp_bit:
  "(w :: 'a::len word) AND 2 ^ n = 0 \<longleftrightarrow> \<not> (n < LENGTH('a) \<and> bit w n)"
  using word_and_mask_bit[of w n] by simp

lemma unat_le_mask: "unat ((w :: 'a::len word) AND mask n) < 2 ^ n"
proof -
  have "w AND mask n = take_bit n w"
    by (simp add: take_bit_eq_mask)
  then show ?thesis
    by (simp add: unsigned_take_bit_eq)
qed

lemma unat_ucast_up:
  fixes w :: "'a::len word"
  assumes "LENGTH('a) \<le> LENGTH('b::len)"
  shows "unat (ucast w :: 'b word) = unat w"
proof -
  have "unat w < 2 ^ LENGTH('a)" by (rule unsigned_less)
  also have "(2 :: nat) ^ LENGTH('a) \<le> 2 ^ LENGTH('b)"
    using assms by simp
  finally show ?thesis
    by (simp add: unsigned_ucast_eq take_bit_nat_eq_self)
qed

lemma unat_less_2p: "unat (w :: 'a::len word) < 2 ^ LENGTH('a)"
  by (rule unsigned_less)

lemma word_bit_bound:
  fixes p :: "'a::len word"
  assumes "unat p < 2 ^ n" and "bit p i"
  shows "i < n"
proof (rule ccontr)
  assume "\<not> i < n"
  then have "2 ^ n \<le> (2 :: nat) ^ i" by simp
  moreover have "unat p \<ge> 2 ^ i"
  proof -
    have "bit (unat p) i" using assms(2) by (simp add: bit_unsigned_iff)
    then have "odd (unat p div 2 ^ i)" by (simp add: bit_iff_odd)
    then have "unat p div 2 ^ i \<noteq> 0" by (metis even_zero)
    then show ?thesis by (simp add: div_eq_0_iff)
  qed
  ultimately show False using assms(1) by linarith
qed

lemma word_or_zero: "(a :: 'a::len word) OR b = 0 \<longleftrightarrow> a = 0 \<and> b = 0"
  by (auto simp: bit_eq_iff bit_simps)

lemma unat_of_nat_small: "k < 2 ^ LENGTH('a::len) \<Longrightarrow> unat (of_nat k :: 'a word) = k"
  by (simp add: unsigned_of_nat take_bit_nat_eq_self)

lemma word_one_le: "1 \<le> (w :: 'a::len word) \<longleftrightarrow> w \<noteq> 0"
  by (simp add: word_le_nat_alt Suc_le_eq unat_gt_0)

lemma unat_plus_if_no_wrap:
  fixes a b :: "'a::len word"
  assumes "unat a + unat b < 2 ^ LENGTH('a)"
  shows "unat (a + b) = unat a + unat b"
  using assms by (simp add: unat_word_ariths)

lemma unat_minus_le:
  fixes a b :: "'a::len word"
  assumes "b \<le> a"
  shows "unat (a - b) = unat a - unat b"
  using assms by (rule unat_sub)

lemma word_dec_less:
  fixes m :: "'a::len word"
  assumes "m \<noteq> 0"
  shows "unat (m - 1) < unat m"
  using assms by (simp add: unat_minus_one unat_gt_0)

lemma unat_inc_less:
  fixes c n :: "'a::len word"
  assumes "c < n"
  shows "unat (c + 1) = unat c + 1"
proof -
  have "unat c < unat n" "unat n < 2 ^ LENGTH('a)"
    using assms unsigned_less[of n] by (simp_all add: word_less_nat_alt)
  then have "unat c + unat (1 :: 'a word) < 2 ^ LENGTH('a)"
    unfolding unsigned_1 by linarith
  from unat_plus_if_no_wrap[OF this] show ?thesis by simp
qed

section \<open>A pool of handles\<close>

text \<open>
  Host channels and kernel timers are handed out the same way: a scan for the lowest free
  slot, a distinguished result when none is free, and a release by handle.  The contract is
  stated over the set of handles in use.
\<close>

locale handle_pool =
  fixes inv :: "'s \<Rightarrow> bool"
    and used :: "'s \<Rightarrow> nat set"
    and capacity :: "'s \<Rightarrow> nat"
    and acquire :: "'s \<Rightarrow> 'r \<Rightarrow> nat option \<times> 's"
    and release :: "'s \<Rightarrow> nat \<Rightarrow> 's"
  assumes used_bounded: "inv s \<Longrightarrow> used s \<subseteq> {..<capacity s}"
    and acquire_some: "inv s \<Longrightarrow> acquire s r = (Some h, s') \<Longrightarrow>
        h < capacity s \<and> h \<notin> used s \<and> used s' = insert h (used s) \<and> inv s' \<and> capacity s' = capacity s"
    and acquire_none: "inv s \<Longrightarrow> acquire s r = (None, s') \<Longrightarrow> s' = s \<and> used s = {..<capacity s}"
    and release_used: "inv s \<Longrightarrow> h \<in> used s \<Longrightarrow>
        used (release s h) = used s - {h} \<and> inv (release s h) \<and> capacity (release s h) = capacity s"
begin

fun acquire_n :: "'s \<Rightarrow> 'r list \<Rightarrow> nat option list \<times> 's" where
  "acquire_n s [] = ([], s)"
| "acquire_n s (r # rs) =
     (let (h, s1) = acquire s r; (hs, s2) = acquire_n s1 rs in (h # hs, s2))"

lemma finite_used: "inv s \<Longrightarrow> finite (used s)"
  using used_bounded finite_subset by blast

lemma acquire_full_iff:
  assumes "inv s"
  shows "fst (acquire s r) = None \<longleftrightarrow> card (used s) = capacity s"
proof (cases "acquire s r")
  case (Pair h s')
  show ?thesis
  proof (cases h)
    case None
    with Pair assms acquire_none[of s r s'] show ?thesis by simp
  next
    case (Some k)
    with Pair assms acquire_some[of s r k s'] have k: "k < capacity s" "k \<notin> used s" by simp_all
    have "used s \<subset> {..<capacity s}"
      using used_bounded[OF assms] k by auto
    then have "card (used s) < capacity s"
      using psubset_card_mono[of "{..<capacity s}" "used s"] by simp
    with Pair Some show ?thesis by simp
  qed
qed

lemma acquire_n_distinct:
  assumes "inv s" and "acquire_n s rs = (hs, s')"
  shows "distinct (filter (\<lambda>h. h \<noteq> None) hs) \<and> (\<forall>h. Some h \<in> set hs \<longrightarrow> h \<notin> used s) \<and> inv s'
         \<and> used s' = used s \<union> {h. Some h \<in> set hs}"
  using assms
proof (induction rs arbitrary: s hs s')
  case Nil
  then show ?case by simp
next
  case (Cons r rs)
  obtain h s1 where a: "acquire s r = (h, s1)" by fastforce
  obtain hs2 s2 where b: "acquire_n s1 rs = (hs2, s2)" by fastforce
  from Cons.prems a b have hs: "hs = h # hs2" "s' = s2" by simp_all
  show ?case
  proof (cases h)
    case None
    with a Cons.prems acquire_none[of s r s1] have "s1 = s" by simp
    with Cons.IH[OF _ b] Cons.prems hs None show ?thesis by simp
  next
    case (Some k)
    with a Cons.prems acquire_some[of s r k s1]
    have k: "k \<notin> used s" "used s1 = insert k (used s)" "inv s1" by simp_all
    with Cons.IH[OF _ b] hs Some show ?thesis by auto
  qed
qed

lemma acquire_release:
  assumes "inv s" and "acquire s r = (Some h, s')"
  shows "used (release s' h) = used s \<and> inv (release s' h)"
  using acquire_some[OF assms] release_used[of s' h] by auto

end

end
