(* ===== verification/UsbModel.thy ===== *)
theory UsbModel
  imports Prelude
begin

text \<open>
  The USB data model of \<^verbatim>\<open>ext/uspi/include/uspi/usb.h\<close>: packet identifiers, speeds, setup
  packets and descriptors, and the device object of \<^verbatim>\<open>usbdevice.h\<close> as far as the host
  controller reads it (address, speed, hub).  A field \<^verbatim>\<open>m_xyz\<close> of a C structure becomes
  \<open><prefix>_xyz\<close>, with a prefix that names the structure, so that several structures can keep
  their own \<^verbatim>\<open>m_pBuffer\<close>, \<^verbatim>\<open>m_nState\<close> and so on.
\<close>

datatype TUSBPID = USBPIDSetup | USBPIDData0 | USBPIDData1

datatype TUSBSpeed = USBSpeedLow | USBSpeedFull | USBSpeedHigh | USBSpeedUnknown

datatype TEndpointType =
  EndpointTypeControl | EndpointTypeBulk | EndpointTypeInterrupt | EndpointTypeIsochronous

record TSetupData =
  sd_bmRequestType :: u8
  sd_bRequest :: u8
  sd_wValue :: u16
  sd_wIndex :: u16
  sd_wLength :: u16

definition REQUEST_OUT :: u8 where "REQUEST_OUT = 0"
definition REQUEST_IN :: u8 where "REQUEST_IN = 0x80"
definition GET_DESCRIPTOR :: u8 where "GET_DESCRIPTOR = 6"
definition SET_ADDRESS :: u8 where "SET_ADDRESS = 5"
definition SET_CONFIGURATION :: u8 where "SET_CONFIGURATION = 9"

definition DESCRIPTOR_CONFIGURATION :: u8 where "DESCRIPTOR_CONFIGURATION = 2"
definition DESCRIPTOR_INTERFACE :: u8 where "DESCRIPTOR_INTERFACE = 4"
definition DESCRIPTOR_ENDPOINT :: u8 where "DESCRIPTOR_ENDPOINT = 5"

definition USB_DEFAULT_MAX_PACKET_SIZE :: u32 where "USB_DEFAULT_MAX_PACKET_SIZE = 8"

text \<open>Sizes of the packed descriptor structures.\<close>

definition sizeof_TUSBConfigurationDescriptor :: u8 where "sizeof_TUSBConfigurationDescriptor = 9"
definition sizeof_TUSBInterfaceDescriptor :: u8 where "sizeof_TUSBInterfaceDescriptor = 9"
definition sizeof_TUSBEndpointDescriptor :: u8 where "sizeof_TUSBEndpointDescriptor = 7"
definition sizeof_TUSBAudioEndpointDescriptor :: u8 where "sizeof_TUSBAudioEndpointDescriptor = 9"

record TUSBEndpointDescriptor =
  ed_bLength :: u8
  ed_bDescriptorType :: u8
  ed_bEndpointAddress :: u8
  ed_bmAttributes :: u8
  ed_wMaxPacketSize :: u16
  ed_bInterval :: u8

record TUSBDevice =
  dev_ucAddress :: u8
  dev_Speed :: TUSBSpeed
  dev_pEndpoint0 :: "addr option"
  dev_bSplitTransfer :: bool
  dev_ucHubAddress :: u8
  dev_ucHubPortNumber :: u8

definition USBDeviceGetAddress :: "TUSBDevice \<Rightarrow> u8" where
  "USBDeviceGetAddress d = dev_ucAddress d"

definition USBDeviceGetSpeed :: "TUSBDevice \<Rightarrow> TUSBSpeed" where
  "USBDeviceGetSpeed d = dev_Speed d"

definition USBDeviceIsSplit :: "TUSBDevice \<Rightarrow> bool" where
  "USBDeviceIsSplit d = dev_bSplitTransfer d"

definition USBDeviceGetHubAddress :: "TUSBDevice \<Rightarrow> u8" where
  "USBDeviceGetHubAddress d = dev_ucHubAddress d"

definition USBDeviceGetHubPortNumber :: "TUSBDevice \<Rightarrow> u8" where
  "USBDeviceGetHubPortNumber d = dev_ucHubPortNumber d"

definition USBDeviceGetEndpoint0 :: "TUSBDevice \<Rightarrow> addr option" where
  "USBDeviceGetEndpoint0 d = dev_pEndpoint0 d"

lemmas device_getters = USBDeviceGetAddress_def USBDeviceGetSpeed_def USBDeviceIsSplit_def
  USBDeviceGetHubAddress_def USBDeviceGetHubPortNumber_def USBDeviceGetEndpoint0_def

lemmas usb_consts = REQUEST_OUT_def REQUEST_IN_def GET_DESCRIPTOR_def SET_ADDRESS_def
  SET_CONFIGURATION_def DESCRIPTOR_CONFIGURATION_def DESCRIPTOR_INTERFACE_def
  DESCRIPTOR_ENDPOINT_def USB_DEFAULT_MAX_PACKET_SIZE_def
  sizeof_TUSBConfigurationDescriptor_def sizeof_TUSBInterfaceDescriptor_def
  sizeof_TUSBEndpointDescriptor_def sizeof_TUSBAudioEndpointDescriptor_def

lemma descriptor_types_distinct [simp]:
  "DESCRIPTOR_ENDPOINT \<noteq> DESCRIPTOR_INTERFACE" "DESCRIPTOR_INTERFACE \<noteq> DESCRIPTOR_ENDPOINT"
  "DESCRIPTOR_CONFIGURATION \<noteq> DESCRIPTOR_INTERFACE" "DESCRIPTOR_CONFIGURATION \<noteq> DESCRIPTOR_ENDPOINT"
  by (simp_all add: usb_consts)

end
