(* ===== verification/Endpoint.thy ===== *)
theory Endpoint
  imports UsbModel
begin

text \<open>
  Endpoints (\<^verbatim>\<open>ext/uspi/lib/usbendpoint.c\<close>) and USB request blocks
  (\<^verbatim>\<open>ext/uspi/lib/usbrequest.c\<close>).  An endpoint keeps its type, direction, packet size and
  polling interval, and the data toggle \<^verbatim>\<open>m_NextPID\<close>: the packet identifier the next
  transaction has to use.
\<close>

section \<open>Endpoints\<close>

record TUSBEndpoint =
  ep_pDevice :: "addr option"
  ep_ucNumber :: u32
  ep_Type :: TEndpointType
  ep_bDirectionIn :: bool
  ep_nMaxPacketSize :: u32
  ep_nInterval :: u32
  ep_NextPID :: TUSBPID

definition USBEndpoint :: "addr option \<Rightarrow> TUSBEndpoint option" where
  "USBEndpoint pDevice = do {
     c_assert (pDevice \<noteq> None);
     Some \<lparr>ep_pDevice = pDevice, ep_ucNumber = 0, ep_Type = EndpointTypeControl,
           ep_bDirectionIn = False, ep_nMaxPacketSize = USB_DEFAULT_MAX_PACKET_SIZE,
           ep_nInterval = 1, ep_NextPID = USBPIDSetup\<rparr> }"

text \<open>The polling interval of an interrupt endpoint (USB 2.0 specification, chapter 9.6.6).\<close>

definition interrupt_interval :: "TUSBSpeed \<Rightarrow> u8 \<Rightarrow> u32" where
  "interrupt_interval speed bInterval =
     (let ucInterval = (if bInterval < 1 then 1 else bInterval)
      in if speed \<noteq> USBSpeedHigh then ucast ucInterval
         else let ucInterval = (if ucInterval > 16 then 16 else ucInterval);
                  nValue = push_bit (unat (ucInterval - 1)) 1 :: u32;
                  nInterval = nValue div 8
              in if nInterval < 1 then 1 else nInterval)"

definition USBEndpoint2 ::
    "(addr \<Rightarrow> TUSBDevice option) \<Rightarrow> addr option \<Rightarrow> TUSBEndpointDescriptor option
     \<Rightarrow> TUSBEndpoint option" where
  "USBEndpoint2 devs pDevice pDesc = do {
     c_assert (pDevice \<noteq> None);
     desc \<leftarrow> pDesc;
     c_assert (ed_bLength desc = sizeof_TUSBEndpointDescriptor
               \<or> ed_bLength desc = sizeof_TUSBAudioEndpointDescriptor);
     c_assert (ed_bDescriptorType desc = DESCRIPTOR_ENDPOINT);
     typ \<leftarrow> (if ed_bmAttributes desc AND 3 = 2 then Some EndpointTypeBulk
            else if ed_bmAttributes desc AND 3 = 3 then Some EndpointTypeInterrupt
            else None);
     nInterval \<leftarrow> (if typ = EndpointTypeInterrupt
                  then do { dev \<leftarrow> deref devs pDevice;
                            Some (interrupt_interval (USBDeviceGetSpeed dev) (ed_bInterval desc)) }
                  else Some 1);
     Some \<lparr>ep_pDevice = pDevice, ep_ucNumber = ucast (ed_bEndpointAddress desc AND 0x0F),
           ep_Type = typ, ep_bDirectionIn = (ed_bEndpointAddress desc AND 0x80 \<noteq> 0),
           ep_nMaxPacketSize = ucast (ed_wMaxPacketSize desc),
           ep_nInterval = nInterval, ep_NextPID = USBPIDData0\<rparr> }"

definition USBEndpointCopy :: "TUSBEndpoint \<Rightarrow> addr option \<Rightarrow> TUSBEndpoint option" where
  "USBEndpointCopy ep pDevice = do { c_assert (pDevice \<noteq> None); Some (ep\<lparr>ep_pDevice := pDevice\<rparr>) }"

definition USBEndpoint_dtor :: "TUSBEndpoint \<Rightarrow> TUSBEndpoint" where
  "USBEndpoint_dtor ep = ep\<lparr>ep_pDevice := None\<rparr>"

definition USBEndpointGetDevice :: "TUSBEndpoint \<Rightarrow> addr option" where
  "USBEndpointGetDevice ep = ep_pDevice ep"

definition USBEndpointGetNumber :: "TUSBEndpoint \<Rightarrow> u8" where
  "USBEndpointGetNumber ep = ucast (ep_ucNumber ep)"

definition USBEndpointGetType :: "TUSBEndpoint \<Rightarrow> TEndpointType" where
  "USBEndpointGetType ep = ep_Type ep"

definition USBEndpointIsDirectionIn :: "TUSBEndpoint \<Rightarrow> bool" where
  "USBEndpointIsDirectionIn ep = ep_bDirectionIn ep"

definition USBEndpointSetMaxPacketSize :: "TUSBEndpoint \<Rightarrow> u32 \<Rightarrow> TUSBEndpoint" where
  "USBEndpointSetMaxPacketSize ep n = ep\<lparr>ep_nMaxPacketSize := n\<rparr>"

definition USBEndpointGetMaxPacketSize :: "TUSBEndpoint \<Rightarrow> u32" where
  "USBEndpointGetMaxPacketSize ep = ep_nMaxPacketSize ep"

definition USBEndpointGetInterval :: "TUSBEndpoint \<Rightarrow> u32 option" where
  "USBEndpointGetInterval ep = do {
     c_assert (ep_Type ep = EndpointTypeInterrupt); Some (ep_nInterval ep) }"

definition USBEndpointGetNextPID :: "TUSBEndpoint \<Rightarrow> bool \<Rightarrow> TUSBPID option" where
  "USBEndpointGetNextPID ep bStatusStage =
     (if bStatusStage
      then do { c_assert (ep_Type ep = EndpointTypeControl); Some USBPIDData1 }
      else Some (ep_NextPID ep))"

definition USBEndpointSkipPID :: "TUSBEndpoint \<Rightarrow> u32 \<Rightarrow> bool \<Rightarrow> TUSBEndpoint option" where
  "USBEndpointSkipPID ep nPackets bStatusStage = do {
     c_assert (ep_Type ep = EndpointTypeControl \<or> ep_Type ep = EndpointTypeBulk
               \<or> ep_Type ep = EndpointTypeInterrupt);
     if \<not> bStatusStage
     then Some (case ep_NextPID ep of
         USBPIDSetup \<Rightarrow> ep\<lparr>ep_NextPID := USBPIDData1\<rparr>
       | USBPIDData0 \<Rightarrow> (if nPackets AND 1 \<noteq> 0 then ep\<lparr>ep_NextPID := USBPIDData1\<rparr> else ep)
       | USBPIDData1 \<Rightarrow> (if nPackets AND 1 \<noteq> 0 then ep\<lparr>ep_NextPID := USBPIDData0\<rparr> else ep))
     else do {
       c_assert (ep_Type ep = EndpointTypeControl);
       Some (ep\<lparr>ep_NextPID := USBPIDSetup\<rparr>) } }"

definition USBEndpointResetPID :: "TUSBEndpoint \<Rightarrow> TUSBEndpoint option" where
  "USBEndpointResetPID ep = do {
     c_assert (ep_Type ep = EndpointTypeBulk); Some (ep\<lparr>ep_NextPID := USBPIDData0\<rparr>) }"

lemmas endpoint_getters = USBEndpointGetDevice_def USBEndpointGetNumber_def USBEndpointGetType_def
  USBEndpointIsDirectionIn_def USBEndpointGetMaxPacketSize_def

section \<open>Endpoint invariant\<close>

text \<open>
  An endpoint that a driver uses is a control, bulk or interrupt endpoint with a number below
  16 and a positive interval; only a control endpoint ever expects a setup packet.
\<close>

definition endpoint_ok :: "TUSBEndpoint \<Rightarrow> bool" where
  "endpoint_ok ep \<longleftrightarrow>
     ep_Type ep \<noteq> EndpointTypeIsochronous \<and> ep_ucNumber ep < 16 \<and> 1 \<le> ep_nInterval ep
     \<and> (ep_NextPID ep = USBPIDSetup \<longrightarrow> ep_Type ep = EndpointTypeControl)"

lemma parity_and1: "(n :: u32) AND 1 \<noteq> 0 \<longleftrightarrow> odd n"
  by (simp add: and_one_eq odd_iff_mod_2_eq_one)

lemma and_mask_less:
  fixes w :: "'a::len word"
  assumes "m < b"
  shows "w AND m < b"
  using word_and_le1[of w m] assms by (rule le_less_trans)

lemma ucast_nibble: "(ucast (w AND 0x0F :: u8) :: u32) < 16"
proof -
  have "unat (w AND 0x0F :: u8) < 16"
    using unat_le_mask[of w 4] by (simp add: mask_eq_exp_minus_1)
  then show ?thesis
    by (simp add: word_less_nat_alt unat_ucast_up)
qed

text \<open>The data toggle as a function on packet identifiers.\<close>

fun toggle_pid :: "TUSBPID \<Rightarrow> TUSBPID" where
  "toggle_pid USBPIDSetup = USBPIDSetup"
| "toggle_pid USBPIDData0 = USBPIDData1"
| "toggle_pid USBPIDData1 = USBPIDData0"

lemma toggle_pid_twice [simp]: "toggle_pid (toggle_pid p) = p"
  by (cases p) simp_all

lemma toggle_pid_setup [simp]: "toggle_pid p = USBPIDSetup \<longleftrightarrow> p = USBPIDSetup"
  by (cases p) simp_all

definition toggled :: "TUSBEndpoint \<Rightarrow> u32 \<Rightarrow> TUSBEndpoint" where
  "toggled ep n = ep\<lparr>ep_NextPID := (if odd n then toggle_pid (ep_NextPID ep) else ep_NextPID ep)\<rparr>"

lemma toggled_simps [simp]:
  "ep_NextPID (toggled ep n) = (if odd n then toggle_pid (ep_NextPID ep) else ep_NextPID ep)"
  "ep_Type (toggled ep n) = ep_Type ep"
  "endpoint_ok (toggled ep n) = endpoint_ok ep"
  by (auto simp: toggled_def endpoint_ok_def)

lemma toggled_toggled: "toggled (toggled ep m) n = toggled ep (m + n)"
  by (simp add: toggled_def)

lemma skip_toggle:
  assumes "endpoint_ok ep" and "ep_NextPID ep \<noteq> USBPIDSetup"
  shows "USBEndpointSkipPID ep n False = Some (toggled ep n)"
  using assms
  by (cases "ep_Type ep"; cases "ep_NextPID ep")
     (simp_all add: USBEndpointSkipPID_def toggled_def endpoint_ok_def parity_and1)

lemma skip_setup:
  assumes "ep_Type ep = EndpointTypeControl" and "ep_NextPID ep = USBPIDSetup"
  shows "USBEndpointSkipPID ep n False = Some (ep\<lparr>ep_NextPID := USBPIDData1\<rparr>)"
  using assms by (simp add: USBEndpointSkipPID_def)

lemma skip_status:
  assumes "ep_Type ep = EndpointTypeControl"
  shows "USBEndpointSkipPID ep n True = Some (ep\<lparr>ep_NextPID := USBPIDSetup\<rparr>)"
  using assms by (simp add: USBEndpointSkipPID_def)

lemma skip_frame:
  assumes "USBEndpointSkipPID ep n b = Some ep'"
  shows "ep' = ep\<lparr>ep_NextPID := ep_NextPID ep'\<rparr>"
  using assms
  by (auto simp: USBEndpointSkipPID_def split: if_splits TUSBPID.splits)

lemma skip_defined:
  assumes "endpoint_ok ep" and "b \<longrightarrow> ep_Type ep = EndpointTypeControl"
  shows "\<exists>ep'. USBEndpointSkipPID ep n b = Some ep' \<and> endpoint_ok ep'"
  using assms
  by (cases "ep_Type ep"; cases "ep_NextPID ep"; cases b)
     (simp_all add: USBEndpointSkipPID_def endpoint_ok_def)

lemma interrupt_interval_pos: "1 \<le> interrupt_interval speed b"
proof -
  have low: "(1 :: u32) \<le> ucast (if b < 1 then 1 else b)"
  proof -
    have "unat (if b < 1 then 1 else b) \<ge> 1"
      by (auto simp: word_less_nat_alt not_less)
    then show ?thesis
      by (simp add: word_le_nat_alt unat_ucast_up)
  qed
  show ?thesis
  proof (cases "speed = USBSpeedHigh")
    case True
    then show ?thesis by (auto simp: interrupt_interval_def Let_def word_one_le)
  next
    case False
    with low show ?thesis by (simp only: interrupt_interval_def Let_def) simp
  qed
qed

section \<open>Request blocks\<close>

text \<open>
  The completion routine is a function pointer.  The host controller installs its own routine
  for blocking transfers; the routines of the class drivers are numbered.
\<close>

datatype TURBCompletionRoutine = HostCompletionRoutine | DriverCompletionRoutine nat

record TUSBRequest =
  urb_pEndpoint :: "addr option"
  urb_pSetupData :: "(uintptr \<times> TSetupData) option"
  urb_pBuffer :: uintptr
  urb_nBufLen :: u32
  urb_bStatus :: bool
  urb_nResultLen :: u32
  urb_pCompletionRoutine :: "TURBCompletionRoutine option"
  urb_pCompletionParam :: uintptr
  urb_pCompletionContext :: uintptr

definition USBRequest ::
    "addr option \<Rightarrow> uintptr \<Rightarrow> u32 \<Rightarrow> (uintptr \<times> TSetupData) option \<Rightarrow> TUSBRequest option" where
  "USBRequest pEndpoint pBuffer nBufLen pSetupData = do {
     c_assert (pEndpoint \<noteq> None);
     c_assert (pBuffer \<noteq> 0 \<or> nBufLen = 0);
     Some \<lparr>urb_pEndpoint = pEndpoint, urb_pSetupData = pSetupData, urb_pBuffer = pBuffer,
           urb_nBufLen = nBufLen, urb_bStatus = False, urb_nResultLen = 0,
           urb_pCompletionRoutine = None, urb_pCompletionParam = 0, urb_pCompletionContext = 0\<rparr> }"

definition USBRequest_dtor :: "TUSBRequest \<Rightarrow> TUSBRequest" where
  "USBRequest_dtor u = u\<lparr>urb_pEndpoint := None, urb_pSetupData := None, urb_pBuffer := 0,
                          urb_pCompletionRoutine := None\<rparr>"

definition USBRequestGetEndpoint :: "TUSBRequest \<Rightarrow> addr option" where
  "USBRequestGetEndpoint u = urb_pEndpoint u"

definition USBRequestSetStatus :: "TUSBRequest \<Rightarrow> bool \<Rightarrow> TUSBRequest" where
  "USBRequestSetStatus u b = u\<lparr>urb_bStatus := b\<rparr>"

definition USBRequestSetResultLen :: "TUSBRequest \<Rightarrow> u32 \<Rightarrow> TUSBRequest" where
  "USBRequestSetResultLen u n = u\<lparr>urb_nResultLen := n\<rparr>"

definition USBRequestGetStatus :: "TUSBRequest \<Rightarrow> bool" where
  "USBRequestGetStatus u = urb_bStatus u"

definition USBRequestGetResultLength :: "TUSBRequest \<Rightarrow> u32 option" where
  "USBRequestGetResultLength u = do { c_assert (urb_bStatus u); Some (urb_nResultLen u) }"

definition USBRequestGetSetupData ::
    "(addr \<Rightarrow> TUSBEndpoint option) \<Rightarrow> TUSBRequest \<Rightarrow> (uintptr \<times> TSetupData) option" where
  "USBRequestGetSetupData eps u = do {
     ep \<leftarrow> deref eps (urb_pEndpoint u);
     c_assert (USBEndpointGetType ep = EndpointTypeControl);
     urb_pSetupData u }"

definition USBRequestGetBuffer :: "TUSBRequest \<Rightarrow> uintptr option" where
  "USBRequestGetBuffer u = do {
     c_assert (urb_pBuffer u \<noteq> 0 \<or> urb_nBufLen u = 0); Some (urb_pBuffer u) }"

definition USBRequestGetBufLen :: "TUSBRequest \<Rightarrow> u32" where
  "USBRequestGetBufLen u = urb_nBufLen u"

definition USBRequestSetCompletionRoutine ::
    "TUSBRequest \<Rightarrow> TURBCompletionRoutine option \<Rightarrow> uintptr \<Rightarrow> uintptr \<Rightarrow> TUSBRequest option" where
  "USBRequestSetCompletionRoutine u pRoutine pParam pContext = do {
     c_assert (pRoutine \<noteq> None);
     Some (u\<lparr>urb_pCompletionRoutine := pRoutine, urb_pCompletionParam := pParam,
             urb_pCompletionContext := pContext\<rparr>) }"

lemmas request_getters = USBRequestGetEndpoint_def USBRequestGetStatus_def USBRequestGetBufLen_def
  USBRequestSetStatus_def USBRequestSetResultLen_def

section \<open>Properties\<close>

text \<open>
  Toggling is additive: on an endpoint outside its setup stage, skipping \<open>m\<close> packets
  and then \<open>n\<close> packets leaves the endpoint exactly as skipping \<open>m + n\<close> packets does, although
  the count is a 32-bit word that may wrap around.
\<close>

theorem skip_pid_additive:
  assumes "endpoint_ok ep" and "ep_NextPID ep \<noteq> USBPIDSetup"
  shows "Option.bind (USBEndpointSkipPID ep m False) (\<lambda>ep'. USBEndpointSkipPID ep' n False)
         = USBEndpointSkipPID ep (m + n) False"
  using assms by (simp add: skip_toggle toggled_toggled)

theorem skip_pid_additive_witness:
  "let ep = \<lparr>ep_pDevice = Some 0, ep_ucNumber = 1, ep_Type = EndpointTypeBulk,
             ep_bDirectionIn = True, ep_nMaxPacketSize = 512, ep_nInterval = 1,
             ep_NextPID = USBPIDData0\<rparr>
   in endpoint_ok ep \<and> ep_NextPID ep \<noteq> USBPIDSetup
      \<and> Option.bind (USBEndpointSkipPID ep 3 False) (\<lambda>ep'. USBEndpointSkipPID ep' 2 False)
        = USBEndpointSkipPID ep (3 + 2) False"
  using skip_pid_additive[of "\<lparr>ep_pDevice = Some 0, ep_ucNumber = 1, ep_Type = EndpointTypeBulk,
             ep_bDirectionIn = True, ep_nMaxPacketSize = 512, ep_nInterval = 1,
             ep_NextPID = USBPIDData0\<rparr>" 3 2]
  by (simp add: endpoint_ok_def)

text \<open>
  Claim C19. The endpoint invariant holds for every endpoint the two constructors return, and
  each operation that writes an endpoint keeps it.
\<close>

theorem endpoint_ok_preserved:
  "(USBEndpoint p = Some ep \<longrightarrow> endpoint_ok ep)
   \<and> (USBEndpoint2 devs p d = Some ep \<longrightarrow> endpoint_ok ep)
   \<and> (endpoint_ok ep0 \<and> USBEndpointCopy ep0 p = Some ep \<longrightarrow> endpoint_ok ep)
   \<and> (endpoint_ok ep0 \<longrightarrow> endpoint_ok (USBEndpointSetMaxPacketSize ep0 n))
   \<and> (endpoint_ok ep0 \<and> USBEndpointSkipPID ep0 n b = Some ep \<longrightarrow> endpoint_ok ep)
   \<and> (endpoint_ok ep0 \<and> USBEndpointResetPID ep0 = Some ep \<longrightarrow> endpoint_ok ep)"
proof (intro conjI impI)
  show "endpoint_ok ep" if "USBEndpoint p = Some ep"
    using that by (auto simp: USBEndpoint_def endpoint_ok_def fault_simps)
  show "endpoint_ok ep" if "USBEndpoint2 devs p d = Some ep"
    using that by (auto simp: USBEndpoint2_def endpoint_ok_def fault_simps ucast_nibble
        interrupt_interval_pos split: if_splits)
  show "endpoint_ok ep" if "endpoint_ok ep0 \<and> USBEndpointCopy ep0 p = Some ep"
    using that by (auto simp: USBEndpointCopy_def endpoint_ok_def fault_simps)
  show "endpoint_ok (USBEndpointSetMaxPacketSize ep0 n)" if "endpoint_ok ep0"
    using that by (auto simp: USBEndpointSetMaxPacketSize_def endpoint_ok_def)
  show "endpoint_ok ep" if "endpoint_ok ep0 \<and> USBEndpointSkipPID ep0 n b = Some ep"
    using that by (auto simp: USBEndpointSkipPID_def endpoint_ok_def split: if_splits TUSBPID.splits)
  show "endpoint_ok ep" if "endpoint_ok ep0 \<and> USBEndpointResetPID ep0 = Some ep"
    using that by (auto simp: USBEndpointResetPID_def endpoint_ok_def fault_simps)
qed

theorem endpoint_ok_preserved_witness:
  "\<exists>ep. USBEndpoint2 [0 \<mapsto> \<lparr>dev_ucAddress = 1, dev_Speed = USBSpeedHigh, dev_pEndpoint0 = None, dev_bSplitTransfer = False,
                              dev_ucHubAddress = 0, dev_ucHubPortNumber = 1\<rparr>] (Some 0)
           (Some \<lparr>ed_bLength = 7, ed_bDescriptorType = 5, ed_bEndpointAddress = 0x81,
                  ed_bmAttributes = 3, ed_wMaxPacketSize = 8, ed_bInterval = 7\<rparr>) = Some ep
        \<and> ep_nInterval ep = 8 \<and> endpoint_ok ep"
proof -
  let ?devs = "[0 \<mapsto> \<lparr>dev_ucAddress = 1, dev_Speed = USBSpeedHigh, dev_pEndpoint0 = None, dev_bSplitTransfer = False,
                              dev_ucHubAddress = 0, dev_ucHubPortNumber = 1\<rparr>]"
  let ?d = "Some \<lparr>ed_bLength = 7, ed_bDescriptorType = 5, ed_bEndpointAddress = 0x81,
                  ed_bmAttributes = 3, ed_wMaxPacketSize = 8, ed_bInterval = 7\<rparr>"
  let ?ep = "\<lparr>ep_pDevice = Some 0, ep_ucNumber = 1, ep_Type = EndpointTypeInterrupt,
              ep_bDirectionIn = True, ep_nMaxPacketSize = 8, ep_nInterval = 8,
              ep_NextPID = USBPIDData0\<rparr>"
  have "USBEndpoint2 ?devs (Some 0) ?d = Some ?ep"
    by (simp add: USBEndpoint2_def usb_consts interrupt_interval_def device_getters Let_def)
  moreover from this have "endpoint_ok ?ep"
    using endpoint_ok_preserved[of "Some 0" ?ep ?devs ?d] by blast
  ultimately show ?thesis by auto
qed

end
