(* ===== verification/Mmio.thy ===== *)
theory Mmio
  imports Prelude
begin

text \<open>
  The DWC host controller registers: \<^verbatim>\<open>ext/uspi/lib/dwhciregister.c\<close> and the part of
  \<^verbatim>\<open>ext/uspi/include/uspi/dwhci.h\<close> that the driver uses.

  The controller itself is outside the repository.  What it answers is an input of the model: the
  \<open>n\<close>-th register read of a run returns \<open>io_oracle n\<close>, for an arbitrary function \<open>io_oracle\<close>, so a
  theorem about every oracle is a theorem about every behaviour of the controller.  Every access,
  cache maintenance call and delay is recorded in \<open>io_trace\<close>, the most recent one first.
\<close>

section \<open>Register accesses\<close>

datatype io_event =
    MmioRead uintptr u32
  | MmioWrite uintptr u32
  | UsDelay u32
  | MsDelay u32
  | CacheCleanInvalidate u32 u32

record mmio =
  io_oracle :: "nat \<Rightarrow> u32"
  io_pos :: nat
  io_trace :: "io_event list"

definition mmio_read :: "uintptr \<Rightarrow> mmio \<Rightarrow> u32 \<times> mmio" where
  "mmio_read a io =
     (let v = io_oracle io (io_pos io)
      in (v, io\<lparr>io_pos := io_pos io + 1, io_trace := MmioRead a v # io_trace io\<rparr>))"

definition io_emit :: "io_event \<Rightarrow> mmio \<Rightarrow> mmio" where
  "io_emit e io = io\<lparr>io_trace := e # io_trace io\<rparr>"

definition usDelay :: "u32 \<Rightarrow> mmio \<Rightarrow> mmio" where
  "usDelay n io = io_emit (UsDelay n) io"

definition msDelay :: "u32 \<Rightarrow> mmio \<Rightarrow> mmio" where
  "msDelay n io = io_emit (MsDelay n) io"

definition CleanAndInvalidateDataCacheRange :: "u32 \<Rightarrow> u32 \<Rightarrow> mmio \<Rightarrow> mmio" where
  "CleanAndInvalidateDataCacheRange a n io = io_emit (CacheCleanInvalidate a n) io"

lemma mmio_read_simps [simp]:
  "fst (mmio_read a io) = io_oracle io (io_pos io)"
  "io_oracle (snd (mmio_read a io)) = io_oracle io"
  "io_pos (snd (mmio_read a io)) = io_pos io + 1"
  "io_trace (snd (mmio_read a io)) = MmioRead a (io_oracle io (io_pos io)) # io_trace io"
  by (simp_all add: mmio_read_def Let_def)

lemma io_emit_simps [simp]:
  "io_oracle (io_emit e io) = io_oracle io" "io_pos (io_emit e io) = io_pos io"
  "io_trace (io_emit e io) = e # io_trace io"
  by (simp_all add: io_emit_def)

lemma delay_simps [simp]:
  "io_oracle (usDelay n io) = io_oracle io" "io_pos (usDelay n io) = io_pos io"
  "io_trace (usDelay n io) = UsDelay n # io_trace io"
  "io_oracle (msDelay n io) = io_oracle io" "io_pos (msDelay n io) = io_pos io"
  "io_trace (msDelay n io) = MsDelay n # io_trace io"
  by (simp_all add: usDelay_def msDelay_def)

section \<open>The register object\<close>

record TDWHCIRegister =
  reg_bValid :: bool
  reg_nAddress :: uintptr
  reg_nBuffer :: u32

text \<open>The buffer of a fresh register is not defined; no operation returns it while it is invalid.\<close>

definition DWHCIRegister :: "uintptr \<Rightarrow> TDWHCIRegister" where
  "DWHCIRegister a = \<lparr>reg_bValid = False, reg_nAddress = a, reg_nBuffer = 0\<rparr>"

definition DWHCIRegister2 :: "uintptr \<Rightarrow> u32 \<Rightarrow> TDWHCIRegister" where
  "DWHCIRegister2 a v = \<lparr>reg_bValid = True, reg_nAddress = a, reg_nBuffer = v\<rparr>"

definition DWHCIRegister_dtor :: "TDWHCIRegister \<Rightarrow> TDWHCIRegister" where
  "DWHCIRegister_dtor r = r\<lparr>reg_bValid := False\<rparr>"

definition DWHCIRegisterRead :: "TDWHCIRegister \<Rightarrow> mmio \<Rightarrow> u32 \<times> TDWHCIRegister \<times> mmio" where
  "DWHCIRegisterRead r io =
     (let (v, io') = mmio_read (reg_nAddress r) io
      in (v, r\<lparr>reg_nBuffer := v, reg_bValid := True\<rparr>, io'))"

definition DWHCIRegisterWrite :: "TDWHCIRegister \<Rightarrow> mmio \<Rightarrow> mmio option" where
  "DWHCIRegisterWrite r io = do {
     c_assert (reg_bValid r);
     Some (io_emit (MmioWrite (reg_nAddress r) (reg_nBuffer r)) io) }"

definition DWHCIRegisterGet :: "TDWHCIRegister \<Rightarrow> u32 option" where
  "DWHCIRegisterGet r = do { c_assert (reg_bValid r); Some (reg_nBuffer r) }"

definition DWHCIRegisterSet :: "TDWHCIRegister \<Rightarrow> u32 \<Rightarrow> TDWHCIRegister" where
  "DWHCIRegisterSet r v = r\<lparr>reg_nBuffer := v, reg_bValid := True\<rparr>"

definition DWHCIRegisterIsSet :: "TDWHCIRegister \<Rightarrow> u32 \<Rightarrow> bool option" where
  "DWHCIRegisterIsSet r m = do { c_assert (reg_bValid r); Some (reg_nBuffer r AND m \<noteq> 0) }"

definition DWHCIRegisterAnd :: "TDWHCIRegister \<Rightarrow> u32 \<Rightarrow> TDWHCIRegister option" where
  "DWHCIRegisterAnd r m = do {
     c_assert (reg_bValid r); Some (r\<lparr>reg_nBuffer := reg_nBuffer r AND m\<rparr>) }"

definition DWHCIRegisterOr :: "TDWHCIRegister \<Rightarrow> u32 \<Rightarrow> TDWHCIRegister option" where
  "DWHCIRegisterOr r m = do {
     c_assert (reg_bValid r); Some (r\<lparr>reg_nBuffer := reg_nBuffer r OR m\<rparr>) }"

definition DWHCIRegisterClearBit :: "TDWHCIRegister \<Rightarrow> nat \<Rightarrow> TDWHCIRegister option" where
  "DWHCIRegisterClearBit r n = do {
     c_assert (reg_bValid r); c_assert (n < 32);
     Some (r\<lparr>reg_nBuffer := reg_nBuffer r AND NOT (push_bit n 1)\<rparr>) }"

definition DWHCIRegisterSetBit :: "TDWHCIRegister \<Rightarrow> nat \<Rightarrow> TDWHCIRegister option" where
  "DWHCIRegisterSetBit r n = do {
     c_assert (reg_bValid r); c_assert (n < 32);
     Some (r\<lparr>reg_nBuffer := reg_nBuffer r OR push_bit n 1\<rparr>) }"

definition DWHCIRegisterClearAll :: "TDWHCIRegister \<Rightarrow> TDWHCIRegister" where
  "DWHCIRegisterClearAll r = r\<lparr>reg_nBuffer := 0, reg_bValid := True\<rparr>"

definition DWHCIRegisterSetAll :: "TDWHCIRegister \<Rightarrow> TDWHCIRegister" where
  "DWHCIRegisterSetAll r = r\<lparr>reg_nBuffer := - 1, reg_bValid := True\<rparr>"

lemmas register_ops = DWHCIRegister_def DWHCIRegister2_def DWHCIRegister_dtor_def
  DWHCIRegisterRead_def DWHCIRegisterWrite_def DWHCIRegisterGet_def DWHCIRegisterSet_def
  DWHCIRegisterIsSet_def DWHCIRegisterAnd_def DWHCIRegisterOr_def DWHCIRegisterClearAll_def
  DWHCIRegisterSetAll_def

section \<open>Register addresses and fields\<close>

definition ARM_USB_BASE :: uintptr where "ARM_USB_BASE = 0x3F980000"
definition ARM_USB_CORE_BASE :: uintptr where "ARM_USB_CORE_BASE = ARM_USB_BASE"
definition ARM_USB_HOST_BASE :: uintptr where "ARM_USB_HOST_BASE = ARM_USB_BASE + 0x400"
definition ARM_USB_POWER :: uintptr where "ARM_USB_POWER = ARM_USB_BASE + 0xE00"

definition DWHCI_MAX_CHANNELS :: u32 where "DWHCI_MAX_CHANNELS = 16"

definition DWHCI_CORE_AHB_CFG :: uintptr where "DWHCI_CORE_AHB_CFG = ARM_USB_CORE_BASE + 0x008"
definition DWHCI_CORE_USB_CFG :: uintptr where "DWHCI_CORE_USB_CFG = ARM_USB_CORE_BASE + 0x00C"
definition DWHCI_CORE_RESET :: uintptr where "DWHCI_CORE_RESET = ARM_USB_CORE_BASE + 0x010"
definition DWHCI_CORE_INT_STAT :: uintptr where "DWHCI_CORE_INT_STAT = ARM_USB_CORE_BASE + 0x014"
definition DWHCI_CORE_INT_MASK :: uintptr where "DWHCI_CORE_INT_MASK = ARM_USB_CORE_BASE + 0x018"
definition DWHCI_CORE_RX_FIFO_SIZ :: uintptr where "DWHCI_CORE_RX_FIFO_SIZ = ARM_USB_CORE_BASE + 0x024"
definition DWHCI_CORE_NPER_TX_FIFO_SIZ :: uintptr where
  "DWHCI_CORE_NPER_TX_FIFO_SIZ = ARM_USB_CORE_BASE + 0x028"
definition DWHCI_CORE_VENDOR_ID :: uintptr where "DWHCI_CORE_VENDOR_ID = ARM_USB_CORE_BASE + 0x040"
definition DWHCI_CORE_HW_CFG2 :: uintptr where "DWHCI_CORE_HW_CFG2 = ARM_USB_CORE_BASE + 0x048"
definition DWHCI_CORE_HOST_PER_TX_FIFO_SIZ :: uintptr where
  "DWHCI_CORE_HOST_PER_TX_FIFO_SIZ = ARM_USB_CORE_BASE + 0x100"

definition DWHCI_HOST_CFG :: uintptr where "DWHCI_HOST_CFG = ARM_USB_HOST_BASE"
definition DWHCI_HOST_FRM_NUM :: uintptr where "DWHCI_HOST_FRM_NUM = ARM_USB_HOST_BASE + 0x008"
definition DWHCI_HOST_ALLCHAN_INT :: uintptr where "DWHCI_HOST_ALLCHAN_INT = ARM_USB_HOST_BASE + 0x014"
definition DWHCI_HOST_ALLCHAN_INT_MASK :: uintptr where
  "DWHCI_HOST_ALLCHAN_INT_MASK = ARM_USB_HOST_BASE + 0x018"
definition DWHCI_HOST_PORT :: uintptr where "DWHCI_HOST_PORT = ARM_USB_HOST_BASE + 0x040"

definition DWHCI_HOST_CHAN_CHARACTER :: "u32 \<Rightarrow> uintptr" where
  "DWHCI_HOST_CHAN_CHARACTER ch = ARM_USB_HOST_BASE + 0x100 + ucast (ch * 0x20)"
definition DWHCI_HOST_CHAN_SPLIT_CTRL :: "u32 \<Rightarrow> uintptr" where
  "DWHCI_HOST_CHAN_SPLIT_CTRL ch = ARM_USB_HOST_BASE + 0x104 + ucast (ch * 0x20)"
definition DWHCI_HOST_CHAN_INT :: "u32 \<Rightarrow> uintptr" where
  "DWHCI_HOST_CHAN_INT ch = ARM_USB_HOST_BASE + 0x108 + ucast (ch * 0x20)"
definition DWHCI_HOST_CHAN_INT_MASK :: "u32 \<Rightarrow> uintptr" where
  "DWHCI_HOST_CHAN_INT_MASK ch = ARM_USB_HOST_BASE + 0x10C + ucast (ch * 0x20)"
definition DWHCI_HOST_CHAN_XFER_SIZ :: "u32 \<Rightarrow> uintptr" where
  "DWHCI_HOST_CHAN_XFER_SIZ ch = ARM_USB_HOST_BASE + 0x110 + ucast (ch * 0x20)"
definition DWHCI_HOST_CHAN_DMA_ADDR :: "u32 \<Rightarrow> uintptr" where
  "DWHCI_HOST_CHAN_DMA_ADDR ch = ARM_USB_HOST_BASE + 0x114 + ucast (ch * 0x20)"

definition DWHCI_HOST_FRM_NUM_NUMBER :: "u32 \<Rightarrow> u32" where
  "DWHCI_HOST_FRM_NUM_NUMBER reg = reg AND 0xFFFF"
definition DWHCI_MAX_FRAME_NUMBER :: u32 where "DWHCI_MAX_FRAME_NUMBER = 0x3FFF"

definition DWHCI_HOST_CHAN_INT_XFER_COMPLETE :: u32 where "DWHCI_HOST_CHAN_INT_XFER_COMPLETE = 0x001"
definition DWHCI_HOST_CHAN_INT_HALTED :: u32 where "DWHCI_HOST_CHAN_INT_HALTED = 0x002"
definition DWHCI_HOST_CHAN_INT_NAK :: u32 where "DWHCI_HOST_CHAN_INT_NAK = 0x010"
definition DWHCI_HOST_CHAN_INT_ACK :: u32 where "DWHCI_HOST_CHAN_INT_ACK = 0x020"
definition DWHCI_HOST_CHAN_INT_NYET :: u32 where "DWHCI_HOST_CHAN_INT_NYET = 0x040"

text \<open>AHB error, stall, transaction error, babble, frame overrun and data toggle error.\<close>

definition DWHCI_HOST_CHAN_INT_ERROR_MASK :: u32 where "DWHCI_HOST_CHAN_INT_ERROR_MASK = 0x78C"

lemmas chan_int_bits = DWHCI_HOST_CHAN_INT_XFER_COMPLETE_def DWHCI_HOST_CHAN_INT_HALTED_def
  DWHCI_HOST_CHAN_INT_NAK_def DWHCI_HOST_CHAN_INT_ACK_def DWHCI_HOST_CHAN_INT_NYET_def
  DWHCI_HOST_CHAN_INT_ERROR_MASK_def

section \<open>Polling a register\<close>

text \<open>
  \<open>spin_until a P io\<close> reads register \<open>a\<close> until a value satisfies \<open>P\<close>, the shape of the driver's
  busy-waiting loops.
\<close>

partial_function (option) spin_until :: "uintptr \<Rightarrow> (u32 \<Rightarrow> bool) \<Rightarrow> mmio \<Rightarrow> mmio option" where
  "spin_until a Q io =
     (let (v, io') = mmio_read a io in if Q v then Some io' else spin_until a Q io')"

lemma spin_until_step:
  "spin_until a P io =
     (if P (io_oracle io (io_pos io)) then Some (snd (mmio_read a io))
      else spin_until a P (snd (mmio_read a io)))"
  by (subst spin_until.simps) (simp add: Let_def case_prod_beta)

lemma spin_until_hits:
  assumes "P (io_oracle io (io_pos io + k))"
  shows "\<exists>io'. spin_until a P io = Some io'"
  using assms
proof (induction k arbitrary: io)
  case 0
  then show ?case by (simp add: spin_until_step)
next
  case (Suc k)
  then show ?case
    using Suc.IH[of "snd (mmio_read a io)"] by (subst spin_until_step) simp
qed

lemma spin_until_sound:
  assumes ret: "spin_until a P io = Some io'"
  shows "io_oracle io' = io_oracle io \<and> io_pos io < io_pos io' \<and> P (io_oracle io (io_pos io' - 1))
    \<and> (\<forall>i. io_pos io \<le> i \<and> i < io_pos io' - 1 \<longrightarrow> \<not> P (io_oracle io i))
    \<and> (\<exists>v tr. P v \<and> io_trace io' = MmioRead a v # tr)"
proof (rule spin_until.raw_induct [where P = "\<lambda>a P io io'. io_oracle io' = io_oracle io
    \<and> io_pos io < io_pos io' \<and> P (io_oracle io (io_pos io' - 1))
    \<and> (\<forall>i. io_pos io \<le> i \<and> i < io_pos io' - 1 \<longrightarrow> \<not> P (io_oracle io i))
    \<and> (\<exists>v tr. P v \<and> io_trace io' = MmioRead a v # tr)", OF _ ret])
  fix f :: "uintptr \<Rightarrow> (u32 \<Rightarrow> bool) \<Rightarrow> mmio \<Rightarrow> mmio option" and a P io io'
  assume IH: "\<And>a P io io'. f a P io = Some io' \<Longrightarrow> io_oracle io' = io_oracle io
      \<and> io_pos io < io_pos io' \<and> P (io_oracle io (io_pos io' - 1))
      \<and> (\<forall>i. io_pos io \<le> i \<and> i < io_pos io' - 1 \<longrightarrow> \<not> P (io_oracle io i))
      \<and> (\<exists>v tr. P v \<and> io_trace io' = MmioRead a v # tr)"
    and eq: "(let (v, io') = mmio_read a io in if P v then Some io' else f a P io') = Some io'"
  show "io_oracle io' = io_oracle io \<and> io_pos io < io_pos io' \<and> P (io_oracle io (io_pos io' - 1))
      \<and> (\<forall>i. io_pos io \<le> i \<and> i < io_pos io' - 1 \<longrightarrow> \<not> P (io_oracle io i))
      \<and> (\<exists>v tr. P v \<and> io_trace io' = MmioRead a v # tr)"
  proof (cases "P (io_oracle io (io_pos io))")
    case True
    with eq have "io' = snd (mmio_read a io)" by (simp add: Let_def case_prod_beta)
    with True show ?thesis by auto
  next
    case False
    with eq have "f a P (snd (mmio_read a io)) = Some io'" by (simp add: Let_def case_prod_beta)
    from IH[OF this] False show ?thesis
      by simp (metis Suc_leI le_neq_implies_less less_imp_le_nat)
  qed
qed

lemma spin_until_returns_iff:
  "(\<exists>io'. spin_until a P io = Some io') \<longleftrightarrow> (\<exists>k. P (io_oracle io (io_pos io + k)))"
proof
  assume "\<exists>io'. spin_until a P io = Some io'"
  then obtain io' where "spin_until a P io = Some io'" by blast
  from spin_until_sound[OF this] have "io_pos io < io_pos io'" "P (io_oracle io (io_pos io' - 1))"
    by simp_all
  then show "\<exists>k. P (io_oracle io (io_pos io + k))"
    by (intro exI[of _ "io_pos io' - 1 - io_pos io"]) simp
qed (blast intro: spin_until_hits)

end
