(* ===== verification/FrameSched.thy ===== *)
theory FrameSched
  imports Mmio
begin

text \<open>
  The three frame schedulers behind \<^verbatim>\<open>TDWHCIFrameScheduler\<close>
  (\<^verbatim>\<open>dwhciframeschedper.c\<close>, \<^verbatim>\<open>dwhciframeschednper.c\<close>, \<^verbatim>\<open>dwhciframeschednsplit.c\<close>).  A split
  transaction to a low- or full-speed device behind a high-speed hub consists of a start-split and
  of complete-splits that are retried a bounded number of times; the scheduler decides about the
  retries and about the microframe a transaction is started in.  The table of function pointers in
  the C structure is a sum type here, and a call through the table a function on it.
\<close>

datatype TFrameSchedulerState =
    StateStartSplit | StateStartSplitComplete | StateCompleteSplit | StateCompleteRetry
  | StateCompleteSplitComplete | StateCompleteSplitFailed | StateUnknown

definition uFRAME :: u32 where "uFRAME = 125"

section \<open>Periodic split transactions\<close>

record TDWHCIFrameSchedulerPeriodic =
  pe_nState :: TFrameSchedulerState
  pe_nTries :: u32
  pe_nNextFrame :: u32

definition pe_FRAME_UNSET :: u32 where "pe_FRAME_UNSET = 8"

text \<open>\<^verbatim>\<open>m_nTries\<close> is first written by \<^verbatim>\<open>CompleteSplit\<close>; before that it holds what the memory held.\<close>

definition DWHCIFrameSchedulerPeriodic :: "u32 \<Rightarrow> TDWHCIFrameSchedulerPeriodic" where
  "DWHCIFrameSchedulerPeriodic garbage =
     \<lparr>pe_nState = StateUnknown, pe_nTries = garbage, pe_nNextFrame = pe_FRAME_UNSET\<rparr>"

definition DWHCIFrameSchedulerPeriodic_dtor ::
    "TDWHCIFrameSchedulerPeriodic \<Rightarrow> TDWHCIFrameSchedulerPeriodic" where
  "DWHCIFrameSchedulerPeriodic_dtor s = s\<lparr>pe_nState := StateUnknown\<rparr>"

definition DWHCIFrameSchedulerPeriodicStartSplit ::
    "TDWHCIFrameSchedulerPeriodic \<Rightarrow> TDWHCIFrameSchedulerPeriodic" where
  "DWHCIFrameSchedulerPeriodicStartSplit s =
     s\<lparr>pe_nState := StateStartSplit, pe_nNextFrame := pe_FRAME_UNSET\<rparr>"

definition DWHCIFrameSchedulerPeriodicCompleteSplit ::
    "TDWHCIFrameSchedulerPeriodic \<Rightarrow> mmio
     \<Rightarrow> (bool \<times> TDWHCIFrameSchedulerPeriodic \<times> mmio) option" where
  "DWHCIFrameSchedulerPeriodicCompleteSplit s io = (case pe_nState s of
      StateStartSplitComplete \<Rightarrow>
        Some (True, s\<lparr>pe_nState := StateCompleteSplit,
                      pe_nTries := (if pe_nNextFrame s \<noteq> 5 then 3 else 2),
                      pe_nNextFrame := (pe_nNextFrame s + 2) AND 7\<rparr>, io)
    | StateCompleteRetry \<Rightarrow>
        Some (True, s\<lparr>pe_nNextFrame := (pe_nNextFrame s + 1) AND 7\<rparr>, io)
    | StateCompleteSplitComplete \<Rightarrow> Some (False, s, io)
    | StateCompleteSplitFailed \<Rightarrow> Some (False, s, io)
    | _ \<Rightarrow> None)"

definition DWHCIFrameSchedulerPeriodicTransactionComplete ::
    "TDWHCIFrameSchedulerPeriodic \<Rightarrow> u32 \<Rightarrow> mmio
     \<Rightarrow> (TDWHCIFrameSchedulerPeriodic \<times> mmio) option" where
  "DWHCIFrameSchedulerPeriodicTransactionComplete s nStatus io =
     (if pe_nState s = StateStartSplit then do {
        c_assert (nStatus AND DWHCI_HOST_CHAN_INT_ACK \<noteq> 0);
        Some (s\<lparr>pe_nState := StateStartSplitComplete\<rparr>, io) }
      else if pe_nState s = StateCompleteSplit \<or> pe_nState s = StateCompleteRetry then
        (if nStatus AND DWHCI_HOST_CHAN_INT_XFER_COMPLETE \<noteq> 0
         then Some (s\<lparr>pe_nState := StateCompleteSplitComplete\<rparr>, io)
         else if nStatus AND (DWHCI_HOST_CHAN_INT_NYET OR DWHCI_HOST_CHAN_INT_ACK) \<noteq> 0 then
           (let s' = s\<lparr>pe_nTries := pe_nTries s - 1\<rparr>
            in if pe_nTries s = 0
               then Some (s'\<lparr>pe_nState := StateCompleteSplitFailed\<rparr>, usDelay (8 * uFRAME) io)
               else Some (s'\<lparr>pe_nState := StateCompleteRetry\<rparr>, io))
         else if nStatus AND DWHCI_HOST_CHAN_INT_NAK \<noteq> 0
         then Some (s\<lparr>pe_nState := StateCompleteSplitFailed\<rparr>, usDelay (5 * uFRAME) io)
         else None)
      else None)"

text \<open>Wait for the scheduled microframe, choosing it first if it is not set yet.\<close>

definition DWHCIFrameSchedulerPeriodicWaitForFrame ::
    "TDWHCIFrameSchedulerPeriodic \<Rightarrow> mmio \<Rightarrow> (TDWHCIFrameSchedulerPeriodic \<times> mmio) option" where
  "DWHCIFrameSchedulerPeriodicWaitForFrame s io =
     (let (s, io) =
        (if pe_nNextFrame s = pe_FRAME_UNSET
         then let (v, io') = mmio_read DWHCI_HOST_FRM_NUM io;
                  f = (DWHCI_HOST_FRM_NUM_NUMBER v + 1) AND 7
              in (s\<lparr>pe_nNextFrame := (if f = 6 then f + 1 else f)\<rparr>, io')
         else (s, io))
      in do {
        io \<leftarrow> spin_until DWHCI_HOST_FRM_NUM
               (\<lambda>v. DWHCI_HOST_FRM_NUM_NUMBER v AND 7 = pe_nNextFrame s) io;
        Some (s, io) })"

definition DWHCIFrameSchedulerPeriodicIsOddFrame :: "TDWHCIFrameSchedulerPeriodic \<Rightarrow> bool" where
  "DWHCIFrameSchedulerPeriodicIsOddFrame s \<longleftrightarrow> pe_nNextFrame s AND 1 \<noteq> 0"

section \<open>Non-periodic split transactions\<close>

record TDWHCIFrameSchedulerNonPeriodic =
  np_nState :: TFrameSchedulerState
  np_nTries :: u32

definition DWHCIFrameSchedulerNonPeriodic :: "u32 \<Rightarrow> TDWHCIFrameSchedulerNonPeriodic" where
  "DWHCIFrameSchedulerNonPeriodic garbage = \<lparr>np_nState = StateUnknown, np_nTries = garbage\<rparr>"

definition DWHCIFrameSchedulerNonPeriodic_dtor ::
    "TDWHCIFrameSchedulerNonPeriodic \<Rightarrow> TDWHCIFrameSchedulerNonPeriodic" where
  "DWHCIFrameSchedulerNonPeriodic_dtor s = s\<lparr>np_nState := StateUnknown\<rparr>"

definition DWHCIFrameSchedulerNonPeriodicStartSplit ::
    "TDWHCIFrameSchedulerNonPeriodic \<Rightarrow> TDWHCIFrameSchedulerNonPeriodic" where
  "DWHCIFrameSchedulerNonPeriodicStartSplit s = s\<lparr>np_nState := StateStartSplit\<rparr>"

definition DWHCIFrameSchedulerNonPeriodicCompleteSplit ::
    "TDWHCIFrameSchedulerNonPeriodic \<Rightarrow> mmio
     \<Rightarrow> (bool \<times> TDWHCIFrameSchedulerNonPeriodic \<times> mmio) option" where
  "DWHCIFrameSchedulerNonPeriodicCompleteSplit s io = (case np_nState s of
      StateStartSplitComplete \<Rightarrow>
        Some (True, s\<lparr>np_nState := StateCompleteSplit, np_nTries := 3\<rparr>, io)
    | StateCompleteSplit \<Rightarrow> Some (True, s, usDelay (5 * uFRAME) io)
    | StateCompleteRetry \<Rightarrow> Some (True, s, usDelay (5 * uFRAME) io)
    | StateCompleteSplitComplete \<Rightarrow> Some (False, s, io)
    | StateCompleteSplitFailed \<Rightarrow> Some (False, s, io)
    | _ \<Rightarrow> None)"

definition DWHCIFrameSchedulerNonPeriodicTransactionComplete ::
    "TDWHCIFrameSchedulerNonPeriodic \<Rightarrow> u32 \<Rightarrow> mmio
     \<Rightarrow> (TDWHCIFrameSchedulerNonPeriodic \<times> mmio) option" where
  "DWHCIFrameSchedulerNonPeriodicTransactionComplete s nStatus io =
     (if np_nState s = StateStartSplit then do {
        c_assert (nStatus AND DWHCI_HOST_CHAN_INT_ACK \<noteq> 0);
        Some (s\<lparr>np_nState := StateStartSplitComplete\<rparr>, io) }
      else if np_nState s = StateCompleteSplit \<or> np_nState s = StateCompleteRetry then
        (if nStatus AND DWHCI_HOST_CHAN_INT_XFER_COMPLETE \<noteq> 0
         then Some (s\<lparr>np_nState := StateCompleteSplitComplete\<rparr>, io)
         else if nStatus AND (DWHCI_HOST_CHAN_INT_NYET OR DWHCI_HOST_CHAN_INT_ACK) \<noteq> 0 then
           (let s' = s\<lparr>np_nTries := np_nTries s - 1\<rparr>
            in if np_nTries s = 0
               then Some (s'\<lparr>np_nState := StateCompleteSplitFailed\<rparr>, io)
               else Some (s'\<lparr>np_nState := StateCompleteRetry\<rparr>, io))
         else if nStatus AND DWHCI_HOST_CHAN_INT_NAK \<noteq> 0 then
           (let s' = s\<lparr>np_nTries := np_nTries s - 1\<rparr>
            in if np_nTries s = 0
               then Some (s'\<lparr>np_nState := StateCompleteSplitFailed\<rparr>, usDelay (5 * uFRAME) io)
               else Some (s'\<lparr>np_nState := StateCompleteRetry\<rparr>, io))
         else None)
      else None)"

definition DWHCIFrameSchedulerNonPeriodicWaitForFrame ::
    "TDWHCIFrameSchedulerNonPeriodic \<Rightarrow> mmio \<Rightarrow> (TDWHCIFrameSchedulerNonPeriodic \<times> mmio) option" where
  "DWHCIFrameSchedulerNonPeriodicWaitForFrame s io = Some (s, io)"

definition DWHCIFrameSchedulerNonPeriodicIsOddFrame ::
    "TDWHCIFrameSchedulerNonPeriodic \<Rightarrow> bool" where
  "DWHCIFrameSchedulerNonPeriodicIsOddFrame s \<longleftrightarrow> False"

section \<open>Transactions without split\<close>

record TDWHCIFrameSchedulerNoSplit =
  ns_bIsPeriodic :: bool
  ns_nNextFrame :: u32

definition ns_FRAME_UNSET :: u32 where "ns_FRAME_UNSET = DWHCI_MAX_FRAME_NUMBER + 1"

definition DWHCIFrameSchedulerNoSplit :: "bool \<Rightarrow> TDWHCIFrameSchedulerNoSplit" where
  "DWHCIFrameSchedulerNoSplit bIsPeriodic =
     \<lparr>ns_bIsPeriodic = bIsPeriodic, ns_nNextFrame = ns_FRAME_UNSET\<rparr>"

definition DWHCIFrameSchedulerNoSplit_dtor ::
    "TDWHCIFrameSchedulerNoSplit \<Rightarrow> TDWHCIFrameSchedulerNoSplit" where
  "DWHCIFrameSchedulerNoSplit_dtor s = s"

definition DWHCIFrameSchedulerNoSplitWaitForFrame ::
    "TDWHCIFrameSchedulerNoSplit \<Rightarrow> mmio \<Rightarrow> (TDWHCIFrameSchedulerNoSplit \<times> mmio) option" where
  "DWHCIFrameSchedulerNoSplitWaitForFrame s io =
     (let (v, io) = mmio_read DWHCI_HOST_FRM_NUM io;
          s = s\<lparr>ns_nNextFrame := (DWHCI_HOST_FRM_NUM_NUMBER v + 1) AND DWHCI_MAX_FRAME_NUMBER\<rparr>
      in if \<not> ns_bIsPeriodic s then do {
           io \<leftarrow> spin_until DWHCI_HOST_FRM_NUM
                 (\<lambda>v. DWHCI_HOST_FRM_NUM_NUMBER v AND DWHCI_MAX_FRAME_NUMBER = ns_nNextFrame s) io;
           Some (s, io) }
         else Some (s, io))"

definition DWHCIFrameSchedulerNoSplitIsOddFrame :: "TDWHCIFrameSchedulerNoSplit \<Rightarrow> bool" where
  "DWHCIFrameSchedulerNoSplitIsOddFrame s \<longleftrightarrow> ns_nNextFrame s AND 1 \<noteq> 0"

section \<open>The function table\<close>

datatype TDWHCIFrameScheduler =
    FS_Periodic TDWHCIFrameSchedulerPeriodic
  | FS_NonPeriodic TDWHCIFrameSchedulerNonPeriodic
  | FS_NoSplit TDWHCIFrameSchedulerNoSplit

fun fs_dtor :: "TDWHCIFrameScheduler \<Rightarrow> TDWHCIFrameScheduler" where
  "fs_dtor (FS_Periodic s) = FS_Periodic (DWHCIFrameSchedulerPeriodic_dtor s)"
| "fs_dtor (FS_NonPeriodic s) = FS_NonPeriodic (DWHCIFrameSchedulerNonPeriodic_dtor s)"
| "fs_dtor (FS_NoSplit s) = FS_NoSplit (DWHCIFrameSchedulerNoSplit_dtor s)"

text \<open>The entries of the no-split scheduler for split transactions are failing assertions.\<close>

fun fs_StartSplit :: "TDWHCIFrameScheduler \<Rightarrow> TDWHCIFrameScheduler option" where
  "fs_StartSplit (FS_Periodic s) = Some (FS_Periodic (DWHCIFrameSchedulerPeriodicStartSplit s))"
| "fs_StartSplit (FS_NonPeriodic s) =
     Some (FS_NonPeriodic (DWHCIFrameSchedulerNonPeriodicStartSplit s))"
| "fs_StartSplit (FS_NoSplit s) = None"

fun fs_CompleteSplit ::
    "TDWHCIFrameScheduler \<Rightarrow> mmio \<Rightarrow> (bool \<times> TDWHCIFrameScheduler \<times> mmio) option" where
  "fs_CompleteSplit (FS_Periodic s) io = do {
     (b, s, io) \<leftarrow> DWHCIFrameSchedulerPeriodicCompleteSplit s io; Some (b, FS_Periodic s, io) }"
| "fs_CompleteSplit (FS_NonPeriodic s) io = do {
     (b, s, io) \<leftarrow> DWHCIFrameSchedulerNonPeriodicCompleteSplit s io; Some (b, FS_NonPeriodic s, io) }"
| "fs_CompleteSplit (FS_NoSplit s) io = None"

fun fs_TransactionComplete ::
    "TDWHCIFrameScheduler \<Rightarrow> u32 \<Rightarrow> mmio \<Rightarrow> (TDWHCIFrameScheduler \<times> mmio) option" where
  "fs_TransactionComplete (FS_Periodic s) nStatus io = do {
     (s, io) \<leftarrow> DWHCIFrameSchedulerPeriodicTransactionComplete s nStatus io;
     Some (FS_Periodic s, io) }"
| "fs_TransactionComplete (FS_NonPeriodic s) nStatus io = do {
     (s, io) \<leftarrow> DWHCIFrameSchedulerNonPeriodicTransactionComplete s nStatus io;
     Some (FS_NonPeriodic s, io) }"
| "fs_TransactionComplete (FS_NoSplit s) nStatus io = None"

fun fs_WaitForFrame :: "TDWHCIFrameScheduler \<Rightarrow> mmio \<Rightarrow> (TDWHCIFrameScheduler \<times> mmio) option" where
  "fs_WaitForFrame (FS_Periodic s) io = do {
     (s, io) \<leftarrow> DWHCIFrameSchedulerPeriodicWaitForFrame s io; Some (FS_Periodic s, io) }"
| "fs_WaitForFrame (FS_NonPeriodic s) io = do {
     (s, io) \<leftarrow> DWHCIFrameSchedulerNonPeriodicWaitForFrame s io; Some (FS_NonPeriodic s, io) }"
| "fs_WaitForFrame (FS_NoSplit s) io = do {
     (s, io) \<leftarrow> DWHCIFrameSchedulerNoSplitWaitForFrame s io; Some (FS_NoSplit s, io) }"

fun fs_IsOddFrame :: "TDWHCIFrameScheduler \<Rightarrow> bool" where
  "fs_IsOddFrame (FS_Periodic s) = DWHCIFrameSchedulerPeriodicIsOddFrame s"
| "fs_IsOddFrame (FS_NonPeriodic s) = DWHCIFrameSchedulerNonPeriodicIsOddFrame s"
| "fs_IsOddFrame (FS_NoSplit s) = DWHCIFrameSchedulerNoSplitIsOddFrame s"

section \<open>The contract of a split scheduler\<close>

text \<open>
  The statuses a complete-split can end with: finished, not yet, acknowledged or refused.  Error
  statuses are filtered out by the host controller driver before it calls the scheduler.
\<close>

definition split_status :: "u32 \<Rightarrow> bool" where
  "split_status st \<longleftrightarrow> st AND (DWHCI_HOST_CHAN_INT_XFER_COMPLETE OR DWHCI_HOST_CHAN_INT_NYET
      OR DWHCI_HOST_CHAN_INT_ACK OR DWHCI_HOST_CHAN_INT_NAK) \<noteq> 0"

definition split_over :: "TFrameSchedulerState \<Rightarrow> bool" where
  "split_over st \<longleftrightarrow> st = StateCompleteSplitComplete \<or> st = StateCompleteSplitFailed"

locale split_scheduler =
  fixes phase :: "'s \<Rightarrow> TFrameSchedulerState"
    and budget :: "'s \<Rightarrow> nat"
    and start :: "'s \<Rightarrow> 's"
    and complete :: "'s \<Rightarrow> mmio \<Rightarrow> (bool \<times> 's \<times> mmio) option"
    and transact :: "'s \<Rightarrow> u32 \<Rightarrow> mmio \<Rightarrow> ('s \<times> mmio) option"
  assumes start_phase: "phase (start s) = StateStartSplit"
    and transact_start: "phase s = StateStartSplit \<Longrightarrow> st AND DWHCI_HOST_CHAN_INT_ACK \<noteq> 0 \<Longrightarrow>
        \<exists>s' io'. transact s st io = Some (s', io') \<and> phase s' = StateStartSplitComplete"
    and complete_start: "phase s = StateStartSplitComplete \<Longrightarrow>
        \<exists>s' io'. complete s io = Some (True, s', io') \<and> phase s' = StateCompleteSplit \<and> budget s' \<le> 3"
    and transact_complete: "phase s = StateCompleteSplit \<or> phase s = StateCompleteRetry \<Longrightarrow>
        split_status st \<Longrightarrow> \<exists>s' io'. transact s st io = Some (s', io')
          \<and> (split_over (phase s') \<or> phase s' = StateCompleteRetry \<and> budget s = Suc (budget s'))"
    and complete_retry: "phase s = StateCompleteRetry \<Longrightarrow>
        \<exists>s' io'. complete s io = Some (True, s', io') \<and> phase s' = StateCompleteRetry
          \<and> budget s' = budget s"
    and complete_over: "split_over (phase s) \<Longrightarrow> complete s io = Some (False, s, io)"
begin

text \<open>
  The complete-split loop of the host controller driver: each status that arrives is handed to the
  scheduler, which then decides whether another complete-split is sent.  The result counts the
  complete-splits.
\<close>

fun attempts :: "'s \<Rightarrow> mmio \<Rightarrow> u32 list \<Rightarrow> (nat \<times> 's \<times> mmio) option" where
  "attempts s io [] = None"
| "attempts s io (st # sts) = do {
     (s, io) \<leftarrow> transact s st io;
     (again, s, io) \<leftarrow> complete s io;
     if again then do { (n, s, io) \<leftarrow> attempts s io sts; Some (Suc n, s, io) } else Some (1, s, io) }"

lemma attempts_bounded:
  assumes "phase s = StateCompleteSplit \<or> phase s = StateCompleteRetry"
    and "\<forall>st \<in> set sts. split_status st" and "budget s < length sts"
  shows "\<exists>n s' io'. attempts s io sts = Some (n, s', io') \<and> n \<le> Suc (budget s) \<and> split_over (phase s')"
  using assms
proof (induction sts arbitrary: s io)
  case Nil
  then show ?case by simp
next
  case (Cons st sts)
  from Cons.prems(2) have "split_status st" by simp
  from transact_complete[OF Cons.prems(1) this, of io] obtain s1 io1
    where t: "transact s st io = Some (s1, io1)"
      and alt: "split_over (phase s1) \<or> phase s1 = StateCompleteRetry \<and> budget s = Suc (budget s1)"
    by blast
  from alt show ?case
  proof
    assume "split_over (phase s1)"
    with complete_over[OF this, of io1] t show ?thesis by simp
  next
    assume r: "phase s1 = StateCompleteRetry \<and> budget s = Suc (budget s1)"
    then obtain s2 io2 where c: "complete s1 io1 = Some (True, s2, io2)"
      and s2: "phase s2 = StateCompleteRetry" "budget s2 = budget s1"
      using complete_retry[of s1 io1] by blast
    from Cons.IH[of s2 io2] Cons.prems s2 r obtain n s' io'
      where "attempts s2 io2 sts = Some (n, s', io')" "n \<le> Suc (budget s2)" "split_over (phase s')"
      by auto
    with t c s2 r show ?thesis by simp
  qed
qed

text \<open>A whole split transaction: start-split acknowledged, then at most four complete-splits.\<close>

definition split_transaction :: "'s \<Rightarrow> mmio \<Rightarrow> u32 \<Rightarrow> u32 list \<Rightarrow> (nat \<times> 's \<times> mmio) option" where
  "split_transaction s io ack sts = do {
     (s, io) \<leftarrow> transact (start s) ack io;
     (again, s, io) \<leftarrow> complete s io;
     if again then attempts s io sts else Some (0, s, io) }"

lemma split_transaction_ends:
  assumes "ack AND DWHCI_HOST_CHAN_INT_ACK \<noteq> 0"
    and "\<forall>st \<in> set sts. split_status st" and "4 \<le> length sts"
  shows "\<exists>n s' io'. split_transaction s io ack sts = Some (n, s', io') \<and> n \<le> 4 \<and> split_over (phase s')"
proof -
  from transact_start[OF start_phase assms(1), of s io] obtain s1 io1
    where 1: "transact (start s) ack io = Some (s1, io1)" "phase s1 = StateStartSplitComplete" by blast
  from complete_start[OF this(2), of io1] obtain s2 io2
    where 2: "complete s1 io1 = Some (True, s2, io2)" "phase s2 = StateCompleteSplit" "budget s2 \<le> 3"
    by blast
  from attempts_bounded[of s2 sts io2] 2 assms obtain n s' io'
    where 3: "attempts s2 io2 sts = Some (n, s', io')" "n \<le> Suc (budget s2)" "split_over (phase s')"
    by auto
  from 1 2 3 show ?thesis
    by (simp add: split_transaction_def)
qed

end

lemma split_status_cases:
  "split_status st \<Longrightarrow> st AND DWHCI_HOST_CHAN_INT_XFER_COMPLETE = 0 \<Longrightarrow>
   st AND (DWHCI_HOST_CHAN_INT_NYET OR DWHCI_HOST_CHAN_INT_ACK) = 0 \<Longrightarrow>
   st AND DWHCI_HOST_CHAN_INT_NAK \<noteq> 0"
  by (auto simp: split_status_def bit.conj_disj_distrib)

lemma unat_dec: "(n :: u32) \<noteq> 0 \<Longrightarrow> unat n = Suc (unat (n - 1))"
  by (simp add: unat_minus_one unat_gt_0)

interpretation per: split_scheduler pe_nState "\<lambda>s. unat (pe_nTries s)"
  DWHCIFrameSchedulerPeriodicStartSplit DWHCIFrameSchedulerPeriodicCompleteSplit
  DWHCIFrameSchedulerPeriodicTransactionComplete
proof unfold_locales
  fix s :: TDWHCIFrameSchedulerPeriodic and st io
  assume "pe_nState s = StateCompleteSplit \<or> pe_nState s = StateCompleteRetry" "split_status st"
  then show "\<exists>s' io'. DWHCIFrameSchedulerPeriodicTransactionComplete s st io = Some (s', io')
      \<and> (split_over (pe_nState s') \<or> pe_nState s' = StateCompleteRetry
         \<and> unat (pe_nTries s) = Suc (unat (pe_nTries s')))"
    using split_status_cases[of st] unat_dec[of "pe_nTries s"]
    by (auto simp: DWHCIFrameSchedulerPeriodicTransactionComplete_def split_over_def Let_def)
qed (auto simp: DWHCIFrameSchedulerPeriodicStartSplit_def DWHCIFrameSchedulerPeriodicCompleteSplit_def
      DWHCIFrameSchedulerPeriodicTransactionComplete_def split_over_def)

interpretation nonper: split_scheduler np_nState "\<lambda>s. unat (np_nTries s)"
  DWHCIFrameSchedulerNonPeriodicStartSplit DWHCIFrameSchedulerNonPeriodicCompleteSplit
  DWHCIFrameSchedulerNonPeriodicTransactionComplete
proof unfold_locales
  fix s :: TDWHCIFrameSchedulerNonPeriodic and st io
  assume "np_nState s = StateCompleteSplit \<or> np_nState s = StateCompleteRetry" "split_status st"
  then show "\<exists>s' io'. DWHCIFrameSchedulerNonPeriodicTransactionComplete s st io = Some (s', io')
      \<and> (split_over (np_nState s') \<or> np_nState s' = StateCompleteRetry
         \<and> unat (np_nTries s) = Suc (unat (np_nTries s')))"
    using split_status_cases[of st] unat_dec[of "np_nTries s"]
    by (auto simp: DWHCIFrameSchedulerNonPeriodicTransactionComplete_def split_over_def Let_def)
qed (auto simp: DWHCIFrameSchedulerNonPeriodicStartSplit_def
      DWHCIFrameSchedulerNonPeriodicCompleteSplit_def
      DWHCIFrameSchedulerNonPeriodicTransactionComplete_def split_over_def)

section \<open>Properties\<close>

text \<open>
  Claim C18. Split transactions end: once the start-split is acknowledged, both split schedulers
  stop asking for complete-splits after at most four of them, whatever mixture of "not yet",
  "acknowledged", "refused" and "complete" the hub answers, and they stop in the state complete or
  failed.
\<close>

theorem split_transaction_bounded:
  assumes "ack AND DWHCI_HOST_CHAN_INT_ACK \<noteq> 0"
    and "\<forall>st \<in> set sts. split_status st" and "4 \<le> length sts"
  shows "(\<exists>n s' io'. per.split_transaction p io ack sts = Some (n, s', io')
             \<and> n \<le> 4 \<and> split_over (pe_nState s'))
       \<and> (\<exists>n s' io'. nonper.split_transaction q io ack sts = Some (n, s', io')
             \<and> n \<le> 4 \<and> split_over (np_nState s'))"
  using per.split_transaction_ends[OF assms] nonper.split_transaction_ends[OF assms] by blast

theorem split_transaction_bounded_witness:
  "(\<exists>n s' io'. per.split_transaction (DWHCIFrameSchedulerPeriodic 7)
       \<lparr>io_oracle = (\<lambda>_. 0), io_pos = 0, io_trace = []\<rparr> 0x20 [0x40, 0x40, 0x40, 0x40]
     = Some (n, s', io') \<and> n \<le> 4 \<and> split_over (pe_nState s'))
   \<and> (\<exists>n s' io'. nonper.split_transaction (DWHCIFrameSchedulerNonPeriodic 7)
       \<lparr>io_oracle = (\<lambda>_. 0), io_pos = 0, io_trace = []\<rparr> 0x20 [0x40, 0x40, 0x40, 0x40]
     = Some (n, s', io') \<and> n \<le> 4 \<and> split_over (np_nState s'))"
  by (rule split_transaction_bounded) (simp_all add: split_status_def chan_int_bits)

lemma and7_less: "(w :: u32) AND 7 < 8"
  using word_and_le1[of w 7] by (simp add: word_le_nat_alt word_less_nat_alt)

lemma and7_cases:
  assumes "(w :: u32) < 8" and "w = 6"
  shows "w + 1 < 8"
  using assms by simp

text \<open>
  A periodic split transaction is started in its microframe: if the wait returns, the
  scheduled microframe is one of 0 to 7, the last frame number read from the controller is in that
  microframe, and a freshly chosen microframe is never 6, which would leave no room for the
  complete-splits.
\<close>

theorem periodic_wait_in_microframe:
  assumes "DWHCIFrameSchedulerPeriodicWaitForFrame s io = Some (s', io')"
    and "pe_nNextFrame s \<le> pe_FRAME_UNSET"
  shows "pe_nNextFrame s' < 8
    \<and> (\<exists>v tr. io_trace io' = MmioRead DWHCI_HOST_FRM_NUM v # tr \<and> v AND 7 = pe_nNextFrame s')
    \<and> (pe_nNextFrame s = pe_FRAME_UNSET \<longrightarrow> pe_nNextFrame s' \<noteq> 6)
    \<and> (pe_nNextFrame s \<noteq> pe_FRAME_UNSET \<longrightarrow> s' = s)"
proof -
  have num: "DWHCI_HOST_FRM_NUM_NUMBER v AND 7 = v AND 7" for v
    by (simp add: DWHCI_HOST_FRM_NUM_NUMBER_def and.assoc)
  let ?f = "\<lambda>v. (DWHCI_HOST_FRM_NUM_NUMBER v + 1) AND 7"
  from assms(1) obtain io1 where
    s': "s' = (if pe_nNextFrame s = pe_FRAME_UNSET
               then s\<lparr>pe_nNextFrame := (let f = ?f (io_oracle io (io_pos io)) in if f = 6 then f + 1 else f)\<rparr>
               else s)"
    and spin: "spin_until DWHCI_HOST_FRM_NUM
        (\<lambda>v. DWHCI_HOST_FRM_NUM_NUMBER v AND 7 = pe_nNextFrame s') io1 = Some io'"
    by (auto simp: DWHCIFrameSchedulerPeriodicWaitForFrame_def Let_def case_prod_beta fault_simps
        split: if_splits)
  from spin_until_sound[OF spin] have last_read:
    "\<exists>v tr. io_trace io' = MmioRead DWHCI_HOST_FRM_NUM v # tr \<and> v AND 7 = pe_nNextFrame s'"
    by (auto simp: num)
  have small: "pe_nNextFrame s < 8" if "pe_nNextFrame s \<noteq> pe_FRAME_UNSET"
    using assms(2) that by (simp add: pe_FRAME_UNSET_def order_less_le)
  have "(let f = ?f v in if f = 6 then f + 1 else f) < 8" for v
    using and7_less[of "DWHCI_HOST_FRM_NUM_NUMBER v + 1"] by (simp add: Let_def)
  moreover have "(let f = ?f v in if f = 6 then f + 1 else f) \<noteq> 6" for v
    by (simp add: Let_def)
  ultimately show ?thesis
    using last_read small s' by simp
qed

theorem periodic_wait_in_microframe_witness:
  "\<exists>s' io'. DWHCIFrameSchedulerPeriodicWaitForFrame (DWHCIFrameSchedulerPeriodic 0)
       \<lparr>io_oracle = (\<lambda>n. of_nat n + 13), io_pos = 0, io_trace = []\<rparr> = Some (s', io')
     \<and> pe_nNextFrame s' = 7 \<and> pe_nNextFrame s' < 8"
proof -
  let ?io = "\<lparr>io_oracle = (\<lambda>n. of_nat n + 13), io_pos = 0, io_trace = []\<rparr>"
  have run: "\<exists>io'. DWHCIFrameSchedulerPeriodicWaitForFrame (DWHCIFrameSchedulerPeriodic 0) ?io
    = Some (\<lparr>pe_nState = StateUnknown, pe_nTries = 0, pe_nNextFrame = 7\<rparr>, io')"
    by (simp add: DWHCIFrameSchedulerPeriodicWaitForFrame_def DWHCIFrameSchedulerPeriodic_def
        pe_FRAME_UNSET_def mmio_read_def DWHCI_HOST_FRM_NUM_NUMBER_def Let_def spin_until_step)
  then obtain io' where "DWHCIFrameSchedulerPeriodicWaitForFrame (DWHCIFrameSchedulerPeriodic 0) ?io
    = Some (\<lparr>pe_nState = StateUnknown, pe_nTries = 0, pe_nNextFrame = 7\<rparr>, io')" by blast
  with periodic_wait_in_microframe[OF this] show ?thesis
    by (simp add: DWHCIFrameSchedulerPeriodic_def)
qed

end
