(* ===== verification/XferStage.thy ===== *)
theory XferStage
  imports Endpoint FrameSched
begin

text \<open>
  The state of one transfer stage on one host channel
  (\<^verbatim>\<open>ext/uspi/lib/dwhcixferstagedata.c\<close>): how many packets and bytes are left, how many go into
  the next transaction, and where the DMA buffer continues.  Devices, endpoints and request blocks
  are shared objects that C reaches through pointers; they live in the stores of \<open>usb_store\<close>.
\<close>

record usb_store =
  st_devs :: "addr \<Rightarrow> TUSBDevice option"
  st_eps :: "addr \<Rightarrow> TUSBEndpoint option"
  st_urbs :: "addr \<Rightarrow> TUSBRequest option"

text \<open>The stage states of \<^verbatim>\<open>dwhcidevice.c\<close>; both fields start as the enumerator with value 0.\<close>

datatype TStageState =
    StageStateNoSplitTransfer | StageStateStartSplit | StageStateCompleteSplit
  | StageStatePeriodicDelay | StageStateUnknown

datatype TStageSubState =
    StageSubStateWaitForChannelDisable | StageSubStateWaitForTransactionComplete
  | StageSubStateUnknown

record TDWHCITransferStageData =
  xs_nChannel :: u32
  xs_pURB :: "addr option"
  xs_bIn :: bool
  xs_bStatusStage :: bool
  xs_bSplitTransaction :: bool
  xs_bSplitComplete :: bool
  xs_pDevice :: "addr option"
  xs_pEndpoint :: "addr option"
  xs_Speed :: TUSBSpeed
  xs_nMaxPacketSize :: u32
  xs_nTransferSize :: u32
  xs_nPackets :: u32
  xs_nBytesPerTransaction :: u32
  xs_nPacketsPerTransaction :: u32
  xs_nTotalBytesTransfered :: u32
  xs_nState :: TStageState
  xs_nSubState :: TStageSubState
  xs_nTransactionStatus :: u32
  xs_pTempBuffer :: uintptr \<comment> \<open>the address of \<^verbatim>\<open>m_TempBuffer\<close>\<close>
  xs_pBufferPointer :: uintptr
  xs_bFrameSchedulerUsed :: bool
  xs_FrameScheduler :: TDWHCIFrameScheduler
  xs_uninit :: u32 \<comment> \<open>what the memory of the scheduler union held before its construction\<close>

definition sizeof_TSetupData :: u32 where "sizeof_TSetupData = 8"

section \<open>Construction and destruction\<close>

definition endpoint_periodic :: "TUSBEndpoint \<Rightarrow> bool" where
  "endpoint_periodic ep \<longleftrightarrow> USBEndpointGetType ep = EndpointTypeInterrupt
                            \<or> USBEndpointGetType ep = EndpointTypeIsochronous"

text \<open>
  The sizes of a stage: transfer size, packets, bytes and packets per transaction, buffer.  The
  C code divides by the packet size, which is undefined for a packet size of zero.
\<close>

definition stage_sizes ::
    "usb_store \<Rightarrow> TUSBRequest \<Rightarrow> TUSBEndpoint \<Rightarrow> bool \<Rightarrow> bool \<Rightarrow> uintptr
     \<Rightarrow> (u32 \<times> u32 \<times> u32 \<times> u32 \<times> uintptr) option" where
  "stage_sizes st urb ep bSplit bStatusStage pTemp =
     (if \<not> bStatusStage then do {
        pid \<leftarrow> USBEndpointGetNextPID ep bStatusStage;
        (pBuf, nSize) \<leftarrow> (if pid = USBPIDSetup
           then do { (a, _) \<leftarrow> USBRequestGetSetupData (st_eps st) urb; Some (a, sizeof_TSetupData) }
           else do { a \<leftarrow> USBRequestGetBuffer urb; Some (a, USBRequestGetBufLen urb) });
        let nMax = USBEndpointGetMaxPacketSize ep;
        c_assert (nMax \<noteq> 0);
        let nPackets = (nSize + nMax - 1) div nMax;
        Some (if bSplit
              then (nSize, nPackets, if nSize > nMax then nMax else nSize, 1, pBuf)
              else (nSize, nPackets, nSize, nPackets, pBuf)) }
      else Some (0, 1, 0, 1, pTemp))"

definition DWHCITransferStageData ::
    "usb_store \<Rightarrow> TDWHCITransferStageData \<Rightarrow> u32 \<Rightarrow> addr option \<Rightarrow> bool \<Rightarrow> bool
     \<Rightarrow> TDWHCITransferStageData option" where
  "DWHCITransferStageData st this nChannel pURB bIn bStatusStage = do {
     urb \<leftarrow> deref (st_urbs st) pURB;
     let pEndpoint = USBRequestGetEndpoint urb;
     ep \<leftarrow> deref (st_eps st) pEndpoint;
     let pDevice = USBEndpointGetDevice ep;
     dev \<leftarrow> deref (st_devs st) pDevice;
     let bSplit = (USBDeviceGetHubAddress dev \<noteq> 0 \<and> USBDeviceGetSpeed dev \<noteq> USBSpeedHigh);
     (nSize, nPackets, nBytes, nPacketsPer, pBuf) \<leftarrow>
        stage_sizes st urb ep bSplit bStatusStage (xs_pTempBuffer this);
     c_assert (pBuf \<noteq> 0);
     c_assert (pBuf AND 3 = 0);
     Some (this\<lparr>xs_nChannel := nChannel, xs_pURB := pURB, xs_bIn := bIn,
        xs_bStatusStage := bStatusStage, xs_bSplitTransaction := bSplit, xs_bSplitComplete := False,
        xs_pDevice := pDevice, xs_pEndpoint := pEndpoint, xs_Speed := USBDeviceGetSpeed dev,
        xs_nMaxPacketSize := USBEndpointGetMaxPacketSize ep,
        xs_nTransferSize := nSize, xs_nPackets := nPackets, xs_nBytesPerTransaction := nBytes,
        xs_nPacketsPerTransaction := nPacketsPer, xs_nTotalBytesTransfered := 0,
        xs_nState := StageStateNoSplitTransfer, xs_nSubState := StageSubStateWaitForChannelDisable,
        xs_nTransactionStatus := 0, xs_pBufferPointer := pBuf,
        xs_bFrameSchedulerUsed :=
          (bSplit \<or> (USBDeviceGetHubAddress dev = 0 \<and> USBDeviceGetSpeed dev \<noteq> USBSpeedHigh)),
        xs_FrameScheduler :=
          (if bSplit then
             (if endpoint_periodic ep
              then FS_Periodic (DWHCIFrameSchedulerPeriodic (xs_uninit this))
              else FS_NonPeriodic (DWHCIFrameSchedulerNonPeriodic (xs_uninit this)))
           else if USBDeviceGetHubAddress dev = 0 \<and> USBDeviceGetSpeed dev \<noteq> USBSpeedHigh
             then FS_NoSplit (DWHCIFrameSchedulerNoSplit (endpoint_periodic ep))
           else xs_FrameScheduler this)\<rparr>) }"

definition DWHCITransferStageData_dtor :: "TDWHCITransferStageData \<Rightarrow> TDWHCITransferStageData" where
  "DWHCITransferStageData_dtor this =
     this\<lparr>xs_FrameScheduler := (if xs_bFrameSchedulerUsed this then fs_dtor (xs_FrameScheduler this)
                                else xs_FrameScheduler this),
          xs_pBufferPointer := 0, xs_pEndpoint := None, xs_pDevice := None, xs_pURB := None\<rparr>"

section \<open>The end of a transaction\<close>

text \<open>
  The controller reports the status and the packets and bytes it did not transfer.  The endpoint's
  data toggle is advanced in the store.
\<close>

definition DWHCITransferStageDataTransactionComplete ::
    "usb_store \<Rightarrow> TDWHCITransferStageData \<Rightarrow> u32 \<Rightarrow> u32 \<Rightarrow> u32
     \<Rightarrow> (usb_store \<times> TDWHCITransferStageData) option" where
  "DWHCITransferStageDataTransactionComplete st this nStatus nPacketsLeft nBytesLeft =
     (let this = this\<lparr>xs_nTransactionStatus := nStatus\<rparr>
      in if nStatus AND (DWHCI_HOST_CHAN_INT_ERROR_MASK OR DWHCI_HOST_CHAN_INT_NAK
                         OR DWHCI_HOST_CHAN_INT_NYET) \<noteq> 0
         then Some (st, this)
         else
      (let nPacketsTransfered = xs_nPacketsPerTransaction this - nPacketsLeft;
           nBytes = xs_nBytesPerTransaction this - nBytesLeft;
           nBytesTransfered =
             (if xs_bSplitTransaction this \<and> xs_bSplitComplete this \<and> nBytes = 0
                 \<and> xs_nBytesPerTransaction this > 0
              then xs_nMaxPacketSize this * nPacketsTransfered else nBytes);
           this = this\<lparr>xs_nTotalBytesTransfered := xs_nTotalBytesTransfered this + nBytesTransfered,
                       xs_pBufferPointer := xs_pBufferPointer this + ucast nBytesTransfered\<rparr>
       in do {
         st \<leftarrow> (if \<not> xs_bSplitTransaction this \<or> xs_bSplitComplete this
                then do {
                  ep \<leftarrow> deref (st_eps st) (xs_pEndpoint this);
                  ep \<leftarrow> USBEndpointSkipPID ep nPacketsTransfered (xs_bStatusStage this);
                  a \<leftarrow> xs_pEndpoint this;
                  Some (st\<lparr>st_eps := (st_eps st)(a \<mapsto> ep)\<rparr>) }
                else Some st);
         c_assert (nPacketsTransfered \<le> xs_nPackets this);
         let this = this\<lparr>xs_nPackets := xs_nPackets this - nPacketsTransfered\<rparr>;
         if xs_nTransferSize this - xs_nTotalBytesTransfered this < xs_nBytesPerTransaction this
         then do {
           c_assert (xs_nTotalBytesTransfered this \<le> xs_nTransferSize this);
           Some (st, this\<lparr>xs_nBytesPerTransaction :=
                            xs_nTransferSize this - xs_nTotalBytesTransfered this\<rparr>) }
         else Some (st, this) }))"

section \<open>Accessors\<close>

definition DWHCITransferStageDataSetSplitComplete ::
    "TDWHCITransferStageData \<Rightarrow> bool \<Rightarrow> TDWHCITransferStageData option" where
  "DWHCITransferStageDataSetSplitComplete this b = do {
     c_assert (xs_bSplitTransaction this); Some (this\<lparr>xs_bSplitComplete := b\<rparr>) }"

definition DWHCITransferStageDataSetState ::
    "TDWHCITransferStageData \<Rightarrow> TStageState \<Rightarrow> TDWHCITransferStageData" where
  "DWHCITransferStageDataSetState this s = this\<lparr>xs_nState := s\<rparr>"

definition DWHCITransferStageDataGetState :: "TDWHCITransferStageData \<Rightarrow> TStageState" where
  "DWHCITransferStageDataGetState this = xs_nState this"

definition DWHCITransferStageDataSetSubState ::
    "TDWHCITransferStageData \<Rightarrow> TStageSubState \<Rightarrow> TDWHCITransferStageData" where
  "DWHCITransferStageDataSetSubState this s = this\<lparr>xs_nSubState := s\<rparr>"

definition DWHCITransferStageDataGetSubState :: "TDWHCITransferStageData \<Rightarrow> TStageSubState" where
  "DWHCITransferStageDataGetSubState this = xs_nSubState this"

definition DWHCITransferStageDataBeginSplitCycle :: "TDWHCITransferStageData \<Rightarrow> bool" where
  "DWHCITransferStageDataBeginSplitCycle this = True"

definition DWHCITransferStageDataGetChannelNumber :: "TDWHCITransferStageData \<Rightarrow> u32" where
  "DWHCITransferStageDataGetChannelNumber this = xs_nChannel this"

definition DWHCITransferStageDataIsPeriodic ::
    "usb_store \<Rightarrow> TDWHCITransferStageData \<Rightarrow> bool option" where
  "DWHCITransferStageDataIsPeriodic st this = do {
     ep \<leftarrow> deref (st_eps st) (xs_pEndpoint this); Some (endpoint_periodic ep) }"

definition DWHCITransferStageDataGetDeviceAddress ::
    "usb_store \<Rightarrow> TDWHCITransferStageData \<Rightarrow> u8 option" where
  "DWHCITransferStageDataGetDeviceAddress st this = do {
     dev \<leftarrow> deref (st_devs st) (xs_pDevice this); Some (USBDeviceGetAddress dev) }"

definition DWHCITransferStageDataGetEndpointType ::
    "usb_store \<Rightarrow> TDWHCITransferStageData \<Rightarrow> u8 option" where
  "DWHCITransferStageDataGetEndpointType st this = do {
     ep \<leftarrow> deref (st_eps st) (xs_pEndpoint this);
     case USBEndpointGetType ep of
       EndpointTypeControl \<Rightarrow> Some 0
     | EndpointTypeBulk \<Rightarrow> Some 2
     | EndpointTypeInterrupt \<Rightarrow> Some 3
     | EndpointTypeIsochronous \<Rightarrow> None }"

definition DWHCITransferStageDataGetEndpointNumber ::
    "usb_store \<Rightarrow> TDWHCITransferStageData \<Rightarrow> u8 option" where
  "DWHCITransferStageDataGetEndpointNumber st this = do {
     ep \<leftarrow> deref (st_eps st) (xs_pEndpoint this); Some (USBEndpointGetNumber ep) }"

definition DWHCITransferStageDataGetMaxPacketSize :: "TDWHCITransferStageData \<Rightarrow> u32" where
  "DWHCITransferStageDataGetMaxPacketSize this = xs_nMaxPacketSize this"

definition DWHCITransferStageDataGetSpeed :: "TDWHCITransferStageData \<Rightarrow> TUSBSpeed" where
  "DWHCITransferStageDataGetSpeed this = xs_Speed this"

definition DWHCITransferStageDataGetPID ::
    "usb_store \<Rightarrow> TDWHCITransferStageData \<Rightarrow> u8 option" where
  "DWHCITransferStageDataGetPID st this = do {
     ep \<leftarrow> deref (st_eps st) (xs_pEndpoint this);
     pid \<leftarrow> USBEndpointGetNextPID ep (xs_bStatusStage this);
     Some (case pid of USBPIDSetup \<Rightarrow> 3 | USBPIDData0 \<Rightarrow> 0 | USBPIDData1 \<Rightarrow> 2) }"

definition DWHCITransferStageDataIsDirectionIn :: "TDWHCITransferStageData \<Rightarrow> bool" where
  "DWHCITransferStageDataIsDirectionIn this = xs_bIn this"

definition DWHCITransferStageDataIsStatusStage :: "TDWHCITransferStageData \<Rightarrow> bool" where
  "DWHCITransferStageDataIsStatusStage this = xs_bStatusStage this"

definition DWHCITransferStageDataGetDMAAddress :: "TDWHCITransferStageData \<Rightarrow> u32 option" where
  "DWHCITransferStageDataGetDMAAddress this = do {
     c_assert (xs_pBufferPointer this \<noteq> 0); Some (ucast (xs_pBufferPointer this)) }"

definition DWHCITransferStageDataGetBytesToTransfer :: "TDWHCITransferStageData \<Rightarrow> u32" where
  "DWHCITransferStageDataGetBytesToTransfer this = xs_nBytesPerTransaction this"

definition DWHCITransferStageDataGetPacketsToTransfer :: "TDWHCITransferStageData \<Rightarrow> u32" where
  "DWHCITransferStageDataGetPacketsToTransfer this = xs_nPacketsPerTransaction this"

definition DWHCITransferStageDataIsSplit :: "TDWHCITransferStageData \<Rightarrow> bool" where
  "DWHCITransferStageDataIsSplit this = xs_bSplitTransaction this"

definition DWHCITransferStageDataIsSplitComplete :: "TDWHCITransferStageData \<Rightarrow> bool option" where
  "DWHCITransferStageDataIsSplitComplete this = do {
     c_assert (xs_bSplitTransaction this); Some (xs_bSplitComplete this) }"

definition DWHCITransferStageDataGetHubAddress ::
    "usb_store \<Rightarrow> TDWHCITransferStageData \<Rightarrow> u8 option" where
  "DWHCITransferStageDataGetHubAddress st this = do {
     c_assert (xs_bSplitTransaction this);
     dev \<leftarrow> deref (st_devs st) (xs_pDevice this); Some (USBDeviceGetHubAddress dev) }"

definition DWHCITransferStageDataGetHubPortAddress ::
    "usb_store \<Rightarrow> TDWHCITransferStageData \<Rightarrow> u8 option" where
  "DWHCITransferStageDataGetHubPortAddress st this = do {
     c_assert (xs_bSplitTransaction this);
     dev \<leftarrow> deref (st_devs st) (xs_pDevice this); Some (USBDeviceGetHubPortNumber dev) }"

definition DWHCITransferStageDataGetSplitPosition :: "TDWHCITransferStageData \<Rightarrow> u8" where
  "DWHCITransferStageDataGetSplitPosition this = 3"

definition DWHCITransferStageDataGetStatusMask ::
    "usb_store \<Rightarrow> TDWHCITransferStageData \<Rightarrow> u32 option" where
  "DWHCITransferStageDataGetStatusMask st this = do {
     let nMask = DWHCI_HOST_CHAN_INT_XFER_COMPLETE OR DWHCI_HOST_CHAN_INT_HALTED
                 OR DWHCI_HOST_CHAN_INT_ERROR_MASK;
     bMore \<leftarrow> (if xs_bSplitTransaction this then Some True
              else DWHCITransferStageDataIsPeriodic st this);
     Some (if bMore then nMask OR DWHCI_HOST_CHAN_INT_ACK OR DWHCI_HOST_CHAN_INT_NAK
                         OR DWHCI_HOST_CHAN_INT_NYET
           else nMask) }"

definition DWHCITransferStageDataGetTransactionStatus :: "TDWHCITransferStageData \<Rightarrow> u32 option" where
  "DWHCITransferStageDataGetTransactionStatus this = do {
     c_assert (xs_nTransactionStatus this \<noteq> 0); Some (xs_nTransactionStatus this) }"

definition DWHCITransferStageDataIsStageComplete :: "TDWHCITransferStageData \<Rightarrow> bool" where
  "DWHCITransferStageDataIsStageComplete this \<longleftrightarrow> xs_nPackets this = 0"

definition DWHCITransferStageDataGetResultLen :: "TDWHCITransferStageData \<Rightarrow> u32" where
  "DWHCITransferStageDataGetResultLen this =
     (if xs_nTotalBytesTransfered this > xs_nTransferSize this then xs_nTransferSize this
      else xs_nTotalBytesTransfered this)"

definition DWHCITransferStageDataGetURB :: "TDWHCITransferStageData \<Rightarrow> addr option" where
  "DWHCITransferStageDataGetURB this = xs_pURB this"

definition DWHCITransferStageDataGetFrameScheduler ::
    "TDWHCITransferStageData \<Rightarrow> TDWHCIFrameScheduler option" where
  "DWHCITransferStageDataGetFrameScheduler this =
     (if \<not> xs_bFrameSchedulerUsed this then None else Some (xs_FrameScheduler this))"

lemmas stage_getters = DWHCITransferStageDataSetState_def DWHCITransferStageDataGetState_def
  DWHCITransferStageDataSetSubState_def DWHCITransferStageDataGetSubState_def
  DWHCITransferStageDataGetChannelNumber_def DWHCITransferStageDataIsDirectionIn_def
  DWHCITransferStageDataGetMaxPacketSize_def DWHCITransferStageDataGetSpeed_def
  DWHCITransferStageDataIsStatusStage_def DWHCITransferStageDataGetBytesToTransfer_def
  DWHCITransferStageDataGetPacketsToTransfer_def DWHCITransferStageDataIsSplit_def
  DWHCITransferStageDataIsStageComplete_def DWHCITransferStageDataGetURB_def
  DWHCITransferStageDataGetFrameScheduler_def DWHCITransferStageDataBeginSplitCycle_def

section \<open>A transaction that moved data\<close>

text \<open>
  \<open>moved\<close> is the number of bytes the stage counts for a transaction; the controller does not
  report it for complete-splits, where a whole packet is assumed.  \<open>advance\<close> is the stage
  after it.
\<close>

definition moved :: "TDWHCITransferStageData \<Rightarrow> u32 \<Rightarrow> u32 \<Rightarrow> u32" where
  "moved x nPacketsTransfered nBytes =
     (if xs_bSplitTransaction x \<and> xs_bSplitComplete x \<and> nBytes = 0 \<and> xs_nBytesPerTransaction x > 0
      then xs_nMaxPacketSize x * nPacketsTransfered else nBytes)"

definition advance :: "TDWHCITransferStageData \<Rightarrow> u32 \<Rightarrow> u32 \<Rightarrow> u32 \<Rightarrow> TDWHCITransferStageData" where
  "advance x nStatus np t =
     (let x = x\<lparr>xs_nTransactionStatus := nStatus,
                xs_nTotalBytesTransfered := xs_nTotalBytesTransfered x + t,
                xs_pBufferPointer := xs_pBufferPointer x + ucast t,
                xs_nPackets := xs_nPackets x - np\<rparr>
      in if xs_nTransferSize x - xs_nTotalBytesTransfered x < xs_nBytesPerTransaction x
         then x\<lparr>xs_nBytesPerTransaction := xs_nTransferSize x - xs_nTotalBytesTransfered x\<rparr> else x)"

definition status_stops :: "u32 \<Rightarrow> bool" where
  "status_stops nStatus \<longleftrightarrow> nStatus AND (DWHCI_HOST_CHAN_INT_ERROR_MASK OR DWHCI_HOST_CHAN_INT_NAK
                                          OR DWHCI_HOST_CHAN_INT_NYET) \<noteq> 0"

text \<open>The stage refers to a usable endpoint, a control endpoint in a status stage.\<close>

definition stage_endpoint :: "usb_store \<Rightarrow> TDWHCITransferStageData \<Rightarrow> bool" where
  "stage_endpoint st x \<longleftrightarrow> (\<exists>a ep. xs_pEndpoint x = Some a \<and> st_eps st a = Some ep \<and> endpoint_ok ep
      \<and> (xs_bStatusStage x \<longrightarrow> ep_Type ep = EndpointTypeControl))"

lemma moved_status [simp]: "moved (x\<lparr>xs_nTransactionStatus := s\<rparr>) = moved x"
  by (intro ext) (simp add: moved_def)

lemma TransactionComplete_stops:
  "status_stops nStatus \<Longrightarrow> DWHCITransferStageDataTransactionComplete st x nStatus pl bl
     = Some (st, x\<lparr>xs_nTransactionStatus := nStatus\<rparr>)"
  by (simp add: DWHCITransferStageDataTransactionComplete_def status_stops_def Let_def)

lemma TransactionComplete_eq:
  assumes a: "xs_pEndpoint x = Some a" "st_eps st a = Some ep"
    and sk: "USBEndpointSkipPID ep (xs_nPacketsPerTransaction x - pl) (xs_bStatusStage x) = Some ep'"
    and ns: "\<not> status_stops nStatus" and np: "xs_nPacketsPerTransaction x - pl \<le> xs_nPackets x"
    and tot: "t = moved x (xs_nPacketsPerTransaction x - pl) (xs_nBytesPerTransaction x - bl)"
    and fit: "xs_nTransferSize x - (xs_nTotalBytesTransfered x + t) < xs_nBytesPerTransaction x
              \<Longrightarrow> xs_nTotalBytesTransfered x + t \<le> xs_nTransferSize x"
  shows "DWHCITransferStageDataTransactionComplete st x nStatus pl bl
      = Some (if \<not> xs_bSplitTransaction x \<or> xs_bSplitComplete x
              then st\<lparr>st_eps := (st_eps st)(a \<mapsto> ep')\<rparr> else st,
              advance x nStatus (xs_nPacketsPerTransaction x - pl) t)"
  using a sk np ns fit
  by (cases "\<not> xs_bSplitTransaction x \<or> xs_bSplitComplete x";
      cases "xs_nTransferSize x - (xs_nTotalBytesTransfered x + t) < xs_nBytesPerTransaction x")
     (simp_all add: DWHCITransferStageDataTransactionComplete_def Let_def status_stops_def
        moved_def[symmetric] tot[symmetric] advance_def split del: if_split cong del: if_weak_cong)

lemma skip_type: "USBEndpointSkipPID ep n b = Some ep' \<Longrightarrow> ep_Type ep' = ep_Type ep"
  using skip_frame
  by (metis TUSBEndpoint.select_convs(3) TUSBEndpoint.surjective TUSBEndpoint.update_convs(7))

lemma TransactionComplete_advance:
  assumes ep: "stage_endpoint st x" and ns: "\<not> status_stops nStatus"
    and np: "xs_nPacketsPerTransaction x - pl \<le> xs_nPackets x"
    and tot: "t = moved x (xs_nPacketsPerTransaction x - pl) (xs_nBytesPerTransaction x - bl)"
    and fit: "xs_nTransferSize x - (xs_nTotalBytesTransfered x + t) < xs_nBytesPerTransaction x
              \<Longrightarrow> xs_nTotalBytesTransfered x + t \<le> xs_nTransferSize x"
  shows "\<exists>st'. DWHCITransferStageDataTransactionComplete st x nStatus pl bl
      = Some (st', advance x nStatus (xs_nPacketsPerTransaction x - pl) t) \<and> stage_endpoint st' x"
proof -
  from ep obtain a ep where a: "xs_pEndpoint x = Some a" "st_eps st a = Some ep" "endpoint_ok ep"
    and c: "xs_bStatusStage x \<longrightarrow> ep_Type ep = EndpointTypeControl"
    by (auto simp: stage_endpoint_def)
  from skip_defined[OF a(3) c] obtain ep' where
    sk: "USBEndpointSkipPID ep (xs_nPacketsPerTransaction x - pl) (xs_bStatusStage x) = Some ep'"
    and ok': "endpoint_ok ep'"
    by blast
  from TransactionComplete_eq[OF a(1,2) sk ns np tot fit] a c ok' skip_type[OF sk] show ?thesis
    by (auto simp: stage_endpoint_def)
qed

lemma stage_endpoint_cong:
  "stage_endpoint st x \<Longrightarrow> xs_pEndpoint y = xs_pEndpoint x \<Longrightarrow> xs_bStatusStage y = xs_bStatusStage x
   \<Longrightarrow> stage_endpoint st y"
  by (simp add: stage_endpoint_def)

lemma advance_simps [simp]:
  "xs_pEndpoint (advance x s np t) = xs_pEndpoint x"
  "xs_bStatusStage (advance x s np t) = xs_bStatusStage x"
  "xs_bSplitTransaction (advance x s np t) = xs_bSplitTransaction x"
  "xs_nPacketsPerTransaction (advance x s np t) = xs_nPacketsPerTransaction x"
  "xs_nMaxPacketSize (advance x s np t) = xs_nMaxPacketSize x"
  "xs_nTransferSize (advance x s np t) = xs_nTransferSize x"
  "xs_nPackets (advance x s np t) = xs_nPackets x - np"
  "xs_nTotalBytesTransfered (advance x s np t) = xs_nTotalBytesTransfered x + t"
  "xs_pBufferPointer (advance x s np t) = xs_pBufferPointer x + ucast t"
  "xs_nTransactionStatus (advance x s np t) = s" "xs_nState (advance x s np t) = xs_nState x"
  "xs_pURB (advance x s np t) = xs_pURB x"
  by (simp_all add: advance_def Let_def)

lemma advance_bytes:
  "xs_nBytesPerTransaction (advance x s np t) =
     (let left = xs_nTransferSize x - (xs_nTotalBytesTransfered x + t)
      in if left < xs_nBytesPerTransaction x then left else xs_nBytesPerTransaction x)"
  by (simp add: advance_def Let_def)

section \<open>Split stages\<close>

text \<open>
  A stage on a low- or full-speed device behind a high-speed hub moves one packet per
  transaction.  While packets are left, the bytes of the next transaction fit into the rest of the
  buffer and the buffer pointer is \<open>base\<close> plus the bytes moved so far.
\<close>

definition split_inv :: "uintptr \<Rightarrow> TDWHCITransferStageData \<Rightarrow> bool" where
  "split_inv base x \<longleftrightarrow>
     xs_bSplitTransaction x \<and> xs_nPacketsPerTransaction x = 1
     \<and> xs_nBytesPerTransaction x \<le> xs_nMaxPacketSize x
     \<and> unat (xs_nMaxPacketSize x) < 2 ^ 16
     \<and> unat (xs_nTransferSize x) + unat (xs_nMaxPacketSize x) < 2 ^ 32
     \<and> (xs_nPackets x \<noteq> 0 \<longrightarrow>
          unat (xs_nTotalBytesTransfered x) + unat (xs_nBytesPerTransaction x) \<le> unat (xs_nTransferSize x)
        \<and> unat (xs_nTotalBytesTransfered x) + (unat (xs_nPackets x) - 1) * unat (xs_nMaxPacketSize x)
            \<le> unat (xs_nTransferSize x)
        \<and> xs_pBufferPointer x = base + ucast (xs_nTotalBytesTransfered x))"

text \<open>
  What the controller reports for a transaction of one packet: it is done with at most the
  requested bytes moved, or it is not done and nothing was moved.
\<close>

definition hw_left :: "TDWHCITransferStageData \<Rightarrow> u32 \<Rightarrow> u32 \<Rightarrow> bool" where
  "hw_left x nPacketsLeft nBytesLeft \<longleftrightarrow>
     nPacketsLeft = 0 \<and> nBytesLeft \<le> xs_nBytesPerTransaction x
     \<or> nPacketsLeft = 1 \<and> nBytesLeft = xs_nBytesPerTransaction x"

inductive split_step :: "usb_store \<times> TDWHCITransferStageData \<Rightarrow> usb_store \<times> TDWHCITransferStageData \<Rightarrow> bool" where
  set_complete: "DWHCITransferStageDataSetSplitComplete x b = Some x' \<Longrightarrow> split_step (st, x) (st, x')"
| transaction: "\<not> DWHCITransferStageDataIsStageComplete x \<Longrightarrow> hw_left x pl bl \<Longrightarrow>
    DWHCITransferStageDataTransactionComplete st x nStatus pl bl = Some (st', x')
    \<Longrightarrow> split_step (st, x) (st', x')"

inductive_cases split_stepE: "split_step (st, x) (st', x')"

lemma moved_le:
  assumes "split_inv base x" and "hw_left x pl bl"
  shows "unat (moved x (1 - pl) (xs_nBytesPerTransaction x - bl)) \<le> unat (xs_nMaxPacketSize x)"
    and "pl = 1 \<Longrightarrow> moved x (1 - pl) (xs_nBytesPerTransaction x - bl) = 0"
proof -
  have b: "unat (xs_nBytesPerTransaction x) \<le> unat (xs_nMaxPacketSize x)"
    using assms by (simp add: split_inv_def word_le_nat_alt)
  show "unat (moved x (1 - pl) (xs_nBytesPerTransaction x - bl)) \<le> unat (xs_nMaxPacketSize x)"
    using assms b by (auto simp: hw_left_def moved_def unat_sub)
  show "pl = 1 \<Longrightarrow> moved x (1 - pl) (xs_nBytesPerTransaction x - bl) = 0"
    using assms by (auto simp: hw_left_def moved_def)
qed

lemma ucast_plus_no_wrap:
  fixes a b :: u32
  assumes "unat a + unat b < 2 ^ 32"
  shows "(ucast (a + b) :: u64) = ucast a + ucast b"
proof -
  have "unat a < 2 ^ 32" "unat b < 2 ^ 32" using assms by simp_all
  then have "unat (ucast a + ucast b :: u64) = unat a + unat b"
    using assms by (subst unat_plus_if_no_wrap) (simp_all add: unat_ucast_up)
  moreover have "unat (ucast (a + b) :: u64) = unat a + unat b"
    using assms by (simp add: unat_ucast_up unat_plus_if_no_wrap)
  ultimately show ?thesis by (simp add: word_unat_eq_iff)
qed

text \<open>The last packet may be counted in full although less was asked for: the rest wraps.\<close>

lemma wrapped_rest:
  fixes n t m b :: u32
  assumes "unat n < unat t" "unat t \<le> unat n + unat m" "b \<le> m" "unat m < 2 ^ 16"
  shows "\<not> n - t < b"
proof -
  have "unat (n - t) = 2 ^ 32 + unat n - unat t"
    using assms by (simp add: unat_sub_if' )
  with assms show ?thesis
    by (simp add: word_less_nat_alt word_le_nat_alt)
qed

lemma split_advance:
  assumes inv: "split_inv base x" and ep: "stage_endpoint st x" and hw: "hw_left x pl bl"
    and n: "xs_nPackets x \<noteq> 0" and ns: "\<not> status_stops nStatus"
  shows "\<exists>st' x'. DWHCITransferStageDataTransactionComplete st x nStatus pl bl = Some (st', x')
      \<and> split_inv base x' \<and> stage_endpoint st' x' \<and> xs_nTransferSize x' = xs_nTransferSize x"
proof -
  define t where "t = moved x (1 - pl) (xs_nBytesPerTransaction x - bl)"
  let ?tot = "unat (xs_nTotalBytesTransfered x)" and ?m = "unat (xs_nMaxPacketSize x)"
  let ?n = "unat (xs_nTransferSize x)" and ?p = "unat (xs_nPackets x)"
  have tm: "unat t \<le> ?m" and t1: "pl = 1 \<Longrightarrow> t = 0"
    using moved_le[OF inv hw] by (simp_all add: t_def)
  have pp: "xs_nPacketsPerTransaction x = 1" and bm: "xs_nBytesPerTransaction x \<le> xs_nMaxPacketSize x"
    and m16: "?m < 2 ^ 16" and nm: "?n + ?m < 2 ^ 32" and sp: "xs_bSplitTransaction x"
    and fits: "?tot + unat (xs_nBytesPerTransaction x) \<le> ?n" and room: "?tot + (?p - 1) * ?m \<le> ?n"
    and ptr: "xs_pBufferPointer x = base + ucast (xs_nTotalBytesTransfered x)"
    using inv n by (simp_all add: split_inv_def)
  have pl: "pl = 0 \<or> pl = 1" using hw by (auto simp: hw_left_def)
  have ut: "unat (xs_nTotalBytesTransfered x + t) = ?tot + unat t"
    using fits tm nm by (intro unat_plus_if_no_wrap) simp
  have np: "xs_nPacketsPerTransaction x - pl \<le> xs_nPackets x"
    using pp pl n by (auto simp: word_one_le)
  have fit: "xs_nTransferSize x - (xs_nTotalBytesTransfered x + t) < xs_nBytesPerTransaction x
     \<Longrightarrow> xs_nTotalBytesTransfered x + t \<le> xs_nTransferSize x"
    using wrapped_rest[of "xs_nTransferSize x" "xs_nTotalBytesTransfered x + t" "xs_nMaxPacketSize x"
        "xs_nBytesPerTransaction x"] ut tm fits bm m16
    by (force simp: word_le_nat_alt not_le)
  from TransactionComplete_advance[OF ep ns np _ fit, of bl] t_def pp obtain st' where
    tc: "DWHCITransferStageDataTransactionComplete st x nStatus pl bl
       = Some (st', advance x nStatus (1 - pl) t)"
    and ep': "stage_endpoint st' x"
    by auto
  have left: "?tot + unat t \<le> ?n \<and> ?tot + unat t + (unat (xs_nPackets x - (1 - pl)) - 1) * ?m \<le> ?n"
    if more: "xs_nPackets x - (1 - pl) \<noteq> 0"
  proof (cases "pl = 1")
    case True
    with t1 fits room show ?thesis by simp
  next
    case False
    with pl have pl0: "pl = 0" by simp
    have u: "unat (xs_nPackets x - 1) = ?p - 1"
      using n by (simp add: unat_sub word_one_le)
    with more pl0 have p2: "?p \<ge> 2" by (metis unat_eq_zero diff_zero nat_less_le not_less_eq_eq numeral_2_eq_2 diff_is_0_eq One_nat_def)
    then obtain k where k: "?p = Suc (Suc k)" by (metis add_2_eq_Suc le_Suc_ex)
    with room have "?tot + ?m + k * ?m \<le> ?n" by simp
    with tm u k pl0 show ?thesis by simp
  qed
  have rest: "unat (xs_nTransferSize x - (xs_nTotalBytesTransfered x + t)) = ?n - (?tot + unat t)"
    if "?tot + unat t \<le> ?n"
    using that ut by (subst unat_sub) (simp_all add: word_le_nat_alt)
  have uc: "(ucast (xs_nTotalBytesTransfered x + t) :: u64) = ucast (xs_nTotalBytesTransfered x) + ucast t"
    using fits tm nm by (intro ucast_plus_no_wrap) simp
  have "split_inv base (advance x nStatus (1 - pl) t)"
    using left rest bm pp m16 nm sp ut ptr uc
    by (auto simp: split_inv_def advance_bytes Let_def word_le_nat_alt word_less_nat_alt not_less)
  with tc ep' show ?thesis
    using stage_endpoint_cong[OF ep', of "advance x nStatus (1 - pl) t"] by auto
qed

lemma split_step_inv:
  assumes "split_step (st, x) (st', x')" and "split_inv base x" and "stage_endpoint st x"
  shows "split_inv base x' \<and> stage_endpoint st' x' \<and> xs_nTransferSize x' = xs_nTransferSize x"
  using assms(1)
proof (cases rule: split_step.cases)
  case (set_complete b)
  then show ?thesis
    using assms(2,3) by (auto simp: DWHCITransferStageDataSetSplitComplete_def split_inv_def
        stage_endpoint_def split: if_splits)
next
  case (transaction pl bl nStatus)
  then have n: "xs_nPackets x \<noteq> 0" by (simp add: DWHCITransferStageDataIsStageComplete_def)
  show ?thesis
  proof (cases "status_stops nStatus")
    case True
    with transaction assms(2,3) show ?thesis
      by (auto simp: TransactionComplete_stops split_inv_def stage_endpoint_def)
  next
    case False
    from split_advance[OF assms(2,3) transaction(2) n False] transaction(3) show ?thesis by auto
  qed
qed

lemma split_steps_inv:
  assumes "split_step\<^sup>*\<^sup>* s s'" and "split_inv base (snd s)" and "stage_endpoint (fst s) (snd s)"
  shows "split_inv base (snd s') \<and> stage_endpoint (fst s') (snd s')
         \<and> xs_nTransferSize (snd s') = xs_nTransferSize (snd s)"
  using assms
proof (induction rule: rtranclp_induct)
  case (step s' s'')
  then show ?case
    using split_step_inv[of "fst s'" "snd s'" "fst s''" "snd s''" base] by simp
qed simp

text \<open>What the constructor sets up.\<close>

lemma stage_ctor:
  assumes "DWHCITransferStageData st this nChannel pURB bIn bStatusStage = Some x"
  shows "\<exists>urb ep. deref (st_urbs st) pURB = Some urb \<and> deref (st_eps st) (urb_pEndpoint urb) = Some ep
     \<and> stage_sizes st urb ep (xs_bSplitTransaction x) bStatusStage (xs_pTempBuffer this)
         = Some (xs_nTransferSize x, xs_nPackets x, xs_nBytesPerTransaction x,
                 xs_nPacketsPerTransaction x, xs_pBufferPointer x)
     \<and> xs_nMaxPacketSize x = ep_nMaxPacketSize ep \<and> xs_pEndpoint x = urb_pEndpoint urb
     \<and> xs_nTotalBytesTransfered x = 0 \<and> xs_pBufferPointer x \<noteq> 0 \<and> xs_bStatusStage x = bStatusStage
     \<and> xs_bSplitComplete x = False"
  using assms
  by (clarsimp simp: DWHCITransferStageData_def bind_Some_iff if_Some_iff Let_def
      USBEndpointGetMaxPacketSize_def USBRequestGetEndpoint_def
      split del: if_split simp del: split_paired_Ex)

lemma stage_sizes_shape:
  assumes "stage_sizes st urb ep bSplit bStatusStage pTemp = Some (nSize, nPackets, nBytes, nPer, pBuf)"
  shows "if bStatusStage then nSize = 0 \<and> nPackets = 1 \<and> nBytes = 0 \<and> nPer = 1
     else ep_nMaxPacketSize ep \<noteq> 0
       \<and> nPackets = (nSize + ep_nMaxPacketSize ep - 1) div ep_nMaxPacketSize ep
       \<and> (if bSplit then nPer = 1 \<and> nBytes = min nSize (ep_nMaxPacketSize ep)
          else nPer = nPackets \<and> nBytes = nSize)"
  using assms
  by (cases bStatusStage; cases bSplit)
     (auto simp: stage_sizes_def bind_Some_iff if_Some_iff Let_def USBEndpointGetMaxPacketSize_def
        not_less split del: if_split split: if_split_asm)

lemma stage_sizes_ctor:
  assumes "DWHCITransferStageData st this nChannel pURB bIn bStatusStage = Some x"
  shows "if bStatusStage
     then xs_nTransferSize x = 0 \<and> xs_nPackets x = 1 \<and> xs_nBytesPerTransaction x = 0
          \<and> xs_nPacketsPerTransaction x = 1
     else xs_nMaxPacketSize x \<noteq> 0
       \<and> xs_nPackets x = (xs_nTransferSize x + xs_nMaxPacketSize x - 1) div xs_nMaxPacketSize x
       \<and> (if xs_bSplitTransaction x
          then xs_nPacketsPerTransaction x = 1
               \<and> xs_nBytesPerTransaction x = min (xs_nTransferSize x) (xs_nMaxPacketSize x)
          else xs_nPacketsPerTransaction x = xs_nPackets x
               \<and> xs_nBytesPerTransaction x = xs_nTransferSize x)"
  using stage_ctor[OF assms] stage_sizes_shape by fastforce

lemma packets_cover:
  fixes n m :: u32
  assumes "m \<noteq> 0" and "unat n + unat m < 2 ^ 32"
  shows "unat ((n + m - 1) div m) = (unat n + unat m - 1) div unat m"
proof -
  have "unat (n + m - 1) = unat n + unat m - 1"
  proof -
    have s: "unat (n + m) = unat n + unat m" using assms by (intro unat_plus_if_no_wrap) simp
    have "n + m \<noteq> 0"
      using s assms(1) by (metis add_is_0 unat_eq_zero)
    then show ?thesis using s by (simp add: unat_sub word_one_le)
  qed
  then show ?thesis by (simp add: unat_div)
qed

lemma ceiling_room:
  fixes n m :: nat
  assumes "0 < m" and "(n + m - 1) div m \<noteq> 0"
  shows "((n + m - 1) div m - 1) * m \<le> n"
proof -
  have "(n + m - 1) div m * m \<le> n + m - 1" by (rule div_times_less_eq_dividend)
  then show ?thesis using assms by (simp add: diff_mult_distrib del: div_times_less_eq_dividend)
qed

lemma split_ctor:
  assumes c: "DWHCITransferStageData st this nChannel pURB bIn bStatusStage = Some x"
    and "xs_bSplitTransaction x" and "unat (xs_nMaxPacketSize x) < 2 ^ 16"
    and "unat (xs_nTransferSize x) + unat (xs_nMaxPacketSize x) < 2 ^ 32"
  shows "split_inv (xs_pBufferPointer x) x"
proof (cases bStatusStage)
  case True
  with stage_sizes_ctor[OF c] stage_ctor[OF c] assms show ?thesis by (auto simp: split_inv_def)
next
  case False
  with stage_sizes_ctor[OF c] assms have p: "xs_nPackets x = (xs_nTransferSize x + xs_nMaxPacketSize x - 1) div xs_nMaxPacketSize x"
    and m0: "xs_nMaxPacketSize x \<noteq> 0" by simp_all
  note u = packets_cover[OF m0 assms(4)]
  have "unat (xs_nPackets x) \<noteq> 0 \<Longrightarrow> (unat (xs_nPackets x) - 1) * unat (xs_nMaxPacketSize x) \<le> unat (xs_nTransferSize x)"
    unfolding p u using ceiling_room m0 by (simp add: unat_gt_0)
  then show ?thesis
    using stage_sizes_ctor[OF c] stage_ctor[OF c] assms False by (auto simp: split_inv_def min_def unat_eq_zero word_le_nat_alt)
qed

section \<open>Properties of stages\<close>

text \<open>
  A request for 20 bytes on a bulk endpoint with packets of 8 bytes, of a full-speed device on
  port 2 of the hub with address 3 or, with hub address 0, on the root port.
\<close>

definition sample_store :: "u8 \<Rightarrow> usb_store" where
  "sample_store nHub =
     \<lparr>st_devs = [1 \<mapsto> \<lparr>dev_ucAddress = 5, dev_Speed = USBSpeedFull, dev_pEndpoint0 = None, dev_bSplitTransfer = (nHub \<noteq> 0),
                      dev_ucHubAddress = nHub, dev_ucHubPortNumber = 2\<rparr>],
      st_eps = [2 \<mapsto> \<lparr>ep_pDevice = Some 1, ep_ucNumber = 1, ep_Type = EndpointTypeBulk,
                     ep_bDirectionIn = True, ep_nMaxPacketSize = 8, ep_nInterval = 1,
                     ep_NextPID = USBPIDData0\<rparr>],
      st_urbs = [7 \<mapsto> \<lparr>urb_pEndpoint = Some 2, urb_pSetupData = None, urb_pBuffer = 0x1000,
                     urb_nBufLen = 20, urb_bStatus = False, urb_nResultLen = 0,
                     urb_pCompletionRoutine = None, urb_pCompletionParam = 0,
                     urb_pCompletionContext = 0\<rparr>]\<rparr>"

definition sample_memory :: TDWHCITransferStageData where
  "sample_memory = \<lparr>xs_nChannel = 0, xs_pURB = None, xs_bIn = False, xs_bStatusStage = False,
     xs_bSplitTransaction = False, xs_bSplitComplete = False, xs_pDevice = None, xs_pEndpoint = None,
     xs_Speed = USBSpeedUnknown, xs_nMaxPacketSize = 0, xs_nTransferSize = 0, xs_nPackets = 0,
     xs_nBytesPerTransaction = 0, xs_nPacketsPerTransaction = 0, xs_nTotalBytesTransfered = 0,
     xs_nState = StageStateNoSplitTransfer, xs_nSubState = StageSubStateWaitForChannelDisable,
     xs_nTransactionStatus = 0, xs_pTempBuffer = 0x2000, xs_pBufferPointer = 0,
     xs_bFrameSchedulerUsed = False,
     xs_FrameScheduler = FS_NoSplit (DWHCIFrameSchedulerNoSplit False), xs_uninit = 0\<rparr>"

definition sample_stage :: "u8 \<Rightarrow> TDWHCITransferStageData" where
  "sample_stage nHub = sample_memory\<lparr>xs_nChannel := 4, xs_pURB := Some 7, xs_bIn := True,
     xs_bSplitTransaction := (nHub \<noteq> 0), xs_pDevice := Some 1, xs_pEndpoint := Some 2,
     xs_Speed := USBSpeedFull, xs_nMaxPacketSize := 8, xs_nTransferSize := 20, xs_nPackets := 3,
     xs_nBytesPerTransaction := (if nHub \<noteq> 0 then 8 else 20),
     xs_nPacketsPerTransaction := (if nHub \<noteq> 0 then 1 else 3), xs_pBufferPointer := 0x1000,
     xs_bFrameSchedulerUsed := True,
     xs_FrameScheduler := (if nHub \<noteq> 0 then FS_NonPeriodic (DWHCIFrameSchedulerNonPeriodic 0)
                           else FS_NoSplit (DWHCIFrameSchedulerNoSplit False))\<rparr>"

lemma sample_stage_ctor:
  "DWHCITransferStageData (sample_store nHub) sample_memory 4 (Some 7) True False
     = Some (sample_stage nHub)"
  by (simp add: DWHCITransferStageData_def sample_store_def sample_stage_def sample_memory_def
      stage_sizes_def USBEndpointGetNextPID_def request_getters endpoint_getters device_getters
      USBRequestGetBuffer_def endpoint_periodic_def Let_def)

lemma sample_stage_endpoint: "stage_endpoint (sample_store nHub) (sample_stage nHub)"
  by (simp add: stage_endpoint_def sample_store_def sample_stage_def endpoint_ok_def sample_memory_def)

text \<open>
  Claim C1. A split stage never reaches past its buffer: from the state the constructor returns,
  through any sequence of transactions that the controller reports as \<open>hw_left\<close> describes and any
  changes of the complete-split flag, while packets are left the next transaction lies inside
  the buffer of the request, at the bytes already moved; the reported length never exceeds the
  buffer; and no assertion of the next transaction's completion fails.
\<close>

theorem split_stage_dma_in_bounds:
  assumes c: "DWHCITransferStageData st this nChannel pURB bIn bStatusStage = Some x"
    and "xs_bSplitTransaction x" and "stage_endpoint st x" and "unat (xs_nMaxPacketSize x) < 2 ^ 16"
    and "unat (xs_nTransferSize x) + unat (xs_nMaxPacketSize x) < 2 ^ 32"
    and r: "split_step\<^sup>*\<^sup>* (st, x) (st', x')"
  shows "(\<not> DWHCITransferStageDataIsStageComplete x' \<longrightarrow>
            xs_pBufferPointer x' = xs_pBufferPointer x + ucast (xs_nTotalBytesTransfered x')
          \<and> unat (xs_nTotalBytesTransfered x') + unat (DWHCITransferStageDataGetBytesToTransfer x')
              \<le> unat (xs_nTransferSize x)
          \<and> (\<forall>nStatus pl bl. hw_left x' pl bl \<longrightarrow>
                DWHCITransferStageDataTransactionComplete st' x' nStatus pl bl \<noteq> None))
       \<and> DWHCITransferStageDataGetResultLen x' \<le> xs_nTransferSize x"
proof -
  have "split_inv (xs_pBufferPointer x) x"
    by (rule split_ctor[OF c assms(2,4,5)])
  with split_steps_inv[OF r] assms(3) have inv: "split_inv (xs_pBufferPointer x) x'"
    and ep: "stage_endpoint st' x'" and sz: "xs_nTransferSize x' = xs_nTransferSize x" by simp_all
  have "DWHCITransferStageDataTransactionComplete st' x' nStatus pl bl \<noteq> None"
    if "hw_left x' pl bl" "xs_nPackets x' \<noteq> 0" for nStatus pl bl
    using split_advance[OF inv ep that(1) that(2), of nStatus]
    by (cases "status_stops nStatus") (auto simp: TransactionComplete_stops)
  with inv sz show ?thesis
    by (auto simp: split_inv_def stage_getters DWHCITransferStageDataGetResultLen_def)
qed

theorem split_stage_dma_in_bounds_witness:
  "\<exists>st' x'. split_step\<^sup>*\<^sup>* (sample_store 3, sample_stage 3) (st', x')
     \<and> xs_nTotalBytesTransfered x' = 8 \<and> \<not> DWHCITransferStageDataIsStageComplete x'
     \<and> xs_pBufferPointer x' = 0x1008
     \<and> unat (xs_nTotalBytesTransfered x') + unat (DWHCITransferStageDataGetBytesToTransfer x') \<le> 20"
proof -
  let ?ep = "\<lparr>ep_pDevice = Some 1, ep_ucNumber = 1, ep_Type = EndpointTypeBulk,
     ep_bDirectionIn = True, ep_nMaxPacketSize = 8, ep_nInterval = 1, ep_NextPID = USBPIDData0\<rparr>"
  let ?x = "(sample_stage 3)\<lparr>xs_bSplitComplete := True\<rparr>"
  have sk: "USBEndpointSkipPID ?ep (xs_nPacketsPerTransaction ?x - 0) (xs_bStatusStage ?x)
      = Some (?ep\<lparr>ep_NextPID := USBPIDData1\<rparr>)"
    by (simp add: USBEndpointSkipPID_def sample_stage_def sample_memory_def)
  have s1: "split_step (sample_store 3, sample_stage 3) (sample_store 3, ?x)"
    by (rule split_step.set_complete[of _ True])
       (simp add: DWHCITransferStageDataSetSplitComplete_def sample_stage_def)
  have tc: "DWHCITransferStageDataTransactionComplete (sample_store 3) ?x 1 0 0
    = Some ((sample_store 3)\<lparr>st_eps := (st_eps (sample_store 3))(2 \<mapsto> ?ep\<lparr>ep_NextPID := USBPIDData1\<rparr>)\<rparr>,
            advance ?x 1 1 8)"
  proof -
    have pp: "xs_nPacketsPerTransaction ?x - 0 = 1" "\<not> xs_bSplitTransaction ?x \<or> xs_bSplitComplete ?x"
      by (simp_all add: sample_stage_def)
    have "DWHCITransferStageDataTransactionComplete (sample_store 3) ?x 1 0 0
      = Some (if \<not> xs_bSplitTransaction ?x \<or> xs_bSplitComplete ?x
          then (sample_store 3)\<lparr>st_eps := (st_eps (sample_store 3))(2 \<mapsto> ?ep\<lparr>ep_NextPID := USBPIDData1\<rparr>)\<rparr>
          else sample_store 3, advance ?x 1 (xs_nPacketsPerTransaction ?x - 0) 8)"
      by (rule TransactionComplete_eq[OF _ _ sk])
         (simp_all add: sample_stage_def sample_store_def sample_memory_def status_stops_def
            chan_int_bits moved_def)
    with pp show ?thesis by (simp only: if_True)
  qed
  have s2: "split_step (sample_store 3, ?x)
     ((sample_store 3)\<lparr>st_eps := (st_eps (sample_store 3))(2 \<mapsto> ?ep\<lparr>ep_NextPID := USBPIDData1\<rparr>)\<rparr>,
      advance ?x 1 1 8)"
    by (rule split_step.transaction[OF _ _ tc])
       (simp_all add: stage_getters hw_left_def sample_stage_def sample_memory_def)
  note r = rtranclp.rtrancl_into_rtrancl[OF r_into_rtranclp[of split_step, OF s1] s2]
  let ?y = "advance ?x 1 1 8"
  have y: "\<not> DWHCITransferStageDataIsStageComplete ?y" "xs_nTotalBytesTransfered ?y = 8"
    by (simp_all add: stage_getters sample_stage_def sample_memory_def)
  have "xs_pBufferPointer ?y = 0x1008
      \<and> unat (xs_nTotalBytesTransfered ?y) + unat (DWHCITransferStageDataGetBytesToTransfer ?y) \<le> 20"
    using split_stage_dma_in_bounds[OF sample_stage_ctor _ sample_stage_endpoint _ _ r] y
    by (simp add: sample_stage_def)
  with r y show ?thesis by blast
qed

text \<open>
  A stage without split transactions is moved by one transaction.  When the controller
  reports \<open>pl\<close> packets and \<open>bl\<close> bytes left, within what was asked for, the completion returns; the
  result length is the buffer length less \<open>bl\<close>, the stage is complete exactly when no packet is
  left, and the endpoint's packet identifier has advanced by the packets moved.
\<close>

theorem whole_stage_result:
  assumes c: "DWHCITransferStageData st this nChannel pURB bIn bStatusStage = Some x"
    and ns: "\<not> xs_bSplitTransaction x" and ep: "stage_endpoint st x"
    and ok: "\<not> status_stops nStatus" and pl: "pl \<le> xs_nPackets x" and bl: "bl \<le> xs_nTransferSize x"
  shows "\<exists>a ep ep' x'. xs_pEndpoint x = Some a \<and> st_eps st a = Some ep
      \<and> USBEndpointSkipPID ep (xs_nPackets x - pl) bStatusStage = Some ep'
      \<and> DWHCITransferStageDataTransactionComplete st x nStatus pl bl
          = Some (st\<lparr>st_eps := (st_eps st)(a \<mapsto> ep')\<rparr>, x')
      \<and> DWHCITransferStageDataGetResultLen x' = xs_nTransferSize x - bl
      \<and> (DWHCITransferStageDataIsStageComplete x' \<longleftrightarrow> pl = 0)"
proof -
  from ep obtain a ep where a: "xs_pEndpoint x = Some a" "st_eps st a = Some ep" "endpoint_ok ep"
    and cs: "xs_bStatusStage x \<longrightarrow> ep_Type ep = EndpointTypeControl"
    by (auto simp: stage_endpoint_def)
  from skip_defined[OF a(3) cs] obtain ep' where
    sk: "USBEndpointSkipPID ep (xs_nPackets x - pl) (xs_bStatusStage x) = Some ep'" by blast
  have f: "xs_nPacketsPerTransaction x = xs_nPackets x" "xs_nBytesPerTransaction x = xs_nTransferSize x"
      "xs_nTotalBytesTransfered x = 0" "xs_bStatusStage x = bStatusStage"
    using stage_sizes_ctor[OF c] stage_ctor[OF c] ns by (auto split: if_splits)
  have le: "xs_nTransferSize x - bl \<le> xs_nTransferSize x" "xs_nPackets x - pl \<le> xs_nPackets x"
    using bl pl by (simp_all add: word_le_nat_alt unat_sub)
  have dn: "xs_nPackets x - (xs_nPackets x - pl) = 0 \<longleftrightarrow> pl = 0" by simp
  have tc: "DWHCITransferStageDataTransactionComplete st x nStatus pl bl
      = Some (st\<lparr>st_eps := (st_eps st)(a \<mapsto> ep')\<rparr>,
              advance x nStatus (xs_nPackets x - pl) (xs_nTransferSize x - bl))"
    using TransactionComplete_eq[OF a(1,2) _ ok, of pl ep' "xs_nTransferSize x - bl" bl] sk f le ns
    by (simp add: moved_def)
  have "DWHCITransferStageDataGetResultLen (advance x nStatus (xs_nPackets x - pl) (xs_nTransferSize x - bl))
      = xs_nTransferSize x - bl"
    using leD[OF le(1)] f by (simp add: DWHCITransferStageDataGetResultLen_def)
  with a sk f tc dn show ?thesis
    by (auto simp: stage_getters)
qed

theorem whole_stage_result_witness:
  "\<exists>ep' x'. DWHCITransferStageDataTransactionComplete (sample_store 0) (sample_stage 0) 1 0 5
          = Some ((sample_store 0)\<lparr>st_eps := (st_eps (sample_store 0))(2 \<mapsto> ep')\<rparr>, x')
      \<and> DWHCITransferStageDataGetResultLen x' = 15 \<and> DWHCITransferStageDataIsStageComplete x'"
  using whole_stage_result[OF sample_stage_ctor[of 0] _ sample_stage_endpoint, of 1 0 5]
  by (simp add: sample_stage_def status_stops_def chan_int_bits) blast

end
