(* ===== verification/HostCore.thy ===== *)
theory HostCore
  imports XferStage
begin

text \<open>
  The controller-wide part of \<^verbatim>\<open>ext/uspi/lib/dwhcidevice.c\<close>: the host object, the pool of host
  channels, reset and initialisation of the core, the root port, the FIFOs and the interrupt masks.
  Memory barriers, log messages and critical sections have no effect on this state: the code here
  runs with interrupts disabled or touches registers that no interrupt handler changes.
\<close>

section \<open>Register fields\<close>

definition DWHCI_CORE_AHB_CFG_GLOBALINT_MASK :: u32 where "DWHCI_CORE_AHB_CFG_GLOBALINT_MASK = push_bit 0 1"
definition DWHCI_CORE_AHB_CFG_MAX_AXI_BURST__MASK :: u32 where
  "DWHCI_CORE_AHB_CFG_MAX_AXI_BURST__MASK = push_bit 1 3"
definition DWHCI_CORE_AHB_CFG_WAIT_AXI_WRITES :: u32 where "DWHCI_CORE_AHB_CFG_WAIT_AXI_WRITES = push_bit 4 1"
definition DWHCI_CORE_AHB_CFG_DMAENABLE :: u32 where "DWHCI_CORE_AHB_CFG_DMAENABLE = push_bit 5 1"
definition DWHCI_CORE_USB_CFG_PHYIF :: u32 where "DWHCI_CORE_USB_CFG_PHYIF = push_bit 3 1"
definition DWHCI_CORE_USB_CFG_ULPI_UTMI_SEL :: u32 where "DWHCI_CORE_USB_CFG_ULPI_UTMI_SEL = push_bit 4 1"
definition DWHCI_CORE_USB_CFG_SRP_CAPABLE :: u32 where "DWHCI_CORE_USB_CFG_SRP_CAPABLE = push_bit 8 1"
definition DWHCI_CORE_USB_CFG_HNP_CAPABLE :: u32 where "DWHCI_CORE_USB_CFG_HNP_CAPABLE = push_bit 9 1"
definition DWHCI_CORE_USB_CFG_ULPI_FSLS :: u32 where "DWHCI_CORE_USB_CFG_ULPI_FSLS = push_bit 17 1"
definition DWHCI_CORE_USB_CFG_ULPI_CLK_SUS_M :: u32 where "DWHCI_CORE_USB_CFG_ULPI_CLK_SUS_M = push_bit 19 1"
definition DWHCI_CORE_USB_CFG_ULPI_EXT_VBUS_DRV :: u32 where
  "DWHCI_CORE_USB_CFG_ULPI_EXT_VBUS_DRV = push_bit 20 1"
definition DWHCI_CORE_USB_CFG_TERM_SEL_DL_PULSE :: u32 where
  "DWHCI_CORE_USB_CFG_TERM_SEL_DL_PULSE = push_bit 22 1"
definition DWHCI_CORE_RESET_SOFT_RESET :: u32 where "DWHCI_CORE_RESET_SOFT_RESET = push_bit 0 1"
definition DWHCI_CORE_RESET_RX_FIFO_FLUSH :: u32 where "DWHCI_CORE_RESET_RX_FIFO_FLUSH = push_bit 4 1"
definition DWHCI_CORE_RESET_TX_FIFO_FLUSH :: u32 where "DWHCI_CORE_RESET_TX_FIFO_FLUSH = push_bit 5 1"
definition DWHCI_CORE_RESET_TX_FIFO_NUM__SHIFT :: nat where "DWHCI_CORE_RESET_TX_FIFO_NUM__SHIFT = 6"
definition DWHCI_CORE_RESET_TX_FIFO_NUM__MASK :: u32 where "DWHCI_CORE_RESET_TX_FIFO_NUM__MASK = push_bit 6 0x1F"
definition DWHCI_CORE_RESET_AHB_IDLE :: u32 where "DWHCI_CORE_RESET_AHB_IDLE = push_bit 31 1"
definition DWHCI_CORE_INT_MASK_HC_INTR :: u32 where "DWHCI_CORE_INT_MASK_HC_INTR = push_bit 25 1"
definition DWHCI_CORE_HW_CFG2_ARCHITECTURE :: "u32 \<Rightarrow> u32" where
  "DWHCI_CORE_HW_CFG2_ARCHITECTURE reg = drop_bit 3 reg AND 3"
definition DWHCI_CORE_HW_CFG2_HS_PHY_TYPE :: "u32 \<Rightarrow> u32" where
  "DWHCI_CORE_HW_CFG2_HS_PHY_TYPE reg = drop_bit 6 reg AND 3"
definition DWHCI_CORE_HW_CFG2_HS_PHY_TYPE_ULPI :: u32 where "DWHCI_CORE_HW_CFG2_HS_PHY_TYPE_ULPI = 2"
definition DWHCI_CORE_HW_CFG2_FS_PHY_TYPE :: "u32 \<Rightarrow> u32" where
  "DWHCI_CORE_HW_CFG2_FS_PHY_TYPE reg = drop_bit 8 reg AND 3"
definition DWHCI_CORE_HW_CFG2_FS_PHY_TYPE_DEDICATED :: u32 where
  "DWHCI_CORE_HW_CFG2_FS_PHY_TYPE_DEDICATED = 1"
definition DWHCI_CORE_HW_CFG2_NUM_HOST_CHANNELS :: "u32 \<Rightarrow> u32" where
  "DWHCI_CORE_HW_CFG2_NUM_HOST_CHANNELS reg = (drop_bit 14 reg AND 0xF) + 1"
definition DWHCI_HOST_CFG_FSLS_PCLK_SEL__MASK :: u32 where "DWHCI_HOST_CFG_FSLS_PCLK_SEL__MASK = push_bit 0 3"
definition DWHCI_HOST_CFG_FSLS_PCLK_SEL_30_60_MHZ :: u32 where "DWHCI_HOST_CFG_FSLS_PCLK_SEL_30_60_MHZ = 0"
definition DWHCI_HOST_CFG_FSLS_PCLK_SEL_48_MHZ :: u32 where "DWHCI_HOST_CFG_FSLS_PCLK_SEL_48_MHZ = 1"
definition DWHCI_HOST_PORT_CONNECT :: u32 where "DWHCI_HOST_PORT_CONNECT = push_bit 0 1"
definition DWHCI_HOST_PORT_CONNECT_CHANGED :: u32 where "DWHCI_HOST_PORT_CONNECT_CHANGED = push_bit 1 1"
definition DWHCI_HOST_PORT_ENABLE :: u32 where "DWHCI_HOST_PORT_ENABLE = push_bit 2 1"
definition DWHCI_HOST_PORT_ENABLE_CHANGED :: u32 where "DWHCI_HOST_PORT_ENABLE_CHANGED = push_bit 3 1"
definition DWHCI_HOST_PORT_OVERCURRENT :: u32 where "DWHCI_HOST_PORT_OVERCURRENT = push_bit 4 1"
definition DWHCI_HOST_PORT_OVERCURRENT_CHANGED :: u32 where
  "DWHCI_HOST_PORT_OVERCURRENT_CHANGED = push_bit 5 1"
definition DWHCI_HOST_PORT_RESET :: u32 where "DWHCI_HOST_PORT_RESET = push_bit 8 1"
definition DWHCI_HOST_PORT_POWER :: u32 where "DWHCI_HOST_PORT_POWER = push_bit 12 1"
definition DWHCI_HOST_PORT_SPEED :: "u32 \<Rightarrow> u32" where
  "DWHCI_HOST_PORT_SPEED reg = drop_bit 17 reg AND 3"
definition DWHCI_HOST_PORT_DEFAULT_MASK :: u32 where
  "DWHCI_HOST_PORT_DEFAULT_MASK = DWHCI_HOST_PORT_CONNECT_CHANGED OR DWHCI_HOST_PORT_ENABLE
     OR DWHCI_HOST_PORT_ENABLE_CHANGED OR DWHCI_HOST_PORT_OVERCURRENT_CHANGED"

definition DWC_CFG_HOST_RX_FIFO_SIZE :: u32 where "DWC_CFG_HOST_RX_FIFO_SIZE = 1024"
definition DWC_CFG_HOST_NPER_TX_FIFO_SIZE :: u32 where "DWC_CFG_HOST_NPER_TX_FIFO_SIZE = 1024"
definition DWC_CFG_HOST_PER_TX_FIFO_SIZE :: u32 where "DWC_CFG_HOST_PER_TX_FIFO_SIZE = 1024"

lemmas port_bits = DWHCI_HOST_PORT_CONNECT_def DWHCI_HOST_PORT_CONNECT_CHANGED_def
  DWHCI_HOST_PORT_ENABLE_def DWHCI_HOST_PORT_ENABLE_CHANGED_def DWHCI_HOST_PORT_OVERCURRENT_def
  DWHCI_HOST_PORT_OVERCURRENT_CHANGED_def DWHCI_HOST_PORT_RESET_def DWHCI_HOST_PORT_POWER_def
  DWHCI_HOST_PORT_DEFAULT_MASK_def

section \<open>The host object\<close>

record TDWHCIDevice =
  hd_nChannels :: u32
  hd_nChannelAllocated :: u32 \<comment> \<open>one bit per channel, set if allocated\<close>
  hd_StageData :: "TDWHCITransferStageData list" \<comment> \<open>\<^verbatim>\<open>DWHCI_MAX_CHANNELS\<close> elements\<close>
  hd_bWaiting :: bool

text \<open>The constructor; \<open>mem\<close> is what the array of stage data holds before.\<close>

definition DWHCIDevice :: "TDWHCITransferStageData list \<Rightarrow> TDWHCIDevice" where
  "DWHCIDevice mem = \<lparr>hd_nChannels = 0, hd_nChannelAllocated = 0, hd_StageData = mem,
                      hd_bWaiting = False\<rparr>"

section \<open>Waiting for a bit\<close>

lemma word_dec2_less: "n \<noteq> 1 \<Longrightarrow> unat (n - 2 :: u32) < unat (n - 1)"
  using word_dec_less[of "n - 1"] by simp

function wait_for_bit_loop ::
    "TDWHCIRegister \<Rightarrow> u32 \<Rightarrow> bool \<Rightarrow> u32 \<Rightarrow> mmio \<Rightarrow> bool \<times> TDWHCIRegister \<times> mmio" where
  "wait_for_bit_loop r nMask bWaitUntilSet nMsTimeout io =
     (let (v, r, io) = DWHCIRegisterRead r io
      in if (if v AND nMask \<noteq> 0 then \<not> bWaitUntilSet else bWaitUntilSet)
         then let io = msDelay 1 io; nMsTimeout = nMsTimeout - 1
              in if nMsTimeout = 0 then (False, r, io)
                 else wait_for_bit_loop r nMask bWaitUntilSet nMsTimeout io
         else (True, r, io))"
  by pat_completeness auto

termination
  by (relation "measure (\<lambda>(_, _, _, n, _). unat (n - 1))") (auto simp: word_dec2_less)

declare wait_for_bit_loop.simps [simp del]

definition DWHCIDeviceWaitForBit ::
    "TDWHCIRegister \<Rightarrow> u32 \<Rightarrow> bool \<Rightarrow> u32 \<Rightarrow> mmio \<Rightarrow> (bool \<times> TDWHCIRegister \<times> mmio) option" where
  "DWHCIDeviceWaitForBit r nMask bWaitUntilSet nMsTimeout io = do {
     c_assert (nMask \<noteq> 0);
     c_assert (nMsTimeout > 0);
     Some (wait_for_bit_loop r nMask bWaitUntilSet nMsTimeout io) }"

section \<open>Channels\<close>

function alloc_scan :: "u32 \<Rightarrow> u32 \<Rightarrow> u32 \<Rightarrow> u32 \<Rightarrow> u32 \<times> u32" where
  "alloc_scan nChannels nAllocated nChannel nChannelMask =
     (if nChannel < nChannels
      then if nAllocated AND nChannelMask = 0 then (nChannel, nAllocated OR nChannelMask)
           else alloc_scan nChannels nAllocated (nChannel + 1) (push_bit 1 nChannelMask)
      else (DWHCI_MAX_CHANNELS, nAllocated))"
  by pat_completeness auto

termination
  by (relation "measure (\<lambda>(n, _, c, _). unat n - unat c)")
     (auto simp: word_less_nat_alt unat_inc_less)

declare alloc_scan.simps [simp del]

definition DWHCIDeviceAllocateChannel :: "TDWHCIDevice \<Rightarrow> u32 \<times> TDWHCIDevice" where
  "DWHCIDeviceAllocateChannel d =
     (let (nChannel, nAllocated) = alloc_scan (hd_nChannels d) (hd_nChannelAllocated d) 0 1
      in (nChannel, d\<lparr>hd_nChannelAllocated := nAllocated\<rparr>))"

definition DWHCIDeviceFreeChannel :: "TDWHCIDevice \<Rightarrow> u32 \<Rightarrow> TDWHCIDevice option" where
  "DWHCIDeviceFreeChannel d nChannel = do {
     c_assert (nChannel < hd_nChannels d);
     let nChannelMask = push_bit (unat nChannel) 1;
     c_assert (hd_nChannelAllocated d AND nChannelMask \<noteq> 0);
     Some (d\<lparr>hd_nChannelAllocated := hd_nChannelAllocated d AND NOT nChannelMask\<rparr>) }"

section \<open>Interrupt masks\<close>

definition DWHCIDeviceEnableGlobalInterrupts :: "mmio \<Rightarrow> mmio option" where
  "DWHCIDeviceEnableGlobalInterrupts io = do {
     let (_, AHBConfig, io) = DWHCIRegisterRead (DWHCIRegister DWHCI_CORE_AHB_CFG) io;
     AHBConfig \<leftarrow> DWHCIRegisterOr AHBConfig DWHCI_CORE_AHB_CFG_GLOBALINT_MASK;
     DWHCIRegisterWrite AHBConfig io }"

definition DWHCIDeviceEnableCommonInterrupts :: "mmio \<Rightarrow> mmio option" where
  "DWHCIDeviceEnableCommonInterrupts io =
     DWHCIRegisterWrite (DWHCIRegisterSetAll (DWHCIRegister DWHCI_CORE_INT_STAT)) io"

definition DWHCIDeviceEnableHostInterrupts :: "mmio \<Rightarrow> mmio option" where
  "DWHCIDeviceEnableHostInterrupts io = do {
     let IntMask = DWHCIRegister2 DWHCI_CORE_INT_MASK 0;
     io \<leftarrow> DWHCIRegisterWrite IntMask io;
     io \<leftarrow> DWHCIDeviceEnableCommonInterrupts io;
     let (_, IntMask, io) = DWHCIRegisterRead IntMask io;
     IntMask \<leftarrow> DWHCIRegisterOr IntMask DWHCI_CORE_INT_MASK_HC_INTR;
     DWHCIRegisterWrite IntMask io }"

definition DWHCIDeviceEnableChannelInterrupt :: "u32 \<Rightarrow> mmio \<Rightarrow> mmio option" where
  "DWHCIDeviceEnableChannelInterrupt nChannel io = do {
     let (_, r, io) = DWHCIRegisterRead (DWHCIRegister DWHCI_HOST_ALLCHAN_INT_MASK) io;
     r \<leftarrow> DWHCIRegisterOr r (push_bit (unat nChannel) 1);
     DWHCIRegisterWrite r io }"

definition DWHCIDeviceDisableChannelInterrupt :: "u32 \<Rightarrow> mmio \<Rightarrow> mmio option" where
  "DWHCIDeviceDisableChannelInterrupt nChannel io = do {
     let (_, r, io) = DWHCIRegisterRead (DWHCIRegister DWHCI_HOST_ALLCHAN_INT_MASK) io;
     r \<leftarrow> DWHCIRegisterAnd r (NOT (push_bit (unat nChannel) 1));
     DWHCIRegisterWrite r io }"

section \<open>Reset and FIFOs\<close>

definition DWHCIDeviceReset :: "mmio \<Rightarrow> (bool \<times> mmio) option" where
  "DWHCIDeviceReset io = do {
     let Reset = DWHCIRegister2 DWHCI_CORE_RESET 0;
     (ok, Reset, io) \<leftarrow> DWHCIDeviceWaitForBit Reset DWHCI_CORE_RESET_AHB_IDLE True 100 io;
     if \<not> ok then Some (False, io) else do {
       Reset \<leftarrow> DWHCIRegisterOr Reset DWHCI_CORE_RESET_SOFT_RESET;
       io \<leftarrow> DWHCIRegisterWrite Reset io;
       (ok, Reset, io) \<leftarrow> DWHCIDeviceWaitForBit Reset DWHCI_CORE_RESET_SOFT_RESET False 10 io;
       if \<not> ok then Some (False, io) else Some (True, msDelay 100 io) } }"

definition DWHCIDeviceFlushTxFIFO :: "u32 \<Rightarrow> mmio \<Rightarrow> mmio option" where
  "DWHCIDeviceFlushTxFIFO nFIFO io = do {
     let Reset = DWHCIRegister2 DWHCI_CORE_RESET 0;
     Reset \<leftarrow> DWHCIRegisterOr Reset DWHCI_CORE_RESET_TX_FIFO_FLUSH;
     Reset \<leftarrow> DWHCIRegisterAnd Reset (NOT DWHCI_CORE_RESET_TX_FIFO_NUM__MASK);
     Reset \<leftarrow> DWHCIRegisterOr Reset (push_bit DWHCI_CORE_RESET_TX_FIFO_NUM__SHIFT nFIFO);
     io \<leftarrow> DWHCIRegisterWrite Reset io;
     (ok, Reset, io) \<leftarrow> DWHCIDeviceWaitForBit Reset DWHCI_CORE_RESET_TX_FIFO_FLUSH False 10 io;
     Some (if ok then usDelay 1 io else io) }"

definition DWHCIDeviceFlushRxFIFO :: "mmio \<Rightarrow> mmio option" where
  "DWHCIDeviceFlushRxFIFO io = do {
     let Reset = DWHCIRegister2 DWHCI_CORE_RESET 0;
     Reset \<leftarrow> DWHCIRegisterOr Reset DWHCI_CORE_RESET_RX_FIFO_FLUSH;
     io \<leftarrow> DWHCIRegisterWrite Reset io;
     (ok, Reset, io) \<leftarrow> DWHCIDeviceWaitForBit Reset DWHCI_CORE_RESET_RX_FIFO_FLUSH False 10 io;
     Some (if ok then usDelay 1 io else io) }"

section \<open>Initialisation\<close>

definition ulpi_dedicated :: "u32 \<Rightarrow> bool" where
  "ulpi_dedicated nHWConfig2 \<longleftrightarrow>
     DWHCI_CORE_HW_CFG2_HS_PHY_TYPE nHWConfig2 = DWHCI_CORE_HW_CFG2_HS_PHY_TYPE_ULPI
     \<and> DWHCI_CORE_HW_CFG2_FS_PHY_TYPE nHWConfig2 = DWHCI_CORE_HW_CFG2_FS_PHY_TYPE_DEDICATED"

definition DWHCIDeviceInitCore :: "TDWHCIDevice \<Rightarrow> mmio \<Rightarrow> (bool \<times> TDWHCIDevice \<times> mmio) option" where
  "DWHCIDeviceInitCore d io = do {
     let (_, USBConfig, io) = DWHCIRegisterRead (DWHCIRegister DWHCI_CORE_USB_CFG) io;
     USBConfig \<leftarrow> DWHCIRegisterAnd USBConfig (NOT DWHCI_CORE_USB_CFG_ULPI_EXT_VBUS_DRV);
     USBConfig \<leftarrow> DWHCIRegisterAnd USBConfig (NOT DWHCI_CORE_USB_CFG_TERM_SEL_DL_PULSE);
     io \<leftarrow> DWHCIRegisterWrite USBConfig io;
     (ok, io) \<leftarrow> DWHCIDeviceReset io;
     if \<not> ok then Some (False, d, io) else do {
       let (_, USBConfig, io) = DWHCIRegisterRead USBConfig io;
       USBConfig \<leftarrow> DWHCIRegisterAnd USBConfig (NOT DWHCI_CORE_USB_CFG_ULPI_UTMI_SEL);
       USBConfig \<leftarrow> DWHCIRegisterAnd USBConfig (NOT DWHCI_CORE_USB_CFG_PHYIF);
       io \<leftarrow> DWHCIRegisterWrite USBConfig io;
       let (nHWConfig2, HWConfig2, io) = DWHCIRegisterRead (DWHCIRegister DWHCI_CORE_HW_CFG2) io;
       c_assert (DWHCI_CORE_HW_CFG2_ARCHITECTURE nHWConfig2 = 2);
       let (_, USBConfig, io) = DWHCIRegisterRead USBConfig io;
       USBConfig \<leftarrow>
         (if ulpi_dedicated nHWConfig2 then do {
            USBConfig \<leftarrow> DWHCIRegisterOr USBConfig DWHCI_CORE_USB_CFG_ULPI_FSLS;
            DWHCIRegisterOr USBConfig DWHCI_CORE_USB_CFG_ULPI_CLK_SUS_M }
          else do {
            USBConfig \<leftarrow> DWHCIRegisterAnd USBConfig (NOT DWHCI_CORE_USB_CFG_ULPI_FSLS);
            DWHCIRegisterAnd USBConfig (NOT DWHCI_CORE_USB_CFG_ULPI_CLK_SUS_M) });
       io \<leftarrow> DWHCIRegisterWrite USBConfig io;
       c_assert (hd_nChannels d = 0);
       let nChannels = DWHCI_CORE_HW_CFG2_NUM_HOST_CHANNELS nHWConfig2;
       let d = d\<lparr>hd_nChannels := nChannels\<rparr>;
       c_assert (4 \<le> nChannels \<and> nChannels \<le> DWHCI_MAX_CHANNELS);
       let (_, AHBConfig, io) = DWHCIRegisterRead (DWHCIRegister DWHCI_CORE_AHB_CFG) io;
       AHBConfig \<leftarrow> DWHCIRegisterOr AHBConfig DWHCI_CORE_AHB_CFG_DMAENABLE;
       AHBConfig \<leftarrow> DWHCIRegisterOr AHBConfig DWHCI_CORE_AHB_CFG_WAIT_AXI_WRITES;
       AHBConfig \<leftarrow> DWHCIRegisterAnd AHBConfig (NOT DWHCI_CORE_AHB_CFG_MAX_AXI_BURST__MASK);
       io \<leftarrow> DWHCIRegisterWrite AHBConfig io;
       let (_, USBConfig, io) = DWHCIRegisterRead USBConfig io;
       USBConfig \<leftarrow> DWHCIRegisterAnd USBConfig (NOT DWHCI_CORE_USB_CFG_HNP_CAPABLE);
       USBConfig \<leftarrow> DWHCIRegisterAnd USBConfig (NOT DWHCI_CORE_USB_CFG_SRP_CAPABLE);
       io \<leftarrow> DWHCIRegisterWrite USBConfig io;
       io \<leftarrow> DWHCIDeviceEnableCommonInterrupts io;
       Some (True, d, io) } }"

text \<open>
  The clock selection.  The third operand of the conjunction reads the USB configuration
  register; it is evaluated only when the first two hold.
\<close>

definition init_host_config :: "mmio \<Rightarrow> mmio option" where
  "init_host_config io = do {
     io \<leftarrow> DWHCIRegisterWrite (DWHCIRegister2 ARM_USB_POWER 0) io;
     let (_, HostConfig, io) = DWHCIRegisterRead (DWHCIRegister DWHCI_HOST_CFG) io;
     HostConfig \<leftarrow> DWHCIRegisterAnd HostConfig (NOT DWHCI_HOST_CFG_FSLS_PCLK_SEL__MASK);
     let (nHWConfig2, HWConfig2, io) = DWHCIRegisterRead (DWHCIRegister DWHCI_CORE_HW_CFG2) io;
     let (b, io) =
       (if ulpi_dedicated nHWConfig2
        then let (v, USBConfig, io) = DWHCIRegisterRead (DWHCIRegister DWHCI_CORE_USB_CFG) io
             in (v AND DWHCI_CORE_USB_CFG_ULPI_FSLS \<noteq> 0, io)
        else (False, io));
     HostConfig \<leftarrow> DWHCIRegisterOr HostConfig
       (if b then DWHCI_HOST_CFG_FSLS_PCLK_SEL_48_MHZ else DWHCI_HOST_CFG_FSLS_PCLK_SEL_30_60_MHZ);
     DWHCIRegisterWrite HostConfig io }"

definition init_fifo_sizes :: "mmio \<Rightarrow> mmio option" where
  "init_fifo_sizes io = do {
     io \<leftarrow> DWHCIRegisterWrite (DWHCIRegister2 DWHCI_CORE_RX_FIFO_SIZ DWC_CFG_HOST_RX_FIFO_SIZE) io;
     NPTx \<leftarrow> DWHCIRegisterOr (DWHCIRegister2 DWHCI_CORE_NPER_TX_FIFO_SIZ 0) DWC_CFG_HOST_RX_FIFO_SIZE;
     NPTx \<leftarrow> DWHCIRegisterOr NPTx (push_bit 16 DWC_CFG_HOST_NPER_TX_FIFO_SIZE);
     io \<leftarrow> DWHCIRegisterWrite NPTx io;
     HPTx \<leftarrow> DWHCIRegisterOr (DWHCIRegister2 DWHCI_CORE_HOST_PER_TX_FIFO_SIZ 0)
               (DWC_CFG_HOST_RX_FIFO_SIZE + DWC_CFG_HOST_NPER_TX_FIFO_SIZE);
     HPTx \<leftarrow> DWHCIRegisterOr HPTx (push_bit 16 DWC_CFG_HOST_PER_TX_FIFO_SIZE);
     DWHCIRegisterWrite HPTx io }"

definition init_port_power :: "mmio \<Rightarrow> mmio option" where
  "init_port_power io = do {
     let (_, HostPort, io) = DWHCIRegisterRead (DWHCIRegister DWHCI_HOST_PORT) io;
     HostPort \<leftarrow> DWHCIRegisterAnd HostPort (NOT DWHCI_HOST_PORT_DEFAULT_MASK);
     nHostPort \<leftarrow> DWHCIRegisterGet HostPort;
     if nHostPort AND DWHCI_HOST_PORT_POWER = 0
     then do { HostPort \<leftarrow> DWHCIRegisterOr HostPort DWHCI_HOST_PORT_POWER;
               DWHCIRegisterWrite HostPort io }
     else Some io }"

definition DWHCIDeviceInitHost :: "mmio \<Rightarrow> (bool \<times> mmio) option" where
  "DWHCIDeviceInitHost io = do {
     io \<leftarrow> init_host_config io;
     io \<leftarrow> init_fifo_sizes io;
     io \<leftarrow> DWHCIDeviceFlushTxFIFO 0x10 io;
     io \<leftarrow> DWHCIDeviceFlushRxFIFO io;
     io \<leftarrow> init_port_power io;
     io \<leftarrow> DWHCIDeviceEnableHostInterrupts io;
     Some (True, io) }"

definition DWHCIDeviceEnableRootPort :: "mmio \<Rightarrow> (bool \<times> mmio) option" where
  "DWHCIDeviceEnableRootPort io = do {
     (ok, HostPort, io) \<leftarrow>
        DWHCIDeviceWaitForBit (DWHCIRegister DWHCI_HOST_PORT) DWHCI_HOST_PORT_CONNECT True 20 io;
     if \<not> ok then Some (False, io) else do {
       let io = msDelay 100 io;
       let (_, HostPort, io) = DWHCIRegisterRead HostPort io;
       HostPort \<leftarrow> DWHCIRegisterAnd HostPort (NOT DWHCI_HOST_PORT_DEFAULT_MASK);
       HostPort \<leftarrow> DWHCIRegisterOr HostPort DWHCI_HOST_PORT_RESET;
       io \<leftarrow> DWHCIRegisterWrite HostPort io;
       let io = msDelay 50 io;
       let (_, HostPort, io) = DWHCIRegisterRead HostPort io;
       HostPort \<leftarrow> DWHCIRegisterAnd HostPort (NOT DWHCI_HOST_PORT_DEFAULT_MASK);
       HostPort \<leftarrow> DWHCIRegisterAnd HostPort (NOT DWHCI_HOST_PORT_RESET);
       io \<leftarrow> DWHCIRegisterWrite HostPort io;
       Some (True, msDelay 20 io) } }"

section \<open>The root port\<close>

definition DWHCIDeviceGetPortSpeed :: "mmio \<Rightarrow> TUSBSpeed \<times> mmio" where
  "DWHCIDeviceGetPortSpeed io =
     (let (v, _, io) = DWHCIRegisterRead (DWHCIRegister DWHCI_HOST_PORT) io;
          n = DWHCI_HOST_PORT_SPEED v
      in (if n = 0 then USBSpeedHigh else if n = 1 then USBSpeedFull
          else if n = 2 then USBSpeedLow else USBSpeedUnknown, io))"

definition DWHCIDeviceOvercurrentDetected :: "mmio \<Rightarrow> bool \<times> mmio" where
  "DWHCIDeviceOvercurrentDetected io =
     (let (v, _, io) = DWHCIRegisterRead (DWHCIRegister DWHCI_HOST_PORT) io
      in (v AND DWHCI_HOST_PORT_OVERCURRENT \<noteq> 0, io))"

definition DWHCIDeviceDisableRootPort :: "mmio \<Rightarrow> mmio option" where
  "DWHCIDeviceDisableRootPort io = do {
     let (_, HostPort, io) = DWHCIRegisterRead (DWHCIRegister DWHCI_HOST_PORT) io;
     HostPort \<leftarrow> DWHCIRegisterAnd HostPort (NOT DWHCI_HOST_PORT_POWER);
     DWHCIRegisterWrite HostPort io }"

section \<open>Waiting is bounded\<close>

definition bit_hit :: "u32 \<Rightarrow> bool \<Rightarrow> u32 \<Rightarrow> bool" where
  "bit_hit nMask bWaitUntilSet v \<longleftrightarrow> (v AND nMask \<noteq> 0) = bWaitUntilSet"

fun ms_waited :: "io_event list \<Rightarrow> nat" where
  "ms_waited [] = 0"
| "ms_waited (MsDelay n # es) = unat n + ms_waited es"
| "ms_waited (_ # es) = ms_waited es"

text \<open>The reads of the loop: \<open>k\<close> misses and a hit, or only misses.\<close>

lemma wait_for_bit_loop_spec:
  assumes "n \<noteq> 0" and "wait_for_bit_loop r m b n io = (ok, r', io')"
  shows "\<exists>k \<le> unat n. (\<forall>j < k. \<not> bit_hit m b (io_oracle io (io_pos io + j)))
     \<and> io_oracle io' = io_oracle io \<and> ms_waited (io_trace io') = ms_waited (io_trace io) + k
     \<and> (if ok then k < unat n \<and> bit_hit m b (io_oracle io (io_pos io + k))
               \<and> io_pos io' = io_pos io + k + 1
               \<and> r' = \<lparr>reg_bValid = True, reg_nAddress = reg_nAddress r,
                       reg_nBuffer = io_oracle io (io_pos io + k)\<rparr>
        else k = unat n \<and> io_pos io' = io_pos io + k)"
  using assms
proof (induction r m b n io arbitrary: ok r' io' rule: wait_for_bit_loop.induct)
  case (1 r m b n io)
  let ?v = "io_oracle io (io_pos io)"
  let ?r = "r\<lparr>reg_nBuffer := ?v, reg_bValid := True\<rparr>" and ?io = "snd (mmio_read (reg_nAddress r) io)"
  have rd: "DWHCIRegisterRead r io = (?v, ?r, ?io)"
    by (simp add: DWHCIRegisterRead_def mmio_read_def Let_def)
  show ?case
  proof (cases "bit_hit m b ?v")
    case True
    with 1(2,3) rd show ?thesis
      by (subst (asm) wait_for_bit_loop.simps)
         (auto simp: bit_hit_def unat_gt_0 split: if_splits intro!: exI[of _ 0])
  next
    case miss: False
    let ?io2 = "msDelay 1 ?io"
    show ?thesis
    proof (cases "n - 1 = 0")
      case True
      with 1(2,3) rd miss show ?thesis
        by (subst (asm) wait_for_bit_loop.simps)
           (auto simp: bit_hit_def msDelay_def split: if_splits intro!: exI[of _ 1])
    next
      case False
      have rec: "wait_for_bit_loop ?r m b (n - 1) ?io2 = (ok, r', io')"
        using 1(3) rd miss False
        by (subst (asm) wait_for_bit_loop.simps, cases b) (simp_all add: bit_hit_def Let_def)
      have cond: "if ?v AND m \<noteq> 0 then \<not> b else b"
        using miss by (auto simp: bit_hit_def)
      from 1(1)[OF refl rd[symmetric] refl cond refl refl False False rec] obtain k where
        k: "k \<le> unat (n - 1)" "\<forall>j<k. \<not> bit_hit m b (io_oracle ?io2 (io_pos ?io2 + j))"
          "io_oracle io' = io_oracle ?io2"
          "ms_waited (io_trace io') = ms_waited (io_trace ?io2) + k"
          "if ok then k < unat (n - 1) \<and> bit_hit m b (io_oracle ?io2 (io_pos ?io2 + k))
               \<and> io_pos io' = io_pos ?io2 + k + 1
               \<and> r' = \<lparr>reg_bValid = True, reg_nAddress = reg_nAddress ?r,
                       reg_nBuffer = io_oracle ?io2 (io_pos ?io2 + k)\<rparr>
           else k = unat (n - 1) \<and> io_pos io' = io_pos ?io2 + k" by blast
      have n: "unat n = Suc (unat (n - 1))" using 1(2) by (simp add: unat_minus_one unat_gt_0)
      have "\<forall>j<Suc k. \<not> bit_hit m b (io_oracle io (io_pos io + j))"
        using k(2) miss by (auto simp: less_Suc_eq_0_disj msDelay_def)
      with k n show ?thesis
        by (intro exI[of _ "Suc k"]) (auto simp: msDelay_def)
    qed
  qed
qed

section \<open>The channel pool\<close>

text \<open>
  Between 1 and 16 channels, and no allocation bit beyond them.  The handles of the pool are the
  channel numbers.
\<close>

definition channels_ok :: "TDWHCIDevice \<Rightarrow> bool" where
  "channels_ok d \<longleftrightarrow> 0 < hd_nChannels d \<and> hd_nChannels d \<le> DWHCI_MAX_CHANNELS
     \<and> (\<forall>i. bit (hd_nChannelAllocated d) i \<longrightarrow> i < unat (hd_nChannels d))"

definition channels_used :: "TDWHCIDevice \<Rightarrow> nat set" where
  "channels_used d = {i. bit (hd_nChannelAllocated d) i}"

definition channel_acquire :: "TDWHCIDevice \<Rightarrow> unit \<Rightarrow> nat option \<times> TDWHCIDevice" where
  "channel_acquire d _ = (let (c, d') = DWHCIDeviceAllocateChannel d
     in (if c < hd_nChannels d then Some (unat c) else None, d'))"

definition channel_release :: "TDWHCIDevice \<Rightarrow> nat \<Rightarrow> TDWHCIDevice" where
  "channel_release d c = (case DWHCIDeviceFreeChannel d (of_nat c) of Some d' \<Rightarrow> d' | None \<Rightarrow> d)"

lemma alloc_scan_spec:
  assumes "n \<le> 16" and "c \<le> n" and "\<forall>i < unat c. bit a i"
  shows "alloc_scan n a c (push_bit (unat c) 1) =
    (if \<exists>i < unat n. \<not> bit a i
     then let k = (LEAST i. \<not> bit a i) in (of_nat k, a OR 2 ^ k)
     else (DWHCI_MAX_CHANNELS, a))"
  using assms
proof (induction "unat n - unat c" arbitrary: c)
  case 0
  then have "c = n" by (simp add: word_le_nat_alt word_unat_eq_iff)
  with 0 show ?case by (subst alloc_scan.simps) auto
next
  case (Suc k)
  then have lt: "c < n" by (simp add: word_less_nat_alt)
  have u: "unat (c + 1) = Suc (unat c)" using unat_inc_less[OF lt] by simp
  have c16: "unat c < 32" using lt Suc.prems(1) by (simp add: word_less_nat_alt word_le_nat_alt)
  have z: "a AND push_bit (unat c) 1 = 0 \<longleftrightarrow> \<not> bit a (unat c)"
    using c16 by (simp add: word_and_exp_bit)
  show ?case
  proof (cases "bit a (unat c)")
    case True
    have "alloc_scan n a (c + 1) (push_bit (unat (c + 1)) 1) =
      (if \<exists>i < unat n. \<not> bit a i
       then let k = (LEAST i. \<not> bit a i) in (of_nat k, a OR 2 ^ k)
       else (DWHCI_MAX_CHANNELS, a))"
      using Suc True u lt by (intro Suc.hyps(1)) (auto simp: word_le_nat_alt word_less_nat_alt less_Suc_eq)
    with True z lt u show ?thesis
      by (subst alloc_scan.simps) (simp add: mult.commute[of 2])
  next
    case False
    have l: "(LEAST i. \<not> bit a i) = unat c"
      using False Suc.prems(3) by (intro Least_equality) (auto simp: not_less[symmetric])
    have "\<exists>i < unat n. \<not> bit a i" using False lt by (auto simp: word_less_nat_alt)
    with False z lt l show ?thesis by (subst alloc_scan.simps) (simp add: Let_def)
  qed
qed

lemma alloc_eq:
  assumes "channels_ok d"
  shows "DWHCIDeviceAllocateChannel d =
    (if \<exists>i < unat (hd_nChannels d). \<not> bit (hd_nChannelAllocated d) i
     then let k = (LEAST i. \<not> bit (hd_nChannelAllocated d) i)
          in (of_nat k, d\<lparr>hd_nChannelAllocated := hd_nChannelAllocated d OR 2 ^ k\<rparr>)
     else (DWHCI_MAX_CHANNELS, d))"
  using assms alloc_scan_spec[of "hd_nChannels d" 0 "hd_nChannelAllocated d"]
  by (cases "\<exists>i < unat (hd_nChannels d). \<not> bit (hd_nChannelAllocated d) i")
     (auto simp: DWHCIDeviceAllocateChannel_def channels_ok_def DWHCI_MAX_CHANNELS_def Let_def)


lemma least_unset:
  assumes "channels_ok d" and "\<exists>i < unat (hd_nChannels d). \<not> bit (hd_nChannelAllocated d) i"
  defines "k \<equiv> LEAST i. \<not> bit (hd_nChannelAllocated d) i"
  shows "k < unat (hd_nChannels d)" and "\<not> bit (hd_nChannelAllocated d) k" and "k < 16"
    and "unat (of_nat k :: u32) = k"
proof -
  from assms(2) obtain i where i: "i < unat (hd_nChannels d)" "\<not> bit (hd_nChannelAllocated d) i" by blast
  show b: "\<not> bit (hd_nChannelAllocated d) k"
    unfolding k_def by (rule LeastI[of "\<lambda>i. \<not> bit (hd_nChannelAllocated d) i", OF i(2)])
  have "k \<le> i" unfolding k_def by (rule Least_le[of "\<lambda>i. \<not> bit (hd_nChannelAllocated d) i", OF i(2)])
  with i(1) show k: "k < unat (hd_nChannels d)" by simp
  with assms(1) show k16: "k < 16"
    by (simp add: channels_ok_def DWHCI_MAX_CHANNELS_def word_le_nat_alt)
  then show "unat (of_nat k :: u32) = k" by (intro unat_of_nat_small) simp
qed

lemma bit_set_one:
  fixes a :: u32
  shows "k < 32 \<Longrightarrow> bit (a OR 2 ^ k) i \<longleftrightarrow> i = k \<or> bit a i"
  by (auto simp: bit_simps)

lemma bit_clear_one:
  fixes a :: u32
  shows "bit (a AND NOT (2 ^ k)) i \<longleftrightarrow> i \<noteq> k \<and> bit a i"
  by (auto simp: bit_simps dest: bit_imp_le_length)

lemma free_eq:
  assumes "channels_ok d" and "c \<in> channels_used d"
  shows "DWHCIDeviceFreeChannel d (of_nat c) =
     Some (d\<lparr>hd_nChannelAllocated := hd_nChannelAllocated d AND NOT (2 ^ c)\<rparr>)"
proof -
  from assms have c: "bit (hd_nChannelAllocated d) c" "c < unat (hd_nChannels d)"
    by (simp_all add: channels_ok_def channels_used_def)
  have "unat (hd_nChannels d) \<le> 16"
    using assms(1) by (simp add: channels_ok_def DWHCI_MAX_CHANNELS_def word_le_nat_alt)
  with c have c16: "c < 16" by simp
  then have u: "unat (of_nat c :: u32) = c" by (intro unat_of_nat_small) simp
  with c c16 show ?thesis
    by (simp add: DWHCIDeviceFreeChannel_def Let_def word_less_nat_alt word_and_exp_bit)
qed

interpretation chan: handle_pool channels_ok channels_used "\<lambda>d. unat (hd_nChannels d)"
  channel_acquire channel_release
proof unfold_locales
  fix s :: TDWHCIDevice and r :: unit and h :: nat and s' :: TDWHCIDevice
  assume ok: "channels_ok s"
  show "channels_used s \<subseteq> {..<unat (hd_nChannels s)}"
    using ok by (auto simp: channels_ok_def channels_used_def)
  have n16: "unat (hd_nChannels s) \<le> 16"
    using ok by (simp add: channels_ok_def DWHCI_MAX_CHANNELS_def word_le_nat_alt)
  show "h < unat (hd_nChannels s) \<and> h \<notin> channels_used s \<and> channels_used s' = insert h (channels_used s)
      \<and> channels_ok s' \<and> unat (hd_nChannels s') = unat (hd_nChannels s)"
    if a: "channel_acquire s r = (Some h, s')"
  proof (cases "\<exists>i < unat (hd_nChannels s). \<not> bit (hd_nChannelAllocated s) i")
    case True
    note l = least_unset[OF ok True]
    from a True l alloc_eq[OF ok] have hs: "h = (LEAST i. \<not> bit (hd_nChannelAllocated s) i)"
      "s' = s\<lparr>hd_nChannelAllocated := hd_nChannelAllocated s OR 2 ^ h\<rparr>"
      by (auto simp: channel_acquire_def Let_def word_less_nat_alt split: if_splits)
    with l ok show ?thesis
      by (auto simp: channels_used_def channels_ok_def bit_set_one)
  next
    case False
    with a n16 alloc_eq[OF ok] show ?thesis
      by (auto simp: channel_acquire_def Let_def DWHCI_MAX_CHANNELS_def word_less_nat_alt split: if_splits)
  qed
  show "s' = s \<and> channels_used s = {..<unat (hd_nChannels s)}"
    if a: "channel_acquire s r = (None, s')"
  proof (cases "\<exists>i < unat (hd_nChannels s). \<not> bit (hd_nChannelAllocated s) i")
    case True
    with a least_unset[OF ok True] alloc_eq[OF ok] show ?thesis
      by (auto simp: channel_acquire_def Let_def word_less_nat_alt split: if_splits)
  next
    case False
    with a ok alloc_eq[OF ok] show ?thesis
      by (auto simp: channel_acquire_def Let_def channels_used_def channels_ok_def split: if_splits)
  qed
  show "channels_used (channel_release s h) = channels_used s - {h} \<and> channels_ok (channel_release s h)
      \<and> unat (hd_nChannels (channel_release s h)) = unat (hd_nChannels s)"
    if "h \<in> channels_used s"
    using free_eq[OF ok that] ok
    by (auto simp: channel_release_def channels_used_def channels_ok_def bit_clear_one)
qed

section \<open>What is written to a register\<close>

definition reg_writes :: "uintptr \<Rightarrow> mmio \<Rightarrow> u32 list" where
  "reg_writes a io = rev (List.map_filter
     (\<lambda>e. case e of MmioWrite b v \<Rightarrow> if b = a then Some v else None | _ \<Rightarrow> None) (io_trace io))"

lemma reg_writes_simps [simp]:
  "reg_writes a (snd (mmio_read b io)) = reg_writes a io"
  "reg_writes a (io_emit (MmioWrite b v) io) = (if b = a then reg_writes a io @ [v] else reg_writes a io)"
  "reg_writes a (msDelay n io) = reg_writes a io" "reg_writes a (usDelay n io) = reg_writes a io"
  "reg_writes a (CleanAndInvalidateDataCacheRange p l io) = reg_writes a io"
  by (simp_all add: reg_writes_def List.map_filter_simps msDelay_def usDelay_def
      CleanAndInvalidateDataCacheRange_def)

lemma register_read_eq:
  "DWHCIRegisterRead r io = (io_oracle io (io_pos io),
     \<lparr>reg_bValid = True, reg_nAddress = reg_nAddress r, reg_nBuffer = io_oracle io (io_pos io)\<rparr>,
     snd (mmio_read (reg_nAddress r) io))"
  by (simp add: DWHCIRegisterRead_def mmio_read_def Let_def)

lemma wait_for_bit_loop_frame:
  "wait_for_bit_loop r m b n io = (ok, r', io') \<Longrightarrow>
     reg_writes a io' = reg_writes a io \<and> reg_bValid r' \<and> reg_nAddress r' = reg_nAddress r"
proof (induction r m b n io arbitrary: ok r' io' rule: wait_for_bit_loop.induct)
  case (1 r m b n io)
  let ?v = "io_oracle io (io_pos io)" and ?io = "snd (mmio_read (reg_nAddress r) io)"
  let ?r = "\<lparr>reg_bValid = True, reg_nAddress = reg_nAddress r, reg_nBuffer = ?v\<rparr>"
  have IH: "reg_writes a io' = reg_writes a io \<and> reg_bValid r' \<and> reg_nAddress r' = reg_nAddress r"
    if "if ?v AND m \<noteq> 0 then \<not> b else b" and "n - 1 \<noteq> 0"
      and "wait_for_bit_loop ?r m b (n - 1) (msDelay 1 ?io) = (ok, r', io')"
    using 1(1)[OF refl register_read_eq[symmetric] refl that(1) refl refl that(2) that(3)] by simp
  from 1(2) IH show ?case
    by (subst (asm) wait_for_bit_loop.simps, cases b)
       (auto simp: register_read_eq Let_def split: if_splits)
qed

lemma WaitForBit_returns:
  assumes "m \<noteq> 0" and "n > 0"
  shows "\<exists>ok r' io'. DWHCIDeviceWaitForBit r m b n io = Some (ok, r', io')
     \<and> reg_bValid r' \<and> reg_nAddress r' = reg_nAddress r"
  using assms wait_for_bit_loop_frame
  by (cases "wait_for_bit_loop r m b n io") (fastforce simp: DWHCIDeviceWaitForBit_def)

lemma WaitForBit_writes:
  "DWHCIDeviceWaitForBit r m b n io = Some (ok, r', io') \<Longrightarrow> reg_writes a io' = reg_writes a io
     \<and> reg_bValid r' \<and> reg_nAddress r' = reg_nAddress r"
  using wait_for_bit_loop_frame[of r m b n io ok r' io' a]
  by (simp add: DWHCIDeviceWaitForBit_def split: if_splits)

lemma FlushTx_writes:
  "\<exists>io'. DWHCIDeviceFlushTxFIFO n io = Some io' \<and>
     reg_writes a io' = (if a = DWHCI_CORE_RESET
       then reg_writes a io @ [DWHCI_CORE_RESET_TX_FIFO_FLUSH AND NOT DWHCI_CORE_RESET_TX_FIFO_NUM__MASK
              OR push_bit DWHCI_CORE_RESET_TX_FIFO_NUM__SHIFT n]
       else reg_writes a io)"
proof -
  let ?r = "\<lparr>reg_bValid = True, reg_nAddress = DWHCI_CORE_RESET, reg_nBuffer =
      DWHCI_CORE_RESET_TX_FIFO_FLUSH AND NOT DWHCI_CORE_RESET_TX_FIFO_NUM__MASK
              OR push_bit DWHCI_CORE_RESET_TX_FIFO_NUM__SHIFT n\<rparr>"
  let ?io = "io_emit (MmioWrite DWHCI_CORE_RESET (reg_nBuffer ?r)) io"
  have "DWHCI_CORE_RESET_TX_FIFO_FLUSH \<noteq> 0" by (simp add: DWHCI_CORE_RESET_TX_FIFO_FLUSH_def)
  then obtain ok r' io' where
    w: "DWHCIDeviceWaitForBit ?r DWHCI_CORE_RESET_TX_FIFO_FLUSH False 10 ?io = Some (ok, r', io')"
    using WaitForBit_returns[of DWHCI_CORE_RESET_TX_FIFO_FLUSH 10 ?r False ?io] by auto
  with WaitForBit_writes[OF w, of a] show ?thesis
    by (auto simp: DWHCIDeviceFlushTxFIFO_def register_ops)
qed

lemma FlushRx_writes:
  "\<exists>io'. DWHCIDeviceFlushRxFIFO io = Some io' \<and>
     reg_writes a io' = (if a = DWHCI_CORE_RESET
       then reg_writes a io @ [DWHCI_CORE_RESET_RX_FIFO_FLUSH] else reg_writes a io)"
proof -
  let ?r = "\<lparr>reg_bValid = True, reg_nAddress = DWHCI_CORE_RESET,
             reg_nBuffer = DWHCI_CORE_RESET_RX_FIFO_FLUSH\<rparr>"
  let ?io = "io_emit (MmioWrite DWHCI_CORE_RESET (reg_nBuffer ?r)) io"
  have "DWHCI_CORE_RESET_RX_FIFO_FLUSH \<noteq> 0" by (simp add: DWHCI_CORE_RESET_RX_FIFO_FLUSH_def)
  then obtain ok r' io' where
    w: "DWHCIDeviceWaitForBit ?r DWHCI_CORE_RESET_RX_FIFO_FLUSH False 10 ?io = Some (ok, r', io')"
    using WaitForBit_returns[of DWHCI_CORE_RESET_RX_FIFO_FLUSH 10 ?r False ?io] by auto
  with WaitForBit_writes[OF w, of a] show ?thesis
    by (auto simp: DWHCIDeviceFlushRxFIFO_def register_ops)
qed

lemma register_valid_ops [simp]:
  "reg_bValid r \<Longrightarrow> DWHCIRegisterAnd r m = Some (r\<lparr>reg_nBuffer := reg_nBuffer r AND m\<rparr>)"
  "reg_bValid r \<Longrightarrow> DWHCIRegisterOr r m = Some (r\<lparr>reg_nBuffer := reg_nBuffer r OR m\<rparr>)"
  "reg_bValid r \<Longrightarrow> DWHCIRegisterGet r = Some (reg_nBuffer r)"
  "reg_bValid r \<Longrightarrow> DWHCIRegisterWrite r io = Some (io_emit (MmioWrite (reg_nAddress r) (reg_nBuffer r)) io)"
  by (simp_all add: register_ops)

lemmas register_fresh = DWHCIRegister_def DWHCIRegister2_def DWHCIRegisterSet_def
  DWHCIRegisterSetAll_def DWHCIRegisterClearAll_def register_read_eq

lemma EnableHostInterrupts_writes:
  "\<exists>io'. DWHCIDeviceEnableHostInterrupts io = Some io' \<and>
     (a \<noteq> DWHCI_CORE_INT_MASK \<longrightarrow> a \<noteq> DWHCI_CORE_INT_STAT \<longrightarrow> reg_writes a io' = reg_writes a io)"
  by (simp add: DWHCIDeviceEnableHostInterrupts_def DWHCIDeviceEnableCommonInterrupts_def register_fresh)

lemmas register_addresses = ARM_USB_BASE_def ARM_USB_CORE_BASE_def ARM_USB_HOST_BASE_def
  ARM_USB_POWER_def DWHCI_CORE_AHB_CFG_def DWHCI_CORE_USB_CFG_def DWHCI_CORE_RESET_def
  DWHCI_CORE_INT_STAT_def DWHCI_CORE_INT_MASK_def DWHCI_CORE_RX_FIFO_SIZ_def
  DWHCI_CORE_NPER_TX_FIFO_SIZ_def DWHCI_CORE_HW_CFG2_def DWHCI_CORE_HOST_PER_TX_FIFO_SIZ_def
  DWHCI_HOST_CFG_def DWHCI_HOST_PORT_def DWHCI_HOST_ALLCHAN_INT_MASK_def


lemma init_host_config_writes:
  "\<exists>io'. init_host_config io = Some io' \<and>
     (a \<noteq> ARM_USB_POWER \<longrightarrow> a \<noteq> DWHCI_HOST_CFG \<longrightarrow> reg_writes a io' = reg_writes a io)"
  by (cases "ulpi_dedicated (io_oracle io (Suc (io_pos io)))")
     (simp_all add: init_host_config_def register_fresh)

lemma init_fifo_sizes_writes:
  "\<exists>io'. init_fifo_sizes io = Some io' \<and>
     reg_writes a io' = reg_writes a io
       @ (if a = DWHCI_CORE_RX_FIFO_SIZ then [1024] else [])
       @ (if a = DWHCI_CORE_NPER_TX_FIFO_SIZ then [0x04000400] else [])
       @ (if a = DWHCI_CORE_HOST_PER_TX_FIFO_SIZ then [0x04000800] else [])"
  by (simp add: init_fifo_sizes_def register_fresh register_addresses DWC_CFG_HOST_RX_FIFO_SIZE_def
      DWC_CFG_HOST_NPER_TX_FIFO_SIZE_def DWC_CFG_HOST_PER_TX_FIFO_SIZE_def)

text \<open>
  The port register has write-one-to-clear bits: the change flags, and the enable bit, where
  writing one disables the port.  A value is safe to write if all of them are zero.
\<close>

definition port_write_safe :: "u32 \<Rightarrow> bool" where
  "port_write_safe v \<longleftrightarrow> v AND DWHCI_HOST_PORT_DEFAULT_MASK = 0"

lemma port_masked_safe:
  "port_write_safe (v AND NOT DWHCI_HOST_PORT_DEFAULT_MASK)"
  "port_write_safe v \<Longrightarrow> port_write_safe (v OR DWHCI_HOST_PORT_POWER)"
  "port_write_safe v \<Longrightarrow> port_write_safe (v OR DWHCI_HOST_PORT_RESET)"
  by (simp_all add: port_write_safe_def and.assoc bit.conj_disj_distrib2) (simp_all add: port_bits)

lemma port_and_safe: "port_write_safe v \<Longrightarrow> port_write_safe (v AND w)"
  unfolding port_write_safe_def by (simp add: and.assoc and.commute[of w]) (simp flip: and.assoc)

lemma init_port_power_writes:
  "\<exists>io' vs. init_port_power io = Some io' \<and> (a \<noteq> DWHCI_HOST_PORT \<longrightarrow> reg_writes a io' = reg_writes a io)
     \<and> reg_writes DWHCI_HOST_PORT io' = reg_writes DWHCI_HOST_PORT io @ vs
     \<and> (\<forall>v \<in> set vs. port_write_safe v \<and> v AND DWHCI_HOST_PORT_POWER \<noteq> 0)"
proof (cases "(io_oracle io (io_pos io) AND NOT DWHCI_HOST_PORT_DEFAULT_MASK) AND DWHCI_HOST_PORT_POWER = 0")
  case True
  then show ?thesis
    by (simp add: init_port_power_def register_fresh port_masked_safe bit.conj_disj_distrib2)
       (simp add: port_bits)
next
  case False
  then show ?thesis by (simp add: init_port_power_def register_fresh)
qed

section \<open>Properties of the controller\<close>

text \<open>
  Initialising the host always returns, and lays out the controller's packet memory
  without overlap: the receive FIFO holds the first 1024 words, the non-periodic transmit FIFO
  the next 1024 (start 1024, depth 1024) and the periodic one the 1024 after it.  Every value
  written to the root port register leaves the write-one-to-clear bits alone.
\<close>

theorem init_host_fifo_layout:
  "\<exists>io' vs. DWHCIDeviceInitHost io = Some (True, io')
     \<and> reg_writes DWHCI_CORE_RX_FIFO_SIZ io' = reg_writes DWHCI_CORE_RX_FIFO_SIZ io @ [1024]
     \<and> reg_writes DWHCI_CORE_NPER_TX_FIFO_SIZ io'
         = reg_writes DWHCI_CORE_NPER_TX_FIFO_SIZ io @ [push_bit 16 1024 OR 1024]
     \<and> reg_writes DWHCI_CORE_HOST_PER_TX_FIFO_SIZ io'
         = reg_writes DWHCI_CORE_HOST_PER_TX_FIFO_SIZ io @ [push_bit 16 1024 OR 2048]
     \<and> reg_writes DWHCI_HOST_PORT io' = reg_writes DWHCI_HOST_PORT io @ vs \<and> list_all port_write_safe vs"
proof -
  obtain io1 where 1: "init_host_config io = Some io1"
    using init_host_config_writes by blast
  obtain io2 where 2: "init_fifo_sizes io1 = Some io2"
    using init_fifo_sizes_writes by blast
  obtain io3 where 3: "DWHCIDeviceFlushTxFIFO 0x10 io2 = Some io3" using FlushTx_writes by blast
  obtain io4 where 4: "DWHCIDeviceFlushRxFIFO io3 = Some io4" using FlushRx_writes by blast
  obtain io5 vs where 5: "init_port_power io4 = Some io5"
    "reg_writes DWHCI_HOST_PORT io5 = reg_writes DWHCI_HOST_PORT io4 @ vs" "list_all port_write_safe vs"
    using init_port_power_writes[of io4 0] by (auto simp: list_all_iff)
  obtain io6 where 6: "DWHCIDeviceEnableHostInterrupts io5 = Some io6"
    using EnableHostInterrupts_writes by blast
  have w: "reg_writes a io6 = reg_writes a io
       @ (if a = DWHCI_CORE_RX_FIFO_SIZ then [1024] else [])
       @ (if a = DWHCI_CORE_NPER_TX_FIFO_SIZ then [0x04000400] else [])
       @ (if a = DWHCI_CORE_HOST_PER_TX_FIFO_SIZ then [0x04000800] else [])
       @ (if a = DWHCI_HOST_PORT then vs else [])"
    if "a \<in> {DWHCI_CORE_RX_FIFO_SIZ, DWHCI_CORE_NPER_TX_FIFO_SIZ, DWHCI_CORE_HOST_PER_TX_FIFO_SIZ, DWHCI_HOST_PORT}" for a
  proof -
    have "a \<noteq> ARM_USB_POWER" "a \<noteq> DWHCI_HOST_CFG" "a \<noteq> DWHCI_CORE_RESET" "a \<noteq> DWHCI_CORE_INT_MASK"
      "a \<noteq> DWHCI_CORE_INT_STAT"
      using that by (auto simp: register_addresses)
    then have "reg_writes a io1 = reg_writes a io" "reg_writes a io3 = reg_writes a io2"
      "reg_writes a io4 = reg_writes a io3" "reg_writes a io6 = reg_writes a io5"
      "a \<noteq> DWHCI_HOST_PORT \<longrightarrow> reg_writes a io5 = reg_writes a io4"
      using init_host_config_writes[of io a] FlushTx_writes[of "0x10" io2 a] FlushRx_writes[of io3 a]
        init_port_power_writes[of io4 a] EnableHostInterrupts_writes[of io5 a] 1 3 4 5 6 by simp_all
    moreover note init_fifo_sizes_writes[of io1 a] 2 5
    ultimately show ?thesis by (cases "a = DWHCI_HOST_PORT") simp_all
  qed
  from 1 2 3 4 5 6 have "DWHCIDeviceInitHost io = Some (True, io6)"
    by (simp add: DWHCIDeviceInitHost_def)
  with w 5 show ?thesis by (simp add: register_addresses)
qed

text \<open>
  Enabling the root port always returns.  Without a connected device it gives up and
  leaves the port register alone.  Otherwise it writes it twice, with the reset bit first set and then
  cleared and never a write-one-to-clear bit, and has waited at least 170 milliseconds.
\<close>

theorem enable_root_port_sequence:
  "\<exists>ok io'. DWHCIDeviceEnableRootPort io = Some (ok, io')
     \<and> (if ok then \<exists>v w. reg_writes DWHCI_HOST_PORT io' = reg_writes DWHCI_HOST_PORT io @ [v, w]
            \<and> v AND DWHCI_HOST_PORT_RESET \<noteq> 0 \<and> w AND DWHCI_HOST_PORT_RESET = 0
            \<and> port_write_safe v \<and> port_write_safe w
            \<and> ms_waited (io_trace io') \<ge> ms_waited (io_trace io) + 170
        else reg_writes DWHCI_HOST_PORT io' = reg_writes DWHCI_HOST_PORT io)"
proof -
  have c: "DWHCI_HOST_PORT_CONNECT \<noteq> 0" by (simp add: port_bits)
  let ?r = "DWHCIRegister DWHCI_HOST_PORT"
  obtain ok r' io1 where l: "wait_for_bit_loop ?r DWHCI_HOST_PORT_CONNECT True 20 io = (ok, r', io1)"
    using prod_cases3 by blast
  with c have w: "DWHCIDeviceWaitForBit ?r DWHCI_HOST_PORT_CONNECT True 20 io = Some (ok, r', io1)"
    by (simp add: DWHCIDeviceWaitForBit_def)
  have f: "reg_writes DWHCI_HOST_PORT io1 = reg_writes DWHCI_HOST_PORT io" "reg_nAddress r' = DWHCI_HOST_PORT"
    using WaitForBit_writes[OF w] by (simp_all add: DWHCIRegister_def)
  have m: "ms_waited (io_trace io1) \<ge> ms_waited (io_trace io)"
    using wait_for_bit_loop_spec[OF _ l] by auto
  show ?thesis
  proof (cases ok)
    case False
    with w f show ?thesis by (intro exI[of _ False]) (simp add: DWHCIDeviceEnableRootPort_def)
  next
    case True
    have rs: "(v OR DWHCI_HOST_PORT_RESET) AND DWHCI_HOST_PORT_RESET \<noteq> 0"
      "(v AND NOT DWHCI_HOST_PORT_RESET) AND DWHCI_HOST_PORT_RESET = 0" for v
      by (simp_all add: port_bits bit.conj_disj_distrib2 and.assoc)
    from True w f m rs show ?thesis
      by (intro exI[of _ True])
         (simp add: DWHCIDeviceEnableRootPort_def register_read_eq port_masked_safe port_and_safe)
  qed
qed

text \<open>
  Waiting for a bit is bounded by its timeout.  The call succeeds exactly when one of
  the next \<open>nMsTimeout\<close> reads of the register shows the bit in the wanted state; it then stops at
  the first such read and has waited one millisecond per read before it.  Otherwise it fails after
  \<open>nMsTimeout\<close> reads and \<open>nMsTimeout\<close> milliseconds.
\<close>

theorem wait_for_bit_bounded:
  assumes "nMask \<noteq> 0" and "nMsTimeout > 0"
  shows "\<exists>ok r' io' k. DWHCIDeviceWaitForBit r nMask b nMsTimeout io = Some (ok, r', io')
     \<and> (ok \<longleftrightarrow> (\<exists>j < unat nMsTimeout. bit_hit nMask b (io_oracle io (io_pos io + j))))
     \<and> (\<forall>j < k. \<not> bit_hit nMask b (io_oracle io (io_pos io + j)))
     \<and> ms_waited (io_trace io') = ms_waited (io_trace io) + k
     \<and> (if ok then io_pos io' = io_pos io + k + 1 \<and> bit_hit nMask b (reg_nBuffer r')
                 \<and> reg_nBuffer r' = io_oracle io (io_pos io + k)
        else k = unat nMsTimeout \<and> io_pos io' = io_pos io + k)"
proof -
  obtain ok r' io' where l: "wait_for_bit_loop r nMask b nMsTimeout io = (ok, r', io')"
    using prod_cases3 by blast
  from assms have "nMsTimeout \<noteq> 0" by auto
  from wait_for_bit_loop_spec[OF this l] obtain k where
    k: "k \<le> unat nMsTimeout" "\<forall>j < k. \<not> bit_hit nMask b (io_oracle io (io_pos io + j))"
      "ms_waited (io_trace io') = ms_waited (io_trace io) + k"
      "if ok then k < unat nMsTimeout \<and> bit_hit nMask b (io_oracle io (io_pos io + k))
               \<and> io_pos io' = io_pos io + k + 1
               \<and> r' = \<lparr>reg_bValid = True, reg_nAddress = reg_nAddress r,
                       reg_nBuffer = io_oracle io (io_pos io + k)\<rparr>
       else k = unat nMsTimeout \<and> io_pos io' = io_pos io + k" by blast
  have w: "DWHCIDeviceWaitForBit r nMask b nMsTimeout io = Some (ok, r', io')"
    using l assms by (simp add: DWHCIDeviceWaitForBit_def)
  have o: "ok \<longleftrightarrow> (\<exists>j < unat nMsTimeout. bit_hit nMask b (io_oracle io (io_pos io + j)))"
    using k(2,4) by (cases ok) auto
  have e: "if ok then io_pos io' = io_pos io + k + 1 \<and> bit_hit nMask b (reg_nBuffer r')
                 \<and> reg_nBuffer r' = io_oracle io (io_pos io + k)
        else k = unat nMsTimeout \<and> io_pos io' = io_pos io + k"
    using k(4) by (simp split: if_splits)
  show ?thesis
    by (rule exI[of _ ok], rule exI[of _ r'], rule exI[of _ io'], rule exI[of _ k])
       (intro conjI w o e k(2,3))
qed

theorem wait_for_bit_bounded_witness:
  "\<exists>r' io'. DWHCIDeviceWaitForBit (DWHCIRegister DWHCI_HOST_PORT) 1 True 20
       \<lparr>io_oracle = (\<lambda>n. if n = 3 then 1 else 0), io_pos = 0, io_trace = []\<rparr> = Some (True, r', io')"
proof -
  let ?io = "\<lparr>io_oracle = (\<lambda>n. if n = 3 then 1 else 0), io_pos = 0, io_trace = []\<rparr> :: mmio"
  have h: "\<exists>j < unat (20 :: u32). bit_hit 1 True (io_oracle ?io (io_pos ?io + j))"
    by (intro exI[of _ 3]) (simp add: bit_hit_def)
  obtain ok r' io' where
    w: "DWHCIDeviceWaitForBit (DWHCIRegister DWHCI_HOST_PORT) 1 True 20 ?io = Some (ok, r', io')"
    and o: "ok \<longleftrightarrow> (\<exists>j < unat (20 :: u32). bit_hit 1 True (io_oracle ?io (io_pos ?io + j)))"
    using wait_for_bit_bounded[of 1 20 "DWHCIRegister DWHCI_HOST_PORT" True ?io] by auto
  from o h have ok by (rule iffD2)
  with w show ?thesis by simp
qed

text \<open>
  Claim C3. Host channels are a pool.  Allocation hands out the lowest free channel and marks only
  it, returns 16 and changes nothing when none is free, and freeing the channel restores the
  host object; any number of allocations in a row gives pairwise distinct channels, none of
  which was in use before.
\<close>

theorem channel_allocation:
  assumes "channels_ok d"
  shows "(case DWHCIDeviceAllocateChannel d of (c, d') \<Rightarrow>
      if card (channels_used d) = unat (hd_nChannels d) then c = DWHCI_MAX_CHANNELS \<and> d' = d
      else c < hd_nChannels d \<and> unat c \<notin> channels_used d \<and> {..<unat c} \<subseteq> channels_used d
           \<and> channels_used d' = insert (unat c) (channels_used d) \<and> channels_ok d'
           \<and> DWHCIDeviceFreeChannel d' c = Some d)
    \<and> (\<forall>rs hs d'. chan.acquire_n d rs = (hs, d') \<longrightarrow>
         distinct (filter (\<lambda>h. h \<noteq> None) hs) \<and> (\<forall>h. Some h \<in> set hs \<longrightarrow> h \<notin> channels_used d))"
proof (intro conjI)
  show "\<forall>rs hs d'. chan.acquire_n d rs = (hs, d') \<longrightarrow>
         distinct (filter (\<lambda>h. h \<noteq> None) hs) \<and> (\<forall>h. Some h \<in> set hs \<longrightarrow> h \<notin> channels_used d)"
    using chan.acquire_n_distinct[OF assms] by blast
next
  let ?free = "\<exists>i < unat (hd_nChannels d). \<not> bit (hd_nChannelAllocated d) i"
  have full: "card (channels_used d) = unat (hd_nChannels d) \<longleftrightarrow> \<not> ?free"
  proof
    assume "card (channels_used d) = unat (hd_nChannels d)"
    then have "channels_used d = {..<unat (hd_nChannels d)}"
      using card_subset_eq[OF _ chan.used_bounded[OF assms]] by simp
    then show "\<not> ?free" by (auto simp: channels_used_def)
  next
    assume "\<not> ?free"
    then have "channels_used d = {..<unat (hd_nChannels d)}"
      using chan.used_bounded[OF assms] by (auto simp: channels_used_def)
    then show "card (channels_used d) = unat (hd_nChannels d)" by simp
  qed
  show "case DWHCIDeviceAllocateChannel d of (c, d') \<Rightarrow>
      if card (channels_used d) = unat (hd_nChannels d) then c = DWHCI_MAX_CHANNELS \<and> d' = d
      else c < hd_nChannels d \<and> unat c \<notin> channels_used d \<and> {..<unat c} \<subseteq> channels_used d
           \<and> channels_used d' = insert (unat c) (channels_used d) \<and> channels_ok d'
           \<and> DWHCIDeviceFreeChannel d' c = Some d"
  proof (cases ?free)
    case False
    with full alloc_eq[OF assms] show ?thesis by simp
  next
    case True
    define k where "k = (LEAST i. \<not> bit (hd_nChannelAllocated d) i)"
    note l = least_unset[OF assms True, folded k_def]
    let ?d = "d\<lparr>hd_nChannelAllocated := hd_nChannelAllocated d OR 2 ^ k\<rparr>"
    have low: "{..<k} \<subseteq> channels_used d"
      unfolding k_def channels_used_def using not_less_Least by auto
    have ok': "channels_ok ?d" and used': "channels_used ?d = insert k (channels_used d)"
      using l assms by (auto simp: channels_ok_def channels_used_def bit_set_one)
    have "(hd_nChannelAllocated d OR 2 ^ k) AND NOT (2 ^ k) = hd_nChannelAllocated d"
      using l by (intro bit_word_eqI) (auto simp: bit_clear_one bit_set_one)
    then have "DWHCIDeviceFreeChannel ?d (of_nat k) = Some d"
      using free_eq[OF ok', of k] used' by simp
    with True full alloc_eq[OF assms] l low ok' used' show ?thesis
      by (simp add: k_def[symmetric] Let_def word_less_nat_alt channels_used_def)
  qed
qed

theorem channel_allocation_witness:
  "DWHCIDeviceAllocateChannel ((DWHCIDevice [])\<lparr>hd_nChannels := 8, hd_nChannelAllocated := 0b1011\<rparr>)
     = (2, (DWHCIDevice [])\<lparr>hd_nChannels := 8, hd_nChannelAllocated := 0b1111\<rparr>)
   \<and> DWHCIDeviceFreeChannel ((DWHCIDevice [])\<lparr>hd_nChannels := 8, hd_nChannelAllocated := 0b1111\<rparr>) 2
     = Some ((DWHCIDevice [])\<lparr>hd_nChannels := 8, hd_nChannelAllocated := 0b1011\<rparr>)"
proof -
  let ?d = "(DWHCIDevice [])\<lparr>hd_nChannels := 8, hd_nChannelAllocated := 0b1011\<rparr>"
  have a: "DWHCIDeviceAllocateChannel ?d
     = (2, (DWHCIDevice [])\<lparr>hd_nChannels := 8, hd_nChannelAllocated := 0b1111\<rparr>)"
    by (simp add: DWHCIDeviceAllocateChannel_def DWHCIDevice_def alloc_scan.simps)
  have b: "bit (11 :: u32) i \<Longrightarrow> i < 8" for i
  proof -
    have "(11 :: u32) = take_bit 8 11" by simp
    moreover assume "bit (11 :: u32) i"
    ultimately have "bit (take_bit 8 (11 :: u32)) i" by simp
    then show "i < 8" by (simp only: bit_take_bit_iff)
  qed
  have b2: "\<not> bit (11 :: u32) 2" by (simp add: bit_iff_odd)
  have ok: "channels_ok ?d"
    using b by (auto simp: channels_ok_def DWHCIDevice_def DWHCI_MAX_CHANNELS_def)
  have "channels_used ?d \<subseteq> {..<8} - {2}"
    using b b2 by (auto simp: channels_used_def DWHCIDevice_def)
  from card_mono[OF _ this] have "card (channels_used ?d) \<noteq> unat (hd_nChannels ?d)" by (simp add: DWHCIDevice_def)
  with channel_allocation[OF ok] a show ?thesis by simp
qed

text \<open>
  A core that was initialised successfully has between 4 and 16 channels, the number the
  hardware reports, all of them free, and the pool invariant holds; a failed reset leaves the host
  object as it was.
\<close>

theorem init_core_channels:
  assumes "DWHCIDeviceInitCore d io = Some (ok, d', io')" and "hd_nChannelAllocated d = 0"
  shows "if ok then channels_ok d' \<and> channels_used d' = {} \<and> 4 \<le> hd_nChannels d'
                  \<and> (\<exists>v. hd_nChannels d' = DWHCI_CORE_HW_CFG2_NUM_HOST_CHANNELS v)
         else d' = d"
proof -
  have "if ok then \<exists>v. d' = d\<lparr>hd_nChannels := DWHCI_CORE_HW_CFG2_NUM_HOST_CHANNELS v\<rparr>
           \<and> 4 \<le> DWHCI_CORE_HW_CFG2_NUM_HOST_CHANNELS v
           \<and> DWHCI_CORE_HW_CFG2_NUM_HOST_CHANNELS v \<le> DWHCI_MAX_CHANNELS
        else d' = d"
    using assms(1)
    by (auto simp: DWHCIDeviceInitCore_def register_fresh bind_Some_iff if_Some_iff Let_def
        split del: if_split split: if_split_asm)
  moreover have "0 < (n :: u32)" if "4 \<le> n" for n
    by (rule less_le_trans[OF _ that]) simp
  ultimately show ?thesis
    using assms(2) by (cases ok) (auto simp: channels_ok_def channels_used_def)
qed

theorem init_core_channels_witness:
  "\<exists>io'. DWHCIDeviceInitCore (DWHCIDevice []) \<lparr>io_oracle = (\<lambda>_. 0x8001C010), io_pos = 0, io_trace = []\<rparr>
       = Some (True, (DWHCIDevice [])\<lparr>hd_nChannels := 8\<rparr>, io')
     \<and> channels_ok ((DWHCIDevice [])\<lparr>hd_nChannels := 8\<rparr>)"
proof -
  let ?io = "\<lparr>io_oracle = (\<lambda>_. 0x8001C010), io_pos = 0, io_trace = []\<rparr> :: mmio"
  have "\<exists>io'. DWHCIDeviceInitCore (DWHCIDevice []) ?io
     = Some (True, (DWHCIDevice [])\<lparr>hd_nChannels := 8\<rparr>, io')"
    by (simp add: DWHCIDeviceInitCore_def DWHCIDevice_def register_fresh DWHCIDeviceReset_def
        DWHCIDeviceWaitForBit_def wait_for_bit_loop.simps DWHCI_CORE_RESET_AHB_IDLE_def
        DWHCI_CORE_RESET_SOFT_RESET_def DWHCI_CORE_HW_CFG2_ARCHITECTURE_def ulpi_dedicated_def
        DWHCI_CORE_HW_CFG2_HS_PHY_TYPE_def DWHCI_CORE_HW_CFG2_HS_PHY_TYPE_ULPI_def
        DWHCI_CORE_HW_CFG2_NUM_HOST_CHANNELS_def DWHCI_MAX_CHANNELS_def
        DWHCIDeviceEnableCommonInterrupts_def)
  then obtain io' where r: "DWHCIDeviceInitCore (DWHCIDevice []) ?io
     = Some (True, (DWHCIDevice [])\<lparr>hd_nChannels := 8\<rparr>, io')" by blast
  with init_core_channels[OF r] show ?thesis by (simp add: DWHCIDevice_def)
qed

end
