(* ===== verification/KernelTimer.thy ===== *)
theory KernelTimer
  imports Mmio
begin

text \<open>
  The kernel timers of \<^verbatim>\<open>ext/uspi/env/lib/timer.c\<close>, which \<^verbatim>\<open>uspibind.c\<close> binds to
  \<^verbatim>\<open>StartKernelTimer\<close> and \<^verbatim>\<open>CancelKernelTimer\<close>: a tick counter driven by the system timer
  interrupt and a table of one-shot timers.  A handler is a function pointer with two opaque
  pointers; what calling it does is a parameter of the polling loop.
\<close>

section \<open>State\<close>

datatype TKernelTimerHandler = HostTimerHandler | DriverTimerHandler nat

record TKernelTimer =
  kt_pHandler :: "TKernelTimerHandler option"
  kt_nElapsesAt :: u32
  kt_pParam :: addr
  kt_pContext :: addr

record TTimer =
  tm_initialized :: bool
  tm_nTicks :: u32
  tm_nTime :: u32
  tm_KernelTimer :: "TKernelTimer list" \<comment> \<open>\<^verbatim>\<open>KERNEL_TIMERS\<close> elements\<close>
  tm_nMsDelay :: u32
  tm_nusDelay :: u32

definition KERNEL_TIMERS :: nat where "KERNEL_TIMERS = 20"
definition timer_HZ :: u32 where "timer_HZ = 10"
definition CLOCKHZ :: u32 where "CLOCKHZ = 1000000"

definition ARM_SYSTIMER_CS :: uintptr where "ARM_SYSTIMER_CS = 0x3F003000"
definition ARM_SYSTIMER_CLO :: uintptr where "ARM_SYSTIMER_CLO = 0x3F003004"
definition ARM_SYSTIMER_C3 :: uintptr where "ARM_SYSTIMER_C3 = 0x3F003018"

text \<open>What interrupt handlers work on; the USB stack extends this record with its own state.\<close>

record timer_world =
  w_timer :: TTimer
  w_io :: mmio

section \<open>Operations\<close>

definition Timer :: "TTimer \<Rightarrow> TTimer" where
  "Timer this = this\<lparr>tm_nTicks := 0, tm_nTime := 0, tm_nMsDelay := 350000,
     tm_nusDelay := 350000 div 1000,
     tm_KernelTimer := map (\<lambda>t. t\<lparr>kt_pHandler := None\<rparr>) (tm_KernelTimer this)\<rparr>"

definition TimerInitialize :: "TTimer \<Rightarrow> mmio \<Rightarrow> (bool \<times> TTimer \<times> mmio) option" where
  "TimerInitialize this io = do {
     c_assert (\<not> tm_initialized this);
     let (nClock, io) = mmio_read ARM_SYSTIMER_CLO io;
     let io = io_emit (MmioWrite ARM_SYSTIMER_C3 (nClock + CLOCKHZ div timer_HZ)) io;
     Some (True, this\<lparr>tm_initialized := True\<rparr>, io) }"

definition TimerGet :: "TTimer \<Rightarrow> mmio \<Rightarrow> (TTimer \<times> mmio) option" where
  "TimerGet gTimer io =
     (if \<not> tm_initialized gTimer
      then do { (_, gTimer, io) \<leftarrow> TimerInitialize (Timer gTimer) io; Some (gTimer, io) }
      else Some (gTimer, io))"

definition TimerGetClockTicks :: "mmio \<Rightarrow> u32 \<times> mmio" where
  "TimerGetClockTicks io = mmio_read ARM_SYSTIMER_CLO io"

definition TimerGetTicks :: "TTimer \<Rightarrow> u32" where "TimerGetTicks this = tm_nTicks this"

definition TimerGetTime :: "TTimer \<Rightarrow> u32" where "TimerGetTime this = tm_nTime this"

text \<open>The scan for a free slot, from slot \<open>h\<close> on.\<close>

fun free_slot :: "TKernelTimer list \<Rightarrow> nat \<Rightarrow> nat" where
  "free_slot [] h = h"
| "free_slot (t # ts) h = (if kt_pHandler t = None then h else free_slot ts (h + 1))"

definition TimerStartKernelTimer ::
    "TTimer \<Rightarrow> u32 \<Rightarrow> TKernelTimerHandler option \<Rightarrow> addr \<Rightarrow> addr \<Rightarrow> (u32 \<times> TTimer) option" where
  "TimerStartKernelTimer this nDelay pHandler pParam pContext =
     (let hTimer = free_slot (tm_KernelTimer this) 0
      in if hTimer \<ge> KERNEL_TIMERS then Some (0, this)
         else do {
           c_assert (pHandler \<noteq> None);
           Some (of_nat hTimer + 1, this\<lparr>tm_KernelTimer := (tm_KernelTimer this)
             [hTimer := \<lparr>kt_pHandler = pHandler, kt_nElapsesAt = tm_nTicks this + nDelay,
                         kt_pParam = pParam, kt_pContext = pContext\<rparr>]\<rparr>) })"

definition TimerCancelKernelTimer :: "TTimer \<Rightarrow> u32 \<Rightarrow> TTimer option" where
  "TimerCancelKernelTimer this hTimer = do {
     c_assert (1 \<le> hTimer \<and> hTimer \<le> of_nat KERNEL_TIMERS);
     t \<leftarrow> array_get (tm_KernelTimer this) (unat (hTimer - 1));
     ts \<leftarrow> array_set (tm_KernelTimer this) (unat (hTimer - 1)) (t\<lparr>kt_pHandler := None\<rparr>);
     Some (this\<lparr>tm_KernelTimer := ts\<rparr>) }"

text \<open>The signed comparison of the elapse time with the tick counter.\<close>

definition timer_due :: "u32 \<Rightarrow> u32 \<Rightarrow> bool" where
  "timer_due nElapsesAt nTicks \<longleftrightarrow> sint (nElapsesAt - nTicks) \<le> 0"

function poll_from ::
    "(TKernelTimerHandler \<Rightarrow> u32 \<Rightarrow> addr \<Rightarrow> addr \<Rightarrow> 'a timer_world_scheme \<Rightarrow> 'a timer_world_scheme option)
     \<Rightarrow> nat \<Rightarrow> 'a timer_world_scheme \<Rightarrow> 'a timer_world_scheme option" where
  "poll_from callf hTimer w =
     (if hTimer < KERNEL_TIMERS then do {
        t \<leftarrow> array_get (tm_KernelTimer (w_timer w)) hTimer;
        w \<leftarrow> (case kt_pHandler t of
                None \<Rightarrow> Some w
              | Some pHandler \<Rightarrow>
                  (if timer_due (kt_nElapsesAt t) (tm_nTicks (w_timer w))
                   then callf pHandler (of_nat hTimer + 1) (kt_pParam t) (kt_pContext t)
                          (w\<lparr>w_timer := (w_timer w)\<lparr>tm_KernelTimer := (tm_KernelTimer (w_timer w))
                               [hTimer := t\<lparr>kt_pHandler := None\<rparr>]\<rparr>\<rparr>)
                   else Some w));
        poll_from callf (hTimer + 1) w }
      else Some w)"
  by pat_completeness auto

termination
  by (relation "measure (\<lambda>(_, h, _). KERNEL_TIMERS - h)") auto

declare poll_from.simps [simp del]

definition TimerPollKernelTimers ::
    "(TKernelTimerHandler \<Rightarrow> u32 \<Rightarrow> addr \<Rightarrow> addr \<Rightarrow> 'a timer_world_scheme \<Rightarrow> 'a timer_world_scheme option)
     \<Rightarrow> 'a timer_world_scheme \<Rightarrow> 'a timer_world_scheme option" where
  "TimerPollKernelTimers callf w = poll_from callf 0 w"

definition TimerInterruptHandler ::
    "(TKernelTimerHandler \<Rightarrow> u32 \<Rightarrow> addr \<Rightarrow> addr \<Rightarrow> 'a timer_world_scheme \<Rightarrow> 'a timer_world_scheme option)
     \<Rightarrow> 'a timer_world_scheme \<Rightarrow> 'a timer_world_scheme option" where
  "TimerInterruptHandler callf w = do {
     let (nStatus, io) = mmio_read ARM_SYSTIMER_CS (w_io w);
     c_assert (nStatus AND push_bit 3 1 \<noteq> 0);
     let (nClock, io) = mmio_read ARM_SYSTIMER_CLO io;
     let io = io_emit (MmioWrite ARM_SYSTIMER_C3 (nClock + CLOCKHZ div timer_HZ)) io;
     let io = io_emit (MmioWrite ARM_SYSTIMER_CS (push_bit 3 1)) io;
     let nTicks = tm_nTicks (w_timer w) + 1;
     let w = w\<lparr>w_io := io, w_timer := (w_timer w)\<lparr>tm_nTicks := nTicks,
                tm_nTime := (if nTicks mod timer_HZ = 0 then tm_nTime (w_timer w) + 1
                             else tm_nTime (w_timer w))\<rparr>\<rparr>;
     TimerPollKernelTimers callf w }"

section \<open>The pool of timers\<close>

definition timers_ok :: "TTimer \<Rightarrow> bool" where
  "timers_ok t \<longleftrightarrow> length (tm_KernelTimer t) = KERNEL_TIMERS"

definition timers_used :: "TTimer \<Rightarrow> nat set" where
  "timers_used t = {i. i < KERNEL_TIMERS \<and> kt_pHandler (tm_KernelTimer t ! i) \<noteq> None}"

type_synonym timer_request = "u32 \<times> TKernelTimerHandler \<times> addr \<times> addr"

definition timer_acquire :: "TTimer \<Rightarrow> timer_request \<Rightarrow> nat option \<times> TTimer" where
  "timer_acquire t r = (case r of (nDelay, pHandler, pParam, pContext) \<Rightarrow>
     (case TimerStartKernelTimer t nDelay (Some pHandler) pParam pContext of
        None \<Rightarrow> (None, t)
      | Some (hTimer, t') \<Rightarrow> (if hTimer = 0 then None else Some (unat hTimer - 1), t')))"

definition timer_release :: "TTimer \<Rightarrow> nat \<Rightarrow> TTimer" where
  "timer_release t h = (case TimerCancelKernelTimer t (of_nat h + 1) of Some t' \<Rightarrow> t' | None \<Rightarrow> t)"

lemma free_slot_add: "free_slot ts h = h + free_slot ts 0"
proof (induction ts arbitrary: h)
  case (Cons t ts)
  show ?case using Cons[of "h + 1"] Cons[of 1] by simp
qed simp

lemma free_slot_spec:
  "free_slot ts 0 \<le> length ts"
  "i < free_slot ts 0 \<Longrightarrow> kt_pHandler (ts ! i) \<noteq> None"
  "free_slot ts 0 < length ts \<Longrightarrow> kt_pHandler (ts ! free_slot ts 0) = None"
proof (induction ts arbitrary: i)
  case (Cons t ts)
  case 1
  show ?case using Cons(1) free_slot_add[of ts 1] by simp
next
  case (Cons t ts)
  case 2
  then show ?case using Cons(2) free_slot_add[of ts 1] by (cases i) (auto split: if_splits)
next
  case (Cons t ts)
  case 3
  then show ?case using Cons(3) free_slot_add[of ts 1] by (auto split: if_splits)
qed simp_all

lemma handle_of_slot:
  assumes "h < KERNEL_TIMERS"
  shows "unat (of_nat h + 1 :: u32) = h + 1" and "(of_nat h + 1 :: u32) \<noteq> 0"
    and "1 \<le> (of_nat h + 1 :: u32)" and "(of_nat h + 1 :: u32) \<le> of_nat KERNEL_TIMERS"
proof -
  have h: "unat (of_nat h :: u32) = h" "h < 20"
    using assms by (simp_all add: unat_of_nat_small KERNEL_TIMERS_def)
  have "unat (of_nat h + 1 :: u32) = unat (of_nat h :: u32) + unat (1 :: u32)"
    using h by (intro unat_plus_if_no_wrap) simp
  then show u: "unat (of_nat h + 1 :: u32) = h + 1" using h by simp
  then show n: "(of_nat h + 1 :: u32) \<noteq> 0" by (metis Suc_eq_plus1 nat.distinct(1) unsigned_0)
  then show "1 \<le> (of_nat h + 1 :: u32)" by (simp only: word_one_le) simp
  show "(of_nat h + 1 :: u32) \<le> of_nat KERNEL_TIMERS"
    using u h by (simp add: word_le_nat_alt KERNEL_TIMERS_def)
qed

lemma start_timer_eq:
  assumes "timers_ok t" and "pHandler \<noteq> None"
  defines "h \<equiv> free_slot (tm_KernelTimer t) 0"
  shows "TimerStartKernelTimer t nDelay pHandler pParam pContext =
     (if timers_used t = {..<KERNEL_TIMERS} then Some (0, t)
      else Some (of_nat h + 1, t\<lparr>tm_KernelTimer := (tm_KernelTimer t)
             [h := \<lparr>kt_pHandler = pHandler, kt_nElapsesAt = tm_nTicks t + nDelay,
                    kt_pParam = pParam, kt_pContext = pContext\<rparr>]\<rparr>))"
    and "timers_used t \<noteq> {..<KERNEL_TIMERS} \<Longrightarrow> h < KERNEL_TIMERS \<and> h \<notin> timers_used t"
proof -
  note f = free_slot_spec[where ts = "tm_KernelTimer t", folded h_def]
  have "h \<notin> timers_used t" if "h < KERNEL_TIMERS"
    using that f(3) assms(1) by (simp add: timers_ok_def timers_used_def)
  moreover have "timers_used t = {..<KERNEL_TIMERS}" if "KERNEL_TIMERS \<le> h"
    using that f(2) by (auto simp: timers_used_def)
  ultimately have full: "timers_used t = {..<KERNEL_TIMERS} \<longleftrightarrow> KERNEL_TIMERS \<le> h"
    by (metis lessThan_iff not_le)
  then show "TimerStartKernelTimer t nDelay pHandler pParam pContext =
     (if timers_used t = {..<KERNEL_TIMERS} then Some (0, t)
      else Some (of_nat h + 1, t\<lparr>tm_KernelTimer := (tm_KernelTimer t)
             [h := \<lparr>kt_pHandler = pHandler, kt_nElapsesAt = tm_nTicks t + nDelay,
                    kt_pParam = pParam, kt_pContext = pContext\<rparr>]\<rparr>))"
    using assms(2) by (simp add: TimerStartKernelTimer_def h_def Let_def)
  show "h < KERNEL_TIMERS \<and> h \<notin> timers_used t" if "timers_used t \<noteq> {..<KERNEL_TIMERS}"
    using that full f(3) assms(1) by (simp add: timers_ok_def timers_used_def)
qed

lemma cancel_timer_eq:
  assumes "timers_ok t" and "h < KERNEL_TIMERS"
  shows "TimerCancelKernelTimer t (of_nat h + 1) = Some (t\<lparr>tm_KernelTimer :=
     (tm_KernelTimer t)[h := (tm_KernelTimer t ! h)\<lparr>kt_pHandler := None\<rparr>]\<rparr>)"
  using assms handle_of_slot[OF assms(2)]
  by (simp add: TimerCancelKernelTimer_def array_get_def array_set_def timers_ok_def
      unat_of_nat_small KERNEL_TIMERS_def)

interpretation ktimer: handle_pool timers_ok timers_used "\<lambda>_. KERNEL_TIMERS" timer_acquire timer_release
proof unfold_locales
  fix s s' :: TTimer and r :: timer_request and h :: nat
  assume ok: "timers_ok s"
  obtain d hd p c where r: "r = (d, hd, p, c)" by (cases r)
  note st = start_timer_eq(1)[OF ok, where pHandler = "Some hd" and nDelay = d and pParam = p and pContext = c,
      simplified] start_timer_eq(2)[OF ok]
  show "timers_used s \<subseteq> {..<KERNEL_TIMERS}" by (auto simp: timers_used_def)
  show "h < KERNEL_TIMERS \<and> h \<notin> timers_used s \<and> timers_used s' = insert h (timers_used s) \<and> timers_ok s'
      \<and> KERNEL_TIMERS = KERNEL_TIMERS"
    if a: "timer_acquire s r = (Some h, s')"
  proof (cases "timers_used s = {..<KERNEL_TIMERS}")
    case True
    with a r st(1) show ?thesis by (simp add: timer_acquire_def)
  next
    case False
    define k where "k = free_slot (tm_KernelTimer s) 0"
    from st(2)[of "Some hd", OF _ False] have k: "k < KERNEL_TIMERS" "k \<notin> timers_used s" by (simp_all add: k_def)
    from a r st(1) False handle_of_slot(1,2)[OF k(1)] have "h = k"
      "s' = s\<lparr>tm_KernelTimer := (tm_KernelTimer s)[k := \<lparr>kt_pHandler = Some hd,
                kt_nElapsesAt = tm_nTicks s + d, kt_pParam = p, kt_pContext = c\<rparr>]\<rparr>"
      by (auto simp: timer_acquire_def k_def)
    with k ok show ?thesis
      by (auto simp: timers_used_def timers_ok_def nth_list_update)
  qed
  show "s' = s \<and> timers_used s = {..<KERNEL_TIMERS}" if a: "timer_acquire s r = (None, s')"
    using a r st(1) st(2)[of "Some hd"] handle_of_slot(2) by (auto simp: timer_acquire_def split: if_splits)
  show "timers_used (timer_release s h) = timers_used s - {h} \<and> timers_ok (timer_release s h)
      \<and> KERNEL_TIMERS = KERNEL_TIMERS" if "h \<in> timers_used s"
    using that ok cancel_timer_eq[OF ok, of h]
    by (auto simp: timer_release_def timers_used_def timers_ok_def nth_list_update split: if_splits)
qed

section \<open>Expiry\<close>

lemma sint_diff:
  fixes d k :: u32
  assumes "d < 2 ^ 31" and "k < 2 ^ 31"
  shows "sint (d - k) = uint d - uint k"
proof -
  have "uint d < 2 ^ 31" "uint k < 2 ^ 31"
    using assms by (simp_all add: word_less_def)
  moreover have "0 \<le> uint d" "0 \<le> uint k" by simp_all
  ultimately have "signed_take_bit 31 (uint d - uint k) = uint d - uint k"
    by (intro signed_take_bit_int_eq_self) linarith+
  moreover have "sint (word_of_int (uint d - uint k) :: u32) = signed_take_bit 31 (uint d - uint k)"
    by (simp only: sint_sbintrunc') simp
  ultimately show ?thesis by simp
qed

lemma due_window:
  assumes "d < 2 ^ 31" and "k < 2 ^ 31"
  shows "timer_due (T + d) (T + k) \<longleftrightarrow> d \<le> k"
proof -
  have "T + d - (T + k) = d - k" by simp
  then show ?thesis
    using sint_diff[OF assms] by (simp add: timer_due_def word_le_def)
qed

text \<open>
  The calls of one poll.  A call is made after its slot has been freed, and what it does to the timers, starting and cancelling
  included, is what the next one finds.
\<close>

type_synonym timer_call = "TKernelTimerHandler \<times> u32 \<times> addr \<times> addr"

definition slot_of :: "timer_call \<Rightarrow> nat" where
  "slot_of c = unat (fst (snd c)) - 1"

definition free_timer :: "nat \<Rightarrow> 'a timer_world_scheme \<Rightarrow> 'a timer_world_scheme" where
  "free_timer i w = w\<lparr>w_timer := (w_timer w)\<lparr>tm_KernelTimer := (tm_KernelTimer (w_timer w))
     [i := (tm_KernelTimer (w_timer w) ! i)\<lparr>kt_pHandler := None\<rparr>]\<rparr>\<rparr>"

fun run_calls ::
    "(TKernelTimerHandler \<Rightarrow> u32 \<Rightarrow> addr \<Rightarrow> addr \<Rightarrow> 'a timer_world_scheme \<Rightarrow> 'a timer_world_scheme option)
     \<Rightarrow> timer_call list \<Rightarrow> 'a timer_world_scheme \<Rightarrow> 'a timer_world_scheme option" where
  "run_calls callf [] w = Some w"
| "run_calls callf ((f, h, p, c) # cs) w =
     Option.bind (callf f h p c (free_timer (unat h - 1) w)) (run_calls callf cs)"

text \<open>The call a slot is due for.\<close>

definition slot_calls :: "u32 \<Rightarrow> TKernelTimer \<Rightarrow> nat \<Rightarrow> timer_call list" where
  "slot_calls nTicks t i = (case kt_pHandler t of
     None \<Rightarrow> []
   | Some f \<Rightarrow> if timer_due (kt_nElapsesAt t) nTicks
              then [(f, of_nat i + 1, kt_pParam t, kt_pContext t)] else [])"

text \<open>What a handler may do with the timers: anything but change the number of slots and the tick counter.\<close>

definition handlers_keep ::
    "(TKernelTimerHandler \<Rightarrow> u32 \<Rightarrow> addr \<Rightarrow> addr \<Rightarrow> 'a timer_world_scheme \<Rightarrow> 'a timer_world_scheme option) \<Rightarrow> bool" where
  "handlers_keep callf \<longleftrightarrow> (\<forall>f h p c w w'. callf f h p c w = Some w' \<longrightarrow> timers_ok (w_timer w) \<longrightarrow>
     timers_ok (w_timer w') \<and> tm_nTicks (w_timer w') = tm_nTicks (w_timer w))"

definition calls_from :: "nat \<Rightarrow> u32 \<Rightarrow> (TKernelTimerHandler \<Rightarrow> u32 \<Rightarrow> addr \<Rightarrow> addr \<Rightarrow> 'a timer_world_scheme \<Rightarrow> 'a timer_world_scheme option)
    \<Rightarrow> timer_call list \<Rightarrow> 'a timer_world_scheme \<Rightarrow> bool" where
  "calls_from h n callf calls w \<longleftrightarrow> sorted_wrt (<) (map slot_of calls) \<and> (\<forall>c \<in> set calls. h \<le> slot_of c \<and> slot_of c < KERNEL_TIMERS)
     \<and> (\<forall>i < KERNEL_TIMERS. h \<le> i \<longrightarrow> (\<forall>v. run_calls callf (filter (\<lambda>c. slot_of c < i) calls) w = Some v \<longrightarrow>
          filter (\<lambda>c. slot_of c = i) calls = slot_calls n (tm_KernelTimer (w_timer v) ! i) i))"

lemma slot_of_handle: "i < KERNEL_TIMERS \<Longrightarrow> slot_of (f, of_nat i + 1, p, c) = i"
  using handle_of_slot(1) by (simp add: slot_of_def)

lemma calls_from_skip:
  assumes "calls_from (h + 1) n callf calls w" and "slot_calls n (tm_KernelTimer (w_timer w) ! h) h = []"
  shows "calls_from h n callf calls w"
proof -
  have none: "filter (\<lambda>c. slot_of c < h) calls = []" "filter (\<lambda>c. slot_of c = h) calls = []"
    using assms(1) by (auto simp: calls_from_def filter_empty_conv)
  show ?thesis unfolding calls_from_def
  proof (intro conjI allI impI)
    fix i v assume "i < KERNEL_TIMERS" "h \<le> i" "run_calls callf (filter (\<lambda>c. slot_of c < i) calls) w = Some v"
    with assms none show "filter (\<lambda>c. slot_of c = i) calls = slot_calls n (tm_KernelTimer (w_timer v) ! i) i"
      by (cases "i = h") (auto simp: calls_from_def)
  qed (use assms(1) in \<open>auto simp: calls_from_def\<close>)
qed

lemma calls_from_call:
  assumes h: "h < KERNEL_TIMERS" and s: "slot_calls n (tm_KernelTimer (w_timer w) ! h) h = [(f, of_nat h + 1, p, c)]"
    and step: "case callf f (of_nat h + 1) p c (free_timer h w) of None \<Rightarrow> calls = [] | Some w' \<Rightarrow> calls_from (h + 1) n callf calls w'"
  shows "calls_from h n callf ((f, of_nat h + 1, p, c) # calls) w"
proof -
  let ?c = "(f, of_nat h + 1, p, c)"
  have sc: "slot_of ?c = h" using slot_of_handle[OF h] by simp
  have later: "\<forall>x \<in> set calls. h < slot_of x \<and> slot_of x < KERNEL_TIMERS" and so: "sorted_wrt (<) (map slot_of calls)"
    using step by (auto simp: calls_from_def split: option.splits)
  have u: "unat (of_nat h + 1 :: u32) - 1 = h" using handle_of_slot(1)[OF h] by simp
  show ?thesis unfolding calls_from_def
  proof (intro conjI allI impI)
    fix i v assume i: "i < KERNEL_TIMERS" "h \<le> i" and run: "run_calls callf (filter (\<lambda>c. slot_of c < i) (?c # calls)) w = Some v"
    show "filter (\<lambda>c. slot_of c = i) (?c # calls) = slot_calls n (tm_KernelTimer (w_timer v) ! i) i"
    proof (cases "i = h")
      case True
      have "filter (\<lambda>c. slot_of c < h) calls = []" "filter (\<lambda>c. slot_of c = h) calls = []"
        using later by (auto simp: filter_empty_conv)
      with True run sc s show ?thesis by simp
    next
      case False
      with i run sc u obtain w' where w': "callf f (of_nat h + 1) p c (free_timer h w) = Some w'"
        "run_calls callf (filter (\<lambda>c. slot_of c < i) calls) w' = Some v" by (auto simp: bind_Some_iff)
      with step i False sc show ?thesis by (auto simp: calls_from_def)
    qed
  qed (use later so sc h in auto)
qed

lemma poll_from_calls:
  assumes keep: "handlers_keep callf" and "timers_ok (w_timer w)" and "h \<le> KERNEL_TIMERS"
  shows "\<exists>calls. poll_from callf h w = run_calls callf calls w \<and> calls_from h (tm_nTicks (w_timer w)) callf calls w"
  using assms(2,3)
proof (induction "KERNEL_TIMERS - h" arbitrary: h w)
  case 0
  then show ?case by (intro exI[of _ "[]"]) (subst poll_from.simps, simp add: calls_from_def)
next
  case (Suc k)
  let ?ts = "tm_KernelTimer (w_timer w)" and ?n = "tm_nTicks (w_timer w)"
  from Suc have h: "h < KERNEL_TIMERS" "h < length ?ts" "k = KERNEL_TIMERS - (h + 1)" by (simp_all add: timers_ok_def)
  note IH = Suc.hyps(1)[OF h(3)]
  have unfold: "poll_from callf h w = (case slot_calls ?n (?ts ! h) h of
      [] \<Rightarrow> poll_from callf (h + 1) w
    | (f, k, p, c) # _ \<Rightarrow> Option.bind (callf f k p c (free_timer h w)) (poll_from callf (h + 1)))"
    using h by (subst poll_from.simps) (simp add: array_get_def slot_calls_def free_timer_def split: option.splits)
  consider (none) "slot_calls ?n (?ts ! h) h = []"
    | (call) f p c where "slot_calls ?n (?ts ! h) h = [(f, of_nat h + 1, p, c)]"
    unfolding slot_calls_def by (cases "kt_pHandler (?ts ! h)"; cases "timer_due (kt_nElapsesAt (?ts ! h)) ?n") simp_all
  then show ?case
  proof cases
    case none
    from IH[of w] Suc.prems h obtain calls where
      c: "poll_from callf (h + 1) w = run_calls callf calls w" "calls_from (h + 1) ?n callf calls w" by auto
    from calls_from_skip[OF c(2) none] c(1) none unfold show ?thesis by (intro exI[of _ calls]) simp
  next
    case call
    let ?r = "callf f (of_nat h + 1) p c (free_timer h w)"
    have u: "unat (of_nat h + 1 :: u32) - 1 = h" using handle_of_slot(1)[OF h(1)] by simp
    show ?thesis
    proof (cases ?r)
      case None
      have "calls_from h ?n callf [(f, of_nat h + 1, p, c)] w" by (rule calls_from_call[OF h(1) call]) (simp add: None)
      with None call unfold u show ?thesis by (intro exI[of _ "[(f, of_nat h + 1, p, c)]"]) simp
    next
      case (Some w')
      have ok: "timers_ok (w_timer (free_timer h w))" "tm_nTicks (w_timer (free_timer h w)) = ?n"
        using Suc.prems by (simp_all add: timers_ok_def free_timer_def)
      with keep Some have w': "timers_ok (w_timer w')" "tm_nTicks (w_timer w') = ?n" unfolding handlers_keep_def by metis+
      from IH[OF w'(1)] h w'(2) obtain calls where
        c: "poll_from callf (h + 1) w' = run_calls callf calls w'" "calls_from (h + 1) ?n callf calls w'" by auto
      have "calls_from h ?n callf ((f, of_nat h + 1, p, c) # calls) w"
        by (rule calls_from_call[OF h(1) call]) (use Some c(2) in simp)
      with Some call unfold u c(1) show ?thesis by (intro exI[of _ "(f, of_nat h + 1, p, c) # calls"]) simp
    qed
  qed
qed

lemma run_calls_total: "(\<And>f h p c w. callf f h p c w \<noteq> None) \<Longrightarrow> run_calls callf cs w \<noteq> None"
proof (induction cs arbitrary: w)
  case (Cons x cs)
  obtain f h p c where x: "x = (f, h, p, c)" by (cases x)
  obtain w' where "callf f h p c (free_timer (unat h - 1) w) = Some w'" using Cons.prems by blast
  with Cons.IH[OF Cons.prems] show ?case by (simp add: x)
qed simp

section \<open>Properties of timers\<close>

text \<open>
  Claim C15. Kernel timers are a pool of 20 slots.  Starting a timer returns handle 0 and changes
  nothing exactly when all slots are taken; otherwise it returns a handle between 1 and 20 whose
  slot was free and now holds the handler, its pointers and the elapse time, every other slot
  being unchanged; cancelling the handle frees the slot; and handles given out in a row are
  pairwise distinct.
\<close>

theorem kernel_timer_pool:
  assumes "timers_ok t"
  shows "(\<exists>hTimer t'. TimerStartKernelTimer t nDelay (Some f) p c = Some (hTimer, t') \<and> timers_ok t'
      \<and> (if card (timers_used t) = KERNEL_TIMERS then hTimer = 0 \<and> t' = t
         else 1 \<le> hTimer \<and> hTimer \<le> 20 \<and> unat hTimer - 1 \<notin> timers_used t
            \<and> timers_used t' = insert (unat hTimer - 1) (timers_used t)
            \<and> tm_KernelTimer t' ! (unat hTimer - 1) = \<lparr>kt_pHandler = Some f,
                 kt_nElapsesAt = tm_nTicks t + nDelay, kt_pParam = p, kt_pContext = c\<rparr>
            \<and> (\<forall>i. i \<noteq> unat hTimer - 1 \<longrightarrow> tm_KernelTimer t' ! i = tm_KernelTimer t ! i)
            \<and> (\<exists>t''. TimerCancelKernelTimer t' hTimer = Some t'' \<and> timers_used t'' = timers_used t)))
    \<and> (\<forall>rs hs t'. ktimer.acquire_n t rs = (hs, t') \<longrightarrow> distinct (filter (\<lambda>h. h \<noteq> None) hs))"
proof (intro conjI)
  show "\<forall>rs hs t'. ktimer.acquire_n t rs = (hs, t') \<longrightarrow> distinct (filter (\<lambda>h. h \<noteq> None) hs)"
    using ktimer.acquire_n_distinct[OF assms] by blast
next
  have full: "card (timers_used t) = KERNEL_TIMERS \<longleftrightarrow> timers_used t = {..<KERNEL_TIMERS}"
    by (metis assms card_lessThan card_subset_eq finite_lessThan ktimer.used_bounded)
  show "\<exists>hTimer t'. TimerStartKernelTimer t nDelay (Some f) p c = Some (hTimer, t') \<and> timers_ok t'
      \<and> (if card (timers_used t) = KERNEL_TIMERS then hTimer = 0 \<and> t' = t
         else 1 \<le> hTimer \<and> hTimer \<le> 20 \<and> unat hTimer - 1 \<notin> timers_used t
            \<and> timers_used t' = insert (unat hTimer - 1) (timers_used t)
            \<and> tm_KernelTimer t' ! (unat hTimer - 1) = \<lparr>kt_pHandler = Some f,
                 kt_nElapsesAt = tm_nTicks t + nDelay, kt_pParam = p, kt_pContext = c\<rparr>
            \<and> (\<forall>i. i \<noteq> unat hTimer - 1 \<longrightarrow> tm_KernelTimer t' ! i = tm_KernelTimer t ! i)
            \<and> (\<exists>t''. TimerCancelKernelTimer t' hTimer = Some t'' \<and> timers_used t'' = timers_used t))"
  proof (cases "timers_used t = {..<KERNEL_TIMERS}")
    case True
    with full assms start_timer_eq(1)[OF assms, of "Some f"] show ?thesis by simp
  next
    case False
    define h where "h = free_slot (tm_KernelTimer t) 0"
    define t' where "t' = t\<lparr>tm_KernelTimer := (tm_KernelTimer t)[h := \<lparr>kt_pHandler = Some f,
        kt_nElapsesAt = tm_nTicks t + nDelay, kt_pParam = p, kt_pContext = c\<rparr>]\<rparr>"
    from start_timer_eq(2)[OF assms, of "Some f"] False
    have h: "h < KERNEL_TIMERS" "h \<notin> timers_used t" by (simp_all add: h_def)
    note hh = handle_of_slot[OF h(1)]
    from start_timer_eq(1)[OF assms, of "Some f"] False
    have st: "TimerStartKernelTimer t nDelay (Some f) p c = Some (of_nat h + 1, t')"
      by (simp add: h_def t'_def)
    have ok': "timers_ok t'" and used': "timers_used t' = insert h (timers_used t)"
      and slot: "tm_KernelTimer t' ! h = \<lparr>kt_pHandler = Some f,
          kt_nElapsesAt = tm_nTicks t + nDelay, kt_pParam = p, kt_pContext = c\<rparr>"
      and other: "\<forall>i. i \<noteq> h \<longrightarrow> tm_KernelTimer t' ! i = tm_KernelTimer t ! i"
      using assms h by (auto simp: timers_ok_def timers_used_def t'_def nth_list_update)
    have "\<exists>t''. TimerCancelKernelTimer t' (of_nat h + 1) = Some t'' \<and> timers_used t'' = timers_used t"
      using cancel_timer_eq[OF ok' h(1)] ktimer.release_used[OF ok', of h] used' h(2)
      by (auto simp: timer_release_def)
    with st ok' used' slot other h hh full False show ?thesis
      by (intro exI[of _ "of_nat h + 1"] exI[of _ t']) (simp add: KERNEL_TIMERS_def)
  qed
qed

theorem kernel_timer_pool_witness:
  "\<exists>hTimer t'. TimerStartKernelTimer (Timer \<lparr>tm_initialized = False, tm_nTicks = 9, tm_nTime = 0,
       tm_KernelTimer = replicate 20 \<lparr>kt_pHandler = Some HostTimerHandler, kt_nElapsesAt = 0,
         kt_pParam = 0, kt_pContext = 0\<rparr>, tm_nMsDelay = 0, tm_nusDelay = 0\<rparr>)
     5 (Some HostTimerHandler) 3 0 = Some (hTimer, t') \<and> timers_used t' = {unat hTimer - 1}"
proof -
  let ?t = "Timer \<lparr>tm_initialized = False, tm_nTicks = 9, tm_nTime = 0,
       tm_KernelTimer = replicate 20 \<lparr>kt_pHandler = Some HostTimerHandler, kt_nElapsesAt = 0,
         kt_pParam = 0, kt_pContext = 0\<rparr>, tm_nMsDelay = 0, tm_nusDelay = 0\<rparr>"
  have ok: "timers_ok ?t" by (simp add: timers_ok_def Timer_def KERNEL_TIMERS_def)
  have u: "timers_used ?t = {}" by (simp add: timers_used_def Timer_def KERNEL_TIMERS_def)
  from kernel_timer_pool[OF ok, of 5 HostTimerHandler 3 0] u show ?thesis
    by (auto simp: KERNEL_TIMERS_def)
qed

text \<open>
  Claim C16. Expiry survives the wrap-around of the tick counter: a timer started at any tick with
  a delay below \<open>2\<^sup>3\<^sup>1\<close> ticks is due after \<open>k\<close> further ticks, for \<open>k\<close> below \<open>2\<^sup>3\<^sup>1\<close>, exactly when
  its delay is at most \<open>k\<close>.
\<close>

theorem timer_expiry_wraps:
  assumes "TimerStartKernelTimer t nDelay (Some f) p c = Some (hTimer, t')" and "hTimer \<noteq> 0"
    and "timers_ok t" and "nDelay < 2 ^ 31" and "k < 2 ^ 31"
  shows "timer_due (kt_nElapsesAt (tm_KernelTimer t' ! (unat hTimer - 1))) (tm_nTicks t + k)
         \<longleftrightarrow> nDelay \<le> k"
proof -
  from assms(1,2) start_timer_eq[OF assms(3), of "Some f"]
  have "tm_KernelTimer t' ! (unat hTimer - 1) = \<lparr>kt_pHandler = Some f,
          kt_nElapsesAt = tm_nTicks t + nDelay, kt_pParam = p, kt_pContext = c\<rparr>"
    using assms(3) handle_of_slot[of "free_slot (tm_KernelTimer t) 0"]
    by (auto simp: timers_ok_def split: if_splits)
  with due_window[OF assms(4,5)] show ?thesis by simp
qed

theorem timer_expiry_wraps_witness:
  "timer_due (0xFFFFFFFF + 3) (0xFFFFFFFF + 2) = False \<and> timer_due (0xFFFFFFFF + 3) (0xFFFFFFFF + 3)"
proof -
  let ?t = "\<lparr>tm_initialized = True, tm_nTicks = 0xFFFFFFFF, tm_nTime = 0,
       tm_KernelTimer = replicate 20 \<lparr>kt_pHandler = None, kt_nElapsesAt = 0,
         kt_pParam = 0, kt_pContext = 0\<rparr>, tm_nMsDelay = 0, tm_nusDelay = 0\<rparr>"
  let ?t' = "?t\<lparr>tm_KernelTimer := (tm_KernelTimer ?t)[0 := \<lparr>kt_pHandler = Some HostTimerHandler,
       kt_nElapsesAt = 0xFFFFFFFF + 3, kt_pParam = 0, kt_pContext = 0\<rparr>]\<rparr>"
  have s: "TimerStartKernelTimer ?t 3 (Some HostTimerHandler) 0 0 = Some (1, ?t')"
    by (simp add: TimerStartKernelTimer_def numeral_eq_Suc KERNEL_TIMERS_def)
  have ok: "timers_ok ?t" by (simp add: timers_ok_def KERNEL_TIMERS_def)
  from timer_expiry_wraps[OF s _ ok, of 2] timer_expiry_wraps[OF s _ ok, of 3] show ?thesis
    by simp
qed

text \<open>
  Claim C4. Each tick advances the tick counter by one, keeps the second counter equal to the
  ticks divided by the tick rate, re-arms the compare register one tick ahead and
  acknowledges the interrupt; it then makes a list of calls.  The handlers may do anything, start and cancel timers included, but
  change the number of slots and the tick counter.  The calls are in the order of the slots, at most one for each; every slot is freed
  before its handler runs (\<open>run_calls\<close>); and a slot is called, with the pointers it was started with, exactly if its timer is started and due
  at the new tick when the calls for the lower slots have been made.  If all handlers return, so does the interrupt.
\<close>

theorem timer_interrupt_fires_due:
  fixes w :: "'a timer_world_scheme"
  assumes keep: "handlers_keep callf" and "timers_ok (w_timer w)" and "bit (io_oracle (w_io w) (io_pos (w_io w))) 3"
    and "tm_nTicks (w_timer w) \<noteq> - 1"
    and "tm_nTime (w_timer w) = tm_nTicks (w_timer w) div timer_HZ"
  defines "n \<equiv> tm_nTicks (w_timer w) + 1"
  shows "\<exists>io calls. let w0 = w\<lparr>w_io := io, w_timer := (w_timer w)\<lparr>tm_nTicks := n, tm_nTime := n div timer_HZ\<rparr>\<rparr> in
     TimerInterruptHandler callf w = run_calls callf calls w0
     \<and> sorted_wrt (<) (map slot_of calls) \<and> (\<forall>c \<in> set calls. slot_of c < KERNEL_TIMERS)
     \<and> (\<forall>i < KERNEL_TIMERS. \<forall>v. run_calls callf (filter (\<lambda>c. slot_of c < i) calls) w0 = Some v \<longrightarrow>
          filter (\<lambda>c. slot_of c = i) calls = slot_calls n (tm_KernelTimer (w_timer v) ! i) i)
     \<and> ((\<forall>f h p c v. callf f h p c v \<noteq> None) \<longrightarrow> TimerInterruptHandler callf w \<noteq> None)
     \<and> io_trace io = MmioWrite ARM_SYSTIMER_CS 8
         # MmioWrite ARM_SYSTIMER_C3 (io_oracle (w_io w) (io_pos (w_io w) + 1) + 100000)
         # MmioRead ARM_SYSTIMER_CLO (io_oracle (w_io w) (io_pos (w_io w) + 1))
         # MmioRead ARM_SYSTIMER_CS (io_oracle (w_io w) (io_pos (w_io w))) # io_trace (w_io w)"
proof -
  let ?v = "io_oracle (w_io w) (io_pos (w_io w))" and ?c = "io_oracle (w_io w) (io_pos (w_io w) + 1)"
  let ?time = "if n mod timer_HZ = 0 then tm_nTime (w_timer w) + 1 else tm_nTime (w_timer w)"
  let ?io = "io_emit (MmioWrite ARM_SYSTIMER_CS 8) (io_emit (MmioWrite ARM_SYSTIMER_C3 (?c + 100000))
     (snd (mmio_read ARM_SYSTIMER_CLO (snd (mmio_read ARM_SYSTIMER_CS (w_io w))))))"
  let ?w = "w\<lparr>w_io := ?io, w_timer := (w_timer w)\<lparr>tm_nTicks := n, tm_nTime := ?time\<rparr>\<rparr>"
  have b: "?v AND 8 \<noteq> 0" using assms(3) word_and_exp_bit[of ?v 3] by simp
  have h: "TimerInterruptHandler callf w = TimerPollKernelTimers callf ?w"
    using b by (simp add: TimerInterruptHandler_def mmio_read_def Let_def CLOCKHZ_def timer_HZ_def n_def)
  have un: "unat n = Suc (unat (tm_nTicks (w_timer w)))"
  proof -
    have "tm_nTicks (w_timer w) < - 1" using assms(4) by (simp add: less_le)
    from unat_inc_less[OF this] show ?thesis by (simp add: n_def)
  qed
  have time: "?time = n div timer_HZ"
  proof -
    let ?a = "unat (tm_nTicks (w_timer w))"
    have d: "Suc ?a div 10 = (if Suc ?a mod 10 = 0 then Suc (?a div 10) else ?a div 10)"
      by (rule div_Suc)
    have z: "n mod timer_HZ = 0 \<longleftrightarrow> Suc ?a mod 10 = 0"
      using un by (simp only: word_unat_eq_iff[of "n mod timer_HZ"] unat_mod) (simp add: timer_HZ_def)
    have t: "unat (tm_nTime (w_timer w)) = ?a div 10" "unat (n div timer_HZ) = Suc ?a div 10"
      unfolding assms(5) unat_div un by (simp_all add: timer_HZ_def)
    have "?a < 2 ^ 32" using unsigned_less[of "tm_nTicks (w_timer w)"] by simp
    then have p: "unat (tm_nTime (w_timer w) + 1) = Suc (?a div 10)"
      using t(1) by (subst unat_plus_if_no_wrap) simp_all
    show ?thesis
      using p t d z by (simp only: word_unat_eq_iff split: if_split) simp
  qed
  let ?w0 = "w\<lparr>w_io := ?io, w_timer := (w_timer w)\<lparr>tm_nTicks := n, tm_nTime := n div timer_HZ\<rparr>\<rparr>"
  have "timers_ok (w_timer ?w0)" using assms(2) by (simp add: timers_ok_def)
  from poll_from_calls[OF keep this, of 0] obtain calls where
    c: "TimerInterruptHandler callf w = run_calls callf calls ?w0" "calls_from 0 n callf calls ?w0"
    using h time by (auto simp: TimerPollKernelTimers_def)
  moreover have "io_trace ?io = MmioWrite ARM_SYSTIMER_CS 8 # MmioWrite ARM_SYSTIMER_C3 (?c + 100000)
      # MmioRead ARM_SYSTIMER_CLO ?c # MmioRead ARM_SYSTIMER_CS ?v # io_trace (w_io w)"
    by (simp add: mmio_read_def Let_def)
  moreover have "(\<forall>f h p c v. callf f h p c v \<noteq> None) \<longrightarrow> TimerInterruptHandler callf w \<noteq> None"
    unfolding c(1) using run_calls_total[of callf] by auto
  ultimately show ?thesis
    unfolding Let_def calls_from_def by (intro exI[of _ ?io] exI[of _ calls]) simp
qed

text \<open>A handler that starts its timer again, five ticks later.\<close>

definition rearm :: "TKernelTimerHandler \<Rightarrow> u32 \<Rightarrow> addr \<Rightarrow> addr \<Rightarrow> timer_world \<Rightarrow> timer_world option" where
  "rearm f h p c w = map_option (\<lambda>(_, t). w\<lparr>w_timer := t\<rparr>) (TimerStartKernelTimer (w_timer w) 5 (Some f) p c)"

definition one_timer :: timer_world where
  "one_timer = \<lparr>w_timer = \<lparr>tm_initialized = True, tm_nTicks = 19, tm_nTime = 1,
         tm_KernelTimer = \<lparr>kt_pHandler = Some HostTimerHandler, kt_nElapsesAt = 20, kt_pParam = 4, kt_pContext = 0\<rparr>
           # replicate 19 \<lparr>kt_pHandler = None, kt_nElapsesAt = 0, kt_pParam = 0, kt_pContext = 0\<rparr>,
         tm_nMsDelay = 0, tm_nusDelay = 0\<rparr>,
       w_io = \<lparr>io_oracle = (\<lambda>_. 8), io_pos = 0, io_trace = []\<rparr>\<rparr>"

lemma rearm_keeps: "handlers_keep rearm" and rearm_total: "rearm f h p c v \<noteq> None"
  by (auto simp: handlers_keep_def rearm_def TimerStartKernelTimer_def timers_ok_def Let_def split: if_splits)

theorem timer_interrupt_fires_due_witness:
  "\<exists>io calls w'. TimerInterruptHandler rearm one_timer = Some w'
     \<and> run_calls rearm calls (one_timer\<lparr>w_io := io, w_timer := (w_timer one_timer)\<lparr>tm_nTicks := 20, tm_nTime := 2\<rparr>\<rparr>) = Some w'
     \<and> filter (\<lambda>c. slot_of c = 0) calls = [(HostTimerHandler, 1, 4, 0)]"
proof -
  have ok: "timers_ok (w_timer one_timer)" by (simp add: one_timer_def timers_ok_def KERNEL_TIMERS_def)
  have b: "bit (io_oracle (w_io one_timer) (io_pos (w_io one_timer))) 3" by (simp add: one_timer_def bit_iff_odd)
  have t: "tm_nTicks (w_timer one_timer) \<noteq> - 1" "tm_nTime (w_timer one_timer) = tm_nTicks (w_timer one_timer) div timer_HZ"
    "tm_nTicks (w_timer one_timer) + 1 = 20" "(20 :: u32) div timer_HZ = 2"
    by (simp_all add: one_timer_def timer_HZ_def)
  have s: "slot_calls 20 (tm_KernelTimer (w_timer one_timer) ! 0) 0 = [(HostTimerHandler, 1, 4, 0)]"
    by (simp add: one_timer_def slot_calls_def timer_due_def)
  have z: "0 < KERNEL_TIMERS" by (simp add: KERNEL_TIMERS_def)
  from timer_interrupt_fires_due[OF rearm_keeps ok b t(1,2), unfolded t(3,4)] obtain io calls where
    r: "TimerInterruptHandler rearm one_timer = run_calls rearm calls (one_timer\<lparr>w_io := io, w_timer := (w_timer one_timer)\<lparr>tm_nTicks := 20, tm_nTime := 2\<rparr>\<rparr>)"
    and c: "filter (\<lambda>c. slot_of c = 0) calls = slot_calls 20 (tm_KernelTimer (w_timer one_timer) ! 0) 0"
    and some: "TimerInterruptHandler rearm one_timer \<noteq> None"
    using z rearm_total unfolding Let_def by (elim exE conjE) (rule that, auto)
  with s show ?thesis by auto
qed

end
