(* ===== verification/HostTransfer.thy ===== *)
theory HostTransfer
  imports HostCore KernelTimer
begin

text \<open>
  Transfers of \<^verbatim>\<open>ext/uspi/lib/dwhcidevice.c\<close>: requests, their stages on host channels, the channel
  interrupt handler with its state machine, the periodic delay timer and the blocking calls that
  wait for a completion.

  Class drivers are reached through function pointers (completion routines and timer handlers); what
  they do is the parameter \<open>drv\<close>.  While a blocking call spins on \<^verbatim>\<open>m_bWaiting\<close> the CPU takes
  interrupts; which interrupt comes next is an input of the model, \<open>w_events\<close>.  A wait that is
  never ended does not return.
\<close>

section \<open>State\<close>

datatype usb_event = UsbInterrupt | TimerInterrupt

record usb_world = timer_world +
  w_host :: TDWHCIDevice
  w_store :: usb_store
  w_events :: "nat \<Rightarrow> usb_event"
  w_evpos :: nat

record 'w driver_code =
  drv_completion :: "nat \<Rightarrow> addr \<Rightarrow> uintptr \<Rightarrow> uintptr \<Rightarrow> 'w \<Rightarrow> 'w option"
  drv_timer :: "nat \<Rightarrow> u32 \<Rightarrow> addr \<Rightarrow> addr \<Rightarrow> 'w \<Rightarrow> 'w option"

text \<open>The address of the one host object, as callback context.\<close>

definition host_ref :: addr where "host_ref = 1"

definition stage_of :: "'a usb_world_scheme \<Rightarrow> nat \<Rightarrow> TDWHCITransferStageData option" where
  "stage_of w i = array_get (hd_StageData (w_host w)) i"

definition put_stage :: "nat \<Rightarrow> TDWHCITransferStageData \<Rightarrow> 'a usb_world_scheme \<Rightarrow> 'a usb_world_scheme" where
  "put_stage i x w = w\<lparr>w_host := (w_host w)\<lparr>hd_StageData := (hd_StageData (w_host w))[i := x]\<rparr>\<rparr>"

definition urb_of :: "'a usb_world_scheme \<Rightarrow> addr \<Rightarrow> TUSBRequest option" where
  "urb_of w u = st_urbs (w_store w) u"

definition put_urb :: "addr \<Rightarrow> TUSBRequest \<Rightarrow> 'a usb_world_scheme \<Rightarrow> 'a usb_world_scheme" where
  "put_urb u r w = w\<lparr>w_store := (w_store w)\<lparr>st_urbs := (st_urbs (w_store w))(u \<mapsto> r)\<rparr>\<rparr>"

definition set_urb_status :: "addr \<Rightarrow> bool \<Rightarrow> 'a usb_world_scheme \<Rightarrow> 'a usb_world_scheme option" where
  "set_urb_status u b w = do { r \<leftarrow> urb_of w u; Some (put_urb u (USBRequestSetStatus r b) w) }"

definition set_urb_result :: "addr \<Rightarrow> u32 \<Rightarrow> 'a usb_world_scheme \<Rightarrow> 'a usb_world_scheme option" where
  "set_urb_result u n w = do { r \<leftarrow> urb_of w u; Some (put_urb u (USBRequestSetResultLen r n) w) }"

section \<open>Register fields\<close>

definition DWHCI_HOST_CHAN_CHARACTER_MAX_PKT_SIZ__MASK :: u32 where
  "DWHCI_HOST_CHAN_CHARACTER_MAX_PKT_SIZ__MASK = 0x7FF"
definition DWHCI_HOST_CHAN_CHARACTER_EP_NUMBER__MASK :: u32 where
  "DWHCI_HOST_CHAN_CHARACTER_EP_NUMBER__MASK = push_bit 11 0xF"
definition DWHCI_HOST_CHAN_CHARACTER_EP_DIRECTION_IN :: u32 where
  "DWHCI_HOST_CHAN_CHARACTER_EP_DIRECTION_IN = push_bit 15 1"
definition DWHCI_HOST_CHAN_CHARACTER_LOW_SPEED_DEVICE :: u32 where
  "DWHCI_HOST_CHAN_CHARACTER_LOW_SPEED_DEVICE = push_bit 17 1"
definition DWHCI_HOST_CHAN_CHARACTER_EP_TYPE__MASK :: u32 where
  "DWHCI_HOST_CHAN_CHARACTER_EP_TYPE__MASK = push_bit 18 3"
definition DWHCI_HOST_CHAN_CHARACTER_MULTI_CNT__MASK :: u32 where
  "DWHCI_HOST_CHAN_CHARACTER_MULTI_CNT__MASK = push_bit 20 3"
definition DWHCI_HOST_CHAN_CHARACTER_DEVICE_ADDRESS__MASK :: u32 where
  "DWHCI_HOST_CHAN_CHARACTER_DEVICE_ADDRESS__MASK = push_bit 22 0x7F"
definition DWHCI_HOST_CHAN_CHARACTER_PER_ODD_FRAME :: u32 where
  "DWHCI_HOST_CHAN_CHARACTER_PER_ODD_FRAME = push_bit 29 1"
definition DWHCI_HOST_CHAN_CHARACTER_DISABLE :: u32 where
  "DWHCI_HOST_CHAN_CHARACTER_DISABLE = push_bit 30 1"
definition DWHCI_HOST_CHAN_CHARACTER_ENABLE :: u32 where
  "DWHCI_HOST_CHAN_CHARACTER_ENABLE = push_bit 31 1"
definition DWHCI_HOST_CHAN_SPLIT_CTRL_COMPLETE_SPLIT :: u32 where
  "DWHCI_HOST_CHAN_SPLIT_CTRL_COMPLETE_SPLIT = push_bit 16 1"
definition DWHCI_HOST_CHAN_SPLIT_CTRL_SPLIT_ENABLE :: u32 where
  "DWHCI_HOST_CHAN_SPLIT_CTRL_SPLIT_ENABLE = push_bit 31 1"
definition DWHCI_HOST_CHAN_XFER_SIZ_BYTES__MASK :: u32 where
  "DWHCI_HOST_CHAN_XFER_SIZ_BYTES__MASK = 0x7FFFF"
definition DWHCI_HOST_CHAN_XFER_SIZ_PACKETS__MASK :: u32 where
  "DWHCI_HOST_CHAN_XFER_SIZ_PACKETS__MASK = push_bit 19 0x3FF"
definition DWHCI_HOST_CHAN_XFER_SIZ_PACKETS :: "u32 \<Rightarrow> u32" where
  "DWHCI_HOST_CHAN_XFER_SIZ_PACKETS reg = drop_bit 19 reg AND 0x3FF"
definition DWHCI_HOST_CHAN_XFER_SIZ_PID :: "u32 \<Rightarrow> u32" where
  "DWHCI_HOST_CHAN_XFER_SIZ_PID reg = drop_bit 29 reg AND 3"
definition DWHCI_HOST_CHAN_XFER_SIZ_PID_MDATA :: u32 where
  "DWHCI_HOST_CHAN_XFER_SIZ_PID_MDATA = 3"
definition DWHCI_CORE_INT_STAT_HC_INTR :: u32 where "DWHCI_CORE_INT_STAT_HC_INTR = push_bit 25 1"

text \<open>With the L2 cache enabled the GPU sees the memory at \<^verbatim>\<open>0xC0000000\<close>.\<close>

definition BUS_ADDRESS :: "u32 \<Rightarrow> u32" where
  "BUS_ADDRESS phys = (phys AND NOT 0xC0000000) OR 0xC0000000"

section \<open>Starting a channel\<close>

definition xfer_siz_reg ::
    "usb_store \<Rightarrow> TDWHCITransferStageData \<Rightarrow> u32 \<Rightarrow> TDWHCIRegister option" where
  "xfer_siz_reg st x nChannel = do {
     let r = DWHCIRegister2 (DWHCI_HOST_CHAN_XFER_SIZ nChannel) 0;
     r \<leftarrow> DWHCIRegisterOr r (DWHCITransferStageDataGetBytesToTransfer x
                              AND DWHCI_HOST_CHAN_XFER_SIZ_BYTES__MASK);
     r \<leftarrow> DWHCIRegisterOr r (push_bit 19 (DWHCITransferStageDataGetPacketsToTransfer x)
                              AND DWHCI_HOST_CHAN_XFER_SIZ_PACKETS__MASK);
     nPID \<leftarrow> DWHCITransferStageDataGetPID st x;
     DWHCIRegisterOr r (push_bit 29 (ucast nPID)) }"

definition split_ctrl_reg ::
    "usb_store \<Rightarrow> TDWHCITransferStageData \<Rightarrow> u32 \<Rightarrow> TDWHCIRegister option" where
  "split_ctrl_reg st x nChannel = do {
     let r = DWHCIRegister2 (DWHCI_HOST_CHAN_SPLIT_CTRL nChannel) 0;
     if DWHCITransferStageDataIsSplit x then do {
       nPort \<leftarrow> DWHCITransferStageDataGetHubPortAddress st x;
       r \<leftarrow> DWHCIRegisterOr r (ucast nPort);
       nHub \<leftarrow> DWHCITransferStageDataGetHubAddress st x;
       r \<leftarrow> DWHCIRegisterOr r (push_bit 7 (ucast nHub));
       r \<leftarrow> DWHCIRegisterOr r (push_bit 14 (ucast (DWHCITransferStageDataGetSplitPosition x)));
       bComplete \<leftarrow> DWHCITransferStageDataIsSplitComplete x;
       r \<leftarrow> (if bComplete then DWHCIRegisterOr r DWHCI_HOST_CHAN_SPLIT_CTRL_COMPLETE_SPLIT
            else Some r);
       DWHCIRegisterOr r DWHCI_HOST_CHAN_SPLIT_CTRL_SPLIT_ENABLE }
     else Some r }"

definition character_reg ::
    "usb_store \<Rightarrow> TDWHCITransferStageData \<Rightarrow> TDWHCIRegister \<Rightarrow> TDWHCIRegister option" where
  "character_reg st x r = do {
     r \<leftarrow> DWHCIRegisterAnd r (NOT DWHCI_HOST_CHAN_CHARACTER_MAX_PKT_SIZ__MASK);
     r \<leftarrow> DWHCIRegisterOr r (DWHCITransferStageDataGetMaxPacketSize x
                              AND DWHCI_HOST_CHAN_CHARACTER_MAX_PKT_SIZ__MASK);
     r \<leftarrow> DWHCIRegisterAnd r (NOT DWHCI_HOST_CHAN_CHARACTER_MULTI_CNT__MASK);
     r \<leftarrow> DWHCIRegisterOr r (push_bit 20 1);
     r \<leftarrow> (if DWHCITransferStageDataIsDirectionIn x
          then DWHCIRegisterOr r DWHCI_HOST_CHAN_CHARACTER_EP_DIRECTION_IN
          else DWHCIRegisterAnd r (NOT DWHCI_HOST_CHAN_CHARACTER_EP_DIRECTION_IN));
     r \<leftarrow> (if DWHCITransferStageDataGetSpeed x = USBSpeedLow
          then DWHCIRegisterOr r DWHCI_HOST_CHAN_CHARACTER_LOW_SPEED_DEVICE
          else DWHCIRegisterAnd r (NOT DWHCI_HOST_CHAN_CHARACTER_LOW_SPEED_DEVICE));
     r \<leftarrow> DWHCIRegisterAnd r (NOT DWHCI_HOST_CHAN_CHARACTER_DEVICE_ADDRESS__MASK);
     nAddr \<leftarrow> DWHCITransferStageDataGetDeviceAddress st x;
     r \<leftarrow> DWHCIRegisterOr r (push_bit 22 (ucast nAddr));
     r \<leftarrow> DWHCIRegisterAnd r (NOT DWHCI_HOST_CHAN_CHARACTER_EP_TYPE__MASK);
     nType \<leftarrow> DWHCITransferStageDataGetEndpointType st x;
     r \<leftarrow> DWHCIRegisterOr r (push_bit 18 (ucast nType));
     r \<leftarrow> DWHCIRegisterAnd r (NOT DWHCI_HOST_CHAN_CHARACTER_EP_NUMBER__MASK);
     nNumber \<leftarrow> DWHCITransferStageDataGetEndpointNumber st x;
     DWHCIRegisterOr r (push_bit 11 (ucast nNumber)) }"

definition wait_frame ::
    "TDWHCITransferStageData \<Rightarrow> TDWHCIRegister \<Rightarrow> mmio
     \<Rightarrow> (TDWHCITransferStageData \<times> TDWHCIRegister \<times> mmio) option" where
  "wait_frame x r io =
     (case DWHCITransferStageDataGetFrameScheduler x of
        None \<Rightarrow> Some (x, r, io)
      | Some fs \<Rightarrow> do {
          (fs, io) \<leftarrow> fs_WaitForFrame fs io;
          r \<leftarrow> (if fs_IsOddFrame fs
               then DWHCIRegisterOr r DWHCI_HOST_CHAN_CHARACTER_PER_ODD_FRAME
               else DWHCIRegisterAnd r (NOT DWHCI_HOST_CHAN_CHARACTER_PER_ODD_FRAME));
          Some (x\<lparr>xs_FrameScheduler := fs\<rparr>, r, io) })"

text \<open>Clears the channel's interrupts and programs size, packets, PID, DMA address and split.\<close>

definition program_transfer :: "usb_store \<Rightarrow> TDWHCITransferStageData \<Rightarrow> u32 \<Rightarrow> mmio \<Rightarrow> mmio option" where
  "program_transfer st x nChannel io = do {
     io \<leftarrow> DWHCIRegisterWrite (DWHCIRegisterSetAll (DWHCIRegister (DWHCI_HOST_CHAN_INT nChannel))) io;
     TransferSize \<leftarrow> xfer_siz_reg st x nChannel;
     io \<leftarrow> DWHCIRegisterWrite TransferSize io;
     nDMA \<leftarrow> DWHCITransferStageDataGetDMAAddress x;
     io \<leftarrow> DWHCIRegisterWrite (DWHCIRegister2 (DWHCI_HOST_CHAN_DMA_ADDR nChannel) (BUS_ADDRESS nDMA)) io;
     let io = CleanAndInvalidateDataCacheRange nDMA (DWHCITransferStageDataGetBytesToTransfer x) io;
     SplitControl \<leftarrow> split_ctrl_reg st x nChannel;
     DWHCIRegisterWrite SplitControl io }"

text \<open>Sets the channel's parameters, waits for the frame and enables the channel.\<close>

definition enable_channel ::
    "usb_store \<Rightarrow> TDWHCITransferStageData \<Rightarrow> u32 \<Rightarrow> mmio \<Rightarrow> (TDWHCITransferStageData \<times> mmio) option" where
  "enable_channel st x nChannel io = do {
     let (_, Character, io) = DWHCIRegisterRead (DWHCIRegister (DWHCI_HOST_CHAN_CHARACTER nChannel)) io;
     Character \<leftarrow> character_reg st x Character;
     (x, Character, io) \<leftarrow> wait_frame x Character io;
     nMask \<leftarrow> DWHCITransferStageDataGetStatusMask st x;
     io \<leftarrow> DWHCIRegisterWrite (DWHCIRegisterSet (DWHCIRegister (DWHCI_HOST_CHAN_INT_MASK nChannel)) nMask) io;
     Character \<leftarrow> DWHCIRegisterOr Character DWHCI_HOST_CHAN_CHARACTER_ENABLE;
     Character \<leftarrow> DWHCIRegisterAnd Character (NOT DWHCI_HOST_CHAN_CHARACTER_DISABLE);
     io \<leftarrow> DWHCIRegisterWrite Character io;
     Some (x, io) }"

definition DWHCIDeviceStartChannel :: "nat \<Rightarrow> 'a usb_world_scheme \<Rightarrow> 'a usb_world_scheme option" where
  "DWHCIDeviceStartChannel i w = do {
     x \<leftarrow> stage_of w i;
     let nChannel = DWHCITransferStageDataGetChannelNumber x;
     c_assert (nChannel < hd_nChannels (w_host w));
     let x = DWHCITransferStageDataSetSubState x StageSubStateWaitForTransactionComplete;
     io \<leftarrow> program_transfer (w_store w) x nChannel (w_io w);
     (x, io) \<leftarrow> enable_channel (w_store w) x nChannel io;
     Some (put_stage i x (w\<lparr>w_io := io\<rparr>)) }"

text \<open>A channel that is still enabled is disabled first; its halt interrupt starts it again.\<close>

definition DWHCIDeviceStartTransaction :: "nat \<Rightarrow> 'a usb_world_scheme \<Rightarrow> 'a usb_world_scheme option" where
  "DWHCIDeviceStartTransaction i w = do {
     x \<leftarrow> stage_of w i;
     let nChannel = DWHCITransferStageDataGetChannelNumber x;
     c_assert (nChannel < hd_nChannels (w_host w));
     let (_, Character, io) =
        DWHCIRegisterRead (DWHCIRegister (DWHCI_HOST_CHAN_CHARACTER nChannel)) (w_io w);
     bEnabled \<leftarrow> DWHCIRegisterIsSet Character DWHCI_HOST_CHAN_CHARACTER_ENABLE;
     if bEnabled then do {
       let x = DWHCITransferStageDataSetSubState x StageSubStateWaitForChannelDisable;
       Character \<leftarrow> DWHCIRegisterAnd Character (NOT DWHCI_HOST_CHAN_CHARACTER_ENABLE);
       Character \<leftarrow> DWHCIRegisterOr Character DWHCI_HOST_CHAN_CHARACTER_DISABLE;
       io \<leftarrow> DWHCIRegisterWrite Character io;
       io \<leftarrow> DWHCIRegisterWrite (DWHCIRegisterSet (DWHCIRegister (DWHCI_HOST_CHAN_INT_MASK nChannel))
                                   DWHCI_HOST_CHAN_INT_HALTED) io;
       Some (put_stage i x (w\<lparr>w_io := io\<rparr>)) }
     else DWHCIDeviceStartChannel i (w\<lparr>w_io := io\<rparr>) }"

text \<open>Prepares a split transaction: the stage's state, its flag and its scheduler.\<close>

definition begin_start_split :: "TDWHCITransferStageData \<Rightarrow> TDWHCITransferStageData option" where
  "begin_start_split x = do {
     let x = DWHCITransferStageDataSetState x StageStateStartSplit;
     x \<leftarrow> DWHCITransferStageDataSetSplitComplete x False;
     fs \<leftarrow> DWHCITransferStageDataGetFrameScheduler x;
     fs \<leftarrow> fs_StartSplit fs;
     Some (x\<lparr>xs_FrameScheduler := fs\<rparr>) }"

definition DWHCIDeviceTransferStageAsync ::
    "addr \<Rightarrow> bool \<Rightarrow> bool \<Rightarrow> 'a usb_world_scheme \<Rightarrow> (bool \<times> 'a usb_world_scheme) option" where
  "DWHCIDeviceTransferStageAsync u bIn bStatusStage w = do {
     let (nChannel, d) = DWHCIDeviceAllocateChannel (w_host w);
     let w = w\<lparr>w_host := d\<rparr>;
     if nChannel \<ge> hd_nChannels d then Some (False, w)
     else do {
       let i = unat nChannel;
       this \<leftarrow> stage_of w i;
       x \<leftarrow> DWHCITransferStageData (w_store w) this nChannel (Some u) bIn bStatusStage;
       io \<leftarrow> DWHCIDeviceEnableChannelInterrupt nChannel (w_io w);
       let w = put_stage i x (w\<lparr>w_io := io\<rparr>);
       if \<not> DWHCITransferStageDataIsSplit x then do {
         w \<leftarrow> DWHCIDeviceStartTransaction i
                (put_stage i (DWHCITransferStageDataSetState x StageStateNoSplitTransfer) w);
         Some (True, w) }
       else if \<not> DWHCITransferStageDataBeginSplitCycle x then do {
         io \<leftarrow> DWHCIDeviceDisableChannelInterrupt nChannel (w_io w);
         let w = put_stage i (DWHCITransferStageData_dtor x) (w\<lparr>w_io := io\<rparr>);
         d \<leftarrow> DWHCIDeviceFreeChannel (w_host w) nChannel;
         Some (False, w\<lparr>w_host := d\<rparr>) }
       else do {
         x \<leftarrow> begin_start_split x;
         w \<leftarrow> DWHCIDeviceStartTransaction i (put_stage i x w);
         Some (True, w) } } }"

section \<open>Completion\<close>

definition DWHCIDeviceCompletionRoutine ::
    "uintptr \<Rightarrow> 'a usb_world_scheme \<Rightarrow> 'a usb_world_scheme option" where
  "DWHCIDeviceCompletionRoutine pContext w = do {
     c_assert (pContext \<noteq> 0);
     Some (w\<lparr>w_host := (w_host w)\<lparr>hd_bWaiting := False\<rparr>\<rparr>) }"

definition USBRequestCallCompletionRoutine ::
    "'a usb_world_scheme driver_code \<Rightarrow> addr \<Rightarrow> 'a usb_world_scheme \<Rightarrow> 'a usb_world_scheme option" where
  "USBRequestCallCompletionRoutine drv u w = do {
     r \<leftarrow> urb_of w u;
     pRoutine \<leftarrow> urb_pCompletionRoutine r;
     case pRoutine of
       HostCompletionRoutine \<Rightarrow> DWHCIDeviceCompletionRoutine (urb_pCompletionContext r) w
     | DriverCompletionRoutine n \<Rightarrow>
         drv_completion drv n u (urb_pCompletionParam r) (urb_pCompletionContext r) w }"

text \<open>The end of a stage: its channel is given back before the completion routine is called.\<close>

definition release_channel :: "u32 \<Rightarrow> 'a usb_world_scheme \<Rightarrow> 'a usb_world_scheme option" where
  "release_channel nChannel w = do {
     x \<leftarrow> stage_of w (unat nChannel);
     let w = put_stage (unat nChannel) (DWHCITransferStageData_dtor x) w;
     d \<leftarrow> DWHCIDeviceFreeChannel (w_host w) nChannel;
     Some (w\<lparr>w_host := d\<rparr>) }"

definition disable_channel_irq :: "u32 \<Rightarrow> 'a usb_world_scheme \<Rightarrow> 'a usb_world_scheme option" where
  "disable_channel_irq nChannel w = do {
     io \<leftarrow> DWHCIDeviceDisableChannelInterrupt nChannel (w_io w); Some (w\<lparr>w_io := io\<rparr>) }"

definition finish_stage ::
    "'a usb_world_scheme driver_code \<Rightarrow> u32 \<Rightarrow> addr \<Rightarrow> 'a usb_world_scheme \<Rightarrow> 'a usb_world_scheme option" where
  "finish_stage drv nChannel u w = do {
     w \<leftarrow> disable_channel_irq nChannel w;
     w \<leftarrow> release_channel nChannel w;
     USBRequestCallCompletionRoutine drv u w }"

definition fail_stage ::
    "'a usb_world_scheme driver_code \<Rightarrow> u32 \<Rightarrow> addr \<Rightarrow> 'a usb_world_scheme \<Rightarrow> 'a usb_world_scheme option" where
  "fail_stage drv nChannel u w = do {
     w \<leftarrow> set_urb_status u False w; finish_stage drv nChannel u w }"

section \<open>The periodic delay\<close>

definition HZ :: u32 where "HZ = 100"

definition MSEC2HZ :: "u32 \<Rightarrow> u32" where
  "MSEC2HZ msec = msec * HZ div 1000"

text \<open>\<^verbatim>\<open>StartKernelTimer\<close> of \<^verbatim>\<open>uspibind.c\<close> on the system's timer object.\<close>

definition StartKernelTimer ::
    "u32 \<Rightarrow> TKernelTimerHandler \<Rightarrow> addr \<Rightarrow> addr \<Rightarrow> 'a usb_world_scheme
     \<Rightarrow> (u32 \<times> 'a usb_world_scheme) option" where
  "StartKernelTimer nDelay pHandler pParam pContext w = do {
     (t, io) \<leftarrow> TimerGet (w_timer w) (w_io w);
     (hTimer, t) \<leftarrow> TimerStartKernelTimer t nDelay (Some pHandler) pParam pContext;
     Some (hTimer, w\<lparr>w_timer := t, w_io := io\<rparr>) }"

text \<open>The result of \<^verbatim>\<open>StartKernelTimer\<close> is ignored.\<close>

definition start_periodic_delay :: "nat \<Rightarrow> addr \<Rightarrow> 'a usb_world_scheme \<Rightarrow> 'a usb_world_scheme option" where
  "start_periodic_delay i u w = do {
     x \<leftarrow> stage_of w i;
     let w = put_stage i (DWHCITransferStageDataSetState x StageStatePeriodicDelay) w;
     r \<leftarrow> urb_of w u;
     ep \<leftarrow> deref (st_eps (w_store w)) (USBRequestGetEndpoint r);
     nInterval \<leftarrow> USBEndpointGetInterval ep;
     (_, w) \<leftarrow> StartKernelTimer (MSEC2HZ nInterval) HostTimerHandler i host_ref w;
     Some w }"

definition DWHCIDeviceTimerHandler :: "addr \<Rightarrow> 'a usb_world_scheme \<Rightarrow> 'a usb_world_scheme option" where
  "DWHCIDeviceTimerHandler i w = do {
     x \<leftarrow> stage_of w i;
     c_assert (DWHCITransferStageDataGetState x = StageStatePeriodicDelay);
     x \<leftarrow> (if DWHCITransferStageDataIsSplit x then begin_start_split x
          else Some (DWHCITransferStageDataSetState x StageStateNoSplitTransfer));
     DWHCIDeviceStartTransaction i (put_stage i x w) }"

section \<open>The channel interrupt\<close>

definition report_success ::
    "u32 \<Rightarrow> addr \<Rightarrow> 'a usb_world_scheme \<Rightarrow> 'a usb_world_scheme option" where
  "report_success nChannel u w = do {
     x \<leftarrow> stage_of w (unat nChannel);
     w \<leftarrow> (if \<not> DWHCITransferStageDataIsStatusStage x
          then set_urb_result u (DWHCITransferStageDataGetResultLen x) w else Some w);
     set_urb_status u True w }"

text \<open>The code at label \<^verbatim>\<open>LeaveCompleteSplit\<close>.\<close>

definition leave_complete_split ::
    "'a usb_world_scheme driver_code \<Rightarrow> u32 \<Rightarrow> addr \<Rightarrow> 'a usb_world_scheme \<Rightarrow> 'a usb_world_scheme option" where
  "leave_complete_split drv nChannel u w = do {
     let i = unat nChannel;
     x \<leftarrow> stage_of w i;
     if \<not> DWHCITransferStageDataIsStageComplete x then
       (if \<not> DWHCITransferStageDataBeginSplitCycle x then fail_stage drv nChannel u w
        else do {
          bPeriodic \<leftarrow> DWHCITransferStageDataIsPeriodic (w_store w) x;
          if \<not> bPeriodic then do {
            x \<leftarrow> begin_start_split x;
            DWHCIDeviceStartTransaction i (put_stage i x w) }
          else start_periodic_delay i u w })
     else do {
       w \<leftarrow> disable_channel_irq nChannel w;
       w \<leftarrow> report_success nChannel u w;
       w \<leftarrow> release_channel nChannel w;
       USBRequestCallCompletionRoutine drv u w } }"

text \<open>Passes the status to the scheduler and asks it whether a complete-split follows.\<close>

definition scheduler_complete ::
    "nat \<Rightarrow> u32 \<Rightarrow> bool \<Rightarrow> 'a usb_world_scheme \<Rightarrow> (bool \<times> 'a usb_world_scheme) option" where
  "scheduler_complete i nStatus bStart w = do {
     x \<leftarrow> stage_of w i;
     fs \<leftarrow> DWHCITransferStageDataGetFrameScheduler x;
     (fs, io) \<leftarrow> fs_TransactionComplete fs nStatus (w_io w);
     x \<leftarrow> (if bStart
          then DWHCITransferStageDataSetSplitComplete
                 (DWHCITransferStageDataSetState x StageStateCompleteSplit) True
          else Some x);
     (b, fs, io) \<leftarrow> fs_CompleteSplit fs io;
     Some (b, put_stage i (x\<lparr>xs_FrameScheduler := fs\<rparr>) (w\<lparr>w_io := io\<rparr>)) }"

definition stage_transition ::
    "'a usb_world_scheme driver_code \<Rightarrow> u32 \<Rightarrow> addr \<Rightarrow> 'a usb_world_scheme \<Rightarrow> 'a usb_world_scheme option" where
  "stage_transition drv nChannel u w = do {
     let i = unat nChannel;
     x \<leftarrow> stage_of w i;
     case DWHCITransferStageDataGetState x of
       StageStateNoSplitTransfer \<Rightarrow> do {
         nStatus \<leftarrow> DWHCITransferStageDataGetTransactionStatus x;
         if nStatus AND DWHCI_HOST_CHAN_INT_ERROR_MASK \<noteq> 0 then fail_stage drv nChannel u w
         else do {
           bDelay \<leftarrow> (if nStatus AND (DWHCI_HOST_CHAN_INT_NAK OR DWHCI_HOST_CHAN_INT_NYET) \<noteq> 0
                     then DWHCITransferStageDataIsPeriodic (w_store w) x else Some False);
           if bDelay then start_periodic_delay i u w
           else do { w \<leftarrow> report_success nChannel u w; finish_stage drv nChannel u w } } }
     | StageStateStartSplit \<Rightarrow> do {
         nStatus \<leftarrow> DWHCITransferStageDataGetTransactionStatus x;
         if nStatus AND DWHCI_HOST_CHAN_INT_ERROR_MASK \<noteq> 0 \<or> nStatus AND DWHCI_HOST_CHAN_INT_NAK \<noteq> 0
            \<or> nStatus AND DWHCI_HOST_CHAN_INT_NYET \<noteq> 0
         then fail_stage drv nChannel u w
         else do {
           (bMore, w) \<leftarrow> scheduler_complete i nStatus True w;
           if bMore then DWHCIDeviceStartTransaction i w
           else leave_complete_split drv nChannel u w } }
     | StageStateCompleteSplit \<Rightarrow> do {
         nStatus \<leftarrow> DWHCITransferStageDataGetTransactionStatus x;
         if nStatus AND DWHCI_HOST_CHAN_INT_ERROR_MASK \<noteq> 0 then fail_stage drv nChannel u w
         else do {
           (bMore, w) \<leftarrow> scheduler_complete i nStatus False w;
           if bMore then DWHCIDeviceStartTransaction i w
           else leave_complete_split drv nChannel u w } }
     | _ \<Rightarrow> None }"

definition DWHCIDeviceChannelInterruptHandler ::
    "'a usb_world_scheme driver_code \<Rightarrow> u32 \<Rightarrow> 'a usb_world_scheme \<Rightarrow> 'a usb_world_scheme option" where
  "DWHCIDeviceChannelInterruptHandler drv nChannel w = do {
     let i = unat nChannel;
     x \<leftarrow> stage_of w i;
     u \<leftarrow> DWHCITransferStageDataGetURB x;
     case DWHCITransferStageDataGetSubState x of
       StageSubStateWaitForChannelDisable \<Rightarrow> DWHCIDeviceStartChannel i w
     | StageSubStateWaitForTransactionComplete \<Rightarrow> do {
         nDMA \<leftarrow> DWHCITransferStageDataGetDMAAddress x;
         let io = CleanAndInvalidateDataCacheRange nDMA (DWHCITransferStageDataGetBytesToTransfer x) (w_io w);
         let (nXfer, _, io) = DWHCIRegisterRead (DWHCIRegister (DWHCI_HOST_CHAN_XFER_SIZ nChannel)) io;
         let (nInt, ChanInterrupt, io) = DWHCIRegisterRead (DWHCIRegister (DWHCI_HOST_CHAN_INT nChannel)) io;
         if nInt = DWHCI_HOST_CHAN_INT_HALTED then DWHCIDeviceStartTransaction i (w\<lparr>w_io := io\<rparr>)
         else do {
           bPeriodic \<leftarrow> DWHCITransferStageDataIsPeriodic (w_store w) x;
           c_assert (\<not> bPeriodic \<or> DWHCI_HOST_CHAN_XFER_SIZ_PID nXfer \<noteq> DWHCI_HOST_CHAN_XFER_SIZ_PID_MDATA);
           let (nStatus, _, io) = DWHCIRegisterRead ChanInterrupt io;
           (st, x) \<leftarrow> DWHCITransferStageDataTransactionComplete (w_store w) x nStatus
              (DWHCI_HOST_CHAN_XFER_SIZ_PACKETS nXfer) (nXfer AND DWHCI_HOST_CHAN_XFER_SIZ_BYTES__MASK);
           stage_transition drv nChannel u (put_stage i x (w\<lparr>w_io := io, w_store := st\<rparr>)) } }
     | StageSubStateUnknown \<Rightarrow> None }"

section \<open>Interrupts\<close>

lemma channel_scan_measure:
  assumes "c < (n :: u32)"
  shows "2 ^ 32 - unat (c + 1) < 2 ^ 32 - unat c"
proof -
  have "unat c < 2 ^ 32" using unat_less_2p[of c] by simp
  with unat_inc_less[OF assms] show ?thesis by simp
qed

text \<open>The loop over the channels; \<open>nAll\<close> is what the interrupt register of all channels showed.\<close>

function channel_scan ::
    "'a usb_world_scheme driver_code \<Rightarrow> u32 \<Rightarrow> u32 \<Rightarrow> u32 \<Rightarrow> 'a usb_world_scheme \<Rightarrow> 'a usb_world_scheme option" where
  "channel_scan drv nAll nChannel nChannelMask w =
     (if nChannel < hd_nChannels (w_host w) then do {
        w \<leftarrow> (if nAll AND nChannelMask \<noteq> 0 then do {
                io \<leftarrow> DWHCIRegisterWrite (DWHCIRegister2 (DWHCI_HOST_CHAN_INT_MASK nChannel) 0) (w_io w);
                DWHCIDeviceChannelInterruptHandler drv nChannel (w\<lparr>w_io := io\<rparr>) }
              else Some w);
        channel_scan drv nAll (nChannel + 1) (push_bit 1 nChannelMask) w }
      else Some w)"
  by pat_completeness auto

termination
  by (relation "measure (\<lambda>(_, _, c, _, _). 2 ^ 32 - unat c)") (auto dest: channel_scan_measure)

declare channel_scan.simps [simp del]

definition DWHCIDeviceInterruptHandler ::
    "'a usb_world_scheme driver_code \<Rightarrow> 'a usb_world_scheme \<Rightarrow> 'a usb_world_scheme option" where
  "DWHCIDeviceInterruptHandler drv w = do {
     let (nInt, IntStatus, io) = DWHCIRegisterRead (DWHCIRegister DWHCI_CORE_INT_STAT) (w_io w);
     w \<leftarrow> (if nInt AND DWHCI_CORE_INT_STAT_HC_INTR \<noteq> 0 then do {
             let (nAll, AllChanInterrupt, io) = DWHCIRegisterRead (DWHCIRegister DWHCI_HOST_ALLCHAN_INT) io;
             io \<leftarrow> DWHCIRegisterWrite AllChanInterrupt io;
             channel_scan drv nAll 0 1 (w\<lparr>w_io := io\<rparr>) }
           else Some (w\<lparr>w_io := io\<rparr>));
     io \<leftarrow> DWHCIRegisterWrite IntStatus (w_io w);
     Some (w\<lparr>w_io := io\<rparr>) }"

definition call_timer_handler ::
    "'a usb_world_scheme driver_code \<Rightarrow> TKernelTimerHandler \<Rightarrow> u32 \<Rightarrow> addr \<Rightarrow> addr
     \<Rightarrow> 'a usb_world_scheme \<Rightarrow> 'a usb_world_scheme option" where
  "call_timer_handler drv f hTimer pParam pContext w =
     (case f of HostTimerHandler \<Rightarrow> do { c_assert (pContext \<noteq> 0); DWHCIDeviceTimerHandler pParam w }
      | DriverTimerHandler n \<Rightarrow> drv_timer drv n hTimer pParam pContext w)"

definition take_interrupt ::
    "'a usb_world_scheme driver_code \<Rightarrow> usb_event \<Rightarrow> 'a usb_world_scheme \<Rightarrow> 'a usb_world_scheme option" where
  "take_interrupt drv e w =
     (case e of UsbInterrupt \<Rightarrow> DWHCIDeviceInterruptHandler drv w
      | TimerInterrupt \<Rightarrow> TimerInterruptHandler (call_timer_handler drv) w)"

section \<open>Blocking transfers\<close>

partial_function (option) wait_done ::
    "'a usb_world_scheme driver_code \<Rightarrow> 'a usb_world_scheme \<Rightarrow> 'a usb_world_scheme option" where
  "wait_done drv w =
     (if hd_bWaiting (w_host w) then do {
        w \<leftarrow> take_interrupt drv (w_events w (w_evpos w)) (w\<lparr>w_evpos := w_evpos w + 1\<rparr>);
        wait_done drv w }
      else Some w)"

definition set_waiting :: "bool \<Rightarrow> 'a usb_world_scheme \<Rightarrow> 'a usb_world_scheme" where
  "set_waiting b w = w\<lparr>w_host := (w_host w)\<lparr>hd_bWaiting := b\<rparr>\<rparr>"

definition DWHCIDeviceTransferStage ::
    "'a usb_world_scheme driver_code \<Rightarrow> addr \<Rightarrow> bool \<Rightarrow> bool \<Rightarrow> 'a usb_world_scheme
     \<Rightarrow> (bool \<times> 'a usb_world_scheme) option" where
  "DWHCIDeviceTransferStage drv u bIn bStatusStage w = do {
     r \<leftarrow> urb_of w u;
     r \<leftarrow> USBRequestSetCompletionRoutine r (Some HostCompletionRoutine) 0 (of_nat host_ref);
     let w = put_urb u r w;
     c_assert (\<not> hd_bWaiting (w_host w));
     (ok, w) \<leftarrow> DWHCIDeviceTransferStageAsync u bIn bStatusStage (set_waiting True w);
     if \<not> ok then Some (False, set_waiting False w)
     else do {
       w \<leftarrow> wait_done drv w;
       r \<leftarrow> urb_of w u;
       Some (USBRequestGetStatus r, w) } }"

text \<open>\<^verbatim>\<open>f () || g ()\<close> on failing stages: the next stage runs only if the one before succeeded.\<close>

definition then_stage ::
    "(bool \<times> 'w) option \<Rightarrow> ('w \<Rightarrow> (bool \<times> 'w) option) \<Rightarrow> (bool \<times> 'w) option" where
  "then_stage m f = do { (ok, w) \<leftarrow> m; if ok then f w else Some (False, w) }"

definition DWHCIDeviceSubmitBlockingRequest ::
    "'a usb_world_scheme driver_code \<Rightarrow> addr \<Rightarrow> 'a usb_world_scheme
     \<Rightarrow> (bool \<times> 'a usb_world_scheme) option" where
  "DWHCIDeviceSubmitBlockingRequest drv u w = do {
     w \<leftarrow> set_urb_status u False w;
     r \<leftarrow> urb_of w u;
     ep \<leftarrow> deref (st_eps (w_store w)) (USBRequestGetEndpoint r);
     if USBEndpointGetType ep = EndpointTypeControl then do {
       (_, setup) \<leftarrow> USBRequestGetSetupData (st_eps (w_store w)) r;
       if sd_bmRequestType setup AND REQUEST_IN \<noteq> 0 then do {
         c_assert (USBRequestGetBufLen r > 0);
         then_stage (then_stage (DWHCIDeviceTransferStage drv u False False w)
           (DWHCIDeviceTransferStage drv u True False))
           (DWHCIDeviceTransferStage drv u False True) }
       else if USBRequestGetBufLen r = 0
       then then_stage (DWHCIDeviceTransferStage drv u False False w)
              (DWHCIDeviceTransferStage drv u True True)
       else then_stage (then_stage (DWHCIDeviceTransferStage drv u False False w)
              (DWHCIDeviceTransferStage drv u False False))
              (DWHCIDeviceTransferStage drv u True True) }
     else do {
       c_assert (USBEndpointGetType ep = EndpointTypeBulk \<or> USBEndpointGetType ep = EndpointTypeInterrupt);
       c_assert (USBRequestGetBufLen r > 0);
       DWHCIDeviceTransferStage drv u (USBEndpointIsDirectionIn ep) False w } }"

definition DWHCIDeviceSubmitAsyncRequest ::
    "addr \<Rightarrow> 'a usb_world_scheme \<Rightarrow> (bool \<times> 'a usb_world_scheme) option" where
  "DWHCIDeviceSubmitAsyncRequest u w = do {
     r \<leftarrow> urb_of w u;
     ep \<leftarrow> deref (st_eps (w_store w)) (USBRequestGetEndpoint r);
     c_assert (USBEndpointGetType ep = EndpointTypeBulk \<or> USBEndpointGetType ep = EndpointTypeInterrupt);
     c_assert (USBRequestGetBufLen r > 0);
     w \<leftarrow> set_urb_status u False w;
     DWHCIDeviceTransferStageAsync u (USBEndpointIsDirectionIn ep) False w }"

text \<open>
  The request block and the setup packet of a control message are local variables; \<open>u\<close> and \<open>pSetup\<close>
  are where they live.
\<close>

definition DWHCIDeviceControlMessage ::
    "'a usb_world_scheme driver_code \<Rightarrow> addr \<Rightarrow> uintptr \<Rightarrow> addr option \<Rightarrow> u8 \<Rightarrow> u8 \<Rightarrow> u16 \<Rightarrow> u16
     \<Rightarrow> uintptr \<Rightarrow> u16 \<Rightarrow> 'a usb_world_scheme \<Rightarrow> (int \<times> 'a usb_world_scheme) option" where
  "DWHCIDeviceControlMessage drv u pSetup pEndpoint ucRequestType ucRequest usValue usIndex pData usDataSize w = do {
     r \<leftarrow> USBRequest pEndpoint pData (ucast usDataSize)
           (Some (pSetup, \<lparr>sd_bmRequestType = ucRequestType, sd_bRequest = ucRequest, sd_wValue = usValue,
                            sd_wIndex = usIndex, sd_wLength = usDataSize\<rparr>));
     (ok, w) \<leftarrow> DWHCIDeviceSubmitBlockingRequest drv u (put_urb u r w);
     r \<leftarrow> urb_of w u;
     nResult \<leftarrow> (if ok then do { n \<leftarrow> USBRequestGetResultLength r; Some (sint n) } else Some (-1));
     Some (nResult, put_urb u (USBRequest_dtor r) w) }"

definition DWHCIDeviceTransfer ::
    "'a usb_world_scheme driver_code \<Rightarrow> addr \<Rightarrow> addr option \<Rightarrow> uintptr \<Rightarrow> u32
     \<Rightarrow> 'a usb_world_scheme \<Rightarrow> (int \<times> 'a usb_world_scheme) option" where
  "DWHCIDeviceTransfer drv u pEndpoint pBuffer nBufSize w = do {
     r \<leftarrow> USBRequest pEndpoint pBuffer nBufSize None;
     (ok, w) \<leftarrow> DWHCIDeviceSubmitBlockingRequest drv u (put_urb u r w);
     r \<leftarrow> urb_of w u;
     nResult \<leftarrow> (if ok then do { n \<leftarrow> USBRequestGetResultLength r; Some (sint n) } else Some (-1));
     Some (nResult, put_urb u (USBRequest_dtor r) w) }"

definition DWHCIDeviceGetDescriptor ::
    "'a usb_world_scheme driver_code \<Rightarrow> addr \<Rightarrow> uintptr \<Rightarrow> addr option \<Rightarrow> u8 \<Rightarrow> u8 \<Rightarrow> uintptr \<Rightarrow> u32 \<Rightarrow> u8
     \<Rightarrow> 'a usb_world_scheme \<Rightarrow> (int \<times> 'a usb_world_scheme) option" where
  "DWHCIDeviceGetDescriptor drv u pSetup pEndpoint ucType ucIndex pBuffer nBufSize ucRequestType w =
     DWHCIDeviceControlMessage drv u pSetup pEndpoint ucRequestType GET_DESCRIPTOR
       (push_bit 8 (ucast ucType) OR ucast ucIndex) 0 pBuffer (ucast nBufSize) w"

definition DWHCIDeviceSetAddress ::
    "'a usb_world_scheme driver_code \<Rightarrow> addr \<Rightarrow> uintptr \<Rightarrow> addr option \<Rightarrow> u8
     \<Rightarrow> 'a usb_world_scheme \<Rightarrow> (bool \<times> 'a usb_world_scheme) option" where
  "DWHCIDeviceSetAddress drv u pSetup pEndpoint ucDeviceAddress w = do {
     (n, w) \<leftarrow> DWHCIDeviceControlMessage drv u pSetup pEndpoint REQUEST_OUT SET_ADDRESS
                 (ucast ucDeviceAddress) 0 0 0 w;
     if n < 0 then Some (False, w) else Some (True, w\<lparr>w_io := msDelay 50 (w_io w)\<rparr>) }"

definition DWHCIDeviceSetConfiguration ::
    "'a usb_world_scheme driver_code \<Rightarrow> addr \<Rightarrow> uintptr \<Rightarrow> addr option \<Rightarrow> u8
     \<Rightarrow> 'a usb_world_scheme \<Rightarrow> (bool \<times> 'a usb_world_scheme) option" where
  "DWHCIDeviceSetConfiguration drv u pSetup pEndpoint ucConfigurationValue w = do {
     (n, w) \<leftarrow> DWHCIDeviceControlMessage drv u pSetup pEndpoint REQUEST_OUT SET_CONFIGURATION
                 (ucast ucConfigurationValue) 0 0 0 w;
     if n < 0 then Some (False, w) else Some (True, w\<lparr>w_io := msDelay 50 (w_io w)\<rparr>) }"

section \<open>What starting a channel programs\<close>

lemma spin_until_writes: "spin_until a P io = Some io' \<Longrightarrow> reg_writes b io' = reg_writes b io"
proof (rule spin_until.raw_induct [where P = "\<lambda>a P io io'. reg_writes b io' = reg_writes b io"])
  fix f :: "uintptr \<Rightarrow> (u32 \<Rightarrow> bool) \<Rightarrow> mmio \<Rightarrow> mmio option" and a P io io'
  assume IH: "\<And>a P io io'. f a P io = Some io' \<Longrightarrow> reg_writes b io' = reg_writes b io"
    and eq: "(let (v, io') = mmio_read a io in if P v then Some io' else f a P io') = Some io'"
  show "reg_writes b io' = reg_writes b io"
    using eq IH[of a P "snd (mmio_read a io)" io']
    by (auto simp: Let_def case_prod_beta split: if_splits)
qed

lemma WaitForFrame_writes:
  "fs_WaitForFrame fs io = Some (fs', io') \<Longrightarrow> reg_writes a io' = reg_writes a io"
  by (cases fs)
     (auto simp: bind_Some_iff DWHCIFrameSchedulerPeriodicWaitForFrame_def
        DWHCIFrameSchedulerNonPeriodicWaitForFrame_def DWHCIFrameSchedulerNoSplitWaitForFrame_def
        Let_def case_prod_beta register_read_eq DWHCIRegister_def split: if_splits dest!: spin_until_writes)

lemma xfer_siz_reg_eq:
  "xfer_siz_reg st x ch = map_option (\<lambda>nPID. \<lparr>reg_bValid = True, reg_nAddress = DWHCI_HOST_CHAN_XFER_SIZ ch,
     reg_nBuffer = xs_nBytesPerTransaction x AND DWHCI_HOST_CHAN_XFER_SIZ_BYTES__MASK
       OR push_bit 19 (xs_nPacketsPerTransaction x) AND DWHCI_HOST_CHAN_XFER_SIZ_PACKETS__MASK
       OR push_bit 29 (ucast nPID)\<rparr>) (DWHCITransferStageDataGetPID st x)"
  by (cases "DWHCITransferStageDataGetPID st x")
     (simp_all add: xfer_siz_reg_def DWHCIRegister2_def stage_getters or.assoc)

lemma split_ctrl_reg_shape:
  "split_ctrl_reg st x ch = Some r \<Longrightarrow> reg_bValid r \<and> reg_nAddress r = DWHCI_HOST_CHAN_SPLIT_CTRL ch"
  by (auto simp: split_ctrl_reg_def DWHCIRegister2_def bind_Some_iff Let_def split: if_splits)

lemma character_reg_shape:
  "reg_bValid r \<Longrightarrow> character_reg st x r = Some r' \<Longrightarrow> reg_bValid r' \<and> reg_nAddress r' = reg_nAddress r"
  by (cases "xs_bIn x"; cases "xs_Speed x = USBSpeedLow")
     (auto simp: character_reg_def bind_Some_iff stage_getters)

lemma wait_frame_shape:
  assumes "reg_bValid r" and "wait_frame x r io = Some (x', r', io')"
  shows "reg_bValid r' \<and> reg_nAddress r' = reg_nAddress r \<and> reg_writes a io' = reg_writes a io
     \<and> (\<exists>fs. x' = x\<lparr>xs_FrameScheduler := fs\<rparr>)"
proof (cases "DWHCITransferStageDataGetFrameScheduler x")
  case None
  with assms show ?thesis by (auto simp: wait_frame_def intro!: exI[of _ "xs_FrameScheduler x"])
next
  case (Some fs)
  with assms show ?thesis
    by (auto simp: wait_frame_def bind_Some_iff WaitForFrame_writes split: if_splits)
qed

lemma program_transfer_elim:
  assumes "program_transfer st x nChannel io = Some io'"
  shows "\<exists>nPID nDMA sp. DWHCITransferStageDataGetPID st x = Some nPID
    \<and> DWHCITransferStageDataGetDMAAddress x = Some nDMA
    \<and> split_ctrl_reg st x nChannel = Some \<lparr>reg_bValid = True, reg_nAddress = DWHCI_HOST_CHAN_SPLIT_CTRL nChannel, reg_nBuffer = sp\<rparr>
    \<and> io' = io_emit (MmioWrite (DWHCI_HOST_CHAN_SPLIT_CTRL nChannel) sp)
            (CleanAndInvalidateDataCacheRange nDMA (xs_nBytesPerTransaction x)
            (io_emit (MmioWrite (DWHCI_HOST_CHAN_DMA_ADDR nChannel) (BUS_ADDRESS nDMA))
            (io_emit (MmioWrite (DWHCI_HOST_CHAN_XFER_SIZ nChannel)
               (xs_nBytesPerTransaction x AND DWHCI_HOST_CHAN_XFER_SIZ_BYTES__MASK
                OR push_bit 19 (xs_nPacketsPerTransaction x) AND DWHCI_HOST_CHAN_XFER_SIZ_PACKETS__MASK
                OR push_bit 29 (ucast nPID)))
            (io_emit (MmioWrite (DWHCI_HOST_CHAN_INT nChannel) (- 1)) io))))"
proof -
  from assms obtain sp where sp: "split_ctrl_reg st x nChannel = Some sp"
    by (auto simp: program_transfer_def bind_Some_iff Let_def)
  with split_ctrl_reg_shape[OF sp] have sp': "split_ctrl_reg st x nChannel
      = Some \<lparr>reg_bValid = True, reg_nAddress = DWHCI_HOST_CHAN_SPLIT_CTRL nChannel, reg_nBuffer = reg_nBuffer sp\<rparr>"
    by (cases sp) simp
  from assms show ?thesis
    by (cases "DWHCITransferStageDataGetPID st x"; cases "DWHCITransferStageDataGetDMAAddress x")
       (auto simp: program_transfer_def sp' register_fresh xfer_siz_reg_eq stage_getters Let_def)
qed

lemma enable_channel_elim:
  assumes "enable_channel st x nChannel io = Some (x', io')"
  shows "\<exists>c c' io2 nMask. character_reg st x \<lparr>reg_bValid = True,
          reg_nAddress = DWHCI_HOST_CHAN_CHARACTER nChannel, reg_nBuffer = io_oracle io (io_pos io)\<rparr> = Some c
    \<and> wait_frame x c (snd (mmio_read (DWHCI_HOST_CHAN_CHARACTER nChannel) io)) = Some (x', c', io2)
    \<and> DWHCITransferStageDataGetStatusMask st x' = Some nMask
    \<and> io' = io_emit (MmioWrite (DWHCI_HOST_CHAN_CHARACTER nChannel)
              ((reg_nBuffer c' OR DWHCI_HOST_CHAN_CHARACTER_ENABLE) AND NOT DWHCI_HOST_CHAN_CHARACTER_DISABLE))
            (io_emit (MmioWrite (DWHCI_HOST_CHAN_INT_MASK nChannel) nMask) io2)
    \<and> (\<forall>a. reg_writes a io2 = reg_writes a io) \<and> (\<exists>fs. x' = x\<lparr>xs_FrameScheduler := fs\<rparr>)"
proof -
  let ?r = "\<lparr>reg_bValid = True, reg_nAddress = DWHCI_HOST_CHAN_CHARACTER nChannel,
             reg_nBuffer = io_oracle io (io_pos io)\<rparr>"
  from assms obtain c where c: "character_reg st x ?r = Some c"
    by (auto simp: enable_channel_def bind_Some_iff register_fresh)
  from assms c obtain c' io2 where
    w: "wait_frame x c (snd (mmio_read (DWHCI_HOST_CHAN_CHARACTER nChannel) io)) = Some (x', c', io2)"
    by (auto simp: enable_channel_def bind_Some_iff register_fresh)
  from character_reg_shape[OF _ c] have c1: "reg_bValid c" "reg_nAddress c = DWHCI_HOST_CHAN_CHARACTER nChannel"
    by simp_all
  note f = wait_frame_shape[OF c1(1) w]
  from f c1 have c2: "reg_bValid c'" "reg_nAddress c' = DWHCI_HOST_CHAN_CHARACTER nChannel" by auto
  from assms c w c2 show ?thesis
    using f by (cases "DWHCITransferStageDataGetStatusMask st x'") (auto simp: enable_channel_def register_fresh)
qed

lemma xfer_fields:
  fixes b p q :: "32 word"
  assumes "unat b < 2 ^ 19" and "unat p < 2 ^ 10" and "unat q < 2 ^ 2"
  defines "v \<equiv> b AND 0x7FFFF OR push_bit 19 p AND push_bit 19 0x3FF OR push_bit 29 q"
  shows "v AND 0x7FFFF = b" and "drop_bit 19 v AND 0x3FF = p" and "drop_bit 29 v AND 3 = q"
proof -
  have m: "(0x7FFFF :: 32 word) = mask 19" "(0x3FF :: 32 word) = mask 10" "(3 :: 32 word) = mask 2"
    by (simp_all add: mask_eq_exp_minus_1)
  note bb = word_bit_bound[OF assms(1)] word_bit_bound[OF assms(2)] word_bit_bound[OF assms(3)]
  show "v AND 0x7FFFF = b" unfolding v_def m
    by (rule bit_word_eqI) (auto simp: bit_simps dest: bb)
  show "drop_bit 19 v AND 0x3FF = p" unfolding v_def m
    by (rule bit_word_eqI) (auto simp: bit_simps dest: bb)
  show "drop_bit 29 v AND 3 = q" unfolding v_def m
    by (rule bit_word_eqI) (auto simp: bit_simps dest: bb)
qed
lemma GetPID_small: "DWHCITransferStageDataGetPID st x = Some nPID \<Longrightarrow> unat (ucast nPID :: u32) < 2 ^ 2"
  by (auto simp: DWHCITransferStageDataGetPID_def bind_Some_iff split: TUSBPID.splits)
     (metis TUSBPID.exhaust)

lemma GetPID_substate [simp]:
  "DWHCITransferStageDataGetPID st (x\<lparr>xs_nSubState := s\<rparr>) = DWHCITransferStageDataGetPID st x"
  by (simp add: DWHCITransferStageDataGetPID_def)

lemma GetDMAAddress_eq:
  "DWHCITransferStageDataGetDMAAddress x = Some a \<longleftrightarrow> xs_pBufferPointer x \<noteq> 0 \<and> a = ucast (xs_pBufferPointer x)"
  by (auto simp: DWHCITransferStageDataGetDMAAddress_def)

lemma channel_regs_distinct [simp]:
  "DWHCI_HOST_CHAN_XFER_SIZ c \<noteq> DWHCI_HOST_CHAN_INT c" "DWHCI_HOST_CHAN_XFER_SIZ c \<noteq> DWHCI_HOST_CHAN_DMA_ADDR c"
  "DWHCI_HOST_CHAN_XFER_SIZ c \<noteq> DWHCI_HOST_CHAN_SPLIT_CTRL c" "DWHCI_HOST_CHAN_XFER_SIZ c \<noteq> DWHCI_HOST_CHAN_INT_MASK c"
  "DWHCI_HOST_CHAN_XFER_SIZ c \<noteq> DWHCI_HOST_CHAN_CHARACTER c"
  "DWHCI_HOST_CHAN_DMA_ADDR c \<noteq> DWHCI_HOST_CHAN_INT c"
  "DWHCI_HOST_CHAN_DMA_ADDR c \<noteq> DWHCI_HOST_CHAN_SPLIT_CTRL c" "DWHCI_HOST_CHAN_DMA_ADDR c \<noteq> DWHCI_HOST_CHAN_INT_MASK c"
  "DWHCI_HOST_CHAN_DMA_ADDR c \<noteq> DWHCI_HOST_CHAN_CHARACTER c"
  by (simp_all add: DWHCI_HOST_CHAN_XFER_SIZ_def DWHCI_HOST_CHAN_INT_def DWHCI_HOST_CHAN_DMA_ADDR_def
      DWHCI_HOST_CHAN_SPLIT_CTRL_def DWHCI_HOST_CHAN_INT_MASK_def DWHCI_HOST_CHAN_CHARACTER_def)

lemmas channel_regs_distinct' [simp] = channel_regs_distinct [symmetric]

section \<open>A world for examples\<close>

text \<open>
  A high-speed device on the root port with a bulk endpoint, a request for 20 bytes and its stage
  on channel 4 of a controller with 8 channels.
\<close>

definition fast_store :: usb_store where
  "fast_store = (sample_store 0)\<lparr>st_devs := [1 \<mapsto> \<lparr>dev_ucAddress = 5, dev_Speed = USBSpeedHigh, dev_pEndpoint0 = None,
     dev_bSplitTransfer = False, dev_ucHubAddress = 0, dev_ucHubPortNumber = 1\<rparr>]\<rparr>"

definition fast_stage :: TDWHCITransferStageData where
  "fast_stage = (sample_stage 0)\<lparr>xs_Speed := USBSpeedHigh, xs_bFrameSchedulerUsed := False,
     xs_FrameScheduler := xs_FrameScheduler sample_memory\<rparr>"

definition fast_world :: usb_world where
  "fast_world = \<lparr>w_timer = \<lparr>tm_initialized = True, tm_nTicks = 0, tm_nTime = 0,
       tm_KernelTimer = replicate 20 \<lparr>kt_pHandler = None, kt_nElapsesAt = 0, kt_pParam = 0, kt_pContext = 0\<rparr>,
       tm_nMsDelay = 350000, tm_nusDelay = 350\<rparr>,
     w_io = \<lparr>io_oracle = (\<lambda>_. 0), io_pos = 0, io_trace = []\<rparr>,
     w_host = \<lparr>hd_nChannels = 8, hd_nChannelAllocated = 2 ^ 4,
       hd_StageData = (replicate 16 sample_memory)[4 := fast_stage], hd_bWaiting = False\<rparr>,
     w_store = fast_store, w_events = (\<lambda>_. UsbInterrupt), w_evpos = 0\<rparr>"

lemma fast_stage_ctor:
  "DWHCITransferStageData fast_store sample_memory 4 (Some 7) True False = Some fast_stage"
  by (simp add: DWHCITransferStageData_def fast_store_def sample_store_def fast_stage_def sample_stage_def
      sample_memory_def stage_sizes_def USBEndpointGetNextPID_def request_getters endpoint_getters
      device_getters USBRequestGetBuffer_def endpoint_periodic_def Let_def)

lemmas fast_simps = fast_world_def fast_store_def fast_stage_def sample_store_def sample_stage_def
  sample_memory_def

text \<open>
  Claim C8. Starting a channel programs what the stage asks for.  If the transaction fits the
  fields of the size register (less than 512 KiB and 1024 packets), the value written there decodes
  to the stage's bytes, packets and packet identifier; the DMA register gets the bus address of the
  stage's buffer pointer; the last access of all enables the channel, with the disable bit clear;
  and the stage now waits for the end of the transaction, the store of
  devices, endpoints and requests and the allocation of channels being unchanged.
\<close>

theorem start_channel_programs:
  assumes "DWHCIDeviceStartChannel i w = Some w'" and "stage_of w i = Some x"
    and "xs_nBytesPerTransaction x < 2 ^ 19" and "xs_nPacketsPerTransaction x < 2 ^ 10"
  defines "c \<equiv> xs_nChannel x"
  shows "\<exists>v nPID ch tr x'.
      reg_writes (DWHCI_HOST_CHAN_XFER_SIZ c) (w_io w') = reg_writes (DWHCI_HOST_CHAN_XFER_SIZ c) (w_io w) @ [v]
    \<and> v AND DWHCI_HOST_CHAN_XFER_SIZ_BYTES__MASK = DWHCITransferStageDataGetBytesToTransfer x
    \<and> DWHCI_HOST_CHAN_XFER_SIZ_PACKETS v = DWHCITransferStageDataGetPacketsToTransfer x
    \<and> DWHCITransferStageDataGetPID (w_store w) x = Some nPID \<and> DWHCI_HOST_CHAN_XFER_SIZ_PID v = ucast nPID
    \<and> reg_writes (DWHCI_HOST_CHAN_DMA_ADDR c) (w_io w') = reg_writes (DWHCI_HOST_CHAN_DMA_ADDR c) (w_io w)
         @ [BUS_ADDRESS (ucast (xs_pBufferPointer x))]
    \<and> io_trace (w_io w') = MmioWrite (DWHCI_HOST_CHAN_CHARACTER c) ch # tr
    \<and> ch AND DWHCI_HOST_CHAN_CHARACTER_ENABLE \<noteq> 0 \<and> ch AND DWHCI_HOST_CHAN_CHARACTER_DISABLE = 0
    \<and> stage_of w' i = Some x' \<and> DWHCITransferStageDataGetSubState x' = StageSubStateWaitForTransactionComplete
    \<and> w_store w' = w_store w \<and> hd_nChannelAllocated (w_host w') = hd_nChannelAllocated (w_host w)"
proof -
  let ?x = "x\<lparr>xs_nSubState := StageSubStateWaitForTransactionComplete\<rparr>"
  from assms(1,2) obtain io1 x' io2 where
    p: "program_transfer (w_store w) ?x c (w_io w) = Some io1" and
    e: "enable_channel (w_store w) ?x c io1 = Some (x', io2)" and
    w': "w' = put_stage i x' (w\<lparr>w_io := io2\<rparr>)"
    by (auto simp: DWHCIDeviceStartChannel_def bind_Some_iff stage_getters Let_def c_def split: if_splits)
  from program_transfer_elim[OF p] obtain nPID nDMA sp where
    pid: "DWHCITransferStageDataGetPID (w_store w) x = Some nPID"
    and dma: "DWHCITransferStageDataGetDMAAddress ?x = Some nDMA"
    and io1: "io1 = io_emit (MmioWrite (DWHCI_HOST_CHAN_SPLIT_CTRL c) sp)
            (CleanAndInvalidateDataCacheRange nDMA (xs_nBytesPerTransaction x)
            (io_emit (MmioWrite (DWHCI_HOST_CHAN_DMA_ADDR c) (BUS_ADDRESS nDMA))
            (io_emit (MmioWrite (DWHCI_HOST_CHAN_XFER_SIZ c)
               (xs_nBytesPerTransaction x AND DWHCI_HOST_CHAN_XFER_SIZ_BYTES__MASK
                OR push_bit 19 (xs_nPacketsPerTransaction x) AND DWHCI_HOST_CHAN_XFER_SIZ_PACKETS__MASK
                OR push_bit 29 (ucast nPID)))
            (io_emit (MmioWrite (DWHCI_HOST_CHAN_INT c) (- 1)) (w_io w)))))"
    by auto
  from enable_channel_elim[OF e] obtain c' :: TDWHCIRegister and io3 :: mmio and nMask fs where
    io2: "io2 = io_emit (MmioWrite (DWHCI_HOST_CHAN_CHARACTER c)
              ((reg_nBuffer c' OR DWHCI_HOST_CHAN_CHARACTER_ENABLE) AND NOT DWHCI_HOST_CHAN_CHARACTER_DISABLE))
            (io_emit (MmioWrite (DWHCI_HOST_CHAN_INT_MASK c) nMask) io3)"
    and io3: "\<forall>a. reg_writes a io3 = reg_writes a io1" and x': "x' = ?x\<lparr>xs_FrameScheduler := fs\<rparr>"
    by blast
  have en: "((v OR DWHCI_HOST_CHAN_CHARACTER_ENABLE) AND NOT DWHCI_HOST_CHAN_CHARACTER_DISABLE)
        AND DWHCI_HOST_CHAN_CHARACTER_ENABLE \<noteq> 0"
      "((v OR DWHCI_HOST_CHAN_CHARACTER_ENABLE) AND NOT DWHCI_HOST_CHAN_CHARACTER_DISABLE)
        AND DWHCI_HOST_CHAN_CHARACTER_DISABLE = 0" for v
    by (simp_all add: DWHCI_HOST_CHAN_CHARACTER_ENABLE_def DWHCI_HOST_CHAN_CHARACTER_DISABLE_def
        bit.conj_disj_distrib2 and.assoc)
  have small: "unat (xs_nBytesPerTransaction x) < 2 ^ 19" "unat (xs_nPacketsPerTransaction x) < 2 ^ 10"
    using assms(3,4) by (simp_all add: word_less_nat_alt)
  note fields = xfer_fields[OF small GetPID_small[OF pid]]
  have i: "i < length (hd_StageData (w_host w))"
    using assms(2) by (simp add: stage_of_def array_get_Some)
  show ?thesis
    unfolding w' io2 x'
    using pid fields dma io3 io1 en i
    by (simp add: put_stage_def stage_of_def array_get_def stage_getters GetDMAAddress_eq
        DWHCI_HOST_CHAN_XFER_SIZ_BYTES__MASK_def DWHCI_HOST_CHAN_XFER_SIZ_PACKETS__MASK_def
        DWHCI_HOST_CHAN_XFER_SIZ_PACKETS_def DWHCI_HOST_CHAN_XFER_SIZ_PID_def)
qed


theorem start_channel_programs_witness:
  "\<exists>w' v. DWHCIDeviceStartChannel 4 fast_world = Some w'
     \<and> reg_writes (DWHCI_HOST_CHAN_XFER_SIZ 4) (w_io w') = [v]
     \<and> v AND DWHCI_HOST_CHAN_XFER_SIZ_BYTES__MASK = 20 \<and> DWHCI_HOST_CHAN_XFER_SIZ_PACKETS v = 3"
proof -
  have "\<exists>w'. DWHCIDeviceStartChannel 4 fast_world = Some w'"
    by (simp add: DWHCIDeviceStartChannel_def stage_of_def array_get_def fast_simps stage_getters
        program_transfer_def register_fresh xfer_siz_reg_eq DWHCITransferStageDataGetPID_def
        USBEndpointGetNextPID_def DWHCITransferStageDataGetDMAAddress_def split_ctrl_reg_def enable_channel_def
        character_reg_def DWHCITransferStageDataGetDeviceAddress_def DWHCITransferStageDataGetEndpointType_def
        DWHCITransferStageDataGetEndpointNumber_def wait_frame_def DWHCITransferStageDataGetStatusMask_def
        DWHCITransferStageDataIsPeriodic_def endpoint_getters Let_def)
  then obtain w' where w': "DWHCIDeviceStartChannel 4 fast_world = Some w'" ..
  have x: "stage_of fast_world 4 = Some fast_stage"
    by (simp add: stage_of_def array_get_def fast_world_def)
  have "reg_writes a (w_io fast_world) = []" for a
    by (simp add: reg_writes_def fast_world_def List.map_filter_def)
  with start_channel_programs[OF w' x] w' show ?thesis
    by (auto simp: fast_stage_def sample_stage_def stage_getters)
qed

section \<open>Every interrupt keeps or ends its stage\<close>

definition stage_urb :: "'a usb_world_scheme \<Rightarrow> nat \<Rightarrow> addr option" where
  "stage_urb w i = (case stage_of w i of Some x \<Rightarrow> xs_pURB x | None \<Rightarrow> None)"

definition allocated :: "'a usb_world_scheme \<Rightarrow> u32" where
  "allocated w = hd_nChannelAllocated (w_host w)"

text \<open>
  What a handler for channel \<open>c\<close> with request \<open>u\<close> may do: halt; or return with the channel still
  allocated to the request, without calling any driver code; or end in exactly one call of the
  request's completion routine, in a world where the channel has been given back.  That no driver
  code ran is expressed by independence of \<open>drv\<close>.
\<close>

definition handled ::
    "('a usb_world_scheme driver_code \<Rightarrow> 'a usb_world_scheme option) \<Rightarrow> u32 \<Rightarrow> addr \<Rightarrow> 'a usb_world_scheme \<Rightarrow> bool" where
  "handled F c u w \<longleftrightarrow>
     (\<forall>drv. F drv = None)
   \<or> (\<exists>w'. (\<forall>drv. F drv = Some w') \<and> allocated w' = allocated w \<and> stage_urb w' (unat c) = Some u)
   \<or> (\<exists>w1. (\<forall>drv. F drv = USBRequestCallCompletionRoutine drv u w1) \<and> bit (allocated w) (unat c)
          \<and> allocated w1 = allocated w AND NOT (2 ^ unat c) \<and> stage_urb w1 (unat c) = None)"

lemma handled_None: "handled (\<lambda>_. None) c u w"
  by (simp add: handled_def)

lemma handled_pure:
  assumes "\<And>w'. m = Some w' \<Longrightarrow> allocated w' = allocated w \<and> stage_urb w' (unat c) = Some u"
  shows "handled (\<lambda>_. m) c u w"
  using assms by (cases m) (auto simp: handled_def)

lemma handled_bind:
  assumes "\<And>v. m = Some v \<Longrightarrow> handled (F v) c u w"
  shows "handled (\<lambda>drv. Option.bind m (\<lambda>v. F v drv)) c u w"
  using assms by (cases m) (auto simp: handled_None)

lemma handled_from:
  "handled F c u w0 \<Longrightarrow> allocated w0 = allocated w \<Longrightarrow> handled F c u w"
  by (simp add: handled_def)

lemma stage_of_put:
  "i < length (hd_StageData (w_host w)) \<Longrightarrow> stage_of (put_stage i x w) i = Some x"
  by (simp add: stage_of_def put_stage_def array_get_def)

lemma stage_of_Some: "stage_of w i = Some x \<Longrightarrow> i < length (hd_StageData (w_host w))"
  by (simp add: stage_of_def array_get_Some)

lemma put_stage_simps [simp]:
  "allocated (put_stage i x w) = allocated w" "w_store (put_stage i x w) = w_store w"
  "w_io (put_stage i x w) = w_io w" "hd_nChannels (w_host (put_stage i x w)) = hd_nChannels (w_host w)"
  "length (hd_StageData (w_host (put_stage i x w))) = length (hd_StageData (w_host w))"
  by (simp_all add: put_stage_def allocated_def)

lemma allocated_update [simp]:
  "allocated (w\<lparr>w_io := io\<rparr>) = allocated w" "allocated (w\<lparr>w_store := st\<rparr>) = allocated w"
  "allocated (w\<lparr>w_timer := t\<rparr>) = allocated w"
  "stage_of (w\<lparr>w_io := io\<rparr>) i = stage_of w i" "stage_of (w\<lparr>w_store := st\<rparr>) i = stage_of w i"
  "stage_of (w\<lparr>w_timer := t\<rparr>) i = stage_of w i"
  by (simp_all add: allocated_def stage_of_def)

lemma stage_urb_put [simp]:
  "i < length (hd_StageData (w_host w)) \<Longrightarrow> stage_urb (put_stage i x w) i = xs_pURB x"
  by (simp add: stage_urb_def stage_of_put)

lemma StartChannel_frame:
  assumes "DWHCIDeviceStartChannel i w = Some w'"
  shows "allocated w' = allocated w \<and> stage_urb w' i = stage_urb w i \<and> w_store w' = w_store w"
proof -
  from assms obtain x x' io1 io2 where x: "stage_of w i = Some x"
    and e: "enable_channel (w_store w) (x\<lparr>xs_nSubState := StageSubStateWaitForTransactionComplete\<rparr>)
              (xs_nChannel x) io1 = Some (x', io2)"
    and w': "w' = put_stage i x' (w\<lparr>w_io := io2\<rparr>)"
    by (auto simp: DWHCIDeviceStartChannel_def bind_Some_iff stage_getters Let_def split: if_splits)
  from enable_channel_elim[OF e] have "xs_pURB x' = xs_pURB x" by auto
  with x stage_of_Some[OF x] w' show ?thesis by (simp add: stage_urb_def stage_of_put)
qed

lemma StartTransaction_frame:
  assumes "DWHCIDeviceStartTransaction i w = Some w'"
  shows "allocated w' = allocated w \<and> stage_urb w' i = stage_urb w i \<and> w_store w' = w_store w"
proof -
  from assms obtain x where x: "stage_of w i = Some x"
    by (auto simp: DWHCIDeviceStartTransaction_def bind_Some_iff)
  let ?io = "snd (mmio_read (DWHCI_HOST_CHAN_CHARACTER (xs_nChannel x)) (w_io w))"
  show ?thesis
  proof (cases "io_oracle (w_io w) (io_pos (w_io w)) AND DWHCI_HOST_CHAN_CHARACTER_ENABLE = 0")
    case True
    with assms x have "DWHCIDeviceStartChannel i (w\<lparr>w_io := ?io\<rparr>) = Some w'"
      by (simp add: DWHCIDeviceStartTransaction_def register_fresh DWHCIRegisterIsSet_def stage_getters
          Let_def split: if_splits)
    from StartChannel_frame[OF this] show ?thesis by (simp add: stage_urb_def)
  next
    case False
    with assms x stage_of_Some[OF x] show ?thesis
      by (auto simp: DWHCIDeviceStartTransaction_def register_fresh DWHCIRegisterIsSet_def stage_getters
          Let_def stage_urb_def stage_of_put split: if_splits)
  qed
qed

lemma start_periodic_delay_frame:
  assumes "start_periodic_delay i u w = Some w'"
  shows "allocated w' = allocated w \<and> stage_urb w' i = stage_urb w i \<and> w_store w' = w_store w"
proof -
  from assms obtain x where x: "stage_of w i = Some x"
    by (auto simp: start_periodic_delay_def bind_Some_iff)
  with assms stage_of_Some[OF x] show ?thesis
    by (auto simp: start_periodic_delay_def StartKernelTimer_def bind_Some_iff Let_def stage_getters
        stage_urb_def stage_of_put)
qed


lemma urb_update_frame [simp]:
  "allocated (put_urb u r w) = allocated w" "stage_of (put_urb u r w) i = stage_of w i"
  "stage_urb (put_urb u r w) i = stage_urb w i" "hd_nChannels (w_host (put_urb u r w)) = hd_nChannels (w_host w)"
  by (simp_all add: put_urb_def stage_urb_def)

lemma set_urb_status_frame:
  "set_urb_status u b w = Some w' \<Longrightarrow> allocated w' = allocated w \<and> stage_urb w' i = stage_urb w i
     \<and> stage_of w' i = stage_of w i"
  by (auto simp: set_urb_status_def bind_Some_iff)

lemma report_success_frame:
  "report_success c u w = Some w' \<Longrightarrow> allocated w' = allocated w \<and> stage_urb w' i = stage_urb w i
     \<and> stage_of w' i = stage_of w i"
  by (auto simp: report_success_def set_urb_status_def set_urb_result_def bind_Some_iff split: if_splits)

lemma disable_channel_irq_frame:
  "disable_channel_irq c w = Some w' \<Longrightarrow> allocated w' = allocated w \<and> stage_urb w' i = stage_urb w i
     \<and> stage_of w' i = stage_of w i"
  by (auto simp: disable_channel_irq_def bind_Some_iff stage_urb_def)

lemma release_channel_effect:
  assumes "release_channel c w = Some w1"
  shows "bit (allocated w) (unat c) \<and> allocated w1 = allocated w AND NOT (2 ^ unat c)
     \<and> stage_urb w1 (unat c) = None"
proof -
  from assms obtain x where x: "stage_of w (unat c) = Some x"
    by (auto simp: release_channel_def bind_Some_iff)
  note i = stage_of_Some[OF x]
  let ?w = "put_stage (unat c) (DWHCITransferStageData_dtor x) w"
  from assms x obtain d where d: "DWHCIDeviceFreeChannel (w_host ?w) c = Some d" and w1: "w1 = ?w\<lparr>w_host := d\<rparr>"
    by (auto simp: release_channel_def bind_Some_iff Let_def)
  from d have "allocated w AND 2 ^ unat c \<noteq> 0"
    and d': "d = (w_host ?w)\<lparr>hd_nChannelAllocated := allocated w AND NOT (2 ^ unat c)\<rparr>"
    by (auto simp: DWHCIDeviceFreeChannel_def Let_def allocated_def put_stage_def split: if_splits)
  then have "bit (allocated w) (unat c)" using word_and_exp_bit[of "allocated w" "unat c"] by simp
  moreover have "stage_of w1 (unat c) = Some (DWHCITransferStageData_dtor x)"
    using i by (simp add: w1 d' stage_of_def put_stage_def array_get_def)
  ultimately show ?thesis
    by (simp add: w1 d' stage_urb_def allocated_def DWHCITransferStageData_dtor_def)
qed

lemma release_and_complete_handled:
  "handled (\<lambda>drv. Option.bind (release_channel c w) (USBRequestCallCompletionRoutine drv u)) c u w"
proof (cases "release_channel c w")
  case (Some w1)
  with release_channel_effect[OF Some] show ?thesis by (auto simp: handled_def)
qed (simp add: handled_None)

lemma finish_stage_handled: "handled (\<lambda>drv. finish_stage drv c u w) c u w"
  unfolding finish_stage_def
  by (rule handled_bind, rule handled_from[OF release_and_complete_handled])
     (auto dest: disable_channel_irq_frame)

lemma fail_stage_handled: "handled (\<lambda>drv. fail_stage drv c u w) c u w"
  unfolding fail_stage_def
  by (rule handled_bind, rule handled_from[OF finish_stage_handled]) (auto dest: set_urb_status_frame)

lemma success_handled:
  "handled (\<lambda>drv. do { w \<leftarrow> report_success c u w; finish_stage drv c u w }) c u w"
  by (rule handled_bind, rule handled_from[OF finish_stage_handled]) (auto dest: report_success_frame)

lemma leave_success_handled:
  "handled (\<lambda>drv. do { w \<leftarrow> disable_channel_irq c w; w \<leftarrow> report_success c u w;
      w \<leftarrow> release_channel c w; USBRequestCallCompletionRoutine drv u w }) c u w"
  by (rule handled_bind, rule handled_bind, rule handled_from[OF release_and_complete_handled])
     (metis report_success_frame disable_channel_irq_frame)

lemma begin_start_split_urb: "begin_start_split x = Some x' \<Longrightarrow> xs_pURB x' = xs_pURB x"
  by (auto simp: begin_start_split_def bind_Some_iff stage_getters DWHCITransferStageDataSetSplitComplete_def
      split: if_splits)

lemma restart_handled:
  assumes "stage_of w (unat c) = Some y" and "xs_pURB x = Some u"
  shows "handled (\<lambda>_. DWHCIDeviceStartTransaction (unat c) (put_stage (unat c) x w)) c u w"
  using assms stage_of_Some[OF assms(1)] by (intro handled_pure) (auto dest!: StartTransaction_frame)

lemma leave_complete_split_handled:
  assumes x: "stage_of w (unat c) = Some x" and u: "xs_pURB x = Some u"
  shows "handled (\<lambda>drv. leave_complete_split drv c u w) c u w"
proof (cases "DWHCITransferStageDataIsStageComplete x")
  case True
  with leave_success_handled x show ?thesis by (simp add: leave_complete_split_def Let_def)
next
  case False
  have "handled (\<lambda>drv. do {
          bPeriodic \<leftarrow> DWHCITransferStageDataIsPeriodic (w_store w) x;
          if \<not> bPeriodic then do {
            x \<leftarrow> begin_start_split x;
            DWHCIDeviceStartTransaction (unat c) (put_stage (unat c) x w) }
          else start_periodic_delay (unat c) u w }) c u w"
  proof (rule handled_bind)
    fix b
    show "handled (\<lambda>drv. if \<not> b then do {
            x \<leftarrow> begin_start_split x;
            DWHCIDeviceStartTransaction (unat c) (put_stage (unat c) x w) }
          else start_periodic_delay (unat c) u w) c u w"
    proof (cases b)
      case True
      have "handled (\<lambda>_. start_periodic_delay (unat c) u w) c u w"
        using x u by (intro handled_pure) (auto dest!: start_periodic_delay_frame simp: stage_urb_def)
      with True show ?thesis by simp
    next
      case False
      have "handled (\<lambda>_. do { x \<leftarrow> begin_start_split x;
            DWHCIDeviceStartTransaction (unat c) (put_stage (unat c) x w) }) c u w"
        using x u by (intro handled_bind restart_handled) (auto dest: begin_start_split_urb)
      with False show ?thesis by simp
    qed
  qed
  with False x show ?thesis
    by (simp add: leave_complete_split_def DWHCITransferStageDataBeginSplitCycle_def Let_def)
qed


lemma scheduler_complete_frame:
  assumes "scheduler_complete i nStatus b w = Some (m, w')" and "stage_of w i = Some x" and "xs_pURB x = Some u"
  shows "allocated w' = allocated w \<and> (\<exists>x'. stage_of w' i = Some x' \<and> xs_pURB x' = Some u)"
  using assms stage_of_Some[OF assms(2)]
  by (auto simp: scheduler_complete_def bind_Some_iff stage_getters DWHCITransferStageDataSetSplitComplete_def
      stage_of_put split: if_splits)

lemma split_step_handled:
  assumes x: "stage_of w (unat c) = Some x" and u: "xs_pURB x = Some u"
  shows "handled (\<lambda>drv. do {
           (bMore, w) \<leftarrow> scheduler_complete (unat c) nStatus b w;
           if bMore then DWHCIDeviceStartTransaction (unat c) w
           else leave_complete_split drv c u w }) c u w"
proof (rule handled_bind, clarify)
  fix m w'
  assume "scheduler_complete (unat c) nStatus b w = Some (m, w')"
  from scheduler_complete_frame[OF this x u] obtain x' where
    a: "allocated w' = allocated w" and x': "stage_of w' (unat c) = Some x'" "xs_pURB x' = Some u" by auto
  have "handled (\<lambda>_. DWHCIDeviceStartTransaction (unat c) w') c u w"
    using a x' by (intro handled_pure) (auto dest!: StartTransaction_frame simp: stage_urb_def)
  moreover have "handled (\<lambda>drv. leave_complete_split drv c u w') c u w"
    using handled_from[OF leave_complete_split_handled[OF x'] a] .
  ultimately show "handled (\<lambda>drv. if m then DWHCIDeviceStartTransaction (unat c) w'
      else leave_complete_split drv c u w') c u w" by (cases m) simp_all
qed

lemma nosplit_step_handled:
  assumes x: "stage_of w (unat c) = Some x" and u: "xs_pURB x = Some u"
  shows "handled (\<lambda>drv. do {
           bDelay \<leftarrow> m;
           if bDelay then start_periodic_delay (unat c) u w
           else do { w \<leftarrow> report_success c u w; finish_stage drv c u w } }) c u w"
proof (rule handled_bind)
  fix b
  have "handled (\<lambda>_. start_periodic_delay (unat c) u w) c u w"
    using x u by (intro handled_pure) (auto dest!: start_periodic_delay_frame simp: stage_urb_def)
  then show "handled (\<lambda>drv. if b then start_periodic_delay (unat c) u w
           else do { w \<leftarrow> report_success c u w; finish_stage drv c u w }) c u w"
    using success_handled by (cases b) simp_all
qed

lemma handled_if:
  assumes "handled F c u w" and "handled G c u w"
  shows "handled (\<lambda>drv. if b then F drv else G drv) c u w"
  using assms by (cases b) simp_all

lemma stage_transition_handled:
  assumes x: "stage_of w (unat c) = Some x" and u: "xs_pURB x = Some u"
  shows "handled (\<lambda>drv. stage_transition drv c u w) c u w"
proof (cases "DWHCITransferStageDataGetTransactionStatus x")
  case None
  with x show ?thesis
    by (cases "xs_nState x") (simp_all add: stage_transition_def stage_getters Let_def handled_None)
next
  case (Some nStatus)
  note eqs = stage_transition_def Let_def x bind.bind_lunit Some DWHCITransferStageDataGetState_def TStageState.case
  show ?thesis
    by (cases "xs_nState x")
       (simp_all only: eqs handled_None handled_if[OF fail_stage_handled nosplit_step_handled[OF x u]]
          handled_if[OF fail_stage_handled split_step_handled[OF x u]])
qed

lemma TransactionComplete_urb:
  assumes "DWHCITransferStageDataTransactionComplete st x s pl bl = Some (st', x')"
  shows "xs_pURB x' = xs_pURB x"
  using assms
  by (auto simp: DWHCITransferStageDataTransactionComplete_def Let_def bind_Some_iff
      split del: if_split split: if_split_asm)

text \<open>
  Claim C2. A channel interrupt for a stage in progress does one of three things, whatever the
  controller answers: it halts at an assertion; or it returns without running any driver code, the
  channel still allocated to the same request (restarted, being disabled, or waiting for its
  polling timer); or it gives the channel back and then calls the request's completion routine,
  exactly once and as its last action.  That driver code is not run otherwise is stated as
  independence of the result from \<open>drv\<close>.
\<close>

theorem channel_interrupt_handled:
  assumes x: "stage_of w (unat c) = Some x" and u: "DWHCITransferStageDataGetURB x = Some u"
  shows "(\<forall>drv. DWHCIDeviceChannelInterruptHandler drv c w = None)
   \<or> (\<exists>w'. (\<forall>drv. DWHCIDeviceChannelInterruptHandler drv c w = Some w')
         \<and> allocated w' = allocated w \<and> stage_urb w' (unat c) = Some u)
   \<or> (\<exists>w1. (\<forall>drv. DWHCIDeviceChannelInterruptHandler drv c w = USBRequestCallCompletionRoutine drv u w1)
         \<and> bit (allocated w) (unat c) \<and> allocated w1 = allocated w AND NOT (2 ^ unat c)
         \<and> stage_urb w1 (unat c) = None)"
proof -
  have pu: "xs_pURB x = Some u" using u by (simp add: stage_getters)
  have su: "stage_urb w (unat c) = Some u" using x pu by (simp add: stage_urb_def)
  have start: "handled (\<lambda>_. DWHCIDeviceStartChannel (unat c) w) c u w"
    using su by (intro handled_pure) (auto dest: StartChannel_frame)
  have trans: "handled (\<lambda>_. DWHCIDeviceStartTransaction (unat c) (w\<lparr>w_io := io\<rparr>)) c u w" for io
    using su by (intro handled_pure) (auto dest!: StartTransaction_frame simp: stage_urb_def)
  have compl: "handled (\<lambda>drv. do {
       (st, x) \<leftarrow> DWHCITransferStageDataTransactionComplete (w_store w) x nStatus pl bl;
       stage_transition drv c u (put_stage (unat c) x (w\<lparr>w_io := io, w_store := st\<rparr>)) }) c u w"
    for nStatus pl bl io
  proof (rule handled_bind, clarify)
    fix st x'
    assume "DWHCITransferStageDataTransactionComplete (w_store w) x nStatus pl bl = Some (st, x')"
    from TransactionComplete_urb[OF this] pu have "xs_pURB x' = Some u" by simp
    with stage_of_Some[OF x] show
      "handled (\<lambda>drv. stage_transition drv c u (put_stage (unat c) x' (w\<lparr>w_io := io, w_store := st\<rparr>))) c u w"
      by (intro handled_from[OF stage_transition_handled]) (auto simp: stage_of_put)
  qed
  have "handled (\<lambda>drv. DWHCIDeviceChannelInterruptHandler drv c w) c u w"
    unfolding DWHCIDeviceChannelInterruptHandler_def Let_def x bind.bind_lunit u
      DWHCITransferStageDataGetSubState_def register_read_eq prod.case
    by (cases "xs_nSubState x")
       (simp_all only: TStageSubState.case start handled_None, intro handled_bind handled_if trans compl)
  then show ?thesis by (simp only: handled_def)
qed


theorem channel_interrupt_handled_witness:
  "(\<forall>drv. DWHCIDeviceChannelInterruptHandler drv 4 fast_world = None)
   \<or> (\<exists>w'. (\<forall>drv. DWHCIDeviceChannelInterruptHandler drv 4 fast_world = Some w')
         \<and> allocated w' = 2 ^ 4 \<and> stage_urb w' 4 = Some 7)
   \<or> (\<exists>w1. (\<forall>drv. DWHCIDeviceChannelInterruptHandler drv 4 fast_world = USBRequestCallCompletionRoutine drv 7 w1)
         \<and> bit (2 ^ 4 :: u32) 4 \<and> allocated w1 = 2 ^ 4 AND NOT (2 ^ 4) \<and> stage_urb w1 4 = None)"
proof -
  have "stage_of fast_world (unat (4 :: u32)) = Some fast_stage"
    by (simp add: stage_of_def array_get_def fast_world_def)
  moreover have "DWHCITransferStageDataGetURB fast_stage = Some 7"
    by (simp add: stage_getters fast_stage_def sample_stage_def)
  moreover have "allocated fast_world = 2 ^ 4" by (simp add: allocated_def fast_world_def)
  ultimately show ?thesis using channel_interrupt_handled[of fast_world 4 fast_stage 7] by simp
qed

text \<open>A stage as the constructor leaves it, without split, waiting for its one transaction.\<close>

definition whole_stage :: "TDWHCITransferStageData \<Rightarrow> bool" where
  "whole_stage x \<longleftrightarrow> \<not> xs_bSplitTransaction x \<and> xs_nState x = StageStateNoSplitTransfer
     \<and> xs_nSubState x = StageSubStateWaitForTransactionComplete
     \<and> xs_nPacketsPerTransaction x = xs_nPackets x \<and> xs_nBytesPerTransaction x = xs_nTransferSize x
     \<and> xs_nTotalBytesTransfered x = 0 \<and> xs_pBufferPointer x \<noteq> 0"

lemma whole_transaction:
  assumes "whole_stage x" and ep: "stage_endpoint st x" and ok: "\<not> status_stops nStatus"
    and pl: "pl \<le> xs_nPackets x" and bl: "bl \<le> xs_nTransferSize x"
  shows "\<exists>st'. DWHCITransferStageDataTransactionComplete st x nStatus pl bl
      = Some (st', advance x nStatus (xs_nPackets x - pl) (xs_nTransferSize x - bl)) \<and> st_urbs st' = st_urbs st"
proof -
  from ep obtain a ep where a: "xs_pEndpoint x = Some a" "st_eps st a = Some ep" "endpoint_ok ep"
    and cs: "xs_bStatusStage x \<longrightarrow> ep_Type ep = EndpointTypeControl"
    by (auto simp: stage_endpoint_def)
  from skip_defined[OF a(3) cs] obtain ep' where
    sk: "USBEndpointSkipPID ep (xs_nPackets x - pl) (xs_bStatusStage x) = Some ep'" by blast
  have le: "xs_nTransferSize x - bl \<le> xs_nTransferSize x" "xs_nPackets x - pl \<le> xs_nPackets x"
    using bl pl by (simp_all add: word_le_nat_alt unat_sub)
  show ?thesis
    using TransactionComplete_eq[OF a(1,2) _ ok, of pl ep' "xs_nTransferSize x - bl" bl] sk assms(1) le
    by (simp add: moved_def whole_stage_def)
qed

lemma release_channel_ok:
  assumes "stage_of w (unat c) = Some x" and "bit (allocated w) (unat c)" and "c < hd_nChannels (w_host w)"
  shows "\<exists>w1. release_channel c w = Some w1 \<and> w_store w1 = w_store w"
  using assms word_and_exp_bit[of "allocated w" "unat c"] bit_imp_le_length[OF assms(2)]
  by (auto simp: release_channel_def DWHCIDeviceFreeChannel_def Let_def allocated_def put_stage_def)

lemma finish_stage_ok:
  assumes "stage_of w (unat c) = Some x" and "bit (allocated w) (unat c)" and "c < hd_nChannels (w_host w)"
  shows "\<exists>w1. (\<forall>drv. finish_stage drv c u w = USBRequestCallCompletionRoutine drv u w1)
     \<and> w_store w1 = w_store w \<and> allocated w1 = allocated w AND NOT (2 ^ unat c)"
proof -
  let ?io = "io_emit (MmioWrite DWHCI_HOST_ALLCHAN_INT_MASK
     (io_oracle (w_io w) (io_pos (w_io w)) AND NOT (push_bit (unat c) 1)))
     (snd (mmio_read DWHCI_HOST_ALLCHAN_INT_MASK (w_io w)))"
  have d: "disable_channel_irq c w = Some (w\<lparr>w_io := ?io\<rparr>)"
    by (simp add: disable_channel_irq_def DWHCIDeviceDisableChannelInterrupt_def register_fresh)
  from assms release_channel_ok[of "w\<lparr>w_io := ?io\<rparr>" c x] obtain w1 where
    r: "release_channel c (w\<lparr>w_io := ?io\<rparr>) = Some w1" "w_store w1 = w_store w" by auto
  from release_channel_effect[OF r(1)] have "allocated w1 = allocated w AND NOT (2 ^ unat c)" by simp
  with d r show ?thesis by (auto simp: finish_stage_def)
qed

lemma report_success_ok:
  assumes "stage_of w (unat c) = Some x" and "urb_of w u = Some r"
  shows "report_success c u w = Some (put_urb u (USBRequestSetStatus
      (if xs_bStatusStage x then r else USBRequestSetResultLen r (DWHCITransferStageDataGetResultLen x)) True) w)"
  using assms
  by (simp add: report_success_def stage_getters set_urb_result_def set_urb_status_def urb_of_def put_urb_def)


text \<open>The handler up to the state machine, on a stage that waits for its transaction.\<close>

lemma handler_reaches_transition:
  assumes x: "stage_of w (unat c) = Some x" and u: "xs_pURB x = Some u"
    and s: "xs_nSubState x = StageSubStateWaitForTransactionComplete" and b: "xs_pBufferPointer x \<noteq> 0"
    and h: "io_oracle (w_io w) (io_pos (w_io w) + 1) \<noteq> DWHCI_HOST_CHAN_INT_HALTED"
    and p: "DWHCITransferStageDataIsPeriodic (w_store w) x = Some bp"
    and m: "bp \<longrightarrow> DWHCI_HOST_CHAN_XFER_SIZ_PID (io_oracle (w_io w) (io_pos (w_io w))) \<noteq> DWHCI_HOST_CHAN_XFER_SIZ_PID_MDATA"
    and t: "DWHCITransferStageDataTransactionComplete (w_store w) x (io_oracle (w_io w) (io_pos (w_io w) + 2))
        (DWHCI_HOST_CHAN_XFER_SIZ_PACKETS (io_oracle (w_io w) (io_pos (w_io w))))
        (io_oracle (w_io w) (io_pos (w_io w)) AND DWHCI_HOST_CHAN_XFER_SIZ_BYTES__MASK) = Some (st, x')"
  shows "\<exists>io. \<forall>drv. DWHCIDeviceChannelInterruptHandler drv c w
     = stage_transition drv c u (put_stage (unat c) x' (w\<lparr>w_io := io, w_store := st\<rparr>))"
proof -
  have io: "io_oracle (CleanAndInvalidateDataCacheRange a n io) = io_oracle io"
    "io_pos (CleanAndInvalidateDataCacheRange a n io) = io_pos io" for a n io
    by (simp_all add: CleanAndInvalidateDataCacheRange_def)
  have d: "DWHCITransferStageDataGetDMAAddress x = Some (ucast (xs_pBufferPointer x))"
    using b by (simp add: GetDMAAddress_eq)
  show ?thesis
    using x u s h p m t d
    by (simp add: DWHCIDeviceChannelInterruptHandler_def stage_getters register_fresh io Let_def)
       (intro exI allI, rule refl)
qed

text \<open>
  Claim C5. A finished transfer is reported.  On a stage without split transactions, when the
  controller shows a status that is neither an error nor NAK or NYET, with \<open>bl\<close> bytes left of
  those asked for, the interrupt handler gives the channel back and calls the request's
  completion routine; the request then has status true and, unless it is in its status stage, a result
  length of the buffer length less \<open>bl\<close>.
\<close>

theorem channel_interrupt_success:
  fixes w :: "'a usb_world_scheme"
  defines "v \<equiv> \<lambda>i. io_oracle (w_io w) (io_pos (w_io w) + i)"
  assumes x: "stage_of w (unat c) = Some x" and u: "DWHCITransferStageDataGetURB x = Some u"
    and r: "urb_of w u = Some r"
    and ws: "whole_stage x" and ep: "stage_endpoint (w_store w) x"
    and st: "v 1 \<noteq> DWHCI_HOST_CHAN_INT_HALTED" "v 2 \<noteq> 0" "\<not> status_stops (v 2)"
    and left: "DWHCI_HOST_CHAN_XFER_SIZ_PACKETS (v 0) \<le> xs_nPackets x"
      "v 0 AND DWHCI_HOST_CHAN_XFER_SIZ_BYTES__MASK \<le> xs_nTransferSize x"
    and pid: "DWHCI_HOST_CHAN_XFER_SIZ_PID (v 0) \<noteq> DWHCI_HOST_CHAN_XFER_SIZ_PID_MDATA"
    and al: "bit (allocated w) (unat c)" "c < hd_nChannels (w_host w)"
  shows "\<exists>w1 r1. (\<forall>drv. DWHCIDeviceChannelInterruptHandler drv c w = USBRequestCallCompletionRoutine drv u w1)
     \<and> urb_of w1 u = Some r1 \<and> USBRequestGetStatus r1
     \<and> (\<not> xs_bStatusStage x \<longrightarrow> USBRequestGetResultLength r1
          = Some (xs_nTransferSize x - (v 0 AND DWHCI_HOST_CHAN_XFER_SIZ_BYTES__MASK)))
     \<and> allocated w1 = allocated w AND NOT (2 ^ unat c)"
proof -
  let ?pl = "DWHCI_HOST_CHAN_XFER_SIZ_PACKETS (v 0)" and ?bl = "v 0 AND DWHCI_HOST_CHAN_XFER_SIZ_BYTES__MASK"
  have pu: "xs_pURB x = Some u" using u by (simp add: stage_getters)
  from ep obtain bp where bp: "DWHCITransferStageDataIsPeriodic (w_store w) x = Some bp"
    by (auto simp: stage_endpoint_def DWHCITransferStageDataIsPeriodic_def)
  let ?x = "advance x (v 2) (xs_nPackets x - ?pl) (xs_nTransferSize x - ?bl)"
  from whole_transaction[OF ws ep st(3) left] obtain st' where
    tc: "DWHCITransferStageDataTransactionComplete (w_store w) x (v 2) ?pl ?bl = Some (st', ?x)"
    and us: "st_urbs st' = st_urbs (w_store w)" by blast
  from handler_reaches_transition[OF x pu _ _ _ bp, of st' ?x] ws st(1) pid tc obtain io where
    hd: "\<And>drv. DWHCIDeviceChannelInterruptHandler drv c w
       = stage_transition drv c u (put_stage (unat c) ?x (w\<lparr>w_io := io, w_store := st'\<rparr>))"
    by (auto simp: v_def whole_stage_def)
  let ?w = "put_stage (unat c) ?x (w\<lparr>w_io := io, w_store := st'\<rparr>)"
  have xw: "stage_of ?w (unat c) = Some ?x" using stage_of_Some[OF x] by (simp add: stage_of_put)
  have rw: "urb_of ?w u = Some r" using r us by (simp add: urb_of_def)
  let ?r1 = "USBRequestSetStatus (if xs_bStatusStage x then r
      else USBRequestSetResultLen r (DWHCITransferStageDataGetResultLen ?x)) True"
  have rs: "report_success c u ?w = Some (put_urb u ?r1 ?w)"
    using report_success_ok[OF xw rw] by simp
  have len: "DWHCITransferStageDataGetResultLen ?x = xs_nTransferSize x - ?bl"
  proof -
    have "xs_nTransferSize x - ?bl \<le> xs_nTransferSize x"
      using left(2) by (simp add: word_le_nat_alt unat_sub)
    with ws show ?thesis by (simp add: DWHCITransferStageDataGetResultLen_def whole_stage_def leD)
  qed
  from finish_stage_ok[of "put_urb u ?r1 ?w" c ?x u] xw al obtain w1 where
    f: "\<forall>drv. finish_stage drv c u (put_urb u ?r1 ?w) = USBRequestCallCompletionRoutine drv u w1"
    "w_store w1 = w_store (put_urb u ?r1 ?w)" "allocated w1 = allocated w AND NOT (2 ^ unat c)" by auto
  have ns: "v 2 AND DWHCI_HOST_CHAN_INT_ERROR_MASK = 0"
    "v 2 AND (DWHCI_HOST_CHAN_INT_NAK OR DWHCI_HOST_CHAN_INT_NYET) = 0"
    using st(3) by (simp_all add: status_stops_def bit.conj_disj_distrib word_or_zero)
  have sx: "DWHCITransferStageDataGetState ?x = StageStateNoSplitTransfer"
    "DWHCITransferStageDataGetTransactionStatus ?x = Some (v 2)"
    using ws st(2) by (simp_all add: stage_getters DWHCITransferStageDataGetTransactionStatus_def whole_stage_def)
  have "stage_transition drv c u ?w = USBRequestCallCompletionRoutine drv u w1" for drv
    unfolding stage_transition_def Let_def xw bind.bind_lunit sx TStageState.case using ns rs f(1) by simp
  moreover have "urb_of w1 u = Some ?r1" using f(2) by (simp add: urb_of_def put_urb_def)
  ultimately show ?thesis
    using f(3) by (intro exI[of _ w1] exI[of _ ?r1] conjI)
      (simp_all add: hd len request_getters USBRequestGetResultLength_def)
qed

text \<open>The example world once the controller has transferred 15 of the 20 bytes.\<close>

definition done_stage :: TDWHCITransferStageData where
  "done_stage = fast_stage\<lparr>xs_nSubState := StageSubStateWaitForTransactionComplete\<rparr>"

definition answer_world :: "u32 \<Rightarrow> usb_world" where
  "answer_world s = put_stage 4 done_stage
     (fast_world\<lparr>w_io := \<lparr>io_oracle = (\<lambda>n. if n = 0 then 5 else s), io_pos = 0, io_trace = []\<rparr>\<rparr>)"

lemma answer_world_facts [simp]:
  "stage_of (answer_world s) 4 = Some done_stage" "DWHCITransferStageDataGetURB done_stage = Some 7"
  "whole_stage done_stage" "stage_endpoint (w_store (answer_world s)) done_stage"
  "urb_of (answer_world s) 7 = st_urbs (sample_store 0) 7"
  "allocated (answer_world s) = 2 ^ 4" "hd_nChannels (w_host (answer_world s)) = 8"
  "io_oracle (w_io (answer_world s)) = (\<lambda>n. if n = 0 then 5 else s)" "io_pos (w_io (answer_world s)) = 0"
  "xs_nPackets done_stage = 3" "xs_nTransferSize done_stage = 20" "\<not> xs_bStatusStage done_stage"
  by (simp_all add: answer_world_def put_stage_def stage_of_def array_get_def done_stage_def stage_getters
      whole_stage_def stage_endpoint_def endpoint_ok_def allocated_def urb_of_def fast_simps)

theorem channel_interrupt_success_witness:
  "\<exists>w1 r1. (\<forall>drv. DWHCIDeviceChannelInterruptHandler drv 4 (answer_world 1) = USBRequestCallCompletionRoutine drv 7 w1)
     \<and> urb_of w1 7 = Some r1 \<and> USBRequestGetStatus r1 \<and> USBRequestGetResultLength r1 = Some 15
     \<and> allocated w1 = 0"
  using channel_interrupt_success[of "answer_world 1" 4 done_stage 7 "the (st_urbs (sample_store 0) 7)"]
  by (simp add: status_stops_def chan_int_bits sample_store_def DWHCI_HOST_CHAN_XFER_SIZ_PACKETS_def
      DWHCI_HOST_CHAN_XFER_SIZ_PID_def DWHCI_HOST_CHAN_XFER_SIZ_PID_MDATA_def
      DWHCI_HOST_CHAN_XFER_SIZ_BYTES__MASK_def DWHCI_HOST_CHAN_XFER_SIZ_PACKETS__MASK_def word_bit_bound)

lemma fail_stage_ok:
  assumes x: "stage_of w (unat c) = Some x" and r: "urb_of w u = Some r" and al: "bit (allocated w) (unat c)" "c < hd_nChannels (w_host w)"
  shows "\<exists>w1. (\<forall>drv. fail_stage drv c u w = USBRequestCallCompletionRoutine drv u w1)
     \<and> w_store w1 = (w_store w)\<lparr>st_urbs := (st_urbs (w_store w))(u \<mapsto> USBRequestSetStatus r False)\<rparr>
     \<and> allocated w1 = allocated w AND NOT (2 ^ unat c)"
proof -
  have "set_urb_status u False w = Some (put_urb u (USBRequestSetStatus r False) w)"
    using r by (simp add: set_urb_status_def urb_of_def)
  with finish_stage_ok[of "put_urb u (USBRequestSetStatus r False) w" c x u] x al show ?thesis
    by (simp add: fail_stage_def put_urb_def)
qed

text \<open>
  Claim C7. A failed transaction is reported.  In every state of the channel's machine, when the
  controller shows one of the error bits, the handler sets the request's status to false, leaves
  its result length as it was, gives the channel back and calls the completion routine; no
  retry is made and the data toggle of the endpoint is not advanced.
\<close>

theorem channel_interrupt_error:
  fixes w :: "'a usb_world_scheme"
  defines "v \<equiv> \<lambda>i. io_oracle (w_io w) (io_pos (w_io w) + i)"
  assumes x: "stage_of w (unat c) = Some x" and u: "DWHCITransferStageDataGetURB x = Some u"
    and r: "urb_of w u = Some r" and ep: "stage_endpoint (w_store w) x"
    and sub: "xs_nSubState x = StageSubStateWaitForTransactionComplete" "xs_pBufferPointer x \<noteq> 0"
    and state: "xs_nState x \<in> {StageStateNoSplitTransfer, StageStateStartSplit, StageStateCompleteSplit}"
    and st: "v 1 \<noteq> DWHCI_HOST_CHAN_INT_HALTED" "v 2 AND DWHCI_HOST_CHAN_INT_ERROR_MASK \<noteq> 0"
    and pid: "DWHCI_HOST_CHAN_XFER_SIZ_PID (v 0) \<noteq> DWHCI_HOST_CHAN_XFER_SIZ_PID_MDATA"
    and al: "bit (allocated w) (unat c)" "c < hd_nChannels (w_host w)"
  shows "\<exists>w1. (\<forall>drv. DWHCIDeviceChannelInterruptHandler drv c w = USBRequestCallCompletionRoutine drv u w1)
     \<and> w_store w1 = (w_store w)\<lparr>st_urbs := (st_urbs (w_store w))(u \<mapsto> USBRequestSetStatus r False)\<rparr>
     \<and> allocated w1 = allocated w AND NOT (2 ^ unat c)"
proof -
  have pu: "xs_pURB x = Some u" using u by (simp add: stage_getters)
  from ep obtain bp where bp: "DWHCITransferStageDataIsPeriodic (w_store w) x = Some bp"
    by (auto simp: stage_endpoint_def DWHCITransferStageDataIsPeriodic_def)
  have stops: "status_stops (v 2)"
    using st(2) by (simp add: status_stops_def bit.conj_disj_distrib word_or_zero)
  let ?x = "x\<lparr>xs_nTransactionStatus := v 2\<rparr>"
  from handler_reaches_transition[OF x pu sub _ bp, of "w_store w" ?x] st(1) pid
    TransactionComplete_stops[OF stops] obtain io where
    hd: "\<And>drv. DWHCIDeviceChannelInterruptHandler drv c w
       = stage_transition drv c u (put_stage (unat c) ?x (w\<lparr>w_io := io, w_store := w_store w\<rparr>))"
    by (auto simp: v_def)
  let ?w = "put_stage (unat c) ?x (w\<lparr>w_io := io, w_store := w_store w\<rparr>)"
  have xw: "stage_of ?w (unat c) = Some ?x" using stage_of_Some[OF x] by (simp add: stage_of_put)
  from fail_stage_ok[OF xw, of u r] r al obtain w1 where
    f: "\<forall>drv. fail_stage drv c u ?w = USBRequestCallCompletionRoutine drv u w1"
    "w_store w1 = (w_store w)\<lparr>st_urbs := (st_urbs (w_store w))(u \<mapsto> USBRequestSetStatus r False)\<rparr>"
    "allocated w1 = allocated w AND NOT (2 ^ unat c)" by (auto simp: urb_of_def)
  have "v 2 \<noteq> 0" using st(2) by auto
  then have ts: "DWHCITransferStageDataGetTransactionStatus ?x = Some (v 2)"
    by (simp add: DWHCITransferStageDataGetTransactionStatus_def)
  have "stage_transition drv c u ?w = USBRequestCallCompletionRoutine drv u w1" for drv
    unfolding stage_transition_def Let_def xw bind.bind_lunit DWHCITransferStageDataGetState_def ts
    using state st(2) f(1) by auto
  with f(2,3) show ?thesis by (intro exI[of _ w1]) (simp add: hd)
qed

theorem channel_interrupt_error_witness:
  "\<exists>w1. (\<forall>drv. DWHCIDeviceChannelInterruptHandler drv 4 (answer_world DWHCI_HOST_CHAN_INT_ERROR_MASK)
          = USBRequestCallCompletionRoutine drv 7 w1)
     \<and> (\<exists>r. st_urbs (w_store w1) 7 = Some r \<and> \<not> USBRequestGetStatus r) \<and> allocated w1 = 0"
proof -
  have "xs_nSubState done_stage = StageSubStateWaitForTransactionComplete" "xs_pBufferPointer done_stage \<noteq> 0"
    "xs_nState done_stage = StageStateNoSplitTransfer"
    by (simp_all add: done_stage_def fast_simps)
  with channel_interrupt_error[of "answer_world DWHCI_HOST_CHAN_INT_ERROR_MASK" 4 done_stage 7
      "the (st_urbs (sample_store 0) 7)"]
  show ?thesis
    by (simp add: chan_int_bits sample_store_def DWHCI_HOST_CHAN_XFER_SIZ_PID_def
        DWHCI_HOST_CHAN_XFER_SIZ_PID_MDATA_def word_bit_bound request_getters USBRequestSetStatus_def)
       fastforce
qed

lemma put_stage_timer [simp]: "w_timer (put_stage i x w) = w_timer w"
  by (simp add: put_stage_def)

text \<open>The timer table after the request for a poll in \<open>n\<close> ticks.\<close>

definition polled_later :: "nat \<Rightarrow> u32 \<Rightarrow> TTimer \<Rightarrow> TTimer" where
  "polled_later i n t = (let ts = tm_KernelTimer t; h = free_slot ts 0 in
     if h < KERNEL_TIMERS
     then t\<lparr>tm_KernelTimer := ts[h := \<lparr>kt_pHandler = Some HostTimerHandler,
            kt_nElapsesAt = tm_nTicks t + n, kt_pParam = i, kt_pContext = host_ref\<rparr>]\<rparr>
     else t)"

lemma start_periodic_delay_eq:
  assumes "stage_of w i = Some x" and "urb_of w u = Some r" and "urb_pEndpoint r = Some a"
    and "st_eps (w_store w) a = Some ep" and "ep_Type ep = EndpointTypeInterrupt" and "tm_initialized (w_timer w)"
  shows "start_periodic_delay i u w = Some ((put_stage i (x\<lparr>xs_nState := StageStatePeriodicDelay\<rparr>) w)
     \<lparr>w_timer := polled_later i (ep_nInterval ep * 100 div 1000) (w_timer w)\<rparr>)"
  using assms
  by (simp add: start_periodic_delay_def DWHCITransferStageDataSetState_def urb_of_def StartKernelTimer_def
      TimerGet_def TimerStartKernelTimer_def USBEndpointGetInterval_def request_getters MSEC2HZ_def HZ_def
      polled_later_def Let_def not_le)

definition delayed :: "nat \<Rightarrow> addr \<Rightarrow> u32 \<Rightarrow> 'a usb_world_scheme \<Rightarrow> 'a usb_world_scheme \<Rightarrow> bool" where
  "delayed i u n w w' \<longleftrightarrow> (\<exists>x'. stage_of w' i = Some x' \<and> DWHCITransferStageDataGetState x' = StageStatePeriodicDelay
     \<and> DWHCITransferStageDataGetURB x' = Some u) \<and> w_store w' = w_store w \<and> allocated w' = allocated w
     \<and> w_timer w' = polled_later i n (w_timer w)"

lemma periodic_delay_ok:
  assumes "stage_of w i = Some x" and "xs_pURB x = Some u" and "urb_of w u = Some r" and "urb_pEndpoint r = Some a"
    and "st_eps (w_store w) a = Some ep" and "ep_Type ep = EndpointTypeInterrupt" and "tm_initialized (w_timer w)"
  shows "\<exists>w'. start_periodic_delay i u w = Some w' \<and> delayed i u (ep_nInterval ep * 100 div 1000) w w'"
proof -
  let ?d = "x\<lparr>xs_nState := StageStatePeriodicDelay\<rparr>"
  let ?w' = "(put_stage i ?d w)\<lparr>w_timer := polled_later i (ep_nInterval ep * 100 div 1000) (w_timer w)\<rparr>"
  have "start_periodic_delay i u w = Some ?w'" using assms by (intro start_periodic_delay_eq)
  moreover have "stage_of ?w' i = Some ?d"
    using stage_of_Some[OF assms(1)] stage_of_put[of i w ?d] by (simp add: stage_of_def)
  ultimately show ?thesis using assms(2) by (simp add: delayed_def stage_getters)
qed

text \<open>
  A complete-split that is refused: the scheduler gives up this transaction, packets are left, so the stage waits for its next turn.
\<close>

definition split_refused :: "TDWHCITransferStageData \<Rightarrow> u32 \<Rightarrow> bool" where
  "split_refused x nStatus \<longleftrightarrow> xs_nState x = StageStateCompleteSplit \<and> xs_nPackets x \<noteq> 0
     \<and> nStatus AND (DWHCI_HOST_CHAN_INT_XFER_COMPLETE OR DWHCI_HOST_CHAN_INT_NYET OR DWHCI_HOST_CHAN_INT_ACK) = 0
     \<and> (\<exists>fs. DWHCITransferStageDataGetFrameScheduler x = Some (FS_Periodic fs) \<and> pe_nState fs \<in> {StateCompleteSplit, StateCompleteRetry})"

lemma split_refused_scheduler:
  assumes "split_refused x nStatus" and "nStatus AND DWHCI_HOST_CHAN_INT_NAK \<noteq> 0" and "stage_of w i = Some x"
  shows "\<exists>fs io. scheduler_complete i nStatus False w = Some (False, put_stage i (x\<lparr>xs_FrameScheduler := fs\<rparr>) (w\<lparr>w_io := io\<rparr>))"
proof -
  from assms(1) obtain fs where fs: "DWHCITransferStageDataGetFrameScheduler x = Some (FS_Periodic fs)"
    "pe_nState fs = StateCompleteSplit \<or> pe_nState fs = StateCompleteRetry"
    "nStatus AND (DWHCI_HOST_CHAN_INT_XFER_COMPLETE OR DWHCI_HOST_CHAN_INT_NYET OR DWHCI_HOST_CHAN_INT_ACK) = 0"
    by (auto simp: split_refused_def)
  then have z: "nStatus AND DWHCI_HOST_CHAN_INT_XFER_COMPLETE = 0" "nStatus AND (DWHCI_HOST_CHAN_INT_NYET OR DWHCI_HOST_CHAN_INT_ACK) = 0"
    by (simp_all add: bit.conj_disj_distrib word_or_zero)
  let ?fs = "fs\<lparr>pe_nState := StateCompleteSplitFailed\<rparr>"
  have "DWHCIFrameSchedulerPeriodicTransactionComplete fs nStatus io = Some (?fs, usDelay (5 * uFRAME) io)" for io
    using fs(2) z assms(2) by (auto simp: DWHCIFrameSchedulerPeriodicTransactionComplete_def)
  moreover have "DWHCIFrameSchedulerPeriodicCompleteSplit ?fs io = Some (False, ?fs, io)" for io
    by (simp add: DWHCIFrameSchedulerPeriodicCompleteSplit_def)
  ultimately have "scheduler_complete i nStatus False w
      = Some (False, put_stage i (x\<lparr>xs_FrameScheduler := FS_Periodic ?fs\<rparr>) (w\<lparr>w_io := usDelay (5 * uFRAME) (w_io w)\<rparr>))"
    using assms(3) fs(1) by (simp add: scheduler_complete_def)
  then show ?thesis by blast
qed


definition poll_endpoint :: TUSBEndpoint where
  "poll_endpoint = (the (st_eps (sample_store 0) 2))\<lparr>ep_Type := EndpointTypeInterrupt, ep_nInterval := 30\<rparr>"

definition poll_world :: usb_world where
  "poll_world = (answer_world DWHCI_HOST_CHAN_INT_NAK)\<lparr>w_store := fast_store\<lparr>st_eps := [2 \<mapsto> poll_endpoint]\<rparr>\<rparr>"


section \<open>The result of a blocking request\<close>

declare wait_done.simps [code] spin_until.simps [code]

lemma wait_done_ends:
  assumes "wait_done drv w = Some w'"
  shows "\<not> hd_bWaiting (w_host w')"
proof (rule wait_done.raw_induct[where P="\<lambda>_ _ w'. \<not> hd_bWaiting (w_host w')", OF _ assms])
  fix f drv w w'
  assume IH: "\<And>drv w w'. f drv w = Some w' \<Longrightarrow> \<not> hd_bWaiting (w_host w')"
    and "(if hd_bWaiting (w_host w) then do {
        w \<leftarrow> take_interrupt drv (w_events w (w_evpos w)) (w\<lparr>w_evpos := w_evpos w + 1\<rparr>);
        f drv w } else Some w) = Some w'"
  then show "\<not> hd_bWaiting (w_host w')" by (auto simp: bind_Some_iff split: if_splits)
qed

text \<open>What a stage, and a request of several stages, has established when it returns.\<close>

definition stage_result :: "addr \<Rightarrow> bool \<times> 'a usb_world_scheme \<Rightarrow> bool" where
  "stage_result u res \<longleftrightarrow> \<not> hd_bWaiting (w_host (snd res))
     \<and> (fst res \<longrightarrow> (\<exists>r. urb_of (snd res) u = Some r \<and> USBRequestGetStatus r))"

lemma TransferStage_result: "DWHCIDeviceTransferStage drv u bIn bS w = Some res \<Longrightarrow> stage_result u res"
  by (auto simp: DWHCIDeviceTransferStage_def stage_result_def bind_Some_iff Let_def set_waiting_def
      dest: wait_done_ends split: if_splits)

lemma then_stage_result:
  assumes "then_stage m f = Some res" and "\<And>res. m = Some res \<Longrightarrow> stage_result u res"
    and "\<And>w res. f w = Some res \<Longrightarrow> stage_result u res"
  shows "stage_result u res"
  using assms(1) assms(2) by (auto simp: then_stage_def bind_Some_iff stage_result_def dest!: assms(3) split: if_splits)

text \<open>
  Claim C9. A blocking request that returns has really ended: the driver no longer waits, and when the
  call reports success the request itself has status true, whatever interrupts came in
  between and for every sequence of setup, data and status stages.
\<close>

theorem blocking_request_result:
  assumes "DWHCIDeviceSubmitBlockingRequest drv u w = Some (ok, w')"
  shows "\<not> hd_bWaiting (w_host w') \<and> (ok \<longrightarrow> (\<exists>r. urb_of w' u = Some r \<and> USBRequestGetStatus r))"
proof -
  have "stage_result u (ok, w')"
    using assms unfolding DWHCIDeviceSubmitBlockingRequest_def
    by (auto simp: bind_Some_iff split: if_splits
        elim!: then_stage_result TransferStage_result dest: TransferStage_result)
  then show ?thesis by (simp add: stage_result_def)
qed

text \<open>
  A run: the request of the example world is started on channel 0, and the next interrupt reports the
  transfer of all but 5 bytes.
\<close>

definition no_driver :: "usb_world driver_code" where
  "no_driver = \<lparr>drv_completion = (\<lambda>_ _ _ _ w. Some w), drv_timer = (\<lambda>_ _ _ _ w. Some w)\<rparr>"

definition idle_world :: usb_world where
  "idle_world = fast_world\<lparr>w_host := (w_host fast_world)\<lparr>hd_nChannels := 1, hd_nChannelAllocated := 0\<rparr>,
     w_io := \<lparr>io_oracle = (\<lambda>n. if n < 3 then 0 else [2 ^ 25, 1, 5, 1, 1, 1] ! (n - 3)), io_pos = 0, io_trace = []\<rparr>\<rparr>"

lemma idle_world_run:
  "map_option (\<lambda>(ok, w). (ok, map_option USBRequestGetResultLength (urb_of w 7)))
     (DWHCIDeviceSubmitBlockingRequest no_driver 7 idle_world) = Some (True, Some (Some 15))"
  by code_simp

theorem blocking_request_result_witness:
  "\<exists>w' r. DWHCIDeviceSubmitBlockingRequest no_driver 7 idle_world = Some (True, w')
     \<and> \<not> hd_bWaiting (w_host w') \<and> urb_of w' 7 = Some r \<and> USBRequestGetStatus r
     \<and> USBRequestGetResultLength r = Some 15"
proof -
  from idle_world_run obtain w' where
    "DWHCIDeviceSubmitBlockingRequest no_driver 7 idle_world = Some (True, w')"
    "map_option USBRequestGetResultLength (urb_of w' 7) = Some (Some 15)" by auto
  with blocking_request_result[of no_driver 7 idle_world True w'] show ?thesis by auto
qed

end
