(* ===== verification/TransferFrame.thy ===== *)
theory TransferFrame
  imports HostTransfer
begin

text \<open>
  What the host driver leaves alone, whatever interrupts it takes: the part of the world that the
  drivers above it add, the devices, and of every endpoint all but the data toggle.
\<close>

definition ep_sig :: "TUSBEndpoint \<Rightarrow> TUSBEndpoint" where
  "ep_sig ep = ep\<lparr>ep_NextPID := USBPIDData0\<rparr>"

definition store_sig :: "usb_store \<Rightarrow> (addr \<Rightarrow> TUSBDevice option) \<times> (addr \<Rightarrow> TUSBEndpoint option)" where
  "store_sig st = (st_devs st, \<lambda>a. map_option ep_sig (st_eps st a))"

definition world_sig :: "'a usb_world_scheme \<Rightarrow> 'a \<times> (addr \<Rightarrow> TUSBDevice option) \<times> (addr \<Rightarrow> TUSBEndpoint option)" where
  "world_sig w = (usb_world.more w, store_sig (w_store w))"

lemma world_sig_update [simp]:
  "world_sig (w\<lparr>w_io := io\<rparr>) = world_sig w" "world_sig (w\<lparr>w_timer := t\<rparr>) = world_sig w"
  "world_sig (w\<lparr>w_host := d\<rparr>) = world_sig w" "world_sig (w\<lparr>w_evpos := n\<rparr>) = world_sig w"
  "world_sig (put_stage i x w) = world_sig w" "world_sig (put_urb u r w) = world_sig w"
  "world_sig (set_waiting b w) = world_sig w"
  by (simp_all add: world_sig_def put_stage_def put_urb_def store_sig_def set_waiting_def)

lemma world_sig_store: "store_sig st = store_sig (w_store w) \<Longrightarrow> world_sig (w\<lparr>w_store := st\<rparr>) = world_sig w"
  by (simp add: world_sig_def)

section \<open>Operations that keep a signature\<close>

text \<open>
  \<open>keeps s m\<close>: if \<open>m\<close> returns a world, its signature is \<open>s\<close>; \<open>keepsr\<close> for operations that return a
  value as well.
\<close>

definition keeps :: "'s \<Rightarrow> ('w \<Rightarrow> 's) \<Rightarrow> 'w option \<Rightarrow> bool" where
  "keeps s sig m \<longleftrightarrow> (\<forall>w. m = Some w \<longrightarrow> sig w = s)"

definition keepsr :: "'s \<Rightarrow> ('w \<Rightarrow> 's) \<Rightarrow> ('r \<times> 'w) option \<Rightarrow> bool" where
  "keepsr s sig m \<longleftrightarrow> (\<forall>r w. m = Some (r, w) \<longrightarrow> sig w = s)"

named_theorems keeps_intros

lemma keeps_basic [keeps_intros]:
  "keeps s sig None" "keepsr s sig None"
  "sig w = s \<Longrightarrow> keeps s sig (Some w)" "sig w = s \<Longrightarrow> keepsr s sig (Some (r, w))"
  by (simp_all add: keeps_def keepsr_def)

lemma keeps_bind [keeps_intros]:
  "(\<And>x. m = Some x \<Longrightarrow> keeps s sig (f x)) \<Longrightarrow> keeps s sig (Option.bind m f)"
  "(\<And>x. m = Some x \<Longrightarrow> keepsr s sig (g x)) \<Longrightarrow> keepsr s sig (Option.bind m g)"
  by (auto simp: keeps_def keepsr_def bind_Some_iff)

lemma keeps_if [keeps_intros]:
  "\<lbrakk>b \<Longrightarrow> keeps s sig m; \<not> b \<Longrightarrow> keeps s sig m'\<rbrakk> \<Longrightarrow> keeps s sig (if b then m else m')"
  "\<lbrakk>b \<Longrightarrow> keepsr s sig n; \<not> b \<Longrightarrow> keepsr s sig n'\<rbrakk> \<Longrightarrow> keepsr s sig (if b then n else n')"
  by simp_all

lemma keeps_prod [keeps_intros]:
  "(\<And>a b. p = (a, b) \<Longrightarrow> keeps s sig (f a b)) \<Longrightarrow> keeps s sig (case p of (a, b) \<Rightarrow> f a b)"
  "(\<And>a b. p = (a, b) \<Longrightarrow> keepsr s sig (g a b)) \<Longrightarrow> keepsr s sig (case p of (a, b) \<Rightarrow> g a b)"
  by (auto split: prod.splits)

lemma StartChannel_sig: "world_sig w = s \<Longrightarrow> keeps s world_sig (DWHCIDeviceStartChannel i w)"
  unfolding DWHCIDeviceStartChannel_def Let_def by (intro keeps_intros) simp

lemma StartTransaction_sig: "world_sig w = s \<Longrightarrow> keeps s world_sig (DWHCIDeviceStartTransaction i w)"
  unfolding DWHCIDeviceStartTransaction_def Let_def by (intro keeps_intros StartChannel_sig) simp_all

lemma StartKernelTimer_sig: "world_sig w = s \<Longrightarrow> keepsr s world_sig (StartKernelTimer n h p c w)"
  unfolding StartKernelTimer_def by (intro keeps_intros) simp

lemma keepsr_bind:
  "\<lbrakk>keepsr s sig m; \<And>r w. sig w = s \<Longrightarrow> keeps s sig (f (r, w))\<rbrakk> \<Longrightarrow> keeps s sig (Option.bind m f)"
  "\<lbrakk>keepsr s sig m; \<And>r w. sig w = s \<Longrightarrow> keepsr s sig (g (r, w))\<rbrakk> \<Longrightarrow> keepsr s sig (Option.bind m g)"
  by (auto simp: keeps_def keepsr_def bind_Some_iff)

lemma keeps_seq:
  "\<lbrakk>keeps s sig m; \<And>w. sig w = s \<Longrightarrow> keeps s sig (f w)\<rbrakk> \<Longrightarrow> keeps s sig (Option.bind m f)"
  "\<lbrakk>keeps s sig m; \<And>w. sig w = s \<Longrightarrow> keepsr s sig (g w)\<rbrakk> \<Longrightarrow> keepsr s sig (Option.bind m g)"
  by (auto simp: keeps_def keepsr_def bind_Some_iff)

lemma delay_sig: "world_sig w = s \<Longrightarrow> keeps s world_sig (start_periodic_delay i u w)"
  unfolding start_periodic_delay_def Let_def
  by (intro keepsr_bind[OF StartKernelTimer_sig] keeps_intros) simp_all

lemma simple_sig:
  "world_sig w = s \<Longrightarrow> keeps s world_sig (set_urb_status u b w)"
  "world_sig w = s \<Longrightarrow> keeps s world_sig (set_urb_result u n w)"
  "world_sig w = s \<Longrightarrow> keeps s world_sig (release_channel c w)"
  "world_sig w = s \<Longrightarrow> keeps s world_sig (disable_channel_irq c w)"
  "world_sig w = s \<Longrightarrow> keeps s world_sig (DWHCIDeviceCompletionRoutine p w)"
  "world_sig w = s \<Longrightarrow> keepsr s world_sig (scheduler_complete i st b w)"
  unfolding set_urb_status_def set_urb_result_def release_channel_def disable_channel_irq_def
      DWHCIDeviceCompletionRoutine_def scheduler_complete_def Let_def
  by (intro keeps_intros; simp)+

lemma report_success_sig: "world_sig w = s \<Longrightarrow> keeps s world_sig (report_success c u w)"
  unfolding report_success_def
  by (intro keeps_bind(1)[of "stage_of w (unat c)"] keeps_seq(1) keeps_if keeps_basic simple_sig)

lemma TimerHandler_sig: "world_sig w = s \<Longrightarrow> keeps s world_sig (DWHCIDeviceTimerHandler i w)"
  unfolding DWHCIDeviceTimerHandler_def by (intro keeps_bind StartTransaction_sig) simp

lemma Async_sig: "world_sig w = s \<Longrightarrow> keepsr s world_sig (DWHCIDeviceTransferStageAsync u bIn bS w)"
  unfolding DWHCIDeviceTransferStageAsync_def Let_def
  by (intro keeps_prod keeps_if keeps_basic keeps_seq(2)[OF StartTransaction_sig] keeps_bind; simp)

text \<open>Driver code that leaves alone what the drivers' own worlds add, the devices and the endpoints.\<close>

definition drv_keeps :: "'a usb_world_scheme driver_code \<Rightarrow> bool" where
  "drv_keeps drv \<longleftrightarrow>
     (\<forall>n u p c w. keeps (world_sig w) world_sig (drv_completion drv n u p c w))
   \<and> (\<forall>n h p c w. keeps (world_sig w) world_sig (drv_timer drv n h p c w))"

lemma CallCompletion_sig: "\<lbrakk>drv_keeps drv; world_sig w = s\<rbrakk> \<Longrightarrow> keeps s world_sig (USBRequestCallCompletionRoutine drv u w)"
  unfolding USBRequestCallCompletionRoutine_def
  by (intro keeps_bind) (auto simp: drv_keeps_def intro: simple_sig split: TURBCompletionRoutine.splits)

lemma finish_stage_sig: "\<lbrakk>drv_keeps drv; world_sig w = s\<rbrakk> \<Longrightarrow> keeps s world_sig (finish_stage drv c u w)"
  unfolding finish_stage_def by (intro keeps_seq simple_sig CallCompletion_sig)

lemma fail_stage_sig: "\<lbrakk>drv_keeps drv; world_sig w = s\<rbrakk> \<Longrightarrow> keeps s world_sig (fail_stage drv c u w)"
  unfolding fail_stage_def by (intro keeps_seq simple_sig finish_stage_sig)

lemma leave_complete_split_sig: "\<lbrakk>drv_keeps drv; world_sig w = s\<rbrakk> \<Longrightarrow> keeps s world_sig (leave_complete_split drv c u w)"
  unfolding leave_complete_split_def Let_def
  by (intro keeps_bind(1)[of "stage_of w (unat c)"] keeps_if fail_stage_sig
      keeps_bind(1)[of "DWHCITransferStageDataIsPeriodic (w_store w) x" for x]
      keeps_bind(1)[of "begin_start_split x" for x] StartTransaction_sig delay_sig
      keeps_seq(1)[OF simple_sig(4)] keeps_seq(1)[OF report_success_sig] keeps_seq(1)[OF simple_sig(3)]
      CallCompletion_sig) simp_all

lemma success_sig:
  "\<lbrakk>drv_keeps drv; world_sig w = s\<rbrakk> \<Longrightarrow> keeps s world_sig (do { w \<leftarrow> report_success c u w; finish_stage drv c u w })"
  by (intro keeps_seq(1) report_success_sig finish_stage_sig)

lemma split_transition_sig:
  assumes "drv_keeps drv" and "world_sig w = s"
  shows "keeps s world_sig (do { (bMore, w) \<leftarrow> scheduler_complete i n b w;
     if bMore then DWHCIDeviceStartTransaction i w else leave_complete_split drv c u w })"
  using assms
  by (intro keepsr_bind(1)[OF simple_sig(6)])
     (auto intro!: StartTransaction_sig leave_complete_split_sig)

lemma stage_transition_sig: "\<lbrakk>drv_keeps drv; world_sig w = s\<rbrakk> \<Longrightarrow> keeps s world_sig (stage_transition drv c u w)"
  unfolding stage_transition_def Let_def
  apply (intro keeps_bind(1)[of "stage_of w (unat c)"])
  subgoal for x
    by (cases "DWHCITransferStageDataGetState x"; simp only: TStageState.case)
       (intro keeps_basic split_transition_sig keeps_if fail_stage_sig
         keeps_bind(1)[of "DWHCITransferStageDataGetTransactionStatus x"] delay_sig success_sig
         keeps_bind(1)[of "if a then b else d" for a b d]; assumption)+
  done

lemma keeps_step:
  "\<lbrakk>keeps s sig m; \<And>x. m = Some x \<Longrightarrow> sig x = s \<Longrightarrow> keeps s' sig' (f x)\<rbrakk> \<Longrightarrow> keeps s' sig' (Option.bind m f)"
  by (auto simp: keeps_def bind_Some_iff)

lemma SkipPID_sig: "keeps (ep_sig ep) ep_sig (USBEndpointSkipPID ep n b)"
proof (unfold keeps_def, intro allI impI)
  fix ep' assume "USBEndpointSkipPID ep n b = Some ep'"
  from skip_frame[OF this] have "ep_sig ep' = ep_sig (ep\<lparr>ep_NextPID := ep_NextPID ep'\<rparr>)" by simp
  then show "ep_sig ep' = ep_sig ep" by (simp add: ep_sig_def)
qed

lemma store_sig_update:
  "\<lbrakk>st_eps st a = Some ep; ep_sig ep' = ep_sig ep\<rbrakk>
   \<Longrightarrow> store_sig (st\<lparr>st_eps := (st_eps st)(a \<mapsto> ep')\<rparr>) = store_sig st"
  by (auto simp: store_sig_def fun_eq_iff)

lemma toggle_store_sig:
  "keeps (store_sig st) store_sig (do {
     ep \<leftarrow> deref (st_eps st) p; ep \<leftarrow> USBEndpointSkipPID ep n b; a \<leftarrow> p;
     Some (st\<lparr>st_eps := (st_eps st)(a \<mapsto> ep)\<rparr>) })"
  by (intro keeps_bind(1)[of "deref a b" for a b] keeps_step[OF SkipPID_sig] keeps_bind(1)[of p] keeps_basic)
     (auto simp: deref_Some store_sig_update)

lemma TransactionComplete_sig:
  "keeps (store_sig st) (\<lambda>(st', x'). store_sig st') (DWHCITransferStageDataTransactionComplete st x s pl bl)"
  unfolding DWHCITransferStageDataTransactionComplete_def Let_def
  by (intro keeps_if(1) keeps_basic keeps_step[where s = "store_sig st" and sig = store_sig] toggle_store_sig
      keeps_bind(1)[of "c_assert b" for b]; simp)

lemma ChannelInterruptHandler_sig:
  "\<lbrakk>drv_keeps drv; world_sig w = s\<rbrakk> \<Longrightarrow> keeps s world_sig (DWHCIDeviceChannelInterruptHandler drv c w)"
  unfolding DWHCIDeviceChannelInterruptHandler_def Let_def
  apply (intro keeps_bind(1))
  subgoal for x u
    by (cases "DWHCITransferStageDataGetSubState x"; simp only: TStageSubState.case)
       (intro keeps_basic StartChannel_sig StartTransaction_sig keeps_if keeps_prod(1) keeps_step[OF TransactionComplete_sig]
         keeps_bind(1) stage_transition_sig; (assumption | simp add: world_sig_store))+
  done

lemma channel_scan_sig:
  "\<lbrakk>drv_keeps drv; world_sig w = s\<rbrakk> \<Longrightarrow> keeps s world_sig (channel_scan drv nAll c m w)"
proof (induction drv nAll c m w rule: channel_scan.induct)
  case (1 drv nAll c m w)
  show ?case
    using 1
    by (subst channel_scan.simps)
       (intro keeps_if(1) keeps_basic keeps_step[where sig = world_sig and s = s] keeps_bind(1)[of "DWHCIRegisterWrite a b" for a b]
          ChannelInterruptHandler_sig; simp)
qed

lemma InterruptHandler_sig:
  "\<lbrakk>drv_keeps drv; world_sig w = s\<rbrakk> \<Longrightarrow> keeps s world_sig (DWHCIDeviceInterruptHandler drv w)"
  unfolding DWHCIDeviceInterruptHandler_def Let_def
  by (intro keeps_prod(1) keeps_step[where sig = world_sig and s = s] keeps_if(1) keeps_basic
      keeps_bind(1)[of "DWHCIRegisterWrite a b" for a b] channel_scan_sig; simp)

lemma call_timer_handler_sig:
  "\<lbrakk>drv_keeps drv; world_sig w = s\<rbrakk> \<Longrightarrow> keeps s world_sig (call_timer_handler drv f h p c w)"
  unfolding call_timer_handler_def
  by (cases f) (auto simp: drv_keeps_def intro!: keeps_bind TimerHandler_sig keeps_basic)

lemma poll_from_sig:
  fixes w :: "'a usb_world_scheme"
  assumes "\<And>f h p c w. keeps (world_sig w) world_sig (callf f h p c w)" and "world_sig w = s"
  shows "keeps s world_sig (poll_from callf n w)"
  using assms
proof (induction callf n w rule: poll_from.induct)
  case (1 callf n w)
  have call: "keeps s' world_sig (callf f h p c v)" if "world_sig v = s'" for f h p c v s'
    using 1(2)[of v] that by simp
  show ?case
    using 1(1,2,3) unfolding poll_from.simps[of callf n w]
    by (intro keeps_if(1) keeps_basic keeps_bind(1)[of "array_get a b" for a b]
        keeps_step[where sig = world_sig and s = s])
       (auto split: option.split intro!: keeps_if(1) keeps_basic call)
qed

lemma take_interrupt_sig:
  assumes "drv_keeps drv" and "world_sig w = s"
  shows "keeps s world_sig (take_interrupt drv e w)"
proof (cases e)
  case UsbInterrupt
  then show ?thesis using InterruptHandler_sig[OF assms] by (simp add: take_interrupt_def)
next
  case TimerInterrupt
  have "keeps (world_sig w) world_sig (call_timer_handler drv f h p c w)" for f h p c and w :: "'a usb_world_scheme"
    using call_timer_handler_sig[OF assms(1) refl] .
  then show ?thesis
    using assms(2) unfolding TimerInterrupt take_interrupt_def usb_event.case TimerInterruptHandler_def Let_def
      TimerPollKernelTimers_def
    by (intro keeps_prod(1) keeps_bind(1) poll_from_sig) simp_all
qed

lemma wait_done_sig:
  assumes "wait_done drv w = Some w'" and "drv_keeps drv"
  shows "world_sig w' = world_sig w"
proof -
  have "drv_keeps drv \<longrightarrow> world_sig w' = world_sig w"
  proof (rule wait_done.raw_induct[where P="\<lambda>drv w w'. drv_keeps drv \<longrightarrow> world_sig w' = world_sig w", OF _ assms(1)],
      intro impI)
    fix f drv and w w' :: "'a usb_world_scheme"
    assume IH: "\<And>drv w w'. f drv w = Some w' \<Longrightarrow> drv_keeps drv \<longrightarrow> world_sig w' = world_sig w"
      and r: "(if hd_bWaiting (w_host w) then do {
          w \<leftarrow> take_interrupt drv (w_events w (w_evpos w)) (w\<lparr>w_evpos := w_evpos w + 1\<rparr>);
          f drv w } else Some w) = Some w'" and d: "drv_keeps drv"
    have k: "keeps (world_sig w) world_sig (take_interrupt drv (w_events w (w_evpos w)) (w\<lparr>w_evpos := w_evpos w + 1\<rparr>))"
      using d by (intro take_interrupt_sig) simp_all
    from r show "world_sig w' = world_sig w"
      using k d by (auto simp: bind_Some_iff keeps_def dest!: IH split: if_splits)
  qed
  with assms(2) show ?thesis by blast
qed

lemma TransferStage_sig:
  assumes "drv_keeps drv" and "world_sig w = s"
  shows "keepsr s world_sig (DWHCIDeviceTransferStage drv u bIn bS w)"
  using assms unfolding DWHCIDeviceTransferStage_def Let_def
  by (intro keeps_bind(2)[of "urb_of a b" for a b] keeps_bind(2)[of "USBRequestSetCompletionRoutine a b c d" for a b c d]
      keeps_bind(2)[of "c_assert b" for b] keepsr_bind(2)[OF Async_sig])
     (auto intro!: keeps_intros dest: wait_done_sig)

lemma then_stage_sig:
  "\<lbrakk>keepsr s sig m; \<And>w. sig w = s \<Longrightarrow> keepsr s sig (f w)\<rbrakk> \<Longrightarrow> keepsr s sig (then_stage m f)"
  unfolding then_stage_def by (auto intro!: keepsr_bind(2) keeps_basic)

lemma SubmitBlocking_sig:
  assumes "drv_keeps drv" and "world_sig w = s"
  shows "keepsr s world_sig (DWHCIDeviceSubmitBlockingRequest drv u w)"
  using assms unfolding DWHCIDeviceSubmitBlockingRequest_def
  by (intro keeps_seq(2)[OF simple_sig(1)] keeps_bind(2) keeps_prod(2) keeps_if(2) then_stage_sig TransferStage_sig)

lemma ControlMessage_sig:
  assumes "drv_keeps drv" and "world_sig w = s"
  shows "keepsr s world_sig (DWHCIDeviceControlMessage drv u pS ep t rq v i p n w)"
  using assms unfolding DWHCIDeviceControlMessage_def
  by (intro keepsr_bind(2)[OF SubmitBlocking_sig] keeps_bind(2) keeps_prod(2) keeps_basic) simp_all

lemma Transfer_sig:
  assumes "drv_keeps drv" and "world_sig w = s"
  shows "keepsr s world_sig (DWHCIDeviceTransfer drv u ep p n w)"
  using assms unfolding DWHCIDeviceTransfer_def
  by (intro keepsr_bind(2)[OF SubmitBlocking_sig] keeps_bind(2) keeps_prod(2) keeps_basic) simp_all

lemma no_driver_keeps: "drv_keeps no_driver"
  by (simp add: drv_keeps_def keeps_def no_driver_def)

section \<open>Properties\<close>

text \<open>
  Claim C24. What a blocking request may change.  If the completion routines and timer handlers of the drivers
  keep to their own data, then a blocking request that returns, with all the interrupts taken while it
  waited, has left every device object and every endpoint as it was except for endpoints' data
  toggles; in particular no endpoint appears, disappears, turns around or changes its packet size.
\<close>

theorem blocking_request_frame:
  assumes "drv_keeps drv" and "DWHCIDeviceSubmitBlockingRequest drv u w = Some (ok, w')"
  shows "st_devs (w_store w') = st_devs (w_store w) \<and> usb_world.more w' = usb_world.more w
    \<and> (\<forall>a. (st_eps (w_store w') a = None \<longleftrightarrow> st_eps (w_store w) a = None)
       \<and> (\<forall>ep ep'. st_eps (w_store w) a = Some ep \<longrightarrow> st_eps (w_store w') a = Some ep'
            \<longrightarrow> ep' = ep\<lparr>ep_NextPID := ep_NextPID ep'\<rparr>))"
proof -
  have s: "world_sig w' = world_sig w"
    using SubmitBlocking_sig[OF assms(1) refl, of w u] assms(2) by (simp add: keepsr_def)
  then have e: "map_option ep_sig (st_eps (w_store w') a) = map_option ep_sig (st_eps (w_store w) a)" for a
    by (auto simp: world_sig_def store_sig_def fun_eq_iff)
  have "ep' = ep\<lparr>ep_NextPID := ep_NextPID ep'\<rparr>" if "ep_sig ep' = ep_sig ep" for ep ep'
    using that by (cases ep; cases ep') (simp add: ep_sig_def)
  moreover have "st_eps (w_store w') a = None \<longleftrightarrow> st_eps (w_store w) a = None" for a
    using e[of a] by (metis map_option_is_None)
  moreover have "ep_sig ep' = ep_sig ep"
    if "st_eps (w_store w) a = Some ep" "st_eps (w_store w') a = Some ep'" for a ep ep'
    using e[of a] that by simp
  ultimately show ?thesis using s by (simp add: world_sig_def store_sig_def)
qed

theorem blocking_request_frame_witness:
  "\<exists>w' ep'. DWHCIDeviceSubmitBlockingRequest no_driver 7 idle_world = Some (True, w')
     \<and> st_devs (w_store w') = st_devs (w_store idle_world) \<and> st_eps (w_store w') 2 = Some ep'
     \<and> ep_nMaxPacketSize ep' = 8"
proof -
  from idle_world_run obtain w' where
    r: "DWHCIDeviceSubmitBlockingRequest no_driver 7 idle_world = Some (True, w')" by auto
  obtain ep where ep: "st_eps (w_store idle_world) 2 = Some ep" "ep_nMaxPacketSize ep = 8"
    by (simp add: idle_world_def fast_simps)
  note frame = blocking_request_frame[OF no_driver_keeps r]
  obtain ep' where ep': "st_eps (w_store w') 2 = Some ep'" using frame ep(1) by fastforce
  with frame ep(1) have "ep' = ep\<lparr>ep_NextPID := ep_NextPID ep'\<rparr>" by blast
  then have "ep_nMaxPacketSize ep' = ep_nMaxPacketSize (ep\<lparr>ep_NextPID := ep_NextPID ep'\<rparr>)" by simp
  with r frame ep(2) ep' show ?thesis by simp
qed

end
