(* ===== verification/ConfigParser.thy ===== *)
theory ConfigParser
  imports UsbModel
begin

text \<open>
  The configuration descriptor parser (\<^verbatim>\<open>ext/uspi/lib/usbconfigparser.c\<close>).  The constructor
  walks once over the descriptors a device has returned and decides whether they are valid;
  afterwards function drivers pull descriptors out with
  \<^verbatim>\<open>USBConfigurationParserGetDescriptor\<close>.

  The buffer is the list of bytes that may be read; a pointer into it is an offset.  A read
  outside the buffer, like a failed assertion, is the outcome \<open>Fault\<close>.  Both loops advance by a
  length taken from the device, so they need not end: they are partial functions, and \<open>None\<close> is a
  call that never returns.
\<close>

datatype 'a outcome = Fault | Done 'a

record TUSBConfigurationParser =
  cp_pBuffer :: "u8 list option"
  cp_nBufLen :: u32
  cp_bValid :: bool
  cp_pEndPosition :: nat
  cp_pNextPosition :: nat
  cp_pCurrentDescriptor :: "nat option"
  cp_pErrorPosition :: nat

section \<open>The constructor\<close>

definition rd16 :: "u8 list \<Rightarrow> nat \<Rightarrow> u16 option" where
  "rd16 buf i = do { lo \<leftarrow> array_get buf i; hi \<leftarrow> array_get buf (i + 1);
                     Some (ucast lo OR push_bit 8 (ucast hi)) }"

text \<open>
  One round of the loop: the descriptor at \<open>cur\<close> is refused (\<open>Inl\<close> the error position) or accepted
  with the next position, its type and the audio flag.
\<close>

definition parse_step ::
    "u8 list \<Rightarrow> nat \<Rightarrow> nat \<Rightarrow> u8 \<Rightarrow> bool \<Rightarrow> (nat + nat \<times> u8 \<times> bool) option" where
  "parse_step buf pEnd cur ucLastDescType bInAudioInterface = do {
     ucDescLen \<leftarrow> array_get buf cur;
     ucDescType \<leftarrow> array_get buf (cur + 1);
     let pDescEnd = cur + unat ucDescLen;
     if pDescEnd > pEnd then Some (Inl cur)
     else do {
       r \<leftarrow> (if ucDescType = DESCRIPTOR_CONFIGURATION then
              Some (if ucLastDescType \<noteq> 0 then Inl cur
                    else Inr (sizeof_TUSBConfigurationDescriptor, bInAudioInterface))
            else if ucDescType = DESCRIPTOR_INTERFACE then
              (if ucLastDescType = 0 then Some (Inl cur)
               else do { bInterfaceClass \<leftarrow> array_get buf (cur + 5);
                         Some (Inr (sizeof_TUSBInterfaceDescriptor, bInterfaceClass = 0x01)) })
            else if ucDescType = DESCRIPTOR_ENDPOINT then
              Some (if ucLastDescType = 0 \<or> ucLastDescType = DESCRIPTOR_CONFIGURATION then Inl cur
                    else Inr (if bInAudioInterface then sizeof_TUSBAudioEndpointDescriptor
                              else sizeof_TUSBEndpointDescriptor, bInAudioInterface))
            else Some (Inr (0, bInAudioInterface)));
       Some (case r of
           Inl e \<Rightarrow> Inl e
         | Inr (ucExpectedLen, bAudio) \<Rightarrow>
             if ucExpectedLen \<noteq> 0 \<and> ucDescLen \<noteq> ucExpectedLen then Inl cur
             else Inr (pDescEnd, ucDescType, bAudio)) } }"

partial_function (option) parse_loop ::
    "u8 list \<Rightarrow> nat \<Rightarrow> nat \<Rightarrow> u8 \<Rightarrow> bool \<Rightarrow> (nat + nat) outcome option" where
  "parse_loop buf pEnd cur ucLastDescType bInAudioInterface =
     (if cur + 2 < pEnd
      then (case parse_step buf pEnd cur ucLastDescType bInAudioInterface of
              None \<Rightarrow> Some Fault
            | Some (Inl e) \<Rightarrow> Some (Done (Inl e))
            | Some (Inr (cur', last', audio')) \<Rightarrow> parse_loop buf pEnd cur' last' audio')
      else Some (Done (Inr cur)))"

text \<open>The whole constructor; \<open>buf\<close> is the memory at \<^verbatim>\<open>pBuffer\<close>.\<close>

definition USBConfigurationParser ::
    "u8 list option \<Rightarrow> u32 \<Rightarrow> TUSBConfigurationParser outcome option" where
  "USBConfigurationParser pBuffer nBufLen =
     (case pBuffer of
        None \<Rightarrow> Some Fault
      | Some buf \<Rightarrow>
        (let this = \<lparr>cp_pBuffer = pBuffer, cp_nBufLen = nBufLen, cp_bValid = False,
                     cp_pEndPosition = unat nBufLen, cp_pNextPosition = 0,
                     cp_pCurrentDescriptor = None, cp_pErrorPosition = 0\<rparr>
         in if nBufLen < 4 \<or> nBufLen > 512 then Some (Done this)
            else (case do { bLength \<leftarrow> array_get buf 0; bType \<leftarrow> array_get buf 1;
                            wTotal \<leftarrow> rd16 buf 2; Some (bLength, bType, wTotal) } of
                None \<Rightarrow> Some Fault
              | Some (bLength, bType, wTotal) \<Rightarrow>
                if bLength \<noteq> sizeof_TUSBConfigurationDescriptor \<or> bType \<noteq> DESCRIPTOR_CONFIGURATION
                   \<or> unat wTotal > unat nBufLen then Some (Done this)
                else let pEnd = (if unat wTotal < unat nBufLen then unat wTotal else unat nBufLen);
                         this = this\<lparr>cp_pEndPosition := pEnd\<rparr>
                     in map_option (\<lambda>r. case r of
                            Fault \<Rightarrow> Fault
                          | Done (Inl e) \<Rightarrow> Done (this\<lparr>cp_pErrorPosition := e\<rparr>)
                          | Done (Inr cur) \<Rightarrow>
                              if cur \<noteq> pEnd then Done (this\<lparr>cp_pErrorPosition := cur\<rparr>)
                              else Done (this\<lparr>cp_bValid := True\<rparr>))
                          (parse_loop buf pEnd 0 0 False))))"

definition USBConfigurationParserCopy :: "TUSBConfigurationParser \<Rightarrow> TUSBConfigurationParser" where
  "USBConfigurationParserCopy p =
     \<lparr>cp_pBuffer = cp_pBuffer p, cp_nBufLen = cp_nBufLen p, cp_bValid = cp_bValid p,
      cp_pEndPosition = cp_pEndPosition p, cp_pNextPosition = cp_pNextPosition p,
      cp_pCurrentDescriptor = cp_pCurrentDescriptor p, cp_pErrorPosition = cp_pErrorPosition p\<rparr>"

definition USBConfigurationParser_dtor :: "TUSBConfigurationParser \<Rightarrow> TUSBConfigurationParser" where
  "USBConfigurationParser_dtor p = p\<lparr>cp_pBuffer := None\<rparr>"

definition USBConfigurationParserIsValid :: "TUSBConfigurationParser \<Rightarrow> bool" where
  "USBConfigurationParserIsValid p = cp_bValid p"

section \<open>Pulling descriptors\<close>

text \<open>The loop returns the descriptor found, if any, and the new \<^verbatim>\<open>m_pNextPosition\<close>.\<close>

partial_function (option) get_loop ::
    "u8 list \<Rightarrow> nat \<Rightarrow> u8 \<Rightarrow> nat \<Rightarrow> (nat option \<times> nat) outcome option" where
  "get_loop buf pEnd ucType pNext =
     (if pNext < pEnd
      then (case do { ucDescLen \<leftarrow> array_get buf pNext; ucDescType \<leftarrow> array_get buf (pNext + 1);
                      c_assert (pNext + unat ucDescLen \<le> pEnd); Some (ucDescLen, ucDescType) } of
              None \<Rightarrow> Some Fault
            | Some (ucDescLen, ucDescType) \<Rightarrow>
                if ucType = DESCRIPTOR_ENDPOINT \<and> ucDescType = DESCRIPTOR_INTERFACE
                then Some (Done (None, pNext))
                else if ucDescType = ucType
                then Some (Done (Some pNext, pNext + unat ucDescLen))
                else get_loop buf pEnd ucType (pNext + unat ucDescLen))
      else Some (Done (None, pNext)))"

definition USBConfigurationParserGetDescriptor ::
    "TUSBConfigurationParser \<Rightarrow> u8 \<Rightarrow> (nat option \<times> TUSBConfigurationParser) outcome option" where
  "USBConfigurationParserGetDescriptor p ucType =
     (if \<not> cp_bValid p then Some Fault
      else (case cp_pBuffer p of
          None \<Rightarrow> Some Fault
        | Some buf \<Rightarrow>
          map_option (\<lambda>r. case r of
              Fault \<Rightarrow> Fault
            | Done (pResult, pNext) \<Rightarrow>
                Done (pResult, p\<lparr>cp_pNextPosition := pNext,
                                 cp_pErrorPosition := (case pResult of None \<Rightarrow> cp_pErrorPosition p
                                                                     | Some q \<Rightarrow> q),
                                 cp_pCurrentDescriptor := pResult\<rparr>))
            (get_loop buf (cp_pEndPosition p) ucType (cp_pNextPosition p))))"

definition USBConfigurationParserGetCurrentDescriptor ::
    "TUSBConfigurationParser \<Rightarrow> nat option" where
  "USBConfigurationParserGetCurrentDescriptor p = do {
     c_assert (cp_bValid p); cp_pCurrentDescriptor p }"

text \<open>The offset reported by \<^verbatim>\<open>USBConfigurationParserError\<close>.\<close>

definition USBConfigurationParserError :: "TUSBConfigurationParser \<Rightarrow> u32" where
  "USBConfigurationParserError p = of_nat (cp_pErrorPosition p)"

section \<open>What a valid configuration is\<close>

text \<open>
  \<open>descs buf e cur lt audio ds\<close>: from offset \<open>cur\<close> on, the buffer holds the descriptors \<open>ds\<close>
  (offset, length, type) back to back up to the end \<open>e\<close>, each in an admissible place and with the
  length its type asks for.  The rule needs three bytes before the end, as the loop does.
\<close>

type_synonym desc = "nat \<times> u8 \<times> u8"

definition order_ok :: "u8 \<Rightarrow> u8 \<Rightarrow> bool" where
  "order_ok ty lt \<longleftrightarrow>
     (ty = DESCRIPTOR_CONFIGURATION \<longrightarrow> lt = 0) \<and> (ty = DESCRIPTOR_INTERFACE \<longrightarrow> lt \<noteq> 0)
     \<and> (ty = DESCRIPTOR_ENDPOINT \<longrightarrow> lt \<noteq> 0 \<and> lt \<noteq> DESCRIPTOR_CONFIGURATION)"

definition len_ok :: "u8 \<Rightarrow> bool \<Rightarrow> u8 \<Rightarrow> bool" where
  "len_ok ty audio len \<longleftrightarrow>
     (ty = DESCRIPTOR_CONFIGURATION \<longrightarrow> len = 9) \<and> (ty = DESCRIPTOR_INTERFACE \<longrightarrow> len = 9)
     \<and> (ty = DESCRIPTOR_ENDPOINT \<longrightarrow> len = (if audio then 9 else 7))"

definition next_audio :: "u8 list \<Rightarrow> nat \<Rightarrow> u8 \<Rightarrow> bool \<Rightarrow> bool" where
  "next_audio buf cur ty audio =
     (if ty = DESCRIPTOR_INTERFACE then buf ! (cur + 5) = 0x01 else audio)"

inductive descs :: "u8 list \<Rightarrow> nat \<Rightarrow> nat \<Rightarrow> u8 \<Rightarrow> bool \<Rightarrow> desc list \<Rightarrow> bool" for buf e where
  descs_end: "descs buf e e lt audio []"
| descs_step: "\<lbrakk> cur + 2 < e; e \<le> length buf; len = buf ! cur; ty = buf ! (cur + 1);
     cur + unat len \<le> e; order_ok ty lt; len_ok ty audio len;
     descs buf e (cur + unat len) ty (next_audio buf cur ty audio) ds \<rbrakk>
   \<Longrightarrow> descs buf e cur lt audio ((cur, len, ty) # ds)"

inductive_cases descs_NilE: "descs buf e cur lt audio []"
inductive_cases descs_ConsE: "descs buf e cur lt audio (d # ds)"

lemma parse_step_Inr:
  assumes "cur + 2 < e" and "e \<le> length buf"
  shows "parse_step buf e cur lt audio = Some (Inr (c, t, a)) \<longleftrightarrow>
     c = cur + unat (buf ! cur) \<and> c \<le> e \<and> t = buf ! (cur + 1) \<and> order_ok t lt
     \<and> len_ok t audio (buf ! cur) \<and> a = next_audio buf cur t audio"
proof -
  have "cur < length buf" "Suc cur < length buf"
    using assms by simp_all
  moreover have "cur + 5 < length buf" if "cur + unat (buf ! cur) \<le> e" "buf ! cur = 9"
    using that assms by simp
  ultimately show ?thesis
    by (auto simp: parse_step_def order_ok_def len_ok_def next_audio_def usb_consts
        array_get_def Let_def split: if_splits)
qed

lemma descs_at_end_or_positive:
  "descs buf e cur lt audio ds \<Longrightarrow> (ds = [] \<and> cur = e) \<or> (cur < e \<and> buf ! cur \<noteq> 0)"
  by (induction rule: descs.induct) auto

lemma descs_lengths:
  "descs buf e cur lt audio ds \<Longrightarrow> (off, len, ty) \<in> set ds
   \<Longrightarrow> cur \<le> off \<and> off + unat len \<le> e \<and> off + 2 < e \<and> len \<noteq> 0 \<and> len = buf ! off \<and> ty = buf ! (off + 1)"
proof (induction rule: descs.induct)
  case (descs_step cur len ty lt audio ds)
  from descs_at_end_or_positive[OF descs.descs_step[OF descs_step.hyps]]
  have "len \<noteq> 0" using descs_step.hyps by simp
  with descs_step show ?case by fastforce
qed simp

lemma parse_loop_of_descs:
  "descs buf e cur lt audio ds \<Longrightarrow> parse_loop buf e cur lt audio = Some (Done (Inr e))"
proof (induction rule: descs.induct)
  case (descs_end lt audio)
  then show ?case by (simp add: parse_loop.simps)
next
  case (descs_step cur len ty lt audio ds)
  then have "parse_step buf e cur lt audio
      = Some (Inr (cur + unat len, ty, next_audio buf cur ty audio))"
    by (subst parse_step_Inr) auto
  with descs_step show ?case by (subst parse_loop.simps) simp
qed

lemma descs_of_parse_loop:
  assumes ret: "parse_loop buf e cur lt audio = Some r"
  shows "e \<le> length buf \<longrightarrow> r = Done (Inr e) \<longrightarrow> (\<exists>ds. descs buf e cur lt audio ds)"
proof (rule parse_loop.raw_induct
    [where P = "\<lambda>buf e cur lt audio r. e \<le> length buf \<longrightarrow> r = Done (Inr e) \<longrightarrow> (\<exists>ds. descs buf e cur lt audio ds)",
     OF _ ret])
  fix f :: "u8 list \<Rightarrow> nat \<Rightarrow> nat \<Rightarrow> u8 \<Rightarrow> bool \<Rightarrow> (nat + nat) outcome option"
  fix buf e cur lt audio r
  assume IH: "\<And>buf e cur lt audio r. f buf e cur lt audio = Some r \<Longrightarrow>
      e \<le> length buf \<longrightarrow> r = Done (Inr e) \<longrightarrow> (\<exists>ds. descs buf e cur lt audio ds)"
    and eq: "(if cur + 2 < e
      then (case parse_step buf e cur lt audio of
              None \<Rightarrow> Some Fault
            | Some (Inl e) \<Rightarrow> Some (Done (Inl e))
            | Some (Inr (cur', last', audio')) \<Rightarrow> f buf e cur' last' audio')
      else Some (Done (Inr cur))) = Some r"
  show "e \<le> length buf \<longrightarrow> r = Done (Inr e) \<longrightarrow> (\<exists>ds. descs buf e cur lt audio ds)"
  proof (intro impI)
    assume le: "e \<le> length buf" and r: "r = Done (Inr e)"
    show "\<exists>ds. descs buf e cur lt audio ds"
    proof (cases "cur + 2 < e")
      case False
      with eq r show ?thesis by (auto intro: descs.descs_end)
    next
      case True
      with eq r obtain c t a where step: "parse_step buf e cur lt audio = Some (Inr (c, t, a))"
        and rest: "f buf e c t a = Some r"
        by (auto split: option.splits sum.splits)
      from IH[OF rest] le r obtain ds where "descs buf e c t a ds" by blast
      with step[unfolded parse_step_Inr[OF True le]] True le show ?thesis
        by (blast intro: descs.descs_step)
    qed
  qed
qed

lemma parse_loop_iff_descs:
  assumes "e \<le> length buf"
  shows "parse_loop buf e cur lt audio = Some (Done (Inr e)) \<longleftrightarrow> (\<exists>ds. descs buf e cur lt audio ds)"
  using descs_of_parse_loop assms parse_loop_of_descs by blast

section \<open>Zero-length descriptors\<close>

text \<open>
  A descriptor of length zero whose type the constructor does not check leaves the position where
  it is, and the loop runs forever.
\<close>

definition stuck_at :: "u8 list \<Rightarrow> nat \<Rightarrow> nat \<Rightarrow> bool" where
  "stuck_at buf e cur \<longleftrightarrow> cur + 2 < e \<and> e \<le> length buf \<and> buf ! cur = 0
     \<and> buf ! (cur + 1) \<notin> {DESCRIPTOR_CONFIGURATION, DESCRIPTOR_INTERFACE, DESCRIPTOR_ENDPOINT}"

lemma stuck_step:
  assumes "stuck_at buf e cur"
  shows "parse_step buf e cur lt audio = Some (Inr (cur, buf ! (cur + 1), audio))"
  using assms
  by (subst parse_step_Inr) (auto simp: stuck_at_def order_ok_def len_ok_def next_audio_def)

lemma stuck_diverges:
  assumes "stuck_at buf e cur"
  shows "parse_loop buf e cur lt audio = None"
proof (rule ccontr)
  assume "parse_loop buf e cur lt audio \<noteq> None"
  then obtain r where ret: "parse_loop buf e cur lt audio = Some r" by blast
  have "\<not> stuck_at buf e cur"
  proof (rule parse_loop.raw_induct [where P = "\<lambda>buf e cur lt audio r. \<not> stuck_at buf e cur", OF _ ret])
    fix f :: "u8 list \<Rightarrow> nat \<Rightarrow> nat \<Rightarrow> u8 \<Rightarrow> bool \<Rightarrow> (nat + nat) outcome option"
    fix buf e cur lt audio r
    assume IH: "\<And>buf e cur lt audio r. f buf e cur lt audio = Some r \<Longrightarrow> \<not> stuck_at buf e cur"
      and eq: "(if cur + 2 < e
        then (case parse_step buf e cur lt audio of
                None \<Rightarrow> Some Fault
              | Some (Inl e) \<Rightarrow> Some (Done (Inl e))
              | Some (Inr (cur', last', audio')) \<Rightarrow> f buf e cur' last' audio')
        else Some (Done (Inr cur))) = Some r"
    show "\<not> stuck_at buf e cur"
    proof
      assume st: "stuck_at buf e cur"
      then have "cur + 2 < e" by (simp add: stuck_at_def)
      with eq stuck_step[OF st] have "f buf e cur (buf ! (cur + 1)) audio = Some r" by simp
      from IH[OF this] st show False by simp
    qed
  qed
  with assms show False by simp
qed

section \<open>Properties\<close>

lemma outcome_sum_cases:
  obtains "r = Fault" | e where "r = Done (Inl e)" | c where "r = Done (Inr c)"
  by (metis outcome.exhaust sum.exhaust)

definition wTotalLength_of :: "u8 list \<Rightarrow> nat" where
  "wTotalLength_of buf = unat (ucast (buf ! 2) OR push_bit 8 (ucast (buf ! 3)) :: u16)"

definition config_header_ok :: "u8 list \<Rightarrow> bool" where
  "config_header_ok buf \<longleftrightarrow> buf ! 0 = 9 \<and> buf ! 1 = DESCRIPTOR_CONFIGURATION
     \<and> wTotalLength_of buf \<le> length buf"

lemma USBConfigurationParser_run:
  assumes "length buf = unat n" and "4 \<le> n" and "n \<le> 512"
  shows "USBConfigurationParser (Some buf) n =
    (let this = \<lparr>cp_pBuffer = Some buf, cp_nBufLen = n, cp_bValid = False,
                 cp_pEndPosition = unat n, cp_pNextPosition = 0,
                 cp_pCurrentDescriptor = None, cp_pErrorPosition = 0\<rparr>;
         e = wTotalLength_of buf;
         that = this\<lparr>cp_pEndPosition := e\<rparr>
     in if \<not> config_header_ok buf then Some (Done this)
        else map_option (\<lambda>r. case r of
               Fault \<Rightarrow> Fault
             | Done (Inl p) \<Rightarrow> Done (that\<lparr>cp_pErrorPosition := p\<rparr>)
             | Done (Inr c) \<Rightarrow> Done (if c \<noteq> e then that\<lparr>cp_pErrorPosition := c\<rparr>
                                     else that\<lparr>cp_bValid := True\<rparr>))
             (parse_loop buf e 0 0 False))"
proof -
  have "4 \<le> length buf" "length buf \<le> 512"
    using assms by (simp_all add: word_le_nat_alt)
  moreover from this have "rd16 buf 2 = Some (ucast (buf ! 2) OR push_bit 8 (ucast (buf ! 3)))"
    by (simp add: rd16_def array_get_def)
  moreover have "\<not> n < 4" "\<not> n > 512"
    using assms by auto
  ultimately show ?thesis
    using assms(1)
    by (auto simp: USBConfigurationParser_def array_get_def config_header_ok_def wTotalLength_of_def
        Let_def usb_consts if_distrib[of Done] cong: if_cong
        intro!: map_option_cong split: outcome.splits sum.splits)
qed

text \<open>
  Claim C6. The constructor accepts exactly the configurations of the descriptor grammar: for a
  buffer of an admissible size it returns a valid parser if and only if the header is a
  configuration descriptor whose total length fits the buffer and the bytes up to that length are
  a sequence of descriptors as \<open>descs\<close> describes it.
\<close>

theorem config_parser_accepts_iff:
  assumes "length buf = unat n" and "4 \<le> n" and "n \<le> 512"
  shows "(\<exists>p. USBConfigurationParser (Some buf) n = Some (Done p) \<and> USBConfigurationParserIsValid p)
     \<longleftrightarrow> config_header_ok buf \<and> (\<exists>ds. descs buf (wTotalLength_of buf) 0 0 False ds)"
proof (cases "config_header_ok buf")
  case False
  then show ?thesis
    by (simp add: USBConfigurationParser_run[OF assms] USBConfigurationParserIsValid_def Let_def)
next
  case True
  then have le: "wTotalLength_of buf \<le> length buf"
    by (simp add: config_header_ok_def)
  let ?e = "wTotalLength_of buf"
  have "(\<exists>p. USBConfigurationParser (Some buf) n = Some (Done p) \<and> USBConfigurationParserIsValid p)
      \<longleftrightarrow> parse_loop buf ?e 0 0 False = Some (Done (Inr ?e))"
  proof (cases "parse_loop buf ?e 0 0 False")
    case None
    with True show ?thesis
      by (simp add: USBConfigurationParser_run[OF assms] Let_def)
  next
    case (Some r)
    with True show ?thesis
      by (cases r rule: outcome_sum_cases)
         (simp_all add: USBConfigurationParser_run[OF assms] USBConfigurationParserIsValid_def Let_def)
  qed
  with True show ?thesis
    by (simp add: parse_loop_iff_descs[OF le])
qed

text \<open>A keyboard-like configuration: one interface with one interrupt endpoint.\<close>

definition sample_config :: "u8 list" where
  "sample_config = [9, 2, 25, 0, 1, 1, 0, 0x80, 50, 9, 4, 0, 0, 1, 3, 1, 1, 0, 7, 5, 0x81, 3, 8, 0, 10]"

lemma sample_config_descs:
  "descs sample_config 25 0 0 False [(0, 9, 2), (9, 9, 4), (18, 7, 5)]"
proof -
  note defs = sample_config_def order_ok_def len_ok_def next_audio_def usb_consts
  have 1: "descs sample_config 25 25 5 False []"
    by (rule descs.descs_end)
  have 2: "descs sample_config 25 18 4 False [(18, 7, 5)]"
    by (rule descs.descs_step) (use 1 in \<open>simp_all add: defs\<close>)
  have 3: "descs sample_config 25 9 2 False [(9, 9, 4), (18, 7, 5)]"
    by (rule descs.descs_step) (use 2 in \<open>simp_all add: defs\<close>)
  show ?thesis
    by (rule descs.descs_step) (use 3 in \<open>simp_all add: defs\<close>)
qed

theorem config_parser_accepts_iff_witness:
  "length sample_config = unat (25 :: u32) \<and>
   (\<exists>p. USBConfigurationParser (Some sample_config) 25 = Some (Done p)
        \<and> USBConfigurationParserIsValid p)"
proof -
  have len: "length sample_config = unat (25 :: u32)"
    by (simp add: sample_config_def)
  have tot: "wTotalLength_of sample_config = 25"
    by (simp add: wTotalLength_of_def sample_config_def)
  have hdr: "config_header_ok sample_config"
    by (simp add: config_header_ok_def tot) (simp add: sample_config_def usb_consts)
  from len config_parser_accepts_iff[OF len] hdr tot sample_config_descs show ?thesis by auto
qed

text \<open>
  The abstract parser: the list of descriptors that are still to come.  Asking for a type skips
  the descriptors of other types; asking for an endpoint stops in front of the next interface.
\<close>

fun next_desc :: "u8 \<Rightarrow> desc list \<Rightarrow> desc option \<times> desc list" where
  "next_desc t [] = (None, [])"
| "next_desc t ((off, len, ty) # ds) =
     (if t = DESCRIPTOR_ENDPOINT \<and> ty = DESCRIPTOR_INTERFACE then (None, (off, len, ty) # ds)
      else if ty = t then (Some (off, len, ty), ds)
      else next_desc t ds)"

definition parser_ok :: "TUSBConfigurationParser \<Rightarrow> desc list \<Rightarrow> bool" where
  "parser_ok p ds \<longleftrightarrow> cp_bValid p
     \<and> (\<exists>buf lt audio. cp_pBuffer p = Some buf
          \<and> descs buf (cp_pEndPosition p) (cp_pNextPosition p) lt audio ds)"

lemma get_loop_refines:
  assumes "descs buf e cur lt audio ds"
  shows "\<exists>cur' lt' audio'. get_loop buf e t cur
           = Some (Done (map_option fst (fst (next_desc t ds)), cur'))
         \<and> descs buf e cur' lt' audio' (snd (next_desc t ds))"
  using assms
proof (induction rule: descs.induct)
  case (descs_end lt audio)
  then show ?case by (auto simp: get_loop.simps intro: descs.descs_end)
next
  case (descs_step cur len ty lt audio ds)
  note here = descs.descs_step[OF descs_step.hyps]
  have loop: "get_loop buf e t cur =
      (if t = DESCRIPTOR_ENDPOINT \<and> ty = DESCRIPTOR_INTERFACE then Some (Done (None, cur))
       else if ty = t then Some (Done (Some cur, cur + unat len))
       else get_loop buf e t (cur + unat len))"
    using descs_step.hyps by (subst get_loop.simps) (auto simp: array_get_def usb_consts)
  show ?case
    using descs_step.IH descs_step.hyps(8) here by (auto simp: loop usb_consts)
qed

text \<open>
  Claim C14. On a valid parser, pulling a descriptor refines the abstract parser: the call returns
  (the loop ends, no assertion fails and no byte outside the buffer is read), its result is the
  next descriptor of the requested type in the list of remaining descriptors, null if there is
  none, and the parser is left valid with the rest of that list.
\<close>

theorem get_descriptor_refines:
  assumes "parser_ok p ds"
  shows "\<exists>p'. USBConfigurationParserGetDescriptor p t
              = Some (Done (map_option fst (fst (next_desc t ds)), p'))
            \<and> parser_ok p' (snd (next_desc t ds))
            \<and> cp_pCurrentDescriptor p' = map_option fst (fst (next_desc t ds))"
proof -
  from assms obtain buf lt audio where p: "cp_bValid p" "cp_pBuffer p = Some buf"
    and d: "descs buf (cp_pEndPosition p) (cp_pNextPosition p) lt audio ds"
    by (auto simp: parser_ok_def)
  from get_loop_refines[OF d, of t] obtain cur' lt' audio'
    where loop: "get_loop buf (cp_pEndPosition p) t (cp_pNextPosition p)
           = Some (Done (map_option fst (fst (next_desc t ds)), cur'))"
      and rest: "descs buf (cp_pEndPosition p) cur' lt' audio' (snd (next_desc t ds))"
    by blast
  from p loop rest show ?thesis
    by (auto simp: USBConfigurationParserGetDescriptor_def parser_ok_def)
qed

theorem get_descriptor_refines_witness:
  "\<exists>p p'. parser_ok p [(0, 9, 2), (9, 9, 4), (18, 7, 5)]
      \<and> USBConfigurationParserGetDescriptor p 4 = Some (Done (Some 9, p'))
      \<and> parser_ok p' [(18, 7, 5)]"
proof -
  let ?p = "\<lparr>cp_pBuffer = Some sample_config, cp_nBufLen = 25, cp_bValid = True,
             cp_pEndPosition = 25, cp_pNextPosition = 0, cp_pCurrentDescriptor = None,
             cp_pErrorPosition = 0\<rparr>"
  have ok: "parser_ok ?p [(0, 9, 2), (9, 9, 4), (18, 7, 5)]"
    using sample_config_descs by (auto simp: parser_ok_def)
  from get_descriptor_refines[OF ok, of 4] ok show ?thesis
    by (auto simp: usb_consts)
qed

text \<open>
  A device can stop the host: when a configuration descriptor with a proper header is
  followed by a descriptor of length zero whose type is not configuration, interface or endpoint,
  the constructor does not return.
\<close>

theorem config_parser_zero_length_hangs:
  assumes "length buf = unat n" and "4 \<le> n" and "n \<le> 512" and "config_header_ok buf"
    and "11 < wTotalLength_of buf" and "buf ! 9 = 0"
    and "buf ! 10 \<notin> {DESCRIPTOR_CONFIGURATION, DESCRIPTOR_INTERFACE, DESCRIPTOR_ENDPOINT}"
  shows "USBConfigurationParser (Some buf) n = None"
proof -
  let ?e = "wTotalLength_of buf"
  have le: "?e \<le> length buf" using assms(4) by (simp add: config_header_ok_def)
  have "parse_step buf ?e 0 0 False = Some (Inr (9, DESCRIPTOR_CONFIGURATION, False))"
    using assms le
    by (subst parse_step_Inr) (auto simp: config_header_ok_def order_ok_def len_ok_def
        next_audio_def usb_consts)
  then have "parse_loop buf ?e 0 0 False = parse_loop buf ?e 9 DESCRIPTOR_CONFIGURATION False"
    using assms(5) by (subst parse_loop.simps) simp
  also have "\<dots> = None"
    using assms le by (intro stuck_diverges) (simp add: stuck_at_def)
  finally show ?thesis
    using assms(4) by (simp add: USBConfigurationParser_run[OF assms(1-3)] Let_def)
qed

theorem config_parser_zero_length_hangs_witness:
  "USBConfigurationParser (Some [9, 2, 12, 0, 1, 1, 0, 0x80, 50, 0, 0x24, 1]) 12 = None"
  by (rule config_parser_zero_length_hangs)
     (simp_all add: config_header_ok_def wTotalLength_of_def usb_consts)

text \<open>
  The interface class is read before the length of the interface descriptor is checked:
  a truncated interface descriptor at the end of the buffer makes the constructor read behind it.
\<close>

theorem config_parser_reads_past_end:
  "USBConfigurationParser (Some [9, 2, 12, 0, 1, 1, 0, 0x80, 50, 3, 4, 0]) 12 = Some Fault"
  by (simp add: USBConfigurationParser_def parse_loop.simps parse_step_def array_get_def rd16_def
      usb_consts Let_def)

end
