(* ===== verification/Util.thy ===== *)
theory Util
  imports Prelude
begin

text \<open>
  Byte memory and the functions of \<^verbatim>\<open>lib/util.c\<close> on it: the memory functions, the string functions on
  zero-terminated strings (\<^verbatim>\<open>char\<close> is unsigned on this target) and the byte-order conversions.

  Loops over a count are recursive in the count, so they read and write exactly as often as
  \<^verbatim>\<open>while (nLength--)\<close>.  Loops that look for the end of a string are \<open>partial_function\<close>s: they return only
  if there is one.  \<open>string_at m p s\<close> says that the string \<open>s\<close> is stored at \<open>p\<close>;
  \<open>mem_write\<close> and \<open>mem_read\<close> store and fetch a list of bytes and give the reference
  for what the functions do.
\<close>

unbundle bit_operations_syntax

type_synonym mem = "uintptr \<Rightarrow> u8"

section \<open>Reference operations\<close>

primrec mem_write :: "uintptr \<Rightarrow> u8 list \<Rightarrow> mem \<Rightarrow> mem" where
  "mem_write p [] m = m"
| "mem_write p (b # bs) m = mem_write (p + 1) bs (m(p := b))"

primrec mem_read :: "uintptr \<Rightarrow> nat \<Rightarrow> mem \<Rightarrow> u8 list" where
  "mem_read p 0 m = []"
| "mem_read p (Suc n) m = m p # mem_read (p + 1) n m"

primrec block :: "uintptr \<Rightarrow> nat \<Rightarrow> uintptr set" where
  "block p 0 = {}"
| "block p (Suc n) = insert p (block (p + 1) n)"

primrec string_at :: "mem \<Rightarrow> uintptr \<Rightarrow> u8 list \<Rightarrow> bool" where
  "string_at m p [] \<longleftrightarrow> m p = 0"
| "string_at m p (c # cs) \<longleftrightarrow> m p = c \<and> c \<noteq> 0 \<and> string_at m (p + 1) cs"

section \<open>Memory functions\<close>

fun memset_loop :: "nat \<Rightarrow> uintptr \<Rightarrow> u8 \<Rightarrow> mem \<Rightarrow> mem" where
  "memset_loop 0 p c m = m"
| "memset_loop (Suc nLength) p c m = memset_loop nLength (p + 1) c (m(p := c))"

definition uspi_memset :: "uintptr \<Rightarrow> int \<Rightarrow> u64 \<Rightarrow> mem \<Rightarrow> uintptr \<times> mem" where
  "uspi_memset pBuffer nValue nLength m = (pBuffer, memset_loop (unat nLength) pBuffer (word_of_int nValue) m)"

fun memcpy_loop :: "nat \<Rightarrow> uintptr \<Rightarrow> uintptr \<Rightarrow> mem \<Rightarrow> mem" where
  "memcpy_loop 0 pd ps m = m"
| "memcpy_loop (Suc nLength) pd ps m = memcpy_loop nLength (pd + 1) (ps + 1) (m(pd := m ps))"

definition uspi_memcpy :: "uintptr \<Rightarrow> uintptr \<Rightarrow> u64 \<Rightarrow> mem \<Rightarrow> uintptr \<times> mem" where
  "uspi_memcpy pDest pSrc nLength m = (pDest, memcpy_loop (unat nLength) pDest pSrc m)"

fun memcmp_loop :: "nat \<Rightarrow> uintptr \<Rightarrow> uintptr \<Rightarrow> mem \<Rightarrow> int" where
  "memcmp_loop 0 p1 p2 m = 0"
| "memcmp_loop (Suc nLength) p1 p2 m =
     (if m p1 > m p2 then 1 else if m p1 < m p2 then - 1 else memcmp_loop nLength (p1 + 1) (p2 + 1) m)"

definition uspi_memcmp :: "uintptr \<Rightarrow> uintptr \<Rightarrow> u64 \<Rightarrow> mem \<Rightarrow> int" where
  "uspi_memcmp pBuffer1 pBuffer2 nLength m = memcmp_loop (unat nLength) pBuffer1 pBuffer2 m"

section \<open>String functions\<close>

partial_function (option) strlen_loop :: "uintptr \<Rightarrow> u64 \<Rightarrow> mem \<Rightarrow> u64 option" where
  "strlen_loop pString nResult m =
     (if m pString \<noteq> 0 then strlen_loop (pString + 1) (nResult + 1) m else Some nResult)"

definition uspi_strlen :: "uintptr \<Rightarrow> mem \<Rightarrow> u64 option" where
  "uspi_strlen pString m = strlen_loop pString 0 m"

partial_function (option) strcmp_loop :: "uintptr \<Rightarrow> uintptr \<Rightarrow> mem \<Rightarrow> int option" where
  "strcmp_loop pString1 pString2 m =
     (if m pString1 \<noteq> 0 \<and> m pString2 \<noteq> 0
      then if m pString1 > m pString2 then Some 1
           else if m pString1 < m pString2 then Some (- 1)
           else strcmp_loop (pString1 + 1) (pString2 + 1) m
      else if m pString1 > m pString2 then Some 1
      else if m pString1 < m pString2 then Some (- 1)
      else Some 0)"

definition uspi_strcmp :: "uintptr \<Rightarrow> uintptr \<Rightarrow> mem \<Rightarrow> int option" where
  "uspi_strcmp pString1 pString2 m = strcmp_loop pString1 pString2 m"

text \<open>The copying loop of \<^verbatim>\<open>strcpy\<close> and \<^verbatim>\<open>strcat\<close>; it returns the destination pointer it has reached.\<close>

partial_function (option) copy_loop :: "uintptr \<Rightarrow> uintptr \<Rightarrow> mem \<Rightarrow> (uintptr \<times> mem) option" where
  "copy_loop p pSrc m =
     (if m pSrc \<noteq> 0 then copy_loop (p + 1) (pSrc + 1) (m(p := m pSrc)) else Some (p, m))"

definition uspi_strcpy :: "uintptr \<Rightarrow> uintptr \<Rightarrow> mem \<Rightarrow> (uintptr \<times> mem) option" where
  "uspi_strcpy pDest pSrc m = do { (p, m) \<leftarrow> copy_loop pDest pSrc m; Some (pDest, m(p := 0)) }"

fun strncpy_loop :: "nat \<Rightarrow> uintptr \<Rightarrow> uintptr \<Rightarrow> mem \<Rightarrow> nat \<times> uintptr \<times> mem" where
  "strncpy_loop 0 pDest pSrc m = (0, pDest, m)"
| "strncpy_loop (Suc nMaxLen) pDest pSrc m =
     (if m pSrc = 0 then (Suc nMaxLen, pDest, m)
      else strncpy_loop nMaxLen (pDest + 1) (pSrc + 1) (m(pDest := m pSrc)))"

definition uspi_strncpy :: "uintptr \<Rightarrow> uintptr \<Rightarrow> u64 \<Rightarrow> mem \<Rightarrow> uintptr \<times> mem" where
  "uspi_strncpy pDest pSrc nMaxLen m =
     (case strncpy_loop (unat nMaxLen) pDest pSrc m of
        (n, p, m) \<Rightarrow> (pDest, if n > 0 then m(p := 0) else m))"

partial_function (option) end_loop :: "uintptr \<Rightarrow> mem \<Rightarrow> uintptr option" where
  "end_loop p m = (if m p \<noteq> 0 then end_loop (p + 1) m else Some p)"

definition uspi_strcat :: "uintptr \<Rightarrow> uintptr \<Rightarrow> mem \<Rightarrow> (uintptr \<times> mem) option" where
  "uspi_strcat pDest pSrc m = do {
     p \<leftarrow> end_loop pDest m;
     (p, m) \<leftarrow> copy_loop p pSrc m;
     Some (pDest, m(p := 0)) }"

declare strlen_loop.simps [code] strcmp_loop.simps [code] copy_loop.simps [code] end_loop.simps [code]

section \<open>Conversions\<close>

definition uspi_char2int :: "u8 \<Rightarrow> int" where
  "uspi_char2int chValue = (let nResult = uint chValue in if nResult > 0x7F then nResult OR - 0x100 else nResult)"

definition uspi_le2be16 :: "u16 \<Rightarrow> u16" where
  "uspi_le2be16 usValue = push_bit 8 (usValue AND 0x00FF) OR drop_bit 8 (usValue AND 0xFF00)"

definition uspi_le2be32 :: "u32 \<Rightarrow> u32" where
  "uspi_le2be32 ulValue = push_bit 24 (ulValue AND 0x000000FF) OR push_bit 8 (ulValue AND 0x0000FF00)
     OR drop_bit 8 (ulValue AND 0x00FF0000) OR drop_bit 24 (ulValue AND 0xFF000000)"

section \<open>Laws of the reference operations\<close>

lemma block_eq: "block p n = (\<lambda>i. p + of_nat i) ` {..<n}"
  by (induction n arbitrary: p)
     (auto simp: lessThan_Suc_eq_insert_0 image_image add.assoc)

lemma block_add: "block p (m + n) = block p m \<union> block (p + of_nat m) n"
  by (induction m arbitrary: p) (auto simp: add.assoc)

lemma block_fresh:
  assumes "n < 2 ^ 64"
  shows "p \<notin> block (p + 1) n"
proof
  assume "p \<in> block (p + 1) n"
  then obtain i where i: "i < n" "p = p + 1 + of_nat i" by (auto simp: block_eq)
  then have "of_nat (Suc i) = (0 :: 64 word)" by (simp add: add.assoc)
  then have "2 ^ 64 dvd Suc i" by (simp only: word_of_nat_eq_0_iff len_bit0 len_num1) simp
  with i(1) assms show False by (auto dest: dvd_imp_le)
qed

lemma mem_write_frame: "a \<notin> block p (length bs) \<Longrightarrow> mem_write p bs m a = m a"
  by (induction bs arbitrary: p m) auto

lemma mem_read_cong: "(\<And>a. a \<in> block p n \<Longrightarrow> m a = m' a) \<Longrightarrow> mem_read p n m = mem_read p n m'"
  by (induction n arbitrary: p) auto

lemma mem_read_length [simp]: "length (mem_read p n m) = n"
  by (induction n arbitrary: p) auto

lemma mem_read_write: "length bs \<le> 2 ^ 64 \<Longrightarrow> mem_read p (length bs) (mem_write p bs m) = bs"
  by (induction bs arbitrary: p m) (auto simp: mem_write_frame block_fresh)

lemma mem_read_other:
  "block p n \<inter> block q (length bs) = {} \<Longrightarrow> mem_read p n (mem_write q bs m) = mem_read p n m"
  by (rule mem_read_cong, rule mem_write_frame) auto

lemma mem_write_snoc: "mem_write p (bs @ [b]) m = (mem_write p bs m)(p + of_nat (length bs) := b)"
  by (induction bs arbitrary: p m) (auto simp: add.assoc)

lemma string_at_cong:
  "(\<And>a. a \<in> block p (Suc (length s)) \<Longrightarrow> m a = m' a) \<Longrightarrow> string_at m p s = string_at m' p s"
proof (induction s arbitrary: p)
  case (Cons c s)
  from Cons.IH[of "p + 1"] Cons.prems show ?case by auto
qed auto

lemma string_at_iff:
  "string_at m p s \<longleftrightarrow> mem_read p (Suc (length s)) m = s @ [0] \<and> 0 \<notin> set s"
proof (induction s arbitrary: p)
  case (Cons c s)
  from Cons.IH[of "p + 1"] show ?case by auto
qed auto

lemma string_at_write:
  "0 \<notin> set s \<Longrightarrow> length s < 2 ^ 64 \<Longrightarrow> string_at (mem_write p (s @ [0]) m) p s"
  using mem_read_write[of "s @ [0]" p m] by (simp add: string_at_iff del: mem_read.simps)

section \<open>The functions agree with the reference\<close>

lemma memset_loop_eq: "memset_loop n p c m = mem_write p (replicate n c) m"
  by (induction n arbitrary: p m) auto

lemma memcpy_loop_eq:
  "block pd n \<inter> block ps n = {} \<Longrightarrow> memcpy_loop n pd ps m = mem_write pd (mem_read ps n m) m"
proof (induction n arbitrary: pd ps m)
  case (Suc n)
  have "mem_read (ps + 1) n (m(pd := m ps)) = mem_read (ps + 1) n m"
    using Suc.prems by (intro mem_read_cong) auto
  moreover have "block (pd + 1) n \<inter> block (ps + 1) n = {}" using Suc.prems by auto
  ultimately show ?case using Suc.IH[of "pd + 1" "ps + 1" "m(pd := m ps)"] by (simp del: fun_upd_apply)
qed simp

lemma memcmp_loop_0: "memcmp_loop n p q m = 0 \<longleftrightarrow> mem_read p n m = mem_read q n m"
  by (induction n arbitrary: p q) auto

lemma strlen_loop_eq: "string_at m p s \<Longrightarrow> strlen_loop p n m = Some (n + of_nat (length s))"
  by (induction s arbitrary: p n) (subst strlen_loop.simps, auto simp: add.assoc)+

lemma end_loop_eq: "string_at m p s \<Longrightarrow> end_loop p m = Some (p + of_nat (length s))"
  by (induction s arbitrary: p) (subst end_loop.simps, auto simp: add.assoc)+

lemma copy_loop_eq:
  "\<lbrakk>string_at m ps s; block pd (Suc (length s)) \<inter> block ps (Suc (length s)) = {}\<rbrakk>
   \<Longrightarrow> copy_loop pd ps m = Some (pd + of_nat (length s), mem_write pd s m)"
proof (induction s arbitrary: pd ps m)
  case (Cons c s)
  have "string_at (m(pd := c)) (ps + 1) s"
    using Cons.prems by (subst string_at_cong[where m' = m]) auto
  moreover have "block (pd + 1) (Suc (length s)) \<inter> block (ps + 1) (Suc (length s)) = {}"
    using Cons.prems(2) by auto
  ultimately show ?case
    using Cons.prems(1) Cons.IH[of "m(pd := c)" "ps + 1" "pd + 1"]
    by (subst copy_loop.simps) (simp add: add.assoc del: fun_upd_apply)
qed (subst copy_loop.simps, simp)

lemma strcpy_eq:
  assumes "string_at m ps s" and "block pd (Suc (length s)) \<inter> block ps (Suc (length s)) = {}"
  shows "uspi_strcpy pd ps m = Some (pd, mem_write pd (s @ [0]) m)"
  using copy_loop_eq[OF assms] by (simp add: uspi_strcpy_def mem_write_snoc)

text \<open>Comparison of zero-terminated strings: the first difference decides, a proper prefix is smaller.\<close>

fun str_order :: "u8 list \<Rightarrow> u8 list \<Rightarrow> int" where
  "str_order [] [] = 0"
| "str_order [] (d # ds) = - 1"
| "str_order (c # cs) [] = 1"
| "str_order (c # cs) (d # ds) = (if c > d then 1 else if c < d then - 1 else str_order cs ds)"

lemma strcmp_eq: "\<lbrakk>string_at m p s; string_at m q t\<rbrakk> \<Longrightarrow> uspi_strcmp p q m = Some (str_order s t)"
  unfolding uspi_strcmp_def
  by (induction s t arbitrary: p q rule: str_order.induct)
     (subst strcmp_loop.simps, auto simp: word_gt_0 word_greater_zero_iff not_less_iff_gr_or_eq)+

lemma str_order_0: "str_order s t = 0 \<longleftrightarrow> s = t"
  by (induction s t rule: str_order.induct) auto

section \<open>Bytes of integers\<close>

text \<open>The bytes of a 32-bit and a 16-bit integer in memory order of this little-endian machine.\<close>

definition bytes32 :: "u32 \<Rightarrow> u8 list" where
  "bytes32 x = [ucast x, ucast (drop_bit 8 x), ucast (drop_bit 16 x), ucast (drop_bit 24 x)]"

definition bytes16 :: "u16 \<Rightarrow> u8 list" where
  "bytes16 x = [ucast x, ucast (drop_bit 8 x)]"

definition word32 :: "u8 list \<Rightarrow> u32" where
  "word32 bs = ucast (bs ! 0) OR push_bit 8 (ucast (bs ! 1)) OR push_bit 16 (ucast (bs ! 2))
     OR push_bit 24 (ucast (bs ! 3))"

definition word16 :: "u8 list \<Rightarrow> u16" where
  "word16 bs = ucast (bs ! 0) OR push_bit 8 (ucast (bs ! 1))"

lemma bytes_length [simp]: "length (bytes32 x) = 4" "length (bytes16 y) = 2"
  by (simp_all add: bytes32_def bytes16_def)

lemma word_bits_eqI:
  fixes x y :: "'a::len word"
  assumes "\<forall>n \<in> set [0..<LENGTH('a)]. bit x n = bit y n"
  shows "x = y"
  using assms by (intro bit_word_eqI) auto

lemma word32_bytes32: "word32 (bytes32 x) = x"
  by (rule word_bits_eqI) (simp add: word32_def bytes32_def bit_simps upt_rec_numeral upt_rec, simp add: eval_nat_numeral)

lemma le2be32_bytes: "bytes32 (uspi_le2be32 x) = rev (bytes32 x)"
  by (simp add: bytes32_def uspi_le2be32_def)
     (intro conjI word_bits_eqI; simp add: bit_simps upt_rec_numeral upt_rec)

lemma word16_bytes16: "word16 (bytes16 x) = x"
  by (rule word_bits_eqI) (simp add: word16_def bytes16_def bit_simps upt_rec_numeral upt_rec, simp add: eval_nat_numeral)

lemma le2be16_bytes: "bytes16 (uspi_le2be16 x) = rev (bytes16 x)"
  by (simp add: bytes16_def uspi_le2be16_def)
     (intro conjI word_bits_eqI; simp add: bit_simps upt_rec_numeral upt_rec)

lemma bytes32_inject: "bytes32 x = bytes32 y \<longleftrightarrow> x = y"
  by (metis word32_bytes32)

lemma char2int_sint: "uspi_char2int c = sint c"
proof -
  have u: "0 \<le> uint c" "uint c < 256" using uint_lt2p[of c] by simp_all
  have top: "uint c > 0x7F \<longleftrightarrow> bit c 7"
  proof -
    have "bit c 7 \<longleftrightarrow> bit (uint c) 7" by (simp add: bit_uint_iff)
    then have "bit c 7 \<longleftrightarrow> odd (uint c div 128)" by (simp add: bit_iff_odd[of "uint c"])
    moreover have "uint c div 128 = (if uint c > 0x7F then 1 else 0)"
      using u by (auto intro: int_div_pos_eq[of _ _ _ "uint c - 128"])
    ultimately show ?thesis by simp
  qed
  have low: "bit (0xFF :: int) n \<longleftrightarrow> n < 8" for n
    using bit_mask_iff[of 8 n, where 'a = int] by (simp add: mask_eq_exp_minus_1)
  have neg: "bit (- 0x100 :: int) n \<longleftrightarrow> n \<ge> 8" for n
    by (simp add: bit_minus_iff low not_less)
  have last_bit: "bit c n \<Longrightarrow> 7 \<le> n \<Longrightarrow> n = 7" for n
    using bit_imp_le_length[of c n] by simp
  show ?thesis
  proof (rule bit_eqI)
    fix n
    show "bit (uspi_char2int c) n \<longleftrightarrow> bit (sint c) n"
      using last_bit[of n] 
      by (cases "n < 7"; cases "n = 7") (auto simp: uspi_char2int_def Let_def top bit_or_iff bit_uint_iff bit_sint_iff neg min_def)
  qed
qed

section \<open>Properties\<close>

lemma mem_read_add: "mem_read p (i + j) m = mem_read p i m @ mem_read (p + of_nat i) j m"
  by (induction i arbitrary: p) (auto simp: add.assoc)

lemma mem_write_read: "mem_write p (mem_read p n m) m = m"
  by (induction n arbitrary: p) auto

lemma mem_write_append: "mem_write p (bs @ cs) m = mem_write (p + of_nat (length bs)) cs (mem_write p bs m)"
  by (induction bs arbitrary: p m) (auto simp: add.assoc)

lemma bytes16_inject: "bytes16 x = bytes16 y \<longleftrightarrow> x = y"
proof
  assume h: "bytes16 x = bytes16 y"
  have "z = ucast (bytes16 z ! 0) OR push_bit 8 (ucast (bytes16 z ! 1))" for z
    by (rule word_bits_eqI) (simp add: bytes16_def bit_simps upt_rec_numeral upt_rec, simp add: eval_nat_numeral)
  with h show "x = y" by metis
qed simp

text \<open>
  Copying a string.  On a zero-terminated string and a destination that does not overlap it,
  \<^verbatim>\<open>strcpy\<close> returns, the destination then holds the same string, \<^verbatim>\<open>strlen\<close> of it is the string's
  length, \<^verbatim>\<open>strcmp\<close> finds copy and original equal, and no byte outside the destination has changed.
\<close>

theorem strcpy_roundtrip:
  assumes s: "string_at m pSrc s" and n: "length s < 2 ^ 64"
    and d: "block pDest (Suc (length s)) \<inter> block pSrc (Suc (length s)) = {}"
  shows "\<exists>m'. uspi_strcpy pDest pSrc m = Some (pDest, m') \<and> string_at m' pDest s
     \<and> uspi_strlen pDest m' = Some (of_nat (length s)) \<and> uspi_strcmp pDest pSrc m' = Some 0
     \<and> (\<forall>a. a \<notin> block pDest (Suc (length s)) \<longrightarrow> m' a = m a)"
proof -
  let ?m = "mem_write pDest (s @ [0]) m"
  have "0 \<notin> set s" using s by (simp add: string_at_iff del: mem_read.simps)
  with n have c: "string_at ?m pDest s" by (simp add: string_at_write)
  have f: "?m a = m a" if "a \<notin> block pDest (Suc (length s))" for a
    using that by (intro mem_write_frame) simp
  have "string_at ?m pSrc s"
    using s d f by (subst string_at_cong[where m' = m]) (auto simp del: block.simps)
  with c have "uspi_strcmp pDest pSrc ?m = Some 0" using str_order_0 by (simp add: strcmp_eq)
  with strcpy_eq[OF s d] c f strlen_loop_eq[OF c, of 0] show ?thesis by (auto simp: uspi_strlen_def)
qed

definition hi_mem :: mem where "hi_mem = mem_write 0x1000 [104, 105, 0] (\<lambda>_. 7)"

theorem strcpy_roundtrip_witness:
  "\<exists>m'. uspi_strcpy 0x2000 0x1000 hi_mem = Some (0x2000, m') \<and> string_at m' 0x2000 [104, 105]
     \<and> uspi_strlen 0x2000 m' = Some 2 \<and> uspi_strcmp 0x2000 0x1000 m' = Some 0 \<and> m' 0x2003 = 7"
proof -
  have "string_at hi_mem 0x1000 [104, 105]" by (simp add: hi_mem_def)
  from strcpy_roundtrip[OF this, of "0x2000"] show ?thesis
    by (fastforce simp: hi_mem_def)
qed

lemma strncpy_loop_eq:
  "\<lbrakk>string_at m ps s; block pd n \<inter> block ps (Suc (length s)) = {}\<rbrakk>
   \<Longrightarrow> strncpy_loop n pd ps m = (n - length s, pd + of_nat (min n (length s)), mem_write pd (take n s) m)"
proof (induction n arbitrary: s pd ps m)
  case (Suc n)
  show ?case
  proof (cases s)
    case (Cons c t)
    have "string_at (m(pd := c)) (ps + 1) t"
      using Suc.prems by (subst string_at_cong[where m' = m]) (auto simp: Cons)
    moreover have "block (pd + 1) n \<inter> block (ps + 1) (Suc (length t)) = {}"
      using Suc.prems(2) by (auto simp: Cons)
    ultimately show ?thesis
      using Suc.prems(1) Suc.IH[of "m(pd := c)" "ps + 1" t "pd + 1"]
      by (simp add: Cons add.assoc del: fun_upd_apply block.simps)
  qed (use Suc.prems in simp)
qed simp

text \<open>
  \<^verbatim>\<open>strncpy\<close> writes at most \<open>n\<close> bytes: the first \<open>n\<close> characters of the string and a
  terminator only if the string is shorter than \<open>n\<close>, so a string of \<open>n\<close> or more characters is
  left without terminator; unlike the C library's function it does not pad.
\<close>

lemma strncpy_prefix:
  assumes "string_at m pSrc s" and "block pDest (unat n) \<inter> block pSrc (Suc (length s)) = {}"
  shows "uspi_strncpy pDest pSrc n m
     = (pDest, mem_write pDest (take (unat n) s @ (if length s < unat n then [0] else [])) m)"
  using strncpy_loop_eq[OF assms] by (simp add: uspi_strncpy_def mem_write_snoc min_def)

text \<open>
  \<^verbatim>\<open>strcat\<close> leaves the concatenation of both strings at the destination, provided that the
  source lies outside the memory the result needs, and changes nothing else.
\<close>

lemma strcat_appends:
  assumes d: "string_at m pDest s" and t: "string_at m pSrc t" and n: "length s + length t < 2 ^ 64"
    and o: "block pDest (Suc (length s + length t)) \<inter> block pSrc (Suc (length t)) = {}"
  shows "\<exists>m'. uspi_strcat pDest pSrc m = Some (pDest, m') \<and> string_at m' pDest (s @ t)
     \<and> (\<forall>a. a \<notin> block pDest (Suc (length s + length t)) \<longrightarrow> m' a = m a)"
proof -
  let ?p = "pDest + of_nat (length s)"
  let ?m = "mem_write ?p (t @ [0]) m"
  have b: "block pDest (Suc (length s + length t)) = block pDest (length s) \<union> block ?p (Suc (length t))"
    using block_add[of pDest "length s" "Suc (length t)"] by (simp del: block.simps)
  have o': "block ?p (Suc (length t)) \<inter> block pSrc (Suc (length t)) = {}" using o b by blast
  have "uspi_strcat pDest pSrc m = Some (pDest, ?m)"
    using end_loop_eq[OF d] copy_loop_eq[OF t o']
    by (simp add: uspi_strcat_def mem_write_snoc del: block.simps)
  moreover have "?m a = m a" if "a \<notin> block pDest (Suc (length s + length t))" for a
    using that b by (intro mem_write_frame) (simp del: block.simps)
  moreover have "string_at ?m pDest (s @ t)"
  proof -
    have z: "0 \<notin> set s" "0 \<notin> set t" using d t by (simp_all add: string_at_iff del: mem_read.simps)
    have s: "mem_read pDest (length s) m = s" using d mem_read_add[of pDest "length s" 1 m] 
      by (simp add: string_at_iff)
    then have "m = mem_write pDest s m" by (metis mem_write_read)
    then have "?m = mem_write pDest ((s @ t) @ [0]) m" by (simp add: mem_write_append)
    with z n string_at_write[of "s @ t" pDest m] show ?thesis by simp
  qed
  ultimately show ?thesis by blast
qed

text \<open>
  The byte-order conversions reverse the bytes in memory and are their own inverses, and
  \<^verbatim>\<open>uspi_char2int\<close> is sign extension.
\<close>

theorem byte_order_conversions:
  "bytes32 (uspi_le2be32 x) = rev (bytes32 x) \<and> uspi_le2be32 (uspi_le2be32 x) = x
   \<and> bytes16 (uspi_le2be16 y) = rev (bytes16 y) \<and> uspi_le2be16 (uspi_le2be16 y) = y
   \<and> uspi_char2int c = sint c"
proof -
  have "uspi_le2be32 (uspi_le2be32 x) = x"
    by (subst bytes32_inject[symmetric]) (simp add: le2be32_bytes)
  moreover have "uspi_le2be16 (uspi_le2be16 y) = y"
    by (subst bytes16_inject[symmetric]) (simp add: le2be16_bytes)
  ultimately show ?thesis by (simp add: le2be32_bytes le2be16_bytes char2int_sint)
qed

end
