(* ===== verification/CString.thy ===== *)
theory CString
  imports Prelude
begin

text \<open>
  The string class (\<^verbatim>\<open>lib/string.c\<close>) with its formatting function.

  A C string that is passed as an argument is the list of its characters.  The buffer of a string object
  is the memory block behind \<^verbatim>\<open>m_pBuffer\<close>, with its terminator and whatever follows it; \<^verbatim>\<open>m_pInPtr\<close>
  is an offset into it.  Every write is checked against the block, so that an operation that returns has
  not run over it.  \<open>mal n\<close> is a fresh block of \<open>n\<close> bytes with unknown contents, \<open>malloc\<close> of the kernel.
\<close>

unbundle bit_operations_syntax

section \<open>Blocks\<close>

abbreviation NUL :: char where "NUL \<equiv> CHR 0x00"

definition c_string :: "char list \<Rightarrow> string option" where
  "c_string buf = (if NUL \<in> set buf then Some (takeWhile (\<lambda>c. c \<noteq> NUL) buf) else None)"

definition write_at :: "char list \<Rightarrow> nat \<Rightarrow> char list \<Rightarrow> char list option" where
  "write_at buf i cs = (if i + length cs \<le> length buf
     then Some (take i buf @ cs @ drop (i + length cs) buf) else None)"

definition malloc_ok :: "(nat \<Rightarrow> char list) \<Rightarrow> bool" where
  "malloc_ok mal \<longleftrightarrow> (\<forall>n. length (mal n) = n)"

definition FORMAT_RESERVE :: u64 where "FORMAT_RESERVE = 64"
definition MAX_NUMBER_LEN :: nat where "MAX_NUMBER_LEN = 11"

record TString =
  s_pBuffer :: "char list option"
  s_nSize :: u32
  s_pInPtr :: nat

section \<open>Construction and access\<close>

definition String :: "TString \<Rightarrow> TString" where
  "String this = this\<lparr>s_pBuffer := None, s_nSize := 0\<rparr>"

definition StringSet :: "(nat \<Rightarrow> char list) \<Rightarrow> TString \<Rightarrow> string \<Rightarrow> TString option" where
  "StringSet mal this pString = do {
     let nSize = of_nat (length pString + 1);
     buf \<leftarrow> write_at (mal (unat nSize)) 0 (pString @ [NUL]);
     Some (this\<lparr>s_pBuffer := Some buf, s_nSize := nSize\<rparr>) }"

definition String2 :: "(nat \<Rightarrow> char list) \<Rightarrow> TString \<Rightarrow> string \<Rightarrow> TString option" where
  "String2 mal this pString = do {
     let nSize = of_nat (length pString + 1);
     buf \<leftarrow> write_at (mal (unat nSize)) 0 (pString @ [NUL]);
     Some (this\<lparr>s_pBuffer := Some buf, s_nSize := nSize\<rparr>) }"

definition String_dtor :: "TString \<Rightarrow> TString" where
  "String_dtor this = this\<lparr>s_pBuffer := None\<rparr>"

definition StringGet :: "TString \<Rightarrow> string option" where
  "StringGet this = (case s_pBuffer this of Some buf \<Rightarrow> c_string buf | None \<Rightarrow> Some [])"

definition StringGetLength :: "TString \<Rightarrow> nat option" where
  "StringGetLength this = (case s_pBuffer this of None \<Rightarrow> Some 0 | Some buf \<Rightarrow> map_option length (c_string buf))"

definition StringAppend :: "(nat \<Rightarrow> char list) \<Rightarrow> TString \<Rightarrow> string \<Rightarrow> TString option" where
  "StringAppend mal this pString = do {
     s \<leftarrow> (case s_pBuffer this of None \<Rightarrow> Some [] | Some buf \<Rightarrow> c_string buf);
     let nSize = 1 + of_nat (length s) + of_nat (length pString);
     buf \<leftarrow> write_at (mal (unat nSize)) 0 (s @ [NUL]);
     buf \<leftarrow> write_at buf (length s) (pString @ [NUL]);
     Some (this\<lparr>s_pBuffer := Some buf, s_nSize := nSize\<rparr>) }"

text \<open>Comparison by character code, as \<^verbatim>\<open>strcmp\<close> does; only equality is used.\<close>

fun char_order :: "string \<Rightarrow> string \<Rightarrow> int" where
  "char_order [] [] = 0"
| "char_order [] (d # ds) = - 1"
| "char_order (c # cs) [] = 1"
| "char_order (c # cs) (d # ds) =
     (if (of_char c :: nat) > of_char d then 1 else if (of_char c :: nat) < of_char d then - 1
      else char_order cs ds)"

lemma char_order_eq [simp]: "char_order s t = 0 \<longleftrightarrow> s = t"
  by (induction s t rule: char_order.induct) auto

definition StringCompare :: "TString \<Rightarrow> string \<Rightarrow> int option" where
  "StringCompare this pString = do {
     buf \<leftarrow> s_pBuffer this; s \<leftarrow> c_string buf; Some (char_order s pString) }"

fun find_from :: "string \<Rightarrow> char \<Rightarrow> int \<Rightarrow> int" where
  "find_from [] ch nPos = - 1"
| "find_from (c # cs) ch nPos = (if c = ch then nPos else find_from cs ch (nPos + 1))"

definition StringFind :: "TString \<Rightarrow> char \<Rightarrow> int option" where
  "StringFind this chChar = do {
     buf \<leftarrow> s_pBuffer this; s \<leftarrow> c_string buf; Some (find_from s chChar 0) }"

section \<open>Numbers\<close>

partial_function (option) divisor_loop :: "u64 \<Rightarrow> u64 \<Rightarrow> u64 \<Rightarrow> u64 option" where
  "divisor_loop ulNumber nBase ulDivisor =
     (if ulNumber div ulDivisor < nBase then Some ulDivisor
      else divisor_loop ulNumber nBase (ulDivisor * nBase))"

definition digit_char :: "u64 \<Rightarrow> bool \<Rightarrow> char" where
  "digit_char ulDigit bUpcase = char_of (unat (if ulDigit < 10 then 0x30 + ulDigit
     else 0x30 + ulDigit + 7 + (if bUpcase then 0 else 0x20)))"

partial_function (option) digit_loop :: "u64 \<Rightarrow> u64 \<Rightarrow> u64 \<Rightarrow> u64 \<Rightarrow> bool \<Rightarrow> string option" where
  "digit_loop ulNumber ulDivisor ulDigit nBase bUpcase =
     (let ulNumber = ulNumber mod ulDivisor; c = digit_char ulDigit bUpcase; ulDivisor = ulDivisor div nBase
      in if ulDivisor = 0 then Some [c]
         else do { cs \<leftarrow> digit_loop ulNumber ulDivisor (ulNumber div ulDivisor) nBase bUpcase; Some (c # cs) })"

text \<open>The characters that \<^verbatim>\<open>ntoa\<close> writes before the terminator.\<close>

definition ntoa :: "u64 \<Rightarrow> u64 \<Rightarrow> bool \<Rightarrow> string option" where
  "ntoa ulNumber nBase bUpcase = do {
     ulDivisor \<leftarrow> divisor_loop ulNumber nBase 1;
     digit_loop ulNumber ulDivisor (ulNumber div ulDivisor) nBase bUpcase }"

declare divisor_loop.simps [code] digit_loop.simps [code]

text \<open>\<^verbatim>\<open>NumBuf\<close> has room for 11 digits and the terminator.\<close>

definition ntoa_NumBuf :: "u64 \<Rightarrow> u64 \<Rightarrow> bool \<Rightarrow> string option" where
  "ntoa_NumBuf ulNumber nBase bUpcase = do {
     s \<leftarrow> ntoa ulNumber nBase bUpcase; c_assert (length s \<le> MAX_NUMBER_LEN); Some s }"

section \<open>Formatting\<close>

definition StringReserveSpace :: "(nat \<Rightarrow> char list) \<Rightarrow> u64 \<Rightarrow> TString \<Rightarrow> TString option" where
  "StringReserveSpace mal nSpace this =
     (if nSpace = 0 then Some this
      else do {
        buf \<leftarrow> s_pBuffer this;
        let nOffset = s_pInPtr this;
        let nNewSize = of_nat nOffset + nSpace + 1;
        if ucast (s_nSize this) \<ge> nNewSize then Some this
        else do {
          let nNewSize = nNewSize + FORMAT_RESERVE;
          buf \<leftarrow> write_at buf nOffset [NUL];
          s \<leftarrow> c_string buf;
          new \<leftarrow> write_at (mal (unat nNewSize)) 0 (s @ [NUL]);
          Some (this\<lparr>s_pBuffer := Some new, s_nSize := ucast nNewSize, s_pInPtr := nOffset\<rparr>) } })"

definition StringPutChar :: "(nat \<Rightarrow> char list) \<Rightarrow> char \<Rightarrow> u64 \<Rightarrow> TString \<Rightarrow> TString option" where
  "StringPutChar mal chChar nCount this = do {
     this \<leftarrow> StringReserveSpace mal nCount this;
     buf \<leftarrow> s_pBuffer this;
     buf \<leftarrow> write_at buf (s_pInPtr this) (replicate (unat nCount) chChar);
     Some (this\<lparr>s_pBuffer := Some buf, s_pInPtr := s_pInPtr this + unat nCount\<rparr>) }"

definition StringPutString :: "(nat \<Rightarrow> char list) \<Rightarrow> string \<Rightarrow> TString \<Rightarrow> TString option" where
  "StringPutString mal pString this = do {
     this \<leftarrow> StringReserveSpace mal (of_nat (length pString)) this;
     buf \<leftarrow> s_pBuffer this;
     buf \<leftarrow> write_at buf (s_pInPtr this) (pString @ [NUL]);
     Some (this\<lparr>s_pBuffer := Some buf, s_pInPtr := s_pInPtr this + length pString\<rparr>) }"

text \<open>The variable arguments; reading one as a type it does not have is undefined.\<close>

datatype va_value = VaInt u32 | VaLong u64 | VaString string

record format_spec =
  f_bLeft :: bool
  f_bNull :: bool
  f_nWidth :: u64
  f_bLong :: bool

definition is_digit :: "char \<Rightarrow> bool" where
  "is_digit c \<longleftrightarrow> (0x30 :: nat) \<le> of_char c \<and> (of_char c :: nat) \<le> 0x39"

fun parse_width :: "u64 \<Rightarrow> string \<Rightarrow> u64 \<times> string" where
  "parse_width nWidth [] = (nWidth, [])"
| "parse_width nWidth (c # cs) =
     (if is_digit c then parse_width (nWidth * 10 + of_nat (of_char c - 0x30)) cs else (nWidth, c # cs))"

definition skip_if :: "char \<Rightarrow> string \<Rightarrow> bool \<times> string" where
  "skip_if c s = (case s of d # ds \<Rightarrow> if d = c then (True, ds) else (False, s) | [] \<Rightarrow> (False, s))"

definition parse_spec :: "string \<Rightarrow> format_spec \<times> string" where
  "parse_spec s =
     (let (bLeft, s) = skip_if (CHR ''-'') s;
          (bNull, s) = skip_if (CHR ''0'') s;
          (nWidth, s) = parse_width 0 s;
          (bLong, s) = skip_if (CHR ''l'') s
      in (\<lparr>f_bLeft = bLeft, f_bNull = bNull, f_nWidth = nWidth, f_bLong = bLong\<rparr>, s))"

text \<open>\<open>put_padded\<close> is the code of the alignment, with \<open>body\<close> the pieces that make up the converted argument.\<close>

definition put_pieces :: "(nat \<Rightarrow> char list) \<Rightarrow> bool \<Rightarrow> string \<Rightarrow> TString \<Rightarrow> TString option" where
  "put_pieces mal bMinus s this = do {
     this \<leftarrow> (if bMinus then StringPutChar mal (CHR ''-'') 1 this else Some this);
     StringPutString mal s this }"

definition put_padded ::
    "(nat \<Rightarrow> char list) \<Rightarrow> format_spec \<Rightarrow> char \<Rightarrow> bool \<Rightarrow> string \<Rightarrow> TString \<Rightarrow> TString option" where
  "put_padded mal f chPad bMinus s this = (let nLen = of_nat (length s) + (if bMinus then 1 else 0) in
     if f_bLeft f then do {
       this \<leftarrow> put_pieces mal bMinus s this;
       if f_nWidth f > nLen then StringPutChar mal (CHR '' '') (f_nWidth f - nLen) this else Some this }
     else do {
       this \<leftarrow> (if f_nWidth f > nLen then StringPutChar mal chPad (f_nWidth f - nLen) this else Some this);
       put_pieces mal bMinus s this })"

definition put_char_padded :: "(nat \<Rightarrow> char list) \<Rightarrow> format_spec \<Rightarrow> char \<Rightarrow> TString \<Rightarrow> TString option" where
  "put_char_padded mal f ch this =
     (if f_bLeft f then do {
        this \<leftarrow> StringPutChar mal ch 1 this;
        if f_nWidth f > 1 then StringPutChar mal (CHR '' '') (f_nWidth f - 1) this else Some this }
      else do {
        this \<leftarrow> (if f_nWidth f > 1 then StringPutChar mal (CHR '' '') (f_nWidth f - 1) this else Some this);
        StringPutChar mal ch 1 this })"

definition va_unsigned :: "bool \<Rightarrow> va_value list \<Rightarrow> (u64 \<times> va_value list) option" where
  "va_unsigned bLong args = (case args of
       VaInt n # args \<Rightarrow> if bLong then None else Some (ucast n, args)
     | VaLong n # args \<Rightarrow> if bLong then Some (n, args) else None
     | _ \<Rightarrow> None)"

definition va_signed :: "bool \<Rightarrow> va_value list \<Rightarrow> (u64 \<times> va_value list) option" where
  "va_signed bLong args = (case args of
       VaInt n # args \<Rightarrow> if bLong then None else Some (scast n, args)
     | VaLong n # args \<Rightarrow> if bLong then Some (n, args) else None
     | _ \<Rightarrow> None)"

definition format_number ::
    "(nat \<Rightarrow> char list) \<Rightarrow> format_spec \<Rightarrow> u64 \<Rightarrow> bool \<Rightarrow> va_value list \<Rightarrow> TString
     \<Rightarrow> (va_value list \<times> TString) option" where
  "format_number mal f nBase bUpcase args this = do {
     (ulArg, args) \<leftarrow> va_unsigned (f_bLong f) args;
     s \<leftarrow> ntoa_NumBuf ulArg nBase bUpcase;
     this \<leftarrow> put_padded mal f (if f_bNull f then CHR ''0'' else CHR '' '') False s this;
     Some (args, this) }"

definition format_arg ::
    "(nat \<Rightarrow> char list) \<Rightarrow> format_spec \<Rightarrow> char \<Rightarrow> va_value list \<Rightarrow> TString \<Rightarrow> (va_value list \<times> TString) option" where
  "format_arg mal f conv args this =
     (if conv = CHR ''c'' then (case args of
          VaInt n # args \<Rightarrow> do {
            this \<leftarrow> put_char_padded mal f (char_of (unat (ucast n :: u8))) this; Some (args, this) }
        | _ \<Rightarrow> None)
      else if conv = CHR ''d'' then do {
        (lArg, args) \<leftarrow> va_signed (f_bLong f) args;
        let bMinus = sint lArg < 0;
        s \<leftarrow> ntoa_NumBuf (if bMinus then - lArg else lArg) 10 False;
        this \<leftarrow> put_padded mal f (CHR '' '') bMinus s this;
        Some (args, this) }
      else if conv = CHR ''o'' then format_number mal f 8 False args this
      else if conv = CHR ''s'' then (case args of
          VaString s # args \<Rightarrow> do { this \<leftarrow> put_padded mal f (CHR '' '') False s this; Some (args, this) }
        | _ \<Rightarrow> None)
      else if conv = CHR ''u'' then format_number mal f 10 False args this
      else if conv = CHR ''x'' \<or> conv = CHR ''X'' then format_number mal f 16 (conv = CHR ''X'') args this
      else do {
        this \<leftarrow> StringPutChar mal (CHR ''%'') 1 this;
        this \<leftarrow> StringPutChar mal conv 1 this;
        Some (args, this) })"

lemma parse_width_length: "length (snd (parse_width n s)) \<le> length s"
  by (induction n s rule: parse_width.induct) auto

lemma skip_if_length: "length (snd (skip_if c s)) \<le> length s"
  by (auto simp: skip_if_def split: list.split)

lemma parse_spec_length: "parse_spec s = (f, t) \<Longrightarrow> length t \<le> length s"
  using skip_if_length[of "CHR ''-''" s]
    skip_if_length[of "CHR ''0''" "snd (skip_if (CHR ''-'') s)"]
    parse_width_length[of 0 "snd (skip_if (CHR ''0'') (snd (skip_if (CHR ''-'') s)))"]
    skip_if_length[of "CHR ''l''" "snd (parse_width 0 (snd (skip_if (CHR ''0'') (snd (skip_if (CHR ''-'') s)))))"]
  by (simp add: parse_spec_def case_prod_beta Let_def)

text \<open>A format that ends inside a conversion makes the code step over the terminator.\<close>

function format_loop ::
    "(nat \<Rightarrow> char list) \<Rightarrow> string \<Rightarrow> va_value list \<Rightarrow> TString \<Rightarrow> TString option" where
  "format_loop mal [] args this = Some this"
| "format_loop mal (c # fmt) args this =
     (if c \<noteq> CHR ''%'' then do { this \<leftarrow> StringPutChar mal c 1 this; format_loop mal fmt args this }
      else case fmt of
        [] \<Rightarrow> None
      | d # rest \<Rightarrow>
        if d = CHR ''%'' then do { this \<leftarrow> StringPutChar mal (CHR ''%'') 1 this; format_loop mal rest args this }
        else (case parse_spec fmt of
            (f, []) \<Rightarrow> None
          | (f, conv # rest) \<Rightarrow> do {
              (args, this) \<leftarrow> format_arg mal f conv args this;
              format_loop mal rest args this }))"
  by pat_completeness auto

termination
  by (relation "measure (\<lambda>(_, fmt, _, _). length fmt)") (auto dest!: parse_spec_length[OF sym])

definition StringFormatV :: "(nat \<Rightarrow> char list) \<Rightarrow> TString \<Rightarrow> string \<Rightarrow> va_value list \<Rightarrow> TString option" where
  "StringFormatV mal this pFormat Args = do {
     let this = this\<lparr>s_nSize := ucast FORMAT_RESERVE,
                     s_pBuffer := Some (mal (unat FORMAT_RESERVE)), s_pInPtr := 0\<rparr>;
     this \<leftarrow> format_loop mal pFormat Args this;
     buf \<leftarrow> s_pBuffer this;
     buf \<leftarrow> write_at buf (s_pInPtr this) [NUL];
     Some (this\<lparr>s_pBuffer := Some buf\<rparr>) }"

definition StringFormat :: "(nat \<Rightarrow> char list) \<Rightarrow> TString \<Rightarrow> string \<Rightarrow> va_value list \<Rightarrow> TString option" where
  "StringFormat mal this pFormat Args = StringFormatV mal this pFormat Args"

section \<open>Numbers are written in positional notation\<close>

definition horner :: "nat \<Rightarrow> nat list \<Rightarrow> nat" where
  "horner b ds = foldl (\<lambda>a d. a * b + d) 0 ds"

lemma horner_Cons: "horner b (d # ds) = d * b ^ length ds + horner b ds"
proof -
  have "foldl (\<lambda>a d. a * b + d) c ds = c * b ^ length ds + foldl (\<lambda>a d. a * b + d) 0 ds" for c
  proof (induction ds arbitrary: c)
    case (Cons x xs)
    show ?case using Cons[of "c * b + x"] Cons[of x] by (simp add: algebra_simps)
  qed simp
  from this[of d] show ?thesis by (simp add: horner_def)
qed

lemma unat_pow_div:
  fixes d b :: u64
  assumes "unat d = unat b ^ Suc k" and "1 < unat b"
  shows "unat (d div b) = unat b ^ k"
  using assms by (simp add: unat_div)

lemma digit_loop_spec:
  fixes n d b :: u64
  assumes "unat d = unat b ^ k" and "unat n < unat b ^ Suc k" and b: "1 < unat b"
  shows "\<exists>ds. digit_loop n d (n div d) b up = Some (map (\<lambda>i. digit_char (of_nat i) up) ds)
    \<and> length ds = Suc k \<and> (\<forall>i \<in> set ds. i < unat b) \<and> horner (unat b) ds = unat n
    \<and> hd ds = unat n div unat b ^ k"
  using assms(1,2)
proof (induction k arbitrary: n d)
  case 0
  have d: "d = 1" using 0(1) by (metis power_0 unat_1 word_unat_eq_iff)
  have z: "1 div b = 0" using b by (simp add: word_unat_eq_iff unat_div)
  show ?case
    by (intro exI[of _ "[unat n]"], subst digit_loop.simps)
       (use 0(2) d z in \<open>simp add: horner_def\<close>)
next
  case (Suc k)
  let ?d = "d div b" and ?n = "n mod d"
  have d': "unat ?d = unat b ^ k" using unat_pow_div[OF Suc(2) b] .
  have n': "unat ?n < unat b ^ Suc k" using Suc(2) b by (simp add: unat_mod)
  from Suc.IH[OF d' n'] obtain ds where ds: "digit_loop ?n ?d (?n div ?d) b up = Some (map (\<lambda>i. digit_char (of_nat i) up) ds)"
    "length ds = Suc k" "\<forall>i \<in> set ds. i < unat b" "horner (unat b) ds = unat ?n" by auto
  have nz: "?d \<noteq> 0" using d' b by (metis power_eq_0_iff not_less_zero unat_0 less_trans zero_less_one)
  let ?q = "unat n div unat b ^ Suc k"
  have q: "?q < unat b" using Suc(3) b by (simp add: less_mult_imp_div_less mult.commute)
  have "?q = unat (n div d)" using Suc(2) by (simp add: unat_div)
  then have nd: "n div d = of_nat ?q" by (simp only:) simp
  show ?case
  proof (intro exI[of _ "?q # ds"] conjI)
    show "digit_loop n d (n div d) b up = Some (map (\<lambda>i. digit_char (of_nat i) up) (?q # ds))"
      using nz ds(1) nd by (subst digit_loop.simps) (simp add: Let_def)
    show "horner (unat b) (?q # ds) = unat n"
      using Suc(2) ds(2,4) by (simp add: horner_Cons unat_mod div_mult_mod_eq del: power_Suc)
  qed (use ds q in auto)
qed

lemma divisor_loop_spec:
  fixes n b d :: u64
  assumes "unat d = unat b ^ k" and "1 < unat b" and "k = 0 \<or> unat d \<le> unat n"
  shows "\<exists>d' m. divisor_loop n b d = Some d' \<and> unat d' = unat b ^ m \<and> unat n < unat b ^ Suc m
    \<and> (m = 0 \<or> unat b ^ m \<le> unat n)"
  using assms
proof (induction "unat n - unat d" arbitrary: d k rule: less_induct)
  case less
  have dpos: "unat d > 0" using less(2,3) by simp
  show ?case
  proof (cases "n div d < b")
    case True
    then have "unat n < unat b * unat d"
      using dpos by (simp add: word_less_nat_alt unat_div div_less_iff_less_mult)
    with True less(2,4) show ?thesis
      by (intro exI[of _ d] exI[of _ k]) (subst divisor_loop.simps, auto)
  next
    case False
    then have le: "unat b * unat d \<le> unat n"
      using dpos by (simp add: word_less_nat_alt unat_div not_less less_eq_div_iff_mult_less_eq)
    have "unat n < 2 ^ 64" using unat_less_2p[of n] by simp
    with le have m: "unat (d * b) = unat b ^ Suc k"
      using less(2) by (simp add: unat_mult_lem[symmetric] mult.commute unat_word_ariths)
    have "unat d < unat (d * b)" using less(2,3) m dpos by simp
    moreover have "unat (d * b) \<le> unat n" using m le less(2) by simp
    ultimately have "unat n - unat (d * b) < unat n - unat d" by simp
    from less(1)[OF this m less(3)] \<open>unat (d * b) \<le> unat n\<close> False show ?thesis
      by (subst divisor_loop.simps) simp
  qed
qed

lemma ntoa_spec:
  assumes "1 < unat b"
  shows "\<exists>ds. ntoa n b up = Some (map (\<lambda>i. digit_char (of_nat i) up) ds) \<and> (\<forall>i \<in> set ds. i < unat b)
    \<and> horner (unat b) ds = unat n \<and> ds \<noteq> [] \<and> (unat n \<noteq> 0 \<longrightarrow> hd ds \<noteq> 0) \<and> (unat n = 0 \<longrightarrow> ds = [0])
    \<and> (\<forall>m. unat n < unat b ^ m \<longrightarrow> m > 0 \<longrightarrow> length ds \<le> m)"
proof -
  from divisor_loop_spec[of 1 b 0 n] assms obtain d k where
    d: "divisor_loop n b 1 = Some d" "unat d = unat b ^ k" "unat n < unat b ^ Suc k" "k = 0 \<or> unat b ^ k \<le> unat n"
    by auto
  from digit_loop_spec[OF d(2,3) assms, of up] obtain ds where
    ds: "digit_loop n d (n div d) b up = Some (map (\<lambda>i. digit_char (of_nat i) up) ds)" "length ds = Suc k"
    "\<forall>i \<in> set ds. i < unat b" "horner (unat b) ds = unat n" "hd ds = unat n div unat b ^ k" by blast
  have len: "length ds \<le> m" if "unat n < unat b ^ m" "m > 0" for m
  proof (cases "k = 0")
    case False
    with d(4) that(1) have "unat b ^ k < unat b ^ m" by simp
    with assms ds(2) show ?thesis by simp
  qed (use ds(2) that in simp)
  have z: "ds = [0]" if "unat n = 0"
  proof -
    have "k = 0" using d(4) that assms by auto
    with ds(2,5) that show ?thesis by (cases ds) auto
  qed
  have h: "hd ds \<noteq> 0" if "unat n \<noteq> 0"
    using ds(5) d(4) that assms by (cases "k = 0") (auto simp: div_greater_zero_iff)
  show ?thesis
    using d(1) ds len z h by (intro exI[of _ ds]) (auto simp: ntoa_def)
qed

section \<open>Formatting refines a function on lists\<close>

definition sign_of :: "bool \<Rightarrow> string" where
  "sign_of bMinus = (if bMinus then ''-'' else [])"

lemma sign_of_simps [simp]: "sign_of True = ''-''" "sign_of False = []"
  by (simp_all add: sign_of_def)

lemma sign_of_length: "length (sign_of b) = (if b then 1 else 0)"
  by (simp add: sign_of_def)

definition pad_ref :: "format_spec \<Rightarrow> char \<Rightarrow> string \<Rightarrow> string" where
  "pad_ref f chPad s = (let k = unat (f_nWidth f) - length s in
     if f_bLeft f then s @ replicate k (CHR '' '') else replicate k chPad @ s)"

definition number_ref :: "format_spec \<Rightarrow> u64 \<Rightarrow> bool \<Rightarrow> va_value list \<Rightarrow> (va_value list \<times> string) option" where
  "number_ref f b up args = do {
     (n, args) \<leftarrow> va_unsigned (f_bLong f) args;
     s \<leftarrow> ntoa_NumBuf n b up;
     Some (args, pad_ref f (if f_bNull f then CHR ''0'' else CHR '' '') s) }"

definition arg_ref :: "format_spec \<Rightarrow> char \<Rightarrow> va_value list \<Rightarrow> (va_value list \<times> string) option" where
  "arg_ref f conv args =
     (if conv = CHR ''c'' then (case args of
          VaInt n # args \<Rightarrow> Some (args, pad_ref f (CHR '' '') [char_of (unat (ucast n :: u8))])
        | _ \<Rightarrow> None)
      else if conv = CHR ''d'' then do {
        (n, args) \<leftarrow> va_signed (f_bLong f) args;
        s \<leftarrow> ntoa_NumBuf (if sint n < 0 then - n else n) 10 False;
        Some (args, pad_ref f (CHR '' '') (sign_of (sint n < 0) @ s)) }
      else if conv = CHR ''o'' then number_ref f 8 False args
      else if conv = CHR ''s'' then (case args of
          VaString s # args \<Rightarrow> Some (args, pad_ref f (CHR '' '') s)
        | _ \<Rightarrow> None)
      else if conv = CHR ''u'' then number_ref f 10 False args
      else if conv = CHR ''x'' \<or> conv = CHR ''X'' then number_ref f 16 (conv = CHR ''X'') args
      else Some (args, [CHR ''%'', conv]))"

function format_ref :: "string \<Rightarrow> va_value list \<Rightarrow> string option" where
  "format_ref [] args = Some []"
| "format_ref (c # fmt) args =
     (if c \<noteq> CHR ''%'' then map_option ((#) c) (format_ref fmt args)
      else case fmt of
        [] \<Rightarrow> None
      | d # rest \<Rightarrow>
        if d = CHR ''%'' then map_option ((#) (CHR ''%'')) (format_ref rest args)
        else (case parse_spec fmt of
            (f, []) \<Rightarrow> None
          | (f, conv # rest) \<Rightarrow> do {
              (args, s) \<leftarrow> arg_ref f conv args;
              map_option ((@) s) (format_ref rest args) }))"
  by pat_completeness auto

termination
  by (relation "measure (\<lambda>(fmt, _). length fmt)") (auto dest!: parse_spec_length[OF sym])

text \<open>The string under construction holds \<open>out\<close>, with room for a terminator.\<close>

definition holds :: "TString \<Rightarrow> string \<Rightarrow> bool" where
  "holds this out \<longleftrightarrow> (\<exists>buf. s_pBuffer this = Some buf \<and> s_pInPtr this = length out
     \<and> take (length out) buf = out \<and> length out < length buf \<and> unat (s_nSize this) \<le> length buf
     \<and> NUL \<notin> set out)"

lemma write_at_Some: "i + length cs \<le> length buf \<Longrightarrow> write_at buf i cs = Some (take i buf @ cs @ drop (i + length cs) buf)"
  by (simp add: write_at_def)

lemma write_at_end:
  "\<lbrakk>write_at buf (length out) cs = Some buf'; take (length out) buf = out\<rbrakk>
   \<Longrightarrow> length buf' = length buf \<and> take (length out + length cs) buf' = out @ cs"
  by (auto simp: write_at_def split: if_splits)

lemma c_string_terminated: "NUL \<notin> set s \<Longrightarrow> c_string (s @ NUL # t) = Some s"
  by (induction s) (auto simp: c_string_def split: if_splits)

lemma unat_ucast_32_le: "unat (ucast (x :: u64) :: u32) \<le> unat x"
  by (simp add: unsigned_ucast_eq take_bit_nat_less_eq_self)

lemma reserve_ok:
  assumes m: "malloc_ok mal" and h: "holds this out" and b: "length out + n < 2 ^ 62"
  shows "\<exists>this'. StringReserveSpace mal (of_nat n) this = Some this' \<and> holds this' out
    \<and> (\<exists>buf. s_pBuffer this' = Some buf \<and> length out + n < length buf)"
proof -
  obtain buf where buf: "s_pBuffer this = Some buf" "s_pInPtr this = length out" "take (length out) buf = out"
    "length out < length buf" "unat (s_nSize this) \<le> length buf" "NUL \<notin> set out"
    using h by (auto simp: holds_def)
  have nn: "unat (of_nat n :: u64) = n" using b by (intro unat_of_nat_small) simp
  have e: "of_nat (length out) + of_nat n + 1 = (of_nat (length out + n + 1) :: u64)"
    "of_nat (length out) + of_nat n + 1 + FORMAT_RESERVE = (of_nat (length out + n + 65) :: u64)"
    by (simp_all add: FORMAT_RESERVE_def)
  have sz: "unat (of_nat (length out) + of_nat n + 1 :: u64) = length out + n + 1"
    unfolding e(1) using b by (intro unat_of_nat_small) simp
  have sz': "unat (of_nat (length out) + of_nat n + 1 + FORMAT_RESERVE :: u64) = length out + n + 65"
    unfolding e(2) using b by (intro unat_of_nat_small) simp
  show ?thesis
  proof (cases "n = 0")
    case True
    with h buf show ?thesis by (simp add: StringReserveSpace_def)
  next
    case False
    then have nz: "(of_nat n :: u64) \<noteq> 0" using nn by auto
    show ?thesis
    proof (cases "of_nat (length out) + of_nat n + 1 \<le> (ucast (s_nSize this) :: u64)")
      case True
      then have "length out + n + 1 \<le> unat (s_nSize this)"
        using sz by (simp add: word_le_nat_alt unat_ucast_up)
      with True nz buf h show ?thesis by (simp add: StringReserveSpace_def)
    next
      case F: False
      let ?new = "mal (length out + n + 65)"
      let ?n = "out @ NUL # drop (Suc (length out)) ?new"
      have ln: "length ?new = length out + n + 65" using m by (simp add: malloc_ok_def)
      have w: "write_at buf (length out) [NUL] = Some (out @ NUL # drop (Suc (length out)) buf)"
        using buf(3,4) by (simp add: write_at_def)
      have w': "write_at ?new 0 (out @ [NUL]) = Some ?n" using ln by (simp add: write_at_def)
      let ?t = "this\<lparr>s_pBuffer := Some ?n,
          s_nSize := ucast (of_nat (length out) + of_nat n + 1 + FORMAT_RESERVE :: u64), s_pInPtr := length out\<rparr>"
      have r: "StringReserveSpace mal (of_nat n) this = Some ?t"
        using F nz buf w w' sz' by (simp add: StringReserveSpace_def Let_def c_string_terminated)
      have "unat (ucast (of_nat (length out) + of_nat n + 1 + FORMAT_RESERVE :: u64) :: u32) \<le> length out + n + 65"
        using unat_ucast_32_le[of "of_nat (length out) + of_nat n + 1 + FORMAT_RESERVE"] sz' by simp
      then show ?thesis
        using buf(6) ln by (intro exI[of _ "?t"] conjI r) (simp_all add: holds_def)
    qed
  qed
qed

lemma put_string_ok:
  assumes "malloc_ok mal" and "holds this out" and "length (out @ s) < 2 ^ 62" and "NUL \<notin> set s"
  shows "\<exists>this'. StringPutString mal s this = Some this' \<and> holds this' (out @ s)"
proof -
  from reserve_ok[OF assms(1,2), of "length s"] assms(3) obtain this' buf where
    r: "StringReserveSpace mal (of_nat (length s)) this = Some this'" "holds this' out"
    "s_pBuffer this' = Some buf" "length out + length s < length buf" by auto
  let ?b = "out @ s @ NUL # drop (length out + Suc (length s)) buf"
  have w: "write_at buf (length out) (s @ [NUL]) = Some ?b"
    using r(2-4) by (auto simp: write_at_def holds_def)
  have "StringPutString mal s this = Some (this'\<lparr>s_pBuffer := Some ?b, s_pInPtr := length out + length s\<rparr>)"
    using r w by (auto simp: StringPutString_def holds_def)
  moreover have "holds (this'\<lparr>s_pBuffer := Some ?b, s_pInPtr := length out + length s\<rparr>) (out @ s)"
    using r(2-4) assms(4) by (auto simp: holds_def)
  ultimately show ?thesis by blast
qed

lemma put_char_ok:
  assumes "malloc_ok mal" and "holds this out" and "length out + n < 2 ^ 62" and "n = 0 \<or> c \<noteq> NUL"
  shows "\<exists>this'. StringPutChar mal c (of_nat n) this = Some this' \<and> holds this' (out @ replicate n c)"
proof -
  from reserve_ok[OF assms(1,2,3)] obtain this' buf where
    r: "StringReserveSpace mal (of_nat n) this = Some this'" "holds this' out"
    "s_pBuffer this' = Some buf" "length out + n < length buf" by auto
  have nn: "unat (of_nat n :: u64) = n" using assms(3) by (intro unat_of_nat_small) simp
  let ?b = "out @ replicate n c @ drop (length out + n) buf"
  have w: "write_at buf (length out) (replicate n c) = Some ?b"
    using r(2-4) by (auto simp: write_at_def holds_def)
  have "StringPutChar mal c (of_nat n) this = Some (this'\<lparr>s_pBuffer := Some ?b, s_pInPtr := length out + n\<rparr>)"
    using r w nn by (auto simp: StringPutChar_def holds_def)
  moreover have "holds (this'\<lparr>s_pBuffer := Some ?b, s_pInPtr := length out + n\<rparr>) (out @ replicate n c)"
    using r(2-4) assms(4) by (auto simp: holds_def)
  ultimately show ?thesis by blast
qed

lemma put_one_ok:
  "\<lbrakk>malloc_ok mal; holds this out; length out + 1 < 2 ^ 62; c \<noteq> NUL\<rbrakk>
   \<Longrightarrow> \<exists>this'. StringPutChar mal c 1 this = Some this' \<and> holds this' (out @ [c])"
  using put_char_ok[of mal this out 1 c] by simp

text \<open>Padding, as the conditional call of \<^verbatim>\<open>StringPutChar\<close> does it.\<close>

lemma pad_ok:
  assumes m: "malloc_ok mal" and h: "holds this out" and b: "length out + (unat v - n) < 2 ^ 62"
    and c: "c \<noteq> NUL" and nn: "unat N = n"
  shows "\<exists>this'. (if v > N then StringPutChar mal c (v - N) this else Some this) = Some this'
     \<and> holds this' (out @ replicate (unat v - n) c)"
proof (cases "v > N")
  case True
  then have "unat (v - N) = unat v - n" using nn by (simp add: unat_sub order_less_imp_le)
  then have "v - N = of_nat (unat v - n)" by (metis of_nat_unat ucast_id)
  with put_char_ok[OF m h b] c True show ?thesis by simp
next
  case False
  with nn h show ?thesis by (simp add: word_less_nat_alt)
qed

lemma put_pieces_ok:
  assumes "malloc_ok mal" and "holds this out" and "length out + Suc (length s) < 2 ^ 62" and "NUL \<notin> set s"
  shows "\<exists>this'. put_pieces mal bMinus s this = Some this' \<and> holds this' (out @ sign_of bMinus @ s)"
proof (cases bMinus)
  case True
  from put_one_ok[OF assms(1,2), of "CHR ''-''"] assms(3) obtain t where
    t: "StringPutChar mal (CHR ''-'') 1 this = Some t" "holds t (out @ ''-'')" by auto
  from put_string_ok[OF assms(1) t(2), of s] assms(3,4) t(1) True show ?thesis by (simp add: put_pieces_def)
next
  case False
  with put_string_ok[OF assms(1,2), of s] assms(3,4) show ?thesis by (simp add: put_pieces_def)
qed

lemma put_padded_ok:
  assumes m: "malloc_ok mal" and h: "holds this out" and c: "chPad \<noteq> NUL" and s: "NUL \<notin> set s"
    and t: "t = pad_ref f chPad (sign_of bMinus @ s)" and b: "length out + length t + 1 < 2 ^ 62"
  shows "\<exists>this'. put_padded mal f chPad bMinus s this = Some this' \<and> holds this' (out @ t)"
proof -
  define n where "n = length (sign_of bMinus @ s)"
  define N where "N = of_nat (length s) + (if bMinus then 1 else 0 :: u64)"
  have ln: "length out + n + 1 < 2 ^ 62" "length out + n + (unat (f_nWidth f) - n) < 2 ^ 62"
    using b t by (auto simp: pad_ref_def Let_def n_def split: if_splits)
  have "N = of_nat n" by (cases bMinus) (simp_all add: N_def n_def)
  then have N: "unat N = n" using ln(1) by (simp add: unat_of_nat_small)
  show ?thesis
  proof (cases "f_bLeft f")
    case True
    from put_pieces_ok[OF m h _ s, of bMinus] b t True obtain t1 where
      t1: "put_pieces mal bMinus s this = Some t1" "holds t1 (out @ sign_of bMinus @ s)"
      by (auto simp: pad_ref_def Let_def)
    from pad_ok[OF m t1(2) _ _ N, of "f_nWidth f" "CHR '' ''"] ln True t1(1) t show ?thesis
      by (simp add: put_padded_def pad_ref_def Let_def N_def[symmetric] n_def[symmetric] split del: if_split)
         (simp add: n_def)
  next
    case False
    from pad_ok[OF m h _ c N, of "f_nWidth f"] ln obtain t1 where
      t1: "(if f_nWidth f > N then StringPutChar mal chPad (f_nWidth f - N) this else Some this) = Some t1"
      "holds t1 (out @ replicate (unat (f_nWidth f) - n) chPad)" by auto
    from put_pieces_ok[OF m t1(2) _ s, of bMinus] b False t1(1) t show ?thesis
      by (simp add: put_padded_def pad_ref_def Let_def N_def[symmetric] n_def[symmetric] split del: if_split)
         (simp add: n_def sign_of_length)
  qed
qed

lemma put_char_padded_ok:
  assumes m: "malloc_ok mal" and h: "holds this out" and c: "ch \<noteq> NUL"
    and t: "t = pad_ref f (CHR '' '') [ch]" and b: "length out + length t + 1 < 2 ^ 62"
  shows "\<exists>this'. put_char_padded mal f ch this = Some this' \<and> holds this' (out @ t)"
proof -
  have ln: "length out + 2 < 2 ^ 62" "length out + 1 + (unat (f_nWidth f) - 1) < 2 ^ 62"
    using b t by (auto simp: pad_ref_def Let_def split: if_splits)
  show ?thesis
  proof (cases "f_bLeft f")
    case True
    from put_one_ok[OF m h _ c] ln obtain t1 where t1: "StringPutChar mal ch 1 this = Some t1" "holds t1 (out @ [ch])"
      by auto
    from pad_ok[OF m t1(2), of "f_nWidth f" 1 "CHR '' ''" 1] ln True t1(1) t show ?thesis
      by (simp add: put_char_padded_def pad_ref_def Let_def)
  next
    case False
    from pad_ok[OF m h, of "f_nWidth f" 1 "CHR '' ''" 1] ln obtain t1 where
      t1: "(if f_nWidth f > 1 then StringPutChar mal (CHR '' '') (f_nWidth f - 1) this else Some this) = Some t1"
      "holds t1 (out @ replicate (unat (f_nWidth f) - 1) (CHR '' ''))" by auto
    from put_one_ok[OF m t1(2) _ c] ln False t1(1) t show ?thesis
      by (simp add: put_char_padded_def pad_ref_def Let_def)
  qed
qed

lemma digit_char_nonzero: "i < 36 \<Longrightarrow> digit_char (of_nat i) up \<noteq> NUL"
proof -
  assume i: "i < 36"
  have "\<forall>i \<in> set [0..<36]. \<forall>up. digit_char (of_nat i) up \<noteq> NUL" by code_simp
  with i show ?thesis by simp
qed

lemma ntoa_NumBuf_nonzero:
  assumes "ntoa_NumBuf n b up = Some s" and "1 < unat b" and "unat b \<le> 36"
  shows "NUL \<notin> set s"
proof -
  from ntoa_spec[OF assms(2), of n up] obtain ds where
    ds: "ntoa n b up = Some (map (\<lambda>i. digit_char (of_nat i) up) ds)" "\<forall>i \<in> set ds. i < unat b" by blast
  have "\<forall>i \<in> set ds. digit_char (of_nat i) up \<noteq> NUL"
  proof
    fix i assume "i \<in> set ds"
    with ds(2) have "i < unat b" by blast
    with assms(3) show "digit_char (of_nat i) up \<noteq> NUL" by (intro digit_char_nonzero) simp
  qed
  moreover have "s = map (\<lambda>i. digit_char (of_nat i) up) ds"
    using ds(1) assms(1) by (simp add: ntoa_NumBuf_def split: if_splits)
  ultimately show ?thesis by (simp add: image_iff) metis
qed

lemma format_number_ok:
  assumes m: "malloc_ok mal" and h: "holds this out" and r: "number_ref f b up args = Some (args', t)"
    and b: "1 < unat b" "unat b \<le> 36" and l: "length out + length t + 1 < 2 ^ 62"
  shows "\<exists>this'. format_number mal f b up args this = Some (args', this') \<and> holds this' (out @ t)"
proof -
  from r obtain n s where n: "va_unsigned (f_bLong f) args = Some (n, args')" "ntoa_NumBuf n b up = Some s"
    "t = pad_ref f (if f_bNull f then CHR ''0'' else CHR '' '') s"
    by (auto simp: number_ref_def bind_Some_iff)
  from put_padded_ok[OF m h, where bMinus = False and s = s and f = f and t = t
      and chPad = "if f_bNull f then CHR ''0'' else CHR '' ''"] ntoa_NumBuf_nonzero[OF n(2) b] n l
  show ?thesis by (auto simp: format_number_def)
qed

lemma format_arg_ok:
  assumes m: "malloc_ok mal" and h: "holds this out" and r: "arg_ref f conv args = Some (args', t)"
    and z: "NUL \<notin> set t" and l: "length out + length t + 1 < 2 ^ 62"
  shows "\<exists>this'. format_arg mal f conv args this = Some (args', this') \<and> holds this' (out @ t)"
proof -
  have sub: "NUL \<notin> set s" if "t = pad_ref f c s" for c s
    using z that by (auto simp: pad_ref_def Let_def split: if_splits)
  note nums = format_number_ok[OF m h _ _ _ l]
  consider (c) n as where "conv = CHR ''c''" "args = VaInt n # as"
    | (d) "conv = CHR ''d''" | (s) s as where "conv = CHR ''s''" "args = VaString s # as"
    | (num) "conv \<in> {CHR ''o'', CHR ''u'', CHR ''x'', CHR ''X''}"
    | (other) "conv \<notin> {CHR ''c'', CHR ''d'', CHR ''s'', CHR ''o'', CHR ''u'', CHR ''x'', CHR ''X''}"
    using r by (auto simp: arg_ref_def split: if_splits list.splits va_value.splits)
  then show ?thesis
  proof cases
    case c
    with r have t: "t = pad_ref f (CHR '' '') [char_of (unat (ucast n :: u8))]" "args' = as"
      by (auto simp: arg_ref_def)
    from put_char_padded_ok[OF m h _ t(1) l] sub[OF t(1)] c t(2) show ?thesis by (auto simp: format_arg_def)
  next
    case d
    with r obtain n s where n: "va_signed (f_bLong f) args = Some (n, args')"
      "ntoa_NumBuf (if sint n < 0 then - n else n) 10 False = Some s"
      "t = pad_ref f (CHR '' '') (sign_of (sint n < 0) @ s)"
      by (auto simp: arg_ref_def bind_Some_iff)
    have "NUL \<notin> set s" using ntoa_NumBuf_nonzero[OF n(2)] by simp
    from put_padded_ok[OF m h _ this n(3) l] n(1,2) d show ?thesis by (auto simp: format_arg_def Let_def)
  next
    case s
    with r have t: "t = pad_ref f (CHR '' '') (sign_of False @ s)" "args' = as"
      by (auto simp: arg_ref_def)
    have "NUL \<notin> set s" using sub[of "CHR '' ''" s] t(1) by simp
    from put_padded_ok[OF m h _ this t(1) l] s t show ?thesis by (auto simp: format_arg_def)
  next
    case num
    with r nums show ?thesis by (auto simp: arg_ref_def format_arg_def)
  next
    case other
    with r have t: "t = [CHR ''%'', conv]" "args' = args" by (auto simp: arg_ref_def)
    from put_one_ok[OF m h, of "CHR ''%''"] l t obtain t1 where
      t1: "StringPutChar mal (CHR ''%'') 1 this = Some t1" "holds t1 (out @ ''%'')" by auto
    from put_one_ok[OF m t1(2), of conv] l t z t1(1) other show ?thesis by (auto simp: format_arg_def)
  qed
qed


lemma format_loop_ok:
  assumes "malloc_ok mal" and "holds this out" and "format_ref fmt args = Some t"
    and "NUL \<notin> set t" and "length out + length t + 1 < 2 ^ 62"
  shows "\<exists>this'. format_loop mal fmt args this = Some this' \<and> holds this' (out @ t)"
  using assms(2-)
proof (induction fmt args arbitrary: this out t rule: format_ref.induct)
  case (1 args)
  then show ?case by simp
next
  case (2 c fmt args)
  show ?case
  proof (cases "c = CHR ''%''")
    case False
    from 2(5) False obtain t' where t': "format_ref fmt args = Some t'" "t = c # t'" by auto
    from put_one_ok[OF assms(1) 2(4), of c] 2(6,7) t' obtain s1 where
      s1: "StringPutChar mal c 1 this = Some s1" "holds s1 (out @ [c])" by auto
    from 2(1)[OF False s1(2) t'(1)] 2(6,7) t'(2) s1(1) False show ?thesis by simp
  next
    case True
    from 2(5) True obtain d rest where fmt: "fmt = d # rest" by (cases fmt) auto
    show ?thesis
    proof (cases "d = CHR ''%''")
      case d: True
      from 2(5) True d obtain t' where t': "format_ref rest args = Some t'" "t = CHR ''%'' # t'" by (auto simp: fmt)
      from put_one_ok[OF assms(1) 2(4), of "CHR ''%''"] 2(7) t' obtain s1 where
        s1: "StringPutChar mal (CHR ''%'') 1 this = Some s1" "holds s1 (out @ ''%'')" by auto
      from 2(2)[OF _ fmt d s1(2) t'(1)] 2(6,7) t'(2) s1(1) True d show ?thesis by (simp add: fmt)
    next
      case d: False
      from 2(5) True d obtain f conv rest' args' s t' where
        p: "parse_spec fmt = (f, conv # rest')" and a: "arg_ref f conv args = Some (args', s)"
        and t': "format_ref rest' args' = Some t'" "t = s @ t'"
        by (auto simp: fmt bind_Some_iff split: prod.splits list.splits)
      from format_arg_ok[OF assms(1) 2(4) a] 2(6,7) t'(2) obtain s1 where
        s1: "format_arg mal f conv args this = Some (args', s1)" "holds s1 (out @ s)" by auto
      from 2(3)[OF _ fmt d p[symmetric] refl _ refl s1(2) t'(1)] a 2(6,7) t'(2) s1(1) True d p show ?thesis
        by (simp add: fmt)
    qed
  qed
qed


section \<open>Properties\<close>

text \<open>
  The value of a digit character, as a reader of the printed number takes it.\<close>

definition digit_value :: "char \<Rightarrow> nat" where
  "digit_value c = (let n = of_char c in if n < 0x3A then n - 0x30 else if n < 0x61 then n - 0x37 else n - 0x57)"

lemma digit_value_char:
  assumes i: "i < 36"
  shows "digit_value (digit_char (of_nat i) up) = i"
proof -
  have u: "unat (of_nat k :: u64) = k" if "k < 128" for k using that by (intro unat_of_nat_small) simp
  have e: "(0x30 + of_nat i :: u64) = of_nat (48 + i)" "(0x30 + of_nat i + 7 :: u64) = of_nat (55 + i)"
    "(0x30 + of_nat i + 7 + 0x20 :: u64) = of_nat (87 + i)" by simp_all
  have lt: "(of_nat i :: u64) < 10 \<longleftrightarrow> i < 10" using i u[of i] by (simp add: word_less_nat_alt)
  show ?thesis
    using i u[of "48 + i"] u[of "55 + i"] u[of "87 + i"] lt
    by (cases "i < 10"; cases up)
       (simp_all only: digit_char_def e if_True if_False add_0_right,
        simp_all add: digit_value_def Let_def)
qed

text \<open>
  Claim C25.  For every base from 2 to 36 and every 64-bit number, \<^verbatim>\<open>ntoa\<close> terminates, and reading the characters it
  wrote as a numeral in that base gives the number back; there is no leading zero, except for the number 0,
  which is written as one digit.
\<close>

theorem ntoa_roundtrip:
  assumes "1 < unat nBase" and "unat nBase \<le> 36"
  shows "\<exists>s. ntoa ulNumber nBase bUpcase = Some s \<and> s \<noteq> []
    \<and> horner (unat nBase) (map digit_value s) = unat ulNumber
    \<and> (ulNumber \<noteq> 0 \<longrightarrow> hd s \<noteq> CHR ''0'') \<and> (ulNumber = 0 \<longrightarrow> s = ''0'')"
proof -
  from ntoa_spec[OF assms(1), of ulNumber bUpcase] obtain ds where
    ds: "ntoa ulNumber nBase bUpcase = Some (map (\<lambda>i. digit_char (of_nat i) bUpcase) ds)"
    "\<forall>i \<in> set ds. i < unat nBase" "horner (unat nBase) ds = unat ulNumber" "ds \<noteq> []"
    "unat ulNumber \<noteq> 0 \<longrightarrow> hd ds \<noteq> 0" "unat ulNumber = 0 \<longrightarrow> ds = [0]" by (elim exE conjE) (rule that)
  let ?s = "map (\<lambda>i. digit_char (of_nat i) bUpcase) ds"
  have lt: "\<forall>i \<in> set ds. i < 36" using ds(2) assms(2) by auto
  then have v: "map digit_value ?s = ds" by (simp only: map_map) (rule map_idI, simp add: digit_value_char)
  have h: "hd ?s \<noteq> CHR ''0''" if "ulNumber \<noteq> 0"
  proof
    assume "hd ?s = CHR ''0''"
    moreover have "hd (map digit_value ?s) = digit_value (hd ?s)" using ds(4) by (simp add: hd_map)
    ultimately have "hd ds = 0" using v by (simp add: digit_value_def)
    with ds(5) that show False by (simp add: unat_eq_zero)
  qed
  have z: "?s = ''0''" if "ulNumber = 0" using ds(6) that by (simp add: digit_char_def char_of_def bit_0)
  from ds(1,3,4) v h z show ?thesis by (intro exI[of _ ?s]) auto
qed

theorem ntoa_roundtrip_witness:
  "\<exists>s. ntoa 4096 16 True = Some s \<and> horner 16 (map digit_value s) = 4096"
  using ntoa_roundtrip[of 16 4096 True] by auto

lemma holds_start: "malloc_ok mal \<Longrightarrow>
    holds (this\<lparr>s_nSize := ucast FORMAT_RESERVE, s_pBuffer := Some (mal (unat FORMAT_RESERVE)), s_pInPtr := 0\<rparr>) []"
  by (auto simp: holds_def malloc_ok_def FORMAT_RESERVE_def simp flip: length_greater_0_conv)

lemma StringFormatV_ok:
  assumes "malloc_ok mal" and "format_ref pFormat Args = Some t" and "NUL \<notin> set t" and "length t + 1 < 2 ^ 62"
  shows "\<exists>this'. StringFormatV mal this pFormat Args = Some this' \<and> StringGet this' = Some t
    \<and> StringGetLength this' = Some (length t)"
proof -
  from format_loop_ok[OF assms(1) holds_start[OF assms(1), of this] assms(2,3)] assms(4) obtain s1 where
    s1: "format_loop mal pFormat Args (this\<lparr>s_nSize := ucast FORMAT_RESERVE,
           s_pBuffer := Some (mal (unat FORMAT_RESERVE)), s_pInPtr := 0\<rparr>) = Some s1" "holds s1 t" by auto
  from s1(2) obtain buf where buf: "s_pBuffer s1 = Some buf" "take (length t) buf = t" "length t < length buf"
    "s_pInPtr s1 = length t" by (auto simp: holds_def)
  have w: "write_at buf (length t) [NUL] = Some (t @ NUL # drop (Suc (length t)) buf)"
    using buf by (simp add: write_at_def)
  show ?thesis
    using s1(1) buf w assms(3)
    by (simp add: StringFormatV_def Let_def StringGet_def StringGetLength_def c_string_terminated)
qed

text \<open>
  Claim C22.  \<^verbatim>\<open>StringFormatV\<close> implements the reference formatter \<open>format_ref\<close>, a plain function on lists: whenever the
  arguments fit the format (and so the reference gives a text) and the text holds no zero byte, the function
  returns, has grown its buffer so that no write went past it, and the string object holds exactly that text.
\<close>

theorem StringFormatV_refines:
  assumes "malloc_ok mal" and "format_ref pFormat Args = Some t" and "NUL \<notin> set t" and "length t + 1 < 2 ^ 62"
  shows "\<exists>this'. StringFormatV mal this pFormat Args = Some this' \<and> StringGet this' = Some t
    \<and> StringGetLength this' = Some (length t)"
  by (rule StringFormatV_ok[OF assms])

theorem StringFormatV_refines_witness:
  "\<exists>this'. StringFormatV (\<lambda>n. replicate n (CHR ''?'')) \<lparr>s_pBuffer = None, s_nSize = 0, s_pInPtr = 0\<rparr>
       ''%s%-4u|%04x|%d'' [VaString ''umsd'', VaInt 12, VaInt 0xBEE, VaInt (- 7)] = Some this'
     \<and> StringGet this' = Some ''umsd12  |0bee|-7''"
proof -
  have r: "format_ref ''%s%-4u|%04x|%d'' [VaString ''umsd'', VaInt 12, VaInt 0xBEE, VaInt (- 7)]
      = Some ''umsd12  |0bee|-7''" by code_simp
  show ?thesis
    using StringFormatV_refines[OF _ r, of "\<lambda>n. replicate n (CHR ''?'')"] by (auto simp: malloc_ok_def)
qed

text \<open>
  \<^verbatim>\<open>NumBuf\<close> holds 11 digits.  A 32-bit argument always fits, in every base the formatter uses, but a 64-bit
  argument (\<^verbatim>\<open>%lu\<close> on AArch64) does not: the conversion of \<open>10 ^ 11\<close> already runs over the array.
\<close>

theorem NumBuf_bounds:
  "(\<forall>n b. unat n < 2 ^ 32 \<longrightarrow> b \<in> {8, 10, 16} \<longrightarrow> (\<exists>s. ntoa_NumBuf n b up = Some s))
   \<and> ntoa_NumBuf (10 ^ 11) 10 up = None"
proof (intro conjI allI impI)
  fix n b :: u64 assume n: "unat n < 2 ^ 32" and "b \<in> {8, 10, 16}"
  then have b: "1 < unat b" "unat n < unat b ^ 11" by auto
  from ntoa_spec[OF b(1), of n up] obtain ds where
    "ntoa n b up = Some (map (\<lambda>i. digit_char (of_nat i) up) ds)" "length ds \<le> 11"
    using b(2) by (metis zero_less_numeral)
  then show "\<exists>s. ntoa_NumBuf n b up = Some s" by (simp add: ntoa_NumBuf_def MAX_NUMBER_LEN_def)
qed (cases up; code_simp)

theorem NumBuf_bounds_witness: "\<exists>s. ntoa_NumBuf 0xFFFFFFFF 8 False = Some s"
  using NumBuf_bounds[of False] by auto

end
