(* ===== verification/DeviceNames.thy ===== *)
theory DeviceNames
  imports CString
begin

text \<open>
  The device name service (\<^verbatim>\<open>lib/devicenameservice.c\<close>): the list in which the device drivers enter the
  devices they have configured, and in which the library looks them up by name.

  The list nodes hang off \<^verbatim>\<open>m_pList\<close>, newest first: a list of records.  The static \<^verbatim>\<open>s_pThis\<close> points to the
  only object there may be; the state is that object, \<open>None\<close> before construction and after destruction.  An entry has two blocks of the
  heap, its node and the copy of its name; both come from \<^verbatim>\<open>malloc\<close>, which is taken to succeed, and the destructor lists the blocks it passes to
  \<^verbatim>\<open>free\<close>, in order.
\<close>

section \<open>Model\<close>

record TDeviceInfo =
  di_pName :: "string option"
  di_pDevice :: "addr option"
  di_bBlockDevice :: bool

record TDeviceNameService =
  dns_pList :: "TDeviceInfo list"

definition DeviceNameService :: "TDeviceNameService option \<Rightarrow> TDeviceNameService option option" where
  "DeviceNameService s_pThis = do {
     c_assert (s_pThis = None);
     Some (Some \<lparr>dns_pList = []\<rparr>) }"

datatype name_block = NameBlock string | InfoBlock TDeviceInfo

fun free_infos :: "TDeviceInfo list \<Rightarrow> name_block list option" where
  "free_infos [] = Some []"
| "free_infos (pInfo # pNext) = do {
     pName \<leftarrow> di_pName pInfo;
     freed \<leftarrow> free_infos pNext;
     Some (NameBlock pName # InfoBlock pInfo # freed) }"

definition DeviceNameService_dtor :: "TDeviceNameService \<Rightarrow> (name_block list \<times> TDeviceNameService option) option" where
  "DeviceNameService_dtor pThis = do { freed \<leftarrow> free_infos (dns_pList pThis); Some (freed, None) }"

definition DeviceNameServiceAddDevice ::
    "TDeviceNameService \<Rightarrow> string option \<Rightarrow> addr option \<Rightarrow> bool \<Rightarrow> TDeviceNameService option" where
  "DeviceNameServiceAddDevice pThis pName pDevice bBlockDevice = do {
     c_assert (pName \<noteq> None);
     c_assert (pDevice \<noteq> None);
     let pInfo = \<lparr>di_pName = pName, di_pDevice = pDevice, di_bBlockDevice = bBlockDevice\<rparr>;
     Some (pThis\<lparr>dns_pList := pInfo # dns_pList pThis\<rparr>) }"

fun find_info :: "TDeviceInfo list \<Rightarrow> string \<Rightarrow> bool \<Rightarrow> addr option option" where
  "find_info [] pName bBlockDevice = Some None"
| "find_info (pInfo # rest) pName bBlockDevice = do {
     n \<leftarrow> di_pName pInfo;
     if char_order pName n = 0 \<and> di_bBlockDevice pInfo = bBlockDevice
     then do { c_assert (di_pDevice pInfo \<noteq> None); Some (di_pDevice pInfo) }
     else find_info rest pName bBlockDevice }"

definition DeviceNameServiceGetDevice ::
    "TDeviceNameService \<Rightarrow> string option \<Rightarrow> bool \<Rightarrow> addr option option" where
  "DeviceNameServiceGetDevice pThis pName bBlockDevice = do {
     n \<leftarrow> pName; find_info (dns_pList pThis) n bBlockDevice }"

definition DeviceNameServiceGet :: "TDeviceNameService option \<Rightarrow> TDeviceNameService option" where
  "DeviceNameServiceGet s_pThis = s_pThis"

section \<open>The service is a finite map\<close>

text \<open>Every entry has a name and a device; what the list means is a map from name and kind to the device.\<close>

definition names_ok :: "TDeviceNameService \<Rightarrow> bool" where
  "names_ok s \<longleftrightarrow> (\<forall>i \<in> set (dns_pList s). di_pName i \<noteq> None \<and> di_pDevice i \<noteq> None)"

definition names_map :: "TDeviceNameService \<Rightarrow> string \<times> bool \<rightharpoonup> addr" where
  "names_map s = map_of (map (\<lambda>i. ((the (di_pName i), di_bBlockDevice i), the (di_pDevice i))) (dns_pList s))"

lemma find_info_map:
  "\<forall>i \<in> set is. di_pName i \<noteq> None \<and> di_pDevice i \<noteq> None \<Longrightarrow>
   find_info is n b = Some (map_of (map (\<lambda>i. ((the (di_pName i), di_bBlockDevice i), the (di_pDevice i))) is) (n, b))"
  by (induction "is") auto

lemma free_infos_ok:
  "\<forall>i \<in> set is. di_pName i \<noteq> None \<Longrightarrow>
   free_infos is = Some (concat (map (\<lambda>i. [NameBlock (the (di_pName i)), InfoBlock i]) is))"
  by (induction "is") auto

text \<open>What the clients of a name registry rely on, and what follows from it for a sequence of registrations.\<close>

locale name_registry =
  fixes ok :: "'s \<Rightarrow> bool" and register :: "'s \<Rightarrow> string \<Rightarrow> bool \<Rightarrow> addr \<Rightarrow> 's option"
    and find :: "'s \<Rightarrow> string \<Rightarrow> bool \<Rightarrow> addr option option"
  assumes register_ok: "ok s \<Longrightarrow> \<exists>s'. register s n b d = Some s' \<and> ok s'"
    and find_register: "\<lbrakk>ok s; register s n b d = Some s'\<rbrakk> \<Longrightarrow>
          find s' n' b' = (if (n', b') = (n, b) then Some (Some d) else find s n' b')"
begin

fun register_all :: "(string \<times> bool \<times> addr) list \<Rightarrow> 's \<Rightarrow> 's option" where
  "register_all [] s = Some s"
| "register_all ((n, b, d) # es) s = Option.bind (register s n b d) (register_all es)"

lemma register_all_ok: "ok s \<Longrightarrow> \<exists>s'. register_all es s = Some s' \<and> ok s'"
proof (induction es arbitrary: s)
  case (Cons e es)
  obtain n b d where "e = (n, b, d)" by (cases e)
  with register_ok[OF Cons.prems, of n b d] Cons.IH show ?case by auto
qed simp

lemma find_register_all:
  assumes "ok s" and "register_all es s = Some s'"
  shows "find s' n b = (case map_of (rev (map (\<lambda>(n, b, d). ((n, b), d)) es)) (n, b) of
           Some d \<Rightarrow> Some (Some d) | None \<Rightarrow> find s n b)"
  using assms
proof (induction es arbitrary: s)
  case (Cons e es)
  obtain m c d where e: "e = (m, c, d)" by (cases e)
  from Cons.prems(2) obtain s1 where s1: "register s m c d = Some s1" "register_all es s1 = Some s'"
    by (auto simp: e bind_Some_iff)
  from register_ok[OF Cons.prems(1), of m c d] s1(1) have "ok s1" by auto
  from Cons.IH[OF this s1(2)] find_register[OF Cons.prems(1) s1(1)] show ?case
    by (auto simp: e map_add_def split: option.splits)
qed simp

end

definition names_register :: "TDeviceNameService \<Rightarrow> string \<Rightarrow> bool \<Rightarrow> addr \<Rightarrow> TDeviceNameService option" where
  "names_register s n b d = DeviceNameServiceAddDevice s (Some n) (Some d) b"

definition names_find :: "TDeviceNameService \<Rightarrow> string \<Rightarrow> bool \<Rightarrow> addr option option" where
  "names_find s n b = DeviceNameServiceGetDevice s (Some n) b"

lemma names_find_map: "names_ok s \<Longrightarrow> names_find s n b = Some (names_map s (n, b))"
  by (simp add: names_find_def DeviceNameServiceGetDevice_def names_ok_def names_map_def find_info_map)

lemma names_register_map:
  "names_register s n b d = Some s' \<Longrightarrow> names_ok s \<Longrightarrow> names_ok s' \<and> names_map s' = (names_map s)((n, b) \<mapsto> d)"
  by (auto simp: names_register_def DeviceNameServiceAddDevice_def names_ok_def names_map_def Let_def)

interpretation names: name_registry names_ok names_register names_find
proof
  show "\<exists>s'. names_register s n b d = Some s' \<and> names_ok s'" if "names_ok s" for s n b d
    using that by (auto simp: names_register_def DeviceNameServiceAddDevice_def names_ok_def Let_def)
  show "names_find s' n' b' = (if (n', b') = (n, b) then Some (Some d) else names_find s n' b')"
    if "names_ok s" "names_register s n b d = Some s'" for s n b d s' n' b'
    using names_register_map[OF that(2,1)] that(1) by (simp add: names_find_map)
qed

text \<open>A registration enters one node at the head of the list.\<close>

definition name_entry :: "string \<times> bool \<times> addr \<Rightarrow> TDeviceInfo" where
  "name_entry r = (case r of (n, b, d) \<Rightarrow> \<lparr>di_pName = Some n, di_pDevice = Some d, di_bBlockDevice = b\<rparr>)"

lemma register_all_list: "names.register_all es s = Some s' \<Longrightarrow> dns_pList s' = rev (map name_entry es) @ dns_pList s"
proof (induction es arbitrary: s)
  case (Cons e es)
  obtain n b d where e: "e = (n, b, d)" by (cases e)
  from Cons.prems obtain s1 where s1: "names_register s n b d = Some s1" "names.register_all es s1 = Some s'" by (auto simp: e bind_Some_iff)
  from s1(1) have "dns_pList s1 = name_entry e # dns_pList s"
    by (auto simp: e name_entry_def names_register_def DeviceNameServiceAddDevice_def Let_def)
  with Cons.IH[OF s1(2)] show ?case by simp
qed simp

text \<open>
  Claim C26.  After any sequence of registrations in a consistent name service no assertion fails, a lookup gives the
  device registered last under that name and kind, or what the service gave before if there is none;
  and the destructor frees the name and the node of every entry once, of the new ones from the last to the first and then of the
  old ones.
\<close>

theorem name_service_lookup:
  assumes "names_ok s" and "names.register_all es s = Some s'"
  shows "names_find s' n b = (case map_of (rev (map (\<lambda>(n, b, d). ((n, b), d)) es)) (n, b) of
           Some d \<Rightarrow> Some (Some d) | None \<Rightarrow> names_find s n b)
     \<and> DeviceNameService_dtor s' = Some (concat (map (\<lambda>i. [NameBlock (the (di_pName i)), InfoBlock i])
          (rev (map name_entry es) @ dns_pList s)), None)"
proof -
  have "names_ok s'" using names.register_all_ok[OF assms(1), of es] assms(2) by simp
  then have "DeviceNameService_dtor s' = Some (concat (map (\<lambda>i. [NameBlock (the (di_pName i)), InfoBlock i]) (dns_pList s')), None)"
    by (simp add: DeviceNameService_dtor_def names_ok_def free_infos_ok)
  with names.find_register_all[OF assms] register_all_list[OF assms(2)] show ?thesis by simp
qed

theorem name_service_lookup_witness:
  "\<exists>s'. names.register_all [(''umsd1'', True, 5), (''ukbd1'', False, 6), (''umsd1'', True, 7)] \<lparr>dns_pList = []\<rparr> = Some s'
     \<and> names_find s' ''umsd1'' True = Some (Some 7) \<and> names_find s' ''umsd1'' False = Some None
     \<and> map_option (length \<circ> fst) (DeviceNameService_dtor s') = Some 6"
proof -
  have ok: "names_ok \<lparr>dns_pList = []\<rparr>" by (simp add: names_ok_def)
  from names.register_all_ok[OF ok] obtain s' where
    s': "names.register_all [(''umsd1'', True, 5), (''ukbd1'', False, 6), (''umsd1'', True, 7)] \<lparr>dns_pList = []\<rparr> = Some s'"
    by blast
  from name_service_lookup[OF ok s', of "''umsd1''" True] name_service_lookup[OF ok s', of "''umsd1''" False] s'
  show ?thesis by (simp add: names_find_map[OF ok] names_map_def)
qed

end
