(* ===== verification/UsbFunction.thy ===== *)
theory UsbFunction
  imports TransferFrame ConfigParser Util DeviceNames
begin

text \<open>
  The base class of the device drivers (\<^verbatim>\<open>lib/usbfunction.c\<close>) and the data its transfers carry.

  The host driver of \<open>HostTransfer\<close> programs addresses and lengths; the bytes themselves move by DMA.
  Here the world gets the memory they move to and from: an IN transfer that reports \<open>r\<close> bytes
  leaves the next \<open>r\<close> bytes the device sends (an oracle) in the buffer, an OUT transfer hands the
  buffer's bytes to the device.  \<open>w_wire\<close> records the transfers, oldest first.

  Local variables whose address a function passes on (request blocks, setup packets, command
  and response structures) live at addresses given by \<open>locals\<close>, objects from the heap at addresses that
  are arguments as well.
\<close>

unbundle bit_operations_syntax

section \<open>Memory and wire\<close>

datatype wire_event =
    WireOut "addr option" "u8 list" int
  | WireIn "addr option" "u8 list" int
  | WireControl u8 u8 u16 u16 u16 int
  | WireControlData u8 u8 u16 u16 "u8 list" int

text \<open>The drivers' \<^verbatim>\<open>Configure\<close> routines, which also name the driver classes.\<close>

datatype configure_routine =
    StandardHubConfigure | MassStorageConfigure | KeyboardConfigure | MouseConfigure
  | SMSC951xConfigure | LAN7800Configure | GamePadConfigure | MIDIConfigure

text \<open>
  Besides memory and wire: the name service, the static device counters of the drivers, the next address
  the allocator gives to an object, and the blocks it gives to strings.
\<close>

record io_world = usb_world +
  w_mem :: mem
  w_data :: "nat \<Rightarrow> nat \<Rightarrow> u8"
  w_datapos :: nat
  w_wire :: "wire_event list"
  w_names :: "TDeviceNameService option"
  w_nDeviceNumber :: "configure_routine \<Rightarrow> u32"
  w_next :: addr
  w_malloc :: "nat \<Rightarrow> char list"

record locals =
  loc_urb :: addr
  loc_setup :: uintptr
  loc_CBW :: uintptr
  loc_CSW :: uintptr
  loc_cmd :: uintptr
  loc_rsp :: uintptr

text \<open>The bytes of the next IN transfer, written to \<open>p\<close>.\<close>

definition dma_in :: "uintptr \<Rightarrow> int \<Rightarrow> 'a io_world_scheme \<Rightarrow> u8 list \<times> 'a io_world_scheme" where
  "dma_in p r w = (let bs = List.map (w_data w (w_datapos w)) [0..<nat r]
     in (bs, w\<lparr>w_mem := mem_write p bs (w_mem w), w_datapos := w_datapos w + 1\<rparr>))"

definition wire :: "wire_event \<Rightarrow> 'a io_world_scheme \<Rightarrow> 'a io_world_scheme" where
  "wire e w = w\<lparr>w_wire := w_wire w @ [e]\<rparr>"

definition usb_transfer ::
    "'a io_world_scheme driver_code \<Rightarrow> locals \<Rightarrow> addr option \<Rightarrow> uintptr \<Rightarrow> u32
     \<Rightarrow> 'a io_world_scheme \<Rightarrow> (int \<times> 'a io_world_scheme) option" where
  "usb_transfer drv l pEndpoint pBuffer nBufSize w = do {
     ep \<leftarrow> deref (st_eps (w_store w)) pEndpoint;
     let out = mem_read pBuffer (unat nBufSize) (w_mem w);
     (r, w) \<leftarrow> DWHCIDeviceTransfer drv (loc_urb l) pEndpoint pBuffer nBufSize w;
     if USBEndpointIsDirectionIn ep
     then let (bs, w) = dma_in pBuffer r w in Some (r, wire (WireIn pEndpoint bs r) w)
     else Some (r, wire (WireOut pEndpoint out r) w) }"

text \<open>Control messages without data stage.\<close>

definition usb_control ::
    "'a io_world_scheme driver_code \<Rightarrow> locals \<Rightarrow> addr option \<Rightarrow> u8 \<Rightarrow> u8 \<Rightarrow> u16 \<Rightarrow> u16
     \<Rightarrow> 'a io_world_scheme \<Rightarrow> (int \<times> 'a io_world_scheme) option" where
  "usb_control drv l pEndpoint ucRequestType ucRequest usValue usIndex w = do {
     (r, w) \<leftarrow> DWHCIDeviceControlMessage drv (loc_urb l) (loc_setup l) pEndpoint ucRequestType ucRequest
                 usValue usIndex 0 0 w;
     Some (r, wire (WireControl ucRequestType ucRequest usValue usIndex 0 r) w) }"

text \<open>Control messages with a data stage; bit 7 of the request type is the direction.\<close>

definition usb_control_data ::
    "'a io_world_scheme driver_code \<Rightarrow> locals \<Rightarrow> addr option \<Rightarrow> u8 \<Rightarrow> u8 \<Rightarrow> u16 \<Rightarrow> u16 \<Rightarrow> uintptr \<Rightarrow> u16
     \<Rightarrow> 'a io_world_scheme \<Rightarrow> (int \<times> 'a io_world_scheme) option" where
  "usb_control_data drv l pEndpoint ucRequestType ucRequest usValue usIndex pData usDataSize w = do {
     let out = mem_read pData (unat usDataSize) (w_mem w);
     (r, w) \<leftarrow> DWHCIDeviceControlMessage drv (loc_urb l) (loc_setup l) pEndpoint ucRequestType ucRequest
                 usValue usIndex pData usDataSize w;
     if ucRequestType AND REQUEST_IN \<noteq> 0
     then let (bs, w) = dma_in pData r w
          in Some (r, wire (WireControlData ucRequestType ucRequest usValue usIndex bs r) w)
     else Some (r, wire (WireControlData ucRequestType ucRequest usValue usIndex out r) w) }"

section \<open>Functions\<close>

definition REQUEST_TO_INTERFACE :: u8 where "REQUEST_TO_INTERFACE = 1"
definition SET_INTERFACE :: u8 where "SET_INTERFACE = 11"

text \<open>
  \<^verbatim>\<open>m_pInterfaceDesc\<close> points into the configuration buffer: an offset.  The parser is a copy owned by the
  function.
\<close>

record TUSBFunction =
  fn_Configure :: "configure_routine option"
  fn_pDevice :: "addr option"
  fn_pConfigParser :: "TUSBConfigurationParser option"
  fn_pInterfaceDesc :: "nat option"

definition USBFunction :: "addr option \<Rightarrow> TUSBConfigurationParser option \<Rightarrow> TUSBFunction option" where
  "USBFunction pDevice pConfigParser = do {
     c_assert (pDevice \<noteq> None);
     p \<leftarrow> pConfigParser;
     let p = USBConfigurationParserCopy p;
     i \<leftarrow> USBConfigurationParserGetCurrentDescriptor p;
     Some \<lparr>fn_Configure = None, fn_pDevice = pDevice, fn_pConfigParser = Some p, fn_pInterfaceDesc = Some i\<rparr> }"

definition USBFunctionCopy :: "TUSBFunction \<Rightarrow> TUSBFunction option" where
  "USBFunctionCopy f = do {
     c_assert (fn_pDevice f \<noteq> None);
     p \<leftarrow> fn_pConfigParser f;
     let p = USBConfigurationParserCopy p;
     i \<leftarrow> USBConfigurationParserGetCurrentDescriptor p;
     Some \<lparr>fn_Configure = fn_Configure f, fn_pDevice = fn_pDevice f, fn_pConfigParser = Some p,
           fn_pInterfaceDesc = Some i\<rparr> }"

definition USBFunction_dtor :: "TUSBFunction \<Rightarrow> TUSBFunction option" where
  "USBFunction_dtor f = do {
     p \<leftarrow> fn_pConfigParser f;
     Some \<lparr>fn_Configure = None, fn_pDevice = None, fn_pConfigParser = None, fn_pInterfaceDesc = None\<rparr> }"

text \<open>The byte at offset \<open>k\<close> of the interface descriptor.\<close>

definition interface_byte :: "TUSBFunction \<Rightarrow> nat \<Rightarrow> u8 option" where
  "interface_byte f k = do {
     i \<leftarrow> fn_pInterfaceDesc f;
     p \<leftarrow> fn_pConfigParser f;
     buf \<leftarrow> cp_pBuffer p;
     array_get buf (i + k) }"

definition USBFunctionGetInterfaceNumber :: "TUSBFunction \<Rightarrow> u8 option" where
  "USBFunctionGetInterfaceNumber f = interface_byte f 2"

definition interface_bAlternateSetting :: "TUSBFunction \<Rightarrow> u8 option" where
  "interface_bAlternateSetting f = interface_byte f 3"

definition USBFunctionGetNumEndpoints :: "TUSBFunction \<Rightarrow> u8 option" where
  "USBFunctionGetNumEndpoints f = interface_byte f 4"

definition USBFunctionGetInterfaceClass :: "TUSBFunction \<Rightarrow> u8 option" where
  "USBFunctionGetInterfaceClass f = interface_byte f 5"

definition USBFunctionGetInterfaceSubClass :: "TUSBFunction \<Rightarrow> u8 option" where
  "USBFunctionGetInterfaceSubClass f = interface_byte f 6"

definition USBFunctionGetInterfaceProtocol :: "TUSBFunction \<Rightarrow> u8 option" where
  "USBFunctionGetInterfaceProtocol f = interface_byte f 7"

definition USBFunctionGetDevice :: "TUSBFunction \<Rightarrow> addr option" where
  "USBFunctionGetDevice f = fn_pDevice f"

definition USBFunctionGetEndpoint0 :: "usb_store \<Rightarrow> TUSBFunction \<Rightarrow> addr option" where
  "USBFunctionGetEndpoint0 st f = do { d \<leftarrow> deref (st_devs st) (fn_pDevice f); USBDeviceGetEndpoint0 d }"

text \<open>There is one host controller; what remains of \<^verbatim>\<open>GetHost\<close> is that the device exists.\<close>

definition USBFunctionGetHost :: "usb_store \<Rightarrow> TUSBFunction \<Rightarrow> addr option" where
  "USBFunctionGetHost st f = do { d \<leftarrow> deref (st_devs st) (fn_pDevice f); Some host_ref }"

definition USBFunctionGetDescriptor ::
    "TUSBFunction \<Rightarrow> u8 \<Rightarrow> (nat option \<times> TUSBFunction) option" where
  "USBFunctionGetDescriptor f ucType = do {
     p \<leftarrow> fn_pConfigParser f;
     r \<leftarrow> USBConfigurationParserGetDescriptor p ucType;
     (case r of Fault \<Rightarrow> None
      | Done (pos, p) \<Rightarrow> Some (pos, f\<lparr>fn_pConfigParser := Some p\<rparr>)) }"

definition USBFunctionConfigurationError :: "TUSBFunction \<Rightarrow> u32 option" where
  "USBFunctionConfigurationError f = map_option USBConfigurationParserError (fn_pConfigParser f)"

definition USBFunctionConfigure ::
    "'a io_world_scheme driver_code \<Rightarrow> locals \<Rightarrow> TUSBFunction \<Rightarrow> 'a io_world_scheme
     \<Rightarrow> (bool \<times> 'a io_world_scheme) option" where
  "USBFunctionConfigure drv l f w = do {
     bAlternateSetting \<leftarrow> interface_bAlternateSetting f;
     if bAlternateSetting \<noteq> 0 then do {
       _ \<leftarrow> USBFunctionGetHost (w_store w) f;
       pEndpoint0 \<leftarrow> USBFunctionGetEndpoint0 (w_store w) f;
       bInterfaceNumber \<leftarrow> USBFunctionGetInterfaceNumber f;
       (n, w) \<leftarrow> usb_control drv l (Some pEndpoint0) (REQUEST_OUT OR REQUEST_TO_INTERFACE) SET_INTERFACE
                   (ucast bAlternateSetting) (ucast bInterfaceNumber) w;
       Some (\<not> n < 0, w) }
     else Some (True, w) }"

definition USBFunctionGetInterfaceName :: "(nat \<Rightarrow> char list) \<Rightarrow> TUSBFunction \<Rightarrow> TString option" where
  "USBFunctionGetInterfaceName mal f = do {
     s \<leftarrow> String2 mal \<lparr>s_pBuffer = None, s_nSize = 0, s_pInPtr = 0\<rparr> ''unknown'';
     if fn_pInterfaceDesc f = None then Some s
     else do {
       bInterfaceClass \<leftarrow> USBFunctionGetInterfaceClass f;
       if bInterfaceClass \<noteq> 0 \<and> bInterfaceClass \<noteq> 0xFF then do {
         bInterfaceSubClass \<leftarrow> USBFunctionGetInterfaceSubClass f;
         bInterfaceProtocol \<leftarrow> USBFunctionGetInterfaceProtocol f;
         StringFormat mal s ''int%x-%x-%x''
           [VaInt (ucast bInterfaceClass), VaInt (ucast bInterfaceSubClass), VaInt (ucast bInterfaceProtocol)] }
       else Some s } }"

text \<open>
  The search for an interface moves the parser of the function and that of the device in step; \<open>dp\<close> is the
  parser of the device.
\<close>

partial_function (option) select_interface ::
    "u8 \<Rightarrow> u8 \<Rightarrow> u8 \<Rightarrow> TUSBFunction \<Rightarrow> TUSBConfigurationParser
     \<Rightarrow> (bool \<times> TUSBFunction \<times> TUSBConfigurationParser) option" where
  "select_interface uchClass uchSubClass uchProtocol f dp = do {
     c \<leftarrow> USBFunctionGetInterfaceClass f;
     s \<leftarrow> USBFunctionGetInterfaceSubClass f;
     p \<leftarrow> USBFunctionGetInterfaceProtocol f;
     if c = uchClass \<and> s = uchSubClass \<and> p = uchProtocol then Some (True, f, dp)
     else do {
       r \<leftarrow> USBConfigurationParserGetDescriptor dp DESCRIPTOR_INTERFACE;
       (case r of Fault \<Rightarrow> None
        | Done (_, dp) \<Rightarrow> do {
            (d, f) \<leftarrow> USBFunctionGetDescriptor f DESCRIPTOR_INTERFACE;
            let f = f\<lparr>fn_pInterfaceDesc := d\<rparr>;
            if d = None then Some (False, f, dp)
            else select_interface uchClass uchSubClass uchProtocol f dp }) } }"

declare select_interface.simps [code]

definition USBFunctionSelectInterfaceByClass ::
    "TUSBFunction \<Rightarrow> u8 \<Rightarrow> u8 \<Rightarrow> u8 \<Rightarrow> TUSBConfigurationParser
     \<Rightarrow> (bool \<times> TUSBFunction \<times> TUSBConfigurationParser) option" where
  "USBFunctionSelectInterfaceByClass f uchClass uchSubClass uchProtocol dp = do {
     c_assert (fn_pInterfaceDesc f \<noteq> None);
     c_assert (fn_pConfigParser f \<noteq> None);
     c_assert (fn_pDevice f \<noteq> None);
     select_interface uchClass uchSubClass uchProtocol f dp }"

text \<open>The packed endpoint descriptor at an offset of the configuration buffer.\<close>

definition get_endpoint_descriptor :: "TUSBFunction \<Rightarrow> nat \<Rightarrow> TUSBEndpointDescriptor option" where
  "get_endpoint_descriptor f i = do {
     p \<leftarrow> fn_pConfigParser f;
     buf \<leftarrow> cp_pBuffer p;
     b0 \<leftarrow> array_get buf i; b1 \<leftarrow> array_get buf (i + 1); b2 \<leftarrow> array_get buf (i + 2); b3 \<leftarrow> array_get buf (i + 3);
     b4 \<leftarrow> array_get buf (i + 4); b5 \<leftarrow> array_get buf (i + 5); b6 \<leftarrow> array_get buf (i + 6);
     Some \<lparr>ed_bLength = b0, ed_bDescriptorType = b1, ed_bEndpointAddress = b2, ed_bmAttributes = b3,
           ed_wMaxPacketSize = word16 [b4, b5], ed_bInterval = b6\<rparr> }"

section \<open>Objects and names\<close>

text \<open>A new endpoint object, and what a driver does to announce its device.\<close>

definition new_endpoint :: "TUSBEndpoint \<Rightarrow> 'a io_world_scheme \<Rightarrow> addr \<times> 'a io_world_scheme" where
  "new_endpoint ep w = (w_next w, w\<lparr>w_store := (w_store w)\<lparr>st_eps := (st_eps (w_store w))(w_next w \<mapsto> ep)\<rparr>,
     w_next := w_next w + 1\<rparr>)"

text \<open>Destructor and \<^verbatim>\<open>free\<close> of an endpoint object.\<close>

definition free_endpoint :: "addr \<Rightarrow> 'a io_world_scheme \<Rightarrow> 'a io_world_scheme option" where
  "free_endpoint a w = do {
     ep \<leftarrow> st_eps (w_store w) a;
     let _ = USBEndpoint_dtor ep;
     Some (w\<lparr>w_store := (w_store w)\<lparr>st_eps := (st_eps (w_store w))(a := None)\<rparr>\<rparr>) }"

definition register_device ::
    "configure_routine \<Rightarrow> string \<Rightarrow> addr \<Rightarrow> bool \<Rightarrow> 'a io_world_scheme \<Rightarrow> 'a io_world_scheme option" where
  "register_device cls pFormat pThis bBlockDevice w = do {
     let DeviceName = String \<lparr>s_pBuffer = None, s_nSize = 0, s_pInPtr = 0\<rparr>;
     DeviceName \<leftarrow> StringFormat (w_malloc w) DeviceName pFormat [VaInt (w_nDeviceNumber w cls)];
     let w = w\<lparr>w_nDeviceNumber := (w_nDeviceNumber w)(cls := w_nDeviceNumber w cls + 1)\<rparr>;
     names \<leftarrow> DeviceNameServiceGet (w_names w);
     n \<leftarrow> StringGet DeviceName;
     names \<leftarrow> DeviceNameServiceAddDevice names (Some n) (Some pThis) bBlockDevice;
     Some (w\<lparr>w_names := Some names\<rparr>) }"

section \<open>What a transfer does to the drivers' world\<close>

text \<open>The signature of the previous theory on this world: memory, oracle and wire, devices, endpoints.\<close>

lemma io_more_eq:
  fixes w w' :: "'a io_world_scheme"
  assumes "usb_world.more w' = usb_world.more w"
  shows "w_mem w' = w_mem w" "w_data w' = w_data w" "w_datapos w' = w_datapos w" "w_wire w' = w_wire w"
    "w_names w' = w_names w" "w_nDeviceNumber w' = w_nDeviceNumber w" "w_next w' = w_next w"
    "w_malloc w' = w_malloc w" "io_world.more w' = io_world.more w"
  using assms by (cases w; cases w'; simp)+

lemma world_sig_io:
  fixes w w' :: "'a io_world_scheme"
  assumes "world_sig w' = world_sig w"
  shows "w_mem w' = w_mem w" "w_data w' = w_data w" "w_datapos w' = w_datapos w" "w_wire w' = w_wire w"
    "store_sig (w_store w') = store_sig (w_store w)"
    "w_names w' = w_names w" "w_nDeviceNumber w' = w_nDeviceNumber w" "w_next w' = w_next w"
    "w_malloc w' = w_malloc w" "io_world.more w' = io_world.more w"
  using assms io_more_eq[of w' w] by (simp_all add: world_sig_def)

text \<open>The direction of an endpoint, if there is one.\<close>

definition ep_dir :: "usb_store \<Rightarrow> addr option \<Rightarrow> bool option" where
  "ep_dir st p = map_option USBEndpointIsDirectionIn (deref (st_eps st) p)"

lemma ep_dir_sig: "store_sig st' = store_sig st \<Longrightarrow> ep_dir st' p = ep_dir st p"
proof (cases p)
  case (Some a)
  assume "store_sig st' = store_sig st"
  then have "map_option ep_sig (st_eps st' a) = map_option ep_sig (st_eps st a)"
    by (auto simp: store_sig_def fun_eq_iff)
  then have "map_option (ep_bDirectionIn \<circ> ep_sig) (st_eps st' a) = map_option (ep_bDirectionIn \<circ> ep_sig) (st_eps st a)"
    by (metis option.map_comp)
  moreover have "USBEndpointIsDirectionIn = ep_bDirectionIn"
    by (simp add: fun_eq_iff USBEndpointIsDirectionIn_def)
  ultimately show ?thesis by (simp add: Some ep_dir_def deref_def ep_sig_def comp_def)
qed (simp add: ep_dir_def deref_def)

lemma usb_transfer_in:
  assumes "usb_transfer drv l p b n w = Some (r, w')" and "drv_keeps drv" and "ep_dir (w_store w) p = Some True"
  shows "\<exists>bs. length bs = nat r \<and> bs = List.map (w_data w (w_datapos w)) [0..<nat r]
     \<and> w_wire w' = w_wire w @ [WireIn p bs r] \<and> w_mem w' = mem_write b bs (w_mem w)
     \<and> w_datapos w' = w_datapos w + 1 \<and> w_data w' = w_data w \<and> store_sig (w_store w') = store_sig (w_store w)"
proof -
  from assms obtain ep w1 where ep: "deref (st_eps (w_store w)) p = Some ep" "USBEndpointIsDirectionIn ep"
    and t: "DWHCIDeviceTransfer drv (loc_urb l) p b n w = Some (r, w1)"
    and w': "w' = (let (bs, w) = dma_in b r w1 in wire (WireIn p bs r) w)"
    by (auto simp: usb_transfer_def bind_Some_iff ep_dir_def Let_def split: prod.splits if_splits)
  from Transfer_sig[OF assms(2) refl, of w] t have "world_sig w1 = world_sig w" by (auto simp: keepsr_def)
  note s = world_sig_io[OF this]
  show ?thesis unfolding w' using s by (simp add: dma_in_def wire_def Let_def)
qed

lemma usb_transfer_out:
  assumes "usb_transfer drv l p b n w = Some (r, w')" and "drv_keeps drv" and "ep_dir (w_store w) p = Some False"
  shows "w_wire w' = w_wire w @ [WireOut p (mem_read b (unat n) (w_mem w)) r] \<and> w_mem w' = w_mem w
     \<and> w_datapos w' = w_datapos w \<and> w_data w' = w_data w \<and> store_sig (w_store w') = store_sig (w_store w)"
proof -
  from assms obtain ep w1 where ep: "deref (st_eps (w_store w)) p = Some ep" "\<not> USBEndpointIsDirectionIn ep"
    and t: "DWHCIDeviceTransfer drv (loc_urb l) p b n w = Some (r, w1)"
    and w': "w' = wire (WireOut p (mem_read b (unat n) (w_mem w)) r) w1"
    by (auto simp: usb_transfer_def bind_Some_iff ep_dir_def Let_def split: prod.splits if_splits)
  from Transfer_sig[OF assms(2) refl, of w] t have "world_sig w1 = world_sig w" by (auto simp: keepsr_def)
  note s = world_sig_io[OF this]
  show ?thesis unfolding w' using s by (simp add: wire_def)
qed

lemma usb_control_effect:
  assumes "usb_control drv l p t rq v i w = Some (r, w')" and "drv_keeps drv"
  shows "w_wire w' = w_wire w @ [WireControl t rq v i 0 r] \<and> w_mem w' = w_mem w
     \<and> w_datapos w' = w_datapos w \<and> w_data w' = w_data w \<and> store_sig (w_store w') = store_sig (w_store w)"
proof -
  from assms obtain w1 where
    c: "DWHCIDeviceControlMessage drv (loc_urb l) (loc_setup l) p t rq v i 0 0 w = Some (r, w1)"
    and w': "w' = wire (WireControl t rq v i 0 r) w1"
    by (auto simp: usb_control_def bind_Some_iff)
  from ControlMessage_sig[OF assms(2) refl, of w] c have "world_sig w1 = world_sig w" by (auto simp: keepsr_def)
  note s = world_sig_io[OF this]
  show ?thesis unfolding w' using s by (simp add: wire_def)
qed

text \<open>
  Partial correctness of a computation in the option monad, with one rule per construct: applied with \<open>intro\<close> the
  rules leave one goal per path, with the results of the calls on it as assumptions.
\<close>

definition ends :: "('x \<Rightarrow> bool) \<Rightarrow> 'x option \<Rightarrow> bool" where
  "ends Q m \<longleftrightarrow> (\<forall>x. m = Some x \<longrightarrow> Q x)"

lemma ends_None: "ends Q None"
  by (simp add: ends_def)

lemma ends_Some: "Q x \<Longrightarrow> ends Q (Some x)"
  by (simp add: ends_def)

lemma ends_bind: "(\<And>x. m = Some x \<Longrightarrow> ends Q (f x)) \<Longrightarrow> ends Q (Option.bind m f)"
  by (auto simp: ends_def bind_Some_iff)

lemma ends_if: "(b \<Longrightarrow> ends Q m) \<Longrightarrow> (\<not> b \<Longrightarrow> ends Q m') \<Longrightarrow> ends Q (if b then m else m')"
  by simp

lemma ends_prod: "(\<And>a b. p = (a, b) \<Longrightarrow> ends Q (g a b)) \<Longrightarrow> ends Q (case p of (a, b) \<Rightarrow> g a b)"
  by (cases p) simp

lemma ends_option: "(y = None \<Longrightarrow> ends Q m) \<Longrightarrow> (\<And>z. y = Some z \<Longrightarrow> ends Q (h z))
    \<Longrightarrow> ends Q (case y of None \<Rightarrow> m | Some z \<Rightarrow> h z)"
  by (cases y) simp_all

lemma ends_let: "(\<And>x. x = v \<Longrightarrow> ends Q (k x)) \<Longrightarrow> ends Q (Let v k)"
  by simp

lemmas ends_rules = ends_None ends_Some ends_bind ends_if ends_prod ends_option ends_let

lemma ends_D: "ends Q m \<Longrightarrow> m = Some x \<Longrightarrow> Q x"
  by (simp add: ends_def)

text \<open>The part of the world that transfers of any kind leave alone.\<close>

definition io_sig :: "'a io_world_scheme \<Rightarrow> _" where
  "io_sig w = (store_sig (w_store w), w_names w, w_nDeviceNumber w, w_next w, w_malloc w, w_data w, io_world.more w)"

lemma io_sig_updates [simp]:
  "io_sig (w\<lparr>w_mem := m\<rparr>) = io_sig w" "io_sig (w\<lparr>w_datapos := n\<rparr>) = io_sig w"
  "io_sig (w\<lparr>w_wire := e\<rparr>) = io_sig w" "io_sig (w\<lparr>w_io := io\<rparr>) = io_sig w"
  by (simp_all add: io_sig_def)

lemma io_sig_parts:
  assumes "io_sig w' = io_sig w"
  shows "store_sig (w_store w') = store_sig (w_store w)" "w_names w' = w_names w"
    "w_nDeviceNumber w' = w_nDeviceNumber w" "w_next w' = w_next w" "w_malloc w' = w_malloc w" "w_data w' = w_data w"
  using assms by (simp_all add: io_sig_def)

lemma world_sig_io_sig:
  assumes "world_sig w' = world_sig w"
  shows "io_sig w' = io_sig w"
  using world_sig_io[OF assms] by (simp add: io_sig_def)

lemma usb_transfer_sig:
  assumes "usb_transfer drv l p b n w = Some (r, w')" and "drv_keeps drv"
  shows "io_sig w' = io_sig w"
proof -
  from assms(1) obtain ep r1 w1 where t: "DWHCIDeviceTransfer drv (loc_urb l) p b n w = Some (r1, w1)"
    and w': "(if USBEndpointIsDirectionIn ep then let (bs, w) = dma_in b r1 w1 in Some (r1, wire (WireIn p bs r1) w)
              else Some (r1, wire (WireOut p (mem_read b (unat n) (w_mem w)) r1) w1)) = Some (r, w')"
    by (auto simp: usb_transfer_def bind_Some_iff Let_def)
  from Transfer_sig[OF assms(2) refl, of w] t have "world_sig w1 = world_sig w" by (auto simp: keepsr_def)
  from world_sig_io_sig[OF this] w' show ?thesis
    by (auto simp: dma_in_def wire_def Let_def split: if_splits)
qed

lemma usb_control_sig:
  assumes "usb_control drv l p t rq v i w = Some (r, w')" and "drv_keeps drv"
  shows "io_sig w' = io_sig w"
proof -
  from assms obtain w1 where
    c: "DWHCIDeviceControlMessage drv (loc_urb l) (loc_setup l) p t rq v i 0 0 w = Some (r, w1)"
    and w': "w' = wire (WireControl t rq v i 0 r) w1"
    by (auto simp: usb_control_def bind_Some_iff)
  from ControlMessage_sig[OF assms(2) refl, of w] c have "world_sig w1 = world_sig w" by (auto simp: keepsr_def)
  from world_sig_io_sig[OF this] show ?thesis unfolding w' by (simp add: wire_def)
qed

lemma usb_control_data_sig:
  assumes "usb_control_data drv l p t rq v i b n w = Some (r, w')" and "drv_keeps drv"
  shows "io_sig w' = io_sig w"
proof -
  from assms(1) obtain r1 w1 where
    c: "DWHCIDeviceControlMessage drv (loc_urb l) (loc_setup l) p t rq v i b n w = Some (r1, w1)"
    and w': "(if t AND REQUEST_IN \<noteq> 0
        then let (bs, w) = dma_in b r1 w1 in Some (r1, wire (WireControlData t rq v i bs r1) w)
        else Some (r1, wire (WireControlData t rq v i (mem_read b (unat n) (w_mem w)) r1) w1)) = Some (r, w')"
    by (auto simp: usb_control_data_def bind_Some_iff Let_def)
  from ControlMessage_sig[OF assms(2) refl, of w] c have "world_sig w1 = world_sig w" by (auto simp: keepsr_def)
  from world_sig_io_sig[OF this] w' show ?thesis
    by (auto simp: dma_in_def wire_def Let_def split: if_splits)
qed

text \<open>What a control message puts on the wire and into memory.\<close>

lemma usb_control_data_out:
  assumes "usb_control_data drv l p t rq v i b n w = Some (r, w')" and "drv_keeps drv" and "t AND REQUEST_IN = 0"
  shows "w_wire w' = w_wire w @ [WireControlData t rq v i (mem_read b (unat n) (w_mem w)) r] \<and> w_mem w' = w_mem w"
proof -
  from assms(1,3) obtain w1 where
    c: "DWHCIDeviceControlMessage drv (loc_urb l) (loc_setup l) p t rq v i b n w = Some (r, w1)"
    and w': "w' = wire (WireControlData t rq v i (mem_read b (unat n) (w_mem w)) r) w1"
    by (auto simp: usb_control_data_def bind_Some_iff Let_def)
  from ControlMessage_sig[OF assms(2) refl, of w] c have "world_sig w1 = world_sig w" by (auto simp: keepsr_def)
  from world_sig_io[OF this] show ?thesis unfolding w' by (simp add: wire_def)
qed

lemma usb_control_data_in:
  assumes "usb_control_data drv l p t rq v i b n w = Some (r, w')" and "drv_keeps drv" and "t AND REQUEST_IN \<noteq> 0"
  shows "\<exists>bs. length bs = nat r \<and> bs = List.map (w_data w (w_datapos w)) [0..<nat r]
     \<and> w_wire w' = w_wire w @ [WireControlData t rq v i bs r] \<and> w_mem w' = mem_write b bs (w_mem w)"
proof -
  from assms(1,3) obtain w1 where
    c: "DWHCIDeviceControlMessage drv (loc_urb l) (loc_setup l) p t rq v i b n w = Some (r, w1)"
    and w': "w' = (let (bs, w) = dma_in b r w1 in wire (WireControlData t rq v i bs r) w)"
    by (auto simp: usb_control_data_def bind_Some_iff Let_def dma_in_def)
  from ControlMessage_sig[OF assms(2) refl, of w] c have "world_sig w1 = world_sig w" by (auto simp: keepsr_def)
  from world_sig_io[OF this] show ?thesis unfolding w' by (simp add: wire_def dma_in_def Let_def)
qed

lemma USBFunctionConfigure_sig:
  assumes "USBFunctionConfigure drv l f w = Some (ok, w')" and "drv_keeps drv"
  shows "io_sig w' = io_sig w"
  using assms by (auto simp: USBFunctionConfigure_def bind_Some_iff split: if_splits prod.splits dest: usb_control_sig)

lemma new_endpoint_effect:
  assumes "new_endpoint ep w = (a, w')"
  shows "a = w_next w" "st_eps (w_store w') = (st_eps (w_store w))(a \<mapsto> ep)" "w_names w' = w_names w"
    "w_nDeviceNumber w' = w_nDeviceNumber w" "w_malloc w' = w_malloc w" "st_devs (w_store w') = st_devs (w_store w)"
    "w_next w' = a + 1" "w_wire w' = w_wire w"
  using assms by (auto simp: new_endpoint_def)

text \<open>
  Announcing a device: the number is used up, and the name found from then on is the format with that number.
\<close>

lemma register_device_effect:
  assumes r: "register_device cls fmt p b w = Some w'" and m: "malloc_ok (w_malloc w)"
    and names: "w_names w = Some ns" "names_ok ns"
    and t: "format_ref fmt [VaInt (w_nDeviceNumber w cls)] = Some t" "NUL \<notin> set t" "length t + 1 < 2 ^ 62"
  shows "\<exists>ns'. w_names w' = Some ns' \<and> names_ok ns' \<and> names_find ns' t b = Some (Some p)
     \<and> w_nDeviceNumber w' = (w_nDeviceNumber w)(cls := w_nDeviceNumber w cls + 1)
     \<and> w_store w' = w_store w \<and> w_wire w' = w_wire w"
proof -
  from StringFormatV_ok[OF m t, of "String \<lparr>s_pBuffer = None, s_nSize = 0, s_pInPtr = 0\<rparr>"] obtain s where
    s: "StringFormat (w_malloc w) (String \<lparr>s_pBuffer = None, s_nSize = 0, s_pInPtr = 0\<rparr>) fmt
          [VaInt (w_nDeviceNumber w cls)] = Some s" "StringGet s = Some t" by (auto simp: StringFormat_def)
  from names.register_ok[OF names(2), of t b p] obtain ns' where
    ns': "names_register ns t b p = Some ns'" "names_ok ns'" by blast
  from names.find_register[OF names(2) ns'(1), of t b] have "names_find ns' t b = Some (Some p)" by simp
  with r s names ns' show ?thesis
    by (auto simp: register_device_def DeviceNameServiceGet_def names_register_def bind_Some_iff)
qed

end
