(* ===== verification/MassStorage.thy ===== *)
theory MassStorage
  imports UsbFunction
begin

text \<open>
  The bulk-only mass storage driver (\<^verbatim>\<open>lib/usbmassdevice.c\<close>): the command and status wrappers in
  memory, the command protocol, reset, reading and writing with retries, and the configuration.  The
  driver object is passed explicitly; results are C \<^verbatim>\<open>int\<close>s.
\<close>

unbundle bit_operations_syntax

section \<open>Constants and data\<close>

definition CBWSIGNATURE :: u32 where "CBWSIGNATURE = 0x43425355"
definition CBWFLAGS_DATA_IN :: u8 where "CBWFLAGS_DATA_IN = 0x80"
definition CBWLUN :: u8 where "CBWLUN = 0"
definition CSWSIGNATURE :: u32 where "CSWSIGNATURE = 0x53425355"
definition CSWSTATUS_PASSED :: u8 where "CSWSTATUS_PASSED = 0"
definition SCSI_CONTROL :: u8 where "SCSI_CONTROL = 0"
definition SCSI_OP_INQUIRY :: u8 where "SCSI_OP_INQUIRY = 0x12"
definition SCSI_OP_TEST_UNIT_READY :: u8 where "SCSI_OP_TEST_UNIT_READY = 0"
definition SCSI_REQUEST_SENSE :: u8 where "SCSI_REQUEST_SENSE = 3"
definition SCSI_OP_READ_CAPACITY10 :: u8 where "SCSI_OP_READ_CAPACITY10 = 0x25"
definition SCSI_OP_READ :: u8 where "SCSI_OP_READ = 0x28"
definition SCSI_OP_WRITE :: u8 where "SCSI_OP_WRITE = 0x2A"
definition SCSI_WRITE_FUA :: u8 where "SCSI_WRITE_FUA = 8"
definition SCSI_PDT_DIRECT_ACCESS_BLOCK :: u8 where "SCSI_PDT_DIRECT_ACCESS_BLOCK = 0"

definition UMSD_BLOCK_SIZE :: nat where "UMSD_BLOCK_SIZE = 512"
definition UMSD_BLOCK_MASK :: "'a::len word" where "UMSD_BLOCK_MASK = 511"
definition UMSD_BLOCK_SHIFT :: nat where "UMSD_BLOCK_SHIFT = 9"
definition UMSD_MAX_OFFSET :: u64 where "UMSD_MAX_OFFSET = 0x1FFFFFFFFFF"

definition sizeof_TCBW :: u32 where "sizeof_TCBW = 31"
definition sizeof_TCSW :: u32 where "sizeof_TCSW = 13"

record TUSBBulkOnlyMassStorageDevice =
  ms_USBFunction :: TUSBFunction
  ms_pEndpointIn :: "addr option"
  ms_pEndpointOut :: "addr option"
  ms_nCWBTag :: u32
  ms_nBlockCount :: u32
  ms_ullOffset :: u64

definition USBBulkOnlyMassStorageDevice :: "TUSBFunction \<Rightarrow> TUSBBulkOnlyMassStorageDevice option" where
  "USBBulkOnlyMassStorageDevice pDevice = do {
     f \<leftarrow> USBFunctionCopy pDevice;
     Some \<lparr>ms_USBFunction = f\<lparr>fn_Configure := Some MassStorageConfigure\<rparr>, ms_pEndpointIn = None,
           ms_pEndpointOut = None, ms_nCWBTag = 0, ms_nBlockCount = 0, ms_ullOffset = 0\<rparr> }"

text \<open>The status wrapper as read from memory.\<close>

record TCSW =
  csw_dCSWSignature :: u32
  csw_dCSWTag :: u32
  csw_dCSWDataResidue :: u32
  csw_bCSWStatus :: u8

definition get_CSW :: "uintptr \<Rightarrow> mem \<Rightarrow> TCSW" where
  "get_CSW p m = \<lparr>csw_dCSWSignature = word32 (mem_read p 4 m), csw_dCSWTag = word32 (mem_read (p + 4) 4 m),
     csw_dCSWDataResidue = word32 (mem_read (p + 8) 4 m), csw_bCSWStatus = m (p + 12)\<rparr>"

text \<open>
  Filling the command wrapper: the structure is cleared, its fields are assigned and the command
  block is copied behind them.  Unit number and command length are bit fields of one byte each.
\<close>

definition assign_bits :: "uintptr \<Rightarrow> u8 \<Rightarrow> u8 \<Rightarrow> mem \<Rightarrow> mem" where
  "assign_bits a field v m = m(a := (m a AND NOT field) OR (v AND field))"

definition fill_CBW :: "uintptr \<Rightarrow> u32 \<Rightarrow> u32 \<Rightarrow> bool \<Rightarrow> uintptr \<Rightarrow> u32 \<Rightarrow> mem \<Rightarrow> mem" where
  "fill_CBW p nTag nBufLen bIn pCmdBlk nCmdBlkLen m =
     (let m = snd (uspi_memset p 0 (ucast sizeof_TCBW) m);
          m = mem_write p (bytes32 CBWSIGNATURE) m;
          m = mem_write (p + 4) (bytes32 nTag) m;
          m = mem_write (p + 8) (bytes32 nBufLen) m;
          m = m(p + 12 := (if bIn then CBWFLAGS_DATA_IN else 0));
          m = assign_bits (p + 13) 0x0F CBWLUN m;
          m = assign_bits (p + 14) 0x1F (ucast nCmdBlkLen) m
      in snd (uspi_memcpy (p + 15) pCmdBlk (ucast nCmdBlkLen) m))"

section \<open>The command protocol\<close>

definition USBBulkOnlyMassStorageDeviceCommand ::
    "'a io_world_scheme driver_code \<Rightarrow> locals \<Rightarrow> TUSBBulkOnlyMassStorageDevice \<Rightarrow> uintptr \<Rightarrow> u32
     \<Rightarrow> uintptr \<Rightarrow> u32 \<Rightarrow> bool \<Rightarrow> 'a io_world_scheme
     \<Rightarrow> (int \<times> TUSBBulkOnlyMassStorageDevice \<times> 'a io_world_scheme) option" where
  "USBBulkOnlyMassStorageDeviceCommand drv l d pCmdBlk nCmdBlkLen pBuffer nBufLen bIn w = do {
     c_assert (pCmdBlk \<noteq> 0);
     c_assert (6 \<le> nCmdBlkLen \<and> nCmdBlkLen \<le> 16);
     c_assert (nBufLen = 0 \<or> pBuffer \<noteq> 0);
     let d = d\<lparr>ms_nCWBTag := ms_nCWBTag d + 1\<rparr>;
     let w = w\<lparr>w_mem := fill_CBW (loc_CBW l) (ms_nCWBTag d) nBufLen bIn pCmdBlk nCmdBlkLen (w_mem w)\<rparr>;
     _ \<leftarrow> USBFunctionGetHost (w_store w) (ms_USBFunction d);
     (n, w) \<leftarrow> usb_transfer drv l (ms_pEndpointOut d) (loc_CBW l) sizeof_TCBW w;
     if n < 0 then Some (- 1, d, w)
     else do {
       (nResult, w) \<leftarrow> (if nBufLen > 0
         then usb_transfer drv l (if bIn then ms_pEndpointIn d else ms_pEndpointOut d) pBuffer nBufLen w
         else Some (0, w));
       if nResult < 0 then Some (- 1, d, w)
       else do {
         (n, w) \<leftarrow> usb_transfer drv l (ms_pEndpointIn d) (loc_CSW l) sizeof_TCSW w;
         let CSW = get_CSW (loc_CSW l) (w_mem w);
         Some (if n \<noteq> sint sizeof_TCSW then - 1
               else if csw_dCSWSignature CSW \<noteq> CSWSIGNATURE then - 1
               else if csw_dCSWTag CSW \<noteq> ms_nCWBTag d then - 1
               else if csw_bCSWStatus CSW \<noteq> CSWSTATUS_PASSED then - 1
               else if csw_dCSWDataResidue CSW \<noteq> 0 then - 1
               else nResult, d, w) } } }"

definition reset_pid :: "addr option \<Rightarrow> 'a io_world_scheme \<Rightarrow> 'a io_world_scheme option" where
  "reset_pid pEndpoint w = do {
     a \<leftarrow> pEndpoint;
     ep \<leftarrow> st_eps (w_store w) a;
     ep \<leftarrow> USBEndpointResetPID ep;
     Some (w\<lparr>w_store := (w_store w)\<lparr>st_eps := (st_eps (w_store w))(a \<mapsto> ep)\<rparr>\<rparr>) }"

definition USBBulkOnlyMassStorageDeviceReset ::
    "'a io_world_scheme driver_code \<Rightarrow> locals \<Rightarrow> TUSBBulkOnlyMassStorageDevice \<Rightarrow> 'a io_world_scheme
     \<Rightarrow> (int \<times> 'a io_world_scheme) option" where
  "USBBulkOnlyMassStorageDeviceReset drv l d w = do {
     _ \<leftarrow> USBFunctionGetHost (w_store w) (ms_USBFunction d);
     ep0 \<leftarrow> USBFunctionGetEndpoint0 (w_store w) (ms_USBFunction d);
     (n, w) \<leftarrow> usb_control drv l (Some ep0) 0x21 0xFF 0 0 w;
     if n < 0 then Some (- 1, w)
     else do {
       ep0 \<leftarrow> USBFunctionGetEndpoint0 (w_store w) (ms_USBFunction d);
       (n, w) \<leftarrow> usb_control drv l (Some ep0) 0x02 1 0 1 w;
       if n < 0 then Some (- 1, w)
       else do {
         ep0 \<leftarrow> USBFunctionGetEndpoint0 (w_store w) (ms_USBFunction d);
         (n, w) \<leftarrow> usb_control drv l (Some ep0) 0x02 1 0 2 w;
         if n < 0 then Some (- 1, w)
         else do {
           w \<leftarrow> reset_pid (ms_pEndpointIn d) w;
           w \<leftarrow> reset_pid (ms_pEndpointOut d) w;
           Some (0, w) } } } }"

section \<open>Reading and writing\<close>

text \<open>The command blocks; the structures are packed and every field is assigned.\<close>

definition read10 :: "u32 \<Rightarrow> u16 \<Rightarrow> u8 list" where
  "read10 nBlockAddress usTransferLength = [SCSI_OP_READ, 0] @ bytes32 (uspi_le2be32 nBlockAddress) @ [0]
     @ bytes16 (uspi_le2be16 usTransferLength) @ [SCSI_CONTROL]"

definition write10 :: "u32 \<Rightarrow> u16 \<Rightarrow> u8 list" where
  "write10 nBlockAddress usTransferLength = [SCSI_OP_WRITE, SCSI_WRITE_FUA] @ bytes32 (uspi_le2be32 nBlockAddress)
     @ [0] @ bytes16 (uspi_le2be16 usTransferLength) @ [SCSI_CONTROL]"

definition put_local :: "uintptr \<Rightarrow> u8 list \<Rightarrow> 'a io_world_scheme \<Rightarrow> 'a io_world_scheme" where
  "put_local p bs w = w\<lparr>w_mem := mem_write p bs (w_mem w)\<rparr>"

definition USBBulkOnlyMassStorageDeviceTryRead ::
    "'a io_world_scheme driver_code \<Rightarrow> locals \<Rightarrow> TUSBBulkOnlyMassStorageDevice \<Rightarrow> uintptr \<Rightarrow> u32
     \<Rightarrow> 'a io_world_scheme \<Rightarrow> (int \<times> TUSBBulkOnlyMassStorageDevice \<times> 'a io_world_scheme) option" where
  "USBBulkOnlyMassStorageDeviceTryRead drv l d pBuffer nCount w = do {
     c_assert (pBuffer \<noteq> 0);
     if ms_ullOffset d AND UMSD_BLOCK_MASK \<noteq> 0 \<or> ms_ullOffset d > UMSD_MAX_OFFSET then Some (- 1, d, w)
     else do {
       let nBlockAddress = ucast (drop_bit UMSD_BLOCK_SHIFT (ms_ullOffset d));
       if nCount AND UMSD_BLOCK_MASK \<noteq> 0 then Some (- 1, d, w)
       else do {
         let usTransferLength = ucast (drop_bit UMSD_BLOCK_SHIFT nCount);
         let w = put_local (loc_cmd l) (read10 nBlockAddress usTransferLength) w;
         (n, d, w) \<leftarrow> USBBulkOnlyMassStorageDeviceCommand drv l d (loc_cmd l) 10 pBuffer nCount True w;
         Some (if n \<noteq> sint nCount then - 1 else sint nCount, d, w) } } }"

definition USBBulkOnlyMassStorageDeviceTryWrite ::
    "'a io_world_scheme driver_code \<Rightarrow> locals \<Rightarrow> TUSBBulkOnlyMassStorageDevice \<Rightarrow> uintptr \<Rightarrow> u32
     \<Rightarrow> 'a io_world_scheme \<Rightarrow> (int \<times> TUSBBulkOnlyMassStorageDevice \<times> 'a io_world_scheme) option" where
  "USBBulkOnlyMassStorageDeviceTryWrite drv l d pBuffer nCount w = do {
     c_assert (pBuffer \<noteq> 0);
     if ms_ullOffset d AND UMSD_BLOCK_MASK \<noteq> 0 \<or> ms_ullOffset d > UMSD_MAX_OFFSET then Some (- 1, d, w)
     else do {
       let nBlockAddress = ucast (drop_bit UMSD_BLOCK_SHIFT (ms_ullOffset d));
       if nCount AND UMSD_BLOCK_MASK \<noteq> 0 then Some (- 1, d, w)
       else do {
         let usTransferLength = ucast (drop_bit UMSD_BLOCK_SHIFT nCount);
         let w = put_local (loc_cmd l) (write10 nBlockAddress usTransferLength) w;
         (n, d, w) \<leftarrow> USBBulkOnlyMassStorageDeviceCommand drv l d (loc_cmd l) 10 pBuffer nCount False w;
         Some (if n < 0 then - 1 else sint nCount, d, w) } } }"

text \<open>The loop that \<^verbatim>\<open>Read\<close> and \<^verbatim>\<open>Write\<close> share: a failed attempt is followed by a reset.\<close>

fun retry ::
    "(TUSBBulkOnlyMassStorageDevice \<Rightarrow> 'w \<Rightarrow> (int \<times> TUSBBulkOnlyMassStorageDevice \<times> 'w) option)
     \<Rightarrow> (TUSBBulkOnlyMassStorageDevice \<Rightarrow> 'w \<Rightarrow> (int \<times> 'w) option)
     \<Rightarrow> u32 \<Rightarrow> nat \<Rightarrow> TUSBBulkOnlyMassStorageDevice \<Rightarrow> 'w \<Rightarrow> (int \<times> TUSBBulkOnlyMassStorageDevice \<times> 'w) option" where
  "retry attempt rst nCount nTries d w = do {
     (nResult, d, w) \<leftarrow> attempt d w;
     if nResult \<noteq> sint nCount then do {
       (nStatus, w) \<leftarrow> rst d w;
       if nStatus \<noteq> 0 then Some (nStatus, d, w)
       else if nTries - 1 > 0 then retry attempt rst nCount (nTries - 1) d w
       else Some (nResult, d, w) }
     else Some (nResult, d, w) }"

declare retry.simps [simp del]

definition USBBulkOnlyMassStorageDeviceRead ::
    "'a io_world_scheme driver_code \<Rightarrow> locals \<Rightarrow> TUSBBulkOnlyMassStorageDevice \<Rightarrow> uintptr \<Rightarrow> u32
     \<Rightarrow> 'a io_world_scheme \<Rightarrow> (int \<times> TUSBBulkOnlyMassStorageDevice \<times> 'a io_world_scheme) option" where
  "USBBulkOnlyMassStorageDeviceRead drv l d pBuffer nCount w =
     retry (\<lambda>d. USBBulkOnlyMassStorageDeviceTryRead drv l d pBuffer nCount)
       (USBBulkOnlyMassStorageDeviceReset drv l) nCount 4 d w"

definition USBBulkOnlyMassStorageDeviceWrite ::
    "'a io_world_scheme driver_code \<Rightarrow> locals \<Rightarrow> TUSBBulkOnlyMassStorageDevice \<Rightarrow> uintptr \<Rightarrow> u32
     \<Rightarrow> 'a io_world_scheme \<Rightarrow> (int \<times> TUSBBulkOnlyMassStorageDevice \<times> 'a io_world_scheme) option" where
  "USBBulkOnlyMassStorageDeviceWrite drv l d pBuffer nCount w =
     retry (\<lambda>d. USBBulkOnlyMassStorageDeviceTryWrite drv l d pBuffer nCount)
       (USBBulkOnlyMassStorageDeviceReset drv l) nCount 4 d w"

definition USBBulkOnlyMassStorageDeviceSeek ::
    "TUSBBulkOnlyMassStorageDevice \<Rightarrow> u64 \<Rightarrow> u64 \<times> TUSBBulkOnlyMassStorageDevice" where
  "USBBulkOnlyMassStorageDeviceSeek d ullOffset = (ullOffset, d\<lparr>ms_ullOffset := ullOffset\<rparr>)"

definition USBBulkOnlyMassStorageDeviceGetCapacity :: "TUSBBulkOnlyMassStorageDevice \<Rightarrow> u32" where
  "USBBulkOnlyMassStorageDeviceGetCapacity d = ms_nBlockCount d"

section \<open>Configuration\<close>

definition USBBulkOnlyMassStorageDevice_dtor ::
    "TUSBBulkOnlyMassStorageDevice \<Rightarrow> 'a io_world_scheme
     \<Rightarrow> (TUSBBulkOnlyMassStorageDevice \<times> 'a io_world_scheme) option" where
  "USBBulkOnlyMassStorageDevice_dtor d w = do {
     w \<leftarrow> (case ms_pEndpointOut d of None \<Rightarrow> Some w | Some a \<Rightarrow> free_endpoint a w);
     w \<leftarrow> (case ms_pEndpointIn d of None \<Rightarrow> Some w | Some a \<Rightarrow> free_endpoint a w);
     f \<leftarrow> USBFunction_dtor (ms_USBFunction d);
     Some (d\<lparr>ms_pEndpointOut := None, ms_pEndpointIn := None, ms_USBFunction := f\<rparr>, w) }"

text \<open>
  One descriptor of the search for the two bulk endpoints; the result is \<open>False\<close> where the function
  returns because there is more than one in a direction.
\<close>

definition take_endpoint ::
    "TUSBEndpointDescriptor \<Rightarrow> TUSBBulkOnlyMassStorageDevice \<Rightarrow> 'a io_world_scheme
     \<Rightarrow> (bool \<times> TUSBBulkOnlyMassStorageDevice \<times> 'a io_world_scheme) option" where
  "take_endpoint desc d w =
     (if ed_bmAttributes desc AND 0x3F = 2 then
        if ed_bEndpointAddress desc AND 0x80 = 0x80 then
          if ms_pEndpointIn d \<noteq> None
          then do { _ \<leftarrow> USBFunctionConfigurationError (ms_USBFunction d); Some (False, d, w) }
          else do {
            ep \<leftarrow> USBEndpoint2 (st_devs (w_store w)) (USBFunctionGetDevice (ms_USBFunction d)) (Some desc);
            let (a, w) = new_endpoint ep w;
            Some (True, d\<lparr>ms_pEndpointIn := Some a\<rparr>, w) }
        else
          if ms_pEndpointOut d \<noteq> None
          then do { _ \<leftarrow> USBFunctionConfigurationError (ms_USBFunction d); Some (False, d, w) }
          else do {
            ep \<leftarrow> USBEndpoint2 (st_devs (w_store w)) (USBFunctionGetDevice (ms_USBFunction d)) (Some desc);
            let (a, w) = new_endpoint ep w;
            Some (True, d\<lparr>ms_pEndpointOut := Some a\<rparr>, w) }
      else Some (True, d, w))"

partial_function (option) find_endpoints ::
    "TUSBBulkOnlyMassStorageDevice \<Rightarrow> 'a io_world_scheme
     \<Rightarrow> (bool \<times> TUSBBulkOnlyMassStorageDevice \<times> 'a io_world_scheme) option" where
  "find_endpoints d w = do {
     (pEndpointDesc, f) \<leftarrow> USBFunctionGetDescriptor (ms_USBFunction d) DESCRIPTOR_ENDPOINT;
     let d = d\<lparr>ms_USBFunction := f\<rparr>;
     (case pEndpointDesc of None \<Rightarrow> Some (True, d, w)
      | Some i \<Rightarrow> do {
          desc \<leftarrow> get_endpoint_descriptor f i;
          (ok, d, w) \<leftarrow> take_endpoint desc d w;
          if ok then find_endpoints d w else Some (False, d, w) }) }"

declare find_endpoints.simps [code]

definition sizeof_TSCSIInquiryResponse :: u32 where "sizeof_TSCSIInquiryResponse = 36"
definition sizeof_TSCSIRequestSenseResponse7x :: u32 where "sizeof_TSCSIRequestSenseResponse7x = 18"
definition sizeof_TSCSIReadCapacityResponse :: u32 where "sizeof_TSCSIReadCapacityResponse = 8"

definition scsi_inquiry :: "u8 list" where
  "scsi_inquiry = [SCSI_OP_INQUIRY, 0, 0, 0, ucast sizeof_TSCSIInquiryResponse, SCSI_CONTROL]"

definition scsi_test_unit_ready :: "u8 list" where
  "scsi_test_unit_ready = SCSI_OP_TEST_UNIT_READY # bytes32 0 @ [SCSI_CONTROL]"

definition scsi_request_sense :: "u8 list" where
  "scsi_request_sense = [SCSI_REQUEST_SENSE, 0] @ bytes16 0 @ [ucast sizeof_TSCSIRequestSenseResponse7x, SCSI_CONTROL]"

definition scsi_read_capacity :: "u8 list" where
  "scsi_read_capacity = [SCSI_OP_READ_CAPACITY10, 0] @ bytes32 0 @ bytes16 0 @ [0, SCSI_CONTROL]"

text \<open>
  A command from a local structure, with the response in a local structure.
\<close>

definition local_command ::
    "'a io_world_scheme driver_code \<Rightarrow> locals \<Rightarrow> TUSBBulkOnlyMassStorageDevice \<Rightarrow> u8 list \<Rightarrow> u32 \<Rightarrow> bool
     \<Rightarrow> 'a io_world_scheme \<Rightarrow> (int \<times> TUSBBulkOnlyMassStorageDevice \<times> 'a io_world_scheme) option" where
  "local_command drv l d cmd nRspLen bIn w =
     USBBulkOnlyMassStorageDeviceCommand drv l d (loc_cmd l) (of_nat (length cmd))
       (if nRspLen = 0 then 0 else loc_rsp l) nRspLen bIn (put_local (loc_cmd l) cmd w)"

text \<open>The loop that waits for the unit; \<open>None\<close> as its first result where the request for sense data failed.\<close>

fun ready_loop ::
    "'a io_world_scheme driver_code \<Rightarrow> locals \<Rightarrow> nat \<Rightarrow> TUSBBulkOnlyMassStorageDevice \<Rightarrow> 'a io_world_scheme
     \<Rightarrow> (nat option \<times> TUSBBulkOnlyMassStorageDevice \<times> 'a io_world_scheme) option" where
  "ready_loop drv l nTries d w = (let nTries = nTries - 1 in
     if nTries = 0 then Some (Some 0, d, w)
     else do {
       (n, d, w) \<leftarrow> local_command drv l d scsi_test_unit_ready 0 False w;
       if n \<ge> 0 then Some (Some nTries, d, w)
       else do {
         (n, d, w) \<leftarrow> local_command drv l d scsi_request_sense sizeof_TSCSIRequestSenseResponse7x True w;
         if n < 0 then Some (None, d, w)
         else ready_loop drv l nTries d (w\<lparr>w_io := msDelay 100 (w_io w)\<rparr>) } })"

declare ready_loop.simps [simp del]

definition set_capacity ::
    "mem \<Rightarrow> uintptr \<Rightarrow> TUSBBulkOnlyMassStorageDevice \<Rightarrow> bool \<times> TUSBBulkOnlyMassStorageDevice" where
  "set_capacity m p d =
     (let nBlockSize = uspi_le2be32 (word32 (mem_read (p + 4) 4 m)) in
      if nBlockSize \<noteq> of_nat UMSD_BLOCK_SIZE then (False, d)
      else let d = d\<lparr>ms_nBlockCount := uspi_le2be32 (word32 (mem_read p 4 m))\<rparr> in
        if ms_nBlockCount d = - 1 then (False, d)
        else (True, d\<lparr>ms_nBlockCount := ms_nBlockCount d + 1\<rparr>))"

text \<open>The part after the endpoints have been found.\<close>

definition configure_unit ::
    "'a io_world_scheme driver_code \<Rightarrow> locals \<Rightarrow> addr \<Rightarrow> TUSBBulkOnlyMassStorageDevice \<Rightarrow> 'a io_world_scheme
     \<Rightarrow> (bool \<times> TUSBBulkOnlyMassStorageDevice \<times> 'a io_world_scheme) option" where
  "configure_unit drv l pThis d w = do {
     (n, d, w) \<leftarrow> local_command drv l d scsi_inquiry sizeof_TSCSIInquiryResponse True w;
     if n \<noteq> sint sizeof_TSCSIInquiryResponse then Some (False, d, w)
     else if w_mem w (loc_rsp l) AND 0x1F \<noteq> SCSI_PDT_DIRECT_ACCESS_BLOCK then Some (False, d, w)
     else do {
       (nTries, d, w) \<leftarrow> ready_loop drv l 100 d w;
       if nTries = None \<or> nTries = Some 0 then Some (False, d, w)
       else do {
         (n, d, w) \<leftarrow> local_command drv l d scsi_read_capacity sizeof_TSCSIReadCapacityResponse True w;
         if n \<noteq> sint sizeof_TSCSIReadCapacityResponse then Some (False, d, w)
         else (case set_capacity (w_mem w) (loc_rsp l) d of
             (False, d) \<Rightarrow> Some (False, d, w)
           | (True, d) \<Rightarrow> do {
               w \<leftarrow> register_device MassStorageConfigure ''umsd%u'' pThis True w;
               Some (True, d, w) }) } } }"

definition USBBulkOnlyMassStorageDeviceConfigure ::
    "'a io_world_scheme driver_code \<Rightarrow> locals \<Rightarrow> addr \<Rightarrow> TUSBBulkOnlyMassStorageDevice \<Rightarrow> 'a io_world_scheme
     \<Rightarrow> (bool \<times> TUSBBulkOnlyMassStorageDevice \<times> 'a io_world_scheme) option" where
  "USBBulkOnlyMassStorageDeviceConfigure drv l pThis d w = do {
     nEndpoints \<leftarrow> USBFunctionGetNumEndpoints (ms_USBFunction d);
     if nEndpoints < 2 then do { _ \<leftarrow> USBFunctionConfigurationError (ms_USBFunction d); Some (False, d, w) }
     else do {
       (ok, d, w) \<leftarrow> find_endpoints d w;
       if \<not> ok then Some (False, d, w)
       else if ms_pEndpointIn d = None \<or> ms_pEndpointOut d = None
       then do { _ \<leftarrow> USBFunctionConfigurationError (ms_USBFunction d); Some (False, d, w) }
       else do {
         (ok, w) \<leftarrow> USBFunctionConfigure drv l (ms_USBFunction d) w;
         if \<not> ok then Some (False, d, w)
         else configure_unit drv l pThis d w } } }"

end
