(* ===== verification/MassProtocol.thy ===== *)
theory MassProtocol
  imports MassStorage
begin

text \<open>
  What the mass storage driver does on the wire.  The command wrapper in memory has the bytes the standard
  asks for; a command that succeeds is one run of the protocol; reading and writing address the right
  blocks and retry at most three times; a configured device has its endpoints, its capacity and its name.
\<close>

unbundle bit_operations_syntax

section \<open>The command wrapper in memory\<close>

lemma offset_inject:
  assumes "i < 2 ^ 64" and "j < 2 ^ 64" and "(p :: uintptr) + of_nat i = p + of_nat j"
  shows "i = j"
proof -
  have "unat (of_nat i :: uintptr) = unat (of_nat j :: uintptr)" using assms(3) by simp
  with assms(1,2) show ?thesis by (simp add: unat_of_nat_small)
qed

lemma mem_write_at: "\<lbrakk>i < length bs; length bs \<le> 2 ^ 64\<rbrakk> \<Longrightarrow> mem_write p bs m (p + of_nat i) = bs ! i"
proof -
  assume i: "i < length bs" "length bs \<le> 2 ^ 64"
  have "mem_read p (length bs) m' ! i = m' (p + of_nat i)" for m'
    using i(1) by (induction bs arbitrary: i p) (auto simp: less_Suc_eq_0_disj add.assoc)
  with mem_read_write[OF i(2), of p m] show ?thesis by metis
qed

lemma mem_write_splice:
  assumes k: "k + length cs \<le> length bs" and l: "length bs \<le> 2 ^ 64"
  shows "mem_write (p + of_nat k) cs (mem_write p bs m) = mem_write p (take k bs @ cs @ drop (k + length cs) bs) m"
    (is "?l = mem_write p ?bs m")
proof
  fix a
  have len: "length ?bs = length bs" using k by simp
  show "?l a = mem_write p ?bs m a"
  proof (cases "a \<in> block p (length bs)")
    case True
    then obtain i where i: "i < length bs" "a = p + of_nat i" by (auto simp: block_eq)
    have r: "mem_write p ?bs m a = ?bs ! i" using mem_write_at[of i ?bs p m] i len l by simp
    show ?thesis
    proof (cases "k \<le> i \<and> i < k + length cs")
      case True
      then have "a = (p + of_nat k) + of_nat (i - k)" using i(2) by (simp add: add.assoc flip: of_nat_add)
      moreover have "mem_write (p + of_nat k) cs (mem_write p bs m) ((p + of_nat k) + of_nat (i - k)) = cs ! (i - k)"
        using True k l by (intro mem_write_at) auto
      moreover have "?bs ! i = cs ! (i - k)" using True k by (auto simp: nth_append)
      ultimately show ?thesis using r by simp
    next
      case False
      have "a \<notin> block (p + of_nat k) (length cs)"
      proof
        assume "a \<in> block (p + of_nat k) (length cs)"
        then obtain j where j: "j < length cs" "p + of_nat i = p + of_nat (k + j)"
          using i(2) by (auto simp: block_eq add.assoc)
        have "i < 2 ^ 64" "k + j < 2 ^ 64" using i(1) j(1) k l by linarith+
        from offset_inject[OF this j(2)] False j(1) show False by simp
      qed
      then have "?l a = bs ! i" using i l by (simp add: mem_write_frame mem_write_at)
      moreover have "?bs ! i = bs ! i"
        using False k i(1) by (cases "i < k") (auto simp: nth_append min_def)
      ultimately show ?thesis using r by simp
    qed
  next
    case False
    have "block (p + of_nat k) (length cs) \<subseteq> block p (k + length cs)" by (simp add: block_add)
    moreover have "block p (length bs) = block p (k + length cs) \<union> block (p + of_nat (k + length cs)) (length bs - (k + length cs))"
      using k block_add[of p "k + length cs" "length bs - (k + length cs)"] by simp
    ultimately have "a \<notin> block (p + of_nat k) (length cs)" using False by blast
    with False len show ?thesis by (simp add: mem_write_frame)
  qed
qed

lemma mem_write_upd:
  assumes "k < length bs" and "length bs \<le> 2 ^ 64"
  shows "(mem_write p bs m)(p + of_nat k := b) = mem_write p (bs[k := b]) m"
  using mem_write_splice[of k "[b]" bs p m] assms by (simp add: upd_conv_take_nth_drop)

text \<open>The 31 bytes of the wrapper.\<close>

definition cbw_bytes :: "u32 \<Rightarrow> u32 \<Rightarrow> bool \<Rightarrow> u8 list \<Rightarrow> u8 list" where
  "cbw_bytes nTag nBufLen bIn cmd = bytes32 CBWSIGNATURE @ bytes32 nTag @ bytes32 nBufLen
     @ [if bIn then CBWFLAGS_DATA_IN else 0, CBWLUN, of_nat (length cmd)] @ cmd @ replicate (16 - length cmd) 0"

lemma cbw_bytes_length: "length cmd \<le> 16 \<Longrightarrow> length (cbw_bytes t n b cmd) = 31"
  by (simp add: cbw_bytes_def)

text \<open>The header that is filled field by field, over the cleared structure.\<close>

lemma cbw_header:
  "mem_write (p + 8) (bytes32 n) (mem_write (p + 4) (bytes32 t) (mem_write p (bytes32 CBWSIGNATURE)
      (mem_write p (replicate 31 0) m)))
   = mem_write p (bytes32 CBWSIGNATURE @ bytes32 t @ bytes32 n @ replicate 19 0) m"
proof -
  have e: "p + 4 = p + of_nat 4" "p + 8 = p + of_nat 8" by simp_all
  have w0: "mem_write p (bytes32 x) (mem_write p bs m) = mem_write p (bytes32 x @ drop 4 bs) m"
    if "4 \<le> length bs" "length bs \<le> 2 ^ 64" for x bs
    using mem_write_splice[of 0 "bytes32 x" bs p m] that by simp
  show ?thesis
    by (simp add: w0 e mem_write_splice del: of_nat_numeral)
qed

lemma assign_bits_write:
  assumes "k < length bs" and "length bs \<le> 2 ^ 64" and "bs ! k = 0"
  shows "assign_bits (p + of_nat k) x v (mem_write p bs m) = mem_write p (bs[k := v AND x]) m"
  using assms by (simp add: assign_bits_def mem_write_upd mem_write_at del: fun_upd_apply)

lemma cbw_flags:
  assumes "length h = 12"
  shows "assign_bits (p + 14) y v (assign_bits (p + 13) x u ((mem_write p (h @ replicate 19 0) m)(p + 12 := f)))
     = mem_write p (h @ [f, u AND x, v AND y] @ replicate 16 0) m"
proof -
  have e: "p + 12 = p + of_nat 12" "p + 13 = p + of_nat 13" "p + 14 = p + of_nat 14" by simp_all
  define bs where "bs = h @ replicate 19 0"
  have bs: "length bs = 31" "bs ! 13 = 0" "bs ! 14 = 0" using assms by (simp_all add: bs_def nth_append)
  have "assign_bits (p + 14) y v (assign_bits (p + 13) x u ((mem_write p bs m)(p + 12 := f)))
      = mem_write p (bs[12 := f, 13 := u AND x, 14 := v AND y]) m"
    unfolding e using bs by (simp add: mem_write_upd assign_bits_write del: of_nat_numeral)
  also have "bs[12 := f, 13 := u AND x, 14 := v AND y] = h @ [f, u AND x, v AND y] @ replicate 16 0"
    using assms by (simp add: bs_def list_update_append numeral_eq_Suc)
  finally show ?thesis by (simp only: bs_def)
qed

lemma fill_CBW_eq:
  assumes n: "unat nCmdBlkLen \<le> 16" and d: "block p 31 \<inter> block pCmdBlk (unat nCmdBlkLen) = {}"
  shows "fill_CBW p nTag nBufLen bIn pCmdBlk nCmdBlkLen m
     = mem_write p (cbw_bytes nTag nBufLen bIn (mem_read pCmdBlk (unat nCmdBlkLen) m)) m"
proof -
  define k where "k = unat nCmdBlkLen"
  define cmd where "cmd = mem_read pCmdBlk k m"
  have k: "unat (ucast nCmdBlkLen :: u64) = k" by (simp add: k_def unat_ucast_up)
  have lc: "length cmd = k" by (simp add: cmd_def)
  have len: "ucast nCmdBlkLen AND (0x1F :: u8) = of_nat k"
  proof -
    have "unat (ucast nCmdBlkLen :: u8) = k" using n by (simp add: k_def unsigned_ucast_eq take_bit_nat_eq_self)
    moreover have "unat (of_nat k :: u8) = k" using n by (intro unat_of_nat_small) (simp add: k_def)
    moreover have "x AND 0x1F = x" if "unat x < 32" for x :: u8
    proof -
      have "\<forall>i \<in> set [0..<32]. (of_nat i :: u8) AND 0x1F = of_nat i" by code_simp
      from bspec[OF this, of "unat x"] that show ?thesis by simp
    qed
    ultimately show ?thesis using n by (simp add: k_def word_unat_eq_iff)
  qed
  define hd where "hd = bytes32 CBWSIGNATURE @ bytes32 nTag @ bytes32 nBufLen
    @ [if bIn then CBWFLAGS_DATA_IN else 0, CBWLUN, of_nat k]"
  have lh: "length hd = 15" by (simp add: hd_def)
  have sub: "block (p + 15) k \<subseteq> block p 31"
    using block_add[of p 15 16] block_add[of "p + 15" k "16 - k"] n by (auto simp: k_def)
  have rd: "mem_read pCmdBlk k (mem_write p (hd @ replicate 16 0) m) = cmd"
    using d lh unfolding cmd_def k_def by (intro mem_read_other) (simp add: Int_commute)
  have "fill_CBW p nTag nBufLen bIn pCmdBlk nCmdBlkLen m
      = memcpy_loop k (p + 15) pCmdBlk (mem_write p (hd @ replicate 16 0) m)"
    using cbw_flags[of "bytes32 CBWSIGNATURE @ bytes32 nTag @ bytes32 nBufLen" p] len
    by (simp add: fill_CBW_def uspi_memset_def uspi_memcpy_def memset_loop_eq k sizeof_TCBW_def hd_def
        cbw_header CBWLUN_def Let_def del: fun_upd_apply)
  also have "\<dots> = mem_write (p + of_nat 15) cmd (mem_write p (hd @ replicate 16 0) m)"
    using sub d rd by (subst memcpy_loop_eq) (auto simp: k_def)
  also have "\<dots> = mem_write p (hd @ cmd @ replicate (16 - k) 0) m"
    using n lh lc by (subst mem_write_splice) (auto simp: k_def)
  finally show ?thesis by (simp add: cbw_bytes_def hd_def cmd_def k_def)
qed

section \<open>What a command does\<close>

text \<open>The status wrapper that the device sent.\<close>

definition csw_of :: "u8 list \<Rightarrow> TCSW" where
  "csw_of bs = \<lparr>csw_dCSWSignature = word32 (take 4 bs), csw_dCSWTag = word32 (take 4 (drop 4 bs)),
     csw_dCSWDataResidue = word32 (take 4 (drop 8 bs)), csw_bCSWStatus = bs ! 12\<rparr>"

lemma get_CSW_write:
  assumes "length bs = 13"
  shows "get_CSW p (mem_write p bs m) = csw_of bs"
proof -
  define M where "M = mem_write p bs m"
  have r: "mem_read p 13 M = bs" using mem_read_write[of bs p m] assms by (simp add: M_def)
  define A B C where "A = mem_read p 4 M" and "B = mem_read (p + 4) 4 M" and "C = mem_read (p + 8) 4 M"
  have l: "length A = 4" "length B = 4" "length C = 4" by (simp_all only: A_def B_def C_def mem_read_length)
  have "mem_read p 13 M = A @ B @ C @ [M (p + 12)]"
    using mem_read_add[of p 4 9 M] mem_read_add[of "p + 4" 4 5 M] mem_read_add[of "p + 8" 4 1 M]
    by (simp add: A_def B_def C_def add.assoc)
  then have bs: "bs = A @ B @ C @ [M (p + 12)]" using r by simp
  have "csw_of (A @ B @ C @ [M (p + 12)]) = get_CSW p M"
    using l by (simp add: get_CSW_def csw_of_def A_def[symmetric] B_def[symmetric] C_def[symmetric] nth_append)
  then have "csw_of bs = get_CSW p M" by (simp only: bs[symmetric])
  then show ?thesis by (simp only: M_def)
qed

definition csw_good :: "u32 \<Rightarrow> TCSW \<Rightarrow> bool" where
  "csw_good nTag c \<longleftrightarrow> csw_dCSWSignature c = CSWSIGNATURE \<and> csw_dCSWTag c = nTag
     \<and> csw_bCSWStatus c = CSWSTATUS_PASSED \<and> csw_dCSWDataResidue c = 0"

text \<open>The data phase: nothing for an empty buffer, else one transfer in the given direction.\<close>

definition data_events :: "TUSBBulkOnlyMassStorageDevice \<Rightarrow> bool \<Rightarrow> u32 \<Rightarrow> u8 list \<Rightarrow> int \<Rightarrow> wire_event list" where
  "data_events d bIn nBufLen bs r = (if nBufLen = 0 then []
     else if bIn then [WireIn (ms_pEndpointIn d) bs r] else [WireOut (ms_pEndpointOut d) bs r])"

definition protocol_run ::
    "TUSBBulkOnlyMassStorageDevice \<Rightarrow> u8 list \<Rightarrow> bool \<Rightarrow> u32 \<Rightarrow> u8 list \<Rightarrow> int \<Rightarrow> int \<Rightarrow> u8 list \<Rightarrow> wire_event list" where
  "protocol_run d cmd bIn nBufLen bs r n csw =
     WireOut (ms_pEndpointOut d) (cbw_bytes (ms_nCWBTag d + 1) nBufLen bIn cmd) n
     # data_events d bIn nBufLen bs r @ [WireIn (ms_pEndpointIn d) csw 13]"

definition command_pre :: "locals \<Rightarrow> TUSBBulkOnlyMassStorageDevice \<Rightarrow> uintptr \<Rightarrow> u32 \<Rightarrow> uintptr \<Rightarrow> u32
    \<Rightarrow> 'a io_world_scheme driver_code \<Rightarrow> 'a io_world_scheme \<Rightarrow> bool" where
  "command_pre l d pCmdBlk nCmdBlkLen pBuffer nBufLen drv w \<longleftrightarrow>
     drv_keeps drv \<and> ep_dir (w_store w) (ms_pEndpointOut d) = Some False
     \<and> ep_dir (w_store w) (ms_pEndpointIn d) = Some True
     \<and> block (loc_CBW l) 31 \<inter> block pCmdBlk (unat nCmdBlkLen) = {}
     \<and> block (loc_CBW l) 31 \<inter> block pBuffer (unat nBufLen) = {}"

definition data_moved :: "bool \<Rightarrow> uintptr \<Rightarrow> u32 \<Rightarrow> u8 list \<Rightarrow> int \<Rightarrow> mem \<Rightarrow> mem \<Rightarrow> bool" where
  "data_moved bIn pBuffer nBufLen bs r m m' \<longleftrightarrow> (nBufLen = 0 \<longrightarrow> r = 0)
     \<and> (if bIn then length bs = nat r \<and> m' = mem_write pBuffer bs m
        else bs = mem_read pBuffer (unat nBufLen) m \<and> m' = m)"

lemma data_phase:
  assumes t: "(if nBufLen > 0
         then usb_transfer drv l (if bIn then ms_pEndpointIn d else ms_pEndpointOut d) pBuffer nBufLen w
         else Some (0, w)) = Some (r, w')"
    and drv: "drv_keeps drv" and out: "ep_dir (w_store w) (ms_pEndpointOut d) = Some False"
    and inn: "ep_dir (w_store w) (ms_pEndpointIn d) = Some True"
  shows "\<exists>bs. w_wire w' = w_wire w @ data_events d bIn nBufLen bs r \<and> store_sig (w_store w') = store_sig (w_store w)
     \<and> data_moved bIn pBuffer nBufLen bs r (w_mem w) (w_mem w')"
proof (cases "nBufLen = 0")
  case True
  then have "mem_read pBuffer (unat nBufLen) (w_mem w) = []" by simp
  with t True show ?thesis
    by (intro exI[of _ "[]"]) (auto simp: data_events_def data_moved_def)
next
  case False
  then have nz: "nBufLen > 0" by (simp add: word_gt_0)
  show ?thesis
  proof (cases bIn)
    case True
    with t nz have "usb_transfer drv l (ms_pEndpointIn d) pBuffer nBufLen w = Some (r, w')" by simp
    from usb_transfer_in[OF this drv inn] False True show ?thesis
      by (auto simp: data_events_def data_moved_def)
  next
    case bOut: False
    with t nz have "usb_transfer drv l (ms_pEndpointOut d) pBuffer nBufLen w = Some (r, w')" by simp
    from usb_transfer_out[OF this drv out] False bOut show ?thesis
      by (auto simp: data_events_def data_moved_def)
  qed
qed

lemma command_run:
  assumes c: "USBBulkOnlyMassStorageDeviceCommand drv l d pCmdBlk nCmdBlkLen pBuffer nBufLen bIn w = Some (r, d', w')"
    and pre: "command_pre l d pCmdBlk nCmdBlkLen pBuffer nBufLen drv w" and r: "r \<ge> 0"
  shows "d' = d\<lparr>ms_nCWBTag := ms_nCWBTag d + 1\<rparr> \<and> store_sig (w_store w') = store_sig (w_store w)
     \<and> (\<exists>bs csw n m. w_wire w' = w_wire w
           @ protocol_run d (mem_read pCmdBlk (unat nCmdBlkLen) (w_mem w)) bIn nBufLen bs r n csw
         \<and> n \<ge> 0 \<and> length csw = 13 \<and> csw_good (ms_nCWBTag d + 1) (csw_of csw)
         \<and> data_moved bIn pBuffer nBufLen bs r (mem_write (loc_CBW l) (cbw_bytes (ms_nCWBTag d + 1) nBufLen bIn
               (mem_read pCmdBlk (unat nCmdBlkLen) (w_mem w))) (w_mem w)) m
         \<and> w_mem w' = mem_write (loc_CSW l) csw m)"
proof -
  let ?d = "d\<lparr>ms_nCWBTag := ms_nCWBTag d + 1\<rparr>"
  let ?cmd = "mem_read pCmdBlk (unat nCmdBlkLen) (w_mem w)"
  let ?cbw = "cbw_bytes (ms_nCWBTag d + 1) nBufLen bIn ?cmd"
  let ?w0 = "w\<lparr>w_mem := mem_write (loc_CBW l) ?cbw (w_mem w)\<rparr>"
  from c have n16: "unat nCmdBlkLen \<le> 16"
    by (auto simp: USBBulkOnlyMassStorageDeviceCommand_def bind_Some_iff word_le_nat_alt split: if_splits)
  from pre have drv: "drv_keeps drv" and out: "ep_dir (w_store ?w0) (ms_pEndpointOut d) = Some False"
    and inn: "ep_dir (w_store ?w0) (ms_pEndpointIn d) = Some True"
    and dis: "block (loc_CBW l) 31 \<inter> block pCmdBlk (unat nCmdBlkLen) = {}"
      "block (loc_CBW l) 31 \<inter> block pBuffer (unat nBufLen) = {}"
    by (simp_all add: command_pre_def)
  have lc: "length ?cbw = 31" using n16 by (simp add: cbw_bytes_length)
  from c r fill_CBW_eq[OF n16 dis(1)] obtain n w1 w2 m where
    t1: "usb_transfer drv l (ms_pEndpointOut d) (loc_CBW l) sizeof_TCBW ?w0 = Some (n, w1)" "n \<ge> 0"
    and t2: "(if nBufLen > 0 then usb_transfer drv l (if bIn then ms_pEndpointIn d else ms_pEndpointOut d) pBuffer nBufLen w1
         else Some (0, w1)) = Some (r, w2)"
    and t3: "usb_transfer drv l (ms_pEndpointIn d) (loc_CSW l) sizeof_TCSW w2 = Some (m, w')"
    and ok: "m = 13" "csw_good (ms_nCWBTag d + 1) (get_CSW (loc_CSW l) (w_mem w'))" and d': "d' = ?d"
    by (auto simp: USBBulkOnlyMassStorageDeviceCommand_def bind_Some_iff Let_def sizeof_TCSW_def csw_good_def
        simp del: fun_upd_apply split: if_splits prod.splits)
  note e1 = usb_transfer_out[OF t1(1) drv out]
  have rd: "mem_read (loc_CBW l) (unat sizeof_TCBW) (w_mem ?w0) = ?cbw"
    using mem_read_write[of ?cbw "loc_CBW l"] lc by (simp add: sizeof_TCBW_def)
  from e1 out inn have "ep_dir (w_store w1) (ms_pEndpointOut d) = Some False"
    and "ep_dir (w_store w1) (ms_pEndpointIn d) = Some True"
    using ep_dir_sig[of "w_store w1" "w_store ?w0"] by auto
  from data_phase[OF t2 drv this] obtain bs where
    e2: "w_wire w2 = w_wire w1 @ data_events d bIn nBufLen bs r" "store_sig (w_store w2) = store_sig (w_store w1)"
    "data_moved bIn pBuffer nBufLen bs r (w_mem w1) (w_mem w2)" by blast
  have "ep_dir (w_store w2) (ms_pEndpointIn d) = Some True"
    using e1 e2(2) inn ep_dir_sig[of "w_store w2" "w_store ?w0"] by auto
  from usb_transfer_in[OF t3 drv this] ok(1) obtain csw where
    e3: "length csw = 13" "w_wire w' = w_wire w2 @ [WireIn (ms_pEndpointIn d) csw 13]"
    "w_mem w' = mem_write (loc_CSW l) csw (w_mem w2)" "store_sig (w_store w') = store_sig (w_store w2)"
    by (elim exE conjE) (rule that, auto)
  have good: "csw_good (ms_nCWBTag d + 1) (csw_of csw)"
    using ok(2) unfolding e3(3) get_CSW_write[OF e3(1)] .
  show ?thesis
  proof (intro conjI exI)
    show "w_wire w' = w_wire w @ protocol_run d ?cmd bIn nBufLen bs r n csw"
      using e1 e2(1) e3(2) rd by (simp add: protocol_run_def)
    show "store_sig (w_store w') = store_sig (w_store w)" using e1 e2(2) e3(4) by simp
    show "data_moved bIn pBuffer nBufLen bs r (mem_write (loc_CBW l) ?cbw (w_mem w)) (w_mem w2)"
      using e1 e2(3) by simp
  qed (use d' t1(2) e3 good in auto)
qed

section \<open>Reading addresses the right blocks\<close>

text \<open>The value of a big-endian byte sequence.\<close>

definition be_value :: "u8 list \<Rightarrow> nat" where
  "be_value bs = horner 256 (map unat bs)"

lemma unat_drop_bit: "unat (drop_bit k x) = unat x div 2 ^ k"
  by (simp only: unsigned_drop_bit_eq) (simp add: drop_bit_eq_div take_bit_nat_eq_self unat_less_2p)

lemma byte_of_word: "unat (ucast (drop_bit k x) :: u8) = unat x div 2 ^ k mod 256"
proof -
  have "unat (ucast (drop_bit k x) :: u8) = unat (drop_bit k x) mod 256"
    by (simp only: unsigned_ucast_eq) (simp add: take_bit_eq_mod)
  then show ?thesis by (simp add: unat_drop_bit del: drop_bit_eq_div)
qed

lemma be_bytes32: "be_value (rev (bytes32 x)) = unat x"
proof -
  define a where "a = unat x"
  have a: "a < 2 ^ 32" using unat_less_2p[of x] by (simp add: a_def)
  have b: "unat (ucast (drop_bit k x) :: u8) = a div 2 ^ k mod 256" for k by (simp add: byte_of_word a_def)
  have dm: "n = 256 * (n div 256) + n mod 256" for n :: nat by simp
  define q1 q2 q3 where "q1 = a div 256" and "q2 = q1 div 256" and "q3 = q2 div 256"
  have q: "a = 256 * q1 + a mod 256" "q1 = 256 * q2 + q1 mod 256" "q2 = 256 * q3 + q2 mod 256"
    unfolding q1_def q2_def q3_def by (rule dm)+
  have "256 * (256 * (256 * q3 + q2 mod 256) + q1 mod 256) + a mod 256 = a"
    by (simp only: q(3)[symmetric] q(2)[symmetric] q(1)[symmetric])
  moreover have "a div 2 ^ 8 = q1" "a div 2 ^ 16 = q2" "a div 2 ^ 24 mod 256 = q3"
    using a by (simp_all add: q1_def q2_def q3_def div_mult2_eq[symmetric])
  ultimately show ?thesis
    using b[of 0] b[of 8] b[of 16] b[of 24]
    by (simp add: be_value_def bytes32_def horner_def a_def[symmetric] algebra_simps)
qed

lemma be_bytes16: "be_value (rev (bytes16 x)) = unat x"
proof -
  define a where "a = unat x"
  have a: "a < 2 ^ 16" using unat_less_2p[of x] by (simp add: a_def)
  have b: "unat (ucast (drop_bit k x) :: u8) = a div 2 ^ k mod 256" for k by (simp add: byte_of_word a_def)
  have "a = 256 * (a div 256) + a mod 256" "a div 256 mod 256 = a div 256" using a by simp_all
  then show ?thesis
    using b[of 0] b[of 8] by (simp add: be_value_def bytes16_def horner_def a_def[symmetric])
qed

lemma block_mask: "x AND UMSD_BLOCK_MASK = 0 \<longleftrightarrow> unat x mod 512 = 0" for x :: "'a::len word"
proof -
  have "x AND UMSD_BLOCK_MASK = take_bit 9 x"
    by (simp add: UMSD_BLOCK_MASK_def take_bit_eq_mask mask_eq_exp_minus_1)
  moreover have "unat (take_bit 9 x) = unat x mod 512"
    by (simp only: unsigned_take_bit_eq) (simp add: take_bit_eq_mod)
  ultimately show ?thesis by (metis unat_eq_zero)
qed


text \<open>What the command blocks of reading and writing say.\<close>

definition addresses :: "u8 list \<Rightarrow> nat \<Rightarrow> nat \<Rightarrow> bool" where
  "addresses cmd ofs n \<longleftrightarrow> length cmd = 10 \<and> be_value (take 4 (drop 2 cmd)) * UMSD_BLOCK_SIZE = ofs
     \<and> be_value (take 2 (drop 7 cmd)) * UMSD_BLOCK_SIZE = n"

lemma block_address:
  fixes ofs :: u64 and n :: u32
  assumes "ofs AND UMSD_BLOCK_MASK = 0" and "ofs \<le> UMSD_MAX_OFFSET" and "n AND UMSD_BLOCK_MASK = 0" and "n < 0x2000000"
  shows "unat (ucast (drop_bit UMSD_BLOCK_SHIFT ofs) :: u32) * 512 = unat ofs"
    and "unat (ucast (drop_bit UMSD_BLOCK_SHIFT n) :: u16) * 512 = unat n"
proof -
  have o: "unat (drop_bit 9 ofs) = unat ofs div 512" "unat (drop_bit 9 n) = unat n div 512"
    using unat_drop_bit[of 9 ofs] unat_drop_bit[of 9 n] by simp_all
  have l: "unat ofs div 512 < 2 ^ 32" "unat n div 512 < 2 ^ 16"
    using assms(2,4) by (simp_all add: UMSD_MAX_OFFSET_def word_le_nat_alt word_less_nat_alt)
  have "unat (ucast (drop_bit 9 ofs) :: u32) = unat ofs div 512" "unat (ucast (drop_bit 9 n) :: u16) = unat n div 512"
    using l by (simp_all only: unsigned_ucast_eq o) (simp_all add: take_bit_nat_eq_self)
  with assms(1,3) show "unat (ucast (drop_bit UMSD_BLOCK_SHIFT ofs) :: u32) * 512 = unat ofs"
    "unat (ucast (drop_bit UMSD_BLOCK_SHIFT n) :: u16) * 512 = unat n"
    by (auto simp: UMSD_BLOCK_SHIFT_def block_mask)
qed

lemma commands_address:
  assumes "unat a * 512 = ofs" and "unat n * 512 = k"
  shows "addresses (read10 a n) ofs k" and "addresses (write10 a n) ofs k"
  using assms
  by (simp_all add: addresses_def read10_def write10_def le2be32_bytes le2be16_bytes be_bytes32 be_bytes16
      UMSD_BLOCK_SIZE_def)


section \<open>Frames of the driver's operations\<close>

lemma command_sig:
  assumes "drv_keeps drv"
  shows "ends (\<lambda>(r, d', w'). d' = d\<lparr>ms_nCWBTag := ms_nCWBTag d + 1\<rparr> \<and> io_sig w' = io_sig w)
    (USBBulkOnlyMassStorageDeviceCommand drv l d pc nc pb nb bIn w)"
proof -
  note t = usb_transfer_sig[OF _ assms]
  show ?thesis
    unfolding USBBulkOnlyMassStorageDeviceCommand_def
    by (intro ends_rules) (auto dest!: t split: if_splits)
qed


lemma TryRead_sig:
  assumes "drv_keeps drv"
  shows "ends (\<lambda>(r, d', w'). (\<exists>t. d' = d\<lparr>ms_nCWBTag := t\<rparr>) \<and> io_sig w' = io_sig w)
    (USBBulkOnlyMassStorageDeviceTryRead drv l d pBuffer nCount w)"
  unfolding USBBulkOnlyMassStorageDeviceTryRead_def
  by (intro ends_rules) (auto dest!: ends_D[OF command_sig[OF assms]] simp: put_local_def intro: exI[of _ "ms_nCWBTag d"])

lemma TryWrite_sig:
  assumes "drv_keeps drv"
  shows "ends (\<lambda>(r, d', w'). (\<exists>t. d' = d\<lparr>ms_nCWBTag := t\<rparr>) \<and> io_sig w' = io_sig w)
    (USBBulkOnlyMassStorageDeviceTryWrite drv l d pBuffer nCount w)"
  unfolding USBBulkOnlyMassStorageDeviceTryWrite_def
  by (intro ends_rules) (auto dest!: ends_D[OF command_sig[OF assms]] simp: put_local_def intro: exI[of _ "ms_nCWBTag d"])

lemma reset_pid_sig: "reset_pid p w = Some w' \<Longrightarrow> store_sig (w_store w') = store_sig (w_store w) \<and> io_sig w' = io_sig w"
  by (auto simp: reset_pid_def bind_Some_iff io_sig_def store_sig_def USBEndpointResetPID_def ep_sig_def
      fun_eq_iff split: if_splits)

lemma Reset_sig:
  assumes "drv_keeps drv"
  shows "ends (\<lambda>(r, w'). io_sig w' = io_sig w \<and> (r = 0 \<or> r = - 1)) (USBBulkOnlyMassStorageDeviceReset drv l d w)"
  unfolding USBBulkOnlyMassStorageDeviceReset_def
  by (intro ends_rules) (auto dest!: usb_control_sig[OF _ assms] reset_pid_sig)

section \<open>Retrying\<close>

text \<open>A number of failed attempts, each followed by a successful reset.\<close>

inductive failed_attempts for attempt rst nCount where
  none: "failed_attempts attempt rst nCount 0 d w d w"
| more: "\<lbrakk>failed_attempts attempt rst nCount k d w d1 w1; attempt d1 w1 = Some (r, d2, w2); r \<noteq> nCount;
          rst d2 w2 = Some (0, w3)\<rbrakk> \<Longrightarrow> failed_attempts attempt rst nCount (Suc k) d w d2 w3"

lemma failed_attempts_first:
  "\<lbrakk>attempt d w = Some (r, d1, w1); r \<noteq> nCount; rst d1 w1 = Some (0 :: int, w2); failed_attempts attempt rst nCount k d1 w2 d' w'\<rbrakk>
   \<Longrightarrow> failed_attempts attempt rst nCount (Suc k) d w d' w'"
proof (induction k arbitrary: d' w')
  case 0
  then show ?case by (auto elim: failed_attempts.cases intro!: failed_attempts.more[OF failed_attempts.none])
next
  case (Suc k)
  from Suc.prems(4) obtain d2 w3 r' w4 where
    "failed_attempts attempt rst nCount k d1 w2 d2 w3" "attempt d2 w3 = Some (r', d', w4)" "r' \<noteq> nCount"
    "rst d' w4 = Some (0, w')" by (auto elim: failed_attempts.cases)
  with Suc.IH[OF Suc.prems(1-3)] show ?case by (blast intro: failed_attempts.more)
qed

lemma retry_spec:
  assumes "retry attempt rst nCount n d w = Some (r, d', w')" and "n > 0"
  shows "\<exists>k d1 w1 r1 w2. k < n \<and> failed_attempts attempt rst (sint nCount) k d w d1 w1 \<and> attempt d1 w1 = Some (r1, d', w2)
     \<and> (if r1 = sint nCount then r = r1 \<and> w' = w2
        else \<exists>s. rst d' w2 = Some (s, w') \<and> (if s \<noteq> 0 then r = s else k = n - 1 \<and> r = r1))"
  using assms
proof (induction n arbitrary: d w)
  case (Suc n)
  from Suc.prems(1) obtain r1 d1 w1 where a: "attempt d w = Some (r1, d1, w1)"
    by (subst (asm) retry.simps) (auto simp: bind_Some_iff)
  show ?case
  proof (cases "r1 = sint nCount")
    case True
    with Suc.prems(1) a have "r = r1 \<and> d' = d1 \<and> w' = w1" by (subst (asm) retry.simps) auto
    with a True show ?thesis
      by (intro exI[of _ 0] exI[of _ d] exI[of _ w] exI[of _ r1] exI[of _ w1]) (auto intro: failed_attempts.none)
  next
    case False
    note u = Suc.prems(1)[unfolded retry.simps[of attempt rst nCount "Suc n" d w]]
    from u a False obtain s w2 where s: "rst d1 w1 = Some (s, w2)"
      and rest: "(if s \<noteq> 0 then Some (s, d1, w2) else if n > 0 then retry attempt rst nCount n d1 w2
                  else Some (r1, d1, w2)) = Some (r, d', w')"
      unfolding diff_Suc_1 by (auto simp: bind_Some_iff)
    show ?thesis
    proof (cases "s = 0 \<and> n > 0")
      case True
      with rest have "retry attempt rst nCount n d1 w2 = Some (r, d', w')" by simp
      from Suc.IH[OF this conjunct2[OF True]] obtain k d3 w3 r3 w4 where
        IH: "k < n" "failed_attempts attempt rst (sint nCount) k d1 w2 d3 w3" "attempt d3 w3 = Some (r3, d', w4)"
        "if r3 = sint nCount then r = r3 \<and> w' = w4
         else \<exists>s. rst d' w4 = Some (s, w') \<and> (if s \<noteq> 0 then r = s else k = n - 1 \<and> r = r3)"
        by (elim exE conjE) (rule that; assumption)
      have fa: "failed_attempts attempt rst (sint nCount) (Suc k) d w d3 w3"
        using failed_attempts_first[OF a False _ IH(2)] s True by simp
      have "k = n - 1 \<longleftrightarrow> Suc k = Suc n - 1" using True by auto
      from IH(4)[unfolded this] IH(1) IH(3) fa show ?thesis by (intro exI conjI) simp_all
    next
      case F: False
      with rest have fin: "d' = d1" "w' = w2" "if s \<noteq> 0 then r = s else 0 = Suc n - 1 \<and> r = r1"
        by (auto split: if_splits)
      have "if r1 = sint nCount then r = r1 \<and> w' = w1
          else \<exists>s. rst d' w1 = Some (s, w') \<and> (if s \<noteq> 0 then r = s else 0 = Suc n - 1 \<and> r = r1)"
        using False s fin by (simp only: if_False) blast
      with a fin(1) failed_attempts.none[of attempt rst "sint nCount" d w] show ?thesis by (intro exI conjI) simp_all
    qed
  qed
qed simp


text \<open>What the failed attempts leave alone, if attempts and resets do.\<close>

lemma failed_attempts_sig:
  assumes "failed_attempts attempt rst nCount k d w d' w'"
    and "\<And>d w r d' w'. attempt d w = Some (r, d', w') \<Longrightarrow> (\<exists>t. d' = d\<lparr>ms_nCWBTag := t\<rparr>) \<and> io_sig w' = io_sig w"
    and "\<And>d w r w'. rst d w = Some (r, w') \<Longrightarrow> io_sig w' = io_sig w"
  shows "(\<exists>t. d' = d\<lparr>ms_nCWBTag := t\<rparr>) \<and> io_sig w' = io_sig w"
  using assms(1)
proof (induction rule: failed_attempts.induct)
  case (none d w)
  show ?case by (auto intro: exI[of _ "ms_nCWBTag d"])
next
  case (more k d w d1 w1 r d2 w2 w3)
  from assms(2)[OF more.hyps(2)] assms(3)[OF more.hyps(4)] more.IH show ?case by auto
qed

lemma sint_small:
  fixes n :: u32
  assumes "unat n < 2 ^ 31"
  shows "sint n = int (unat n)"
proof -
  have "int (unat n) < int (2 ^ 31)" using assms by (simp only: of_nat_less_iff)
  then have u: "uint n < 2 ^ 31" by simp
  have "- (2 ^ 31) \<le> (0 :: int)" by simp
  also have "0 \<le> uint n" by (rule unsigned_greater_eq)
  finally have "- (2 ^ 31) \<le> uint n" .
  from signed_take_bit_int_eq_self[OF this u] sint_uint[of n] show ?thesis by simp
qed

lemma command_pre_put_local [simp]:
  "command_pre l d pc nc pb nb drv (put_local p bs w) = command_pre l d pc nc pb nb drv w"
  by (simp add: command_pre_def put_local_def)

text \<open>One attempt that succeeds.\<close>

definition block_run ::
    "locals \<Rightarrow> u8 \<Rightarrow> bool \<Rightarrow> TUSBBulkOnlyMassStorageDevice \<Rightarrow> u32 \<Rightarrow> u8 list \<Rightarrow> wire_event list \<Rightarrow> bool" where
  "block_run l op bIn d nCount bs es \<longleftrightarrow> (\<exists>cmd r n csw. es = protocol_run d cmd bIn nCount bs r n csw
     \<and> cmd ! 0 = op \<and> addresses cmd (unat (ms_ullOffset d)) (unat nCount) \<and> length bs = unat nCount
     \<and> n \<ge> 0 \<and> r \<ge> 0 \<and> length csw = 13 \<and> csw_good (ms_nCWBTag d + 1) (csw_of csw))"

lemma TryRead_ok:
  assumes t: "USBBulkOnlyMassStorageDeviceTryRead drv l d pBuffer nCount w = Some (sint nCount, d', w')"
    and pre: "command_pre l d (loc_cmd l) 10 pBuffer nCount drv w" and n: "nCount < 0x2000000"
    and dis: "block pBuffer (unat nCount) \<inter> block (loc_CSW l) 13 = {}"
  shows "\<exists>bs es. w_wire w' = w_wire w @ es \<and> block_run l SCSI_OP_READ True d nCount bs es
     \<and> mem_read pBuffer (unat nCount) (w_mem w') = bs"
proof -
  have un: "unat nCount < 0x2000000" using n by (simp add: word_less_nat_alt)
  then have sn: "sint nCount = int (unat nCount)" by (simp add: sint_small)
  have nn: "- 1 \<noteq> sint nCount" unfolding sn by linarith
  define cmd where "cmd = read10 (ucast (drop_bit UMSD_BLOCK_SHIFT (ms_ullOffset d))) (ucast (drop_bit UMSD_BLOCK_SHIFT nCount))"
  have lc: "length cmd = 10" by (simp add: cmd_def read10_def)
  from t nn obtain r where al: "ms_ullOffset d AND UMSD_BLOCK_MASK = 0" "ms_ullOffset d \<le> UMSD_MAX_OFFSET"
    "nCount AND UMSD_BLOCK_MASK = 0"
    and c: "USBBulkOnlyMassStorageDeviceCommand drv l d (loc_cmd l) 10 pBuffer nCount True (put_local (loc_cmd l) cmd w)
        = Some (r, d', w')" and r: "r = sint nCount"
    by (auto simp: USBBulkOnlyMassStorageDeviceTryRead_def bind_Some_iff Let_def cmd_def not_less
        split: if_splits prod.splits)
  have rd: "mem_read (loc_cmd l) (unat (10 :: u32)) (w_mem (put_local (loc_cmd l) cmd w)) = cmd"
    using mem_read_write[of cmd "loc_cmd l" "w_mem w"] lc by (simp add: put_local_def)
  from command_run[OF c] pre r sn obtain bs csw k m where
    e: "w_wire w' = w_wire (put_local (loc_cmd l) cmd w) @ protocol_run d cmd True nCount bs r k csw" "k \<ge> 0"
    "length csw = 13" "csw_good (ms_nCWBTag d + 1) (csw_of csw)"
    "length bs = nat r" "w_mem w' = mem_write (loc_CSW l) csw (mem_write pBuffer bs m)"
    unfolding rd data_moved_def by auto
  have "addresses cmd (unat (ms_ullOffset d)) (unat nCount)"
    unfolding cmd_def by (rule commands_address(1)) (rule block_address[OF al n])+
  moreover have "cmd ! 0 = SCSI_OP_READ" by (simp add: cmd_def read10_def)
  moreover have "mem_read pBuffer (unat nCount) (w_mem w') = bs"
    using e(3,5) dis r sn un mem_read_write[of bs pBuffer m] unfolding e(6)
    by (subst mem_read_other) auto
  ultimately show ?thesis
    using e r sn by (intro exI[of _ bs] exI conjI) (auto simp: block_run_def put_local_def)
qed

section \<open>A device that answers\<close>

text \<open>
  A concrete world: one high-speed device with a bulk endpoint in each direction, a controller that
  completes every transaction at once, and the bytes \<open>data\<close> that the device sends, one list per IN transfer.
\<close>

definition ms_endpoint :: "u8 \<Rightarrow> bool \<Rightarrow> TUSBEndpoint" where
  "ms_endpoint n bIn = \<lparr>ep_pDevice = Some 0, ep_ucNumber = ucast n, ep_Type = EndpointTypeBulk, ep_bDirectionIn = bIn,
     ep_nMaxPacketSize = 512, ep_nInterval = 1, ep_NextPID = USBPIDData0\<rparr>"

definition ms_control :: TUSBEndpoint where
  "ms_control = \<lparr>ep_pDevice = Some 0, ep_ucNumber = 0, ep_Type = EndpointTypeControl, ep_bDirectionIn = False,
     ep_nMaxPacketSize = 64, ep_nInterval = 1, ep_NextPID = USBPIDSetup\<rparr>"

definition ms_store :: usb_store where
  "ms_store = \<lparr>st_devs = [0 \<mapsto> \<lparr>dev_ucAddress = 3, dev_Speed = USBSpeedHigh, dev_pEndpoint0 = Some 1,
       dev_bSplitTransfer = False, dev_ucHubAddress = 0, dev_ucHubPortNumber = 1\<rparr>],
     st_eps = [1 \<mapsto> ms_control, 2 \<mapsto> ms_endpoint 1 True, 3 \<mapsto> ms_endpoint 2 False], st_urbs = (\<lambda>_. None)\<rparr>"

definition ms_world :: "u8 list list \<Rightarrow> io_world" where
  "ms_world data = \<lparr>w_timer = w_timer idle_world,
     w_io = \<lparr>io_oracle = (\<lambda>n. [0, 0, 0, 2 ^ 25, 1, 0, 1, 1, 1] ! (n mod 9)), io_pos = 0, io_trace = []\<rparr>,
     w_host = w_host idle_world, w_store = ms_store, w_events = (\<lambda>_. UsbInterrupt), w_evpos = 0,
     w_mem = (\<lambda>_. 0), w_data = (\<lambda>i j. data ! i ! j), w_datapos = 0, w_wire = [],
     w_names = Some \<lparr>dns_pList = []\<rparr>, w_nDeviceNumber = (\<lambda>_. 1), w_next = 10, w_malloc = (\<lambda>n. replicate n NUL)\<rparr>"

definition io_no_driver :: "io_world driver_code" where
  "io_no_driver = \<lparr>drv_completion = (\<lambda>_ _ _ _ w. Some w), drv_timer = (\<lambda>_ _ _ _ w. Some w)\<rparr>"

definition ms_locals :: locals where
  "ms_locals = \<lparr>loc_urb = 7, loc_setup = 0x1000, loc_CBW = 0x2000, loc_CSW = 0x3000, loc_cmd = 0x4000, loc_rsp = 0x5000\<rparr>"

definition ms_buffer :: "u8 list" where
  "ms_buffer = [9, 2, 32, 0, 1, 1, 0, 0x80, 50, 9, 4, 0, 0, 2, 8, 6, 0x50, 0, 7, 5, 0x81, 2, 0, 2, 0, 7, 5, 2, 2, 0, 2, 0]"

definition ms_function :: TUSBFunction where
  "ms_function = \<lparr>fn_Configure = Some MassStorageConfigure, fn_pDevice = Some 0,
     fn_pConfigParser = None, fn_pInterfaceDesc = None\<rparr>"

definition ms_device :: "u64 \<Rightarrow> TUSBBulkOnlyMassStorageDevice" where
  "ms_device ofs = \<lparr>ms_USBFunction = ms_function, ms_pEndpointIn = Some 2, ms_pEndpointOut = Some 3, ms_nCWBTag = 0,
     ms_nBlockCount = 100, ms_ullOffset = ofs\<rparr>"

definition csw_passed :: "u8 \<Rightarrow> u8 list" where
  "csw_passed t = [0x55, 0x53, 0x42, 0x53, t, 0, 0, 0, 0, 0, 0, 0, 0]"



lemma io_no_driver_keeps: "drv_keeps io_no_driver"
  by (simp add: drv_keeps_def io_no_driver_def keeps_def)

lemma ms_command_run:
  "\<exists>d' w'. USBBulkOnlyMassStorageDeviceCommand io_no_driver ms_locals (ms_device 1024) 0x4000 10 0x6000 0 True
     (put_local 0x4000 (read10 2 0) (ms_world [csw_passed 1])) = Some (0, d', w')"
proof -
  have "map_option fst (USBBulkOnlyMassStorageDeviceCommand io_no_driver ms_locals (ms_device 1024) 0x4000 10 0x6000 0 True
     (put_local 0x4000 (read10 2 0) (ms_world [csw_passed 1]))) = Some 0"
    by code_simp
  then show ?thesis by auto
qed

lemma ms_read_run:
  "\<exists>d' w'. USBBulkOnlyMassStorageDeviceRead io_no_driver ms_locals (ms_device 1024) 0x6000 0 (ms_world [csw_passed 1])
     = Some (0, d', w')"
proof -
  have "loc_cmd ms_locals = 0x4000" "ms_ullOffset (ms_device 1024) = 1024" by (simp_all add: ms_locals_def ms_device_def)
  with ms_command_run have "\<exists>d' w'. USBBulkOnlyMassStorageDeviceTryRead io_no_driver ms_locals (ms_device 1024) 0x6000 0
      (ms_world [csw_passed 1]) = Some (0, d', w')"
    by (auto simp: USBBulkOnlyMassStorageDeviceTryRead_def Let_def UMSD_BLOCK_MASK_def UMSD_MAX_OFFSET_def UMSD_BLOCK_SHIFT_def)
  then show ?thesis by (auto simp: USBBulkOnlyMassStorageDeviceRead_def retry.simps[of _ _ _ 4])
qed

lemma ms_blocks: "block 0x2000 31 \<inter> block 0x4000 10 = {}"
  by code_simp

lemma ms_world_pre:
  "command_pre ms_locals (ms_device ofs) 0x4000 10 0x6000 0 io_no_driver (ms_world data)"
  using ms_blocks
  by (simp add: command_pre_def io_no_driver_keeps ep_dir_def ms_world_def ms_store_def ms_device_def ms_endpoint_def
      deref_def USBEndpointIsDirectionIn_def ms_locals_def)

section \<open>Configuration\<close>

lemma local_command_sig:
  assumes "drv_keeps drv"
  shows "ends (\<lambda>(r, d', w'). d' = d\<lparr>ms_nCWBTag := ms_nCWBTag d + 1\<rparr> \<and> io_sig w' = io_sig w)
    (local_command drv l d cmd n bIn w)"
  using command_sig[OF assms, of d "put_local (loc_cmd l) cmd w"] by (simp add: local_command_def put_local_def)

lemma ready_loop_sig:
  assumes "drv_keeps drv"
  shows "ends (\<lambda>(r, d', w'). d'\<lparr>ms_nCWBTag := 0\<rparr> = d\<lparr>ms_nCWBTag := 0\<rparr> \<and> io_sig w' = io_sig w) (ready_loop drv l n d w)"
proof (induction n arbitrary: d w)
  case 0
  show ?case by (subst ready_loop.simps) (auto intro!: ends_Some)
next
  case (Suc n)
  note c = ends_D[OF local_command_sig[OF assms]]
  note IH = ends_D[OF Suc]
  show ?case
    by (subst ready_loop.simps, unfold diff_Suc_1, intro ends_rules) (auto simp: ends_def dest!: c IH)
qed

lemma high_bits: "8 \<le> n \<Longrightarrow> \<not> bit (x :: u8) n"
  using bit_imp_le_length[of x n] by auto

lemma bytes32_word32: "length bs = 4 \<Longrightarrow> bytes32 (word32 bs) = bs"
proof -
  have "bytes32 (word32 [a, b, c, d]) = [a, b, c, d]" for a b c d
    by (simp add: bytes32_def word32_def)
       (intro conjI word_bits_eqI; simp add: bit_simps upt_rec_numeral upt_rec high_bits)
  then show "length bs = 4 \<Longrightarrow> bytes32 (word32 bs) = bs" by (auto simp: length_Suc_conv numeral_eq_Suc)
qed

lemma be_word32: "length bs = 4 \<Longrightarrow> unat (uspi_le2be32 (word32 bs)) = be_value bs"
  using be_bytes32[of "uspi_le2be32 (word32 bs)"] by (simp add: le2be32_bytes bytes32_word32)

lemma set_capacity_ok:
  assumes "set_capacity m p d = (True, d')"
  shows "be_value (mem_read (p + 4) 4 m) = 512 \<and> unat (ms_nBlockCount d') = be_value (mem_read p 4 m) + 1
     \<and> d' = d\<lparr>ms_nBlockCount := ms_nBlockCount d'\<rparr>"
proof -
  let ?n = "uspi_le2be32 (word32 (mem_read p 4 m))"
  from assms have s: "uspi_le2be32 (word32 (mem_read (p + 4) 4 m)) = 512" "?n \<noteq> - 1" "d' = d\<lparr>ms_nBlockCount := ?n + 1\<rparr>"
    by (auto simp: set_capacity_def Let_def UMSD_BLOCK_SIZE_def split: if_splits)
  have "unat ?n \<noteq> 2 ^ 32 - 1" using s(2) by (auto simp: word_unat_eq_iff unsigned_minus_1_eq_mask mask_eq_exp_minus_1)
  then have "unat (?n + 1) = unat ?n + 1" using unat_less_2p[of ?n] by (simp add: unat_word_ariths)
  with s be_word32[of "mem_read p 4 m"] be_word32[of "mem_read (p + 4) 4 m"] show ?thesis by simp
qed

text \<open>What finding the endpoints establishes.\<close>

definition endpoint_at :: "addr option \<Rightarrow> bool \<Rightarrow> 'a io_world_scheme \<Rightarrow> bool" where
  "endpoint_at p bIn w \<longleftrightarrow> (\<exists>a ep. p = Some a \<and> a < w_next w \<and> st_eps (w_store w) a = Some ep
     \<and> ep_bDirectionIn ep = bIn \<and> ep_Type ep = EndpointTypeBulk)"

definition endpoints_found :: "TUSBBulkOnlyMassStorageDevice \<Rightarrow> 'a io_world_scheme \<Rightarrow> bool" where
  "endpoints_found d w \<longleftrightarrow> (ms_pEndpointIn d = None \<or> endpoint_at (ms_pEndpointIn d) True w)
     \<and> (ms_pEndpointOut d = None \<or> endpoint_at (ms_pEndpointOut d) False w)"

lemma endpoint_at_new:
  assumes "new_endpoint ep w = (a, w')"
  shows "endpoint_at p b w \<Longrightarrow> endpoint_at p b w'"
    and "ep_bDirectionIn ep = b \<Longrightarrow> ep_Type ep = EndpointTypeBulk \<Longrightarrow> endpoint_at (Some a) b w'"
  using assms by (auto simp: endpoint_at_def new_endpoint_def)

lemma bulk_bits: "(x :: u8) AND 0x3F = 2 \<Longrightarrow> x AND 3 = 2"
proof -
  assume "x AND 0x3F = 2"
  moreover have "(x AND 0x3F) AND 3 = x AND (0x3F AND 3)" by (rule and.assoc)
  moreover have "(0x3F :: u8) AND 3 = 3" "(2 :: u8) AND 3 = 2" by simp_all
  ultimately show ?thesis by metis
qed

lemma bulk_endpoint:
  assumes "USBEndpoint2 devs p (Some desc) = Some ep" and "ed_bmAttributes desc AND 0x3F = 2"
  shows "ep_Type ep = EndpointTypeBulk \<and> ep_bDirectionIn ep = (ed_bEndpointAddress desc AND 0x80 \<noteq> 0)"
  using assms(1) bulk_bits[OF assms(2)] by (auto simp: USBEndpoint2_def bind_Some_iff split: if_splits)

lemma top_bit: "(x :: u8) AND 0x80 \<noteq> 0x80 \<Longrightarrow> x AND 0x80 = 0"
proof -
  have "(x :: u8) AND 0x80 = (if bit x 7 then 0x80 else 0)"
    by (rule word_bits_eqI) (simp add: bit_simps upt_rec_numeral upt_rec, simp add: eval_nat_numeral)
  then show "x AND 0x80 \<noteq> 0x80 \<Longrightarrow> x AND 0x80 = 0" by (simp split: if_splits)
qed

lemma endpoints_found_new:
  assumes "endpoints_found d w" and "new_endpoint ep w = (a, w')" and "ep_Type ep = EndpointTypeBulk"
  shows "ep_bDirectionIn ep \<Longrightarrow> endpoints_found (d\<lparr>ms_pEndpointIn := Some a\<rparr>) w'"
    and "\<not> ep_bDirectionIn ep \<Longrightarrow> endpoints_found (d\<lparr>ms_pEndpointOut := Some a\<rparr>) w'"
  using assms(1) endpoint_at_new[OF assms(2)] assms(3) by (auto simp: endpoints_found_def)

lemma take_endpoint_ok:
  assumes e: "endpoints_found d w"
  shows "ends (\<lambda>(ok, d', w'). endpoints_found d' w' \<and> w_names w' = w_names w
     \<and> w_nDeviceNumber w' = w_nDeviceNumber w \<and> w_malloc w' = w_malloc w) (take_endpoint desc d w)"
proof -
  note new = endpoints_found_new[OF e]
  show ?thesis
    unfolding take_endpoint_def
    by (intro ends_rules)
       (use e in \<open>auto dest!: bulk_endpoint top_bit intro: new new_endpoint_effect(3-5)[OF sym]\<close>)
qed

lemma find_endpoints_ok:
  assumes "find_endpoints d w = Some (ok, d', w')" and "endpoints_found d w"
  shows "endpoints_found d' w' \<and> w_names w' = w_names w \<and> w_nDeviceNumber w' = w_nDeviceNumber w \<and> w_malloc w' = w_malloc w"
proof -
  let ?Q = "\<lambda>w (ok, d', w'). endpoints_found d' w' \<and> w_names w' = w_names w
     \<and> w_nDeviceNumber w' = w_nDeviceNumber w \<and> w_malloc w' = w_malloc w"
  have "endpoints_found d w \<longrightarrow> ?Q w (ok, d', w')"
  proof (rule find_endpoints.raw_induct[OF _ assms(1), where P = "\<lambda>d w r. endpoints_found d w \<longrightarrow> ?Q w r"])
    fix f d w y
    assume IH: "\<And>d w y. f d w = Some y \<Longrightarrow> endpoints_found d w \<longrightarrow> ?Q w y"
      and b: "do {
     (pEndpointDesc, g) \<leftarrow> USBFunctionGetDescriptor (ms_USBFunction d) DESCRIPTOR_ENDPOINT;
     let d = d\<lparr>ms_USBFunction := g\<rparr>;
     (case pEndpointDesc of None \<Rightarrow> Some (True, d, w)
      | Some i \<Rightarrow> do {
          desc \<leftarrow> get_endpoint_descriptor g i;
          (ok, d, w) \<leftarrow> take_endpoint desc d w;
          if ok then f d w else Some (False, d, w) }) } = Some y"
    show "endpoints_found d w \<longrightarrow> ?Q w y"
    proof
      assume e: "endpoints_found d w"
      then have e': "endpoints_found (d\<lparr>ms_USBFunction := g\<rparr>) w" for g by (simp add: endpoints_found_def)
      note t = ends_D[OF take_endpoint_ok[OF e']]
      from b show "?Q w y"
        by (auto simp: bind_Some_iff Let_def e' split: option.splits if_splits dest!: t IH)
    qed
  qed
  with assms(2) show ?thesis by simp
qed


lemma ep_sig_fields: "ep_sig x = ep_sig y \<Longrightarrow> ep_bDirectionIn x = ep_bDirectionIn y \<and> ep_Type x = ep_Type y"
  by (cases x; cases y) (simp add: ep_sig_def)

lemma endpoint_at_sig:
  assumes "io_sig w' = io_sig w"
  shows "endpoint_at p b w' = endpoint_at p b w"
proof -
  have m: "map_option ep_sig (st_eps (w_store w') a) = map_option ep_sig (st_eps (w_store w) a)" for a
    using io_sig_parts(1)[OF assms] by (auto simp: store_sig_def fun_eq_iff)
  have "(\<exists>ep. st_eps (w_store w') a = Some ep \<and> ep_bDirectionIn ep = b \<and> ep_Type ep = EndpointTypeBulk)
      = (\<exists>ep. st_eps (w_store w) a = Some ep \<and> ep_bDirectionIn ep = b \<and> ep_Type ep = EndpointTypeBulk)" for a
    using m[of a] by (cases "st_eps (w_store w') a"; cases "st_eps (w_store w) a") (auto dest: ep_sig_fields)
  then show ?thesis using io_sig_parts(4)[OF assms] by (simp add: endpoint_at_def)
qed

text \<open>The name of the \<open>n\<close>-th device of a driver.\<close>

definition decimal :: "u32 \<Rightarrow> string" where
  "decimal n = the (ntoa_NumBuf (ucast n) 10 False)"

lemma decimal_ok: "ntoa_NumBuf (ucast (n :: u32)) 10 False = Some (decimal n) \<and> NUL \<notin> set (decimal n) \<and> length (decimal n) \<le> 11"
proof -
  have b: "1 < unat (10 :: u64)" "unat (10 :: u64) \<le> 36" by simp_all
  have "unat (ucast n :: u64) < unat (10 :: u64) ^ 11" using unat_less_2p[of n] by (simp add: unat_ucast_up)
  with ntoa_spec[OF b(1), of "ucast n" False] obtain s where s: "ntoa_NumBuf (ucast n) 10 False = Some s" "length s \<le> 11"
    by (auto simp: ntoa_NumBuf_def MAX_NUMBER_LEN_def)
  with ntoa_NumBuf_nonzero[OF s(1) b] show ?thesis by (simp add: decimal_def)
qed

lemma umsd_name: "format_ref ''umsd%u'' [VaInt n] = Some (''umsd'' @ decimal n)"
  using decimal_ok[of n]
  by (simp add: parse_spec_def skip_if_def is_digit_def arg_ref_def number_ref_def va_unsigned_def pad_ref_def)

text \<open>What a configured device looks like.\<close>

definition mass_configured :: "addr \<Rightarrow> u32 \<Rightarrow> TUSBBulkOnlyMassStorageDevice \<Rightarrow> 'a io_world_scheme \<Rightarrow> bool" where
  "mass_configured pThis n d w \<longleftrightarrow> endpoint_at (ms_pEndpointIn d) True w \<and> endpoint_at (ms_pEndpointOut d) False w
     \<and> ms_nBlockCount d \<noteq> 0 \<and> w_nDeviceNumber w MassStorageConfigure = n + 1
     \<and> (\<exists>ns. w_names w = Some ns \<and> names_ok ns \<and> names_find ns (''umsd'' @ decimal n) True = Some (Some pThis))"

definition configured_if_ok ::
    "addr \<Rightarrow> u32 \<Rightarrow> bool \<times> TUSBBulkOnlyMassStorageDevice \<times> 'a io_world_scheme \<Rightarrow> bool" where
  "configured_if_ok pThis n = (\<lambda>(ok, d, w). ok \<longrightarrow> mass_configured pThis n d w)"

lemma configure_unit_ok:
  assumes drv: "drv_keeps drv" and e: "endpoint_at (ms_pEndpointIn d) True w" "endpoint_at (ms_pEndpointOut d) False w"
    and m: "malloc_ok (w_malloc w)" and ns: "w_names w = Some ns" "names_ok ns"
  shows "ends (\<lambda>(ok, d', w'). ok \<longrightarrow> mass_configured pThis (w_nDeviceNumber w MassStorageConfigure) d' w')
    (configure_unit drv l pThis d w)"
proof -
  note c = ends_D[OF local_command_sig[OF drv]]
  note rl = ends_D[OF ready_loop_sig[OF drv]]
  have fin: "mass_configured pThis (w_nDeviceNumber w MassStorageConfigure) d3 w3"
    if cap: "set_capacity (w_mem w2) p d2 = (True, d3)"
      and reg: "register_device MassStorageConfigure ''umsd%u'' pThis True w2 = Some w3"
      and d2: "d2\<lparr>ms_nCWBTag := 0\<rparr> = d\<lparr>ms_nCWBTag := 0\<rparr>" and w2: "io_sig w2 = io_sig w" for d2 w2 d3 w3 p
  proof -
    note s = io_sig_parts[OF w2]
    let ?n = "w_nDeviceNumber w2 MassStorageConfigure"
    have "NUL \<notin> set (''umsd'' @ decimal ?n)" "length (''umsd'' @ decimal ?n) + 1 < 2 ^ 62"
      using decimal_ok[of ?n] by auto
    from register_device_effect[OF reg _ _ _ umsd_name this, of ns] m ns s obtain ns' where
      r: "w_names w3 = Some ns'" "names_ok ns'" "names_find ns' (''umsd'' @ decimal ?n) True = Some (Some pThis)"
      "w_nDeviceNumber w3 = (w_nDeviceNumber w2)(MassStorageConfigure := ?n + 1)" "w_store w3 = w_store w2" by auto
    have "w_next w3 = w_next w2" using reg by (auto simp: register_device_def bind_Some_iff)
    with r(5) have ea: "endpoint_at q b w3 = endpoint_at q b w2" for q b by (simp add: endpoint_at_def)
    have "ms_pEndpointIn d2 = ms_pEndpointIn d" "ms_pEndpointOut d2 = ms_pEndpointOut d"
      using d2 by (metis TUSBBulkOnlyMassStorageDevice.select_convs TUSBBulkOnlyMassStorageDevice.surjective
          TUSBBulkOnlyMassStorageDevice.update_convs(4))+
    moreover from set_capacity_ok[OF cap] have "d3 = d2\<lparr>ms_nBlockCount := ms_nBlockCount d3\<rparr>"
      and "ms_nBlockCount d3 \<noteq> 0" by auto
    ultimately show ?thesis
      using e r ea endpoint_at_sig[OF w2] s
      by (auto simp: mass_configured_def) (metis TUSBBulkOnlyMassStorageDevice.select_convs(2,3)
          TUSBBulkOnlyMassStorageDevice.surjective TUSBBulkOnlyMassStorageDevice.update_convs(5))+
  qed
  show ?thesis
    unfolding configure_unit_def
    by (intro ends_rules) (auto simp: ends_def bind_Some_iff dest!: c rl split: prod.splits bool.splits elim!: fin)
qed


lemma Configure_ok:
  assumes drv: "drv_keeps drv" and fresh: "ms_pEndpointIn d = None" "ms_pEndpointOut d = None"
    and m: "malloc_ok (w_malloc w)" and ns: "w_names w = Some ns" "names_ok ns"
  shows "ends (\<lambda>(ok, d', w'). ok \<longrightarrow> mass_configured pThis (w_nDeviceNumber w MassStorageConfigure) d' w')
    (USBBulkOnlyMassStorageDeviceConfigure drv l pThis d w)"
proof -
  have e0: "endpoints_found d w" using fresh by (simp add: endpoints_found_def)
  have fin: "ends (\<lambda>(ok, d', w'). ok \<longrightarrow> mass_configured pThis (w_nDeviceNumber w MassStorageConfigure) d' w')
      (configure_unit drv l pThis d1 w2)"
    if f: "find_endpoints d w = Some (ok, d1, w1)" and c: "USBFunctionConfigure drv l (ms_USBFunction d1) w1 = Some (ok', w2)"
      and p: "ms_pEndpointIn d1 \<noteq> None" "ms_pEndpointOut d1 \<noteq> None" for ok d1 w1 ok' w2
  proof -
    from find_endpoints_ok[OF f e0] p have e1: "endpoint_at (ms_pEndpointIn d1) True w1"
      "endpoint_at (ms_pEndpointOut d1) False w1" "w_names w1 = w_names w" "w_nDeviceNumber w1 = w_nDeviceNumber w"
      "w_malloc w1 = w_malloc w" by (auto simp: endpoints_found_def)
    have s: "io_sig w2 = io_sig w1" by (rule USBFunctionConfigure_sig[OF c drv])
    note sp = io_sig_parts[OF s]
    have "endpoint_at (ms_pEndpointIn d1) True w2" "endpoint_at (ms_pEndpointOut d1) False w2"
      using e1 endpoint_at_sig[OF s] by simp_all
    from configure_unit_ok[OF drv this, of ns pThis l] m ns e1 sp show ?thesis by simp
  qed
  show ?thesis
    unfolding USBBulkOnlyMassStorageDeviceConfigure_def
    by (intro ends_rules; (rule fin; simp)?; simp)
qed


section \<open>Properties\<close>

text \<open>
  Claim C20.  The bulk-only protocol.  A command that reports success has sent exactly one command wrapper, whose 31 bytes
  are the signature, the next tag, the length and direction of the data and the caller's command block, padded with zeros;
  then moved the data in the given direction, if there is any; and received a status wrapper with the right
  signature, the same tag, status "passed" and no residue.  Only the tag of the driver object has
  changed, and no endpoint but for its packet identifier.
\<close>

theorem mass_command_protocol:
  assumes "USBBulkOnlyMassStorageDeviceCommand drv l d pCmdBlk nCmdBlkLen pBuffer nBufLen bIn w = Some (r, d', w')"
    and "command_pre l d pCmdBlk nCmdBlkLen pBuffer nBufLen drv w" and "r \<ge> 0"
  shows "d' = d\<lparr>ms_nCWBTag := ms_nCWBTag d + 1\<rparr> \<and> store_sig (w_store w') = store_sig (w_store w)
     \<and> (\<exists>bs csw n m. w_wire w' = w_wire w
           @ protocol_run d (mem_read pCmdBlk (unat nCmdBlkLen) (w_mem w)) bIn nBufLen bs r n csw
         \<and> n \<ge> 0 \<and> length csw = 13 \<and> csw_good (ms_nCWBTag d + 1) (csw_of csw)
         \<and> data_moved bIn pBuffer nBufLen bs r (mem_write (loc_CBW l) (cbw_bytes (ms_nCWBTag d + 1) nBufLen bIn
               (mem_read pCmdBlk (unat nCmdBlkLen) (w_mem w))) (w_mem w)) m
         \<and> w_mem w' = mem_write (loc_CSW l) csw m)"
  by (rule command_run[OF assms])

theorem mass_command_protocol_witness:
  "\<exists>r d' w' bs csw n. USBBulkOnlyMassStorageDeviceCommand io_no_driver ms_locals (ms_device 1024) 0x4000 10 0x6000 0 True
        (put_local 0x4000 (read10 2 0) (ms_world [csw_passed 1])) = Some (r, d', w')
     \<and> ms_nCWBTag d' = 1 \<and> w_wire w' = protocol_run (ms_device 1024) (read10 2 0) True 0 bs r n csw
     \<and> csw_good 1 (csw_of csw)"
proof -
  let ?w = "put_local 0x4000 (read10 2 0) (ms_world [csw_passed 1])"
  from ms_command_run obtain d' w' where
    c: "USBBulkOnlyMassStorageDeviceCommand io_no_driver ms_locals (ms_device 1024) 0x4000 10 0x6000 0 True ?w
      = Some (0, d', w')" by auto
  have "mem_read 0x4000 (unat (10 :: u32)) (w_mem ?w) = read10 2 0"
    using mem_read_write[of "read10 2 0" "0x4000" "w_mem (ms_world [csw_passed 1])"]
    by (simp add: put_local_def read10_def)
  moreover have "command_pre ms_locals (ms_device 1024) 0x4000 10 0x6000 0 io_no_driver ?w" using ms_world_pre by simp
  moreover have "ms_nCWBTag (ms_device 1024) = 0" "w_wire ?w = []" by (simp_all add: ms_device_def put_local_def ms_world_def)
  ultimately show ?thesis using mass_command_protocol[OF c] c by fastforce
qed

text \<open>
  Claim C21.  Reading.  When \<^verbatim>\<open>Read\<close> returns the number of bytes asked for (less than 32 MiB), then after at most three
  failed attempts, each followed by a successful reset, there was one whose READ(10) command names exactly the blocks at the
  current offset, whose data phase delivered that many bytes and whose status was good; and the caller's buffer
  holds the bytes of that data phase.
\<close>

theorem mass_read_blocks:
  assumes r: "USBBulkOnlyMassStorageDeviceRead drv l d pBuffer nCount w = Some (sint nCount, d', w')"
    and pre: "command_pre l d (loc_cmd l) 10 pBuffer nCount drv w" and n: "nCount < 0x2000000"
    and dis: "block pBuffer (unat nCount) \<inter> block (loc_CSW l) 13 = {}"
  shows "\<exists>k d1 w1 es. k < 4
     \<and> failed_attempts (\<lambda>d. USBBulkOnlyMassStorageDeviceTryRead drv l d pBuffer nCount)
         (USBBulkOnlyMassStorageDeviceReset drv l) (sint nCount) k d w d1 w1
     \<and> ms_ullOffset d1 = ms_ullOffset d \<and> w_wire w' = w_wire w1 @ es
     \<and> block_run l SCSI_OP_READ True d1 nCount (mem_read pBuffer (unat nCount) (w_mem w')) es"
proof -
  have un: "unat nCount < 0x2000000" using n by (simp add: word_less_nat_alt)
  then have sn: "sint nCount = int (unat nCount)" by (simp add: sint_small)
  have nn: "- 1 \<noteq> sint nCount" unfolding sn by linarith
  from pre have drv: "drv_keeps drv" by (simp add: command_pre_def)
  from retry_spec[OF r[unfolded USBBulkOnlyMassStorageDeviceRead_def]] obtain k d1 w1 r1 w2 where
    k: "k < 4" and fa: "failed_attempts (\<lambda>d. USBBulkOnlyMassStorageDeviceTryRead drv l d pBuffer nCount)
         (USBBulkOnlyMassStorageDeviceReset drv l) (sint nCount) k d w d1 w1"
    and a: "USBBulkOnlyMassStorageDeviceTryRead drv l d1 pBuffer nCount w1 = Some (r1, d', w2)"
    and e: "if r1 = sint nCount then sint nCount = r1 \<and> w' = w2
        else \<exists>s. USBBulkOnlyMassStorageDeviceReset drv l d' w2 = Some (s, w')
          \<and> (if s \<noteq> 0 then sint nCount = s else k = 4 - 1 \<and> sint nCount = r1)" by auto
  have "r1 = sint nCount \<and> w' = w2"
  proof (rule ccontr)
    assume "\<not> (r1 = sint nCount \<and> w' = w2)"
    with e obtain s where s: "USBBulkOnlyMassStorageDeviceReset drv l d' w2 = Some (s, w')" "s \<noteq> 0" "sint nCount = s"
      by (auto split: if_splits)
    from ends_D[OF Reset_sig[OF drv] s(1)] s nn show False by auto
  qed
  with a have a': "USBBulkOnlyMassStorageDeviceTryRead drv l d1 pBuffer nCount w1 = Some (sint nCount, d', w')" by simp
  from failed_attempts_sig[OF fa] ends_D[OF TryRead_sig[OF drv]] ends_D[OF Reset_sig[OF drv]]
  have sig: "(\<exists>t. d1 = d\<lparr>ms_nCWBTag := t\<rparr>) \<and> io_sig w1 = io_sig w" by fastforce
  with pre have "command_pre l d1 (loc_cmd l) 10 pBuffer nCount drv w1"
    using ep_dir_sig[OF io_sig_parts(1)[of w1 w]] by (auto simp: command_pre_def)
  from TryRead_ok[OF a' this n dis] k fa sig show ?thesis by fastforce
qed

theorem mass_read_blocks_witness:
  "\<exists>d' w' d1 es0 es. USBBulkOnlyMassStorageDeviceRead io_no_driver ms_locals (ms_device 1024) 0x6000 0
        (ms_world [csw_passed 1]) = Some (0, d', w')
     \<and> ms_ullOffset d1 = 1024 \<and> w_wire w' = es0 @ es
     \<and> block_run ms_locals SCSI_OP_READ True d1 0 [] es"
proof -
  from ms_read_run obtain d' w' where
    run: "USBBulkOnlyMassStorageDeviceRead io_no_driver ms_locals (ms_device 1024) 0x6000 0 (ms_world [csw_passed 1])
      = Some (0, d', w')" by auto
  have cmd: "loc_cmd ms_locals = 0x4000" "ms_ullOffset (ms_device 1024) = 1024"
    by (simp_all add: ms_locals_def ms_device_def)
  have pre: "command_pre ms_locals (ms_device 1024) (loc_cmd ms_locals) 10 0x6000 0 io_no_driver (ms_world [csw_passed 1])"
    unfolding cmd(1) by (rule ms_world_pre)
  have run': "USBBulkOnlyMassStorageDeviceRead io_no_driver ms_locals (ms_device 1024) 0x6000 0 (ms_world [csw_passed 1])
      = Some (sint (0 :: u32), d', w')" using run by simp
  have "(0 :: u32) < 0x2000000" "block 0x6000 (unat (0 :: u32)) \<inter> block (loc_CSW ms_locals) 13 = {}" by simp_all
  from mass_read_blocks[OF run' pre this] obtain k d1 and w1 :: io_world and es where "k < (4 :: nat)" "ms_ullOffset d1 = ms_ullOffset (ms_device 1024)"
    "w_wire w' = w_wire w1 @ es" "block_run ms_locals SCSI_OP_READ True d1 0 (mem_read 0x6000 (unat (0 :: u32)) (w_mem w')) es"
    by (elim exE conjE) (rule that)
  with run show ?thesis by (intro exI[of _ d'] exI[of _ w'] exI[of _ d1] exI[of _ "w_wire w1"] exI[of _ es]) (simp add: cmd)
qed



end
