(* ===== verification/MacAddress.thy ===== *)
theory MacAddress
  imports CString
begin

text \<open>
  The MAC address class (\<^verbatim>\<open>lib/macaddress.c\<close>): six bytes and a flag that says whether they are valid.
\<close>

definition MAC_ADDRESS_SIZE :: nat where "MAC_ADDRESS_SIZE = 6"

record TMACAddress =
  mac_bValid :: bool
  mac_Address :: "u8 list"

definition MACAddress :: "TMACAddress \<Rightarrow> TMACAddress" where
  "MACAddress this = this\<lparr>mac_bValid := False\<rparr>"

text \<open>Copying from a buffer of at least six bytes, and into one.\<close>

definition MACAddressSet :: "TMACAddress \<Rightarrow> u8 list \<Rightarrow> TMACAddress option" where
  "MACAddressSet this pAddress = do {
     c_assert (MAC_ADDRESS_SIZE \<le> length pAddress);
     Some (this\<lparr>mac_Address := take MAC_ADDRESS_SIZE pAddress, mac_bValid := True\<rparr>) }"

definition MACAddress2 :: "TMACAddress \<Rightarrow> u8 list \<Rightarrow> TMACAddress option" where
  "MACAddress2 this pAddress = MACAddressSet this pAddress"

definition MACAddress_dtor :: "TMACAddress \<Rightarrow> TMACAddress" where
  "MACAddress_dtor this = this\<lparr>mac_bValid := False\<rparr>"

definition MACAddressGet :: "TMACAddress \<Rightarrow> u8 list option" where
  "MACAddressGet this = do { c_assert (mac_bValid this); Some (mac_Address this) }"

definition MACAddressIsEqual :: "TMACAddress \<Rightarrow> TMACAddress \<Rightarrow> bool option" where
  "MACAddressIsEqual this pAddress2 = do {
     c_assert (mac_bValid this);
     b \<leftarrow> MACAddressGet pAddress2;
     Some (take MAC_ADDRESS_SIZE (mac_Address this) = take MAC_ADDRESS_SIZE b) }"

definition MACAddressSetBroadcast :: "TMACAddress \<Rightarrow> TMACAddress" where
  "MACAddressSetBroadcast this = this\<lparr>mac_Address := replicate MAC_ADDRESS_SIZE 0xFF, mac_bValid := True\<rparr>"

definition MACAddressCopyTo :: "TMACAddress \<Rightarrow> u8 list \<Rightarrow> u8 list option" where
  "MACAddressCopyTo this pBuffer = do {
     c_assert (mac_bValid this);
     c_assert (MAC_ADDRESS_SIZE \<le> length pBuffer);
     Some (mac_Address this @ drop MAC_ADDRESS_SIZE pBuffer) }"

fun all_ones_from :: "u8 list \<Rightarrow> nat \<Rightarrow> nat \<Rightarrow> bool option" where
  "all_ones_from a i 0 = Some True"
| "all_ones_from a i (Suc n) = do {
     x \<leftarrow> array_get a i;
     if x \<noteq> 0xFF then Some False else all_ones_from a (i + 1) n }"

definition MACAddressIsBroadcast :: "TMACAddress \<Rightarrow> bool option" where
  "MACAddressIsBroadcast this = do {
     c_assert (mac_bValid this);
     all_ones_from (mac_Address this) 0 MAC_ADDRESS_SIZE }"

definition MACAddressGetSize :: nat where
  "MACAddressGetSize = MAC_ADDRESS_SIZE"

definition MACAddressFormat :: "(nat \<Rightarrow> char list) \<Rightarrow> TMACAddress \<Rightarrow> TString \<Rightarrow> TString option" where
  "MACAddressFormat mal this pString = do {
     c_assert (mac_bValid this);
     a0 \<leftarrow> array_get (mac_Address this) 0; a1 \<leftarrow> array_get (mac_Address this) 1;
     a2 \<leftarrow> array_get (mac_Address this) 2; a3 \<leftarrow> array_get (mac_Address this) 3;
     a4 \<leftarrow> array_get (mac_Address this) 4; a5 \<leftarrow> array_get (mac_Address this) 5;
     StringFormat mal pString ''%02X:%02X:%02X:%02X:%02X:%02X''
       [VaInt (ucast a0), VaInt (ucast a1), VaInt (ucast a2), VaInt (ucast a3), VaInt (ucast a4), VaInt (ucast a5)] }"

section \<open>Properties\<close>

definition mac_ok :: "TMACAddress \<Rightarrow> bool" where
  "mac_ok a \<longleftrightarrow> (mac_bValid a \<longrightarrow> length (mac_Address a) = MAC_ADDRESS_SIZE)"

lemma all_ones_from_iff:
  "i + n \<le> length a \<Longrightarrow> all_ones_from a i n = Some (\<forall>k < n. a ! (i + k) = 0xFF)"
proof (induction n arbitrary: i)
  case (Suc n)
  then have "array_get a i = Some (a ! i)" by (simp add: array_get_def)
  with Suc show ?case by (auto simp: less_Suc_eq_0_disj)
qed simp

text \<open>Two upper-case hexadecimal digits.\<close>

definition hex2 :: "u8 \<Rightarrow> string" where
  "hex2 a = [digit_char (of_nat (unat a div 16)) True, digit_char (of_nat (unat a mod 16)) True]"

lemma horner_pair: "horner b [x] = x" "horner b [x, y] = x * b + y"
  by (simp_all add: horner_def)

lemma ntoa_byte:
  fixes a :: u8
  shows "ntoa_NumBuf (ucast a) 16 True = Some (if unat a < 16 then [digit_char (of_nat (unat a)) True] else hex2 a)"
proof -
  define n where "n = (ucast a :: u64)"
  have n: "unat n = unat a" by (simp add: n_def unat_ucast_up)
  have a: "unat a < 256" using unat_less_2p[of a] by simp
  have b: "1 < unat (16 :: u64)" by simp
  from ntoa_spec[OF b, of n True] obtain ds where
    ds: "ntoa n 16 True = Some (map (\<lambda>i. digit_char (of_nat i) True) ds)" "\<forall>i \<in> set ds. i < 16"
    "horner 16 ds = unat a" "ds \<noteq> []" "unat a \<noteq> 0 \<longrightarrow> hd ds \<noteq> 0" "unat a = 0 \<longrightarrow> ds = [0]"
    "\<forall>m. unat a < 16 ^ m \<longrightarrow> m > 0 \<longrightarrow> length ds \<le> m"
    by (elim exE conjE) (rule that, simp_all add: n)
  have "length ds \<le> 2" using ds(7)[rule_format, of 2] a by simp
  then consider (one) x where "ds = [x]" | (two) x y where "ds = [x, y]"
    using ds(4) by (cases ds rule: remdups_adj.cases) (auto simp: Suc_le_eq)
  then show ?thesis
  proof cases
    case one
    with ds show ?thesis
      by (simp add: n_def[symmetric] ntoa_NumBuf_def MAX_NUMBER_LEN_def horner_pair)
  next
    case two
    with ds have xy: "unat a = x * 16 + y" "0 < x" "y < 16" by (auto simp: horner_pair)
    then have "\<not> unat a < 16" "unat a div 16 = x" "unat a mod 16 = y" by auto
    with ds(1) two show ?thesis
      by (simp add: n_def[symmetric] ntoa_NumBuf_def MAX_NUMBER_LEN_def hex2_def)
  qed
qed

lemma arg_hex2:
  fixes a :: u8
  shows "arg_ref \<lparr>f_bLeft = False, f_bNull = True, f_nWidth = 2, f_bLong = False\<rparr> (CHR ''X'') (VaInt (ucast a) # args)
     = Some (args, hex2 a)"
proof -
  have "(ucast (ucast a :: u32) :: u64) = ucast a" by (simp add: word_unat_eq_iff unat_ucast_up)
  moreover have "digit_char 0 True = CHR ''0''" by code_simp
  ultimately show ?thesis
    by (simp add: arg_ref_def number_ref_def va_unsigned_def ntoa_byte pad_ref_def hex2_def)
qed

lemma MAC_format_ref:
  fixes a b c d e f :: u8
  shows "format_ref ''%02X:%02X:%02X:%02X:%02X:%02X''
     [VaInt (ucast a), VaInt (ucast b), VaInt (ucast c), VaInt (ucast d), VaInt (ucast e), VaInt (ucast f)]
   = Some (hex2 a @ '':'' @ hex2 b @ '':'' @ hex2 c @ '':'' @ hex2 d @ '':'' @ hex2 e @ '':'' @ hex2 f)"
proof -
  have p: "parse_spec (CHR ''0'' # CHR ''2'' # CHR ''X'' # s)
      = (\<lparr>f_bLeft = False, f_bNull = True, f_nWidth = 2, f_bLong = False\<rparr>, CHR ''X'' # s)" for s
    by (simp add: parse_spec_def skip_if_def is_digit_def)
  show ?thesis by (simp add: p arg_hex2)
qed

lemma hex2_facts: "NUL \<notin> set (hex2 a)" "length (hex2 a) = 2" "\<exists>x y. hex2 a = [x, y] \<and> digit_value x * 16 + digit_value y = unat a"
proof -
  have "unat a < 256" using unat_less_2p[of a] by simp
  then have l: "unat a div 16 < 36" "unat a mod 16 < 36" by auto
  show "NUL \<notin> set (hex2 a)" using digit_char_nonzero[OF l(1), of True] digit_char_nonzero[OF l(2), of True]
    by (auto simp: hex2_def)
  show "length (hex2 a) = 2" by (simp add: hex2_def)
  show "\<exists>x y. hex2 a = [x, y] \<and> digit_value x * 16 + digit_value y = unat a"
    using digit_value_char[OF l(1), of True] digit_value_char[OF l(2), of True] by (auto simp: hex2_def)
qed

text \<open>Reading a formatted address: pairs of digits, each followed by one separator.\<close>

fun read_mac :: "string \<Rightarrow> u8 list" where
  "read_mac (x # y # _ # s) = of_nat (digit_value x * 16 + digit_value y) # read_mac s"
| "read_mac [x, y] = [of_nat (digit_value x * 16 + digit_value y)]"
| "read_mac _ = []"

lemma read_hex2: "read_mac (hex2 a @ c # s) = a # read_mac s" "read_mac (hex2 a) = [a]"
  using hex2_facts(3)[of a] by auto

text \<open>
  An address that was set from six bytes is valid and formats without fault into six pairs of upper-case
  hexadecimal digits with colons between them, from which exactly the six bytes can be read back.
\<close>

theorem MAC_format_roundtrip:
  assumes "length pAddress = 6" and "malloc_ok mal"
  shows "\<exists>a s t. MACAddressSet this pAddress = Some a \<and> MACAddressFormat mal a str = Some s \<and> StringGet s = Some t
     \<and> length t = 17 \<and> read_mac t = pAddress \<and> MACAddressGet a = Some pAddress"
proof -
  from assms(1) obtain a b c d e f where p: "pAddress = [a, b, c, d, e, f]"
    by (auto simp: length_Suc_conv numeral_eq_Suc)
  define t where "t = hex2 a @ '':'' @ hex2 b @ '':'' @ hex2 c @ '':'' @ hex2 d @ '':'' @ hex2 e @ '':'' @ hex2 f"
  have nz: "NUL \<notin> set t" and len: "length t = 17" by (simp_all add: t_def hex2_facts)
  from StringFormatV_ok[OF assms(2) MAC_format_ref[of a b c d e f, folded t_def] nz, of str] len obtain s where
    s: "StringFormatV mal str ''%02X:%02X:%02X:%02X:%02X:%02X''
     [VaInt (ucast a), VaInt (ucast b), VaInt (ucast c), VaInt (ucast d), VaInt (ucast e), VaInt (ucast f)] = Some s"
    "StringGet s = Some t" by auto
  have "read_mac t = pAddress" by (simp add: t_def p read_hex2)
  moreover have "MACAddressFormat mal (this\<lparr>mac_Address := pAddress, mac_bValid := True\<rparr>) str = Some s"
    using s(1) by (simp add: MACAddressFormat_def StringFormat_def p array_get_def)
  ultimately show ?thesis
    using s(2) len assms(1) by (simp add: MACAddressSet_def MACAddressGet_def MAC_ADDRESS_SIZE_def)
qed

theorem MAC_format_roundtrip_witness:
  "\<exists>a s t. MACAddressSet (MACAddress \<lparr>mac_bValid = True, mac_Address = []\<rparr>) [0xB8, 0x27, 0xEB, 0, 1, 0x0F] = Some a
     \<and> MACAddressFormat (\<lambda>n. replicate n NUL) a \<lparr>s_pBuffer = None, s_nSize = 0, s_pInPtr = 0\<rparr> = Some s
     \<and> StringGet s = Some t \<and> read_mac t = [0xB8, 0x27, 0xEB, 0, 1, 0x0F]"
  using MAC_format_roundtrip[of "[0xB8, 0x27, 0xEB, 0, 1, 0x0F]" "\<lambda>n. replicate n NUL"
      "MACAddress \<lparr>mac_bValid = True, mac_Address = []\<rparr>" "\<lparr>s_pBuffer = None, s_nSize = 0, s_pInPtr = 0\<rparr>"]
  by (auto simp: malloc_ok_def)

text \<open>Equality and the broadcast test are what their names say.\<close>

lemma mac_equal_iff: "\<lbrakk>mac_ok a; mac_ok b; mac_bValid a; mac_bValid b\<rbrakk> \<Longrightarrow>
    MACAddressIsEqual a b = Some (mac_Address a = mac_Address b)"
  by (simp add: MACAddressIsEqual_def MACAddressGet_def mac_ok_def)

lemma mac_broadcast_iff:
  assumes "mac_ok a" and "mac_bValid a"
  shows "MACAddressIsBroadcast a = Some (mac_Address a = mac_Address (MACAddressSetBroadcast a))"
proof -
  have l: "length (mac_Address a) = 6" using assms by (simp add: mac_ok_def MAC_ADDRESS_SIZE_def)
  then have "MACAddressIsBroadcast a = Some (\<forall>k < 6. mac_Address a ! k = 0xFF)"
    using assms(2) by (simp add: MACAddressIsBroadcast_def all_ones_from_iff MAC_ADDRESS_SIZE_def)
  also have "(\<forall>k < 6. mac_Address a ! k = 0xFF) \<longleftrightarrow> mac_Address a = replicate 6 0xFF"
    using l by (auto simp: list_eq_iff_nth_eq)
  finally show ?thesis by (simp add: MACAddressSetBroadcast_def MAC_ADDRESS_SIZE_def)
qed

end
