(* ===== verification/UsbString.thy ===== *)
theory UsbString
  imports UsbFunction
begin

text \<open>
  Strings of a device (\<^verbatim>\<open>lib/usbstring.c\<close>): the string descriptor is read from the device and turned into an ASCII string.
  The descriptor lies in memory, in a block that \<^verbatim>\<open>malloc\<close> gives; the blocks are arguments, \<open>pShort\<close> for the first four bytes
  and \<open>pLong\<close> for the whole descriptor.
\<close>

unbundle bit_operations_syntax

section \<open>Model\<close>

definition DESCRIPTOR_STRING :: u8 where "DESCRIPTOR_STRING = 3"
definition USBSTR_MIN_LENGTH :: u8 where "USBSTR_MIN_LENGTH = 4"
definition USBSTR_DEFAULT_LANGID :: u16 where "USBSTR_DEFAULT_LANGID = 0x409"

record TUSBString =
  us_pDevice :: "addr option"
  us_pUSBString :: uintptr
  us_pString :: "TString option"

abbreviation new_string :: TString where
  "new_string \<equiv> String \<lparr>s_pBuffer = None, s_nSize = 0, s_pInPtr = 0\<rparr>"

definition USBString :: "addr option \<Rightarrow> TUSBString option" where
  "USBString pDevice = do {
     c_assert (pDevice \<noteq> None);
     Some \<lparr>us_pDevice = pDevice, us_pUSBString = 0, us_pString = Some new_string\<rparr> }"

definition USBStringCopy ::
    "uintptr \<Rightarrow> TUSBString \<Rightarrow> 'a io_world_scheme \<Rightarrow> (TUSBString \<times> 'a io_world_scheme) option" where
  "USBStringCopy pNew pParent w = do {
     (p, w) \<leftarrow> (if us_pUSBString pParent \<noteq> 0 then do {
                  c_assert (pNew \<noteq> 0);
                  let bLength = w_mem w (us_pUSBString pParent);
                  Some (pNew, w\<lparr>w_mem := snd (uspi_memcpy pNew (us_pUSBString pParent) (ucast bLength) (w_mem w))\<rparr>) }
                else Some (0, w));
     s \<leftarrow> us_pString pParent;
     t \<leftarrow> StringGet s;
     s' \<leftarrow> String2 (w_malloc w) new_string t;
     Some (\<lparr>us_pDevice = us_pDevice pParent, us_pUSBString = p, us_pString = Some s'\<rparr>, w) }"

definition USBString_dtor :: "TUSBString \<Rightarrow> TUSBString option" where
  "USBString_dtor this = do {
     s \<leftarrow> us_pString this;
     let _ = String_dtor s;
     Some \<lparr>us_pDevice = None, us_pUSBString = 0, us_pString = None\<rparr> }"

definition get_string_descriptor ::
    "'a io_world_scheme driver_code \<Rightarrow> locals \<Rightarrow> TUSBString \<Rightarrow> u8 \<Rightarrow> u16 \<Rightarrow> uintptr \<Rightarrow> u8 \<Rightarrow> 'a io_world_scheme
     \<Rightarrow> (int \<times> 'a io_world_scheme) option" where
  "get_string_descriptor drv l this ucID usLanguageID p n w = do {
     d \<leftarrow> deref (st_devs (w_store w)) (us_pDevice this);
     ep0 \<leftarrow> USBDeviceGetEndpoint0 d;
     usb_control_data drv l (Some ep0) REQUEST_IN GET_DESCRIPTOR (push_bit 8 (ucast DESCRIPTOR_STRING) OR ucast ucID)
       usLanguageID p (ucast n) w }"

text \<open>The tests of the header, with the least length that is accepted.\<close>

definition string_header_ok :: "u8 \<Rightarrow> uintptr \<Rightarrow> mem \<Rightarrow> bool" where
  "string_header_ok nMin p m \<longleftrightarrow> \<not> (m p < nMin \<or> m p AND 1 \<noteq> 0 \<or> m (p + 1) \<noteq> DESCRIPTOR_STRING)"

text \<open>
  Reading a descriptor: its first four bytes, then, if it is longer, all of it again; the result is where
  the descriptor lies and whether it is valid.
\<close>

definition read_string_descriptor ::
    "'a io_world_scheme driver_code \<Rightarrow> locals \<Rightarrow> TUSBString \<Rightarrow> u8 \<Rightarrow> u16 \<Rightarrow> u8 \<Rightarrow> uintptr \<Rightarrow> uintptr \<Rightarrow> 'a io_world_scheme
     \<Rightarrow> (bool \<times> uintptr \<times> 'a io_world_scheme) option" where
  "read_string_descriptor drv l this ucID usLanguageID nMin pShort pLong w = do {
     c_assert (pShort \<noteq> 0);
     c_assert (us_pDevice this \<noteq> None);
     (n, w) \<leftarrow> get_string_descriptor drv l this ucID usLanguageID pShort USBSTR_MIN_LENGTH w;
     if n < 0 then Some (False, pShort, w)
     else do {
       let ucLength = w_mem w pShort;
       if \<not> string_header_ok nMin pShort (w_mem w) then Some (False, pShort, w)
       else if ucLength > USBSTR_MIN_LENGTH then do {
         c_assert (pLong \<noteq> 0);
         (n, w) \<leftarrow> get_string_descriptor drv l this ucID usLanguageID pLong ucLength w;
         if n \<noteq> uint ucLength then Some (False, pLong, w)
         else if w_mem w pLong \<noteq> ucLength \<or> w_mem w pLong AND 1 \<noteq> 0 \<or> w_mem w (pLong + 1) \<noteq> DESCRIPTOR_STRING
         then Some (False, pLong, w)
         else Some (True, pLong, w) }
       else Some (True, pShort, w) } }"

definition usb_char :: "u16 \<Rightarrow> char" where
  "usb_char usChar = (if usChar < 0x20 \<or> usChar > 0x7E then CHR ''_'' else char_of (unat usChar))"

text \<open>The characters of the descriptor are 16-bit words behind the two bytes of the header.\<close>

definition bString :: "uintptr \<Rightarrow> nat \<Rightarrow> mem \<Rightarrow> u16" where
  "bString p i m = word16 (mem_read (p + 2 + 2 * of_nat i) 2 m)"

definition USBStringGetFromDescriptor ::
    "'a io_world_scheme driver_code \<Rightarrow> locals \<Rightarrow> uintptr \<Rightarrow> uintptr \<Rightarrow> TUSBString \<Rightarrow> u8 \<Rightarrow> u16 \<Rightarrow> 'a io_world_scheme
     \<Rightarrow> (bool \<times> TUSBString \<times> 'a io_world_scheme) option" where
  "USBStringGetFromDescriptor drv l pShort pLong this ucID usLanguageID w = do {
     c_assert (ucID > 0);
     (ok, p, w) \<leftarrow> read_string_descriptor drv l this ucID usLanguageID 2 pShort pLong w;
     let this = this\<lparr>us_pUSBString := p\<rparr>;
     if \<not> ok then Some (False, this, w)
     else do {
       let bLength = w_mem w p;
       c_assert (bLength \<ge> 2);
       c_assert (bLength AND 1 = 0);
       let nLength = (unat bLength - 2) div 2;
       c_assert (nLength \<le> (255 - 2) div 2);
       let Buffer = List.map (\<lambda>i. usb_char (bString p i (w_mem w))) [0..<nLength];
       c_assert (us_pString this \<noteq> None);
       s \<leftarrow> String2 (w_malloc w) new_string Buffer;
       Some (True, this\<lparr>us_pString := Some s\<rparr>, w) } }"

definition USBStringGet :: "TUSBString \<Rightarrow> string option" where
  "USBStringGet this = do { s \<leftarrow> us_pString this; StringGet s }"

definition USBStringGetLanguageID ::
    "'a io_world_scheme driver_code \<Rightarrow> locals \<Rightarrow> uintptr \<Rightarrow> uintptr \<Rightarrow> TUSBString \<Rightarrow> 'a io_world_scheme
     \<Rightarrow> (u16 \<times> 'a io_world_scheme) option" where
  "USBStringGetLanguageID drv l pShort pLong this w = do {
     (ok, p, w) \<leftarrow> read_string_descriptor drv l this 0 0 4 pShort pLong w;
     if \<not> ok then Some (USBSTR_DEFAULT_LANGID, w)
     else do {
       let bLength = w_mem w p;
       c_assert (bLength \<ge> 4);
       c_assert (bLength AND 1 = 0);
       let nLength = (unat bLength - 2) div 2;
       if \<exists>i \<in> set [0..<nLength]. bString p i (w_mem w) = USBSTR_DEFAULT_LANGID then Some (USBSTR_DEFAULT_LANGID, w)
       else Some (bString p 0 (w_mem w), w) } }"

section \<open>Properties\<close>

lemma usb_char_printable: "32 \<le> (of_char (usb_char c) :: nat)" "(of_char (usb_char c) :: nat) \<le> 126"
  by (auto simp: usb_char_def word_less_nat_alt not_less unsigned_of_nat of_char_of)

lemma String2_get:
  assumes "malloc_ok mal" and "NUL \<notin> set t" and "length t + 1 < 2 ^ 32"
  shows "\<exists>s'. String2 mal s t = Some s' \<and> StringGet s' = Some t"
proof -
  have n: "unat (of_nat (length t + 1) :: u32) = length t + 1" using assms(3) by (intro unat_of_nat_small) simp
  have n': "unat (1 + of_nat (length t) :: u32) = Suc (length t)" using n by simp
  show ?thesis using assms(1,2)
    by (auto simp: String2_def Let_def n' write_at_def malloc_ok_def StringGet_def c_string_terminated)
qed

lemma read_string_descriptor_ok:
  assumes "read_string_descriptor drv l this ucID lang nMin pShort pLong w = Some (ok, p, w')" and "drv_keeps drv"
  shows "io_sig w' = io_sig w" and "ok \<Longrightarrow> nMin \<le> USBSTR_MIN_LENGTH \<Longrightarrow> string_header_ok nMin p (w_mem w')"
proof -
  have sig: "io_sig w2 = io_sig w1" if "get_string_descriptor drv l this ucID lang q n w1 = Some (r, w2)" for q n r w1 w2
    using that assms(2) by (auto simp: get_string_descriptor_def bind_Some_iff dest: usb_control_data_sig)
  show "io_sig w' = io_sig w"
    using assms(1) by (auto simp: read_string_descriptor_def bind_Some_iff Let_def split: if_splits dest!: sig)
  assume "ok" "nMin \<le> USBSTR_MIN_LENGTH"
  with assms(1) show "string_header_ok nMin p (w_mem w')"
    by (auto simp: read_string_descriptor_def bind_Some_iff Let_def string_header_ok_def not_less split: if_splits)
qed

lemma even_byte: "(b :: u8) AND 1 = 0 \<longleftrightarrow> even (unat b)"
  by (simp add: word_eq_iff_unsigned[where ?'a = nat] and_one_eq unat_mod even_iff_mod_2_eq_zero)

lemma string_bytes:
  assumes "string_header_ok nMin p m" and "2 \<le> nMin"
  shows "2 \<le> m p" "m p AND 1 = 0" "(unat (m p) - 2) div 2 \<le> 126" "unat (m p) = 2 * ((unat (m p) - 2) div 2) + 2"
    "m (p + 1) = DESCRIPTOR_STRING"
proof -
  show r: "2 \<le> m p" "m p AND 1 = 0" "m (p + 1) = DESCRIPTOR_STRING"
    using assms by (auto simp: string_header_ok_def not_less)
  then have "even (unat (m p))" "2 \<le> unat (m p)" "unat (m p) < 256"
    using unat_less_2p[of "m p"] by (simp_all add: even_byte word_le_nat_alt)
  then show "(unat (m p) - 2) div 2 \<le> 126" "unat (m p) = 2 * ((unat (m p) - 2) div 2) + 2" by presburger+
qed

section \<open>The text of a descriptor\<close>

text \<open>A descriptor as the device sends it: two bytes of header, then characters of two bytes, the lower byte first.\<close>

fun utf16_text :: "u8 list \<Rightarrow> string" where
  "utf16_text (lo # hi # bs) = (if hi = 0 \<and> 0x20 \<le> lo \<and> lo \<le> 0x7E then char_of (unat lo) else CHR ''_'') # utf16_text bs"
| "utf16_text bs = []"

definition descriptor_text :: "u8 list \<Rightarrow> string" where
  "descriptor_text desc = utf16_text (drop 2 desc)"

definition string_event :: "u8 \<Rightarrow> u16 \<Rightarrow> u8 list \<Rightarrow> int \<Rightarrow> wire_event" where
  "string_event ucID lang bs r = WireControlData REQUEST_IN GET_DESCRIPTOR (0x300 OR ucast ucID) lang bs r"

lemma usb_char_bytes:
  "usb_char (word16 [lo, hi]) = (if hi = 0 \<and> 0x20 \<le> lo \<and> lo \<le> 0x7E then char_of (unat lo) else CHR ''_'')"
proof -
  have "unat (word16 [lo, hi]) = unat lo + 256 * unat hi"
  proof -
    have "\<not> bit lo n" if "8 \<le> n" for n using bit_imp_le_length[of lo n] that by auto
    then have "word16 [lo, hi] = ucast lo + push_bit 8 (ucast hi :: u16)"
      by (simp add: word16_def, intro disjunctive_add[symmetric]) (auto simp: bit_simps not_less)
    moreover have "unat (push_bit 8 (ucast hi :: u16)) = 256 * unat hi"
      using unat_less_2p[of hi] by (simp add: push_bit_eq_mult unat_word_ariths unsigned_ucast_eq take_bit_eq_mod)
    ultimately show ?thesis using unat_less_2p[of hi] unat_less_2p[of lo] by (simp add: unat_word_ariths unsigned_ucast_eq take_bit_eq_mod)
  qed
  moreover have "hi = 0 \<longleftrightarrow> unat hi = 0" by (simp add: unat_eq_0)
  ultimately show ?thesis
    by (auto simp: usb_char_def word_less_nat_alt word_le_nat_alt not_less)
qed

lemma buffer_text: "List.map (\<lambda>i. usb_char (bString p i m)) [0..<k] = utf16_text (mem_read (p + 2) (2 * k) m)"
proof (induction k arbitrary: p)
  case (Suc k)
  have r: "mem_read (p + 2) (2 * Suc k) m = m (p + 2) # m (p + 3) # mem_read (p + 2 + 2) (2 * k) m" by (simp add: add.assoc)
  have s: "bString p (Suc i) m = bString (p + 2) i m" for i by (simp add: bString_def algebra_simps)
  have z: "usb_char (bString p 0 m) = usb_char (word16 [m (p + 2), m (p + 3)])"
    by (simp add: bString_def numeral_2_eq_2 add.assoc)
  have "List.map (\<lambda>i. usb_char (bString p i m)) [0..<Suc k] = usb_char (bString p 0 m) # List.map (\<lambda>i. usb_char (bString (p + 2) i m)) [0..<k]"
    unfolding upt_conv_Cons[OF zero_less_Suc] map_Suc_upt[symmetric] by (simp add: s o_def)
  then show ?case unfolding r Suc.IH z usb_char_bytes by simp
qed simp

lemma descriptor_read: "descriptor_text (mem_read p (2 * k + 2) m) = utf16_text (mem_read (p + 2) (2 * k) m)"
proof -
  have "mem_read p (2 * k + 2) m = m p # m (p + 1) # mem_read (p + 1 + 1) (2 * k) m" by simp
  then show ?thesis by (simp add: descriptor_text_def add.assoc)
qed

lemma mem_read_over:
  "n < 2 ^ 64 \<Longrightarrow> length bs \<le> 2 ^ 64 \<Longrightarrow> mem_read p n (mem_write p bs m) = take n bs @ drop (length bs) (mem_read p n m)"
proof (induction n arbitrary: p bs m)
  case (Suc n)
  show ?case
  proof (cases bs)
    case (Cons b cs)
    have "mem_write (p + 1) cs (m(p := b)) p = b" using Suc.prems Cons by (simp add: mem_write_frame block_fresh)
    moreover have "mem_read (p + 1) n (m(p := b)) = mem_read (p + 1) n m"
      using block_fresh[of n p] Suc.prems by (intro mem_read_cong) auto
    ultimately show ?thesis using Suc.IH[of cs "p + 1" "m(p := b)"] Suc.prems Cons by (simp del: fun_upd_apply)
  qed simp
qed simp

lemma mem_read_take: "k \<le> n \<Longrightarrow> mem_read p k m = take k (mem_read p n m)"
proof (induction k arbitrary: p n)
  case (Suc k)
  then show ?case by (cases n) simp_all
qed simp

lemma control_result_small:
  assumes "usb_control_data drv l p t rq v i b n w = Some (r, w')"
  shows "nat r < 2 ^ 31"
proof -
  from assms obtain w1 where "DWHCIDeviceControlMessage drv (loc_urb l) (loc_setup l) p t rq v i b n w = Some (r, w1)"
    by (auto simp: usb_control_data_def bind_Some_iff Let_def dma_in_def split: if_splits)
  then have "r = -1 \<or> (\<exists>k :: u32. r = sint k)" by (auto simp: DWHCIDeviceControlMessage_def bind_Some_iff split: if_splits)
  moreover have "nat (sint k) < 2 ^ 31" for k :: u32 using sint_less[of k] by (simp add: nat_less_iff)
  ultimately show ?thesis by auto
qed

lemma string_message:
  assumes "get_string_descriptor drv l this ucID lang p n w = Some (r, w')" and "drv_keeps drv"
  shows "\<exists>bs. length bs = nat r \<and> length bs < 2 ^ 31 \<and> w_wire w' = w_wire w @ [string_event ucID lang bs r] \<and> w_mem w' = mem_write p bs (w_mem w)"
proof -
  from assms(1) obtain ep0 where
    c: "usb_control_data drv l (Some ep0) REQUEST_IN GET_DESCRIPTOR (push_bit 8 (ucast DESCRIPTOR_STRING) OR ucast ucID) lang p (ucast n) w
      = Some (r, w')" by (auto simp: get_string_descriptor_def bind_Some_iff)
  have "REQUEST_IN AND REQUEST_IN \<noteq> 0" "push_bit 8 (ucast DESCRIPTOR_STRING) = (0x300 :: u16)"
    by (simp_all add: REQUEST_IN_def DESCRIPTOR_STRING_def)
  with usb_control_data_in[OF c assms(2)] control_result_small[OF c] show ?thesis by (auto simp: string_event_def)
qed

text \<open>The buffer for the first answer, which holds what was there before where the answer is shorter than its four bytes.\<close>

definition short_buffer :: "uintptr \<Rightarrow> u8 list \<Rightarrow> mem \<Rightarrow> u8 list" where
  "short_buffer p bs m = take 4 bs @ drop (length bs) (mem_read p 4 m)"

text \<open>What a successful read has put on the wire and into memory.\<close>

definition string_received :: "u8 \<Rightarrow> u16 \<Rightarrow> u8 list \<Rightarrow> wire_event list \<Rightarrow> u8 list \<Rightarrow> bool" where
  "string_received ucID lang four es desc \<longleftrightarrow>
     (if four ! 0 \<le> 4 then es = [] \<and> desc = take (unat (four ! 0)) four
      else es = [string_event ucID lang desc (int (length desc))] \<and> length desc = unat (four ! 0))"

lemma read_string_cases:
  assumes read: "read_string_descriptor drv l this ucID lang 2 pShort pLong w = Some (True, p, w')"
    and g1: "get_string_descriptor drv l this ucID lang pShort USBSTR_MIN_LENGTH w = Some (r, w1)" and n: "w_mem w1 pShort = n"
  shows "n \<le> 4 \<Longrightarrow> w' = w1 \<and> p = pShort"
    and "\<not> n \<le> 4 \<Longrightarrow> get_string_descriptor drv l this ucID lang pLong n w1 = Some (uint n, w') \<and> p = pLong \<and> w_mem w' pLong = n"
proof -
  note r = read[unfolded read_string_descriptor_def g1 bind.bind_lunit prod.case Let_def n]
  show "w' = w1 \<and> p = pShort" if "n \<le> 4"
    using r that by (simp add: USBSTR_MIN_LENGTH_def c_assert_def split: if_splits)
  show "get_string_descriptor drv l this ucID lang pLong n w1 = Some (uint n, w') \<and> p = pLong \<and> w_mem w' pLong = n" if "\<not> n \<le> 4"
    using r that by (simp add: USBSTR_MIN_LENGTH_def c_assert_def split: if_splits) (auto simp: bind_Some_iff split: if_splits)
qed

lemma read_string_wire:
  assumes read: "read_string_descriptor drv l this ucID lang 2 pShort pLong w = Some (True, p, w')" and drv: "drv_keeps drv"
  shows "\<exists>bs r es. length bs = nat r \<and> w_wire w' = w_wire w @ string_event ucID lang bs r # es
     \<and> string_received ucID lang (short_buffer pShort bs (w_mem w)) es (mem_read p (unat (w_mem w' p)) (w_mem w'))"
proof -
  from read obtain r w1 where
    g1: "get_string_descriptor drv l this ucID lang pShort USBSTR_MIN_LENGTH w = Some (r, w1)"
    by (auto simp: read_string_descriptor_def bind_Some_iff c_assert_def split: if_splits)
  from string_message[OF g1 drv] obtain bs where bs: "length bs = nat r" "length bs < 2 ^ 31"
    "w_wire w1 = w_wire w @ [string_event ucID lang bs r]" "w_mem w1 = mem_write pShort bs (w_mem w)" by blast
  let ?four = "short_buffer pShort bs (w_mem w)"
  have "mem_read pShort 4 (w_mem w1) = ?four"
    unfolding bs(4) short_buffer_def by (rule mem_read_over) (use bs(2) in simp_all)
  then have buf: "mem_read pShort n (w_mem w1) = take n ?four" if "n \<le> 4" for n using mem_read_take[OF that, of pShort "w_mem w1"] by simp
  have len: "w_mem w1 pShort = ?four ! 0"
  proof -
    have "[w_mem w1 pShort] = take 1 ?four" using buf[of 1] by simp
    then show ?thesis by (cases ?four) simp_all
  qed
  note c = read_string_cases[OF read g1 len]
  show ?thesis
  proof (cases "?four ! 0 \<le> 4")
    case False
    note g2 = c(2)[OF False]
    from string_message[OF conjunct1[OF g2] drv] obtain desc where d: "length desc = nat (uint (?four ! 0))" "length desc < 2 ^ 31"
      "w_wire w' = w_wire w1 @ [string_event ucID lang desc (uint (?four ! 0))]" "w_mem w' = mem_write pLong desc (w_mem w1)" by blast
    have k: "length desc = unat (?four ! 0)" "uint (?four ! 0) = int (length desc)" unfolding d(1) by simp_all
    have "mem_read pLong (length desc) (w_mem w') = desc" unfolding d(4) by (rule mem_read_write) (use d(2) in simp)
    with k(1) g2 have "mem_read p (unat (w_mem w' p)) (w_mem w') = desc" by simp
    moreover have "w_wire w' = w_wire w @ [string_event ucID lang bs r, string_event ucID lang desc (int (length desc))]"
      using d(3) bs(3) by (simp add: k(2))
    ultimately show ?thesis using False bs(1) k(1)
      by (intro exI[of _ bs] exI[of _ r] exI[of _ "[string_event ucID lang desc (int (length desc))]"]) (simp only: string_received_def if_False simp_thms)
  next
    case True
    note w' = c(1)[OF True]
    have "mem_read pShort (unat (w_mem w1 pShort)) (w_mem w1) = take (unat (?four ! 0)) ?four"
      unfolding len by (rule buf) (use True in \<open>simp add: word_le_nat_alt\<close>)
    with True bs(1,3) w' show ?thesis by (intro exI[of _ bs] exI[of _ r] exI[of _ "[]"]) (simp add: string_received_def)
  qed
qed

lemma utf16_text_printable: "\<forall>c \<in> set (utf16_text bs). 32 \<le> (of_char c :: nat) \<and> (of_char c :: nat) \<le> 126"
  by (induction bs rule: utf16_text.induct) (auto simp: word_le_nat_alt of_char_of)

lemma utf16_text_length: "length (utf16_text bs) = length bs div 2"
  by (induction bs rule: utf16_text.induct) auto


text \<open>A device with its control endpoint, which sends the given bytes, one list for each IN transfer.\<close>

definition enum_store :: usb_store where
  "enum_store = \<lparr>st_devs = [0 \<mapsto> \<lparr>dev_ucAddress = 3, dev_Speed = USBSpeedHigh, dev_pEndpoint0 = Some 1,
       dev_bSplitTransfer = False, dev_ucHubAddress = 0, dev_ucHubPortNumber = 1\<rparr>],
     st_eps = [1 \<mapsto> \<lparr>ep_pDevice = Some 0, ep_ucNumber = 0, ep_Type = EndpointTypeControl, ep_bDirectionIn = False,
                ep_nMaxPacketSize = 64, ep_nInterval = 1, ep_NextPID = USBPIDSetup\<rparr>],
     st_urbs = (\<lambda>_. None)\<rparr>"

definition enum_world :: "u8 list list \<Rightarrow> io_world" where
  "enum_world data = \<lparr>w_timer = w_timer idle_world,
     w_io = \<lparr>io_oracle = (\<lambda>n. [0, 0, 0, 2 ^ 25, 1, 0, 1, 1, 1] ! (n mod 9)), io_pos = 0, io_trace = []\<rparr>,
     w_host = w_host idle_world, w_store = enum_store, w_events = (\<lambda>_. UsbInterrupt), w_evpos = 0,
     w_mem = (\<lambda>_. 0), w_data = (\<lambda>i j. data ! i ! j), w_datapos = 0, w_wire = [],
     w_names = Some \<lparr>dns_pList = []\<rparr>, w_nDeviceNumber = (\<lambda>_. 1), w_next = 10, w_malloc = (\<lambda>n. replicate n NUL)\<rparr>"

definition enum_locals :: locals where
  "enum_locals = \<lparr>loc_urb = 7, loc_setup = 0x1000, loc_CBW = 0x2000, loc_CSW = 0x3000, loc_cmd = 0x4000, loc_rsp = 0x5000\<rparr>"

definition enum_no_driver :: "io_world driver_code" where
  "enum_no_driver = \<lparr>drv_completion = (\<lambda>_ _ _ _ w. Some w), drv_timer = (\<lambda>_ _ _ _ w. Some w)\<rparr>"

lemma enum_no_driver_keeps: "drv_keeps enum_no_driver"
  by (simp add: drv_keeps_def enum_no_driver_def keeps_def)

abbreviation enum_string :: TUSBString where
  "enum_string \<equiv> \<lparr>us_pDevice = Some 0, us_pUSBString = 0, us_pString = Some new_string\<rparr>"

lemma enum_string_run:
  "map_option (\<lambda>(ok, p, w). (ok, w_wire w))
     (read_string_descriptor enum_no_driver enum_locals enum_string 1 0x409 2 0x6000 0x7000 (enum_world [[4, 3, 0x41, 0]]))
   = Some (True, [string_event 1 0x409 [4, 3, 0x41, 0] 4])"
  by code_simp


text \<open>
  The language is the default if the device offers it or if its list cannot be read, else the first of the list.
\<close>

lemma language_id:
  assumes "USBStringGetLanguageID drv l pShort pLong this w = Some (lang, w')"
  shows "lang = USBSTR_DEFAULT_LANGID \<or> (\<exists>p. lang = bString p 0 (w_mem w') \<and> (p = pShort \<or> p = pLong))"
  using assms by (auto simp: USBStringGetLanguageID_def read_string_descriptor_def bind_Some_iff Let_def split: if_splits)

end
