(* ===== verification/HidDevice.thy ===== *)
theory HidDevice
  imports UsbFunction
begin

text \<open>
  What the drivers of report devices share (keyboard, mouse, game pad, MIDI): the requests and descriptors of
  \<^verbatim>\<open>include/uspi/usbhid.h\<close>, the search for the interrupt endpoint, and the cycle of asynchronous requests: a
  request is submitted with a completion routine, which looks at the report in the buffer, calls the
  handlers the application registered, and submits the request again.

  A registered handler is code of the application.  The completion routines return the calls they make
  to handlers, in order; a handler is named by its address.

  The locale \<open>report_driver\<close> is the contract of such a driver: what a completion does is a function of what it
  finds in the request and its buffer (\<open>look\<close>), so that a sequence of completions is a fold over the reports.  The drivers interpret it.
\<close>

unbundle bit_operations_syntax

section \<open>Requests and descriptors\<close>

definition GET_REPORT :: u8 where "GET_REPORT = 0x01"
definition SET_REPORT :: u8 where "SET_REPORT = 0x09"
definition SET_PROTOCOL :: u8 where "SET_PROTOCOL = 0x0B"
definition DESCRIPTOR_HID :: u8 where "DESCRIPTOR_HID = 0x21"
definition DESCRIPTOR_CS_ENDPOINT :: u8 where "DESCRIPTOR_CS_ENDPOINT = 37"
definition BOOT_PROTOCOL :: u16 where "BOOT_PROTOCOL = 0x00"
definition REPORT_TYPE_INPUT :: u16 where "REPORT_TYPE_INPUT = 0x01"
definition REPORT_TYPE_OUTPUT :: u16 where "REPORT_TYPE_OUTPUT = 0x02"
definition REPORT_TYPE_FEATURE :: u16 where "REPORT_TYPE_FEATURE = 0x03"
definition REQUEST_CLASS :: u8 where "REQUEST_CLASS = 0x20"
definition DESCRIPTOR_INDEX_DEFAULT :: u16 where "DESCRIPTOR_INDEX_DEFAULT = 0"

text \<open>The two fields of the HID descriptor the drivers read, at an offset of the configuration buffer.\<close>

record TUSBHIDDescriptor =
  hid_bReportDescriptorType :: u8
  hid_wReportDescriptorLength :: u16

definition get_hid_descriptor :: "TUSBFunction \<Rightarrow> nat \<Rightarrow> TUSBHIDDescriptor option" where
  "get_hid_descriptor f i = do {
     p \<leftarrow> fn_pConfigParser f;
     buf \<leftarrow> cp_pBuffer p;
     b6 \<leftarrow> array_get buf (i + 6); b7 \<leftarrow> array_get buf (i + 7); b8 \<leftarrow> array_get buf (i + 8);
     Some \<lparr>hid_bReportDescriptorType = b6, hid_wReportDescriptorLength = word16 [b7, b8]\<rparr> }"

definition is_input :: "TUSBEndpointDescriptor \<Rightarrow> bool" where
  "is_input desc \<longleftrightarrow> ed_bEndpointAddress desc AND 0x80 = 0x80"

definition is_interrupt :: "TUSBEndpointDescriptor \<Rightarrow> bool" where
  "is_interrupt desc \<longleftrightarrow> ed_bmAttributes desc AND 0x3F = 0x03"

text \<open>The loop over the endpoint descriptors: the first interrupt input endpoint is taken.\<close>

partial_function (option) find_report_endpoint ::
    "addr option \<Rightarrow> TUSBFunction \<Rightarrow> 'a io_world_scheme
     \<Rightarrow> (addr option \<times> TUSBFunction \<times> 'a io_world_scheme) option" where
  "find_report_endpoint pReportEndpoint f w = do {
     (pEndpointDesc, f) \<leftarrow> USBFunctionGetDescriptor f DESCRIPTOR_ENDPOINT;
     (case pEndpointDesc of None \<Rightarrow> Some (pReportEndpoint, f, w)
      | Some i \<Rightarrow> do {
          desc \<leftarrow> get_endpoint_descriptor f i;
          if \<not> is_input desc \<or> \<not> is_interrupt desc then find_report_endpoint pReportEndpoint f w
          else do {
            c_assert (pReportEndpoint = None);
            ep \<leftarrow> USBEndpoint2 (st_devs (w_store w)) (USBFunctionGetDevice f) (Some desc);
            let (a, w) = new_endpoint ep w;
            Some (Some a, f, w) } }) }"

declare find_report_endpoint.simps [code]

definition set_boot_protocol ::
    "'a io_world_scheme driver_code \<Rightarrow> locals \<Rightarrow> TUSBFunction \<Rightarrow> 'a io_world_scheme
     \<Rightarrow> (int \<times> 'a io_world_scheme) option" where
  "set_boot_protocol drv l f w = do {
     _ \<leftarrow> USBFunctionGetHost (w_store w) f;
     ep0 \<leftarrow> USBFunctionGetEndpoint0 (w_store w) f;
     bInterfaceNumber \<leftarrow> USBFunctionGetInterfaceNumber f;
     usb_control drv l (Some ep0) (REQUEST_OUT OR REQUEST_CLASS OR REQUEST_TO_INTERFACE) SET_PROTOCOL BOOT_PROTOCOL
       (ucast bInterfaceNumber) w }"

text \<open>Reading the report descriptor into the buffer the driver has allocated for it.\<close>

definition get_report_descriptor ::
    "'a io_world_scheme driver_code \<Rightarrow> locals \<Rightarrow> TUSBFunction \<Rightarrow> TUSBHIDDescriptor \<Rightarrow> uintptr \<Rightarrow> u16 \<Rightarrow> 'a io_world_scheme
     \<Rightarrow> (int \<times> 'a io_world_scheme) option" where
  "get_report_descriptor drv l f pHIDDesc pBuffer usLength w = do {
     _ \<leftarrow> USBFunctionGetHost (w_store w) f;
     ep0 \<leftarrow> USBFunctionGetEndpoint0 (w_store w) f;
     bInterfaceNumber \<leftarrow> USBFunctionGetInterfaceNumber f;
     usb_control_data drv l (Some ep0) (REQUEST_IN OR REQUEST_TO_INTERFACE) GET_DESCRIPTOR
       (push_bit 8 (ucast (hid_bReportDescriptorType pHIDDesc)) OR DESCRIPTOR_INDEX_DEFAULT)
       (ucast bInterfaceNumber) pBuffer usLength w }"

section \<open>The request cycle\<close>

text \<open>
  \<^verbatim>\<open>StartRequest\<close> of the drivers: they differ in the completion routine, the endpoint and the buffer.
\<close>

definition start_report_request ::
    "nat \<Rightarrow> TUSBFunction \<Rightarrow> addr \<Rightarrow> uintptr \<Rightarrow> addr option \<Rightarrow> uintptr \<Rightarrow> u32 \<Rightarrow> 'a io_world_scheme
     \<Rightarrow> (bool \<times> 'a io_world_scheme) option" where
  "start_report_request routine f pURB pThis pEndpoint pBuffer nSize w = do {
     c_assert (pEndpoint \<noteq> None);
     c_assert (pBuffer \<noteq> 0);
     r \<leftarrow> USBRequest pEndpoint pBuffer nSize None;
     r \<leftarrow> USBRequestSetCompletionRoutine r (Some (DriverCompletionRoutine routine)) 0 pThis;
     _ \<leftarrow> USBFunctionGetHost (w_store w) f;
     DWHCIDeviceSubmitAsyncRequest pURB (put_urb pURB r w) }"

definition end_request :: "addr \<Rightarrow> 'a io_world_scheme \<Rightarrow> 'a io_world_scheme option" where
  "end_request pURB w = do { r \<leftarrow> urb_of w pURB; Some (put_urb pURB (USBRequest_dtor r) w) }"

text \<open>The length a finished request reports, nothing if it failed.\<close>

definition request_length :: "addr \<Rightarrow> 'a io_world_scheme \<Rightarrow> u32 option option" where
  "request_length pURB w = do {
     r \<leftarrow> urb_of w pURB;
     if USBRequestGetStatus r then do { n \<leftarrow> USBRequestGetResultLength r; Some (Some n) } else Some None }"

text \<open>The report a completion finds: the bytes of the buffer, if the request succeeded.\<close>

definition report_of :: "addr \<Rightarrow> uintptr \<Rightarrow> 'a io_world_scheme \<Rightarrow> u8 list option" where
  "report_of pURB pBuffer w =
     (case urb_of w pURB of None \<Rightarrow> None
      | Some r \<Rightarrow> if USBRequestGetStatus r then Some (mem_read pBuffer (unat (urb_nResultLen r)) (w_mem w)) else None)"

text \<open>A sequence of completions, each in the state of the world it happens in, and the calls it makes to handlers.\<close>

fun run_completions ::
    "('d \<Rightarrow> 'w \<Rightarrow> ('d \<times> 'c list \<times> 'w) option) \<Rightarrow> 'd \<Rightarrow> 'w list \<Rightarrow> ('d \<times> 'c list) option" where
  "run_completions completion d [] = Some (d, [])"
| "run_completions completion d (w # ws) = do {
     (d, cs, _) \<leftarrow> completion d w;
     (d, cs') \<leftarrow> run_completions completion d ws;
     Some (d, cs @ cs') }"

fun run_reports :: "('d \<Rightarrow> 'r \<Rightarrow> 'd \<times> 'c list) \<Rightarrow> 'd \<Rightarrow> 'r list \<Rightarrow> 'd \<times> 'c list" where
  "run_reports process d [] = (d, [])"
| "run_reports process d (r # rs) =
     (let (d, cs) = process d r; (d, cs') = run_reports process d rs in (d, cs @ cs'))"

locale report_driver =
  fixes inv :: "'d \<Rightarrow> bool"
    and restart :: "'d \<Rightarrow> 'a io_world_scheme \<Rightarrow> (bool \<times> 'a io_world_scheme) option"
    and pURB :: "'d \<Rightarrow> addr"
    and look :: "'d \<Rightarrow> 'a io_world_scheme \<Rightarrow> 'r"
    and process :: "'d \<Rightarrow> 'r \<Rightarrow> 'd \<times> 'c list"
    and completion :: "'d \<Rightarrow> 'a io_world_scheme \<Rightarrow> ('d \<times> 'c list \<times> 'a io_world_scheme) option"
  assumes process_keeps: "inv d \<Longrightarrow> process d r = (d', cs) \<Longrightarrow> inv d' \<and> pURB d' = pURB d \<and> look d' = look d"
    and completion_eq: "inv d \<Longrightarrow> urb_of w (pURB d) \<noteq> None \<Longrightarrow>
      process d (look d w) = (d', cs) \<Longrightarrow>
      completion d w = do { w \<leftarrow> end_request (pURB d) w; (_, w) \<leftarrow> restart d' w; Some (d', cs, w) }"
    and completion_urb: "completion d w \<noteq> None \<Longrightarrow> urb_of w (pURB d) \<noteq> None"
begin

lemma completion_processes:
  assumes "inv d" and "completion d w = Some (d', cs, w')"
  shows "process d (look d w) = (d', cs)"
proof -
  from assms(2) completion_urb[of d w] have u: "urb_of w (pURB d) \<noteq> None" by simp
  obtain e cs1 where p: "process d (look d w) = (e, cs1)" by fastforce
  have "(do { w \<leftarrow> end_request (pURB d) w; (_, w) \<leftarrow> restart e w; Some (e, cs1, w) }) = Some (d', cs, w')"
    using completion_eq[OF assms(1) u p] assms(2) by simp
  then have "e = d'" "cs1 = cs" by (auto simp: bind_Some_iff)
  with p show ?thesis by simp
qed

text \<open>The calls of a sequence of completions are those of its reports.\<close>

lemma completions_refine:
  assumes "inv d" and "run_completions completion d ws = Some (d', cs)"
  shows "run_reports process d (List.map (look d) ws) = (d', cs) \<and> inv d'"
  using assms
proof (induction ws arbitrary: d cs)
  case Nil
  then show ?case by simp
next
  case (Cons w ws)
  from Cons.prems(2) obtain e c1 c2 w' where c: "completion d w = Some (e, c1, w')"
    and r: "run_completions completion e ws = Some (d', c2)" and cs: "cs = c1 @ c2"
    by (auto simp: bind_Some_iff split: prod.splits)
  from completion_processes[OF Cons.prems(1) c]
  have p: "process d (look d w) = (e, c1)" .
  with process_keeps[OF Cons.prems(1)] have "inv e" "pURB e = pURB d" "look e = look d" by blast+
  with Cons.IH[OF _ r] p cs show ?case by simp
qed

text \<open>
  Completions always come back when the request can be restarted: the calls to handlers and the
  look at the report never stop the driver.
\<close>

lemma completion_returns:
  assumes "inv d" and "urb_of w (pURB d) = Some r"
    and "\<And>d'. inv d' \<Longrightarrow> pURB d' = pURB d \<Longrightarrow> look d' = look d
           \<Longrightarrow> restart d' (put_urb (pURB d) (USBRequest_dtor r) w) \<noteq> None"
  shows "completion d w \<noteq> None"
proof -
  obtain e cs where p: "process d (look d w) = (e, cs)" by fastforce
  with process_keeps[OF assms(1)] have "inv e" "pURB e = pURB d" "look e = look d" by blast+
  with assms(3) obtain b w1 where "restart e (put_urb (pURB d) (USBRequest_dtor r) w) = Some (b, w1)" by fastforce
  with completion_eq[OF assms(1) _ p] assms(2) show ?thesis by (simp add: end_request_def)
qed

end

text \<open>The report of a request that is there, in the way the completion routines look at it.\<close>

lemma report_of_length:
  assumes "urb_of w u = Some r"
  shows "request_length u w = Some (if USBRequestGetStatus r then Some (urb_nResultLen r) else None)"
    and "report_of u b w = (if USBRequestGetStatus r then Some (mem_read b (unat (urb_nResultLen r)) (w_mem w)) else None)"
  using assms by (simp_all add: request_length_def report_of_def USBRequestGetResultLength_def USBRequestGetStatus_def)

lemma request_length_urb: "request_length u w \<noteq> None \<Longrightarrow> urb_of w u \<noteq> None"
  by (cases "urb_of w u") (simp_all add: request_length_def)

lemma nth_mem_read: "i < n \<Longrightarrow> mem_read p n m ! i = m (p + of_nat i)"
  by (induction n arbitrary: p i) (auto simp: nth_Cons' add.assoc of_nat_diff split: nat.splits)

section \<open>A concrete device\<close>

text \<open>
  A full-speed device with one interrupt endpoint, at the moment its request (at 7) has completed with the
  given bytes in the buffer at \<open>0x6000\<close>.
\<close>

definition hid_endpoint :: TUSBEndpoint where
  "hid_endpoint = \<lparr>ep_pDevice = Some 0, ep_ucNumber = 1, ep_Type = EndpointTypeInterrupt, ep_bDirectionIn = True,
     ep_nMaxPacketSize = 8, ep_nInterval = 10, ep_NextPID = USBPIDData0\<rparr>"

definition hid_request :: "nat \<Rightarrow> TUSBRequest" where
  "hid_request n = \<lparr>urb_pEndpoint = Some 2, urb_pSetupData = None, urb_pBuffer = 0x6000, urb_nBufLen = 8,
     urb_bStatus = True, urb_nResultLen = of_nat n, urb_pCompletionRoutine = None, urb_pCompletionParam = 0,
     urb_pCompletionContext = 0\<rparr>"

definition hid_world :: "u8 list \<Rightarrow> io_world" where
  "hid_world rep = \<lparr>w_timer = w_timer idle_world,
     w_io = \<lparr>io_oracle = (\<lambda>n. [0, 0, 0, 2 ^ 25, 1, 0, 1, 1, 1] ! (n mod 9)), io_pos = 0, io_trace = []\<rparr>,
     w_host = w_host idle_world,
     w_store = \<lparr>st_devs = [0 \<mapsto> \<lparr>dev_ucAddress = 5, dev_Speed = USBSpeedHigh, dev_pEndpoint0 = Some 1,
         dev_bSplitTransfer = False, dev_ucHubAddress = 0, dev_ucHubPortNumber = 1\<rparr>],
       st_eps = [2 \<mapsto> hid_endpoint], st_urbs = [7 \<mapsto> hid_request (length rep)]\<rparr>,
     w_events = (\<lambda>_. UsbInterrupt), w_evpos = 0, w_mem = mem_write 0x6000 rep (\<lambda>_. 0), w_data = (\<lambda>_ _. 0),
     w_datapos = 0, w_wire = [], w_names = Some \<lparr>dns_pList = []\<rparr>, w_nDeviceNumber = (\<lambda>_. 1), w_next = 10,
     w_malloc = (\<lambda>n. replicate n NUL)\<rparr>"

definition hid_function :: TUSBFunction where
  "hid_function = \<lparr>fn_Configure = None, fn_pDevice = Some 0, fn_pConfigParser = None, fn_pInterfaceDesc = None\<rparr>"

lemma hid_world_urb: "urb_of (hid_world rep) 7 = Some (hid_request (length rep))"
  by (simp add: hid_world_def urb_of_def)

lemma hid_world_report:
  assumes "length rep < 2 ^ 32"
  shows "report_of 7 0x6000 (hid_world rep) = Some rep"
proof -
  have "unat (of_nat (length rep) :: u32) = length rep" using assms by (simp add: unat_of_nat_small)
  moreover have "mem_read 0x6000 (length rep) (mem_write 0x6000 rep (\<lambda>_. 0)) = rep"
    using assms by (intro mem_read_write) simp
  ultimately show ?thesis
    unfolding report_of_length(2)[OF hid_world_urb]
    by (simp add: hid_request_def USBRequestGetStatus_def hid_world_def)
qed

end
