(* ===== verification/KeyMap.thy ===== *)
theory KeyMap
  imports Prelude
begin

text \<open>
  The keyboard map (\<^verbatim>\<open>lib/keymap.c\<close>, \<^verbatim>\<open>include/uspi/keymap.h\<close>): a table from the physical key codes of the USB boot
  protocol to logical codes, one column per shift state, the three lock states, and the strings that
  special keys stand for.  The initial table is that of \<^verbatim>\<open>lib/keymap_uk.h\<close>, which
  \<^verbatim>\<open>include/uspios.h\<close> selects.  Table accesses are checked: \<open>None\<close> is an access outside the array.

  The results: no access is ever outside the table, whatever was entered into it; translation and
  strings stay within the enumerations; what \<^verbatim>\<open>KeyMapSetEntry\<close> stores is what \<^verbatim>\<open>KeyMapTranslate\<close> finds; a lock key
  toggles its lock and nothing else.
\<close>

unbundle bit_operations_syntax

section \<open>Codes\<close>

definition KEYPAD_FIRST :: u8 where "KEYPAD_FIRST = 0x53"
definition KEYPAD_LAST :: u8 where "KEYPAD_LAST = 0x63"
definition PHY_MAX_CODE :: u8 where "PHY_MAX_CODE = 127"
definition K_NORMTAB :: u8 where "K_NORMTAB = 0"
definition K_SHIFTTAB :: u8 where "K_SHIFTTAB = 1"
definition K_ALTTAB :: u8 where "K_ALTTAB = 2"
definition K_ALTSHIFTTAB :: u8 where "K_ALTSHIFTTAB = 3"

definition LCTRL :: u8 where "LCTRL = 1"
definition LSHIFT :: u8 where "LSHIFT = 2"
definition ALT :: u8 where "ALT = 4"
definition LWIN :: u8 where "LWIN = 8"
definition RCTRL :: u8 where "RCTRL = 16"
definition RSHIFT :: u8 where "RSHIFT = 32"
definition ALTGR :: u8 where "ALTGR = 64"
definition RWIN :: u8 where "RWIN = 128"

definition LED_NUM_LOCK :: u8 where "LED_NUM_LOCK = 1"
definition LED_CAPS_LOCK :: u8 where "LED_CAPS_LOCK = 2"
definition LED_SCROLL_LOCK :: u8 where "LED_SCROLL_LOCK = 4"

text \<open>\<^verbatim>\<open>TSpecialKey\<close> and \<^verbatim>\<open>TSpecialAction\<close>.\<close>

definition KeyNone :: u16 where "KeyNone = 0x0"
definition KeySpace :: u16 where "KeySpace = 0x100"
definition KeyEscape :: u16 where "KeyEscape = 0x101"
definition KeyBackspace :: u16 where "KeyBackspace = 0x102"
definition KeyTabulator :: u16 where "KeyTabulator = 0x103"
definition KeyReturn :: u16 where "KeyReturn = 0x104"
definition KeyInsert :: u16 where "KeyInsert = 0x105"
definition KeyHome :: u16 where "KeyHome = 0x106"
definition KeyPageUp :: u16 where "KeyPageUp = 0x107"
definition KeyDelete :: u16 where "KeyDelete = 0x108"
definition KeyEnd :: u16 where "KeyEnd = 0x109"
definition KeyPageDown :: u16 where "KeyPageDown = 0x10A"
definition KeyUp :: u16 where "KeyUp = 0x10B"
definition KeyDown :: u16 where "KeyDown = 0x10C"
definition KeyLeft :: u16 where "KeyLeft = 0x10D"
definition KeyRight :: u16 where "KeyRight = 0x10E"
definition KeyF1 :: u16 where "KeyF1 = 0x10F"
definition KeyF2 :: u16 where "KeyF2 = 0x110"
definition KeyF3 :: u16 where "KeyF3 = 0x111"
definition KeyF4 :: u16 where "KeyF4 = 0x112"
definition KeyF5 :: u16 where "KeyF5 = 0x113"
definition KeyF6 :: u16 where "KeyF6 = 0x114"
definition KeyF7 :: u16 where "KeyF7 = 0x115"
definition KeyF8 :: u16 where "KeyF8 = 0x116"
definition KeyF9 :: u16 where "KeyF9 = 0x117"
definition KeyF10 :: u16 where "KeyF10 = 0x118"
definition KeyF11 :: u16 where "KeyF11 = 0x119"
definition KeyF12 :: u16 where "KeyF12 = 0x11A"
definition KeyApplication :: u16 where "KeyApplication = 0x11B"
definition KeyCapsLock :: u16 where "KeyCapsLock = 0x11C"
definition KeyPrintScreen :: u16 where "KeyPrintScreen = 0x11D"
definition KeyScrollLock :: u16 where "KeyScrollLock = 0x11E"
definition KeyPause :: u16 where "KeyPause = 0x11F"
definition KeyNumLock :: u16 where "KeyNumLock = 0x120"
definition KeyKP_Divide :: u16 where "KeyKP_Divide = 0x121"
definition KeyKP_Multiply :: u16 where "KeyKP_Multiply = 0x122"
definition KeyKP_Subtract :: u16 where "KeyKP_Subtract = 0x123"
definition KeyKP_Add :: u16 where "KeyKP_Add = 0x124"
definition KeyKP_Enter :: u16 where "KeyKP_Enter = 0x125"
definition KeyKP_1 :: u16 where "KeyKP_1 = 0x126"
definition KeyKP_2 :: u16 where "KeyKP_2 = 0x127"
definition KeyKP_3 :: u16 where "KeyKP_3 = 0x128"
definition KeyKP_4 :: u16 where "KeyKP_4 = 0x129"
definition KeyKP_5 :: u16 where "KeyKP_5 = 0x12A"
definition KeyKP_6 :: u16 where "KeyKP_6 = 0x12B"
definition KeyKP_7 :: u16 where "KeyKP_7 = 0x12C"
definition KeyKP_8 :: u16 where "KeyKP_8 = 0x12D"
definition KeyKP_9 :: u16 where "KeyKP_9 = 0x12E"
definition KeyKP_0 :: u16 where "KeyKP_0 = 0x12F"
definition KeyKP_Center :: u16 where "KeyKP_Center = 0x130"
definition KeyKP_Comma :: u16 where "KeyKP_Comma = 0x131"
definition KeyKP_Period :: u16 where "KeyKP_Period = 0x132"
definition KeyMaxCode :: u16 where "KeyMaxCode = 0x133"
definition ActionSwitchCapsLock :: u16 where "ActionSwitchCapsLock = 0x133"
definition ActionSwitchNumLock :: u16 where "ActionSwitchNumLock = 0x134"
definition ActionSwitchScrollLock :: u16 where "ActionSwitchScrollLock = 0x135"
definition ActionSelectConsole1 :: u16 where "ActionSelectConsole1 = 0x136"
definition ActionSelectConsole2 :: u16 where "ActionSelectConsole2 = 0x137"
definition ActionSelectConsole3 :: u16 where "ActionSelectConsole3 = 0x138"
definition ActionSelectConsole4 :: u16 where "ActionSelectConsole4 = 0x139"
definition ActionSelectConsole5 :: u16 where "ActionSelectConsole5 = 0x13A"
definition ActionSelectConsole6 :: u16 where "ActionSelectConsole6 = 0x13B"
definition ActionSelectConsole7 :: u16 where "ActionSelectConsole7 = 0x13C"
definition ActionSelectConsole8 :: u16 where "ActionSelectConsole8 = 0x13D"
definition ActionSelectConsole9 :: u16 where "ActionSelectConsole9 = 0x13E"
definition ActionSelectConsole10 :: u16 where "ActionSelectConsole10 = 0x13F"
definition ActionSelectConsole11 :: u16 where "ActionSelectConsole11 = 0x140"
definition ActionSelectConsole12 :: u16 where "ActionSelectConsole12 = 0x141"
definition ActionShutdown :: u16 where "ActionShutdown = 0x142"
definition ActionNone :: u16 where "ActionNone = 0x143"

section \<open>Tables\<close>

definition s_KeyStrings :: "string option list" where
  "s_KeyStrings = [
     Some [CHR 0x20],
     Some [CHR 0x1B],
     Some [CHR 0x7F],
     Some [CHR 0x09],
     Some [CHR 0x0A],
     Some [CHR 0x1B, CHR 0x5B, CHR 0x32, CHR 0x7E],
     Some [CHR 0x1B, CHR 0x5B, CHR 0x31, CHR 0x7E],
     Some [CHR 0x1B, CHR 0x5B, CHR 0x35, CHR 0x7E],
     Some [CHR 0x1B, CHR 0x5B, CHR 0x33, CHR 0x7E],
     Some [CHR 0x1B, CHR 0x5B, CHR 0x34, CHR 0x7E],
     Some [CHR 0x1B, CHR 0x5B, CHR 0x36, CHR 0x7E],
     Some [CHR 0x1B, CHR 0x5B, CHR 0x41],
     Some [CHR 0x1B, CHR 0x5B, CHR 0x42],
     Some [CHR 0x1B, CHR 0x5B, CHR 0x44],
     Some [CHR 0x1B, CHR 0x5B, CHR 0x43],
     Some [CHR 0x1B, CHR 0x5B, CHR 0x5B, CHR 0x41],
     Some [CHR 0x1B, CHR 0x5B, CHR 0x5B, CHR 0x42],
     Some [CHR 0x1B, CHR 0x5B, CHR 0x5B, CHR 0x43],
     Some [CHR 0x1B, CHR 0x5B, CHR 0x5B, CHR 0x44],
     Some [CHR 0x1B, CHR 0x5B, CHR 0x5B, CHR 0x45],
     Some [CHR 0x1B, CHR 0x5B, CHR 0x31, CHR 0x37, CHR 0x7E],
     Some [CHR 0x1B, CHR 0x5B, CHR 0x31, CHR 0x38, CHR 0x7E],
     Some [CHR 0x1B, CHR 0x5B, CHR 0x31, CHR 0x39, CHR 0x7E],
     Some [CHR 0x1B, CHR 0x5B, CHR 0x32, CHR 0x30, CHR 0x7E],
     None,
     None,
     None,
     None,
     None,
     None,
     None,
     None,
     None,
     Some [CHR 0x2F],
     Some [CHR 0x2A],
     Some [CHR 0x2D],
     Some [CHR 0x2B],
     Some [CHR 0x0A],
     Some [CHR 0x31],
     Some [CHR 0x32],
     Some [CHR 0x33],
     Some [CHR 0x34],
     Some [CHR 0x35],
     Some [CHR 0x36],
     Some [CHR 0x37],
     Some [CHR 0x38],
     Some [CHR 0x39],
     Some [CHR 0x30],
     Some [CHR 0x1B, CHR 0x5B, CHR 0x47],
     Some [CHR 0x2C],
     Some [CHR 0x2E]]"

definition s_DefaultMap :: "u16 list list" where
  "s_DefaultMap = [
     [KeyNone, KeyNone, KeyNone, KeyNone],
     [KeyNone, KeyNone, KeyNone, KeyNone],
     [KeyNone, KeyNone, KeyNone, KeyNone],
     [KeyNone, KeyNone, KeyNone, KeyNone],
     [0x61, 0x41, KeyNone, KeyNone],
     [0x62, 0x42, KeyNone, KeyNone],
     [0x63, 0x43, KeyNone, KeyNone],
     [0x64, 0x44, KeyNone, KeyNone],
     [0x65, 0x45, KeyNone, KeyNone],
     [0x66, 0x46, KeyNone, KeyNone],
     [0x67, 0x47, KeyNone, KeyNone],
     [0x68, 0x48, KeyNone, KeyNone],
     [0x69, 0x49, KeyNone, KeyNone],
     [0x6A, 0x4A, KeyNone, KeyNone],
     [0x6B, 0x4B, KeyNone, KeyNone],
     [0x6C, 0x4C, KeyNone, KeyNone],
     [0x6D, 0x4D, KeyNone, KeyNone],
     [0x6E, 0x4E, KeyNone, KeyNone],
     [0x6F, 0x4F, KeyNone, KeyNone],
     [0x70, 0x50, KeyNone, KeyNone],
     [0x71, 0x51, KeyNone, KeyNone],
     [0x72, 0x52, KeyNone, KeyNone],
     [0x73, 0x53, KeyNone, KeyNone],
     [0x74, 0x54, KeyNone, KeyNone],
     [0x75, 0x55, KeyNone, KeyNone],
     [0x76, 0x56, KeyNone, KeyNone],
     [0x77, 0x57, KeyNone, KeyNone],
     [0x78, 0x58, KeyNone, KeyNone],
     [0x79, 0x59, KeyNone, KeyNone],
     [0x7A, 0x5A, KeyNone, KeyNone],
     [0x31, 0x21, KeyNone, KeyNone],
     [0x32, 0x22, KeyNone, KeyNone],
     [0x33, 0xA3, KeyNone, KeyNone],
     [0x34, 0x24, KeyNone, KeyNone],
     [0x35, 0x25, KeyNone, KeyNone],
     [0x36, 0x5E, KeyNone, KeyNone],
     [0x37, 0x26, KeyNone, KeyNone],
     [0x38, 0x2A, KeyNone, KeyNone],
     [0x39, 0x28, KeyNone, KeyNone],
     [0x30, 0x29, KeyNone, KeyNone],
     [KeyReturn, KeyReturn, KeyNone, KeyNone],
     [KeyEscape, KeyEscape, KeyNone, KeyNone],
     [KeyBackspace, KeyBackspace, KeyNone, KeyNone],
     [KeyTabulator, KeyTabulator, KeyNone, KeyNone],
     [KeySpace, KeySpace, KeyNone, KeyNone],
     [0x2D, 0x5F, KeyNone, KeyNone],
     [0x3D, 0x2B, KeyNone, KeyNone],
     [0x5B, 0x7B, KeyNone, KeyNone],
     [0x5D, 0x7D, KeyNone, KeyNone],
     [0x23, 0x7E, KeyNone, KeyNone],
     [0x23, 0x7E, KeyNone, KeyNone],
     [0x3B, 0x3A, KeyNone, KeyNone],
     [0x27, 0x40, KeyNone, KeyNone],
     [0x60, 0xAC, 0x7C, KeyNone],
     [0x2C, 0x3C, KeyNone, KeyNone],
     [0x2E, 0x3E, KeyNone, KeyNone],
     [0x2F, 0x3F, KeyNone, KeyNone],
     [KeyCapsLock, KeyCapsLock, KeyNone, KeyNone],
     [KeyF1, KeyNone, KeyNone, KeyNone],
     [KeyF2, KeyNone, KeyNone, KeyNone],
     [KeyF3, KeyNone, KeyNone, KeyNone],
     [KeyF4, KeyNone, KeyNone, KeyNone],
     [KeyF5, KeyNone, KeyNone, KeyNone],
     [KeyF6, KeyNone, KeyNone, KeyNone],
     [KeyF7, KeyNone, KeyNone, KeyNone],
     [KeyF8, KeyNone, KeyNone, KeyNone],
     [KeyF9, KeyNone, KeyNone, KeyNone],
     [KeyF10, KeyNone, KeyNone, KeyNone],
     [KeyF11, KeyNone, KeyNone, KeyNone],
     [KeyF12, KeyNone, KeyNone, KeyNone],
     [KeyPrintScreen, KeyNone, KeyNone, KeyNone],
     [KeyScrollLock, KeyNone, KeyNone, KeyNone],
     [KeyPause, KeyNone, KeyNone, KeyNone],
     [KeyInsert, KeyNone, KeyNone, KeyNone],
     [KeyHome, KeyNone, KeyNone, KeyNone],
     [KeyPageUp, KeyNone, KeyNone, KeyNone],
     [KeyDelete, KeyNone, KeyNone, KeyNone],
     [KeyEnd, KeyNone, KeyNone, KeyNone],
     [KeyPageDown, KeyNone, KeyNone, KeyNone],
     [KeyRight, KeyNone, KeyNone, KeyNone],
     [KeyLeft, KeyNone, KeyNone, KeyNone],
     [KeyDown, KeyNone, KeyNone, KeyNone],
     [KeyUp, KeyNone, KeyNone, KeyNone],
     [KeyNumLock, KeyNumLock, KeyNone, KeyNone],
     [KeyKP_Divide, KeyKP_Divide, KeyNone, KeyNone],
     [KeyKP_Multiply, KeyKP_Multiply, KeyNone, KeyNone],
     [KeyKP_Subtract, KeyKP_Subtract, KeyNone, KeyNone],
     [KeyKP_Add, KeyKP_Add, KeyNone, KeyNone],
     [KeyKP_Enter, KeyKP_Enter, KeyNone, KeyNone],
     [KeyEnd, KeyKP_1, KeyNone, KeyNone],
     [KeyDown, KeyKP_2, KeyNone, KeyNone],
     [KeyPageDown, KeyKP_3, KeyNone, KeyNone],
     [KeyLeft, KeyKP_4, KeyNone, KeyNone],
     [KeyKP_Center, KeyKP_5, KeyNone, KeyNone],
     [KeyRight, KeyKP_6, KeyNone, KeyNone],
     [KeyHome, KeyKP_7, KeyNone, KeyNone],
     [KeyUp, KeyKP_8, KeyNone, KeyNone],
     [KeyPageUp, KeyKP_9, KeyNone, KeyNone],
     [KeyInsert, KeyKP_0, KeyNone, KeyNone],
     [KeyDelete, KeyKP_Period, KeyNone, KeyNone],
     [0x5C, 0x7C, KeyNone, KeyNone],
     [KeyApplication, KeyApplication, KeyNone, KeyNone],
     [KeyNone, KeyNone, KeyNone, KeyNone],
     [KeyNone, KeyNone, KeyNone, KeyNone],
     [KeyNone, KeyNone, KeyNone, KeyNone],
     [KeyNone, KeyNone, KeyNone, KeyNone],
     [KeyNone, KeyNone, KeyNone, KeyNone],
     [KeyNone, KeyNone, KeyNone, KeyNone],
     [KeyNone, KeyNone, KeyNone, KeyNone],
     [KeyNone, KeyNone, KeyNone, KeyNone],
     [KeyNone, KeyNone, KeyNone, KeyNone],
     [KeyNone, KeyNone, KeyNone, KeyNone],
     [KeyNone, KeyNone, KeyNone, KeyNone],
     [KeyNone, KeyNone, KeyNone, KeyNone],
     [KeyNone, KeyNone, KeyNone, KeyNone],
     [KeyNone, KeyNone, KeyNone, KeyNone],
     [KeyNone, KeyNone, KeyNone, KeyNone],
     [KeyNone, KeyNone, KeyNone, KeyNone],
     [KeyNone, KeyNone, KeyNone, KeyNone],
     [KeyNone, KeyNone, KeyNone, KeyNone],
     [KeyNone, KeyNone, KeyNone, KeyNone],
     [KeyNone, KeyNone, KeyNone, KeyNone],
     [KeyNone, KeyNone, KeyNone, KeyNone],
     [KeyNone, KeyNone, KeyNone, KeyNone],
     [KeyNone, KeyNone, KeyNone, KeyNone],
     [KeyNone, KeyNone, KeyNone, KeyNone],
     [KeyNone, KeyNone, KeyNone, KeyNone],
     [KeyNone, KeyNone, KeyNone, KeyNone]]"

section \<open>The key map\<close>

record TKeyMap =
  km_KeyMap :: "u16 list list"
  km_bCapsLock :: bool
  km_bNumLock :: bool
  km_bScrollLock :: bool

definition km_get :: "u16 list list \<Rightarrow> u8 \<Rightarrow> u8 \<Rightarrow> u16 option" where
  "km_get t nPhyCode nTable = do { row \<leftarrow> array_get t (unat nPhyCode); array_get row (unat nTable) }"

definition km_set :: "u16 list list \<Rightarrow> u8 \<Rightarrow> u8 \<Rightarrow> u16 \<Rightarrow> u16 list list option" where
  "km_set t nPhyCode nTable v = do {
     row \<leftarrow> array_get t (unat nPhyCode);
     row \<leftarrow> array_set row (unat nTable) v;
     array_set t (unat nPhyCode) row }"

definition KeyMap :: TKeyMap where
  "KeyMap = \<lparr>km_KeyMap = s_DefaultMap, km_bCapsLock = False, km_bNumLock = True, km_bScrollLock = False\<rparr>"

text \<open>The loop of \<^verbatim>\<open>KeyMapClearTable\<close>, \<open>n\<close> rows before the end.\<close>

fun clear_column :: "nat \<Rightarrow> u8 \<Rightarrow> u16 list list \<Rightarrow> u16 list list option" where
  "clear_column 0 nTable t = Some t"
| "clear_column (Suc n) nTable t = do {
     t \<leftarrow> km_set t (PHY_MAX_CODE - of_nat n) nTable KeyNone;
     clear_column n nTable t }"

definition KeyMapClearTable :: "TKeyMap \<Rightarrow> u8 \<Rightarrow> (bool \<times> TKeyMap) option" where
  "KeyMapClearTable k nTable =
     (if nTable > K_ALTSHIFTTAB then Some (False, k)
      else do {
        t \<leftarrow> clear_column (unat PHY_MAX_CODE + 1) nTable (km_KeyMap k);
        Some (True, k\<lparr>km_KeyMap := t\<rparr>) })"

definition KeyMapSetEntry :: "TKeyMap \<Rightarrow> u8 \<Rightarrow> u8 \<Rightarrow> u16 \<Rightarrow> (bool \<times> TKeyMap) option" where
  "KeyMapSetEntry k nTable nPhyCode nValue =
     (if nTable > K_ALTSHIFTTAB \<or> nPhyCode = 0 \<or> nPhyCode > PHY_MAX_CODE \<or> nValue \<ge> KeyMaxCode
      then Some (False, k)
      else do {
        t \<leftarrow> km_set (km_KeyMap k) nPhyCode nTable nValue;
        Some (True, k\<lparr>km_KeyMap := t\<rparr>) })"

text \<open>The column \<^verbatim>\<open>KeyMapTranslate\<close> reads.\<close>

definition select_table :: "TKeyMap \<Rightarrow> u8 \<Rightarrow> u8 \<Rightarrow> u8" where
  "select_table k nPhyCode nModifiers =
     (if KEYPAD_FIRST \<le> nPhyCode \<and> nPhyCode \<le> KEYPAD_LAST
      then (if km_bNumLock k then K_SHIFTTAB else K_NORMTAB)
      else if nModifiers AND ALTGR \<noteq> 0
      then (if nModifiers AND (LSHIFT OR RSHIFT) \<noteq> 0 then K_ALTSHIFTTAB else K_ALTTAB)
      else if nModifiers AND (LSHIFT OR RSHIFT) \<noteq> 0 then K_SHIFTTAB
      else K_NORMTAB)"

definition switch_locks :: "TKeyMap \<Rightarrow> u16 \<Rightarrow> u16 \<times> TKeyMap" where
  "switch_locks k nLogCode =
     (if nLogCode = KeyCapsLock then (ActionSwitchCapsLock, k\<lparr>km_bCapsLock := \<not> km_bCapsLock k\<rparr>)
      else if nLogCode = KeyNumLock then (ActionSwitchNumLock, k\<lparr>km_bNumLock := \<not> km_bNumLock k\<rparr>)
      else if nLogCode = KeyScrollLock then (ActionSwitchScrollLock, k\<lparr>km_bScrollLock := \<not> km_bScrollLock k\<rparr>)
      else (nLogCode, k))"

definition KeyMapTranslate :: "TKeyMap \<Rightarrow> u8 \<Rightarrow> u8 \<Rightarrow> (u16 \<times> TKeyMap) option" where
  "KeyMapTranslate k nPhyCode nModifiers =
     (if nPhyCode = 0 \<or> nPhyCode > PHY_MAX_CODE then Some (KeyNone, k)
      else do {
        nLogCodeNorm \<leftarrow> km_get (km_KeyMap k) nPhyCode K_NORMTAB;
        if nLogCodeNorm = KeyDelete \<and> nModifiers AND (LCTRL OR RCTRL) \<noteq> 0 \<and> nModifiers AND ALT \<noteq> 0
        then Some (ActionShutdown, k)
        else if (KeyF1 \<le> nLogCodeNorm \<and> nLogCodeNorm \<le> KeyF12) \<and> nModifiers AND ALT \<noteq> 0
        then Some (ActionSelectConsole1 + (nLogCodeNorm - KeyF1), k)
        else if nModifiers AND (ALT OR LWIN OR RWIN) \<noteq> 0 then Some (KeyNone, k)
        else do {
          nLogCode \<leftarrow> km_get (km_KeyMap k) nPhyCode (select_table k nPhyCode nModifiers);
          Some (switch_locks k nLogCode) } })"

text \<open>
  The string of a key: \<open>None\<close> inside is the null pointer, a list the characters before the terminator.
  Plain \<^verbatim>\<open>char\<close> is unsigned in the AArch64 ABI.
\<close>

definition KeyMapGetString :: "TKeyMap \<Rightarrow> u16 \<Rightarrow> u8 \<Rightarrow> string option option" where
  "KeyMapGetString k nKeyCode nModifiers =
     (if nKeyCode \<le> 0x20 \<or> nKeyCode \<ge> KeyMaxCode then Some None
      else if KeySpace \<le> nKeyCode \<and> nKeyCode < KeyMaxCode
      then array_get s_KeyStrings (unat (nKeyCode - KeySpace))
      else
        let chChar = (ucast nKeyCode :: u8) in
        if nModifiers AND (LCTRL OR RCTRL) \<noteq> 0 then
          (let chChar = chChar - 0x61 in
           if 0 \<le> chChar \<and> chChar \<le> 25 then Some (Some [char_of (unat (chChar + 1))]) else Some None)
        else
          let chChar = (if km_bCapsLock k then
                          (if 0x41 \<le> chChar \<and> chChar \<le> 0x5A then chChar + 0x20
                           else if 0x61 \<le> chChar \<and> chChar \<le> 0x7A then chChar - 0x20
                           else chChar)
                        else chChar)
          in Some (Some [char_of (unat chChar)]))"

definition KeyMapGetLEDStatus :: "TKeyMap \<Rightarrow> u8" where
  "KeyMapGetLEDStatus k =
     (let nResult = (0 :: u8);
          nResult = (if km_bCapsLock k then nResult OR LED_CAPS_LOCK else nResult);
          nResult = (if km_bNumLock k then nResult OR LED_NUM_LOCK else nResult);
          nResult = (if km_bScrollLock k then nResult OR LED_SCROLL_LOCK else nResult)
      in nResult)"

lemmas key_codes =
  KEYPAD_FIRST_def KEYPAD_LAST_def PHY_MAX_CODE_def K_NORMTAB_def K_SHIFTTAB_def K_ALTTAB_def
  K_ALTSHIFTTAB_def KeyNone_def KeySpace_def KeyEscape_def KeyBackspace_def KeyTabulator_def KeyReturn_def
  KeyInsert_def KeyHome_def KeyPageUp_def KeyDelete_def KeyEnd_def KeyPageDown_def KeyUp_def KeyDown_def
  KeyLeft_def KeyRight_def KeyF1_def KeyF2_def KeyF3_def KeyF4_def KeyF5_def KeyF6_def KeyF7_def KeyF8_def
  KeyF9_def KeyF10_def KeyF11_def KeyF12_def KeyApplication_def KeyCapsLock_def KeyPrintScreen_def
  KeyScrollLock_def KeyPause_def KeyNumLock_def KeyKP_Divide_def KeyKP_Multiply_def KeyKP_Subtract_def
  KeyKP_Add_def KeyKP_Enter_def KeyKP_1_def KeyKP_2_def KeyKP_3_def KeyKP_4_def KeyKP_5_def KeyKP_6_def
  KeyKP_7_def KeyKP_8_def KeyKP_9_def KeyKP_0_def KeyKP_Center_def KeyKP_Comma_def KeyKP_Period_def
  KeyMaxCode_def ActionSwitchCapsLock_def ActionSwitchNumLock_def ActionSwitchScrollLock_def
  ActionSelectConsole1_def ActionSelectConsole2_def ActionSelectConsole3_def ActionSelectConsole4_def
  ActionSelectConsole5_def ActionSelectConsole6_def ActionSelectConsole7_def ActionSelectConsole8_def
  ActionSelectConsole9_def ActionSelectConsole10_def ActionSelectConsole11_def ActionSelectConsole12_def
  ActionShutdown_def ActionNone_def

lemmas modifier_codes =
  LCTRL_def LSHIFT_def ALT_def LWIN_def RCTRL_def RSHIFT_def ALTGR_def RWIN_def LED_NUM_LOCK_def
  LED_CAPS_LOCK_def LED_SCROLL_LOCK_def

section \<open>The invariant\<close>

definition km_ok :: "TKeyMap \<Rightarrow> bool" where
  "km_ok k \<longleftrightarrow> length (km_KeyMap k) = unat PHY_MAX_CODE + 1
     \<and> (\<forall>row \<in> set (km_KeyMap k). length row = unat K_ALTSHIFTTAB + 1 \<and> (\<forall>c \<in> set row. c < KeyMaxCode))"

lemma s_DefaultMap_ok:
  "length s_DefaultMap = 128 \<and> (\<forall>row \<in> set s_DefaultMap. length row = 4 \<and> (\<forall>c \<in> set row. c < KeyMaxCode))"
  by code_simp

lemma KeyMap_ok: "km_ok KeyMap"
  using s_DefaultMap_ok by (simp add: km_ok_def KeyMap_def PHY_MAX_CODE_def K_ALTSHIFTTAB_def)

lemma phy_bound: "p \<le> PHY_MAX_CODE \<Longrightarrow> unat p < 128"
  by (simp add: PHY_MAX_CODE_def word_le_nat_alt)

lemma table_bound: "t \<le> K_ALTSHIFTTAB \<Longrightarrow> unat t < 4"
  by (simp add: K_ALTSHIFTTAB_def word_le_nat_alt)

lemma km_dims:
  assumes "km_ok k"
  shows "length (km_KeyMap k) = 128" and "row \<in> set (km_KeyMap k) \<Longrightarrow> length row = 4"
    and "row \<in> set (km_KeyMap k) \<Longrightarrow> c \<in> set row \<Longrightarrow> c < KeyMaxCode"
  using assms by (auto simp: km_ok_def PHY_MAX_CODE_def K_ALTSHIFTTAB_def)

lemma km_get_ok:
  assumes "km_ok k" and "p \<le> PHY_MAX_CODE" and "t \<le> K_ALTSHIFTTAB"
  shows "km_get (km_KeyMap k) p t = Some (km_KeyMap k ! unat p ! unat t)"
    and "km_KeyMap k ! unat p ! unat t < KeyMaxCode"
proof -
  have i: "unat p < length (km_KeyMap k)" using km_dims(1)[OF assms(1)] phy_bound[OF assms(2)] by simp
  then have row: "km_KeyMap k ! unat p \<in> set (km_KeyMap k)" by simp
  with km_dims(2)[OF assms(1)] table_bound[OF assms(3)] have j: "unat t < length (km_KeyMap k ! unat p)" by simp
  from i j show "km_get (km_KeyMap k) p t = Some (km_KeyMap k ! unat p ! unat t)"
    by (simp add: km_get_def array_get_def)
  from km_dims(3)[OF assms(1) row nth_mem[OF j]] show "km_KeyMap k ! unat p ! unat t < KeyMaxCode" .
qed

lemma km_set_ok:
  assumes "km_ok k" and "p \<le> PHY_MAX_CODE" and "t \<le> K_ALTSHIFTTAB" and "v < KeyMaxCode"
  obtains m where "km_set (km_KeyMap k) p t v = Some m" "km_ok (k\<lparr>km_KeyMap := m\<rparr>)"
    "m = (km_KeyMap k)[unat p := (km_KeyMap k ! unat p)[unat t := v]]"
proof
  let ?m = "(km_KeyMap k)[unat p := (km_KeyMap k ! unat p)[unat t := v]]"
  have i: "unat p < length (km_KeyMap k)" using km_dims(1)[OF assms(1)] phy_bound[OF assms(2)] by simp
  then have row: "km_KeyMap k ! unat p \<in> set (km_KeyMap k)" by simp
  with km_dims(2)[OF assms(1)] table_bound[OF assms(3)] have j: "unat t < length (km_KeyMap k ! unat p)" by simp
  from i j show "km_set (km_KeyMap k) p t v = Some ?m"
    by (simp add: km_set_def array_get_def array_set_def)
  have "set ?m \<subseteq> insert ((km_KeyMap k ! unat p)[unat t := v]) (set (km_KeyMap k))"
    by (rule set_update_subset_insert)
  moreover have "set ((km_KeyMap k ! unat p)[unat t := v]) \<subseteq> insert v (set (km_KeyMap k ! unat p))"
    by (rule set_update_subset_insert)
  ultimately show "km_ok (k\<lparr>km_KeyMap := ?m\<rparr>)"
    using assms(1,4) row unfolding km_ok_def by auto
qed (rule refl)

lemma select_table_ok: "select_table k p m \<le> K_ALTSHIFTTAB"
  by (simp add: select_table_def key_codes)

lemma switch_locks_ok:
  assumes "switch_locks k c = (c', k')"
  shows "km_KeyMap k' = km_KeyMap k" and "c < KeyMaxCode \<Longrightarrow> c' < ActionNone"
proof -
  from assms show "km_KeyMap k' = km_KeyMap k" by (auto simp: switch_locks_def split: if_splits)
  have m: "KeyMaxCode < ActionNone" by (simp add: key_codes)
  show "c' < ActionNone" if "c < KeyMaxCode"
    using assms less_trans[OF that m] by (auto simp: switch_locks_def key_codes split: if_splits)
qed

lemma console_range:
  assumes "KeyF1 \<le> c" "c \<le> KeyF12"
  shows "ActionSelectConsole1 + (c - KeyF1) < ActionNone"
    and "ActionSelectConsole1 + (c - KeyF1) - ActionSelectConsole1 < 12"
proof -
  from assms have "0x10F \<le> unat c" "unat c \<le> 0x11A" by (simp_all add: word_le_nat_alt key_codes)
  moreover from assms have "unat (c - KeyF1) = unat c - 0x10F"
    by (subst unat_sub) (simp_all add: key_codes)
  ultimately have u: "unat (c - KeyF1) < 12" by simp
  then have "unat (ActionSelectConsole1 + (c - KeyF1)) = unat ActionSelectConsole1 + unat (c - KeyF1)"
    by (subst unat_plus_if_no_wrap) (simp_all add: key_codes)
  with u show "ActionSelectConsole1 + (c - KeyF1) < ActionNone"
    by (simp add: word_less_nat_alt) (simp add: key_codes)
  from u show "ActionSelectConsole1 + (c - KeyF1) - ActionSelectConsole1 < 12"
    by (simp add: word_less_nat_alt)
qed

text \<open>Every call to the map returns and keeps the invariant.\<close>

definition shutdown_key :: "TKeyMap \<Rightarrow> u8 \<Rightarrow> u8 \<Rightarrow> bool" where
  "shutdown_key k p m \<longleftrightarrow> km_KeyMap k ! unat p ! unat K_NORMTAB = KeyDelete
     \<and> m AND (LCTRL OR RCTRL) \<noteq> 0 \<and> m AND ALT \<noteq> 0"

definition console_key :: "TKeyMap \<Rightarrow> u8 \<Rightarrow> u8 \<Rightarrow> bool" where
  "console_key k p m \<longleftrightarrow> (KeyF1 \<le> km_KeyMap k ! unat p ! unat K_NORMTAB
     \<and> km_KeyMap k ! unat p ! unat K_NORMTAB \<le> KeyF12) \<and> m AND ALT \<noteq> 0"

lemma Translate_eq:
  assumes "km_ok k" and "p \<noteq> 0" and "p \<le> PHY_MAX_CODE"
  shows "KeyMapTranslate k p m = Some (if shutdown_key k p m then (ActionShutdown, k)
      else if console_key k p m
      then (ActionSelectConsole1 + (km_KeyMap k ! unat p ! unat K_NORMTAB - KeyF1), k)
      else if m AND (ALT OR LWIN OR RWIN) \<noteq> 0 then (KeyNone, k)
      else switch_locks k (km_KeyMap k ! unat p ! unat (select_table k p m)))"
proof -
  have l: "K_NORMTAB \<le> K_ALTSHIFTTAB" by (simp add: key_codes)
  have p: "\<not> (p = 0 \<or> PHY_MAX_CODE < p)" using assms(2,3) by auto
  show ?thesis
    unfolding KeyMapTranslate_def if_not_P[OF p] km_get_ok(1)[OF assms(1,3) l] Option.bind.simps
      km_get_ok(1)[OF assms(1,3) select_table_ok] shutdown_key_def[symmetric] console_key_def[symmetric]
    by (cases "shutdown_key k p m"; cases "console_key k p m"; cases "m AND (ALT OR LWIN OR RWIN) = 0") simp_all
qed

lemma Translate_none: "p = 0 \<or> \<not> p \<le> PHY_MAX_CODE \<Longrightarrow> KeyMapTranslate k p m = Some (KeyNone, k)"
  by (auto simp: KeyMapTranslate_def)

lemma Translate_cases:
  assumes "km_ok k"
  obtains (none) "KeyMapTranslate k p m = Some (KeyNone, k)"
    | (shutdown) "KeyMapTranslate k p m = Some (ActionShutdown, k)"
    | (console) c where "KeyMapTranslate k p m = Some (c, k)" "c - ActionSelectConsole1 < 12" "c < ActionNone"
    | (table) c where "KeyMapTranslate k p m = Some (switch_locks k c)" "c < KeyMaxCode"
proof (cases "p = 0 \<or> \<not> p \<le> PHY_MAX_CODE")
  case True
  with none Translate_none show thesis by blast
next
  case False
  then have p: "p \<noteq> 0" "p \<le> PHY_MAX_CODE" by auto
  note tr = Translate_eq[OF assms p, of m]
  consider "shutdown_key k p m" | "\<not> shutdown_key k p m" "console_key k p m"
    | "\<not> shutdown_key k p m" "\<not> console_key k p m" by blast
  then show thesis
  proof cases
    case 1
    with tr shutdown show thesis by simp
  next
    case 2
    with tr console console_range show thesis by (simp add: console_key_def)
  next
    case 3
    with tr none table km_get_ok(2)[OF assms p(2) select_table_ok] show thesis
      by (cases "m AND (ALT OR LWIN OR RWIN) = 0") simp_all
  qed
qed

lemma KeyMapTranslate_ok:
  assumes "km_ok k"
  obtains c k' where "KeyMapTranslate k p m = Some (c, k')" "km_ok k'" "c < ActionNone"
    "km_KeyMap k' = km_KeyMap k"
  using assms
proof (cases rule: Translate_cases[of k p m])
  case none
  with assms that show thesis by (simp add: key_codes)
next
  case shutdown
  with assms that show thesis by (simp add: key_codes)
next
  case (console c)
  with assms that show thesis by blast
next
  case (table c)
  obtain d k' where s: "switch_locks k c = (d, k')" by fastforce
  from switch_locks_ok[OF s] table(2) have "km_KeyMap k' = km_KeyMap k" "d < ActionNone" by simp_all
  moreover from this(1) assms have "km_ok k'" unfolding km_ok_def by simp
  ultimately show thesis using that table(1) s by simp
qed

lemma KeyMapSetEntry_ok:
  assumes "km_ok k"
  obtains b k' where "KeyMapSetEntry k t p v = Some (b, k')" "km_ok k'"
proof (cases "t > K_ALTSHIFTTAB \<or> p = 0 \<or> p > PHY_MAX_CODE \<or> v \<ge> KeyMaxCode")
  case True
  with assms show thesis by (intro that[of False k]) (simp_all add: KeyMapSetEntry_def)
next
  case False
  then have "p \<le> PHY_MAX_CODE" "t \<le> K_ALTSHIFTTAB" "v < KeyMaxCode" by auto
  from km_set_ok[OF assms this] obtain m where
    "km_set (km_KeyMap k) p t v = Some m" "km_ok (k\<lparr>km_KeyMap := m\<rparr>)" by metis
  with False that show thesis by (auto simp: KeyMapSetEntry_def)
qed

lemma clear_column_ok:
  assumes "km_ok k" and "t \<le> K_ALTSHIFTTAB" and "n \<le> 128"
  shows "\<exists>m. clear_column n t (km_KeyMap k) = Some m \<and> km_ok (k\<lparr>km_KeyMap := m\<rparr>)"
  using assms
proof (induction n arbitrary: k)
  case 0
  then show ?case by simp
next
  case (Suc n)
  have "of_nat n \<le> PHY_MAX_CODE"
    using Suc.prems(3) by (simp add: PHY_MAX_CODE_def word_le_nat_alt unat_of_nat_small)
  then have "PHY_MAX_CODE - of_nat n \<le> PHY_MAX_CODE"
    by (simp add: word_sub_le_iff)
  moreover have "KeyNone < KeyMaxCode" by (simp add: key_codes)
  ultimately obtain m where m: "km_set (km_KeyMap k) (PHY_MAX_CODE - of_nat n) t KeyNone = Some m"
      "km_ok (k\<lparr>km_KeyMap := m\<rparr>)"
    using km_set_ok[OF Suc.prems(1) _ Suc.prems(2)] by metis
  from Suc.IH[OF m(2) Suc.prems(2)] Suc.prems(3) m(1) show ?case by simp
qed

lemma KeyMapClearTable_ok:
  assumes "km_ok k"
  obtains b k' where "KeyMapClearTable k t = Some (b, k')" "km_ok k'"
proof (cases "t > K_ALTSHIFTTAB")
  case True
  with assms show thesis by (intro that[of False k]) (simp_all add: KeyMapClearTable_def)
next
  case False
  then have "t \<le> K_ALTSHIFTTAB" by simp
  from clear_column_ok[OF assms this, of 128] False that show thesis
    by (auto simp: KeyMapClearTable_def PHY_MAX_CODE_def)
qed

lemma KeyMapGetString_ok:
  obtains s where "KeyMapGetString k c m = Some s" "\<And>t. s = Some t \<Longrightarrow> t \<noteq> []"
proof -
  have l: "length s_KeyStrings = 51" by (simp add: s_KeyStrings_def)
  have ne: "\<forall>s \<in> set s_KeyStrings. s \<noteq> Some []" by (simp add: s_KeyStrings_def)
  have i: "unat (c - KeySpace) < 51" if "KeySpace \<le> c" "c < KeyMaxCode"
  proof -
    from that have "unat (c - KeySpace) = unat c - 0x100" by (subst unat_sub) (simp_all add: key_codes)
    with that show ?thesis by (simp add: word_less_nat_alt word_le_nat_alt key_codes)
  qed
  show thesis
  proof (cases "KeySpace \<le> c \<and> c < KeyMaxCode")
    case True
    with i l have a: "array_get s_KeyStrings (unat (c - KeySpace)) = Some (s_KeyStrings ! unat (c - KeySpace))"
      by (simp add: array_get_def)
    from True have "\<not> c \<le> 0x20" by (simp add: key_codes word_le_nat_alt)
    moreover from True have "\<not> KeyMaxCode \<le> c" by (simp add: not_le)
    ultimately have "KeyMapGetString k c m = Some (s_KeyStrings ! unat (c - KeySpace))"
      using True a by (simp add: KeyMapGetString_def)
    moreover from ne l i True have "s_KeyStrings ! unat (c - KeySpace) \<noteq> Some []" by (metis nth_mem)
    ultimately show thesis using that by blast
  next
    case False
    have "\<exists>s. KeyMapGetString k c m = Some s \<and> s \<noteq> Some []"
      using False unfolding KeyMapGetString_def Let_def if_not_P[OF False]
      by (cases "c \<le> 0x20 \<or> KeyMaxCode \<le> c"; cases "m AND (LCTRL OR RCTRL) = 0") simp_all
    then show thesis using that by blast
  qed
qed

section \<open>Histories\<close>

datatype km_call = CallSetEntry u8 u8 u16 | CallClearTable u8 | CallTranslate u8 u8

fun km_run :: "km_call \<Rightarrow> TKeyMap \<Rightarrow> TKeyMap option" where
  "km_run (CallSetEntry t p v) k = map_option snd (KeyMapSetEntry k t p v)"
| "km_run (CallClearTable t) k = map_option snd (KeyMapClearTable k t)"
| "km_run (CallTranslate p m) k = map_option snd (KeyMapTranslate k p m)"

fun km_calls :: "km_call list \<Rightarrow> TKeyMap \<Rightarrow> TKeyMap option" where
  "km_calls [] k = Some k"
| "km_calls (c # cs) k = do { k \<leftarrow> km_run c k; km_calls cs k }"

lemma km_run_ok: "km_ok k \<Longrightarrow> \<exists>k'. km_run c k = Some k' \<and> km_ok k'"
proof (cases c)
  case (CallSetEntry t p v)
  assume "km_ok k"
  then show ?thesis by (rule KeyMapSetEntry_ok[of k t p v]) (simp add: CallSetEntry)
next
  case (CallClearTable t)
  assume "km_ok k"
  then show ?thesis by (rule KeyMapClearTable_ok[of k t]) (simp add: CallClearTable)
next
  case (CallTranslate p m)
  assume "km_ok k"
  then show ?thesis by (rule KeyMapTranslate_ok[of k p m]) (simp add: CallTranslate)
qed

lemma km_calls_ok: "km_ok k \<Longrightarrow> \<exists>k'. km_calls cs k = Some k' \<and> km_ok k'"
proof (induction cs arbitrary: k)
  case Nil
  then show ?case by simp
next
  case (Cons c cs)
  from km_run_ok[OF Cons.prems, of c] obtain k1 where "km_run c k = Some k1" "km_ok k1" by blast
  with Cons.IH show ?case by simp
qed

text \<open>
  After any sequence of calls to the key map, starting from the constructor, no call has
  accessed memory outside the table, and for every physical code and every modifier byte the next translation
  returns a code of the two enumerations, for which a string lookup returns as well, with a null
  pointer or a non-empty string.
\<close>

theorem keymap_total:
  "\<exists>k c k' s. km_calls cs KeyMap = Some k \<and> KeyMapTranslate k p m = Some (c, k') \<and> c < ActionNone
     \<and> KeyMapGetString k' c m = Some s \<and> s \<noteq> Some []"
proof -
  from km_calls_ok[OF KeyMap_ok] obtain k where k: "km_calls cs KeyMap = Some k" "km_ok k" by blast
  from k(2) obtain c k' where t: "KeyMapTranslate k p m = Some (c, k')" "c < ActionNone"
    by (rule KeyMapTranslate_ok[of _ p m])
  obtain s where "KeyMapGetString k' c m = Some s" "s \<noteq> Some []" by (metis KeyMapGetString_ok)
  with k t show ?thesis by blast
qed

section \<open>What is entered is found\<close>

text \<open>
  The meaning of a key by the table: no modifier that overrides the table (Alt, Windows) is held.
\<close>

definition table_key :: "u8 \<Rightarrow> u8 \<Rightarrow> bool" where
  "table_key p m \<longleftrightarrow> p \<noteq> 0 \<and> p \<le> PHY_MAX_CODE \<and> m AND (ALT OR LWIN OR RWIN) = 0"

lemma no_alt: "m AND ALT = 0" if "m AND (ALT OR LWIN OR RWIN) = 0" for m
proof -
  have "ALT = (ALT OR LWIN OR RWIN) AND ALT" by (simp add: modifier_codes)
  then show ?thesis using that by (metis and.assoc and_zero_eq bit.conj_zero_left)
qed

lemma Translate_table_key:
  assumes "km_ok k" and "table_key p m"
  shows "KeyMapTranslate k p m = Some (switch_locks k (km_KeyMap k ! unat p ! unat (select_table k p m)))"
proof -
  from assms(2) have p: "p \<noteq> 0" "p \<le> PHY_MAX_CODE" "\<not> PHY_MAX_CODE < p" and m: "m AND (ALT OR LWIN OR RWIN) = 0"
    by (auto simp: table_key_def)
  from no_alt[OF m] m show ?thesis
    unfolding Translate_eq[OF assms(1) p(1,2)] by (simp add: shutdown_key_def console_key_def)
qed

text \<open>
  What \<^verbatim>\<open>KeyMapSetEntry\<close> accepts is what \<^verbatim>\<open>KeyMapTranslate\<close> finds: after the call, the key with
  that physical code translates to the entered code (or to the action of a lock key) exactly under
  those modifiers and lock states that select the column entered, and every other key under every
  modifier means what it did before.  The call accepts exactly the entries inside the table.
\<close>

theorem keymap_set_translate:
  assumes "km_calls cs KeyMap = Some k" and "KeyMapSetEntry k t p v = Some (b, k')" and "table_key q m"
  shows "(b \<longleftrightarrow> t \<le> K_ALTSHIFTTAB \<and> p \<noteq> 0 \<and> p \<le> PHY_MAX_CODE \<and> v < KeyMaxCode)
     \<and> map_option fst (KeyMapTranslate k' q m)
         = (if b \<and> q = p \<and> select_table k q m = t then Some (fst (switch_locks k v))
            else map_option fst (KeyMapTranslate k q m))"
proof -
  from km_calls_ok[OF KeyMap_ok, of cs] assms(1) have k: "km_ok k" by simp
  from KeyMapSetEntry_ok[OF k, of t p v] assms(2) have k': "km_ok k'" by (metis Pair_inject option.inject)
  have b: "b \<longleftrightarrow> t \<le> K_ALTSHIFTTAB \<and> p \<noteq> 0 \<and> p \<le> PHY_MAX_CODE \<and> v < KeyMaxCode"
    using assms(2) by (auto simp: KeyMapSetEntry_def bind_Some_iff split: if_splits)
  note tr = Translate_table_key[OF k assms(3)] Translate_table_key[OF k' assms(3)]
  show ?thesis
  proof (cases b)
    case False
    with assms(2) have "k' = k" by (auto simp: KeyMapSetEntry_def bind_Some_iff split: if_splits)
    with False b show ?thesis by (simp only: if_False simp_thms)
  next
    case True
    with b have in_range: "p \<le> PHY_MAX_CODE" "t \<le> K_ALTSHIFTTAB" "v < KeyMaxCode" "p \<noteq> 0" by auto
    from km_set_ok[OF k in_range(1-3)] have
      "km_set (km_KeyMap k) p t v = Some ((km_KeyMap k)[unat p := (km_KeyMap k ! unat p)[unat t := v]])" by metis
    with assms(2) in_range
    have k'_eq: "k' = k\<lparr>km_KeyMap := (km_KeyMap k)[unat p := (km_KeyMap k ! unat p)[unat t := v]]\<rparr>"
      by (auto simp: KeyMapSetEntry_def split: if_splits)
    have sel: "select_table k' q m = select_table k q m" by (simp add: k'_eq select_table_def)
    have sw: "fst (switch_locks k' c) = fst (switch_locks k c)" for c by (simp add: k'_eq switch_locks_def)
    have i: "unat p < length (km_KeyMap k)" using km_dims(1)[OF k] phy_bound[OF in_range(1)] by simp
    with km_dims(2)[OF k] table_bound[OF in_range(2)] have j: "unat t < length (km_KeyMap k ! unat p)" by simp
    have "km_KeyMap k' ! unat q ! unat (select_table k q m)
        = (if q = p \<and> select_table k q m = t then v else km_KeyMap k ! unat q ! unat (select_table k q m))"
      using i j by (cases "q = p"; cases "select_table k q m = t") (simp_all add: k'_eq word_unat_eq_iff)
    then have "map_option fst (KeyMapTranslate k' q m)
        = (if q = p \<and> select_table k q m = t then Some (fst (switch_locks k v)) else map_option fst (KeyMapTranslate k q m))"
      unfolding tr sel option.map(2) sw by (simp only: split: if_split) blast
    with b show ?thesis by (simp only: True simp_thms)
  qed
qed

lemma keymap_set_translate_witness:
  "\<exists>k. km_calls [CallTranslate 0x39 0] KeyMap = Some k \<and> map_option fst (KeyMapSetEntry k 1 4 0x21) = Some True
     \<and> table_key 4 LSHIFT"
proof -
  obtain k b k' where k: "km_calls [CallTranslate 0x39 0] KeyMap = Some k" and b: "KeyMapSetEntry k 1 4 0x21 = Some (b, k')"
    using km_calls_ok[OF KeyMap_ok, of "[CallTranslate 0x39 0]"] KeyMapSetEntry_ok by metis
  have q: "table_key 4 LSHIFT" by (simp add: table_key_def modifier_codes PHY_MAX_CODE_def)
  from keymap_set_translate[OF k b q] have "b = True" by (simp add: key_codes)
  with b have "map_option fst (KeyMapSetEntry k 1 4 0x21) = Some True" by simp
  with k q show ?thesis by blast
qed

text \<open>
  The three lock states change only by their keys: a translation toggles the LED bit of the lock whose
  action it returns, and no other; translating any other key leaves the map as it was.
\<close>

theorem keymap_lock_leds:
  assumes "km_calls cs KeyMap = Some k" and "KeyMapTranslate k p m = Some (c, k')"
  shows "KeyMapGetLEDStatus k' = KeyMapGetLEDStatus k XOR
       (if c = ActionSwitchCapsLock then LED_CAPS_LOCK
        else if c = ActionSwitchNumLock then LED_NUM_LOCK
        else if c = ActionSwitchScrollLock then LED_SCROLL_LOCK else 0)
     \<and> (c \<notin> {ActionSwitchCapsLock, ActionSwitchNumLock, ActionSwitchScrollLock} \<longrightarrow> k' = k)"
proof -
  from km_calls_ok[OF KeyMap_ok, of cs] assms(1) have k: "km_ok k" by simp
  let ?A = "{ActionSwitchCapsLock, ActionSwitchNumLock, ActionSwitchScrollLock}"
  have outside: "KeyNone \<notin> ?A" "ActionShutdown \<notin> ?A" "c < KeyMaxCode \<Longrightarrow> c \<notin> ?A"
    "c - ActionSelectConsole1 < 12 \<Longrightarrow> c \<notin> ?A" for c
    by (auto simp: key_codes)
  from k show ?thesis
  proof (cases rule: Translate_cases[of k p m])
    case (table d)
    with assms(2) outside(3)[of d] show ?thesis
      by (cases "km_bCapsLock k"; cases "km_bNumLock k"; cases "km_bScrollLock k")
        (auto simp: switch_locks_def KeyMapGetLEDStatus_def modifier_codes key_codes split: if_splits)
  qed (use assms(2) outside in auto)
qed

definition press_caps_lock :: "(u16 \<times> TKeyMap) option" where
  "press_caps_lock = KeyMapTranslate KeyMap 0x39 0"

lemma keymap_lock_leds_witness:
  "\<exists>k'. press_caps_lock = Some (ActionSwitchCapsLock, k') \<and> KeyMapGetLEDStatus k' = LED_CAPS_LOCK OR LED_NUM_LOCK"
proof -
  have 1: "km_calls [] KeyMap = Some KeyMap" by simp
  have "map_option fst press_caps_lock = Some ActionSwitchCapsLock" unfolding press_caps_lock_def by code_simp
  then obtain k' where 2: "KeyMapTranslate KeyMap 0x39 0 = Some (ActionSwitchCapsLock, k')"
    by (auto simp: press_caps_lock_def)
  from keymap_lock_leds[OF 1 2] 2 show ?thesis
    by (simp add: press_caps_lock_def KeyMapGetLEDStatus_def KeyMap_def modifier_codes)
qed

end
