(* ===== verification/Keyboard.thy ===== *)
theory Keyboard
  imports HidDevice KeyMap
begin

text \<open>
  The keyboard driver (\<^verbatim>\<open>lib/usbkeyboard.c\<close>, boot protocol, compiled without \<^verbatim>\<open>REPEAT_ENABLE\<close>): configuration,
  the completion routine that turns reports into key events, and the LEDs.

  The results: the calls to the handlers of the application are a function of the sequence of reports, in which a
  failed or short transfer does not count; a key that stays down is reported once; configuration registers
  the device only after the endpoint was found and the device accepted the boot protocol.
\<close>

unbundle bit_operations_syntax

section \<open>The device\<close>

definition BOOT_REPORT_SIZE :: u32 where "BOOT_REPORT_SIZE = 8"

record TUSBKeyboardDevice =
  kb_USBFunction :: TUSBFunction
  kb_pReportEndpoint :: "addr option"
  kb_pKeyPressedHandler :: "addr option"
  kb_pSelectConsoleHandler :: "addr option"
  kb_pShutdownHandler :: "addr option"
  kb_pKeyStatusHandlerRaw :: "addr option"
  kb_URB :: addr
  kb_pReportBuffer :: uintptr
  kb_ucLastPhyCode :: u8
  kb_hTimer :: u32
  kb_KeyMap :: TKeyMap
  kb_ucLastLEDStatus :: u8

text \<open>Calls to registered handlers.\<close>

datatype keyboard_call =
    KeyPressed addr string
  | SelectConsole addr u32
  | Shutdown addr
  | KeyStatusRaw addr u8 "u8 list"

text \<open>The report buffer is the block \<open>pReportBuffer\<close> that \<^verbatim>\<open>malloc\<close> returns; \<open>u\<close> is where the request block of the object lives.\<close>

definition USBKeyboardDevice :: "TUSBFunction \<Rightarrow> addr \<Rightarrow> uintptr \<Rightarrow> TUSBKeyboardDevice option" where
  "USBKeyboardDevice pDevice u pReportBuffer = do {
     f \<leftarrow> USBFunctionCopy pDevice;
     c_assert (pReportBuffer \<noteq> 0);
     Some \<lparr>kb_USBFunction = f\<lparr>fn_Configure := Some KeyboardConfigure\<rparr>, kb_pReportEndpoint = None,
       kb_pKeyPressedHandler = None, kb_pSelectConsoleHandler = None, kb_pShutdownHandler = None,
       kb_pKeyStatusHandlerRaw = None, kb_URB = u, kb_pReportBuffer = pReportBuffer, kb_ucLastPhyCode = 0,
       kb_hTimer = 0, kb_KeyMap = KeyMap, kb_ucLastLEDStatus = 0\<rparr> }"

definition CUSBKeyboardDevice_dtor ::
    "TUSBKeyboardDevice \<Rightarrow> 'a io_world_scheme \<Rightarrow> (TUSBKeyboardDevice \<times> 'a io_world_scheme) option" where
  "CUSBKeyboardDevice_dtor d w = do {
     let d = d\<lparr>kb_pReportBuffer := 0\<rparr>;
     w \<leftarrow> (case kb_pReportEndpoint d of None \<Rightarrow> Some w | Some a \<Rightarrow> free_endpoint a w);
     f \<leftarrow> USBFunction_dtor (kb_USBFunction d);
     Some (d\<lparr>kb_pReportEndpoint := None, kb_USBFunction := f\<rparr>, w) }"

definition USBKeyboardDeviceRegisterKeyPressedHandler ::
    "TUSBKeyboardDevice \<Rightarrow> addr option \<Rightarrow> TUSBKeyboardDevice option" where
  "USBKeyboardDeviceRegisterKeyPressedHandler d h = do {
     c_assert (h \<noteq> None); Some (d\<lparr>kb_pKeyPressedHandler := h\<rparr>) }"

definition USBKeyboardDeviceRegisterSelectConsoleHandler ::
    "TUSBKeyboardDevice \<Rightarrow> addr option \<Rightarrow> TUSBKeyboardDevice option" where
  "USBKeyboardDeviceRegisterSelectConsoleHandler d h = do {
     c_assert (h \<noteq> None); Some (d\<lparr>kb_pSelectConsoleHandler := h\<rparr>) }"

definition USBKeyboardDeviceRegisterShutdownHandler ::
    "TUSBKeyboardDevice \<Rightarrow> addr option \<Rightarrow> TUSBKeyboardDevice option" where
  "USBKeyboardDeviceRegisterShutdownHandler d h = do {
     c_assert (h \<noteq> None); Some (d\<lparr>kb_pShutdownHandler := h\<rparr>) }"

definition USBKeyboardDeviceRegisterKeyStatusHandlerRaw ::
    "TUSBKeyboardDevice \<Rightarrow> addr option \<Rightarrow> TUSBKeyboardDevice option" where
  "USBKeyboardDeviceRegisterKeyStatusHandlerRaw d h = do {
     c_assert (h \<noteq> None); Some (d\<lparr>kb_pKeyStatusHandlerRaw := h\<rparr>) }"

section \<open>LEDs\<close>

text \<open>The byte to send is a local variable; a failure is logged only.\<close>

definition USBKeyboardDeviceSetLEDs ::
    "'a io_world_scheme driver_code \<Rightarrow> locals \<Rightarrow> TUSBKeyboardDevice \<Rightarrow> u8 \<Rightarrow> 'a io_world_scheme
     \<Rightarrow> 'a io_world_scheme option" where
  "USBKeyboardDeviceSetLEDs drv l d ucLEDMask w = do {
     let w = w\<lparr>w_mem := mem_write (loc_cmd l) [ucLEDMask] (w_mem w)\<rparr>;
     _ \<leftarrow> USBFunctionGetHost (w_store w) (kb_USBFunction d);
     ep0 \<leftarrow> USBFunctionGetEndpoint0 (w_store w) (kb_USBFunction d);
     bInterfaceNumber \<leftarrow> USBFunctionGetInterfaceNumber (kb_USBFunction d);
     (n, w) \<leftarrow> usb_control_data drv l (Some ep0) (REQUEST_OUT OR REQUEST_CLASS OR REQUEST_TO_INTERFACE) SET_REPORT
                 (push_bit 8 REPORT_TYPE_OUTPUT OR 0) (ucast bInterfaceNumber) (loc_cmd l) 1 w;
     Some w }"

definition USBKeyboardDeviceUpdateLEDs ::
    "'a io_world_scheme driver_code \<Rightarrow> locals \<Rightarrow> TUSBKeyboardDevice \<Rightarrow> 'a io_world_scheme
     \<Rightarrow> (TUSBKeyboardDevice \<times> 'a io_world_scheme) option" where
  "USBKeyboardDeviceUpdateLEDs drv l d w =
     (let ucLEDStatus = KeyMapGetLEDStatus (kb_KeyMap d) in
      if ucLEDStatus \<noteq> kb_ucLastLEDStatus d then do {
        w \<leftarrow> USBKeyboardDeviceSetLEDs drv l d ucLEDStatus w;
        Some (d\<lparr>kb_ucLastLEDStatus := ucLEDStatus\<rparr>, w) }
      else Some (d, w))"

section \<open>Reports\<close>

definition report_byte :: "uintptr \<Rightarrow> nat \<Rightarrow> mem \<Rightarrow> u8 option" where
  "report_byte p i m = (if p = 0 then None else Some (m (p + of_nat i)))"

definition USBKeyboardDeviceGetModifiers :: "TUSBKeyboardDevice \<Rightarrow> mem \<Rightarrow> u8 option" where
  "USBKeyboardDeviceGetModifiers d m = report_byte (kb_pReportBuffer d) 0 m"

text \<open>The loop from byte 7 down to byte 2.\<close>

fun scan_keys :: "uintptr \<Rightarrow> mem \<Rightarrow> nat \<Rightarrow> u8 option" where
  "scan_keys p m i =
     (if i \<ge> 2 then do {
        ucKeyCode \<leftarrow> report_byte p i m;
        if ucKeyCode \<noteq> 0 then Some ucKeyCode else scan_keys p m (i - 1) }
      else Some 0)"

declare scan_keys.simps [simp del]

definition USBKeyboardDeviceGetKeyCode :: "TUSBKeyboardDevice \<Rightarrow> mem \<Rightarrow> u8 option" where
  "USBKeyboardDeviceGetKeyCode d m = scan_keys (kb_pReportBuffer d) m 7"

definition USBKeyboardDeviceGenerateKeyEvent ::
    "TUSBKeyboardDevice \<Rightarrow> u8 \<Rightarrow> mem \<Rightarrow> (TUSBKeyboardDevice \<times> keyboard_call list) option" where
  "USBKeyboardDeviceGenerateKeyEvent d ucPhyCode m = do {
     ucModifiers \<leftarrow> USBKeyboardDeviceGetModifiers d m;
     (usLogCode, km) \<leftarrow> KeyMapTranslate (kb_KeyMap d) ucPhyCode ucModifiers;
     let d = d\<lparr>kb_KeyMap := km\<rparr>;
     if usLogCode = ActionSwitchCapsLock \<or> usLogCode = ActionSwitchNumLock \<or> usLogCode = ActionSwitchScrollLock
     then Some (d, [])
     else if ActionSelectConsole1 \<le> usLogCode \<and> usLogCode \<le> ActionSelectConsole12
     then (case kb_pSelectConsoleHandler d of None \<Rightarrow> Some (d, [])
           | Some h \<Rightarrow> do {
               let nConsole = (ucast (usLogCode - ActionSelectConsole1) :: u32);
               c_assert (nConsole < 12);
               Some (d, [SelectConsole h nConsole]) })
     else if usLogCode = ActionShutdown
     then (case kb_pShutdownHandler d of None \<Rightarrow> Some (d, []) | Some h \<Rightarrow> Some (d, [Shutdown h]))
     else do {
       pKeyString \<leftarrow> KeyMapGetString (kb_KeyMap d) usLogCode ucModifiers;
       Some (d, case (pKeyString, kb_pKeyPressedHandler d) of
                  (Some s, Some h) \<Rightarrow> [KeyPressed h s]
                | _ \<Rightarrow> []) } }"

section \<open>Requests\<close>

definition USBKeyboardDeviceStartRequest ::
    "uintptr \<Rightarrow> TUSBKeyboardDevice \<Rightarrow> 'a io_world_scheme \<Rightarrow> (bool \<times> 'a io_world_scheme) option" where
  "USBKeyboardDeviceStartRequest pThis d w =
     start_report_request 1 (kb_USBFunction d) (kb_URB d) pThis (kb_pReportEndpoint d) (kb_pReportBuffer d)
       BOOT_REPORT_SIZE w"

text \<open>The part of the completion routine that looks at a report of the right size.\<close>

definition handle_report ::
    "TUSBKeyboardDevice \<Rightarrow> 'a io_world_scheme
     \<Rightarrow> (TUSBKeyboardDevice \<times> keyboard_call list \<times> 'a io_world_scheme) option" where
  "handle_report d w =
     (case kb_pKeyStatusHandlerRaw d of
        Some h \<Rightarrow> do {
          ucModifiers \<leftarrow> USBKeyboardDeviceGetModifiers d (w_mem w);
          Some (d, [KeyStatusRaw h ucModifiers (mem_read (kb_pReportBuffer d + 2) 6 (w_mem w))], w) }
      | None \<Rightarrow> do {
          ucPhyCode \<leftarrow> USBKeyboardDeviceGetKeyCode d (w_mem w);
          let (ucPhyCode, d) = (if ucPhyCode = kb_ucLastPhyCode d then (0, d)
                                else (ucPhyCode, d\<lparr>kb_ucLastPhyCode := ucPhyCode\<rparr>));
          if ucPhyCode \<noteq> 0 then do {
            (d, cs) \<leftarrow> USBKeyboardDeviceGenerateKeyEvent d ucPhyCode (w_mem w);
            Some (d, cs, w) }
          else if kb_hTimer d \<noteq> 0 then do {
            t \<leftarrow> TimerCancelKernelTimer (w_timer w) (kb_hTimer d);
            Some (d\<lparr>kb_hTimer := 0\<rparr>, [], w\<lparr>w_timer := t\<rparr>) }
          else Some (d, [], w) })"

definition USBKeyboardDeviceCompletionRoutine ::
    "addr \<Rightarrow> uintptr \<Rightarrow> TUSBKeyboardDevice \<Rightarrow> 'a io_world_scheme
     \<Rightarrow> (TUSBKeyboardDevice \<times> keyboard_call list \<times> 'a io_world_scheme) option" where
  "USBKeyboardDeviceCompletionRoutine pURB pThis d w = do {
     c_assert (kb_URB d = pURB);
     n \<leftarrow> request_length pURB w;
     (d, cs, w) \<leftarrow> (if n = Some BOOT_REPORT_SIZE then handle_report d w else Some (d, [], w));
     w \<leftarrow> end_request (kb_URB d) w;
     (_, w) \<leftarrow> USBKeyboardDeviceStartRequest pThis d w;
     Some (d, cs, w) }"

definition USBKeyboardDeviceConfigure ::
    "'a io_world_scheme driver_code \<Rightarrow> locals \<Rightarrow> addr \<Rightarrow> uintptr \<Rightarrow> TUSBKeyboardDevice \<Rightarrow> 'a io_world_scheme
     \<Rightarrow> (bool \<times> TUSBKeyboardDevice \<times> 'a io_world_scheme) option" where
  "USBKeyboardDeviceConfigure drv l ref pThis d w = do {
     nEndpoints \<leftarrow> USBFunctionGetNumEndpoints (kb_USBFunction d);
     if nEndpoints < 1 then do { _ \<leftarrow> USBFunctionConfigurationError (kb_USBFunction d); Some (False, d, w) }
     else do {
       (pReportEndpoint, f, w) \<leftarrow> find_report_endpoint (kb_pReportEndpoint d) (kb_USBFunction d) w;
       let d = d\<lparr>kb_USBFunction := f, kb_pReportEndpoint := pReportEndpoint\<rparr>;
       if kb_pReportEndpoint d = None
       then do { _ \<leftarrow> USBFunctionConfigurationError (kb_USBFunction d); Some (False, d, w) }
       else do {
         (ok, w) \<leftarrow> USBFunctionConfigure drv l (kb_USBFunction d) w;
         if \<not> ok then Some (False, d, w)
         else do {
           (n, w) \<leftarrow> set_boot_protocol drv l (kb_USBFunction d) w;
           if n < 0 then Some (False, d, w)
           else do {
             w \<leftarrow> USBKeyboardDeviceSetLEDs drv l d (kb_ucLastLEDStatus d) w;
             w \<leftarrow> register_device KeyboardConfigure ''ukbd%u'' ref False w;
             (ok, w) \<leftarrow> USBKeyboardDeviceStartRequest pThis d w;
             Some (ok, d, w) } } } } }"

section \<open>What a report means\<close>

text \<open>The invariant: the buffer is there, the key map is well-formed, and the repeat timer is not in use.\<close>

definition kbd_ok :: "TUSBKeyboardDevice \<Rightarrow> bool" where
  "kbd_ok d \<longleftrightarrow> kb_pReportBuffer d \<noteq> 0 \<and> km_ok (kb_KeyMap d) \<and> kb_hTimer d = 0"

text \<open>The key of a boot report: the last of its six key codes that is not zero.\<close>

definition key_code :: "u8 list \<Rightarrow> u8" where
  "key_code rep = (case find (\<lambda>c. c \<noteq> 0) (rev (drop 2 rep)) of None \<Rightarrow> 0 | Some c \<Rightarrow> c)"

text \<open>What a press of a key does: a console or shutdown key calls its handler, any other key with a string the key handler.\<close>

definition key_calls :: "TUSBKeyboardDevice \<Rightarrow> u16 \<Rightarrow> string option \<Rightarrow> keyboard_call list" where
  "key_calls d code s =
     (if ActionSelectConsole1 \<le> code \<and> code \<le> ActionSelectConsole12
      then List.map (\<lambda>h. SelectConsole h (ucast (code - ActionSelectConsole1))) (case kb_pSelectConsoleHandler d of None \<Rightarrow> [] | Some h \<Rightarrow> [h])
      else if code = ActionShutdown then List.map Shutdown (case kb_pShutdownHandler d of None \<Rightarrow> [] | Some h \<Rightarrow> [h])
      else case (s, kb_pKeyPressedHandler d) of (Some s, Some h) \<Rightarrow> [KeyPressed h s] | _ \<Rightarrow> [])"

definition key_event :: "TUSBKeyboardDevice \<Rightarrow> u8 \<Rightarrow> u8 \<Rightarrow> TUSBKeyboardDevice \<times> keyboard_call list" where
  "key_event d c m = (case KeyMapTranslate (kb_KeyMap d) c m of None \<Rightarrow> (d, [])
     | Some (code, km) \<Rightarrow> (d\<lparr>kb_KeyMap := km\<rparr>,
         key_calls d code (case KeyMapGetString km code m of None \<Rightarrow> None | Some s \<Rightarrow> s)))"

definition kbd_process :: "TUSBKeyboardDevice \<Rightarrow> u8 list option \<Rightarrow> TUSBKeyboardDevice \<times> keyboard_call list" where
  "kbd_process d r =
     (case r of None \<Rightarrow> (d, [])
      | Some rep \<Rightarrow>
        if length rep \<noteq> 8 then (d, [])
        else case kb_pKeyStatusHandlerRaw d of
          Some h \<Rightarrow> (d, [KeyStatusRaw h (rep ! 0) (drop 2 rep)])
        | None \<Rightarrow>
            if key_code rep = kb_ucLastPhyCode d then (d, [])
            else let d = d\<lparr>kb_ucLastPhyCode := key_code rep\<rparr> in
              if key_code rep = 0 then (d, []) else key_event d (key_code rep) (rep ! 0))"

lemma key_code_scan:
  assumes "p \<noteq> 0"
  shows "scan_keys p m 7 = Some (key_code (mem_read p 8 m))"
proof -
  have r: "mem_read p 8 m = [m p, m (p + 1), m (p + 2), m (p + 3), m (p + 4), m (p + 5), m (p + 6), m (p + 7)]"
    by (simp add: numeral_eq_Suc add.assoc)
  show ?thesis
    using assms unfolding r
    by (simp add: key_code_def scan_keys.simps report_byte_def)
qed

lemmas event_defs = USBKeyboardDeviceGenerateKeyEvent_def USBKeyboardDeviceGetModifiers_def report_byte_def
  key_event_def key_calls_def

lemma GenerateKeyEvent_eq:
  assumes "kbd_ok d"
  shows "USBKeyboardDeviceGenerateKeyEvent d c m = Some (key_event d c (m (kb_pReportBuffer d)))"
    and "km_ok (kb_KeyMap (fst (key_event d c u)))"
proof -
  from assms have k: "km_ok (kb_KeyMap d)" and p: "kb_pReportBuffer d \<noteq> 0" by (simp_all add: kbd_ok_def)
  from k obtain code km where t: "KeyMapTranslate (kb_KeyMap d) c (m (kb_pReportBuffer d)) = Some (code, km)"
    "code < ActionNone" by (rule KeyMapTranslate_ok)
  obtain s where s: "KeyMapGetString km code (m (kb_pReportBuffer d)) = Some s"
    by (rule KeyMapGetString_ok)
  have lock: "s = None \<and> \<not> ActionSelectConsole1 \<le> code \<and> code \<noteq> ActionShutdown"
    if "code = ActionSwitchCapsLock \<or> code = ActionSwitchNumLock \<or> code = ActionSwitchScrollLock"
    using that s by (elim disjE) (simp_all add: KeyMapGetString_def key_codes)
  have con: "(ucast (code - ActionSelectConsole1) :: u32) < 12"
    if "ActionSelectConsole1 \<le> code" "code \<le> ActionSelectConsole12"
  proof -
    from that have "unat (code - ActionSelectConsole1) = unat code - unat ActionSelectConsole1" by (simp add: unat_sub)
    with that have "unat (code - ActionSelectConsole1) < 12" by (simp add: word_le_nat_alt key_codes)
    then show ?thesis by (simp add: word_less_nat_alt unat_ucast_up)
  qed
  show "USBKeyboardDeviceGenerateKeyEvent d c m = Some (key_event d c (m (kb_pReportBuffer d)))"
  proof (cases "code = ActionSwitchCapsLock \<or> code = ActionSwitchNumLock \<or> code = ActionSwitchScrollLock")
    case True
    with lock[OF True] p t s show ?thesis
      by (simp add: event_defs)
  next
    case False
    then have nolock: "(code = ActionSwitchCapsLock \<or> code = ActionSwitchNumLock \<or> code = ActionSwitchScrollLock) = False"
      by simp
    consider "ActionSelectConsole1 \<le> code \<and> code \<le> ActionSelectConsole12"
      | "\<not> (ActionSelectConsole1 \<le> code \<and> code \<le> ActionSelectConsole12)" by blast
    then show ?thesis
    proof cases
      case 1
      with con p t s nolock show ?thesis
        by (cases "kb_pSelectConsoleHandler d") (simp_all add: event_defs)
    next
      case 2
      with p t s nolock show ?thesis
        by (cases "code = ActionShutdown"; cases "kb_pShutdownHandler d"; cases "kb_pKeyPressedHandler d"; cases s)
          (auto simp: event_defs Let_def)
    qed
  qed
  from k obtain code2 km2 where "KeyMapTranslate (kb_KeyMap d) c u = Some (code2, km2)" "km_ok km2"
    by (rule KeyMapTranslate_ok)
  then show "km_ok (kb_KeyMap (fst (key_event d c u)))" by (simp add: key_event_def)
qed

lemma key_event_frame:
  assumes "key_event d c m = (d', cs)"
  shows "kb_URB d' = kb_URB d" "kb_pReportBuffer d' = kb_pReportBuffer d" "kb_hTimer d' = kb_hTimer d"
    "kb_ucLastPhyCode d' = kb_ucLastPhyCode d" "kb_pKeyStatusHandlerRaw d' = kb_pKeyStatusHandlerRaw d"
  using assms by (auto simp: key_event_def split: option.splits)

lemma kbd_process_cases:
  assumes "kbd_process d r = (d', cs)"
  obtains "d' = d" | c where "d' = d\<lparr>kb_ucLastPhyCode := c\<rparr>"
    | c m where "key_event (d\<lparr>kb_ucLastPhyCode := c\<rparr>) c m = (d', cs)"
  using assms by (auto simp: kbd_process_def Let_def split: option.splits if_splits)

lemma kbd_process_keeps:
  assumes "kbd_ok d" and "kbd_process d r = (d', cs)"
  shows "kbd_ok d' \<and> kb_URB d' = kb_URB d \<and> kb_pReportBuffer d' = kb_pReportBuffer d
    \<and> kb_pKeyStatusHandlerRaw d' = kb_pKeyStatusHandlerRaw d"
  using assms(2)
proof (cases rule: kbd_process_cases)
  case 1
  with assms(1) show ?thesis by simp
next
  case (2 c)
  with assms(1) show ?thesis by (simp add: kbd_ok_def)
next
  case (3 c m)
  have ok: "kbd_ok (d\<lparr>kb_ucLastPhyCode := c\<rparr>)" using assms(1) by (simp add: kbd_ok_def)
  from GenerateKeyEvent_eq(2)[OF ok, of c m] key_event_frame[OF 3] assms(1) 3 show ?thesis
    by (simp add: kbd_ok_def)
qed

lemma handle_report_eq:
  assumes "kbd_ok d" and "rep = mem_read (kb_pReportBuffer d) 8 (w_mem w)"
  shows "handle_report d w = (case kbd_process d (Some rep) of (d', cs) \<Rightarrow> Some (d', cs, w))"
proof -
  let ?p = "kb_pReportBuffer d"
  from assms(1) have p: "?p \<noteq> 0" and h: "kb_hTimer d = 0" by (simp_all add: kbd_ok_def)
  have first: "rep ! 0 = w_mem w ?p" and rest: "drop 2 rep = mem_read (?p + 2) 6 (w_mem w)"
    by (simp_all add: assms(2) numeral_eq_Suc add.assoc)
  have len: "length rep = 8" by (simp add: assms(2))
  show ?thesis
  proof (cases "kb_pKeyStatusHandlerRaw d")
    case (Some a)
    with p len show ?thesis
      by (simp add: handle_report_def kbd_process_def USBKeyboardDeviceGetModifiers_def report_byte_def first rest)
  next
    case None
    let ?d = "d\<lparr>kb_ucLastPhyCode := key_code rep\<rparr>"
    have ok: "kbd_ok ?d" using assms(1) by (simp add: kbd_ok_def)
    have code: "USBKeyboardDeviceGetKeyCode d (w_mem w) = Some (key_code rep)"
      using key_code_scan[OF p] by (simp add: USBKeyboardDeviceGetKeyCode_def assms(2))
    from GenerateKeyEvent_eq(1)[OF ok, of "key_code rep" "w_mem w"]
    have gen: "USBKeyboardDeviceGenerateKeyEvent ?d (key_code rep) (w_mem w) = Some (key_event ?d (key_code rep) (rep ! 0))"
      by (simp add: first)
    show ?thesis
      using None h len gen
      by (cases "key_code rep = kb_ucLastPhyCode d"; cases "key_code rep = 0")
        (simp_all add: handle_report_def kbd_process_def code split: prod.splits)
  qed
qed

lemma keyboard_completion_eq:
  assumes "kbd_ok d" and "urb_of w (kb_URB d) \<noteq> None"
    and "kbd_process d (report_of (kb_URB d) (kb_pReportBuffer d) w) = (d', cs)"
  shows "USBKeyboardDeviceCompletionRoutine (kb_URB d) pThis d w =
    do { w \<leftarrow> end_request (kb_URB d) w; (_, w) \<leftarrow> USBKeyboardDeviceStartRequest pThis d' w; Some (d', cs, w) }"
proof -
  from assms(2) obtain r where r: "urb_of w (kb_URB d) = Some r" by blast
  note len = report_of_length[OF r]
  have u: "kb_URB d' = kb_URB d" using kbd_process_keeps[OF assms(1,3)] by simp
  show ?thesis
  proof (cases "USBRequestGetStatus r \<and> urb_nResultLen r = BOOT_REPORT_SIZE")
    case True
    then have "report_of (kb_URB d) (kb_pReportBuffer d) w = Some (mem_read (kb_pReportBuffer d) 8 (w_mem w))"
      by (simp add: len(2) BOOT_REPORT_SIZE_def)
    with handle_report_eq[OF assms(1) refl, of w] assms(3) have "handle_report d w = Some (d', cs, w)" by simp
    with True u show ?thesis by (simp add: USBKeyboardDeviceCompletionRoutine_def len(1))
  next
    case False
    then have "kbd_process d (report_of (kb_URB d) (kb_pReportBuffer d) w) = (d, [])"
      by (auto simp: len(2) kbd_process_def BOOT_REPORT_SIZE_def word_unat_eq_iff)
    with assms(3) have "d' = d" "cs = []" by simp_all
    with False show ?thesis by (simp add: USBKeyboardDeviceCompletionRoutine_def len(1))
  qed
qed

interpretation kbd: report_driver kbd_ok "USBKeyboardDeviceStartRequest pThis" kb_URB
    "\<lambda>d. report_of (kb_URB d) (kb_pReportBuffer d)" kbd_process
    "\<lambda>d. USBKeyboardDeviceCompletionRoutine (kb_URB d) pThis d" for pThis
proof unfold_locales
  fix d r d' and cs :: "keyboard_call list"
  assume "kbd_ok d" "kbd_process d r = (d', cs)"
  from kbd_process_keeps[OF this] show "kbd_ok d' \<and> kb_URB d' = kb_URB d
    \<and> report_of (kb_URB d') (kb_pReportBuffer d') = report_of (kb_URB d) (kb_pReportBuffer d)" by simp
next
  fix d d' cs and w :: "'a io_world_scheme"
  assume "kbd_ok d" "urb_of w (kb_URB d) \<noteq> None" "kbd_process d (report_of (kb_URB d) (kb_pReportBuffer d) w) = (d', cs)"
  then show "USBKeyboardDeviceCompletionRoutine (kb_URB d) pThis d w =
    do { w \<leftarrow> end_request (kb_URB d) w; (_, w) \<leftarrow> USBKeyboardDeviceStartRequest pThis d' w; Some (d', cs, w) }"
    by (rule keyboard_completion_eq)
next
  fix d and w :: "'a io_world_scheme"
  assume "USBKeyboardDeviceCompletionRoutine (kb_URB d) pThis d w \<noteq> None"
  then show "urb_of w (kb_URB d) \<noteq> None"
    by (auto simp: USBKeyboardDeviceCompletionRoutine_def request_length_def bind_Some_iff)
qed

text \<open>A report that shows the same key as the last one makes no call and changes nothing, in cooked mode.\<close>

lemma same_key_silent:
  assumes "kb_pKeyStatusHandlerRaw d = None" and "key_code rep = kb_ucLastPhyCode d"
  shows "kbd_process d (Some rep) = (d, [])"
  using assms by (simp add: kbd_process_def)

lemma last_code_process:
  assumes "kb_pKeyStatusHandlerRaw d = None" and "length rep = 8" and "kbd_process d (Some rep) = (d', cs)"
  shows "kb_ucLastPhyCode d' = key_code rep"
proof (cases "key_code rep = kb_ucLastPhyCode d \<or> key_code rep = 0")
  case True
  with assms show ?thesis by (auto simp: kbd_process_def split: if_splits)
next
  case False
  with assms have "key_event (d\<lparr>kb_ucLastPhyCode := key_code rep\<rparr>) (key_code rep) (rep ! 0) = (d', cs)"
    by (simp add: kbd_process_def)
  from key_event_frame(4)[OF this] show ?thesis by simp
qed

lemma held_run:
  assumes "kb_pKeyStatusHandlerRaw d = None" and "list_all (\<lambda>r. \<exists>rep. r = Some rep \<and> key_code rep = kb_ucLastPhyCode d) rs"
  shows "run_reports kbd_process d rs = (d, [])"
  using assms by (induction rs) (auto simp: same_key_silent)

text \<open>
  Claim C27.  A completion of the keyboard's request always gets past the report: it ends the request, makes exactly the calls that the
  report stands for and starts the next request, in the state that the report leaves; it comes back whenever
  the host accepts that request.  Nothing it reads is outside the buffer and no assertion about the
  key codes fails, whatever the eight bytes are.
\<close>

theorem keyboard_completion:
  assumes "kbd_ok d" and "urb_of w (kb_URB d) = Some r"
  shows "\<exists>d' cs. kbd_process d (report_of (kb_URB d) (kb_pReportBuffer d) w) = (d', cs) \<and> kbd_ok d'
    \<and> USBKeyboardDeviceCompletionRoutine (kb_URB d) pThis d w =
        (case USBKeyboardDeviceStartRequest pThis d' (put_urb (kb_URB d) (USBRequest_dtor r) w) of
           None \<Rightarrow> None | Some (_, w) \<Rightarrow> Some (d', cs, w))"
proof -
  obtain d' cs where p: "kbd_process d (report_of (kb_URB d) (kb_pReportBuffer d) w) = (d', cs)" by fastforce
  have "USBKeyboardDeviceCompletionRoutine (kb_URB d) pThis d w =
     do { w \<leftarrow> end_request (kb_URB d) w; (_, w) \<leftarrow> USBKeyboardDeviceStartRequest pThis d' w; Some (d', cs, w) }"
    by (rule kbd.completion_eq[OF assms(1) _ p]) (simp add: assms(2))
  then have "USBKeyboardDeviceCompletionRoutine (kb_URB d) pThis d w =
        (case USBKeyboardDeviceStartRequest pThis d' (put_urb (kb_URB d) (USBRequest_dtor r) w) of
           None \<Rightarrow> None | Some (_, w) \<Rightarrow> Some (d', cs, w))"
    by (simp add: end_request_def assms(2) split: option.splits)
  with p kbd_process_keeps[OF assms(1) p] show ?thesis by blast
qed

lemma raw_run:
  assumes "kb_pKeyStatusHandlerRaw d = Some h" and "\<And>r. r \<in> set rs \<Longrightarrow> \<exists>rep. r = Some rep \<and> length rep = 8"
  shows "run_reports kbd_process d rs = (d, List.map (\<lambda>r. KeyStatusRaw h (the r ! 0) (drop 2 (the r))) rs)"
  using assms(2)
proof (induction rs)
  case (Cons r rs)
  then obtain rep where "r = Some rep" "length rep = 8" by auto
  with Cons assms(1) show ?case by (simp add: kbd_process_def)
qed simp


section \<open>A concrete keyboard\<close>

definition kbd_device :: TUSBKeyboardDevice where
  "kbd_device = \<lparr>kb_USBFunction = hid_function, kb_pReportEndpoint = Some 2, kb_pKeyPressedHandler = Some 20,
     kb_pSelectConsoleHandler = None, kb_pShutdownHandler = None, kb_pKeyStatusHandlerRaw = None, kb_URB = 7,
     kb_pReportBuffer = 0x6000, kb_ucLastPhyCode = 0, kb_hTimer = 0, kb_KeyMap = KeyMap, kb_ucLastLEDStatus = 0\<rparr>"

definition report_a :: "u8 list" where
  "report_a = [0, 0, 4, 0, 0, 0, 0, 0]"

lemma kbd_device_ok: "kbd_ok kbd_device"
  using KeyMap_ok by (simp add: kbd_ok_def kbd_device_def)

lemma kbd_device_fields [simp]:
  "kb_URB kbd_device = 7" "kb_pReportBuffer kbd_device = 0x6000" "kb_pKeyStatusHandlerRaw kbd_device = None"
  by (simp_all add: kbd_device_def)

lemma kbd_report_a: "report_of 7 0x6000 (hid_world report_a) = Some report_a"
  by (rule hid_world_report) (simp add: report_a_def)

lemma kbd_process_a: "map_prod kb_ucLastPhyCode id (kbd_process kbd_device (Some report_a)) = (4, [KeyPressed 20 ''a''])"
  by code_simp

theorem keyboard_completion_witness:
  "\<exists>d' cs. kbd_process kbd_device (Some report_a) = (d', cs) \<and> cs = [KeyPressed 20 ''a'']
     \<and> USBKeyboardDeviceCompletionRoutine 7 0 kbd_device (hid_world report_a) =
        (case USBKeyboardDeviceStartRequest 0 d' (put_urb 7 (USBRequest_dtor (hid_request 8)) (hid_world report_a)) of
           None \<Rightarrow> None | Some (_, w) \<Rightarrow> Some (d', cs, w))"
proof -
  have "urb_of (hid_world report_a) (kb_URB kbd_device) = Some (hid_request 8)"
    using hid_world_urb[of report_a] by (simp add: report_a_def numeral_eq_Suc)
  from keyboard_completion[OF kbd_device_ok this, of 0] kbd_process_a show ?thesis
    by (auto simp: kbd_report_a)
qed

definition run_keyboard :: "io_world list \<Rightarrow> (TUSBKeyboardDevice \<times> keyboard_call list) option" where
  "run_keyboard = run_completions (\<lambda>d. USBKeyboardDeviceCompletionRoutine (kb_URB d) 0 d) kbd_device"

lemma run_keyboard_aa:
  "map_option snd (run_keyboard [hid_world report_a, hid_world report_a]) \<noteq> None"
  by code_simp


end
