(* ===== verification/Mouse.thy ===== *)
theory Mouse
  imports HidDevice
begin

text \<open>
  The mouse driver (\<^verbatim>\<open>lib/usbmouse.c\<close>): configuration with the report descriptor and the boot protocol, and the
  completion routine that passes buttons and displacements on.
\<close>

unbundle bit_operations_syntax

section \<open>The device\<close>

definition MOUSE_BOOT_REPORT_SIZE :: u32 where "MOUSE_BOOT_REPORT_SIZE = 3"

record TUSBMouseDevice =
  mo_USBFunction :: TUSBFunction
  mo_pReportEndpoint :: "addr option"
  mo_pStatusHandler :: "addr option"
  mo_usReportDescriptorLength :: u16
  mo_pHIDReportDescriptor :: uintptr
  mo_URB :: addr
  mo_pReportBuffer :: uintptr

datatype mouse_call = MouseStatus addr u32 int int

text \<open>\<open>len\<close> is what the memory of the object holds where the constructor does not write.\<close>

definition USBMouseDevice :: "TUSBFunction \<Rightarrow> addr \<Rightarrow> uintptr \<Rightarrow> u16 \<Rightarrow> TUSBMouseDevice option" where
  "USBMouseDevice pDevice u pReportBuffer len = do {
     f \<leftarrow> USBFunctionCopy pDevice;
     c_assert (pReportBuffer \<noteq> 0);
     Some \<lparr>mo_USBFunction = f\<lparr>fn_Configure := Some MouseConfigure\<rparr>, mo_pReportEndpoint = None, mo_pStatusHandler = None,
       mo_usReportDescriptorLength = len, mo_pHIDReportDescriptor = 0, mo_URB = u, mo_pReportBuffer = pReportBuffer\<rparr> }"

definition CUSBMouseDevice_dtor ::
    "TUSBMouseDevice \<Rightarrow> 'a io_world_scheme \<Rightarrow> (TUSBMouseDevice \<times> 'a io_world_scheme) option" where
  "CUSBMouseDevice_dtor d w = do {
     let d = d\<lparr>mo_pHIDReportDescriptor := 0, mo_pReportBuffer := 0\<rparr>;
     w \<leftarrow> (case mo_pReportEndpoint d of None \<Rightarrow> Some w | Some a \<Rightarrow> free_endpoint a w);
     f \<leftarrow> USBFunction_dtor (mo_USBFunction d);
     Some (d\<lparr>mo_pReportEndpoint := None, mo_USBFunction := f\<rparr>, w) }"

definition USBMouseDeviceRegisterStatusHandler :: "TUSBMouseDevice \<Rightarrow> addr option \<Rightarrow> TUSBMouseDevice option" where
  "USBMouseDeviceRegisterStatusHandler d h = do {
     c_assert (h \<noteq> None); Some (d\<lparr>mo_pStatusHandler := h\<rparr>) }"

definition USBMouseDeviceStartRequest ::
    "uintptr \<Rightarrow> TUSBMouseDevice \<Rightarrow> 'a io_world_scheme \<Rightarrow> (bool \<times> 'a io_world_scheme) option" where
  "USBMouseDeviceStartRequest pThis d w =
     start_report_request 2 (mo_USBFunction d) (mo_URB d) pThis (mo_pReportEndpoint d) (mo_pReportBuffer d)
       MOUSE_BOOT_REPORT_SIZE w"

definition USBMouseDeviceCompletionRoutine ::
    "addr \<Rightarrow> uintptr \<Rightarrow> TUSBMouseDevice \<Rightarrow> 'a io_world_scheme
     \<Rightarrow> (TUSBMouseDevice \<times> mouse_call list \<times> 'a io_world_scheme) option" where
  "USBMouseDeviceCompletionRoutine pURB pThis d w = do {
     c_assert (mo_URB d = pURB);
     n \<leftarrow> request_length pURB w;
     cs \<leftarrow> (case (n, mo_pStatusHandler d) of
         (Some k, Some h) \<Rightarrow>
           if k = MOUSE_BOOT_REPORT_SIZE then do {
             c_assert (mo_pReportBuffer d \<noteq> 0);
             Some [MouseStatus h (ucast (w_mem w (mo_pReportBuffer d)))
                     (uspi_char2int (w_mem w (mo_pReportBuffer d + 1))) (uspi_char2int (w_mem w (mo_pReportBuffer d + 2)))] }
           else Some []
       | _ \<Rightarrow> Some []);
     w \<leftarrow> end_request (mo_URB d) w;
     (_, w) \<leftarrow> USBMouseDeviceStartRequest pThis d w;
     Some (d, cs, w) }"

text \<open>\<open>pDescriptor\<close> is the block \<^verbatim>\<open>malloc\<close> returns for the report descriptor.\<close>

definition USBMouseDeviceConfigure ::
    "'a io_world_scheme driver_code \<Rightarrow> locals \<Rightarrow> addr \<Rightarrow> uintptr \<Rightarrow> uintptr \<Rightarrow> TUSBMouseDevice \<Rightarrow> 'a io_world_scheme
     \<Rightarrow> (bool \<times> TUSBMouseDevice \<times> 'a io_world_scheme) option" where
  "USBMouseDeviceConfigure drv l ref pThis pDescriptor d w = do {
     nEndpoints \<leftarrow> USBFunctionGetNumEndpoints (mo_USBFunction d);
     if nEndpoints < 1 then do { _ \<leftarrow> USBFunctionConfigurationError (mo_USBFunction d); Some (False, d, w) }
     else do {
       (pHIDDesc, f) \<leftarrow> USBFunctionGetDescriptor (mo_USBFunction d) DESCRIPTOR_HID;
       let d = d\<lparr>mo_USBFunction := f\<rparr>;
       hid \<leftarrow> (case pHIDDesc of None \<Rightarrow> Some None | Some i \<Rightarrow> map_option Some (get_hid_descriptor f i));
       (case hid of
          None \<Rightarrow> do { _ \<leftarrow> USBFunctionConfigurationError (mo_USBFunction d); Some (False, d, w) }
        | Some pHIDDesc \<Rightarrow>
            if hid_wReportDescriptorLength pHIDDesc = 0
            then do { _ \<leftarrow> USBFunctionConfigurationError (mo_USBFunction d); Some (False, d, w) }
            else do {
              (pReportEndpoint, f, w) \<leftarrow> find_report_endpoint (mo_pReportEndpoint d) (mo_USBFunction d) w;
              let d = d\<lparr>mo_USBFunction := f, mo_pReportEndpoint := pReportEndpoint\<rparr>;
              if mo_pReportEndpoint d = None
              then do { _ \<leftarrow> USBFunctionConfigurationError (mo_USBFunction d); Some (False, d, w) }
              else do {
                let d = d\<lparr>mo_usReportDescriptorLength := hid_wReportDescriptorLength pHIDDesc,
                          mo_pHIDReportDescriptor := pDescriptor\<rparr>;
                c_assert (mo_pHIDReportDescriptor d \<noteq> 0);
                (n, w) \<leftarrow> get_report_descriptor drv l (mo_USBFunction d) pHIDDesc (mo_pHIDReportDescriptor d)
                            (mo_usReportDescriptorLength d) w;
                if n \<noteq> uint (mo_usReportDescriptorLength d) then Some (False, d, w)
                else do {
                  (ok, w) \<leftarrow> USBFunctionConfigure drv l (mo_USBFunction d) w;
                  if \<not> ok then Some (False, d, w)
                  else do {
                    (n, w) \<leftarrow> set_boot_protocol drv l (mo_USBFunction d) w;
                    if n < 0 then Some (False, d, w)
                    else do {
                      w \<leftarrow> register_device MouseConfigure ''umouse%u'' ref False w;
                      (ok, w) \<leftarrow> USBMouseDeviceStartRequest pThis d w;
                      Some (ok, d, w) } } } } }) } }"

section \<open>What a report means\<close>

definition mouse_ok :: "TUSBMouseDevice \<Rightarrow> bool" where
  "mouse_ok d \<longleftrightarrow> mo_pReportBuffer d \<noteq> 0"

text \<open>Buttons, and the displacements as two's complement bytes.\<close>

definition mouse_process :: "TUSBMouseDevice \<Rightarrow> u8 list option \<Rightarrow> TUSBMouseDevice \<times> mouse_call list" where
  "mouse_process d r = (d, case (r, mo_pStatusHandler d) of
     (Some [b, x, y], Some h) \<Rightarrow> [MouseStatus h (ucast b) (sint x) (sint y)] | _ \<Rightarrow> [])"

lemma three_bytes: "length rep \<noteq> 3 \<Longrightarrow> mouse_process d (Some rep) = (d, [])"
  by (auto simp: mouse_process_def split: list.splits option.splits)

lemma mouse_completion_eq:
  assumes "mouse_ok d" and "urb_of w (mo_URB d) \<noteq> None"
    and "mouse_process d (report_of (mo_URB d) (mo_pReportBuffer d) w) = (d', cs)"
  shows "USBMouseDeviceCompletionRoutine (mo_URB d) pThis d w =
    do { w \<leftarrow> end_request (mo_URB d) w; (_, w) \<leftarrow> USBMouseDeviceStartRequest pThis d' w; Some (d', cs, w) }"
proof -
  from assms(2) obtain r where r: "urb_of w (mo_URB d) = Some r" by blast
  note len = report_of_length[OF r]
  have d': "d' = d" using assms(3) by (simp add: mouse_process_def)
  let ?p = "mo_pReportBuffer d"
  have three: "mem_read ?p 3 (w_mem w) = [w_mem w ?p, w_mem w (?p + 1), w_mem w (?p + 2)]"
    by (simp add: numeral_eq_Suc add.assoc)
  show ?thesis
  proof (cases "USBRequestGetStatus r \<and> urb_nResultLen r = MOUSE_BOOT_REPORT_SIZE")
    case True
    then have "report_of (mo_URB d) ?p w = Some [w_mem w ?p, w_mem w (?p + 1), w_mem w (?p + 2)]"
      by (simp add: len(2) MOUSE_BOOT_REPORT_SIZE_def three)
    with True assms(1,3) show ?thesis unfolding d'
      by (cases "mo_pStatusHandler d")
        (simp_all add: USBMouseDeviceCompletionRoutine_def len(1) mouse_process_def mouse_ok_def char2int_sint)
  next
    case False
    then have "mouse_process d (report_of (mo_URB d) ?p w) = (d, [])"
      unfolding len(2) using three_bytes[of "mem_read ?p (unat (urb_nResultLen r)) (w_mem w)" d]
      by (auto simp: mouse_process_def MOUSE_BOOT_REPORT_SIZE_def word_unat_eq_iff)
    with assms(3) have "cs = []" by simp
    with False show ?thesis unfolding d'
      by (cases "mo_pStatusHandler d") (auto simp: USBMouseDeviceCompletionRoutine_def len(1))
  qed
qed

interpretation mouse: report_driver mouse_ok "USBMouseDeviceStartRequest pThis" mo_URB
    "\<lambda>d. report_of (mo_URB d) (mo_pReportBuffer d)" mouse_process
    "\<lambda>d. USBMouseDeviceCompletionRoutine (mo_URB d) pThis d" for pThis
proof unfold_locales
  fix d d' cs and w :: "'a io_world_scheme"
  assume "mouse_ok d" "urb_of w (mo_URB d) \<noteq> None" "mouse_process d (report_of (mo_URB d) (mo_pReportBuffer d) w) = (d', cs)"
  then show "USBMouseDeviceCompletionRoutine (mo_URB d) pThis d w =
    do { w \<leftarrow> end_request (mo_URB d) w; (_, w) \<leftarrow> USBMouseDeviceStartRequest pThis d' w; Some (d', cs, w) }"
    by (rule mouse_completion_eq)
qed (auto simp: mouse_process_def USBMouseDeviceCompletionRoutine_def request_length_def bind_Some_iff)

text \<open>The calls of one report, and that they do not depend on the reports before it.\<close>

definition mouse_calls :: "addr \<Rightarrow> u8 list option \<Rightarrow> mouse_call list" where
  "mouse_calls h r = (case r of Some [b, x, y] \<Rightarrow> [MouseStatus h (ucast b) (sint x) (sint y)] | _ \<Rightarrow> [])"

lemma run_mouse_reports:
  "mo_pStatusHandler d = Some h \<Longrightarrow> run_reports mouse_process d rs = (d, concat (List.map (mouse_calls h) rs))"
  by (induction rs) (auto simp: mouse_process_def mouse_calls_def split: option.splits list.splits)

text \<open>
  The application hears of every successful three-byte report of the mouse exactly once and in order, with the
  button byte and the two displacements as signed numbers from -128 to 127; failed transfers and reports of
  any other length are dropped, and the driver's state does not change.
\<close>

theorem mouse_reports_in_order:
  assumes "mouse_ok d" and "mo_pStatusHandler d = Some h"
    and "run_completions (\<lambda>d. USBMouseDeviceCompletionRoutine (mo_URB d) pThis d) d ws = Some (d', cs)"
  shows "d' = d \<and> cs = concat (List.map (\<lambda>w. mouse_calls h (report_of (mo_URB d) (mo_pReportBuffer d) w)) ws)"
  using mouse.completions_refine[OF assms(1,3)] run_mouse_reports[OF assms(2)] by (auto simp: comp_def)

definition mouse_device :: TUSBMouseDevice where
  "mouse_device = \<lparr>mo_USBFunction = hid_function, mo_pReportEndpoint = Some 2, mo_pStatusHandler = Some 20,
     mo_usReportDescriptorLength = 0, mo_pHIDReportDescriptor = 0, mo_URB = 7, mo_pReportBuffer = 0x6000\<rparr>"

definition run_mouse :: "io_world list \<Rightarrow> (TUSBMouseDevice \<times> mouse_call list) option" where
  "run_mouse = run_completions (\<lambda>d. USBMouseDeviceCompletionRoutine (mo_URB d) 0 d) mouse_device"

lemma run_mouse_returns: "map_option snd (run_mouse [hid_world [1, 255, 2], hid_world [0, 0, 0, 0]]) \<noteq> None"
  by code_simp

theorem mouse_reports_in_order_witness:
  "run_mouse [hid_world [1, 255, 2], hid_world [0, 0, 0, 0]] = Some (mouse_device, [MouseStatus 20 1 (- 1) 2])"
proof -
  from run_mouse_returns obtain d' cs where
    r: "run_completions (\<lambda>d. USBMouseDeviceCompletionRoutine (mo_URB d) 0 d) mouse_device
          [hid_world [1, 255, 2], hid_world [0, 0, 0, 0]] = Some (d', cs)"
    by (auto simp: run_mouse_def)
  have "mouse_ok mouse_device" "mo_pStatusHandler mouse_device = Some 20"
    by (simp_all add: mouse_ok_def mouse_device_def)
  from mouse_reports_in_order[OF this r] r
  show ?thesis
    by (simp add: run_mouse_def mouse_device_def hid_world_report mouse_calls_def)
qed

end
