(* ===== verification/Midi.thy ===== *)
theory Midi
  imports HidDevice
begin

text \<open>
  The MIDI driver (\<^verbatim>\<open>lib/usbmidi.c\<close>): the choice of the streaming endpoint, and the completion routine that
  cuts a transfer into event packets of four bytes.
\<close>

unbundle bit_operations_syntax

section \<open>The device\<close>

definition EVENT_PACKET_SIZE :: nat where "EVENT_PACKET_SIZE = 4"

text \<open>Code index number to length of the encapsulated MIDI message.\<close>

definition cin_to_length :: "u32 list" where
  "cin_to_length = [0, 0, 2, 3, 3, 1, 2, 3, 3, 3, 3, 3, 2, 2, 3, 1]"

record TUSBMIDIDevice =
  mi_USBFunction :: TUSBFunction
  mi_pEndpointIn :: "addr option"
  mi_pPacketHandler :: "addr option"
  mi_URB :: addr
  mi_usBufferSize :: u16
  mi_pPacketBuffer :: uintptr

text \<open>A call to the packet handler: cable, length and the address of the three message bytes.\<close>

datatype midi_call = MIDIPacket addr u32 u32 uintptr

definition USBMIDIDevice :: "TUSBFunction \<Rightarrow> addr \<Rightarrow> u16 \<Rightarrow> TUSBMIDIDevice option" where
  "USBMIDIDevice pDevice u sz = do {
     f \<leftarrow> USBFunctionCopy pDevice;
     Some \<lparr>mi_USBFunction = f\<lparr>fn_Configure := Some MIDIConfigure\<rparr>, mi_pEndpointIn = None, mi_pPacketHandler = None,
       mi_URB = u, mi_usBufferSize = sz, mi_pPacketBuffer = 0\<rparr> }"

definition CUSBMIDIDevice_dtor ::
    "TUSBMIDIDevice \<Rightarrow> 'a io_world_scheme \<Rightarrow> (TUSBMIDIDevice \<times> 'a io_world_scheme) option" where
  "CUSBMIDIDevice_dtor d w = do {
     let d = d\<lparr>mi_pPacketBuffer := 0\<rparr>;
     w \<leftarrow> (case mi_pEndpointIn d of None \<Rightarrow> Some w | Some a \<Rightarrow> free_endpoint a w);
     f \<leftarrow> USBFunction_dtor (mi_USBFunction d);
     Some (d\<lparr>mi_pEndpointIn := None, mi_USBFunction := f\<rparr>, w) }"

definition is_bulk :: "TUSBEndpointDescriptor \<Rightarrow> bool" where
  "is_bulk desc \<longleftrightarrow> ed_bmAttributes desc AND 0x3F = 0x02"

text \<open>
  The loop over the endpoint descriptors: a bulk input endpoint counts if the class-specific endpoint descriptor
  follows it immediately; \<open>pBuffer\<close> is the block \<^verbatim>\<open>malloc\<close> returns.  There is no \<^verbatim>\<open>break\<close>: a second such
  endpoint fails the assertion.
\<close>

definition take_midi_endpoint ::
    "uintptr \<Rightarrow> TUSBEndpointDescriptor \<Rightarrow> TUSBMIDIDevice \<Rightarrow> 'a io_world_scheme
     \<Rightarrow> (TUSBMIDIDevice \<times> 'a io_world_scheme) option" where
  "take_midi_endpoint pBuffer desc d w = do {
     c_assert (mi_pEndpointIn d = None);
     let d = d\<lparr>mi_usBufferSize := ed_wMaxPacketSize desc - ed_wMaxPacketSize desc mod of_nat EVENT_PACKET_SIZE\<rparr>;
     c_assert (mi_pPacketBuffer d = 0);
     let d = d\<lparr>mi_pPacketBuffer := pBuffer\<rparr>;
     c_assert (mi_pPacketBuffer d \<noteq> 0);
     ep \<leftarrow> USBEndpoint2 (st_devs (w_store w)) (USBFunctionGetDevice (mi_USBFunction d)) (Some desc);
     let (a, w) = new_endpoint ep w;
     Some (d\<lparr>mi_pEndpointIn := Some a\<rparr>, w) }"

partial_function (option) find_midi_endpoint ::
    "uintptr \<Rightarrow> TUSBMIDIDevice \<Rightarrow> 'a io_world_scheme \<Rightarrow> (TUSBMIDIDevice \<times> 'a io_world_scheme) option" where
  "find_midi_endpoint pBuffer d w = do {
     (pEndpointDesc, f) \<leftarrow> USBFunctionGetDescriptor (mi_USBFunction d) DESCRIPTOR_ENDPOINT;
     let d = d\<lparr>mi_USBFunction := f\<rparr>;
     (case pEndpointDesc of None \<Rightarrow> Some (d, w)
      | Some i \<Rightarrow> do {
          desc \<leftarrow> get_endpoint_descriptor f i;
          if \<not> is_input desc \<or> \<not> is_bulk desc then find_midi_endpoint pBuffer d w
          else do {
            (pMIDIDesc, f) \<leftarrow> USBFunctionGetDescriptor f DESCRIPTOR_CS_ENDPOINT;
            let d = d\<lparr>mi_USBFunction := f\<rparr>;
            if pMIDIDesc = None \<or> pMIDIDesc \<noteq> Some (i + unat (ed_bLength desc)) then find_midi_endpoint pBuffer d w
            else do {
              (d, w) \<leftarrow> take_midi_endpoint pBuffer desc d w;
              find_midi_endpoint pBuffer d w } } }) }"

declare find_midi_endpoint.simps [code]

definition USBMIDIDeviceRegisterPacketHandler :: "TUSBMIDIDevice \<Rightarrow> addr option \<Rightarrow> TUSBMIDIDevice option" where
  "USBMIDIDeviceRegisterPacketHandler d h = do {
     c_assert (h \<noteq> None); Some (d\<lparr>mi_pPacketHandler := h\<rparr>) }"

definition USBMIDIDeviceStartRequest ::
    "uintptr \<Rightarrow> TUSBMIDIDevice \<Rightarrow> 'a io_world_scheme \<Rightarrow> (bool \<times> 'a io_world_scheme) option" where
  "USBMIDIDeviceStartRequest pThis d w =
     start_report_request 4 (mi_USBFunction d) (mi_URB d) pThis (mi_pEndpointIn d) (mi_pPacketBuffer d)
       (ucast (mi_usBufferSize d)) w"

definition USBMIDIDeviceConfigure ::
    "'a io_world_scheme driver_code \<Rightarrow> locals \<Rightarrow> addr \<Rightarrow> uintptr \<Rightarrow> uintptr \<Rightarrow> TUSBMIDIDevice \<Rightarrow> 'a io_world_scheme
     \<Rightarrow> (bool \<times> TUSBMIDIDevice \<times> 'a io_world_scheme) option" where
  "USBMIDIDeviceConfigure drv l ref pThis pBuffer d w = do {
     nEndpoints \<leftarrow> USBFunctionGetNumEndpoints (mi_USBFunction d);
     if nEndpoints < 1 then do { _ \<leftarrow> USBFunctionConfigurationError (mi_USBFunction d); Some (False, d, w) }
     else do {
       (d, w) \<leftarrow> find_midi_endpoint pBuffer d w;
       if mi_pEndpointIn d = None
       then do { _ \<leftarrow> USBFunctionConfigurationError (mi_USBFunction d); Some (False, d, w) }
       else do {
         (ok, w) \<leftarrow> USBFunctionConfigure drv l (mi_USBFunction d) w;
         if \<not> ok then Some (False, d, w)
         else do {
           w \<leftarrow> register_device MIDIConfigure ''umidi%u'' ref False w;
           (ok, w) \<leftarrow> USBMIDIDeviceStartRequest pThis d w;
           Some (ok, d, w) } } } }"

text \<open>
  The loop over the packets of a transfer, \<open>n\<close> bytes before the end.  The comparison of the
  two pointers is on addresses, so the end must not wrap.
\<close>

fun midi_packets :: "addr option \<Rightarrow> mem \<Rightarrow> uintptr \<Rightarrow> nat \<Rightarrow> midi_call list option" where
  "midi_packets h m pPacket n =
     (if n = 0 then Some []
      else do {
        cs \<leftarrow> (case h of
            Some a \<Rightarrow>
              if m pPacket \<noteq> 0 then do {
                nLength \<leftarrow> array_get cin_to_length (unat (m pPacket AND 0xF));
                Some [MIDIPacket a (ucast (drop_bit 4 (m pPacket))) nLength (pPacket + 1)] }
              else Some []
          | None \<Rightarrow> Some []);
        cs' \<leftarrow> midi_packets h m (pPacket + of_nat EVENT_PACKET_SIZE) (n - 4);
        Some (cs @ cs') })"

declare midi_packets.simps [simp del]

definition USBMIDIDeviceCompletionRoutine ::
    "addr \<Rightarrow> uintptr \<Rightarrow> TUSBMIDIDevice \<Rightarrow> 'a io_world_scheme
     \<Rightarrow> (TUSBMIDIDevice \<times> midi_call list \<times> 'a io_world_scheme) option" where
  "USBMIDIDeviceCompletionRoutine pURB pThis d w = do {
     c_assert (mi_URB d = pURB);
     n \<leftarrow> request_length pURB w;
     cs \<leftarrow> (case n of
         Some k \<Rightarrow>
           if k mod of_nat EVENT_PACKET_SIZE = 0 then do {
             c_assert (mi_pPacketBuffer d \<noteq> 0);
             midi_packets (mi_pPacketHandler d) (w_mem w) (mi_pPacketBuffer d) (unat k) }
           else Some []
       | None \<Rightarrow> Some []);
     w \<leftarrow> end_request (mi_URB d) w;
     (_, w) \<leftarrow> USBMIDIDeviceStartRequest pThis d w;
     Some (d, cs, w) }"

section \<open>What a transfer means\<close>

text \<open>The packets of a transfer: cable, message length and the offset of the message, for each header that is not zero.\<close>

fun midi_events :: "nat \<Rightarrow> u8 list \<Rightarrow> (u32 \<times> u32 \<times> nat) list" where
  "midi_events k (b0 # b1 # b2 # b3 # bs) =
     (if b0 = 0 then [] else [(ucast (drop_bit 4 b0), cin_to_length ! unat (b0 AND 0xF), k + 1)]) @ midi_events (k + 4) bs"
| "midi_events k _ = []"

definition midi_calls :: "addr option \<Rightarrow> uintptr \<Rightarrow> u8 list option \<Rightarrow> midi_call list" where
  "midi_calls h p r = (case (h, r) of
     (Some a, Some bs) \<Rightarrow>
       if length bs mod 4 = 0 then List.map (\<lambda>(c, n, k). MIDIPacket a c n (p + of_nat k)) (midi_events 0 bs) else []
   | _ \<Rightarrow> [])"

definition midi_process :: "TUSBMIDIDevice \<Rightarrow> u8 list option \<Rightarrow> TUSBMIDIDevice \<times> midi_call list" where
  "midi_process d r = (d, midi_calls (mi_pPacketHandler d) (mi_pPacketBuffer d) r)"

definition midi_ok :: "TUSBMIDIDevice \<Rightarrow> bool" where
  "midi_ok d \<longleftrightarrow> mi_pPacketBuffer d \<noteq> 0"

lemma cin_index: "unat ((b :: u8) AND 0xF) < length cin_to_length"
proof -
  have "b AND 0xF = take_bit 4 b" by (simp add: take_bit_eq_mask mask_eq_exp_minus_1)
  then have "unat (b AND 0xF) < 2 ^ 4" using take_bit_nat_less_exp[of 4 "unat b"] by (simp only: unsigned_take_bit_eq)
  then show ?thesis by (simp add: cin_to_length_def)
qed

lemma midi_packets_eq:
  "midi_packets (Some a) m (p + of_nat k) (4 * j)
     = Some (List.map (\<lambda>(c, n, k). MIDIPacket a c n (p + of_nat k)) (midi_events k (mem_read (p + of_nat k) (4 * j) m)))"
proof (induction j arbitrary: k)
  case 0
  show ?case by (simp add: midi_packets.simps)
next
  case (Suc j)
  have "mem_read q (4 * Suc j) m = m q # m (q + 1) # m (q + 2) # m (q + 3) # mem_read (q + 4) (4 * j) m" for q
    by (simp add: numeral_eq_Suc add.assoc)
  moreover have "midi_packets (Some a) m (p + of_nat k + 4) (4 * j) = Some (List.map (\<lambda>(c, n, k). MIDIPacket a c n (p + of_nat k))
       (midi_events (k + 4) (mem_read (p + of_nat k + 4) (4 * j) m)))"
    using Suc[of "k + 4"] by (simp add: add.assoc)
  ultimately show ?case
    using cin_index[of "m (p + of_nat k)"]
    by (subst midi_packets.simps) (simp add: array_get_def EVENT_PACKET_SIZE_def add.assoc)
qed

lemma midi_packets_none: "midi_packets None m p (4 * j) = Some []"
  by (induction j arbitrary: p) (subst midi_packets.simps, simp)+

lemma mod_four_word: "(k :: u32) mod of_nat EVENT_PACKET_SIZE = 0 \<longleftrightarrow> unat k mod 4 = 0"
proof -
  have "unat (k mod 4) = unat k mod 4" by (simp add: unat_mod)
  then show ?thesis by (metis EVENT_PACKET_SIZE_def of_nat_numeral unsigned_0 unsigned_word_eqI)
qed

lemma midi_completion_eq:
  assumes "midi_ok d" and "urb_of w (mi_URB d) \<noteq> None"
    and "midi_process d (report_of (mi_URB d) (mi_pPacketBuffer d) w) = (d', cs)"
  shows "USBMIDIDeviceCompletionRoutine (mi_URB d) pThis d w =
    do { w \<leftarrow> end_request (mi_URB d) w; (_, w) \<leftarrow> USBMIDIDeviceStartRequest pThis d' w; Some (d', cs, w) }"
proof -
  from assms(2) obtain r where r: "urb_of w (mi_URB d) = Some r" by blast
  note len = report_of_length[OF r]
  let ?p = "mi_pPacketBuffer d" and ?n = "unat (urb_nResultLen r)"
  from assms(1) have p: "?p \<noteq> 0" by (simp add: midi_ok_def)
  have d': "d' = d" and cs: "cs = midi_calls (mi_pPacketHandler d) ?p (report_of (mi_URB d) ?p w)"
    using assms(3) by (auto simp: midi_process_def)
  show ?thesis
  proof (cases "USBRequestGetStatus r \<and> ?n mod 4 = 0")
    case True
    then obtain j where j: "?n = 4 * j" by auto
    have rep: "report_of (mi_URB d) ?p w = Some (mem_read ?p (4 * j) (w_mem w))" using True by (simp add: len(2) j)
    have "midi_packets (mi_pPacketHandler d) (w_mem w) ?p ?n = Some cs"
      unfolding cs rep j using midi_packets_eq[of _ "w_mem w" ?p 0 j] midi_packets_none[of "w_mem w" ?p j]
      by (cases "mi_pPacketHandler d") (simp_all add: midi_calls_def)
    with True p show ?thesis
      unfolding d' by (simp add: USBMIDIDeviceCompletionRoutine_def len(1) mod_four_word)
  next
    case False
    then have "cs = []" unfolding cs len(2) by (auto simp: midi_calls_def split: option.splits)
    with False show ?thesis
      unfolding d' by (auto simp: USBMIDIDeviceCompletionRoutine_def len(1) mod_four_word)
  qed
qed

interpretation midi: report_driver midi_ok "USBMIDIDeviceStartRequest pThis" mi_URB
    "\<lambda>d. report_of (mi_URB d) (mi_pPacketBuffer d)" midi_process
    "\<lambda>d. USBMIDIDeviceCompletionRoutine (mi_URB d) pThis d" for pThis
proof unfold_locales
  fix d d' cs and w :: "'a io_world_scheme"
  assume "midi_ok d" "urb_of w (mi_URB d) \<noteq> None" "midi_process d (report_of (mi_URB d) (mi_pPacketBuffer d) w) = (d', cs)"
  then show "USBMIDIDeviceCompletionRoutine (mi_URB d) pThis d w =
    do { w \<leftarrow> end_request (mi_URB d) w; (_, w) \<leftarrow> USBMIDIDeviceStartRequest pThis d' w; Some (d', cs, w) }"
    by (rule midi_completion_eq)
qed (auto simp: midi_process_def USBMIDIDeviceCompletionRoutine_def request_length_def bind_Some_iff)

lemma run_midi_reports:
  "run_reports midi_process d rs = (d, concat (List.map (midi_calls (mi_pPacketHandler d) (mi_pPacketBuffer d)) rs))"
  by (induction rs) (simp_all add: midi_process_def)

lemma midi_events_bounds:
  "(c, n, k') \<in> set (midi_events k bs) \<Longrightarrow> unat c < 16 \<and> unat n \<le> 3 \<and> k < k' \<and> k' + 3 \<le> k + length bs"
proof (induction k bs rule: midi_events.induct)
  case (1 k b0 b1 b2 b3 bs)
  have "unat (drop_bit 4 b0) < 16"
    using unat_less_2p[of b0] by (simp add: unsigned_drop_bit_eq drop_bit_eq_div less_mult_imp_div_less unat_div)
  then have cable: "unat (ucast (drop_bit 4 b0) :: u32) < 16" by (simp add: unat_ucast_up)
  have "\<forall>n \<in> set cin_to_length. unat n \<le> 3" by (simp add: cin_to_length_def)
  with cin_index[of b0] have len: "unat (cin_to_length ! unat (b0 AND 0xF)) \<le> 3" by simp
  from 1 cable len show ?case by (auto split: if_splits)
qed simp_all

text \<open>
  Claim C29.  Every transfer whose length is a multiple of four is cut into its event packets, and each packet whose header
  is not zero is passed to the handler once and in order; transfers of another length are dropped.  Every call
  names a cable below 16 and at most three message bytes, which lie inside the transfer.
\<close>

theorem midi_packets_in_order:
  assumes "midi_ok d" and "mi_pPacketHandler d = Some h"
    and "run_completions (\<lambda>d. USBMIDIDeviceCompletionRoutine (mi_URB d) pThis d) d ws = Some (d', cs)"
  shows "cs = concat (List.map (\<lambda>w. midi_calls (Some h) (mi_pPacketBuffer d) (report_of (mi_URB d) (mi_pPacketBuffer d) w)) ws)
     \<and> (\<forall>bs c n k. (c, n, k) \<in> set (midi_events 0 bs) \<longrightarrow> unat c < 16 \<and> k + unat n \<le> length bs)"
proof
  show "cs = concat (List.map (\<lambda>w. midi_calls (Some h) (mi_pPacketBuffer d) (report_of (mi_URB d) (mi_pPacketBuffer d) w)) ws)"
    using midi.completions_refine[OF assms(1,3)] assms(2) by (auto simp: run_midi_reports comp_def)
  show "\<forall>bs c n k. (c, n, k) \<in> set (midi_events 0 bs) \<longrightarrow> unat c < 16 \<and> k + unat n \<le> length bs"
    using midi_events_bounds[where k = 0] by fastforce
qed

definition midi_device :: TUSBMIDIDevice where
  "midi_device = \<lparr>mi_USBFunction = hid_function, mi_pEndpointIn = Some 2, mi_pPacketHandler = Some 20, mi_URB = 7,
     mi_usBufferSize = 8, mi_pPacketBuffer = 0x6000\<rparr>"

definition run_midi :: "io_world list \<Rightarrow> (TUSBMIDIDevice \<times> midi_call list) option" where
  "run_midi = run_completions (\<lambda>d. USBMIDIDeviceCompletionRoutine (mi_URB d) 0 d) midi_device"

lemma run_midi_returns: "map_option snd (run_midi [hid_world [0x19, 0x90, 60, 100, 0, 0, 0, 0]]) \<noteq> None"
  by code_simp

theorem midi_packets_in_order_witness:
  "map_option snd (run_midi [hid_world [0x19, 0x90, 60, 100, 0, 0, 0, 0]]) = Some [MIDIPacket 20 1 3 0x6001]"
proof -
  from run_midi_returns obtain d' cs where
    r: "run_completions (\<lambda>d. USBMIDIDeviceCompletionRoutine (mi_URB d) 0 d) midi_device
          [hid_world [0x19, 0x90, 60, 100, 0, 0, 0, 0]] = Some (d', cs)"
    by (auto simp: run_midi_def)
  have d: "midi_ok midi_device" "mi_pPacketHandler midi_device = Some 20"
    by (simp_all add: midi_ok_def midi_device_def)
  have u: "mi_URB midi_device = 7" "mi_pPacketBuffer midi_device = 0x6000" by (simp_all add: midi_device_def)
  have "midi_calls (Some 20) 0x6000 (Some [0x19, 0x90, 60, 100, 0, 0, 0, 0]) = [MIDIPacket 20 1 3 0x6001]"
    by code_simp
  with midi_packets_in_order[OF d r] r show ?thesis
    by (simp add: run_midi_def u hid_world_report)
qed

end
