(* ===== verification/GamePad.thy ===== *)
theory GamePad
  imports HidDevice
begin

text \<open>
  The game pad driver (\<^verbatim>\<open>lib/usbgamepad.c\<close>): an interpreter of HID report descriptors that extracts axes, hat
  switches and buttons from each report, and the driver around it.

  The interpreter reads the descriptor and the report byte by byte.  An access outside the descriptor, outside the
  report buffer of 64 bytes, or outside the arrays of axes and hats returns \<open>None\<close>, and so does a
  shift by the width of the type or more, which C leaves undefined.
\<close>

unbundle bit_operations_syntax

section \<open>Constants\<close>

definition HID_USAGE_PAGE :: u32 where "HID_USAGE_PAGE = 0x04"
definition HID_USAGE :: u32 where "HID_USAGE = 0x08"
definition HID_REPORT_COUNT :: u32 where "HID_REPORT_COUNT = 0x94"
definition HID_REPORT_SIZE :: u32 where "HID_REPORT_SIZE = 0x74"
definition HID_LOGICAL_MIN :: u32 where "HID_LOGICAL_MIN = 0x14"
definition HID_LOGICAL_MAX :: u32 where "HID_LOGICAL_MAX = 0x24"
definition HID_PHYSICAL_MIN :: u32 where "HID_PHYSICAL_MIN = 0x34"
definition HID_PHYSICAL_MAX :: u32 where "HID_PHYSICAL_MAX = 0x44"
definition HID_INPUT :: u32 where "HID_INPUT = 0x80"
definition HID_REPORT_ID :: u32 where "HID_REPORT_ID = 0x84"
definition HID_USAGE_PAGE_BUTTONS :: u32 where "HID_USAGE_PAGE_BUTTONS = 0x09"
definition HID_USAGE_JOYSTICK :: u32 where "HID_USAGE_JOYSTICK = 0x04"
definition HID_USAGE_GAMEPAD :: u32 where "HID_USAGE_GAMEPAD = 0x05"
definition HID_USAGE_X :: u32 where "HID_USAGE_X = 0x30"
definition HID_USAGE_Y :: u32 where "HID_USAGE_Y = 0x31"
definition HID_USAGE_Z :: u32 where "HID_USAGE_Z = 0x32"
definition HID_USAGE_RX :: u32 where "HID_USAGE_RX = 0x33"
definition HID_USAGE_RY :: u32 where "HID_USAGE_RY = 0x34"
definition HID_USAGE_RZ :: u32 where "HID_USAGE_RZ = 0x35"
definition HID_USAGE_SLIDER :: u32 where "HID_USAGE_SLIDER = 0x36"
definition HID_USAGE_HATSWITCH :: u32 where "HID_USAGE_HATSWITCH = 0x39"
definition UNDEFINED :: u32 where "UNDEFINED = - 123456789"
definition MAX_AXIS :: nat where "MAX_AXIS = 6"
definition MAX_HATS :: nat where "MAX_HATS = 6"

definition REPORT_BUFFER_SIZE :: nat where "REPORT_BUFFER_SIZE = 64"

section \<open>State\<close>

text \<open>Signed numbers are kept as the words that hold them; \<open>sint\<close> reads them.\<close>

record gamepad_axis =
  ax_value :: u32
  ax_minimum :: u32
  ax_maximum :: u32

record USPiGamePadState =
  gs_naxes :: u32
  gs_axes :: "gamepad_axis list"
  gs_nhats :: u32
  gs_hats :: "u32 list"
  gs_nbuttons :: u32
  gs_buttons :: u32

record TUSBGamePadDevice =
  gp_USBFunction :: TUSBFunction
  gp_nDeviceIndex :: u32
  gp_pEndpointIn :: "addr option"
  gp_pEndpointOut :: "addr option"
  gp_State :: USPiGamePadState
  gp_pStatusHandler :: "addr option"
  gp_usReportDescriptorLength :: u16
  gp_pHIDReportDescriptor :: uintptr
  gp_URB :: addr
  gp_pReportBuffer :: uintptr
  gp_nReportSize :: u16

datatype gamepad_call = GamePadStatus addr u32 USPiGamePadState

text \<open>\<open>n\<close> is what the memory of the object holds in the device index, which the constructor does not write.\<close>

definition USBGamePadDevice :: "TUSBFunction \<Rightarrow> addr \<Rightarrow> uintptr \<Rightarrow> u32 \<Rightarrow> TUSBGamePadDevice option" where
  "USBGamePadDevice pDevice u pReportBuffer n = do {
     f \<leftarrow> USBFunctionCopy pDevice;
     c_assert (pReportBuffer \<noteq> 0);
     Some \<lparr>gp_USBFunction = f\<lparr>fn_Configure := Some GamePadConfigure\<rparr>, gp_nDeviceIndex = n, gp_pEndpointIn = None,
       gp_pEndpointOut = None,
       gp_State = \<lparr>gs_naxes = 0, gs_axes = replicate MAX_AXIS \<lparr>ax_value = 0, ax_minimum = 0, ax_maximum = 0\<rparr>,
         gs_nhats = 0, gs_hats = replicate MAX_HATS 0, gs_nbuttons = 0, gs_buttons = 0\<rparr>,
       gp_pStatusHandler = None, gp_usReportDescriptorLength = 0, gp_pHIDReportDescriptor = 0, gp_URB = u,
       gp_pReportBuffer = pReportBuffer, gp_nReportSize = 0\<rparr> }"

definition free_endpoint_option :: "addr option \<Rightarrow> 'a io_world_scheme \<Rightarrow> 'a io_world_scheme option" where
  "free_endpoint_option p w = (case p of None \<Rightarrow> Some w | Some a \<Rightarrow> free_endpoint a w)"

definition CUSBGamePadDevice_dtor ::
    "TUSBGamePadDevice \<Rightarrow> 'a io_world_scheme \<Rightarrow> (TUSBGamePadDevice \<times> 'a io_world_scheme) option" where
  "CUSBGamePadDevice_dtor d w = do {
     let d = d\<lparr>gp_pHIDReportDescriptor := 0, gp_pReportBuffer := 0\<rparr>;
     w \<leftarrow> free_endpoint_option (gp_pEndpointIn d) w;
     w \<leftarrow> free_endpoint_option (gp_pEndpointOut d) w;
     f \<leftarrow> USBFunction_dtor (gp_USBFunction d);
     Some (d\<lparr>gp_pEndpointIn := None, gp_pEndpointOut := None, gp_USBFunction := f\<rparr>, w) }"

section \<open>Bit fields\<close>

text \<open>\<^verbatim>\<open>1 << n\<close> and \<^verbatim>\<open>x << n\<close>, defined for shifts below the width of the type.\<close>

definition shl :: "u32 \<Rightarrow> u32 \<Rightarrow> u32 option" where
  "shl x n = (if n < 32 then Some (push_bit (unat n) x) else None)"

text \<open>\<open>buf\<close> is the report buffer.  The mask is a \<^verbatim>\<open>u8\<close>.\<close>

definition bit_get_step :: "u8 list \<Rightarrow> u32 \<Rightarrow> u32 \<Rightarrow> u32 \<Rightarrow> u32 \<Rightarrow> u32 \<Rightarrow> (u32 \<times> u32) option" where
  "bit_get_step buf offset len i j result =
     (if offset div 8 = (offset + len - 1) div 8 then do {
        a \<leftarrow> shl 1 (offset mod 8 + len);
        b \<leftarrow> shl 1 (offset mod 8);
        let m = (ucast (a - b) :: u8);
        v \<leftarrow> array_get buf (unat i);
        Some (j, drop_bit (unat (offset mod 8)) (ucast (v AND m))) }
      else if i = offset div 8 then do {
        b \<leftarrow> shl 1 (offset mod 8);
        let m = (ucast (0x100 - b) :: u8);
        let j = j + (8 - offset mod 8);
        v \<leftarrow> array_get buf (unat i);
        r \<leftarrow> shl (drop_bit (unat (offset mod 8)) (ucast (v AND m))) (len - j);
        Some (j, r) }
      else if i = (offset + len - 1) div 8 then do {
        a \<leftarrow> shl 1 (offset mod 8 + len);
        let m = (ucast (a - 1) :: u8);
        v \<leftarrow> array_get buf (unat i);
        Some (j, result OR ucast (v AND m)) }
      else do {
        let j = j + 8;
        v \<leftarrow> array_get buf (unat i);
        r \<leftarrow> shl (ucast v) (len - j);
        Some (j, result OR r) })"

function bit_get_loop :: "u8 list \<Rightarrow> u32 \<Rightarrow> u32 \<Rightarrow> u32 \<Rightarrow> u32 \<Rightarrow> u32 \<Rightarrow> u32 option" where
  "bit_get_loop buf offset len i j result =
     (if i < (offset + len + 7) div 8 then do {
        (j, result) \<leftarrow> bit_get_step buf offset len i j result;
        bit_get_loop buf offset len (i + 1) j result }
      else Some result)"
  by pat_completeness auto

termination
proof (relation "measure (\<lambda>(buf, offset, len, i, j, result). unat ((offset + len + 7) div 8) - unat i)", goal_cases)
  case (2 buf offset len i j result)
  then have "unat i < unat ((offset + len + 7) div 8)" by (simp add: word_less_nat_alt)
  with unat_inc_less[OF 2(1)] show ?case by simp
qed simp

declare bit_get_loop.simps [simp del]

definition BitGetUnsigned :: "u8 list \<Rightarrow> u32 \<Rightarrow> u32 \<Rightarrow> u32 option" where
  "BitGetUnsigned buf offset len = bit_get_loop buf offset len (offset div 8) 0 0"

definition BitGetSigned :: "u8 list \<Rightarrow> u32 \<Rightarrow> u32 \<Rightarrow> u32 option" where
  "BitGetSigned buf offset len = do {
     result \<leftarrow> BitGetUnsigned buf offset len;
     s \<leftarrow> shl 1 (len - 1);
     if result AND s \<noteq> 0 then do {
       b \<leftarrow> shl 1 len;
       Some (result OR (0xFFFFFFFF - (b - 1))) }
     else Some result }"

section \<open>The descriptor interpreter\<close>

datatype decode_state = NoPad | GamePad | GamePadButton | GamePadAxis | GamePadHat

record decode_vars =
  dv_offset :: u32
  dv_size :: u32
  dv_count :: u32
  dv_lmax :: u32
  dv_lmin :: u32
  dv_pmin :: u32
  dv_pmax :: u32
  dv_naxes :: u32
  dv_nhats :: u32
  dv_id :: u32
  dv_state :: decode_state
  dv_pad :: USPiGamePadState

definition decode_init :: "USPiGamePadState \<Rightarrow> decode_vars" where
  "decode_init st = \<lparr>dv_offset = 0, dv_size = 0, dv_count = 0, dv_lmax = UNDEFINED, dv_lmin = UNDEFINED, dv_pmin = UNDEFINED,
     dv_pmax = UNDEFINED, dv_naxes = 0, dv_nhats = 0, dv_id = 0, dv_state = NoPad, dv_pad = st\<rparr>"

text \<open>The two loops over the values of one input item; \<open>i\<close> counts from 0.\<close>

definition put_axis :: "u8 list \<Rightarrow> u32 \<Rightarrow> decode_vars \<Rightarrow> decode_vars option" where
  "put_axis buf i v = do {
     let mn = (if dv_lmin v \<noteq> UNDEFINED then dv_lmin v else dv_pmin v);
     let mx = (if dv_lmax v \<noteq> UNDEFINED then dv_lmax v else dv_pmax v);
     a \<leftarrow> array_get (gs_axes (dv_pad v)) (unat (dv_naxes v));
     value \<leftarrow> (if sint mn < 0 then BitGetSigned buf (dv_offset v + i * dv_size v) (dv_size v)
               else BitGetUnsigned buf (dv_offset v + i * dv_size v) (dv_size v));
     axes \<leftarrow> array_set (gs_axes (dv_pad v)) (unat (dv_naxes v)) \<lparr>ax_value = value, ax_minimum = mn, ax_maximum = mx\<rparr>;
     Some (v\<lparr>dv_pad := (dv_pad v)\<lparr>gs_axes := axes\<rparr>, dv_naxes := dv_naxes v + 1\<rparr>) }"

definition put_hat :: "u8 list \<Rightarrow> u32 \<Rightarrow> decode_vars \<Rightarrow> decode_vars option" where
  "put_hat buf i v = do {
     value \<leftarrow> BitGetUnsigned buf (dv_offset v + i * dv_size v) (dv_size v);
     hats \<leftarrow> array_set (gs_hats (dv_pad v)) (unat (dv_nhats v)) value;
     Some (v\<lparr>dv_pad := (dv_pad v)\<lparr>gs_hats := hats\<rparr>, dv_nhats := dv_nhats v + 1\<rparr>) }"

text \<open>\<open>for (int i = 0; i < count && i < MAX; i++)\<close>, with \<open>n\<close> iterations left of \<open>MAX\<close>.\<close>

fun value_loop :: "(u32 \<Rightarrow> decode_vars \<Rightarrow> decode_vars option) \<Rightarrow> nat \<Rightarrow> u32 \<Rightarrow> u32 \<Rightarrow> decode_vars \<Rightarrow> decode_vars option" where
  "value_loop f 0 i cnt v = Some v"
| "value_loop f (Suc n) i cnt v =
     (if i < cnt then do { v \<leftarrow> f i v; value_loop f n (i + 1) cnt v } else Some v)"

definition decode_input :: "u8 list \<Rightarrow> u32 \<Rightarrow> decode_vars \<Rightarrow> decode_vars option" where
  "decode_input buf arg v = do {
     v \<leftarrow> (if arg AND 0x03 = 0x02 then
             (if dv_state v = GamePadAxis then do {
                v \<leftarrow> value_loop (put_axis buf) MAX_AXIS 0 (dv_count v) v;
                Some (v\<lparr>dv_state := GamePad\<rparr>) }
              else if dv_state v = GamePadHat then do {
                v \<leftarrow> value_loop (put_hat buf) MAX_HATS 0 (dv_count v) v;
                Some (v\<lparr>dv_state := GamePad\<rparr>) }
              else if dv_state v = GamePadButton then do {
                b \<leftarrow> BitGetUnsigned buf (dv_offset v) (dv_size v * dv_count v);
                Some (v\<lparr>dv_pad := (dv_pad v)\<lparr>gs_nbuttons := dv_count v, gs_buttons := b\<rparr>, dv_state := GamePad\<rparr>) }
              else Some v)
           else Some v);
     Some (v\<lparr>dv_offset := dv_offset v + dv_count v * dv_size v\<rparr>) }"

definition decode_usage :: "u32 \<Rightarrow> decode_vars \<Rightarrow> decode_vars" where
  "decode_usage arg v =
     (if arg = HID_USAGE_JOYSTICK \<or> arg = HID_USAGE_GAMEPAD then v\<lparr>dv_state := GamePad\<rparr>
      else if arg \<in> {HID_USAGE_X, HID_USAGE_Y, HID_USAGE_Z, HID_USAGE_RX, HID_USAGE_RY, HID_USAGE_RZ, HID_USAGE_SLIDER}
      then (if dv_state v = GamePad then v\<lparr>dv_state := GamePadAxis\<rparr> else v)
      else if arg = HID_USAGE_HATSWITCH then (if dv_state v = GamePad then v\<lparr>dv_state := GamePadHat\<rparr> else v)
      else v)"

text \<open>The switch over the item tags.\<close>

definition decode_tag :: "u8 list \<Rightarrow> u32 \<Rightarrow> u32 \<Rightarrow> decode_vars \<Rightarrow> decode_vars option" where
  "decode_tag buf tag arg v =
     (if tag = HID_USAGE_PAGE then
        Some (if arg = HID_USAGE_PAGE_BUTTONS \<and> dv_state v = GamePad then v\<lparr>dv_state := GamePadButton\<rparr> else v)
      else if tag = HID_USAGE then Some (decode_usage arg v)
      else if tag = HID_LOGICAL_MIN then Some (v\<lparr>dv_lmin := arg\<rparr>)
      else if tag = HID_PHYSICAL_MIN then Some (v\<lparr>dv_pmin := arg\<rparr>)
      else if tag = HID_LOGICAL_MAX then Some (v\<lparr>dv_lmax := arg\<rparr>)
      else if tag = HID_PHYSICAL_MAX then Some (v\<lparr>dv_pmax := arg\<rparr>)
      else if tag = HID_REPORT_SIZE then Some (v\<lparr>dv_size := arg\<rparr>)
      else if tag = HID_REPORT_COUNT then Some (v\<lparr>dv_count := arg\<rparr>)
      else if tag = HID_INPUT then decode_input buf arg v
      else Some v)"

text \<open>
  How an item ends: the loop goes on, it is left by \<^verbatim>\<open>break\<close> at a second report id, or the function
  returns at once because the report carries another id.
\<close>

datatype decode_result = Go decode_vars | Leave decode_vars | Return decode_vars

definition decode_item :: "u8 list \<Rightarrow> u32 \<Rightarrow> u32 \<Rightarrow> decode_vars \<Rightarrow> decode_result option" where
  "decode_item buf tag arg v =
     (if tag = HID_REPORT_ID then
        if dv_id v \<noteq> 0 then Some (Leave v)
        else do {
          rid \<leftarrow> BitGetUnsigned buf 0 8;
          if rid \<noteq> 0 \<and> rid \<noteq> arg then Some (Return v)
          else map_option Go (decode_tag buf tag arg (v\<lparr>dv_id := arg, dv_offset := 8\<rparr>)) }
      else map_option Go (decode_tag buf tag arg v))"

text \<open>
  Reading an item: the first byte holds tag and size; the bytes are \<^verbatim>\<open>s8\<close>, so that they are extended with
  their sign.  \<open>pos\<close> is the position of \<^verbatim>\<open>pHIDReportDescriptor\<close> in the descriptor, \<open>n\<close> the \<^verbatim>\<open>u16\<close> that counts the bytes left.
\<close>

definition s8_at :: "u8 list \<Rightarrow> nat \<Rightarrow> u32 option" where
  "s8_at desc pos = map_option scast (array_get desc pos)"

definition read_arg :: "u8 list \<Rightarrow> u32 \<Rightarrow> nat \<Rightarrow> u16 \<Rightarrow> (u32 \<times> nat \<times> u16) option" where
  "read_arg desc item pos n =
     (if item AND 0x03 = 0 then Some (0, pos, n)
      else if item AND 0x03 = 1 then do {
        b0 \<leftarrow> s8_at desc pos;
        Some (b0, pos + 1, n - 1) }
      else if item AND 0x03 = 2 then do {
        b0 \<leftarrow> s8_at desc pos;
        b1 \<leftarrow> s8_at desc (pos + 1);
        Some (b0 AND 0xFF OR push_bit 8 b1, pos + 2, n - 2) }
      else do {
        b0 \<leftarrow> s8_at desc pos;
        b1 \<leftarrow> s8_at desc (pos + 1);
        b2 \<leftarrow> s8_at desc (pos + 2);
        b3 \<leftarrow> s8_at desc (pos + 3);
        Some (b0 OR push_bit 8 b1 OR push_bit 16 b2 OR push_bit 24 b3, pos + 4, n - 4) })"

lemma s8_at_bound: "s8_at desc pos = Some b \<Longrightarrow> pos < length desc"
  by (auto simp: s8_at_def array_get_def split: if_splits)

lemma read_arg_pos: "read_arg desc item pos n = Some (arg, pos', n') \<Longrightarrow> pos \<le> pos'"
  by (auto simp: read_arg_def bind_Some_iff split: if_splits)

function decode_loop :: "u8 list \<Rightarrow> u8 list \<Rightarrow> nat \<Rightarrow> u16 \<Rightarrow> decode_vars \<Rightarrow> decode_result option" where
  "decode_loop desc buf pos n v =
     (if n > 0 then do {
        item \<leftarrow> s8_at desc pos;
        (arg, pos', n') \<leftarrow> read_arg desc item (pos + 1) (n - 1);
        r \<leftarrow> decode_item buf (item AND 0xFC) arg v;
        (case r of Go v \<Rightarrow> decode_loop desc buf pos' n' v | Leave v \<Rightarrow> Some (Leave v) | Return v \<Rightarrow> Some (Return v)) }
      else Some (Leave v))"
  by pat_completeness auto

termination
proof (relation "measure (\<lambda>(desc, buf, pos, n, v). length desc - pos)", goal_cases)
  case (2 desc buf pos n v item p arg q pos' n' r v')
  then show ?case using s8_at_bound[of desc pos] read_arg_pos[of desc item "pos + 1" "n - 1"] by force
qed simp

declare decode_loop.simps [simp del]

text \<open>The two buffers as the interpreter finds them in memory.\<close>

definition descriptor_bytes :: "TUSBGamePadDevice \<Rightarrow> mem \<Rightarrow> u8 list" where
  "descriptor_bytes d m = mem_read (gp_pHIDReportDescriptor d) (unat (gp_usReportDescriptorLength d)) m"

definition buffer_bytes :: "TUSBGamePadDevice \<Rightarrow> mem \<Rightarrow> u8 list" where
  "buffer_bytes d m = mem_read (gp_pReportBuffer d) REPORT_BUFFER_SIZE m"

definition decode_report ::
    "u8 list \<Rightarrow> u16 \<Rightarrow> u8 list \<Rightarrow> TUSBGamePadDevice \<Rightarrow> TUSBGamePadDevice option" where
  "decode_report desc n buf d = do {
     r \<leftarrow> decode_loop desc buf 0 n (decode_init (gp_State d));
     (case r of
        Return v \<Rightarrow> Some (d\<lparr>gp_State := dv_pad v\<rparr>)
      | Go v \<Rightarrow> None
      | Leave v \<Rightarrow> Some (d\<lparr>gp_State := (dv_pad v)\<lparr>gs_naxes := dv_naxes v, gs_nhats := dv_nhats v\<rparr>,
                         gp_nReportSize := ucast ((dv_offset v + 7) div 8)\<rparr>)) }"

definition USBGamePadDeviceDecodeReport :: "TUSBGamePadDevice \<Rightarrow> mem \<Rightarrow> TUSBGamePadDevice option" where
  "USBGamePadDeviceDecodeReport d m =
     decode_report (descriptor_bytes d m) (gp_usReportDescriptorLength d) (buffer_bytes d m) d"

section \<open>The driver\<close>

definition USBGamePadDeviceRegisterStatusHandler :: "TUSBGamePadDevice \<Rightarrow> addr option \<Rightarrow> TUSBGamePadDevice option" where
  "USBGamePadDeviceRegisterStatusHandler d h = do {
     c_assert (h \<noteq> None); Some (d\<lparr>gp_pStatusHandler := h\<rparr>) }"

definition USBGamePadDeviceStartRequest ::
    "uintptr \<Rightarrow> TUSBGamePadDevice \<Rightarrow> 'a io_world_scheme \<Rightarrow> (bool \<times> 'a io_world_scheme) option" where
  "USBGamePadDeviceStartRequest pThis d w =
     start_report_request 3 (gp_USBFunction d) (gp_URB d) pThis (gp_pEndpointIn d) (gp_pReportBuffer d)
       (ucast (gp_nReportSize d)) w"

definition USBGamePadDeviceCompletionRoutine ::
    "addr \<Rightarrow> uintptr \<Rightarrow> TUSBGamePadDevice \<Rightarrow> 'a io_world_scheme
     \<Rightarrow> (TUSBGamePadDevice \<times> gamepad_call list \<times> 'a io_world_scheme) option" where
  "USBGamePadDeviceCompletionRoutine pURB pThis d w = do {
     c_assert (gp_URB d = pURB);
     n \<leftarrow> request_length pURB w;
     (d, cs) \<leftarrow> (case (n, gp_pStatusHandler d) of
         (Some k, Some h) \<Rightarrow>
           if k > 0 \<and> gp_pHIDReportDescriptor d \<noteq> 0 then do {
             d \<leftarrow> USBGamePadDeviceDecodeReport d (w_mem w);
             Some (d, [GamePadStatus h (gp_nDeviceIndex d - 1) (gp_State d)]) }
           else Some (d, [])
       | _ \<Rightarrow> Some (d, []));
     w \<leftarrow> end_request (gp_URB d) w;
     (_, w) \<leftarrow> USBGamePadDeviceStartRequest pThis d w;
     Some (d, cs, w) }"

definition USBGamePadDeviceGetReport ::
    "'a io_world_scheme driver_code \<Rightarrow> locals \<Rightarrow> TUSBGamePadDevice \<Rightarrow> 'a io_world_scheme
     \<Rightarrow> (TUSBGamePadDevice \<times> 'a io_world_scheme) option" where
  "USBGamePadDeviceGetReport drv l d w = do {
     _ \<leftarrow> USBFunctionGetHost (w_store w) (gp_USBFunction d);
     ep0 \<leftarrow> USBFunctionGetEndpoint0 (w_store w) (gp_USBFunction d);
     bInterfaceNumber \<leftarrow> USBFunctionGetInterfaceNumber (gp_USBFunction d);
     (n, w) \<leftarrow> usb_control_data drv l (Some ep0) (REQUEST_IN OR REQUEST_CLASS OR REQUEST_TO_INTERFACE) GET_REPORT
                 (push_bit 8 REPORT_TYPE_INPUT OR 0) (ucast bInterfaceNumber) (gp_pReportBuffer d) (gp_nReportSize d) w;
     if n > 0 then do { d \<leftarrow> USBGamePadDeviceDecodeReport d (w_mem w); Some (d, w) }
     else Some (d, w) }"

text \<open>
  The two messages that switch on a PS3 controller.  \<open>pWriteBuf\<close> is the static buffer of the function, which keeps the
  LED bits it was given before; results are not looked at.
\<close>

definition leds :: "u8 list" where "leds = [0x00, 0x01, 0x02, 0x04, 0x08]"

definition set_report ::
    "'a io_world_scheme driver_code \<Rightarrow> locals \<Rightarrow> TUSBFunction \<Rightarrow> u16 \<Rightarrow> uintptr \<Rightarrow> u16 \<Rightarrow> 'a io_world_scheme
     \<Rightarrow> 'a io_world_scheme option" where
  "set_report drv l f usValue p n w = do {
     _ \<leftarrow> USBFunctionGetHost (w_store w) f;
     ep0 \<leftarrow> USBFunctionGetEndpoint0 (w_store w) f;
     bInterfaceNumber \<leftarrow> USBFunctionGetInterfaceNumber f;
     (_, w) \<leftarrow> usb_control_data drv l (Some ep0) (REQUEST_OUT OR REQUEST_CLASS OR REQUEST_TO_INTERFACE) SET_REPORT
                 usValue (ucast bInterfaceNumber) p n w;
     Some w }"

definition USBGamePadDevicePS3Configure ::
    "'a io_world_scheme driver_code \<Rightarrow> locals \<Rightarrow> uintptr \<Rightarrow> TUSBGamePadDevice \<Rightarrow> 'a io_world_scheme
     \<Rightarrow> 'a io_world_scheme option" where
  "USBGamePadDevicePS3Configure drv l pWriteBuf d w = do {
     let w = w\<lparr>w_mem := mem_write (gp_pReportBuffer d) [0x42, 0x0C, 0x00, 0x00] (w_mem w)\<rparr>;
     w \<leftarrow> set_report drv l (gp_USBFunction d) (push_bit 8 REPORT_TYPE_FEATURE OR 0xF4) (gp_pReportBuffer d) 4 w;
     led \<leftarrow> array_get leds (unat (gp_nDeviceIndex d));
     let w = w\<lparr>w_mem := (w_mem w)(pWriteBuf + 9 := w_mem w (pWriteBuf + 9) OR push_bit 1 led)\<rparr>;
     set_report drv l (gp_USBFunction d) (push_bit 8 REPORT_TYPE_OUTPUT OR 0x01) pWriteBuf 48 w }"

text \<open>The loop over the endpoint descriptors: one interrupt endpoint per direction.\<close>

definition take_pad_endpoint ::
    "TUSBEndpointDescriptor \<Rightarrow> TUSBGamePadDevice \<Rightarrow> 'a io_world_scheme
     \<Rightarrow> (bool \<times> TUSBGamePadDevice \<times> 'a io_world_scheme) option" where
  "take_pad_endpoint desc d w =
     (if is_interrupt desc then
        if is_input desc then
          if gp_pEndpointIn d \<noteq> None
          then do { _ \<leftarrow> USBFunctionConfigurationError (gp_USBFunction d); Some (False, d, w) }
          else do {
            ep \<leftarrow> USBEndpoint2 (st_devs (w_store w)) (USBFunctionGetDevice (gp_USBFunction d)) (Some desc);
            let (a, w) = new_endpoint ep w;
            Some (True, d\<lparr>gp_pEndpointIn := Some a\<rparr>, w) }
        else
          if gp_pEndpointOut d \<noteq> None
          then do { _ \<leftarrow> USBFunctionConfigurationError (gp_USBFunction d); Some (False, d, w) }
          else do {
            ep \<leftarrow> USBEndpoint2 (st_devs (w_store w)) (USBFunctionGetDevice (gp_USBFunction d)) (Some desc);
            let (a, w) = new_endpoint ep w;
            Some (True, d\<lparr>gp_pEndpointOut := Some a\<rparr>, w) }
      else Some (True, d, w))"

partial_function (option) find_pad_endpoints ::
    "TUSBGamePadDevice \<Rightarrow> 'a io_world_scheme \<Rightarrow> (bool \<times> TUSBGamePadDevice \<times> 'a io_world_scheme) option" where
  "find_pad_endpoints d w = do {
     (pEndpointDesc, f) \<leftarrow> USBFunctionGetDescriptor (gp_USBFunction d) DESCRIPTOR_ENDPOINT;
     let d = d\<lparr>gp_USBFunction := f\<rparr>;
     (case pEndpointDesc of None \<Rightarrow> Some (True, d, w)
      | Some i \<Rightarrow> do {
          desc \<leftarrow> get_endpoint_descriptor f i;
          (ok, d, w) \<leftarrow> take_pad_endpoint desc d w;
          if ok then find_pad_endpoints d w else Some (False, d, w) }) }"

declare find_pad_endpoints.simps [code]

definition register_pad :: "addr \<Rightarrow> u32 \<Rightarrow> 'a io_world_scheme \<Rightarrow> 'a io_world_scheme option" where
  "register_pad ref nDeviceIndex w = do {
     let DeviceName = String \<lparr>s_pBuffer = None, s_nSize = 0, s_pInPtr = 0\<rparr>;
     DeviceName \<leftarrow> StringFormat (w_malloc w) DeviceName ''upad%u'' [VaInt nDeviceIndex];
     names \<leftarrow> DeviceNameServiceGet (w_names w);
     n \<leftarrow> StringGet DeviceName;
     names \<leftarrow> DeviceNameServiceAddDevice names (Some n) (Some ref) False;
     Some (w\<lparr>w_names := Some names\<rparr>) }"

text \<open>
  The part of \<^verbatim>\<open>Configure\<close> after the report descriptor has been read; vendor and product are those of the
  device descriptor.
\<close>

definition start_pad ::
    "'a io_world_scheme driver_code \<Rightarrow> locals \<Rightarrow> addr \<Rightarrow> uintptr \<Rightarrow> uintptr \<Rightarrow> u16 \<Rightarrow> u16 \<Rightarrow> TUSBGamePadDevice
     \<Rightarrow> 'a io_world_scheme \<Rightarrow> (bool \<times> TUSBGamePadDevice \<times> 'a io_world_scheme) option" where
  "start_pad drv l ref pThis pWriteBuf idVendor idProduct d w = do {
     let w = w\<lparr>w_mem := (w_mem w)(gp_pReportBuffer d := 0)\<rparr>;
     d \<leftarrow> USBGamePadDeviceDecodeReport d (w_mem w);
     if gs_naxes (gp_State d) = 0 \<and> gs_nhats (gp_State d) = 0 \<and> gs_nbuttons (gp_State d) = 0 then Some (False, d, w)
     else do {
       (ok, w) \<leftarrow> USBFunctionConfigure drv l (gp_USBFunction d) w;
       if \<not> ok then Some (False, d, w)
       else do {
         let d = d\<lparr>gp_nDeviceIndex := w_nDeviceNumber w GamePadConfigure\<rparr>;
         let w = w\<lparr>w_nDeviceNumber := (w_nDeviceNumber w)(GamePadConfigure := w_nDeviceNumber w GamePadConfigure + 1)\<rparr>;
         w \<leftarrow> (if idVendor = 0x054C \<and> idProduct = 0x0268 then USBGamePadDevicePS3Configure drv l pWriteBuf d w
               else Some w);
         w \<leftarrow> register_pad ref (gp_nDeviceIndex d) w;
         (ok, w) \<leftarrow> USBGamePadDeviceStartRequest pThis d w;
         Some (ok, d, w) } } }"

definition USBGamePadDeviceConfigure ::
    "'a io_world_scheme driver_code \<Rightarrow> locals \<Rightarrow> addr \<Rightarrow> uintptr \<Rightarrow> uintptr \<Rightarrow> uintptr \<Rightarrow> u16 \<Rightarrow> u16 \<Rightarrow> TUSBGamePadDevice
     \<Rightarrow> 'a io_world_scheme \<Rightarrow> (bool \<times> TUSBGamePadDevice \<times> 'a io_world_scheme) option" where
  "USBGamePadDeviceConfigure drv l ref pThis pDescriptor pWriteBuf idVendor idProduct d w = do {
     nEndpoints \<leftarrow> USBFunctionGetNumEndpoints (gp_USBFunction d);
     if nEndpoints < 1 then do { _ \<leftarrow> USBFunctionConfigurationError (gp_USBFunction d); Some (False, d, w) }
     else do {
       (pHIDDesc, f) \<leftarrow> USBFunctionGetDescriptor (gp_USBFunction d) DESCRIPTOR_HID;
       let d = d\<lparr>gp_USBFunction := f\<rparr>;
       hid \<leftarrow> (case pHIDDesc of None \<Rightarrow> Some None | Some i \<Rightarrow> map_option Some (get_hid_descriptor f i));
       (case hid of
          None \<Rightarrow> do { _ \<leftarrow> USBFunctionConfigurationError (gp_USBFunction d); Some (False, d, w) }
        | Some pHIDDesc \<Rightarrow>
            if hid_wReportDescriptorLength pHIDDesc = 0
            then do { _ \<leftarrow> USBFunctionConfigurationError (gp_USBFunction d); Some (False, d, w) }
            else do {
              (ok, d, w) \<leftarrow> find_pad_endpoints d w;
              if \<not> ok then Some (False, d, w)
              else if gp_pEndpointIn d = None
              then do { _ \<leftarrow> USBFunctionConfigurationError (gp_USBFunction d); Some (False, d, w) }
              else do {
                let d = d\<lparr>gp_usReportDescriptorLength := hid_wReportDescriptorLength pHIDDesc,
                          gp_pHIDReportDescriptor := pDescriptor\<rparr>;
                c_assert (gp_pHIDReportDescriptor d \<noteq> 0);
                (n, w) \<leftarrow> get_report_descriptor drv l (gp_USBFunction d) pHIDDesc (gp_pHIDReportDescriptor d)
                            (hid_wReportDescriptorLength pHIDDesc) w;
                if n \<noteq> uint (hid_wReportDescriptorLength pHIDDesc) then Some (False, d, w)
                else start_pad drv l ref pThis pWriteBuf idVendor idProduct d w } }) } }"

section \<open>The items of a descriptor\<close>

text \<open>
  A report descriptor is a list of items, each with a tag and an argument.  A descriptor that ends inside an item
  has no such list.
\<close>

fun sext_bytes :: "u8 list \<Rightarrow> u32" where
  "sext_bytes [] = 0"
| "sext_bytes [a] = scast a"
| "sext_bytes [a, b] = ucast a OR push_bit 8 (scast b)"
| "sext_bytes (a # b # c # d # _) = scast a OR push_bit 8 (scast b) OR push_bit 16 (scast c) OR push_bit 24 (scast d)"
| "sext_bytes _ = 0"

definition item_size :: "u8 \<Rightarrow> nat" where
  "item_size b = (if b AND 3 = 3 then 4 else unat (b AND 3))"

function parse_items :: "u8 list \<Rightarrow> (u32 \<times> u32) list option" where
  "parse_items [] = Some []"
| "parse_items (b # bs) =
     (if length bs < item_size b then None
      else map_option (Cons (ucast (b AND 0xFC), sext_bytes (take (item_size b) bs))) (parse_items (drop (item_size b) bs)))"
  by pat_completeness auto

termination
  by (relation "measure length") auto

fun run_items :: "u8 list \<Rightarrow> (u32 \<times> u32) list \<Rightarrow> decode_vars \<Rightarrow> decode_result option" where
  "run_items buf [] v = Some (Leave v)"
| "run_items buf ((tag, arg) # its) v = do {
     r \<leftarrow> decode_item buf tag arg v;
     (case r of Go v \<Rightarrow> run_items buf its v | Leave v \<Rightarrow> Some (Leave v) | Return v \<Rightarrow> Some (Return v)) }"

lemma scast_and_ucast: "(scast (b :: u8) :: u32) AND ucast (c :: u8) = ucast (b AND c)"
proof (rule bit_word_eqI)
  fix n
  show "bit ((scast b :: u32) AND ucast c) n \<longleftrightarrow> bit (ucast (b AND c) :: u32) n"
  proof (cases "bit c n")
    case True
    then have "min 7 n = n" using bit_imp_le_length[of c n] by simp
    with True show ?thesis using bit_imp_le_length[of c n] by (simp add: bit_simps)
  qed (simp add: bit_simps)
qed

lemmas byte_masks = scast_and_ucast[of _ 3, simplified] scast_and_ucast[of _ "0xFC", simplified]
  scast_and_ucast[of _ "0xFF", simplified]

lemma and3_cases: "(b :: u8) AND 3 = 0 \<or> b AND 3 = 1 \<or> b AND 3 = 2 \<or> b AND 3 = 3"
proof -
  have "b AND 3 = take_bit 2 b" by (simp add: take_bit_eq_mask mask_eq_exp_minus_1)
  then have "unat (b AND 3) < 4" using take_bit_nat_less_exp[of 2 "unat b"] by (simp only: unsigned_take_bit_eq) simp
  then have "unat (b AND 3) \<in> {0, 1, 2, 3}" by auto
  then show ?thesis by (auto simp: word_unat_eq_iff)
qed

lemma byte_and_FF: "(b :: u8) AND 0xFF = b"
proof -
  have "b AND 0xFF = b AND mask LENGTH(8)" by (simp add: mask_eq_exp_minus_1)
  also have "\<dots> = b" by (rule bit_word_eqI) (auto simp: bit_simps)
  finally show ?thesis .
qed

text \<open>Reading an argument is taking the bytes the item announces; it fails when they are not there.\<close>

lemma read_arg_eq:
  assumes "pos \<le> length desc"
  shows "read_arg desc (scast b) pos n =
     (if length (drop pos desc) < item_size b then None
      else Some (sext_bytes (take (item_size b) (drop pos desc)), pos + item_size b, n - of_nat (item_size b)))"
proof -
  have s8: "s8_at desc (pos + k) = (if k < length (drop pos desc) then Some (scast (drop pos desc ! k)) else None)" for k
    by (auto simp: s8_at_def array_get_def)
  note s8_0 = s8[of 0, simplified]
  have i: "(scast b :: u32) AND 3 = ucast (b AND 3)" by (rule byte_masks)
  consider "b AND 3 = 0" | "b AND 3 = 1" | "b AND 3 = 2" | "b AND 3 = 3" using and3_cases[of b] by blast
  then show ?thesis
  proof cases
    case 1
    then show ?thesis by (simp add: read_arg_def i item_size_def)
  next
    case 2
    then show ?thesis
      using s8_0 assms by (cases "pos = length desc"; cases "drop pos desc") (auto simp: read_arg_def i item_size_def)
  next
    case 3
    show ?thesis
    proof (cases "length (drop pos desc) < 2")
      case True
      then have "s8_at desc (pos + 1) = None" using s8[of 1] by simp
      with 3 True show ?thesis by (auto simp: read_arg_def i item_size_def bind_eq_None_conv)
    next
      case False
      then obtain x y r where d: "drop pos desc = x # y # r"
        by (cases "drop pos desc"; cases "tl (drop pos desc)") auto
      have "s8_at desc pos = Some (scast x)" "s8_at desc (pos + 1) = Some (scast y)"
        using s8[of 0] s8[of 1] by (simp_all add: d)
      moreover have "take 2 (drop pos desc) = [x, y]" by (simp add: d)
      ultimately show ?thesis using 3 False by (simp add: read_arg_def i item_size_def byte_masks byte_and_FF)
    qed
  next
    case 4
    show ?thesis
    proof (cases "length (drop pos desc) < 4")
      case True
      then have "s8_at desc (pos + 3) = None" using s8[of 3] by simp
      with 4 True show ?thesis
        by (auto simp: read_arg_def i item_size_def bind_eq_None_conv)
    next
      case False
      then obtain x y z u r where d: "drop pos desc = x # y # z # u # r"
        by (cases "drop pos desc"; cases "tl (drop pos desc)"; cases "tl (tl (drop pos desc))"; cases "tl (tl (tl (drop pos desc)))") auto
      have "s8_at desc pos = Some (scast x)" "s8_at desc (pos + 1) = Some (scast y)"
        "s8_at desc (pos + 2) = Some (scast z)" "s8_at desc (pos + 3) = Some (scast u)"
        using s8[of 0] s8[of 1] s8[of 2] s8[of 3] by (simp_all add: d)
      moreover have "take 4 (drop pos desc) = [x, y, z, u]" by (simp add: d)
      ultimately show ?thesis using 4 False by (simp add: read_arg_def i item_size_def)
    qed
  qed
qed

lemma item_size_le: "item_size b \<le> 4"
  using and3_cases[of b] by (auto simp: item_size_def)

text \<open>
  The loop over the bytes is the run over the items, as long as the descriptor is a list of items: the
  counter of remaining bytes reaches zero exactly at the end.
\<close>

lemma decode_loop_items:
  assumes "parse_items (drop pos desc) = Some its" and "pos \<le> length desc" and "length desc < 2 ^ 16"
    and "n = of_nat (length desc - pos)"
  shows "decode_loop desc buf pos n v = run_items buf its v"
  using assms
proof (induction its arbitrary: pos n v)
  case Nil
  then have "drop pos desc = []" by (cases "drop pos desc") (auto split: if_splits)
  with Nil have "n = 0" by simp
  with Nil show ?case by (simp add: decode_loop.simps)
next
  case (Cons it its)
  obtain b bs where d: "drop pos desc = b # bs" using Cons.prems(1) by (cases "drop pos desc") auto
  let ?k = "item_size b"
  have pos: "pos < length desc" using d by (metis drop_all list.distinct(1) not_le)
  have bs: "bs = drop (pos + 1) desc" using d by (metis Suc_eq_plus1 drop_Suc list.sel(3) tl_drop)
  from Cons.prems(1) d have len: "\<not> length bs < ?k"
    and it: "it = (ucast (b AND 0xFC), sext_bytes (take ?k bs))" and p: "parse_items (drop ?k bs) = Some its"
    by (auto split: if_splits)
  have end_pos: "pos + 1 + ?k \<le> length desc" using len bs pos by simp
  have s8: "s8_at desc pos = Some (scast b)" using d pos by (simp add: s8_at_def array_get_def nth_via_drop)
  have n0: "0 < n"
  proof -
    have "unat n = length desc - pos" using Cons.prems(3,4) by (simp add: unat_of_nat_small)
    with pos show ?thesis by (simp add: word_less_nat_alt)
  qed
  have arg: "read_arg desc (scast b) (pos + 1) (n - 1) = Some (sext_bytes (take ?k bs), pos + 1 + ?k, n - 1 - of_nat ?k)"
    using read_arg_eq[of "pos + 1" desc b "n - 1"] end_pos len bs by simp
  have n': "n - 1 - of_nat ?k = of_nat (length desc - (pos + 1 + ?k))"
    using end_pos Cons.prems(4) by (simp add: of_nat_diff)
  have p': "parse_items (drop (pos + 1 + ?k) desc) = Some its" using p bs by (simp add: add.commute)
  have IH: "decode_loop desc buf (pos + 1 + ?k) (n - 1 - of_nat ?k) = run_items buf its"
    by (rule ext) (rule Cons.IH[OF p' end_pos Cons.prems(3) n'])
  show ?case
    unfolding it
    by (subst decode_loop.simps) (simp add: n0 s8 arg[simplified] byte_masks IH[simplified])
qed

text \<open>A descriptor that ends inside an item is read past its end, unless the interpreter stops before.\<close>

lemma decode_loop_truncated:
  assumes "parse_items (drop pos desc) = None" and "pos \<le> length desc" and "length desc < 2 ^ 16"
    and "n = of_nat (length desc - pos)"
  shows "decode_loop desc buf pos n v = None
     \<or> (\<exists>v'. decode_loop desc buf pos n v = Some (Leave v') \<and> dv_id v' \<noteq> 0)
     \<or> (\<exists>v'. decode_loop desc buf pos n v = Some (Return v'))"
  using assms
proof (induction "length desc - pos" arbitrary: pos n v rule: less_induct)
  case less
  obtain b bs where d: "drop pos desc = b # bs" using less.prems(1) by (cases "drop pos desc") auto
  let ?k = "item_size b"
  have pos: "pos < length desc" using d by (metis drop_all list.distinct(1) not_le)
  have bs: "bs = drop (pos + 1) desc" using d by (metis Suc_eq_plus1 drop_Suc list.sel(3) tl_drop)
  have s8: "s8_at desc pos = Some (scast b)" using d pos by (simp add: s8_at_def array_get_def nth_via_drop)
  have n0: "0 < n"
  proof -
    have "unat n = length desc - pos" using less.prems(3,4) by (simp add: unat_of_nat_small)
    with pos show ?thesis by (simp add: word_less_nat_alt)
  qed
  show ?case
  proof (cases "length bs < ?k")
    case True
    then have "read_arg desc (scast b) (pos + 1) (n - 1) = None"
      using read_arg_eq[of "pos + 1" desc b "n - 1"] pos bs by simp
    then show ?thesis by (subst (1) decode_loop.simps) (simp add: n0 s8)
  next
    case False
    have end_pos: "pos + 1 + ?k \<le> length desc" using False bs pos by simp
    have arg: "read_arg desc (scast b) (pos + 1) (n - 1) = Some (sext_bytes (take ?k bs), pos + 1 + ?k, n - 1 - of_nat ?k)"
      using read_arg_eq[of "pos + 1" desc b "n - 1"] end_pos False bs by simp
    have n': "n - 1 - of_nat ?k = of_nat (length desc - (pos + 1 + ?k))"
      using end_pos less.prems(4) by (simp add: of_nat_diff)
    have p': "parse_items (drop (pos + 1 + ?k) desc) = None"
      using less.prems(1) d False bs by (simp add: add.commute)
    note IH = less.hyps[OF _ p' end_pos less.prems(3) n']
    have eq: "decode_loop desc buf pos n v = do {
        r \<leftarrow> decode_item buf (ucast (b AND 0xFC)) (sext_bytes (take ?k bs)) v;
        (case r of Go v \<Rightarrow> decode_loop desc buf (pos + 1 + ?k) (n - 1 - of_nat ?k) v | Leave v \<Rightarrow> Some (Leave v)
         | Return v \<Rightarrow> Some (Return v)) }"
      by (subst decode_loop.simps) (simp add: n0 s8 arg[simplified] byte_masks)
    show ?thesis
    proof (cases "decode_item buf (ucast (b AND 0xFC)) (sext_bytes (take ?k bs)) v")
      case None
      then show ?thesis unfolding eq by simp
    next
      case (Some r)
      have leave: "r = Leave v' \<Longrightarrow> dv_id v' \<noteq> 0" for v'
        using Some by (auto simp: decode_item_def bind_Some_iff split: if_splits)
      show ?thesis
      proof (cases r)
        case (Go v')
        with Some pos show ?thesis unfolding eq using IH[of v'] by simp
      next
        case (Leave v')
        with Some leave show ?thesis unfolding eq by simp
      next
        case (Return v')
        with Some show ?thesis unfolding eq by simp
      qed
    qed
  qed
qed

section \<open>Bit fields\<close>

text \<open>A field inside one byte.\<close>

lemma one_byte_loop:
  fixes offset len :: u32
  assumes l: "1 \<le> unat len" "unat offset mod 8 + unat len \<le> 8" and o: "unat offset + 16 < 2 ^ 32"
  shows "offset div 8 = (offset + len - 1) div 8" and "(offset + len + 7) div 8 = offset div 8 + 1"
proof -
  have sum: "unat (offset + len) = unat offset + unat len" using l o by (intro unat_plus_if_no_wrap) simp
  have le: "1 \<le> offset + len" using sum l(1) by (simp add: word_le_nat_alt)
  have dec: "unat (offset + len - 1) = unat offset + unat len - 1" using unat_minus_le[OF le] sum by simp
  have inc: "unat (offset + len + 7) = unat offset + unat len + 7"
    using l o sum by (subst unat_plus_if_no_wrap) simp_all
  have "(8 * q + r + k - 1) div 8 = q" if "r + k \<le> 8" "1 \<le> k" for q r k :: nat using that by linarith
  from this[OF l(2,1), of "unat offset div 8"] have "(unat offset + unat len - 1) div 8 = unat offset div 8" by simp
  then show "offset div 8 = (offset + len - 1) div 8" by (simp add: word_unat_eq_iff unat_div dec)
  have "(8 * q + r + k + 7) div 8 = q + 1" if "r + k \<le> 8" "1 \<le> k" for q r k :: nat using that by linarith
  from this[OF l(2,1), of "unat offset div 8"]
  have "(unat offset + unat len + 7) div 8 = unat offset div 8 + 1" by simp
  moreover have "unat (offset div 8 + 1) = unat offset div 8 + 1"
    using o by (subst unat_plus_if_no_wrap) (simp_all add: unat_div)
  ultimately show "(offset + len + 7) div 8 = offset div 8 + 1" by (simp add: word_unat_eq_iff unat_div inc)
qed

lemma field_mask_bit:
  assumes "1 \<le> l" "s + l \<le> 8"
  shows "bit (ucast (push_bit (s + l) 1 - push_bit s 1 :: u32) :: u8) n \<longleftrightarrow> s \<le> n \<and> n < s + l"
proof -
  have le: "(2 :: nat) ^ s \<le> 2 ^ (s + l)" by simp
  have lt: "(2 :: nat) ^ (s + l) < 2 ^ 32" using assms by (intro power_strict_increasing) simp_all
  have "push_bit (s + l) 1 - push_bit s 1 = (push_bit s (mask l) :: u32)"
    by (simp add: push_bit_eq_mult mask_eq_exp_minus_1 power_add algebra_simps)
  then show ?thesis using assms by (auto simp: bit_simps)
qed

text \<open>
  A field that lies inside one byte of the report is read as HID defines it: the value has the bits of the report
  from the offset on, lowest first, and no others; the signed reading extends the highest of them.
\<close>

theorem gamepad_field_in_byte:
  fixes offset len :: u32
  assumes "1 \<le> unat len" and "unat offset mod 8 + unat len \<le> 8" and "unat offset div 8 < length buf"
    and "unat offset + 16 < 2 ^ 32"
  shows "\<exists>u s. BitGetUnsigned buf offset len = Some u \<and> BitGetSigned buf offset len = Some s
     \<and> (\<forall>k. bit u k \<longleftrightarrow> k < unat len \<and> bit (buf ! (unat offset div 8)) (unat offset mod 8 + k))
     \<and> sint s = signed_take_bit (unat len - 1) (uint u)"
proof -
  let ?s = "unat offset mod 8" and ?b = "buf ! (unat offset div 8)"
  define u where "u = drop_bit ?s (ucast (?b AND ucast (push_bit (?s + unat len) 1 - push_bit ?s 1 :: u32)) :: u32)"
  note one = one_byte_loop[OF assms(1,2,4)]
  have um: "unat (offset mod 8) = ?s" by (simp add: unat_mod)
  have ud: "unat (offset div 8) = unat offset div 8" by (simp add: unat_div)
  have ul: "unat len < 9" using assms(2) by simp
  have us: "unat (offset mod 8 + len) = ?s + unat len"
    using assms(2) by (subst unat_plus_if_no_wrap) (simp_all add: um)
  have sh1: "shl 1 (offset mod 8 + len) = Some (push_bit (?s + unat len) 1)"
    using assms(2) by (simp add: shl_def word_less_nat_alt us)
  have sh2: "shl 1 (offset mod 8) = Some (push_bit ?s 1)"
    by (simp add: shl_def word_less_nat_alt um order.strict_trans[of _ 8])
  have step: "bit_get_step buf offset len (offset div 8) 0 0 = Some (0, u)"
    unfolding bit_get_step_def one(1)[symmetric] using assms(3)
    by (simp add: sh1 sh2 array_get_def ud um u_def)
  have lt: "offset div 8 < offset div 8 + 1"
  proof -
    have "unat (offset div 8 + 1) = unat (offset div 8) + 1"
      using assms(4) by (subst unat_plus_if_no_wrap) (simp_all add: ud)
    then show ?thesis by (simp add: word_less_nat_alt)
  qed
  have get: "BitGetUnsigned buf offset len = Some u"
  proof -
    have "bit_get_loop buf offset len (offset div 8 + 1) 0 u = Some u"
      by (subst bit_get_loop.simps) (simp only: one(2) less_irrefl if_False)
    then show ?thesis
      unfolding BitGetUnsigned_def
      by (subst bit_get_loop.simps) (simp only: one(2) lt if_True step Option.bind.simps prod.case)
  qed
  have bits: "bit u k \<longleftrightarrow> k < unat len \<and> bit ?b (?s + k)" for k
  proof -
    define M where "M = (ucast (push_bit (?s + unat len) 1 - push_bit ?s 1 :: u32) :: u8)"
    have M: "bit M n \<longleftrightarrow> ?s \<le> n \<and> n < ?s + unat len" for n
      unfolding M_def by (rule field_mask_bit[OF assms(1,2)])
    have "bit u k \<longleftrightarrow> ?s + k < 32 \<and> bit ?b (?s + k) \<and> bit M (?s + k)"
      unfolding u_def M_def[symmetric] by (simp only: bit_drop_bit_eq comp_def bit_ucast_iff bit_and_iff) (simp add: conj_commute)
    with M[of "?s + k"] assms(2) show ?thesis by auto
  qed
  have sgn: "\<exists>s. BitGetSigned buf offset len = Some s \<and> sint s = signed_take_bit (unat len - 1) (uint u)"
  proof -
    have l1: "unat (len - 1) = unat len - 1" using assms(1) by (simp add: unat_minus_le word_le_nat_alt)
    have s1: "shl 1 (len - 1) = Some (push_bit (unat len - 1) 1)" using ul by (simp add: shl_def word_less_nat_alt l1)
    have s2: "shl 1 len = Some (push_bit (unat len) 1)" using ul by (simp add: shl_def word_less_nat_alt)
    let ?m = "0xFFFFFFFF - (push_bit (unat len) 1 - 1) :: u32"
    have m: "bit ?m k \<longleftrightarrow> unat len \<le> k \<and> k < 32" for k
    proof -
      have "?m = NOT (mask (unat len))"
        by (simp add: mask_eq_exp_minus_1 push_bit_eq_mult not_eq_complement)
      then show ?thesis by (auto simp: bit_simps)
    qed
    have top: "u AND push_bit (unat len - 1) 1 = 0 \<longleftrightarrow> \<not> bit u (unat len - 1)"
      using word_and_mask_bit[of u "unat len - 1"] ul by auto
    define s where "s = (if bit u (unat len - 1) then u OR ?m else u)"
    have "BitGetSigned buf offset len = Some s"
      using top by (simp add: BitGetSigned_def get s1 s2 s_def)
    moreover have "sint s = signed_take_bit (unat len - 1) (uint u)"
    proof (rule bit_eqI)
      fix k
      have s: "bit s j \<longleftrightarrow> bit u (min (unat len - 1) j) \<and> j < 32" for j
      proof (cases "j < unat len")
        case True
        then have "min (unat len - 1) j = j" by simp
        with True ul m[of j] show ?thesis by (simp add: s_def bit_or_iff)
      next
        case False
        then have "min (unat len - 1) j = unat len - 1" "\<not> bit u j" using bits[of j] by simp_all
        with False ul m[of j] show ?thesis by (simp add: s_def bit_or_iff)
      qed
      have uw: "bit (uint x) j \<longleftrightarrow> bit x j" for x :: u32 and j
        using bit_imp_le_length[of x j] by (auto simp: bit_uint_iff)
      have "sint s = signed_take_bit 31 (uint s)" by (simp add: sint_uint)
      then have "bit (sint s) k \<longleftrightarrow> bit s (min 31 k)" by (simp only: bit_signed_take_bit_iff uw) simp
      moreover have "min (unat len - 1) (min 31 k) = min (unat len - 1) k" "min 31 k < 32" using ul by auto
      ultimately show "bit (sint s) k \<longleftrightarrow> bit (signed_take_bit (unat len - 1) (uint u)) k"
        by (simp only: bit_signed_take_bit_iff uw s) simp
    qed
    ultimately show ?thesis by blast
  qed
  from get bits sgn show ?thesis by blast
qed

theorem gamepad_field_in_byte_witness:
  "\<exists>u s. BitGetUnsigned [0x5A] 4 4 = Some u \<and> BitGetSigned [0xA5] 4 4 = Some s \<and> bit u 0 \<and> sint s = - 6"
proof -
  have "\<exists>u s. BitGetUnsigned [0x5A] 4 4 = Some u \<and> BitGetSigned [0x5A] 4 4 = Some s
      \<and> (\<forall>k. bit u k \<longleftrightarrow> k < unat (4 :: u32) \<and> bit ([0x5A :: u8] ! (unat (4 :: u32) div 8)) (unat (4 :: u32) mod 8 + k))
      \<and> sint s = signed_take_bit (unat (4 :: u32) - 1) (uint u)"
    by (rule gamepad_field_in_byte) simp_all
  then obtain u where u: "BitGetUnsigned [0x5A] 4 4 = Some u" "bit u 0 \<longleftrightarrow> bit (0x5A :: u8) 4" by auto
  have "bit (0x5A :: u8) 4" by (simp add: bit_simps)
  moreover have "map_option sint (BitGetSigned [0xA5] 4 4) = Some (- 6)" by code_simp
  ultimately show ?thesis using u by auto
qed

section \<open>The decoded state\<close>

text \<open>The arrays keep their size and the counts stay within it.\<close>

definition pad_ok :: "USPiGamePadState \<Rightarrow> bool" where
  "pad_ok st \<longleftrightarrow> length (gs_axes st) = MAX_AXIS \<and> length (gs_hats st) = MAX_HATS
     \<and> unat (gs_naxes st) \<le> MAX_AXIS \<and> unat (gs_nhats st) \<le> MAX_HATS"

definition vars_ok :: "decode_vars \<Rightarrow> bool" where
  "vars_ok v \<longleftrightarrow> pad_ok (dv_pad v) \<and> unat (dv_naxes v) \<le> MAX_AXIS \<and> unat (dv_nhats v) \<le> MAX_HATS"

lemma inc_index:
  fixes n :: u32
  assumes "unat n < 6"
  shows "unat (n + 1) = unat n + 1"
  using assms by (subst unat_plus_if_no_wrap) simp_all

lemma put_axis_ok: "put_axis buf i v = Some v' \<Longrightarrow> vars_ok v \<Longrightarrow> vars_ok v'"
  by (auto simp: put_axis_def bind_Some_iff vars_ok_def pad_ok_def array_set_Some array_get_Some MAX_AXIS_def inc_index Let_def)

lemma put_hat_ok: "put_hat buf i v = Some v' \<Longrightarrow> vars_ok v \<Longrightarrow> vars_ok v'"
  by (auto simp: put_hat_def bind_Some_iff vars_ok_def pad_ok_def array_set_Some MAX_HATS_def inc_index)

lemma value_loop_ok:
  assumes "\<And>i v v'. f i v = Some v' \<Longrightarrow> vars_ok v \<Longrightarrow> vars_ok v'"
  shows "value_loop f n i c v = Some v' \<Longrightarrow> vars_ok v \<Longrightarrow> vars_ok v'"
proof (induction n arbitrary: i v)
  case (Suc n)
  then show ?case using assms by (auto simp: bind_Some_iff split: if_splits)
qed simp

lemma vars_ok_updates [simp]:
  "vars_ok (v\<lparr>dv_state := s\<rparr>) = vars_ok v" "vars_ok (v\<lparr>dv_offset := x\<rparr>) = vars_ok v"
  "vars_ok (v\<lparr>dv_size := x\<rparr>) = vars_ok v" "vars_ok (v\<lparr>dv_count := x\<rparr>) = vars_ok v"
  "vars_ok (v\<lparr>dv_lmin := x\<rparr>) = vars_ok v" "vars_ok (v\<lparr>dv_lmax := x\<rparr>) = vars_ok v"
  "vars_ok (v\<lparr>dv_pmin := x\<rparr>) = vars_ok v" "vars_ok (v\<lparr>dv_pmax := x\<rparr>) = vars_ok v"
  "vars_ok (v\<lparr>dv_id := x\<rparr>) = vars_ok v"
  "vars_ok (v\<lparr>dv_pad := (dv_pad v)\<lparr>gs_nbuttons := x, gs_buttons := y\<rparr>\<rparr>) = vars_ok v"
  by (simp_all add: vars_ok_def pad_ok_def)

lemma decode_input_ok: "decode_input buf arg v = Some v' \<Longrightarrow> vars_ok v \<Longrightarrow> vars_ok v'"
  using value_loop_ok[of "put_axis buf" MAX_AXIS 0 _ v, OF put_axis_ok]
    value_loop_ok[of "put_hat buf" MAX_HATS 0 _ v, OF put_hat_ok]
  by (auto simp: decode_input_def bind_Some_iff split: if_splits)

lemma decode_tag_ok: "decode_tag buf tag arg v = Some v' \<Longrightarrow> vars_ok v \<Longrightarrow> vars_ok v'"
  by (auto simp: decode_tag_def decode_usage_def decode_input_ok split: if_splits)

definition result_vars :: "decode_result \<Rightarrow> decode_vars" where
  "result_vars r = (case r of Go v \<Rightarrow> v | Leave v \<Rightarrow> v | Return v \<Rightarrow> v)"

lemma decode_item_ok: "decode_item buf tag arg v = Some r \<Longrightarrow> vars_ok v \<Longrightarrow> vars_ok (result_vars r)"
  by (auto simp: decode_item_def bind_Some_iff result_vars_def dest!: decode_tag_ok split: if_splits)

lemma decode_loop_ok: "decode_loop desc buf pos n v = Some r \<Longrightarrow> vars_ok v \<Longrightarrow> vars_ok (result_vars r)"
proof (induction desc buf pos n v arbitrary: r rule: decode_loop.induct)
  case (1 desc buf pos n v)
  show ?case
  proof (cases "n > 0")
    case False
    with 1 show ?thesis by (auto simp: decode_loop.simps[of desc buf pos n v] result_vars_def)
  next
    case True
    with 1(2) obtain item arg pos' n' r1 where step: "s8_at desc pos = Some item"
        "read_arg desc item (pos + 1) (n - 1) = Some (arg, pos', n')" "decode_item buf (item AND 0xFC) arg v = Some r1"
      and rest: "(case r1 of Go v \<Rightarrow> decode_loop desc buf pos' n' v | Leave v \<Rightarrow> Some (Leave v) | Return v \<Rightarrow> Some (Return v)) = Some r"
      by (subst (asm) decode_loop.simps) (auto simp: bind_Some_iff)
    from decode_item_ok[OF step(3) 1(3)] have ok: "vars_ok (result_vars r1)" .
    show ?thesis
    proof (cases r1)
      case (Go v')
      with rest ok 1(1)[OF True step(1) step(2) refl refl step(3) Go] show ?thesis by (simp add: result_vars_def)
    qed (use rest ok in \<open>auto simp: result_vars_def\<close>)
  qed
qed

lemma decode_loop_not_go: "decode_loop desc buf pos n v \<noteq> Some (Go v')"
proof (induction desc buf pos n v rule: decode_loop.induct)
  case (1 desc buf pos n v)
  show ?case
    by (subst decode_loop.simps) (auto simp: bind_Some_iff 1 split: decode_result.splits)
qed

definition finish_decode :: "TUSBGamePadDevice \<Rightarrow> decode_result \<Rightarrow> TUSBGamePadDevice" where
  "finish_decode d r = (case r of
     Return v \<Rightarrow> d\<lparr>gp_State := dv_pad v\<rparr>
   | _ \<Rightarrow> d\<lparr>gp_State := (dv_pad (result_vars r))\<lparr>gs_naxes := dv_naxes (result_vars r), gs_nhats := dv_nhats (result_vars r)\<rparr>,
            gp_nReportSize := ucast ((dv_offset (result_vars r) + 7) div 8)\<rparr>)"

lemma descriptor_length: "length (descriptor_bytes d m) = unat (gp_usReportDescriptorLength d)"
  by (simp add: descriptor_bytes_def)

lemma DecodeReport_eq:
  "USBGamePadDeviceDecodeReport d m = map_option (finish_decode d)
     (decode_loop (descriptor_bytes d m) (buffer_bytes d m) 0 (gp_usReportDescriptorLength d) (decode_init (gp_State d)))"
  using decode_loop_not_go[of "descriptor_bytes d m" "buffer_bytes d m" 0 "gp_usReportDescriptorLength d" "decode_init (gp_State d)"]
  by (cases "decode_loop (descriptor_bytes d m) (buffer_bytes d m) 0 (gp_usReportDescriptorLength d) (decode_init (gp_State d))")
    (auto simp: USBGamePadDeviceDecodeReport_def decode_report_def finish_decode_def result_vars_def split: decode_result.splits)


section \<open>A concrete game pad\<close>

text \<open>Two axes of eight bits from 0 to 255 and eight buttons.\<close>

definition pad_descriptor :: "u8 list" where
  "pad_descriptor = [0x05, 0x01, 0x09, 0x05, 0xA1, 0x01, 0x15, 0x00, 0x26, 0xFF, 0x00, 0x75, 0x08, 0x95, 0x02, 0x09, 0x30,
     0x09, 0x31, 0x81, 0x02, 0x05, 0x09, 0x75, 0x01, 0x95, 0x08, 0x81, 0x02, 0xC0]"

definition pad_device :: "u8 list \<Rightarrow> TUSBGamePadDevice" where
  "pad_device desc = \<lparr>gp_USBFunction = hid_function, gp_nDeviceIndex = 1, gp_pEndpointIn = Some 2, gp_pEndpointOut = None,
     gp_State = \<lparr>gs_naxes = 0, gs_axes = replicate MAX_AXIS \<lparr>ax_value = 0, ax_minimum = 0, ax_maximum = 0\<rparr>,
       gs_nhats = 0, gs_hats = replicate MAX_HATS 0, gs_nbuttons = 0, gs_buttons = 0\<rparr>,
     gp_pStatusHandler = Some 20, gp_usReportDescriptorLength = of_nat (length desc), gp_pHIDReportDescriptor = 0x5000,
     gp_URB = 7, gp_pReportBuffer = 0x6000, gp_nReportSize = 3\<rparr>"

definition pad_memory :: "u8 list \<Rightarrow> mem" where
  "pad_memory desc = mem_write 0x6000 [0x12, 0x80, 0x5A] (mem_write 0x5000 desc (\<lambda>_. 0))"

definition pad_result :: "TUSBGamePadDevice option \<Rightarrow> (u32 \<times> u32 list \<times> u32 \<times> u32 \<times> u16) option" where
  "pad_result r = map_option (\<lambda>d. (gs_naxes (gp_State d), List.map ax_value (take 2 (gs_axes (gp_State d))),
     gs_nbuttons (gp_State d), gs_buttons (gp_State d), gp_nReportSize d)) r"


text \<open>
  The arrays are not protected against several input items: two items with four axes each write past the
  six axes, and a descriptor that ends inside an item is read past its end.
\<close>

definition eight_axes :: "u8 list" where
  "eight_axes = [0x05, 0x01, 0x09, 0x05, 0x75, 0x08, 0x95, 0x04, 0x09, 0x30, 0x81, 0x02, 0x09, 0x30, 0x81, 0x02]"

lemma gamepad_axes_overflow: "USBGamePadDeviceDecodeReport (pad_device eight_axes) (pad_memory eight_axes) = None"
  by code_simp

lemma gamepad_reads_past_descriptor: "USBGamePadDeviceDecodeReport (pad_device [0x26]) (pad_memory [0x26]) = None"
  by code_simp

text \<open>Fields of more than one byte are put together with the first byte highest; HID has it lowest.\<close>

lemma gamepad_field_byte_order: "BitGetUnsigned [0x34, 0x12] 0 16 = Some 0x3412" "BitGetUnsigned [0x34, 0x12] 0 12 = Some 0x352"
  by code_simp+

end
