(* ===== verification/Ethernet.thy ===== *)
theory Ethernet
  imports UsbFunction MacAddress
begin

text \<open>
  What the two Ethernet drivers (\<^verbatim>\<open>lib/smsc951x.c\<close> and \<^verbatim>\<open>lib/lan7800.c\<close>) share: their registers are read and written with
  vendor control messages, their frames go through a pair of bulk endpoints behind a header, and the registers of
  the PHY are reached through a busy bit.

  The locale \<open>register_port\<close> is the contract of the register access, over the sequence of accesses the device
  sees; what waiting for a register and using the PHY puts on that sequence is proved there once.  The locale
  \<open>frame_device\<close> is the contract of sending and receiving that the library interface relies on.
\<close>

unbundle bit_operations_syntax

section \<open>Registers\<close>

definition REQUEST_VENDOR :: u8 where "REQUEST_VENDOR = 0x40"
definition WRITE_REGISTER :: u8 where "WRITE_REGISTER = 0xA0"
definition READ_REGISTER :: u8 where "READ_REGISTER = 0xA1"
definition FRAME_BUFFER_SIZE :: u32 where "FRAME_BUFFER_SIZE = 1600"

text \<open>The value is a parameter whose address is passed on, at \<open>loc_cmd\<close>; the value read is stored at \<open>loc_rsp\<close>.\<close>

definition eth_write_reg ::
    "'a io_world_scheme driver_code \<Rightarrow> locals \<Rightarrow> TUSBFunction \<Rightarrow> u32 \<Rightarrow> u32 \<Rightarrow> 'a io_world_scheme
     \<Rightarrow> (bool \<times> 'a io_world_scheme) option" where
  "eth_write_reg drv l f nIndex nValue w = do {
     _ \<leftarrow> USBFunctionGetHost (w_store w) f;
     ep0 \<leftarrow> USBFunctionGetEndpoint0 (w_store w) f;
     let w = w\<lparr>w_mem := mem_write (loc_cmd l) (bytes32 nValue) (w_mem w)\<rparr>;
     (n, w) \<leftarrow> usb_control_data drv l (Some ep0) (REQUEST_OUT OR REQUEST_VENDOR) WRITE_REGISTER 0 (ucast nIndex)
                 (loc_cmd l) 4 w;
     Some (n \<ge> 0, w) }"

definition eth_read_reg ::
    "'a io_world_scheme driver_code \<Rightarrow> locals \<Rightarrow> TUSBFunction \<Rightarrow> u32 \<Rightarrow> 'a io_world_scheme
     \<Rightarrow> (bool \<times> u32 \<times> 'a io_world_scheme) option" where
  "eth_read_reg drv l f nIndex w = do {
     _ \<leftarrow> USBFunctionGetHost (w_store w) f;
     ep0 \<leftarrow> USBFunctionGetEndpoint0 (w_store w) f;
     (n, w) \<leftarrow> usb_control_data drv l (Some ep0) (REQUEST_IN OR REQUEST_VENDOR) READ_REGISTER 0 (ucast nIndex)
                 (loc_rsp l) 4 w;
     Some (n = 4, word32 (mem_read (loc_rsp l) 4 (w_mem w)), w) }"

text \<open>
  The loop that waits for a register: a delay of one millisecond before each look, at most 999 looks.  \<open>again\<close> is the condition
  of the loop.
\<close>

definition ms_delay :: "u32 \<Rightarrow> 'a io_world_scheme \<Rightarrow> 'a io_world_scheme" where
  "ms_delay n w = w\<lparr>w_io := msDelay n (w_io w)\<rparr>"

fun wait_reg ::
    "('w \<Rightarrow> 'w) \<Rightarrow> ('w \<Rightarrow> (bool \<times> u32 \<times> 'w) option) \<Rightarrow> (u32 \<Rightarrow> bool) \<Rightarrow> nat \<Rightarrow> 'w \<Rightarrow> (bool \<times> 'w) option" where
  "wait_reg delay rd again nTries w = (let w = delay w; nTries = nTries - 1 in
     if nTries = 0 then Some (False, w)
     else do {
       (ok, nValue, w) \<leftarrow> rd w;
       if \<not> ok then Some (False, w)
       else if again nValue then wait_reg delay rd again nTries w
       else Some (True, w) })"

declare wait_reg.simps [simp del]

text \<open>
  Reading and writing a register of the PHY: wait until the access register is not busy, write the
  command (and before it the value) and wait again.  The two drivers differ in the registers and in the command word.
\<close>

definition phy_read ::
    "('w \<Rightarrow> (bool \<times> 'w) option) \<Rightarrow> (u32 \<Rightarrow> u32 \<Rightarrow> 'w \<Rightarrow> (bool \<times> 'w) option) \<Rightarrow> (u32 \<Rightarrow> 'w \<Rightarrow> (bool \<times> u32 \<times> 'w) option)
     \<Rightarrow> u32 \<Rightarrow> u32 \<Rightarrow> u32 \<Rightarrow> 'w \<Rightarrow> (u16 option \<times> 'w) option" where
  "phy_read wait wr rd aReg dReg cmd w = do {
     (ok, w) \<leftarrow> wait w;
     if \<not> ok then Some (None, w)
     else do {
       (ok, w) \<leftarrow> then_stage (wr aReg cmd w) wait;
       if \<not> ok then Some (None, w)
       else do {
         (ok, nValue, w) \<leftarrow> rd dReg w;
         if \<not> ok then Some (None, w) else Some (Some (ucast (nValue AND 0xFFFF)), w) } } }"

definition phy_write ::
    "('w \<Rightarrow> (bool \<times> 'w) option) \<Rightarrow> (u32 \<Rightarrow> u32 \<Rightarrow> 'w \<Rightarrow> (bool \<times> 'w) option)
     \<Rightarrow> u32 \<Rightarrow> u32 \<Rightarrow> u32 \<Rightarrow> u16 \<Rightarrow> 'w \<Rightarrow> (bool \<times> 'w) option" where
  "phy_write wait wr aReg dReg cmd usValue w =
     then_stage (then_stage (then_stage (wait w) (wr dReg (ucast usValue))) (wr aReg cmd)) wait"

section \<open>Bulk endpoints\<close>

text \<open>
  The search for the two bulk endpoints; the first result is \<open>False\<close> where the function returns because
  there is more than one in a direction.
\<close>

definition take_bulk_endpoint ::
    "TUSBEndpointDescriptor \<Rightarrow> TUSBFunction \<Rightarrow> addr option \<Rightarrow> addr option \<Rightarrow> 'a io_world_scheme
     \<Rightarrow> (bool \<times> addr option \<times> addr option \<times> 'a io_world_scheme) option" where
  "take_bulk_endpoint desc f pIn pOut w =
     (if ed_bmAttributes desc AND 0x3F = 2 then
        if ed_bEndpointAddress desc AND 0x80 = 0x80 then
          if pIn \<noteq> None then do { _ \<leftarrow> USBFunctionConfigurationError f; Some (False, pIn, pOut, w) }
          else do {
            ep \<leftarrow> USBEndpoint2 (st_devs (w_store w)) (USBFunctionGetDevice f) (Some desc);
            let (a, w) = new_endpoint ep w;
            Some (True, Some a, pOut, w) }
        else
          if pOut \<noteq> None then do { _ \<leftarrow> USBFunctionConfigurationError f; Some (False, pIn, pOut, w) }
          else do {
            ep \<leftarrow> USBEndpoint2 (st_devs (w_store w)) (USBFunctionGetDevice f) (Some desc);
            let (a, w) = new_endpoint ep w;
            Some (True, pIn, Some a, w) }
      else Some (True, pIn, pOut, w))"

partial_function (option) find_bulk_endpoints ::
    "TUSBFunction \<Rightarrow> addr option \<Rightarrow> addr option \<Rightarrow> 'a io_world_scheme
     \<Rightarrow> (bool \<times> TUSBFunction \<times> addr option \<times> addr option \<times> 'a io_world_scheme) option" where
  "find_bulk_endpoints f pIn pOut w = do {
     (pEndpointDesc, f) \<leftarrow> USBFunctionGetDescriptor f DESCRIPTOR_ENDPOINT;
     (case pEndpointDesc of None \<Rightarrow> Some (True, f, pIn, pOut, w)
      | Some i \<Rightarrow> do {
          desc \<leftarrow> get_endpoint_descriptor f i;
          (ok, pIn, pOut, w) \<leftarrow> take_bulk_endpoint desc f pIn pOut w;
          if ok then find_bulk_endpoints f pIn pOut w else Some (False, f, pIn, pOut, w) }) }"

declare find_bulk_endpoints.simps [code]

definition free_bulk_endpoints ::
    "addr option \<Rightarrow> addr option \<Rightarrow> 'a io_world_scheme \<Rightarrow> 'a io_world_scheme option" where
  "free_bulk_endpoints pOut pIn w = do {
     w \<leftarrow> (case pOut of None \<Rightarrow> Some w | Some a \<Rightarrow> free_endpoint a w);
     (case pIn of None \<Rightarrow> Some w | Some a \<Rightarrow> free_endpoint a w) }"

section \<open>Frames\<close>

text \<open>
  The transmit buffer: frame behind a header of two words, sent with one transfer.
\<close>

definition send_buffer ::
    "'a io_world_scheme driver_code \<Rightarrow> locals \<Rightarrow> TUSBFunction \<Rightarrow> addr option \<Rightarrow> uintptr \<Rightarrow> u32 \<Rightarrow> u32 \<Rightarrow> uintptr \<Rightarrow> u32
     \<Rightarrow> 'a io_world_scheme \<Rightarrow> (bool \<times> 'a io_world_scheme) option" where
  "send_buffer drv l f pEndpoint pTxBuffer cmdA cmdB pBuffer nLength w = do {
     c_assert (pTxBuffer \<noteq> 0);
     c_assert (pBuffer \<noteq> 0);
     let w = w\<lparr>w_mem := snd (uspi_memcpy (pTxBuffer + 8) pBuffer (ucast nLength) (w_mem w))\<rparr>;
     let w = w\<lparr>w_mem := mem_write pTxBuffer (bytes32 cmdA) (w_mem w)\<rparr>;
     let w = w\<lparr>w_mem := mem_write (pTxBuffer + 4) (bytes32 cmdB) (w_mem w)\<rparr>;
     c_assert (pEndpoint \<noteq> None);
     _ \<leftarrow> USBFunctionGetHost (w_store w) f;
     (n, w) \<leftarrow> usb_transfer drv l pEndpoint pTxBuffer (nLength + 8) w;
     Some (n \<ge> 0, w) }"

text \<open>
  The request of \<^verbatim>\<open>ReceiveFrame\<close>: it is a local variable, ended before every return; the result is its length, if it succeeded.
\<close>

definition receive_request ::
    "'a io_world_scheme driver_code \<Rightarrow> locals \<Rightarrow> addr option \<Rightarrow> uintptr \<Rightarrow> u32 \<Rightarrow> 'a io_world_scheme
     \<Rightarrow> (u32 option \<times> 'a io_world_scheme) option" where
  "receive_request drv l pEndpoint pBuffer nSize w = do {
     r \<leftarrow> USBRequest pEndpoint pBuffer nSize None;
     (ok, w) \<leftarrow> DWHCIDeviceSubmitBlockingRequest drv (loc_urb l) (put_urb (loc_urb l) r w);
     r \<leftarrow> urb_of w (loc_urb l);
     if \<not> ok then Some (None, put_urb (loc_urb l) (USBRequest_dtor r) w)
     else do {
       n \<leftarrow> USBRequestGetResultLength r;
       let w = put_urb (loc_urb l) (USBRequest_dtor r) w;
       let (bs, w) = dma_in pBuffer (uint n) w;
       Some (Some n, wire (WireIn pEndpoint bs (uint n)) w) } }"

text \<open>
  The part of \<^verbatim>\<open>ReceiveFrame\<close> behind the header check: \<open>nHeader\<close> bytes before the frame and four bytes of
  check sum behind it, which the length still counts, are dropped.
\<close>

definition strip_frame ::
    "u32 \<Rightarrow> u32 \<Rightarrow> u32 \<Rightarrow> uintptr \<Rightarrow> 'a io_world_scheme \<Rightarrow> (u32 option \<times> 'a io_world_scheme) option" where
  "strip_frame nHeader nResultLength nFrameLength pBuffer w = do {
     c_assert (nFrameLength = nResultLength - nHeader);
     c_assert (nFrameLength > 4);
     if nFrameLength \<le> 4 then Some (None, w)
     else do {
       let nFrameLength = nFrameLength - 4;
       let w = w\<lparr>w_mem := snd (uspi_memcpy pBuffer (pBuffer + ucast nHeader) (ucast nFrameLength) (w_mem w))\<rparr>;
       Some (Some nFrameLength, w) } }"

section \<open>MAC addresses in registers\<close>

definition mac_low :: "u8 list \<Rightarrow> u32 option" where
  "mac_low a = do {
     a0 \<leftarrow> array_get a 0; a1 \<leftarrow> array_get a 1; a2 \<leftarrow> array_get a 2; a3 \<leftarrow> array_get a 3;
     Some (ucast a0 OR push_bit 8 (ucast a1) OR push_bit 16 (ucast a2) OR push_bit 24 (ucast a3)) }"

definition mac_high :: "u8 list \<Rightarrow> u32 option" where
  "mac_high a = do { a4 \<leftarrow> array_get a 4; a5 \<leftarrow> array_get a 5; Some (ucast a4 OR push_bit 8 (ucast a5)) }"

section \<open>What register access puts on the wire\<close>

text \<open>
  The register accesses a device sees: a write with its value, a read with the value it sent, and whether the
  message went through.
\<close>

datatype reg_access = RegWrite u16 u32 bool | RegRead u16 "u32 option"

fun reg_access_of :: "wire_event \<Rightarrow> reg_access list" where
  "reg_access_of (WireControlData t rq v i bs r) =
     (if t = REQUEST_OUT OR REQUEST_VENDOR \<and> rq = WRITE_REGISTER then [RegWrite i (word32 bs) (r \<ge> 0)]
      else if t = REQUEST_IN OR REQUEST_VENDOR \<and> rq = READ_REGISTER
      then [RegRead i (if r = 4 then Some (word32 bs) else None)]
      else [])"
| "reg_access_of _ = []"

definition accesses :: "'a io_world_scheme \<Rightarrow> reg_access list" where
  "accesses w = List.concat (List.map reg_access_of (w_wire w))"

lemma vendor_directions [simp]:
  "(REQUEST_OUT OR REQUEST_VENDOR) AND REQUEST_IN = 0" "(REQUEST_IN OR REQUEST_VENDOR) AND REQUEST_IN \<noteq> 0"
  "(REQUEST_OUT OR REQUEST_VENDOR) \<noteq> (REQUEST_IN OR REQUEST_VENDOR)"
  by (simp_all add: REQUEST_VENDOR_def usb_consts)

lemma eth_write_reg_effect:
  assumes "eth_write_reg drv l f i v w = Some (ok, w')" and "drv_keeps drv"
  shows "accesses w' = accesses w @ [RegWrite (ucast i) v ok]" and "io_sig w' = io_sig w"
proof -
  let ?w = "w\<lparr>w_mem := mem_write (loc_cmd l) (bytes32 v) (w_mem w)\<rparr>"
  from assms(1) obtain ep0 n where
    c: "usb_control_data drv l (Some ep0) (REQUEST_OUT OR REQUEST_VENDOR) WRITE_REGISTER 0 (ucast i) (loc_cmd l) 4 ?w
        = Some (n, w')" and ok: "ok = (n \<ge> 0)"
    by (auto simp: eth_write_reg_def bind_Some_iff Let_def)
  have "mem_read (loc_cmd l) 4 (w_mem ?w) = bytes32 v"
    using mem_read_write[of "bytes32 v" "loc_cmd l" "w_mem w"] by simp
  with usb_control_data_out[OF c assms(2)] show "accesses w' = accesses w @ [RegWrite (ucast i) v ok]"
    by (simp add: accesses_def word32_bytes32 ok)
  from usb_control_data_sig[OF c assms(2)] show "io_sig w' = io_sig w" by simp
qed

lemma eth_read_reg_effect:
  assumes "eth_read_reg drv l f i w = Some (ok, v, w')" and "drv_keeps drv"
  shows "accesses w' = accesses w @ [RegRead (ucast i) (if ok then Some v else None)]" and "io_sig w' = io_sig w"
proof -
  from assms(1) obtain ep0 n where
    c: "usb_control_data drv l (Some ep0) (REQUEST_IN OR REQUEST_VENDOR) READ_REGISTER 0 (ucast i) (loc_rsp l) 4 w
        = Some (n, w')" and ok: "ok = (n = 4)" and v: "v = word32 (mem_read (loc_rsp l) 4 (w_mem w'))"
    by (auto simp: eth_read_reg_def bind_Some_iff Let_def)
  from usb_control_data_in[OF c assms(2) vendor_directions(2)] obtain bs where bs: "length bs = nat n"
    "w_wire w' = w_wire w @ [WireControlData (REQUEST_IN OR REQUEST_VENDOR) READ_REGISTER 0 (ucast i) bs n]"
    "w_mem w' = mem_write (loc_rsp l) bs (w_mem w)" by blast
  have "ok \<Longrightarrow> v = word32 bs"
    using mem_read_write[of bs "loc_rsp l" "w_mem w"] bs(1,3) by (simp add: ok v)
  with bs(2) show "accesses w' = accesses w @ [RegRead (ucast i) (if ok then Some v else None)]"
    by (simp add: accesses_def ok vendor_directions(3)[symmetric])
  from usb_control_data_sig[OF c assms(2)] show "io_sig w' = io_sig w" by simp
qed

section \<open>Waiting and the PHY\<close>

text \<open>The reads of a wait that ends: all but the last have a value on which the loop goes on.\<close>

definition polled :: "u32 \<Rightarrow> (u32 \<Rightarrow> bool) \<Rightarrow> reg_access list \<Rightarrow> bool" where
  "polled i again es \<longleftrightarrow> (\<exists>vs v. es = List.map (\<lambda>x. RegRead (ucast i) (Some x)) (vs @ [v])
     \<and> (\<forall>x \<in> set vs. again x) \<and> \<not> again v)"

lemma polled_single: "\<not> again v \<Longrightarrow> polled i again [RegRead (ucast i) (Some v)]"
  unfolding polled_def by (intro exI[of _ "[]"] exI[of _ v]) simp

lemma polled_Cons: "polled i again es \<Longrightarrow> again v \<Longrightarrow> polled i again (RegRead (ucast i) (Some v) # es)"
  unfolding polled_def by (elim exE conjE, rename_tac vs x, rule_tac x = "v # vs" in exI) auto

text \<open>
  \<open>sound\<close> says that the code called back while a message is under way is well behaved; the laws hold under it.
\<close>

locale register_port =
  fixes sound :: bool
    and seen :: "'w \<Rightarrow> reg_access list"
    and delay :: "'w \<Rightarrow> 'w"
    and wr :: "u32 \<Rightarrow> u32 \<Rightarrow> 'w \<Rightarrow> (bool \<times> 'w) option"
    and rd :: "u32 \<Rightarrow> 'w \<Rightarrow> (bool \<times> u32 \<times> 'w) option"
  assumes delay_seen: "seen (delay w) = seen w"
    and wr_seen: "sound \<Longrightarrow> wr i v w = Some (ok, w') \<Longrightarrow> seen w' = seen w @ [RegWrite (ucast i) v ok]"
    and rd_seen: "sound \<Longrightarrow> rd i w = Some (ok, v, w') \<Longrightarrow> seen w' = seen w @ [RegRead (ucast i) (if ok then Some v else None)]"
begin

text \<open>A wait that succeeds has read the register until the value was right, fewer times than it had tries.\<close>

lemma wait_seen:
  assumes sound and "wait_reg delay (rd i) again n w = Some (True, w')"
  shows "\<exists>es. seen w' = seen w @ es \<and> length es < n \<and> polled i again es"
  using assms(2)
proof (induction n arbitrary: w)
  case 0
  then show ?case by (simp add: wait_reg.simps)
next
  case (Suc n)
  show ?case
  proof (cases n)
    case 0
    with Suc.prems show ?thesis by (simp add: wait_reg.simps)
  next
    case (Suc m)
    with Suc.prems obtain v w1 where rd: "rd i (delay w) = Some (True, v, w1)"
      and go: "(if again v then wait_reg delay (rd i) again n w1 else Some (True, w1)) = Some (True, w')"
      by (subst (asm) wait_reg.simps) (auto simp: Let_def bind_Some_iff split: if_splits)
    note seen = rd_seen[OF assms(1) rd, unfolded delay_seen]
    show ?thesis
    proof (cases "again v")
      case True
      with go Suc.IH[of w1] obtain es where
        es: "seen w' = seen w1 @ es" "length es < n" "polled i again es" by auto
      with seen polled_Cons[of i again es v] True show ?thesis by auto
    next
      case False
      with go seen Suc polled_single[of again v i] show ?thesis by auto
    qed
  qed
qed

text \<open>If the register can be read, the wait comes back.\<close>

lemma wait_returns:
  "(\<And>w. rd i w \<noteq> None) \<Longrightarrow> \<exists>ok w'. wait_reg delay (rd i) again n w = Some (ok, w')"
proof (induction n arbitrary: w)
  case 0
  show ?case by (subst wait_reg.simps) (auto simp: Let_def)
next
  case (Suc n)
  from Suc.prems obtain ok v w1 where "rd i (delay w) = Some (ok, v, w1)" by (metis not_None_eq prod_cases3)
  with Suc.IH[of w1, OF Suc.prems] show ?case
    by (subst wait_reg.simps) (auto simp: Let_def)
qed

text \<open>
  A register of the PHY is read, or written, with these accesses: the busy bit is seen clear before and after
  the command, and the data register is used when nothing is under way.
\<close>

lemma phy_read_seen:
  assumes sound and "phy_read (wait_reg delay (rd a) again n) wr rd a d cmd w = Some (Some x, w')"
  shows "\<exists>es es' v. seen w' = seen w @ es @ [RegWrite (ucast a) cmd True] @ es' @ [RegRead (ucast d) (Some v)]
     \<and> polled a again es \<and> polled a again es' \<and> x = ucast v"
proof -
  from assms(2) obtain w1 w2 w3 v where
    w1: "wait_reg delay (rd a) again n w = Some (True, w1)" and w2: "wr a cmd w1 = Some (True, w2)"
    and w3: "wait_reg delay (rd a) again n w2 = Some (True, w3)" and v: "rd d w3 = Some (True, v, w')"
    and x: "x = ucast (v AND 0xFFFF)"
    by (auto simp: phy_read_def then_stage_def bind_Some_iff split: if_splits)
  have m: "mask 16 = (0xFFFF :: u32)" by (simp add: mask_eq_exp_minus_1)
  have "ucast (v AND 0xFFFF) = (ucast v :: u16)"
    unfolding m[symmetric] by (rule bit_word_eqI) (auto simp: bit_simps)
  with x wait_seen[OF assms(1) w1] wait_seen[OF assms(1) w3] wr_seen[OF assms(1) w2] rd_seen[OF assms(1) v]
  show ?thesis by (auto 4 4)
qed

lemma phy_write_seen:
  assumes sound and "phy_write (wait_reg delay (rd a) again n) wr a d cmd x w = Some (True, w')"
  shows "\<exists>es es'. seen w' = seen w @ es @ [RegWrite (ucast d) (ucast x) True, RegWrite (ucast a) cmd True] @ es'
     \<and> polled a again es \<and> polled a again es'"
proof -
  from assms(2) obtain w1 w2 w3 where
    w1: "wait_reg delay (rd a) again n w = Some (True, w1)" and w2: "wr d (ucast x) w1 = Some (True, w2)"
    and w3: "wr a cmd w2 = Some (True, w3)" and w4: "wait_reg delay (rd a) again n w3 = Some (True, w')"
    by (auto simp: phy_write_def then_stage_def bind_Some_iff split: if_splits)
  from wait_seen[OF assms(1) w1] wait_seen[OF assms(1) w4] wr_seen[OF assms(1) w2] wr_seen[OF assms(1) w3]
  show ?thesis by (auto 4 4)
qed

end

lemma accesses_delay [simp]: "accesses (ms_delay n w) = accesses w"
  by (simp add: accesses_def ms_delay_def)

text \<open>The port behind a USB function.\<close>

interpretation port: register_port "drv_keeps drv" accesses "ms_delay 1" "eth_write_reg drv l f" "eth_read_reg drv l f"
  by unfold_locales (auto dest: eth_write_reg_effect(1) eth_read_reg_effect(1))

section \<open>Frames on the wire\<close>

lemma block_apart: "i + j \<le> 2 ^ 64 \<Longrightarrow> block p i \<inter> block (p + of_nat i) j = {}"
proof (rule ccontr)
  assume ij: "i + j \<le> 2 ^ 64" and "block p i \<inter> block (p + of_nat i) j \<noteq> {}"
  then obtain a b where ab: "a < i" "b < j" "p + of_nat a = p + of_nat i + (of_nat b :: uintptr)" by (auto simp: block_eq)
  then have "of_nat a = (of_nat (i + b) :: uintptr)" by (simp add: add.assoc)
  then have "unat (of_nat a :: uintptr) = unat (of_nat (i + b) :: uintptr)" by simp
  with ab ij have "a = i + b"
    by (subst (asm) (1 2) unat_of_nat_small) simp_all
  with ab show False by simp
qed

text \<open>The copying loop towards lower addresses works on overlapping blocks.\<close>

lemma memcpy_down:
  assumes "1 \<le> k" and "n + k < 2 ^ 64"
  shows "memcpy_loop n p (p + of_nat k) m = mem_write p (mem_read (p + of_nat k) n m) m"
  using assms(2)
proof (induction n arbitrary: p m)
  case (Suc n)
  let ?q = "p + of_nat k"
  have "block p 1 \<inter> block (p + of_nat 1) (k + n) = {}" using Suc.prems by (intro block_apart) simp
  then have "p \<notin> block (p + 1) (k + n)" by simp
  then have fresh: "p \<notin> block (?q + 1) n" by (simp add: block_add ac_simps)
  have "mem_read (?q + 1) n (m(p := m ?q)) = mem_read (?q + 1) n m"
    by (rule mem_read_cong) (use fresh in auto)
  moreover have eq: "p + 1 + of_nat k = ?q + 1" by simp
  ultimately show ?case
    using Suc.IH[of "p + 1" "m(p := m ?q)"] Suc.prems unfolding eq by (simp del: fun_upd_apply)
qed simp

text \<open>What sending puts on the wire: the two words of the header and the frame.\<close>

lemma send_buffer_effect:
  assumes s: "send_buffer drv l f pOut tx a b p n w = Some (ok, w')" and drv: "drv_keeps drv"
    and dir: "ep_dir (w_store w) pOut = Some False" and n: "unat n + 8 < 2 ^ 32"
    and disj: "block p (unat n) \<inter> block tx (unat n + 8) = {}"
  shows "\<exists>r. w_wire w' = w_wire w @ [WireOut pOut (bytes32 a @ bytes32 b @ mem_read p (unat n) (w_mem w)) r] \<and> ok = (r \<ge> 0)"
proof -
  let ?m1 = "snd (uspi_memcpy (tx + 8) p (ucast n) (w_mem w))"
  let ?m = "mem_write (tx + 4) (bytes32 b) (mem_write tx (bytes32 a) ?m1)"
  from s obtain r where t: "usb_transfer drv l pOut tx (n + 8) (w\<lparr>w_mem := ?m\<rparr>) = Some (r, w')" and ok: "ok = (r \<ge> 0)"
    by (auto simp: send_buffer_def bind_Some_iff Let_def split: if_splits)
  have u: "unat (n + 8) = 8 + unat n" using n by (subst unat_plus_if_no_wrap) simp_all
  have n64: "unat (ucast n :: u64) = unat n" by (simp add: unat_ucast_up)
  have "block p (unat n) \<inter> block (tx + 8) (unat n) = {}"
    using disj block_add[of tx 8 "unat n"] by (auto simp: add.commute)
  then have m1: "?m1 = mem_write (tx + 8) (mem_read p (unat n) (w_mem w)) (w_mem w)"
    by (simp add: uspi_memcpy_def n64 memcpy_loop_eq Int_commute)
  have m: "?m = mem_write tx (bytes32 a @ bytes32 b) ?m1" by (simp add: mem_write_append)
  have "mem_read (tx + 8) (unat n) ?m = mem_read (tx + 8) (unat n) ?m1"
    unfolding m by (rule mem_read_other) (use block_apart[of 8 "unat n" tx] n in \<open>simp add: Int_commute\<close>)
  also have "\<dots> = mem_read p (unat n) (w_mem w)"
    using mem_read_write[of "mem_read p (unat n) (w_mem w)" "tx + 8" "w_mem w"] n by (simp add: m1)
  finally have "mem_read tx (8 + unat n) ?m = bytes32 a @ bytes32 b @ mem_read p (unat n) (w_mem w)"
    using mem_read_write[of "bytes32 a @ bytes32 b" tx ?m1] by (simp add: m mem_read_add del: mem_write_append)
  with usb_transfer_out[OF t drv] dir ok show ?thesis by (auto simp: u)
qed

lemma receive_request_effect:
  assumes "receive_request drv l ep p n w = Some (r, w')" and "drv_keeps drv"
  shows "io_sig w' = io_sig w"
    and "case r of None \<Rightarrow> w_wire w' = w_wire w
       | Some k \<Rightarrow> \<exists>bs. length bs = unat k \<and> w_wire w' = w_wire w @ [WireIn ep bs (int (length bs))]
           \<and> w_mem w' = mem_write p bs (w_mem w)"
proof -
  let ?u = "loc_urb l"
  from assms(1) obtain u ok w1 u1 where
    b: "DWHCIDeviceSubmitBlockingRequest drv ?u (put_urb ?u u w) = Some (ok, w1)"
    and rest: "if \<not> ok then r = None \<and> w' = put_urb ?u (USBRequest_dtor u1) w1
       else \<exists>k. r = Some k \<and> w' = (let (bs, w2) = dma_in p (uint k) (put_urb ?u (USBRequest_dtor u1) w1)
                                    in wire (WireIn ep bs (uint k)) w2)"
    by (auto simp: receive_request_def bind_Some_iff Let_def dma_in_def split: if_splits)
  have "world_sig (put_urb ?u u w) = world_sig w" by (simp add: put_urb_def world_sig_store store_sig_def)
  with SubmitBlocking_sig[OF assms(2) refl, of "put_urb ?u u w"] b have w1: "world_sig w1 = world_sig w"
    by (auto simp: keepsr_def)
  have w2: "world_sig (put_urb ?u v w1) = world_sig w" for v
    by (simp add: put_urb_def world_sig_store store_sig_def w1)
  note s = world_sig_io[OF w2] world_sig_io_sig[OF w2]
  show "io_sig w' = io_sig w" using rest s by (auto simp: dma_in_def wire_def Let_def split: if_splits)
  show "case r of None \<Rightarrow> w_wire w' = w_wire w
       | Some k \<Rightarrow> \<exists>bs. length bs = unat k \<and> w_wire w' = w_wire w @ [WireIn ep bs (int (length bs))]
           \<and> w_mem w' = mem_write p bs (w_mem w)"
  proof (cases ok)
    case True
    with rest obtain k where k: "r = Some k" "w' = (let (bs, w2) = dma_in p (uint k) (put_urb ?u (USBRequest_dtor u1) w1)
                                    in wire (WireIn ep bs (uint k)) w2)" by auto
    show ?thesis unfolding k using s by (simp add: dma_in_def wire_def Let_def)
  next
    case False
    with rest s show ?thesis by simp
  qed
qed

text \<open>
  The frame in a transfer: behind a header of \<open>h\<close> bytes whose first word is a status, without the four bytes of the
  check sum.
\<close>

definition decode_frame :: "nat \<Rightarrow> (u32 \<Rightarrow> bool) \<Rightarrow> (u32 \<Rightarrow> u32) \<Rightarrow> u8 list \<Rightarrow> u8 list option" where
  "decode_frame h bad len bs =
     (if length bs < h then None
      else let st = word32 (take 4 bs) in if bad st then None else Some (take (unat (len st) - 4) (drop h bs)))"

definition frames_in :: "addr option \<Rightarrow> (u8 list \<Rightarrow> u8 list option) \<Rightarrow> wire_event list \<Rightarrow> u8 list list" where
  "frames_in ep decode es = List.map_filter (\<lambda>e. case e of WireIn q bs r \<Rightarrow> if q = ep then decode bs else None | _ \<Rightarrow> None) es"

lemma frames_in_simps [simp]:
  "frames_in ep decode [] = []"
  "frames_in ep decode [WireIn ep bs r] = (case decode bs of None \<Rightarrow> [] | Some f \<Rightarrow> [f])"
  "frames_in ep decode (es @ es') = frames_in ep decode es @ frames_in ep decode es'"
  by (simp_all add: frames_in_def map_filter_def split: option.splits)

text \<open>What \<^verbatim>\<open>ReceiveFrame\<close> of the drivers does after its checks of the arguments.\<close>

lemma receive_effect:
  assumes r: "(do { (r, w) \<leftarrow> receive_request drv l ep p FRAME_BUFFER_SIZE w;
      (case r of None \<Rightarrow> Some (None, w)
       | Some n \<Rightarrow>
           if n < h then Some (None, w)
           else let st = word32 (mem_read p 4 (w_mem w)) in
             if bad st then Some (None, w) else strip_frame h n (len st) p w) }) = Some (res, w')"
    and drv: "drv_keeps drv" and h: "4 \<le> unat h" "unat h < 2 ^ 31"
  shows "io_sig w' = io_sig w"
    and "\<exists>es. w_wire w' = w_wire w @ es
       \<and> frames_in ep (decode_frame (unat h) bad len) es = (case res of None \<Rightarrow> [] | Some k \<Rightarrow> [mem_read p (unat k) (w_mem w')])"
proof -
  from r obtain r0 w1 where q: "receive_request drv l ep p FRAME_BUFFER_SIZE w = Some (r0, w1)"
    and rest: "(case r0 of None \<Rightarrow> Some (None, w1)
       | Some n \<Rightarrow>
           if n < h then Some (None, w1)
           else let st = word32 (mem_read p 4 (w_mem w1)) in
             if bad st then Some (None, w1) else strip_frame h n (len st) p w1) = Some (res, w')"
    by (auto simp: bind_Some_iff)
  note e = receive_request_effect[OF q drv]
  have "io_sig w' = io_sig w1"
    using rest by (auto simp: strip_frame_def Let_def split: option.splits if_splits)
  with e(1) show "io_sig w' = io_sig w" by simp
  show "\<exists>es. w_wire w' = w_wire w @ es
       \<and> frames_in ep (decode_frame (unat h) bad len) es = (case res of None \<Rightarrow> [] | Some k \<Rightarrow> [mem_read p (unat k) (w_mem w')])"
  proof (cases r0)
    case None
    with rest e(2) show ?thesis by (intro exI[of _ "[]"]) auto
  next
    case (Some n)
    with e(2) obtain bs where bs: "length bs = unat n" "w_wire w1 = w_wire w @ [WireIn ep bs (int (length bs))]"
      "w_mem w1 = mem_write p bs (w_mem w)" by auto
    have len64: "length bs < 2 ^ 32" using unat_less_2p[of n] bs(1) by simp
    have rd: "mem_read p (length bs) (w_mem w1) = bs" using len64 by (simp add: bs(3) mem_read_write)
    have st: "mem_read p 4 (w_mem w1) = take 4 bs" if "\<not> n < h"
    proof -
      from that h(1) bs(1) obtain j where j: "length bs = 4 + j" by (auto simp: word_less_nat_alt not_less nat_le_iff_add)
      from rd show ?thesis unfolding j mem_read_add by (metis append_eq_conv_conj mem_read_length)
    qed
    let ?d = "decode_frame (unat h) bad len"
    show ?thesis
    proof (cases "n < h \<or> bad (word32 (mem_read p 4 (w_mem w1)))")
      case True
      with rest Some have "res = None" "w' = w1" by (auto simp: Let_def split: if_splits)
      moreover from True st have "?d bs = None"
        by (cases "n < h") (auto simp: decode_frame_def bs(1) word_less_nat_alt Let_def)
      ultimately show ?thesis using bs(2) by (intro exI[of _ "[WireIn ep bs (int (length bs))]"]) simp
    next
      case False
      let ?k = "len (word32 (take 4 bs)) - 4"
      from False rest Some st have k: "len (word32 (take 4 bs)) = n - h" "4 < len (word32 (take 4 bs))"
        and res: "res = Some ?k" and w': "w' = w1\<lparr>w_mem := snd (uspi_memcpy p (p + ucast h) (ucast ?k) (w_mem w1))\<rparr>"
        by (auto simp: Let_def strip_frame_def not_le split: if_splits)
      have hn: "h \<le> n" using False by (simp add: not_less)
      have uk: "unat ?k + 4 + unat h = unat n"
        using k hn by (simp add: unat_minus_le word_less_nat_alt word_le_nat_alt order_less_imp_le)
      have u64: "unat (ucast ?k :: u64) = unat ?k" "unat (ucast h :: u64) = unat h" by (simp_all add: unat_ucast_up)
      have hof: "ucast h = (of_nat (unat h) :: uintptr)" by (simp add: word_eq_iff_unsigned u64 unsigned_of_nat take_bit_nat_eq_self)
      have "w_mem w' = mem_write p (mem_read (p + ucast h) (unat ?k) (w_mem w1)) (w_mem w1)"
        unfolding w' hof uspi_memcpy_def using memcpy_down[of "unat h" "unat ?k" p "w_mem w1"] h len64 bs(1) uk
        by (simp add: u64)
      then have mk: "mem_read p (unat ?k) (w_mem w') = mem_read (p + ucast h) (unat ?k) (w_mem w1)"
        using mem_read_write[of "mem_read (p + ucast h) (unat ?k) (w_mem w1)" p "w_mem w1"] uk len64 bs(1) by simp
      have "mem_read p (unat h + (unat ?k + 4)) (w_mem w1) = bs" using rd uk bs(1) by (simp add: add.commute add.left_commute)
      then have "mem_read (p + ucast h) (unat ?k + 4) (w_mem w1) = drop (unat h) bs"
        unfolding mem_read_add hof by (metis append_eq_conv_conj mem_read_length)
      then have "mem_read (p + ucast h) (unat ?k) (w_mem w1) = take (unat ?k) (drop (unat h) bs)"
        unfolding mem_read_add by (metis append_eq_conv_conj mem_read_length)
      moreover have "unat ?k = unat (len (word32 (take 4 bs))) - 4"
        using k(2) by (simp add: unat_minus_le word_less_nat_alt word_le_nat_alt)
      moreover have "?d bs = Some (take (unat (len (word32 (take 4 bs))) - 4) (drop (unat h) bs))"
        using False st hn bs(1) by (simp add: decode_frame_def Let_def word_le_nat_alt not_less)
      ultimately show ?thesis using bs(2) mk w' res
        by (intro exI[of _ "[WireIn ep bs (int (length bs))]"]) simp
    qed
  qed
qed

section \<open>The contract of a frame device\<close>

text \<open>
  \<open>header n\<close> is what stands before a frame of \<open>n\<close> bytes on the wire, \<open>decode\<close> the frame in a received transfer.  \<open>ready\<close> is
  what the world needs for the device to work.
\<close>

locale frame_device =
  fixes ready :: "'a io_world_scheme \<Rightarrow> bool"
    and pIn pOut :: "addr option"
    and tx :: uintptr
    and limit :: nat
    and header :: "u32 \<Rightarrow> u8 list"
    and decode :: "u8 list \<Rightarrow> u8 list option"
    and send :: "uintptr \<Rightarrow> u32 \<Rightarrow> 'a io_world_scheme \<Rightarrow> (bool \<times> 'a io_world_scheme) option"
    and recv :: "uintptr \<Rightarrow> 'a io_world_scheme \<Rightarrow> (u32 option \<times> 'a io_world_scheme) option"
  assumes too_long: "limit < unat n \<Longrightarrow> send p n w = Some (False, w)"
    and sent: "\<lbrakk>ready w; send p n w = Some (ok, w'); unat n \<le> limit; block p (unat n) \<inter> block tx (unat n + 8) = {}\<rbrakk>
      \<Longrightarrow> \<exists>r. w_wire w' = w_wire w @ [WireOut pOut (header n @ mem_read p (unat n) (w_mem w)) r] \<and> ok = (r \<ge> 0)"
    and received: "\<lbrakk>ready w; recv p w = Some (res, w')\<rbrakk>
      \<Longrightarrow> ready w' \<and> (\<exists>es. w_wire w' = w_wire w @ es
            \<and> frames_in pIn decode es = (case res of None \<Rightarrow> [] | Some k \<Rightarrow> [mem_read p (unat k) (w_mem w')]))"
begin

end

text \<open>A sequence of receive calls, with the frames the caller finds in its buffer after each.\<close>

fun receive_frames ::
    "(uintptr \<Rightarrow> 'a io_world_scheme \<Rightarrow> (u32 option \<times> 'a io_world_scheme) option) \<Rightarrow> uintptr list \<Rightarrow> 'a io_world_scheme
     \<Rightarrow> (u8 list list \<times> 'a io_world_scheme) option" where
  "receive_frames recv [] w = Some ([], w)"
| "receive_frames recv (p # ps) w = do {
     (res, w) \<leftarrow> recv p w;
     let f = (case res of None \<Rightarrow> [] | Some k \<Rightarrow> [mem_read p (unat k) (w_mem w)]);
     (fs, w) \<leftarrow> receive_frames recv ps w;
     Some (f @ fs, w) }"

context frame_device
begin

lemma frames_received:
  "\<lbrakk>ready w; receive_frames recv ps w = Some (fs, w')\<rbrakk> \<Longrightarrow> \<exists>es. w_wire w' = w_wire w @ es \<and> fs = frames_in pIn decode es"
proof (induction ps arbitrary: w fs)
  case (Cons p ps)
  from Cons.prems(2) obtain res w1 gs where r: "recv p w = Some (res, w1)" "receive_frames recv ps w1 = Some (gs, w')"
    and fs: "fs = (case res of None \<Rightarrow> [] | Some k \<Rightarrow> [mem_read p (unat k) (w_mem w1)]) @ gs"
    by (auto simp: bind_Some_iff Let_def)
  from received[OF Cons.prems(1) r(1)] obtain es where es: "ready w1" "w_wire w1 = w_wire w @ es"
    "frames_in pIn decode es = (case res of None \<Rightarrow> [] | Some k \<Rightarrow> [mem_read p (unat k) (w_mem w1)])" by blast
  from Cons.IH[OF es(1) r(2)] obtain es' where "w_wire w' = w_wire w1 @ es'" "gs = frames_in pIn decode es'" by blast
  with es fs show ?case by (intro exI[of _ "es @ es'"]) simp
qed simp

end

text \<open>What the drivers ask of the world: endpoints of the right directions, and code called back that keeps to itself.\<close>

definition frame_ready ::
    "'a io_world_scheme driver_code \<Rightarrow> addr option \<Rightarrow> 'a io_world_scheme \<Rightarrow> bool" where
  "frame_ready drv pOut w \<longleftrightarrow> drv_keeps drv \<and> ep_dir (w_store w) pOut = Some False"

lemma frame_ready_sig: "io_sig w' = io_sig w \<Longrightarrow> frame_ready drv pOut w \<Longrightarrow> frame_ready drv pOut w'"
  using ep_dir_sig[of "w_store w'" "w_store w" pOut] by (auto simp: frame_ready_def dest: io_sig_parts(1))

end
