(* ===== verification/Smsc951x.thy ===== *)
theory Smsc951x
  imports Ethernet
begin

text \<open>
  The driver of the SMSC9514 Ethernet chip (\<^verbatim>\<open>lib/smsc951x.c\<close>).  \<^verbatim>\<open>GetMACAddress\<close> belongs to the environment: \<open>mac\<close> is its
  result, \<open>None\<close> if it fails.
\<close>

unbundle bit_operations_syntax

section \<open>Registers and headers\<close>

definition TX_CFG :: u32 where "TX_CFG = 0x10"
definition TX_CFG_ON :: u32 where "TX_CFG_ON = 0x00000004"
definition LED_GPIO_CFG :: u32 where "LED_GPIO_CFG = 0x24"
definition LED_GPIO_CFG_SPD_LED :: u32 where "LED_GPIO_CFG_SPD_LED = 0x01000000"
definition LED_GPIO_CFG_LNK_LED :: u32 where "LED_GPIO_CFG_LNK_LED = 0x00100000"
definition LED_GPIO_CFG_FDX_LED :: u32 where "LED_GPIO_CFG_FDX_LED = 0x00010000"
definition MAC_CR :: u32 where "MAC_CR = 0x100"
definition MAC_CR_RCVOWN :: u32 where "MAC_CR_RCVOWN = 0x00800000"
definition MAC_CR_TXEN :: u32 where "MAC_CR_TXEN = 0x00000008"
definition MAC_CR_RXEN :: u32 where "MAC_CR_RXEN = 0x00000004"
definition ADDRH :: u32 where "ADDRH = 0x104"
definition ADDRL :: u32 where "ADDRL = 0x108"
definition MII_ADDR :: u32 where "MII_ADDR = 0x114"
definition MII_BUSY :: u32 where "MII_BUSY = 0x01"
definition MII_WRITE :: u32 where "MII_WRITE = 0x02"
definition PHY_ID_INTERNAL :: u32 where "PHY_ID_INTERNAL = 0x01"
definition MII_DATA :: u32 where "MII_DATA = 0x118"

definition TX_CMD_A_FIRST_SEG :: u32 where "TX_CMD_A_FIRST_SEG = 0x00002000"
definition TX_CMD_A_LAST_SEG :: u32 where "TX_CMD_A_LAST_SEG = 0x00001000"
definition TX_CMD_A_BUF_SIZE :: u32 where "TX_CMD_A_BUF_SIZE = 0x000007FF"

definition RX_STS_FF :: u32 where "RX_STS_FF = 0x40000000"
definition RX_STS_FL :: u32 where "RX_STS_FL = 0x3FFF0000"
definition RX_STS_FRAMELEN :: "u32 \<Rightarrow> u32" where "RX_STS_FRAMELEN reg = drop_bit 16 (reg AND RX_STS_FL)"
definition RX_STS_ES :: u32 where "RX_STS_ES = 0x00008000"
definition RX_STS_LE :: u32 where "RX_STS_LE = 0x00001000"
definition RX_STS_TL :: u32 where "RX_STS_TL = 0x00000080"
definition RX_STS_CS :: u32 where "RX_STS_CS = 0x00000040"
definition RX_STS_RW :: u32 where "RX_STS_RW = 0x00000010"
definition RX_STS_ME :: u32 where "RX_STS_ME = 0x00000008"
definition RX_STS_DB :: u32 where "RX_STS_DB = 0x00000004"
definition RX_STS_CRC :: u32 where "RX_STS_CRC = 0x00000002"
definition RX_STS_ERROR :: u32 where
  "RX_STS_ERROR = RX_STS_FF OR RX_STS_ES OR RX_STS_LE OR RX_STS_TL OR RX_STS_CS OR RX_STS_RW OR RX_STS_ME OR RX_STS_DB
     OR RX_STS_CRC"

section \<open>The device\<close>

record TSMSC951xDevice =
  sm_USBFunction :: TUSBFunction
  sm_pEndpointBulkIn :: "addr option"
  sm_pEndpointBulkOut :: "addr option"
  sm_MACAddress :: TMACAddress
  sm_pTxBuffer :: uintptr

text \<open>\<open>a\<close> is what the memory of the object holds in the MAC address, which the constructor does not write.\<close>

definition SMSC951xDevice :: "TUSBFunction \<Rightarrow> uintptr \<Rightarrow> TMACAddress \<Rightarrow> TSMSC951xDevice option" where
  "SMSC951xDevice pDevice pTxBuffer a = do {
     f \<leftarrow> USBFunctionCopy pDevice;
     c_assert (pTxBuffer \<noteq> 0);
     Some \<lparr>sm_USBFunction = f\<lparr>fn_Configure := Some SMSC951xConfigure\<rparr>, sm_pEndpointBulkIn = None,
       sm_pEndpointBulkOut = None, sm_MACAddress = a, sm_pTxBuffer = pTxBuffer\<rparr> }"

definition SMSC951xDevice_dtor ::
    "TSMSC951xDevice \<Rightarrow> 'a io_world_scheme \<Rightarrow> (TSMSC951xDevice \<times> 'a io_world_scheme) option" where
  "SMSC951xDevice_dtor d w = do {
     w \<leftarrow> free_bulk_endpoints (sm_pEndpointBulkOut d) (sm_pEndpointBulkIn d) w;
     f \<leftarrow> USBFunction_dtor (sm_USBFunction d);
     Some (d\<lparr>sm_pTxBuffer := 0, sm_pEndpointBulkOut := None, sm_pEndpointBulkIn := None, sm_USBFunction := f\<rparr>, w) }"

definition SMSC951xDeviceWriteReg ::
    "'a io_world_scheme driver_code \<Rightarrow> locals \<Rightarrow> TSMSC951xDevice \<Rightarrow> u32 \<Rightarrow> u32 \<Rightarrow> 'a io_world_scheme
     \<Rightarrow> (bool \<times> 'a io_world_scheme) option" where
  "SMSC951xDeviceWriteReg drv l d = eth_write_reg drv l (sm_USBFunction d)"

definition SMSC951xDeviceReadReg ::
    "'a io_world_scheme driver_code \<Rightarrow> locals \<Rightarrow> TSMSC951xDevice \<Rightarrow> u32 \<Rightarrow> 'a io_world_scheme
     \<Rightarrow> (bool \<times> u32 \<times> 'a io_world_scheme) option" where
  "SMSC951xDeviceReadReg drv l d = eth_read_reg drv l (sm_USBFunction d)"

definition SMSC951xDevicePHYWaitNotBusy ::
    "'a io_world_scheme driver_code \<Rightarrow> locals \<Rightarrow> TSMSC951xDevice \<Rightarrow> 'a io_world_scheme
     \<Rightarrow> (bool \<times> 'a io_world_scheme) option" where
  "SMSC951xDevicePHYWaitNotBusy drv l d =
     wait_reg (ms_delay 1) (SMSC951xDeviceReadReg drv l d MII_ADDR) (\<lambda>nValue. nValue AND MII_BUSY \<noteq> 0) 1000"

definition nMIIAddress :: "u8 \<Rightarrow> u32" where
  "nMIIAddress uchIndex = push_bit 11 PHY_ID_INTERNAL OR push_bit 6 (ucast uchIndex)"

definition SMSC951xDevicePHYWrite ::
    "'a io_world_scheme driver_code \<Rightarrow> locals \<Rightarrow> TSMSC951xDevice \<Rightarrow> u8 \<Rightarrow> u16 \<Rightarrow> 'a io_world_scheme
     \<Rightarrow> (bool \<times> 'a io_world_scheme) option" where
  "SMSC951xDevicePHYWrite drv l d uchIndex usValue w = do {
     c_assert (uchIndex \<le> 31);
     phy_write (SMSC951xDevicePHYWaitNotBusy drv l d) (SMSC951xDeviceWriteReg drv l d) MII_ADDR MII_DATA
       (nMIIAddress uchIndex OR MII_WRITE OR MII_BUSY) usValue w }"

definition SMSC951xDevicePHYRead ::
    "'a io_world_scheme driver_code \<Rightarrow> locals \<Rightarrow> TSMSC951xDevice \<Rightarrow> u8 \<Rightarrow> 'a io_world_scheme
     \<Rightarrow> (u16 option \<times> 'a io_world_scheme) option" where
  "SMSC951xDevicePHYRead drv l d uchIndex w = do {
     c_assert (uchIndex \<le> 31);
     phy_read (SMSC951xDevicePHYWaitNotBusy drv l d) (SMSC951xDeviceWriteReg drv l d) (SMSC951xDeviceReadReg drv l d)
       MII_ADDR MII_DATA (nMIIAddress uchIndex OR MII_BUSY) w }"

definition SMSC951xDeviceIsLinkUp ::
    "'a io_world_scheme driver_code \<Rightarrow> locals \<Rightarrow> TSMSC951xDevice \<Rightarrow> 'a io_world_scheme
     \<Rightarrow> (bool \<times> 'a io_world_scheme) option" where
  "SMSC951xDeviceIsLinkUp drv l d w = do {
     (usPHYModeStatus, w) \<leftarrow> SMSC951xDevicePHYRead drv l d 0x01 w;
     (case usPHYModeStatus of None \<Rightarrow> Some (False, w)
      | Some s \<Rightarrow> Some (s AND push_bit 2 1 \<noteq> 0, w)) }"

section \<open>Configuration\<close>

definition smsc_start ::
    "'a io_world_scheme driver_code \<Rightarrow> locals \<Rightarrow> addr \<Rightarrow> TSMSC951xDevice \<Rightarrow> 'a io_world_scheme
     \<Rightarrow> (bool \<times> TSMSC951xDevice \<times> 'a io_world_scheme) option" where
  "smsc_start drv l pThis d w = do {
     MACAddressBuffer \<leftarrow> MACAddressCopyTo (sm_MACAddress d) (replicate MAC_ADDRESS_SIZE 0);
     usMACAddressHigh \<leftarrow> mac_high MACAddressBuffer;
     nMACAddressLow \<leftarrow> mac_low MACAddressBuffer;
     (ok, w) \<leftarrow> then_stage (SMSC951xDeviceWriteReg drv l d ADDRH usMACAddressHigh w)
                  (SMSC951xDeviceWriteReg drv l d ADDRL nMACAddressLow);
     if \<not> ok then Some (False, d, w)
     else do {
       (ok, w) \<leftarrow> then_stage (then_stage
           (SMSC951xDeviceWriteReg drv l d LED_GPIO_CFG
              (LED_GPIO_CFG_SPD_LED OR LED_GPIO_CFG_LNK_LED OR LED_GPIO_CFG_FDX_LED) w)
           (SMSC951xDeviceWriteReg drv l d MAC_CR (MAC_CR_RCVOWN OR MAC_CR_TXEN OR MAC_CR_RXEN)))
           (SMSC951xDeviceWriteReg drv l d TX_CFG TX_CFG_ON);
       if \<not> ok then Some (False, d, w)
       else do {
         w \<leftarrow> register_device SMSC951xConfigure ''eth%u'' pThis False w;
         Some (True, d, w) } } }"

definition SMSC951xDeviceConfigure ::
    "'a io_world_scheme driver_code \<Rightarrow> locals \<Rightarrow> addr \<Rightarrow> u8 list option \<Rightarrow> TSMSC951xDevice \<Rightarrow> 'a io_world_scheme
     \<Rightarrow> (bool \<times> TSMSC951xDevice \<times> 'a io_world_scheme) option" where
  "SMSC951xDeviceConfigure drv l pThis mac d w =
     (case mac of None \<Rightarrow> Some (False, d, w)
      | Some pMAC \<Rightarrow> do {
          a \<leftarrow> MACAddressSet (sm_MACAddress d) pMAC;
          let d = d\<lparr>sm_MACAddress := a\<rparr>;
          _ \<leftarrow> MACAddressFormat (w_malloc w) a (String \<lparr>s_pBuffer = None, s_nSize = 0, s_pInPtr = 0\<rparr>);
          nEndpoints \<leftarrow> USBFunctionGetNumEndpoints (sm_USBFunction d);
          if nEndpoints \<noteq> 3 then do { _ \<leftarrow> USBFunctionConfigurationError (sm_USBFunction d); Some (False, d, w) }
          else do {
            (ok, f, pIn, pOut, w) \<leftarrow> find_bulk_endpoints (sm_USBFunction d) (sm_pEndpointBulkIn d) (sm_pEndpointBulkOut d) w;
            let d = d\<lparr>sm_USBFunction := f, sm_pEndpointBulkIn := pIn, sm_pEndpointBulkOut := pOut\<rparr>;
            if \<not> ok then Some (False, d, w)
            else if sm_pEndpointBulkIn d = None \<or> sm_pEndpointBulkOut d = None
            then do { _ \<leftarrow> USBFunctionConfigurationError (sm_USBFunction d); Some (False, d, w) }
            else do {
              (ok, w) \<leftarrow> USBFunctionConfigure drv l (sm_USBFunction d) w;
              if \<not> ok then Some (False, d, w) else smsc_start drv l pThis d w } } })"

definition SMSC951xDeviceGetMACAddress :: "TSMSC951xDevice \<Rightarrow> TMACAddress" where
  "SMSC951xDeviceGetMACAddress d = sm_MACAddress d"

section \<open>Frames\<close>

definition SMSC951xDeviceSendFrame ::
    "'a io_world_scheme driver_code \<Rightarrow> locals \<Rightarrow> TSMSC951xDevice \<Rightarrow> uintptr \<Rightarrow> u32 \<Rightarrow> 'a io_world_scheme
     \<Rightarrow> (bool \<times> 'a io_world_scheme) option" where
  "SMSC951xDeviceSendFrame drv l d pBuffer nLength w =
     (if nLength \<ge> FRAME_BUFFER_SIZE - 8 then Some (False, w)
      else send_buffer drv l (sm_USBFunction d) (sm_pEndpointBulkOut d) (sm_pTxBuffer d)
             (TX_CMD_A_FIRST_SEG OR TX_CMD_A_LAST_SEG OR nLength) nLength pBuffer nLength w)"

definition SMSC951xDeviceReceiveFrame ::
    "'a io_world_scheme driver_code \<Rightarrow> locals \<Rightarrow> TSMSC951xDevice \<Rightarrow> uintptr \<Rightarrow> 'a io_world_scheme
     \<Rightarrow> (u32 option \<times> 'a io_world_scheme) option" where
  "SMSC951xDeviceReceiveFrame drv l d pBuffer w = do {
     c_assert (sm_pEndpointBulkIn d \<noteq> None);
     c_assert (pBuffer \<noteq> 0);
     _ \<leftarrow> USBFunctionGetHost (w_store w) (sm_USBFunction d);
     (r, w) \<leftarrow> receive_request drv l (sm_pEndpointBulkIn d) pBuffer FRAME_BUFFER_SIZE w;
     (case r of None \<Rightarrow> Some (None, w)
      | Some nResultLength \<Rightarrow>
          if nResultLength < 4 then Some (None, w)
          else let nRxStatus = word32 (mem_read pBuffer 4 (w_mem w)) in
            if nRxStatus AND RX_STS_ERROR \<noteq> 0 then Some (None, w)
            else strip_frame 4 nResultLength (RX_STS_FRAMELEN nRxStatus) pBuffer w) }"

section \<open>The driver keeps its contracts\<close>

definition smsc_header :: "u32 \<Rightarrow> u8 list" where
  "smsc_header n = bytes32 (TX_CMD_A_FIRST_SEG OR TX_CMD_A_LAST_SEG OR n) @ bytes32 n"

definition smsc_decode :: "u8 list \<Rightarrow> u8 list option" where
  "smsc_decode = decode_frame 4 (\<lambda>st. st AND RX_STS_ERROR \<noteq> 0) RX_STS_FRAMELEN"

interpretation smsc: frame_device "frame_ready drv (sm_pEndpointBulkOut d)" "sm_pEndpointBulkIn d" "sm_pEndpointBulkOut d"
  "sm_pTxBuffer d" 1591 smsc_header smsc_decode "SMSC951xDeviceSendFrame drv l d" "SMSC951xDeviceReceiveFrame drv l d"
proof unfold_locales
  fix n :: u32 and p and w :: "'a io_world_scheme"
  assume "1591 < unat n"
  then show "SMSC951xDeviceSendFrame drv l d p n w = Some (False, w)"
    by (simp add: SMSC951xDeviceSendFrame_def FRAME_BUFFER_SIZE_def word_le_nat_alt)
next
  fix n :: u32 and p ok and w w' :: "'a io_world_scheme"
  assume r: "frame_ready drv (sm_pEndpointBulkOut d) w" and n: "unat n \<le> 1591"
    and d: "block p (unat n) \<inter> block (sm_pTxBuffer d) (unat n + 8) = {}"
    and s: "SMSC951xDeviceSendFrame drv l d p n w = Some (ok, w')"
  from n have "\<not> FRAME_BUFFER_SIZE - 8 \<le> n" by (simp add: FRAME_BUFFER_SIZE_def word_le_nat_alt)
  with s have "send_buffer drv l (sm_USBFunction d) (sm_pEndpointBulkOut d) (sm_pTxBuffer d)
      (TX_CMD_A_FIRST_SEG OR TX_CMD_A_LAST_SEG OR n) n p n w = Some (ok, w')"
    by (simp add: SMSC951xDeviceSendFrame_def)
  from send_buffer_effect[OF this] r n d show "\<exists>r. w_wire w' = w_wire w
      @ [WireOut (sm_pEndpointBulkOut d) (smsc_header n @ mem_read p (unat n) (w_mem w)) r] \<and> ok = (r \<ge> 0)"
    by (simp add: frame_ready_def smsc_header_def)
next
  fix p res and w w' :: "'a io_world_scheme"
  assume r: "frame_ready drv (sm_pEndpointBulkOut d) w" and s: "SMSC951xDeviceReceiveFrame drv l d p w = Some (res, w')"
  from s have "(do { (r, w) \<leftarrow> receive_request drv l (sm_pEndpointBulkIn d) p FRAME_BUFFER_SIZE w;
      (case r of None \<Rightarrow> Some (None, w)
       | Some n \<Rightarrow> if n < 4 then Some (None, w)
           else let st = word32 (mem_read p 4 (w_mem w)) in
             if st AND RX_STS_ERROR \<noteq> 0 then Some (None, w) else strip_frame 4 n (RX_STS_FRAMELEN st) p w) }) = Some (res, w')"
    by (auto simp: SMSC951xDeviceReceiveFrame_def bind_Some_iff split: if_splits)
  note e = receive_effect[OF this]
  from e r have "io_sig w' = io_sig w" by (simp add: frame_ready_def)
  from frame_ready_sig[OF this r] e(2) r show "frame_ready drv (sm_pEndpointBulkOut d) w' \<and> (\<exists>es. w_wire w' = w_wire w @ es
      \<and> frames_in (sm_pEndpointBulkIn d) smsc_decode es = (case res of None \<Rightarrow> [] | Some k \<Rightarrow> [mem_read p (unat k) (w_mem w')]))"
    by (simp add: frame_ready_def smsc_decode_def)
qed

end
