(* ===== verification/Lan7800.thy ===== *)
theory Lan7800
  imports Ethernet
begin

text \<open>
  The driver of the LAN7800 Ethernet chip (\<^verbatim>\<open>lib/lan7800.c\<close>).  The names of its registers and bits have the
  prefix \<open>lan_\<close> where the other driver uses the same name.  \<^verbatim>\<open>GetMACAddress\<close> belongs to the environment: \<open>mac\<close> is its
  result, \<open>None\<close> if it fails.
\<close>

unbundle bit_operations_syntax

section \<open>Registers and headers\<close>

definition HS_USB_PKT_SIZE :: u32 where "HS_USB_PKT_SIZE = 512"
definition MAX_RX_FIFO_SIZE :: u32 where "MAX_RX_FIFO_SIZE = 12 * 1024"
definition MAX_TX_FIFO_SIZE :: u32 where "MAX_TX_FIFO_SIZE = 12 * 1024"
definition DEFAULT_BURST_CAP_SIZE :: u32 where "DEFAULT_BURST_CAP_SIZE = MAX_TX_FIFO_SIZE"
definition DEFAULT_BULK_IN_DELAY :: u32 where "DEFAULT_BULK_IN_DELAY = 0x800"
definition RX_HEADER_SIZE :: u32 where "RX_HEADER_SIZE = 4 + 4 + 2"
definition TX_HEADER_SIZE :: u32 where "TX_HEADER_SIZE = 4 + 4"
definition MAX_RX_FRAME_SIZE :: u32 where "MAX_RX_FRAME_SIZE = 2 * 6 + 2 + 1500 + 4"

definition ID_REV :: u32 where "ID_REV = 0x000"
definition ID_REV_CHIP_ID_MASK :: u32 where "ID_REV_CHIP_ID_MASK = 0xFFFF0000"
definition ID_REV_CHIP_ID_7800 :: u32 where "ID_REV_CHIP_ID_7800 = 0x7800"
definition INT_STS :: u32 where "INT_STS = 0x00C"
definition INT_STS_CLEAR_ALL :: u32 where "INT_STS_CLEAR_ALL = 0xFFFFFFFF"
definition HW_CFG :: u32 where "HW_CFG = 0x010"
definition HW_CFG_LED1_EN :: u32 where "HW_CFG_LED1_EN = 0x00200000"
definition HW_CFG_LED0_EN :: u32 where "HW_CFG_LED0_EN = 0x00100000"
definition HW_CFG_MEF :: u32 where "HW_CFG_MEF = 0x00000010"
definition HW_CFG_LRST :: u32 where "HW_CFG_LRST = 0x00000002"
definition PMT_CTL :: u32 where "PMT_CTL = 0x014"
definition PMT_CTL_READY :: u32 where "PMT_CTL_READY = 0x00000080"
definition PMT_CTL_PHY_RST :: u32 where "PMT_CTL_PHY_RST = 0x00000010"
definition USB_CFG0 :: u32 where "USB_CFG0 = 0x080"
definition USB_CFG_BIR :: u32 where "USB_CFG_BIR = 0x00000040"
definition USB_CFG_BCE :: u32 where "USB_CFG_BCE = 0x00000020"
definition BURST_CAP :: u32 where "BURST_CAP = 0x090"
definition BULK_IN_DLY :: u32 where "BULK_IN_DLY = 0x094"
definition INT_EP_CTL :: u32 where "INT_EP_CTL = 0x098"
definition RFE_CTL :: u32 where "RFE_CTL = 0x0B0"
definition RFE_CTL_BCAST_EN :: u32 where "RFE_CTL_BCAST_EN = 0x00000400"
definition RFE_CTL_DA_PERFECT :: u32 where "RFE_CTL_DA_PERFECT = 0x00000002"
definition FCT_RX_CTL :: u32 where "FCT_RX_CTL = 0x0C0"
definition FCT_RX_CTL_EN :: u32 where "FCT_RX_CTL_EN = 0x80000000"
definition FCT_TX_CTL :: u32 where "FCT_TX_CTL = 0x0C4"
definition FCT_TX_CTL_EN :: u32 where "FCT_TX_CTL_EN = 0x80000000"
definition FCT_RX_FIFO_END :: u32 where "FCT_RX_FIFO_END = 0x0C8"
definition FCT_TX_FIFO_END :: u32 where "FCT_TX_FIFO_END = 0x0CC"
definition FCT_FLOW :: u32 where "FCT_FLOW = 0x0D0"
definition lan_MAC_CR :: u32 where "lan_MAC_CR = 0x100"
definition MAC_CR_AUTO_DUPLEX :: u32 where "MAC_CR_AUTO_DUPLEX = 0x00001000"
definition MAC_CR_AUTO_SPEED :: u32 where "MAC_CR_AUTO_SPEED = 0x00000800"
definition MAC_RX :: u32 where "MAC_RX = 0x104"
definition MAC_RX_MAX_SIZE_SHIFT :: nat where "MAC_RX_MAX_SIZE_SHIFT = 16"
definition MAC_RX_MAX_SIZE_MASK :: u32 where "MAC_RX_MAX_SIZE_MASK = 0x3FFF0000"
definition MAC_RX_RXEN :: u32 where "MAC_RX_RXEN = 0x00000001"
definition MAC_TX :: u32 where "MAC_TX = 0x108"
definition MAC_TX_TXEN :: u32 where "MAC_TX_TXEN = 0x00000001"
definition FLOW :: u32 where "FLOW = 0x10C"
definition RX_ADDRH :: u32 where "RX_ADDRH = 0x118"
definition RX_ADDRL :: u32 where "RX_ADDRL = 0x11C"
definition MII_ACC :: u32 where "MII_ACC = 0x120"
definition MII_ACC_PHY_ADDR_SHIFT :: nat where "MII_ACC_PHY_ADDR_SHIFT = 11"
definition MII_ACC_PHY_ADDR_MASK :: u32 where "MII_ACC_PHY_ADDR_MASK = 0x0000F800"
definition PHY_ADDRESS :: u32 where "PHY_ADDRESS = 1"
definition MII_ACC_MIIRINDA_SHIFT :: nat where "MII_ACC_MIIRINDA_SHIFT = 6"
definition MII_ACC_MIIRINDA_MASK :: u32 where "MII_ACC_MIIRINDA_MASK = 0x000007C0"
definition MII_ACC_MII_READ :: u32 where "MII_ACC_MII_READ = 0x00000000"
definition MII_ACC_MII_WRITE :: u32 where "MII_ACC_MII_WRITE = 0x00000002"
definition MII_ACC_MII_BUSY :: u32 where "MII_ACC_MII_BUSY = 0x00000001"
definition lan_MII_DATA :: u32 where "lan_MII_DATA = 0x124"
definition MAF_BASE :: u32 where "MAF_BASE = 0x400"
definition MAF_HIX :: u32 where "MAF_HIX = 0x00"
definition MAF_LOX :: u32 where "MAF_LOX = 0x04"
definition MAF_HI :: "u32 \<Rightarrow> u32" where "MAF_HI index = MAF_BASE + 8 * index + MAF_HIX"
definition MAF_LO :: "u32 \<Rightarrow> u32" where "MAF_LO index = MAF_BASE + 8 * index + MAF_LOX"
definition MAF_HI_VALID :: u32 where "MAF_HI_VALID = 0x80000000"

definition TX_CMD_A_FCS :: u32 where "TX_CMD_A_FCS = 0x00400000"
definition TX_CMD_A_LEN_MASK :: u32 where "TX_CMD_A_LEN_MASK = 0x000FFFFF"
definition RX_CMD_A_RED :: u32 where "RX_CMD_A_RED = 0x00400000"
definition RX_CMD_A_LEN_MASK :: u32 where "RX_CMD_A_LEN_MASK = 0x00003FFF"

section \<open>The device\<close>

record TLAN7800Device =
  la_USBFunction :: TUSBFunction
  la_pEndpointBulkIn :: "addr option"
  la_pEndpointBulkOut :: "addr option"
  la_MACAddress :: TMACAddress
  la_pTxBuffer :: uintptr

text \<open>\<open>a\<close> is what the memory of the object holds in the MAC address, which the constructor does not write.\<close>

definition LAN7800Device :: "TUSBFunction \<Rightarrow> uintptr \<Rightarrow> TMACAddress \<Rightarrow> TLAN7800Device option" where
  "LAN7800Device pFunction pTxBuffer a = do {
     f \<leftarrow> USBFunctionCopy pFunction;
     c_assert (pTxBuffer \<noteq> 0);
     Some \<lparr>la_USBFunction = f\<lparr>fn_Configure := Some LAN7800Configure\<rparr>, la_pEndpointBulkIn = None,
       la_pEndpointBulkOut = None, la_MACAddress = a, la_pTxBuffer = pTxBuffer\<rparr> }"

definition LAN7800Device_dtor ::
    "TLAN7800Device \<Rightarrow> 'a io_world_scheme \<Rightarrow> (TLAN7800Device \<times> 'a io_world_scheme) option" where
  "LAN7800Device_dtor d w = do {
     w \<leftarrow> free_bulk_endpoints (la_pEndpointBulkOut d) (la_pEndpointBulkIn d) w;
     f \<leftarrow> USBFunction_dtor (la_USBFunction d);
     Some (d\<lparr>la_pTxBuffer := 0, la_pEndpointBulkOut := None, la_pEndpointBulkIn := None, la_USBFunction := f\<rparr>, w) }"

definition LAN7800DeviceWriteReg ::
    "'a io_world_scheme driver_code \<Rightarrow> locals \<Rightarrow> TLAN7800Device \<Rightarrow> u32 \<Rightarrow> u32 \<Rightarrow> 'a io_world_scheme
     \<Rightarrow> (bool \<times> 'a io_world_scheme) option" where
  "LAN7800DeviceWriteReg drv l d = eth_write_reg drv l (la_USBFunction d)"

definition LAN7800DeviceReadReg ::
    "'a io_world_scheme driver_code \<Rightarrow> locals \<Rightarrow> TLAN7800Device \<Rightarrow> u32 \<Rightarrow> 'a io_world_scheme
     \<Rightarrow> (bool \<times> u32 \<times> 'a io_world_scheme) option" where
  "LAN7800DeviceReadReg drv l d = eth_read_reg drv l (la_USBFunction d)"

definition LAN7800DeviceReadWriteReg ::
    "'a io_world_scheme driver_code \<Rightarrow> locals \<Rightarrow> TLAN7800Device \<Rightarrow> u32 \<Rightarrow> u32 \<Rightarrow> u32 \<Rightarrow> 'a io_world_scheme
     \<Rightarrow> (bool \<times> 'a io_world_scheme) option" where
  "LAN7800DeviceReadWriteReg drv l d nIndex nOrMask nAndMask w = do {
     (ok, nValue, w) \<leftarrow> LAN7800DeviceReadReg drv l d nIndex w;
     if \<not> ok then Some (False, w)
     else do {
       let nValue = nValue AND nAndMask;
       let nValue = nValue OR nOrMask;
       LAN7800DeviceWriteReg drv l d nIndex nValue w } }"

definition LAN7800DeviceWaitReg ::
    "'a io_world_scheme driver_code \<Rightarrow> locals \<Rightarrow> TLAN7800Device \<Rightarrow> u32 \<Rightarrow> u32 \<Rightarrow> u32 \<Rightarrow> 'a io_world_scheme
     \<Rightarrow> (bool \<times> 'a io_world_scheme) option" where
  "LAN7800DeviceWaitReg drv l d nIndex nMask nCompare =
     wait_reg (ms_delay 1) (LAN7800DeviceReadReg drv l d nIndex) (\<lambda>nValue. nValue AND nMask \<noteq> nCompare) 1000"

definition nMIIAccess :: "u8 \<Rightarrow> u32 \<Rightarrow> u32" where
  "nMIIAccess uchIndex bits = (push_bit MII_ACC_PHY_ADDR_SHIFT PHY_ADDRESS AND MII_ACC_PHY_ADDR_MASK)
     OR (push_bit MII_ACC_MIIRINDA_SHIFT (ucast uchIndex) AND MII_ACC_MIIRINDA_MASK) OR bits"

definition LAN7800DevicePHYWrite ::
    "'a io_world_scheme driver_code \<Rightarrow> locals \<Rightarrow> TLAN7800Device \<Rightarrow> u8 \<Rightarrow> u16 \<Rightarrow> 'a io_world_scheme
     \<Rightarrow> (bool \<times> 'a io_world_scheme) option" where
  "LAN7800DevicePHYWrite drv l d uchIndex usValue w = do {
     c_assert (uchIndex \<le> 30);
     phy_write (LAN7800DeviceWaitReg drv l d MII_ACC MII_ACC_MII_BUSY 0) (LAN7800DeviceWriteReg drv l d) MII_ACC lan_MII_DATA
       (nMIIAccess uchIndex (MII_ACC_MII_WRITE OR MII_ACC_MII_BUSY)) usValue w }"

definition LAN7800DevicePHYRead ::
    "'a io_world_scheme driver_code \<Rightarrow> locals \<Rightarrow> TLAN7800Device \<Rightarrow> u8 \<Rightarrow> 'a io_world_scheme
     \<Rightarrow> (u16 option \<times> 'a io_world_scheme) option" where
  "LAN7800DevicePHYRead drv l d uchIndex w = do {
     c_assert (uchIndex \<le> 30);
     phy_read (LAN7800DeviceWaitReg drv l d MII_ACC MII_ACC_MII_BUSY 0) (LAN7800DeviceWriteReg drv l d)
       (LAN7800DeviceReadReg drv l d) MII_ACC lan_MII_DATA (nMIIAccess uchIndex (MII_ACC_MII_READ OR MII_ACC_MII_BUSY)) w }"

definition LAN7800DeviceIsLinkUp ::
    "'a io_world_scheme driver_code \<Rightarrow> locals \<Rightarrow> TLAN7800Device \<Rightarrow> 'a io_world_scheme
     \<Rightarrow> (bool \<times> 'a io_world_scheme) option" where
  "LAN7800DeviceIsLinkUp drv l d w = do {
     (usPHYModeStatus, w) \<leftarrow> LAN7800DevicePHYRead drv l d 0x01 w;
     (case usPHYModeStatus of None \<Rightarrow> Some (False, w)
      | Some s \<Rightarrow> Some (s AND push_bit 2 1 \<noteq> 0, w)) }"

definition LAN7800DeviceInitPHY ::
    "'a io_world_scheme driver_code \<Rightarrow> locals \<Rightarrow> TLAN7800Device \<Rightarrow> 'a io_world_scheme
     \<Rightarrow> (bool \<times> 'a io_world_scheme) option" where
  "LAN7800DeviceInitPHY drv l d w = do {
     (usLEDModeSel, w) \<leftarrow> LAN7800DevicePHYRead drv l d 0x1D w;
     (case usLEDModeSel of None \<Rightarrow> Some (False, w)
      | Some s \<Rightarrow>
          let s = s AND NOT 0xFF; s = s OR push_bit 0 1; s = s OR push_bit 4 6
          in LAN7800DevicePHYWrite drv l d 0x1D s w) }"

definition LAN7800DeviceInitMACAddress ::
    "'a io_world_scheme driver_code \<Rightarrow> locals \<Rightarrow> u8 list option \<Rightarrow> TLAN7800Device \<Rightarrow> 'a io_world_scheme
     \<Rightarrow> (bool \<times> TLAN7800Device \<times> 'a io_world_scheme) option" where
  "LAN7800DeviceInitMACAddress drv l mac d w =
     (case mac of None \<Rightarrow> Some (False, d, w)
      | Some pMAC \<Rightarrow> do {
          a \<leftarrow> MACAddressSet (la_MACAddress d) pMAC;
          let d = d\<lparr>la_MACAddress := a\<rparr>;
          nMACAddressLow \<leftarrow> mac_low pMAC;
          nMACAddressHigh \<leftarrow> mac_high pMAC;
          (ok, w) \<leftarrow> then_stage (LAN7800DeviceWriteReg drv l d RX_ADDRL nMACAddressLow w)
                       (LAN7800DeviceWriteReg drv l d RX_ADDRH nMACAddressHigh);
          if \<not> ok then Some (False, d, w)
          else do {
            (ok, w) \<leftarrow> then_stage (LAN7800DeviceWriteReg drv l d (MAF_LO 0) nMACAddressLow w)
                         (LAN7800DeviceWriteReg drv l d (MAF_HI 0) (nMACAddressHigh OR MAF_HI_VALID));
            if \<not> ok then Some (False, d, w)
            else do {
              _ \<leftarrow> MACAddressFormat (w_malloc w) (la_MACAddress d) (String \<lparr>s_pBuffer = None, s_nSize = 0, s_pInPtr = 0\<rparr>);
              Some (True, d, w) } } })"

section \<open>Configuration\<close>

text \<open>The check of the chip and its reset.\<close>

definition lan_reset ::
    "'a io_world_scheme driver_code \<Rightarrow> locals \<Rightarrow> TLAN7800Device \<Rightarrow> 'a io_world_scheme
     \<Rightarrow> (bool \<times> 'a io_world_scheme) option" where
  "lan_reset drv l d w = do {
     (ok, nValue, w) \<leftarrow> LAN7800DeviceReadReg drv l d ID_REV w;
     if \<not> ok \<or> drop_bit 16 (nValue AND ID_REV_CHIP_ID_MASK) \<noteq> ID_REV_CHIP_ID_7800 then Some (False, w)
     else then_stage (LAN7800DeviceReadWriteReg drv l d HW_CFG HW_CFG_LRST (NOT 0) w)
            (LAN7800DeviceWaitReg drv l d HW_CFG HW_CFG_LRST 0) }"

text \<open>
  The steps between the MAC address and the PHY, each of which ends the configuration if it fails.
\<close>

definition lan_setup ::
    "'a io_world_scheme driver_code \<Rightarrow> locals \<Rightarrow> TLAN7800Device \<Rightarrow> 'a io_world_scheme
     \<Rightarrow> (bool \<times> 'a io_world_scheme) option" where
  "lan_setup drv l d w = fold (\<lambda>step m. then_stage m step)
     [LAN7800DeviceWriteReg drv l d BURST_CAP (DEFAULT_BURST_CAP_SIZE div HS_USB_PKT_SIZE),
      LAN7800DeviceWriteReg drv l d BULK_IN_DLY DEFAULT_BULK_IN_DELAY,
      LAN7800DeviceReadWriteReg drv l d HW_CFG (HW_CFG_LED0_EN OR HW_CFG_LED1_EN) (NOT HW_CFG_MEF),
      LAN7800DeviceReadWriteReg drv l d USB_CFG0 USB_CFG_BCE (NOT USB_CFG_BIR),
      LAN7800DeviceWriteReg drv l d FCT_RX_FIFO_END ((MAX_RX_FIFO_SIZE - 512) div 512),
      LAN7800DeviceWriteReg drv l d FCT_TX_FIFO_END ((MAX_TX_FIFO_SIZE - 512) div 512),
      LAN7800DeviceWriteReg drv l d INT_EP_CTL 0,
      LAN7800DeviceWriteReg drv l d INT_STS INT_STS_CLEAR_ALL,
      LAN7800DeviceWriteReg drv l d FLOW 0,
      LAN7800DeviceWriteReg drv l d FCT_FLOW 0,
      LAN7800DeviceReadWriteReg drv l d RFE_CTL (RFE_CTL_BCAST_EN OR RFE_CTL_DA_PERFECT) (NOT 0),
      LAN7800DeviceReadWriteReg drv l d PMT_CTL PMT_CTL_PHY_RST (NOT 0),
      LAN7800DeviceWaitReg drv l d PMT_CTL (PMT_CTL_PHY_RST OR PMT_CTL_READY) PMT_CTL_READY,
      LAN7800DeviceReadWriteReg drv l d lan_MAC_CR (MAC_CR_AUTO_DUPLEX OR MAC_CR_AUTO_SPEED) (NOT 0),
      LAN7800DeviceReadWriteReg drv l d MAC_TX MAC_TX_TXEN (NOT 0),
      LAN7800DeviceReadWriteReg drv l d FCT_TX_CTL FCT_TX_CTL_EN (NOT 0),
      LAN7800DeviceReadWriteReg drv l d MAC_RX (push_bit MAC_RX_MAX_SIZE_SHIFT MAX_RX_FRAME_SIZE OR MAC_RX_RXEN)
        (NOT MAC_RX_MAX_SIZE_MASK),
      LAN7800DeviceReadWriteReg drv l d FCT_RX_CTL FCT_RX_CTL_EN (NOT 0)]
     (Some (True, w))"

definition lan_start ::
    "'a io_world_scheme driver_code \<Rightarrow> locals \<Rightarrow> addr \<Rightarrow> u8 list option \<Rightarrow> TLAN7800Device \<Rightarrow> 'a io_world_scheme
     \<Rightarrow> (bool \<times> TLAN7800Device \<times> 'a io_world_scheme) option" where
  "lan_start drv l pThis mac d w = do {
     (ok, w) \<leftarrow> lan_reset drv l d w;
     if \<not> ok then Some (False, d, w)
     else do {
       (ok, d, w) \<leftarrow> LAN7800DeviceInitMACAddress drv l mac d w;
       if \<not> ok then Some (False, d, w)
       else do {
         (ok, w) \<leftarrow> then_stage (lan_setup drv l d w) (LAN7800DeviceInitPHY drv l d);
         if \<not> ok then Some (False, d, w)
         else do {
           w \<leftarrow> register_device LAN7800Configure ''eth%u'' pThis False w;
           Some (True, d, w) } } } }"

definition LAN7800DeviceConfigure ::
    "'a io_world_scheme driver_code \<Rightarrow> locals \<Rightarrow> addr \<Rightarrow> u8 list option \<Rightarrow> TLAN7800Device \<Rightarrow> 'a io_world_scheme
     \<Rightarrow> (bool \<times> TLAN7800Device \<times> 'a io_world_scheme) option" where
  "LAN7800DeviceConfigure drv l pThis mac d w = do {
     nEndpoints \<leftarrow> USBFunctionGetNumEndpoints (la_USBFunction d);
     if nEndpoints \<noteq> 3 then do { _ \<leftarrow> USBFunctionConfigurationError (la_USBFunction d); Some (False, d, w) }
     else do {
       (ok, f, pIn, pOut, w) \<leftarrow> find_bulk_endpoints (la_USBFunction d) (la_pEndpointBulkIn d) (la_pEndpointBulkOut d) w;
       let d = d\<lparr>la_USBFunction := f, la_pEndpointBulkIn := pIn, la_pEndpointBulkOut := pOut\<rparr>;
       if \<not> ok then Some (False, d, w)
       else if la_pEndpointBulkIn d = None \<or> la_pEndpointBulkOut d = None
       then do { _ \<leftarrow> USBFunctionConfigurationError (la_USBFunction d); Some (False, d, w) }
       else do {
         (ok, w) \<leftarrow> USBFunctionConfigure drv l (la_USBFunction d) w;
         if \<not> ok then Some (False, d, w) else lan_start drv l pThis mac d w } } }"

definition LAN7800DeviceGetMACAddress :: "TLAN7800Device \<Rightarrow> TMACAddress" where
  "LAN7800DeviceGetMACAddress d = la_MACAddress d"

section \<open>Frames\<close>

definition LAN7800DeviceSendFrame ::
    "'a io_world_scheme driver_code \<Rightarrow> locals \<Rightarrow> TLAN7800Device \<Rightarrow> uintptr \<Rightarrow> u32 \<Rightarrow> 'a io_world_scheme
     \<Rightarrow> (bool \<times> 'a io_world_scheme) option" where
  "LAN7800DeviceSendFrame drv l d pBuffer nLength w =
     (if nLength > FRAME_BUFFER_SIZE - TX_HEADER_SIZE then Some (False, w)
      else send_buffer drv l (la_USBFunction d) (la_pEndpointBulkOut d) (la_pTxBuffer d)
             ((nLength AND TX_CMD_A_LEN_MASK) OR TX_CMD_A_FCS) 0 pBuffer nLength w)"

definition LAN7800DeviceReceiveFrame ::
    "'a io_world_scheme driver_code \<Rightarrow> locals \<Rightarrow> TLAN7800Device \<Rightarrow> uintptr \<Rightarrow> 'a io_world_scheme
     \<Rightarrow> (u32 option \<times> 'a io_world_scheme) option" where
  "LAN7800DeviceReceiveFrame drv l d pBuffer w = do {
     c_assert (la_pEndpointBulkIn d \<noteq> None);
     c_assert (pBuffer \<noteq> 0);
     _ \<leftarrow> USBFunctionGetHost (w_store w) (la_USBFunction d);
     (r, w) \<leftarrow> receive_request drv l (la_pEndpointBulkIn d) pBuffer FRAME_BUFFER_SIZE w;
     (case r of None \<Rightarrow> Some (None, w)
      | Some nResultLength \<Rightarrow>
          if nResultLength < RX_HEADER_SIZE then Some (None, w)
          else let nRxStatus = word32 (mem_read pBuffer 4 (w_mem w)) in
            if nRxStatus AND RX_CMD_A_RED \<noteq> 0 then Some (None, w)
            else strip_frame RX_HEADER_SIZE nResultLength (nRxStatus AND RX_CMD_A_LEN_MASK) pBuffer w) }"

section \<open>The driver keeps its contracts\<close>

definition lan_header :: "u32 \<Rightarrow> u8 list" where
  "lan_header n = bytes32 ((n AND TX_CMD_A_LEN_MASK) OR TX_CMD_A_FCS) @ bytes32 0"

definition lan_decode :: "u8 list \<Rightarrow> u8 list option" where
  "lan_decode = decode_frame 10 (\<lambda>st. st AND RX_CMD_A_RED \<noteq> 0) (\<lambda>st. st AND RX_CMD_A_LEN_MASK)"

interpretation lan: frame_device "frame_ready drv (la_pEndpointBulkOut d)" "la_pEndpointBulkIn d" "la_pEndpointBulkOut d"
  "la_pTxBuffer d" 1592 lan_header lan_decode "LAN7800DeviceSendFrame drv l d" "LAN7800DeviceReceiveFrame drv l d"
proof unfold_locales
  fix n :: u32 and p and w :: "'a io_world_scheme"
  assume "1592 < unat n"
  then show "LAN7800DeviceSendFrame drv l d p n w = Some (False, w)"
    by (simp add: LAN7800DeviceSendFrame_def FRAME_BUFFER_SIZE_def TX_HEADER_SIZE_def word_less_nat_alt)
next
  fix n :: u32 and p ok and w w' :: "'a io_world_scheme"
  assume r: "frame_ready drv (la_pEndpointBulkOut d) w" and n: "unat n \<le> 1592"
    and d: "block p (unat n) \<inter> block (la_pTxBuffer d) (unat n + 8) = {}"
    and s: "LAN7800DeviceSendFrame drv l d p n w = Some (ok, w')"
  from n have "\<not> FRAME_BUFFER_SIZE - TX_HEADER_SIZE < n"
    by (simp add: FRAME_BUFFER_SIZE_def TX_HEADER_SIZE_def word_less_nat_alt)
  with s have "send_buffer drv l (la_USBFunction d) (la_pEndpointBulkOut d) (la_pTxBuffer d)
      ((n AND TX_CMD_A_LEN_MASK) OR TX_CMD_A_FCS) 0 p n w = Some (ok, w')"
    by (simp add: LAN7800DeviceSendFrame_def)
  from send_buffer_effect[OF this] r n d show "\<exists>r. w_wire w' = w_wire w
      @ [WireOut (la_pEndpointBulkOut d) (lan_header n @ mem_read p (unat n) (w_mem w)) r] \<and> ok = (r \<ge> 0)"
    by (simp add: frame_ready_def lan_header_def)
next
  fix p res and w w' :: "'a io_world_scheme"
  assume r: "frame_ready drv (la_pEndpointBulkOut d) w" and s: "LAN7800DeviceReceiveFrame drv l d p w = Some (res, w')"
  have h: "RX_HEADER_SIZE = 10" by (simp add: RX_HEADER_SIZE_def)
  from s have "(do { (r, w) \<leftarrow> receive_request drv l (la_pEndpointBulkIn d) p FRAME_BUFFER_SIZE w;
      (case r of None \<Rightarrow> Some (None, w)
       | Some n \<Rightarrow> if n < 10 then Some (None, w)
           else let st = word32 (mem_read p 4 (w_mem w)) in
             if st AND RX_CMD_A_RED \<noteq> 0 then Some (None, w) else strip_frame 10 n (st AND RX_CMD_A_LEN_MASK) p w) }) = Some (res, w')"
    unfolding h[symmetric] by (auto simp: LAN7800DeviceReceiveFrame_def bind_Some_iff split: if_splits)
  note e = receive_effect[OF this]
  from e r have "io_sig w' = io_sig w" by (simp add: frame_ready_def)
  from frame_ready_sig[OF this r] e(2) r show "frame_ready drv (la_pEndpointBulkOut d) w' \<and> (\<exists>es. w_wire w' = w_wire w @ es
      \<and> frames_in (la_pEndpointBulkIn d) lan_decode es = (case res of None \<Rightarrow> [] | Some k \<Rightarrow> [mem_read p (unat k) (w_mem w')]))"
    by (simp add: frame_ready_def lan_decode_def)
qed

end
