(* ===== verification/UsbDevice.thy ===== *)
theory UsbDevice
  imports UsbString MassStorage Keyboard Mouse Midi GamePad Smsc951x Lan7800
begin

text \<open>
  The device object (\<^verbatim>\<open>lib/usbdevice.c\<close>) and the factory of the drivers (\<^verbatim>\<open>lib/usbdevicefactory.c\<close>): reading the descriptors of a
  new device, giving it an address, finding a driver for each interface, and configuring them.

  The members of \<^verbatim>\<open>TUSBDevice\<close> that the host controller driver reads are in the store of the host model, under the
  device's address; the others are a record of their own (\<open>TUSBDeviceParts\<close>), which the operations take and return.  Hubs keep the
  addresses of the devices on their ports, and \<open>w_parts\<close> holds the records of those devices.

  Blocks of raw memory come from \<open>w_blocks\<close>, one for each call of \<^verbatim>\<open>malloc\<close>; a null block fails the assertion behind the call.  The strings get both
  of their blocks before they need them.
  \<open>host_env\<close> collects what comes from outside the library: the result of \<^verbatim>\<open>GetMACAddress\<close>, the address of the static buffer of the game
  pad driver, and what fresh memory holds in the members that a constructor leaves alone.
\<close>

unbundle bit_operations_syntax

section \<open>Drivers\<close>

definition USB_HUB_MAX_PORTS :: nat where "USB_HUB_MAX_PORTS = 8"

text \<open>The status of a port is four bytes in memory.\<close>

record TUSBStandardHub =
  hub_USBFunction :: TUSBFunction
  hub_pHubDesc :: uintptr
  hub_nPorts :: u32
  hub_pDevice :: "addr option list"
  hub_pStatus :: "uintptr list"

definition USBStandardHub :: "TUSBFunction \<Rightarrow> TUSBStandardHub option" where
  "USBStandardHub pDevice = do {
     f \<leftarrow> USBFunctionCopy pDevice;
     Some \<lparr>hub_USBFunction = f\<lparr>fn_Configure := Some StandardHubConfigure\<rparr>, hub_pHubDesc = 0, hub_nPorts = 0,
       hub_pDevice = replicate USB_HUB_MAX_PORTS None, hub_pStatus = replicate USB_HUB_MAX_PORTS 0\<rparr> }"

datatype usb_driver =
    HubDriver TUSBStandardHub
  | MassStorageDriver TUSBBulkOnlyMassStorageDevice
  | KeyboardDriver TUSBKeyboardDevice
  | MouseDriver TUSBMouseDevice
  | SMSC951xDriver TSMSC951xDevice
  | LAN7800Driver TLAN7800Device
  | GamePadDriver TUSBGamePadDevice
  | MIDIDriver TUSBMIDIDevice

text \<open>The base class part of a driver.\<close>

fun driver_function :: "usb_driver \<Rightarrow> TUSBFunction" where
  "driver_function (HubDriver d) = hub_USBFunction d"
| "driver_function (MassStorageDriver d) = ms_USBFunction d"
| "driver_function (KeyboardDriver d) = kb_USBFunction d"
| "driver_function (MouseDriver d) = mo_USBFunction d"
| "driver_function (SMSC951xDriver d) = sm_USBFunction d"
| "driver_function (LAN7800Driver d) = la_USBFunction d"
| "driver_function (GamePadDriver d) = gp_USBFunction d"
| "driver_function (MIDIDriver d) = mi_USBFunction d"

section \<open>Devices\<close>

definition USBDEV_MAX_FUNCTIONS :: nat where "USBDEV_MAX_FUNCTIONS = 10"
definition MAX_CONFIG_DESC_SIZE :: u16 where "MAX_CONFIG_DESC_SIZE = 512"
definition USB_DEFAULT_ADDRESS :: u8 where "USB_DEFAULT_ADDRESS = 0"
definition USB_FIRST_DEDICATED_ADDRESS :: u8 where "USB_FIRST_DEDICATED_ADDRESS = 1"
definition USB_MAX_ADDRESS :: u8 where "USB_MAX_ADDRESS = 127"
definition DESCRIPTOR_DEVICE :: u8 where "DESCRIPTOR_DEVICE = 1"
definition sizeof_TUSBDeviceDescriptor :: u8 where "sizeof_TUSBDeviceDescriptor = 18"

record TUSBDeviceParts =
  dp_pDeviceDesc :: uintptr
  dp_pConfigDesc :: uintptr
  dp_pConfigParser :: "TUSBConfigurationParser option"
  dp_ManufacturerString :: TUSBString
  dp_ProductString :: TUSBString
  dp_pFunction :: "(addr \<times> usb_driver) option list"

record enum_world = io_world +
  w_parts :: "addr \<Rightarrow> TUSBDeviceParts option"
  w_ucNextAddress :: u8
  w_blocks :: "nat \<Rightarrow> uintptr"
  w_blockpos :: nat

record host_env =
  he_MACAddress :: "u8 list option"
  he_pWriteBuf :: uintptr
  he_nDeviceIndex :: u32
  he_usReportDescriptorLength :: u16
  he_usBufferSize :: u16
  he_MAC :: TMACAddress

definition next_block :: "'a enum_world_scheme \<Rightarrow> uintptr \<times> 'a enum_world_scheme" where
  "next_block w = (w_blocks w (w_blockpos w), w\<lparr>w_blockpos := w_blockpos w + 1\<rparr>)"

definition malloc_block :: "'a enum_world_scheme \<Rightarrow> (uintptr \<times> 'a enum_world_scheme) option" where
  "malloc_block w = do {
     let (p, w) = next_block w;
     c_assert (p \<noteq> 0);
     Some (p, w) }"

text \<open>A new object: its address.\<close>

definition malloc_object :: "'a io_world_scheme \<Rightarrow> addr \<times> 'a io_world_scheme" where
  "malloc_object w = (w_next w, w\<lparr>w_next := w_next w + 1\<rparr>)"

definition put_device :: "addr \<Rightarrow> TUSBDevice \<Rightarrow> 'a io_world_scheme \<Rightarrow> 'a io_world_scheme" where
  "put_device a d w = w\<lparr>w_store := (w_store w)\<lparr>st_devs := (st_devs (w_store w))(a \<mapsto> d)\<rparr>\<rparr>"

definition put_endpoint :: "addr \<Rightarrow> TUSBEndpoint \<Rightarrow> 'a io_world_scheme \<Rightarrow> 'a io_world_scheme" where
  "put_endpoint a ep w = w\<lparr>w_store := (w_store w)\<lparr>st_eps := (st_eps (w_store w))(a \<mapsto> ep)\<rparr>\<rparr>"

definition USBDevice ::
    "addr \<Rightarrow> TUSBSpeed \<Rightarrow> bool \<Rightarrow> u8 \<Rightarrow> u8 \<Rightarrow> 'a io_world_scheme \<Rightarrow> (TUSBDeviceParts \<times> 'a io_world_scheme) option" where
  "USBDevice pThis Speed bSplitTransfer ucHubAddress ucHubPortNumber w = do {
     ep \<leftarrow> USBEndpoint (Some pThis);
     let (a, w) = new_endpoint ep w;
     c_assert (ucHubPortNumber \<ge> 1);
     ms \<leftarrow> USBString (Some pThis);
     ps \<leftarrow> USBString (Some pThis);
     let w = put_device pThis \<lparr>dev_ucAddress = USB_DEFAULT_ADDRESS, dev_Speed = Speed, dev_pEndpoint0 = Some a,
               dev_bSplitTransfer = bSplitTransfer, dev_ucHubAddress = ucHubAddress,
               dev_ucHubPortNumber = ucHubPortNumber\<rparr> w;
     Some (\<lparr>dp_pDeviceDesc = 0, dp_pConfigDesc = 0, dp_pConfigParser = None, dp_ManufacturerString = ms,
            dp_ProductString = ps, dp_pFunction = replicate USBDEV_MAX_FUNCTIONS None\<rparr>, w) }"

text \<open>
  The destructor calls that of the base class of every function, frees what the device holds, and the caller frees the object.
\<close>

fun delete_functions :: "(addr \<times> usb_driver) option list \<Rightarrow> unit option" where
  "delete_functions [] = Some ()"
| "delete_functions (None # fs) = delete_functions fs"
| "delete_functions (Some (a, f) # fs) = do { _ \<leftarrow> USBFunction_dtor (driver_function f); delete_functions fs }"

definition USBDevice_dtor ::
    "addr \<Rightarrow> TUSBDeviceParts \<Rightarrow> 'a io_world_scheme \<Rightarrow> (TUSBDeviceParts \<times> 'a io_world_scheme) option" where
  "USBDevice_dtor pThis d w = do {
     _ \<leftarrow> delete_functions (dp_pFunction d);
     dev \<leftarrow> st_devs (w_store w) pThis;
     w \<leftarrow> (case dev_pEndpoint0 dev of None \<Rightarrow> Some w | Some a \<Rightarrow> free_endpoint a w);
     let w = put_device pThis (dev\<lparr>dev_pEndpoint0 := None\<rparr>) w;
     ps \<leftarrow> USBString_dtor (dp_ProductString d);
     ms \<leftarrow> USBString_dtor (dp_ManufacturerString d);
     Some (d\<lparr>dp_pFunction := replicate USBDEV_MAX_FUNCTIONS None, dp_pConfigParser := None, dp_pConfigDesc := 0,
             dp_pDeviceDesc := 0, dp_ProductString := ps, dp_ManufacturerString := ms\<rparr>, w) }"

definition free_device :: "addr \<Rightarrow> 'a io_world_scheme \<Rightarrow> 'a io_world_scheme" where
  "free_device a w = w\<lparr>w_store := (w_store w)\<lparr>st_devs := (st_devs (w_store w))(a := None)\<rparr>\<rparr>"

section \<open>Names\<close>

datatype TDeviceNameSelector = DeviceNameVendor | DeviceNameDevice | DeviceNameUnknown

definition desc16 :: "uintptr \<Rightarrow> uintptr \<Rightarrow> mem \<Rightarrow> u16" where
  "desc16 p k m = word16 (mem_read (p + k) 2 m)"

definition idVendor :: "TUSBDeviceParts \<Rightarrow> mem \<Rightarrow> u16" where "idVendor d m = desc16 (dp_pDeviceDesc d) 8 m"
definition idProduct :: "TUSBDeviceParts \<Rightarrow> mem \<Rightarrow> u16" where "idProduct d m = desc16 (dp_pDeviceDesc d) 10 m"

definition USBDeviceGetName ::
    "TUSBDeviceParts \<Rightarrow> TDeviceNameSelector \<Rightarrow> 'a io_world_scheme \<Rightarrow> TString option" where
  "USBDeviceGetName d Selector w = (let m = w_mem w; p = dp_pDeviceDesc d in
     case Selector of
       DeviceNameVendor \<Rightarrow> do {
         c_assert (p \<noteq> 0);
         StringFormat (w_malloc w) new_string ''ven%x-%x'' [VaInt (ucast (idVendor d m)), VaInt (ucast (idProduct d m))] }
     | DeviceNameDevice \<Rightarrow> do {
         c_assert (p \<noteq> 0);
         if m (p + 4) = 0 \<or> m (p + 4) = 0xFF then StringSet (w_malloc w) new_string ''unknown''
         else StringFormat (w_malloc w) new_string ''dev%x-%x-%x''
                [VaInt (ucast (m (p + 4))), VaInt (ucast (m (p + 5))), VaInt (ucast (m (p + 6)))] }
     | DeviceNameUnknown \<Rightarrow> None)"

fun append_names :: "TDeviceNameSelector list \<Rightarrow> TUSBDeviceParts \<Rightarrow> TString \<Rightarrow> 'a io_world_scheme \<Rightarrow> TString option" where
  "append_names [] d pResult w = Some pResult"
| "append_names (sel # sels) d pResult w = do {
     pName \<leftarrow> USBDeviceGetName d sel w;
     c \<leftarrow> StringCompare pName ''unknown'';
     pResult \<leftarrow> (if c \<noteq> 0 then do {
         n \<leftarrow> StringGetLength pResult;
         pResult \<leftarrow> (if n > 0 then StringAppend (w_malloc w) pResult '', '' else Some pResult);
         t \<leftarrow> StringGet pName;
         StringAppend (w_malloc w) pResult t }
       else Some pResult);
     append_names sels d pResult w }"

definition USBDeviceGetNames :: "TUSBDeviceParts \<Rightarrow> 'a io_world_scheme \<Rightarrow> TString option" where
  "USBDeviceGetNames d w = do {
     pResult \<leftarrow> append_names [DeviceNameVendor, DeviceNameDevice] d new_string w;
     n \<leftarrow> StringGetLength pResult;
     if n = 0 then StringSet (w_malloc w) pResult ''unknown'' else Some pResult }"

section \<open>The factory\<close>

text \<open>The names of the factory, in the order of its tests.\<close>

definition factory_class :: "string \<Rightarrow> configure_routine option" where
  "factory_class s =
     (if s = ''int9-0-2'' \<or> s = ''int9-0-0'' then Some StandardHubConfigure
      else if s = ''int8-6-50'' then Some MassStorageConfigure
      else if s = ''int3-1-1'' then Some KeyboardConfigure
      else if s = ''int3-1-2'' then Some MouseConfigure
      else if s = ''ven424-ec00'' then Some SMSC951xConfigure
      else if s = ''ven424-7800'' then Some LAN7800Configure
      else if s = ''int3-0-0'' then Some GamePadConfigure
      else if s = ''int1-3-0'' then Some MIDIConfigure
      else None)"

text \<open>The constructor of each class, with the blocks its members point to; the request of a driver is part of its object.\<close>

definition new_driver ::
    "host_env \<Rightarrow> configure_routine \<Rightarrow> TUSBFunction \<Rightarrow> addr \<Rightarrow> 'a enum_world_scheme
     \<Rightarrow> (usb_driver \<times> 'a enum_world_scheme) option" where
  "new_driver e cls pParent ref w = (case cls of
       StandardHubConfigure \<Rightarrow> do { d \<leftarrow> USBStandardHub pParent; Some (HubDriver d, w) }
     | MassStorageConfigure \<Rightarrow> do { d \<leftarrow> USBBulkOnlyMassStorageDevice pParent; Some (MassStorageDriver d, w) }
     | KeyboardConfigure \<Rightarrow> do {
         (p, w) \<leftarrow> malloc_block w; d \<leftarrow> USBKeyboardDevice pParent ref p; Some (KeyboardDriver d, w) }
     | MouseConfigure \<Rightarrow> do {
         (p, w) \<leftarrow> malloc_block w;
         d \<leftarrow> USBMouseDevice pParent ref p (he_usReportDescriptorLength e); Some (MouseDriver d, w) }
     | SMSC951xConfigure \<Rightarrow> do {
         (p, w) \<leftarrow> malloc_block w; d \<leftarrow> SMSC951xDevice pParent p (he_MAC e); Some (SMSC951xDriver d, w) }
     | LAN7800Configure \<Rightarrow> do {
         (p, w) \<leftarrow> malloc_block w; d \<leftarrow> LAN7800Device pParent p (he_MAC e); Some (LAN7800Driver d, w) }
     | GamePadConfigure \<Rightarrow> do {
         (p, w) \<leftarrow> malloc_block w; d \<leftarrow> USBGamePadDevice pParent ref p (he_nDeviceIndex e); Some (GamePadDriver d, w) }
     | MIDIConfigure \<Rightarrow> do {
         d \<leftarrow> USBMIDIDevice pParent ref (he_usBufferSize e); Some (MIDIDriver d, w) })"

definition USBDeviceFactoryGetDevice ::
    "host_env \<Rightarrow> TUSBFunction \<Rightarrow> TString \<Rightarrow> 'a enum_world_scheme
     \<Rightarrow> ((addr \<times> usb_driver) option \<times> 'a enum_world_scheme) option" where
  "USBDeviceFactoryGetDevice e pParent pName w = do {
     _ \<leftarrow> StringCompare pName ''int9-0-2'';
     s \<leftarrow> StringGet pName;
     (case factory_class s of
        None \<Rightarrow> Some (None, w)
      | Some cls \<Rightarrow> do {
          let (ref, w) = malloc_object w;
          (d, w) \<leftarrow> new_driver e cls pParent ref w;
          Some (Some (ref, d), w) }) }"

section \<open>Onto the address state\<close>

text \<open>The messages of the host driver on the memory of this world.\<close>

definition usb_get_descriptor ::
    "'a io_world_scheme driver_code \<Rightarrow> locals \<Rightarrow> addr option \<Rightarrow> u8 \<Rightarrow> u8 \<Rightarrow> uintptr \<Rightarrow> u32 \<Rightarrow> u8 \<Rightarrow> 'a io_world_scheme
     \<Rightarrow> (int \<times> 'a io_world_scheme) option" where
  "usb_get_descriptor drv l pEndpoint ucType ucIndex pBuffer nBufSize ucRequestType w =
     usb_control_data drv l pEndpoint ucRequestType GET_DESCRIPTOR (push_bit 8 (ucast ucType) OR ucast ucIndex) 0
       pBuffer (ucast nBufSize) w"

definition usb_set_address ::
    "'a io_world_scheme driver_code \<Rightarrow> locals \<Rightarrow> addr option \<Rightarrow> u8 \<Rightarrow> 'a io_world_scheme
     \<Rightarrow> (bool \<times> 'a io_world_scheme) option" where
  "usb_set_address drv l pEndpoint ucDeviceAddress w = do {
     (n, w) \<leftarrow> usb_control drv l pEndpoint REQUEST_OUT SET_ADDRESS (ucast ucDeviceAddress) 0 w;
     if n < 0 then Some (False, w) else Some (True, w\<lparr>w_io := msDelay 50 (w_io w)\<rparr>) }"

definition usb_set_configuration ::
    "'a io_world_scheme driver_code \<Rightarrow> locals \<Rightarrow> addr option \<Rightarrow> u8 \<Rightarrow> 'a io_world_scheme
     \<Rightarrow> (bool \<times> 'a io_world_scheme) option" where
  "usb_set_configuration drv l pEndpoint ucConfigurationValue w = do {
     (n, w) \<leftarrow> usb_control drv l pEndpoint REQUEST_OUT SET_CONFIGURATION (ucast ucConfigurationValue) 0 w;
     if n < 0 then Some (False, w) else Some (True, w\<lparr>w_io := msDelay 50 (w_io w)\<rparr>) }"

definition endpoint0 :: "addr \<Rightarrow> 'a io_world_scheme \<Rightarrow> addr option" where
  "endpoint0 pThis w = do { dev \<leftarrow> st_devs (w_store w) pThis; USBDeviceGetEndpoint0 dev }"

text \<open>The device descriptor: its first eight bytes give the size of packets, then all of it is read.\<close>

definition read_device_descriptor ::
    "'a enum_world_scheme driver_code \<Rightarrow> locals \<Rightarrow> addr \<Rightarrow> TUSBDeviceParts \<Rightarrow> 'a enum_world_scheme
     \<Rightarrow> (bool \<times> TUSBDeviceParts \<times> 'a enum_world_scheme) option" where
  "read_device_descriptor drv l pThis d w = do {
     c_assert (dp_pDeviceDesc d = 0);
     (p, w) \<leftarrow> malloc_block w;
     let d = d\<lparr>dp_pDeviceDesc := p\<rparr>;
     ep0 \<leftarrow> endpoint0 pThis w;
     (n, w) \<leftarrow> usb_get_descriptor drv l (Some ep0) DESCRIPTOR_DEVICE 0 p USB_DEFAULT_MAX_PACKET_SIZE REQUEST_IN w;
     if n \<noteq> uint USB_DEFAULT_MAX_PACKET_SIZE then Some (False, d\<lparr>dp_pDeviceDesc := 0\<rparr>, w)
     else if w_mem w p \<noteq> sizeof_TUSBDeviceDescriptor \<or> w_mem w (p + 1) \<noteq> DESCRIPTOR_DEVICE
     then Some (False, d\<lparr>dp_pDeviceDesc := 0\<rparr>, w)
     else do {
       ep \<leftarrow> st_eps (w_store w) ep0;
       let w = put_endpoint ep0 (USBEndpointSetMaxPacketSize ep (ucast (w_mem w (p + 7)))) w;
       (n, w) \<leftarrow> usb_get_descriptor drv l (Some ep0) DESCRIPTOR_DEVICE 0 p (ucast sizeof_TUSBDeviceDescriptor) REQUEST_IN w;
       if n \<noteq> uint sizeof_TUSBDeviceDescriptor then Some (False, d\<lparr>dp_pDeviceDesc := 0\<rparr>, w)
       else Some (True, d, w) } }"

definition USBDeviceSetAddress :: "addr \<Rightarrow> u8 \<Rightarrow> 'a io_world_scheme \<Rightarrow> 'a io_world_scheme option" where
  "USBDeviceSetAddress pThis ucAddress w = do {
     c_assert (ucAddress \<le> USB_MAX_ADDRESS);
     dev \<leftarrow> st_devs (w_store w) pThis;
     Some (put_device pThis (dev\<lparr>dev_ucAddress := ucAddress\<rparr>) w) }"

definition assign_address ::
    "'a enum_world_scheme driver_code \<Rightarrow> locals \<Rightarrow> addr \<Rightarrow> 'a enum_world_scheme
     \<Rightarrow> (bool \<times> 'a enum_world_scheme) option" where
  "assign_address drv l pThis w = do {
     let ucAddress = w_ucNextAddress w;
     let w = w\<lparr>w_ucNextAddress := ucAddress + 1\<rparr>;
     if ucAddress > USB_MAX_ADDRESS then Some (False, w)
     else do {
       ep0 \<leftarrow> endpoint0 pThis w;
       (ok, w) \<leftarrow> usb_set_address drv l (Some ep0) ucAddress w;
       if \<not> ok then Some (False, w)
       else do { w \<leftarrow> USBDeviceSetAddress pThis ucAddress w; Some (True, w) } } }"

definition read_strings ::
    "'a enum_world_scheme driver_code \<Rightarrow> locals \<Rightarrow> TUSBDeviceParts \<Rightarrow> 'a enum_world_scheme
     \<Rightarrow> (TUSBDeviceParts \<times> 'a enum_world_scheme) option" where
  "read_strings drv l d w = do {
     let iManufacturer = w_mem w (dp_pDeviceDesc d + 14);
     let iProduct = w_mem w (dp_pDeviceDesc d + 15);
     if iManufacturer \<noteq> 0 \<or> iProduct \<noteq> 0 then do {
       let (p, w) = next_block w; let (q, w) = next_block w;
       (usLanguageID, w) \<leftarrow> USBStringGetLanguageID drv l p q (dp_ManufacturerString d) w;
       (d, w) \<leftarrow> (if iManufacturer \<noteq> 0 then do {
           let (p, w) = next_block w; let (q, w) = next_block w;
           (_, s, w) \<leftarrow> USBStringGetFromDescriptor drv l p q (dp_ManufacturerString d) iManufacturer usLanguageID w;
           Some (d\<lparr>dp_ManufacturerString := s\<rparr>, w) }
         else Some (d, w));
       if iProduct \<noteq> 0 then do {
         let (p, w) = next_block w; let (q, w) = next_block w;
         (_, s, w) \<leftarrow> USBStringGetFromDescriptor drv l p q (dp_ProductString d) iProduct usLanguageID w;
         Some (d\<lparr>dp_ProductString := s\<rparr>, w) }
       else Some (d, w) }
     else Some (d, w) }"

text \<open>The configuration descriptor: its header gives the total length, then all of it is read and parsed.\<close>

definition read_configuration ::
    "'a enum_world_scheme driver_code \<Rightarrow> locals \<Rightarrow> addr \<Rightarrow> TUSBDeviceParts \<Rightarrow> 'a enum_world_scheme
     \<Rightarrow> (bool \<times> TUSBDeviceParts \<times> 'a enum_world_scheme) option" where
  "read_configuration drv l pThis d w = do {
     c_assert (dp_pConfigDesc d = 0);
     (p, w) \<leftarrow> malloc_block w;
     ep0 \<leftarrow> endpoint0 pThis w;
     (n, w) \<leftarrow> usb_get_descriptor drv l (Some ep0) DESCRIPTOR_CONFIGURATION 0 p (ucast sizeof_TUSBConfigurationDescriptor)
                 REQUEST_IN w;
     if n \<noteq> uint sizeof_TUSBConfigurationDescriptor then Some (False, d\<lparr>dp_pConfigDesc := 0\<rparr>, w)
     else if w_mem w p \<noteq> sizeof_TUSBConfigurationDescriptor \<or> w_mem w (p + 1) \<noteq> DESCRIPTOR_CONFIGURATION
       \<or> desc16 p 2 (w_mem w) > MAX_CONFIG_DESC_SIZE then Some (False, d\<lparr>dp_pConfigDesc := 0\<rparr>, w)
     else do {
       let nTotalLength = (ucast (desc16 p 2 (w_mem w)) :: u32);
       (p, w) \<leftarrow> malloc_block w;
       (n, w) \<leftarrow> usb_get_descriptor drv l (Some ep0) DESCRIPTOR_CONFIGURATION 0 p nTotalLength REQUEST_IN w;
       if n \<noteq> uint nTotalLength then Some (False, d\<lparr>dp_pConfigDesc := 0\<rparr>, w)
       else do {
         c_assert (dp_pConfigParser d = None);
         r \<leftarrow> USBConfigurationParser (Some (mem_read p (unat nTotalLength) (w_mem w))) nTotalLength;
         (case r of Fault \<Rightarrow> None
          | Done parser \<Rightarrow>
              let d = d\<lparr>dp_pConfigDesc := p, dp_pConfigParser := Some parser\<rparr> in
              Some (USBConfigurationParserIsValid parser, d, w)) } } }"

section \<open>The functions of a device\<close>

definition USBDeviceConfigurationError :: "TUSBDeviceParts \<Rightarrow> u32 option" where
  "USBDeviceConfigurationError d = map_option USBConfigurationParserError (dp_pConfigParser d)"

definition USBDeviceGetDescriptor :: "TUSBDeviceParts \<Rightarrow> u8 \<Rightarrow> (nat option \<times> TUSBDeviceParts) option" where
  "USBDeviceGetDescriptor d ucType = do {
     p \<leftarrow> dp_pConfigParser d;
     r \<leftarrow> USBConfigurationParserGetDescriptor p ucType;
     (case r of Fault \<Rightarrow> None | Done (pos, p) \<Rightarrow> Some (pos, d\<lparr>dp_pConfigParser := Some p\<rparr>)) }"

definition config_byte :: "TUSBDeviceParts \<Rightarrow> nat \<Rightarrow> u8 option" where
  "config_byte d i = do { p \<leftarrow> dp_pConfigParser d; buf \<leftarrow> cp_pBuffer p; array_get buf i }"

text \<open>The driver of one interface: by vendor or device class for the first function, else by interface class.\<close>

definition find_driver ::
    "host_env \<Rightarrow> nat \<Rightarrow> TUSBFunction \<Rightarrow> TUSBDeviceParts \<Rightarrow> 'a enum_world_scheme
     \<Rightarrow> ((addr \<times> usb_driver) option \<times> 'a enum_world_scheme) option" where
  "find_driver e nFunction f d w = do {
     (pChild, w) \<leftarrow> (if nFunction = 0 then do {
         s \<leftarrow> USBDeviceGetName d DeviceNameVendor w;
         (pChild, w) \<leftarrow> USBDeviceFactoryGetDevice e f s w;
         (case pChild of Some c \<Rightarrow> Some (Some c, w)
          | None \<Rightarrow> do {
              s \<leftarrow> USBDeviceGetName d DeviceNameDevice w;
              USBDeviceFactoryGetDevice e f s w }) }
       else Some (None, w));
     (case pChild of Some c \<Rightarrow> Some (Some c, w)
      | None \<Rightarrow> do {
          pName \<leftarrow> USBFunctionGetInterfaceName (w_malloc w) f;
          c \<leftarrow> StringCompare pName ''unknown'';
          if c \<noteq> 0 then USBDeviceFactoryGetDevice e f pName w else Some (None, w) }) }"

partial_function (option) function_loop ::
    "host_env \<Rightarrow> addr \<Rightarrow> nat \<Rightarrow> u8 \<Rightarrow> TUSBDeviceParts \<Rightarrow> 'a enum_world_scheme
     \<Rightarrow> (nat \<times> TUSBDeviceParts \<times> 'a enum_world_scheme) option" where
  "function_loop e pThis nFunction ucInterfaceNumber d w = do {
     (pInterfaceDesc, d) \<leftarrow> USBDeviceGetDescriptor d DESCRIPTOR_INTERFACE;
     (case pInterfaceDesc of None \<Rightarrow> Some (nFunction, d, w)
      | Some i \<Rightarrow> do {
          bInterfaceNumber \<leftarrow> config_byte d (i + 2);
          let ucInterfaceNumber = (if bInterfaceNumber > ucInterfaceNumber then bInterfaceNumber else ucInterfaceNumber);
          if bInterfaceNumber \<noteq> ucInterfaceNumber then function_loop e pThis nFunction ucInterfaceNumber d w
          else do {
            slot \<leftarrow> array_get (dp_pFunction d) nFunction;
            c_assert (slot = None);
            f \<leftarrow> USBFunction (Some pThis) (dp_pConfigParser d);
            (pChild, w) \<leftarrow> find_driver e nFunction f d w;
            _ \<leftarrow> USBFunction_dtor f;
            (case pChild of None \<Rightarrow> function_loop e pThis nFunction ucInterfaceNumber d w
             | Some c \<Rightarrow> do {
                 fs \<leftarrow> array_set (dp_pFunction d) nFunction (Some c);
                 let d = d\<lparr>dp_pFunction := fs\<rparr>;
                 if nFunction + 1 = USBDEV_MAX_FUNCTIONS then Some (nFunction + 1, d, w)
                 else function_loop e pThis (nFunction + 1) (ucInterfaceNumber + 1) d w }) } }) }"

declare function_loop.simps [code]

definition USBDeviceInitialize ::
    "'a enum_world_scheme driver_code \<Rightarrow> locals \<Rightarrow> host_env \<Rightarrow> addr \<Rightarrow> TUSBDeviceParts \<Rightarrow> 'a enum_world_scheme
     \<Rightarrow> (bool \<times> TUSBDeviceParts \<times> 'a enum_world_scheme) option" where
  "USBDeviceInitialize drv l e pThis d w = do {
     (ok, d, w) \<leftarrow> read_device_descriptor drv l pThis d w;
     if \<not> ok then Some (False, d, w)
     else do {
       (ok, w) \<leftarrow> assign_address drv l pThis w;
       if \<not> ok then Some (False, d, w)
       else do {
         (d, w) \<leftarrow> read_strings drv l d w;
         (ok, d, w) \<leftarrow> read_configuration drv l pThis d w;
         if \<not> ok then Some (False, d, w)
         else do {
           _ \<leftarrow> USBDeviceGetNames d w;
           (nFunction, d, w) \<leftarrow> function_loop e pThis 0 0 d w;
           Some (nFunction \<noteq> 0, d, w) } } } }"

section \<open>Onto the configured state\<close>

text \<open>
  \<^verbatim>\<open>Configure\<close> of a function; \<open>hubcfg\<close> is that of a hub, which enumerates devices itself.
\<close>

definition configure_function ::
    "(addr \<Rightarrow> TUSBStandardHub \<Rightarrow> 'a enum_world_scheme \<Rightarrow> (bool \<times> TUSBStandardHub \<times> 'a enum_world_scheme) option)
     \<Rightarrow> 'a enum_world_scheme driver_code \<Rightarrow> locals \<Rightarrow> host_env \<Rightarrow> TUSBDeviceParts \<Rightarrow> addr \<Rightarrow> usb_driver \<Rightarrow> 'a enum_world_scheme
     \<Rightarrow> (bool \<times> usb_driver \<times> 'a enum_world_scheme) option" where
  "configure_function hubcfg drv l e d ref f w = (let pThis = of_nat ref in case f of
       HubDriver h \<Rightarrow> do { (ok, h, w) \<leftarrow> hubcfg ref h w; Some (ok, HubDriver h, w) }
     | MassStorageDriver x \<Rightarrow> do {
         (ok, x, w) \<leftarrow> USBBulkOnlyMassStorageDeviceConfigure drv l ref x w; Some (ok, MassStorageDriver x, w) }
     | KeyboardDriver x \<Rightarrow> do {
         (ok, x, w) \<leftarrow> USBKeyboardDeviceConfigure drv l ref pThis x w; Some (ok, KeyboardDriver x, w) }
     | MouseDriver x \<Rightarrow> do {
         (p, w) \<leftarrow> malloc_block w;
         (ok, x, w) \<leftarrow> USBMouseDeviceConfigure drv l ref pThis p x w; Some (ok, MouseDriver x, w) }
     | SMSC951xDriver x \<Rightarrow> do {
         (ok, x, w) \<leftarrow> SMSC951xDeviceConfigure drv l ref (he_MACAddress e) x w; Some (ok, SMSC951xDriver x, w) }
     | LAN7800Driver x \<Rightarrow> do {
         (ok, x, w) \<leftarrow> LAN7800DeviceConfigure drv l ref (he_MACAddress e) x w; Some (ok, LAN7800Driver x, w) }
     | GamePadDriver x \<Rightarrow> do {
         (p, w) \<leftarrow> malloc_block w;
         (ok, x, w) \<leftarrow> USBGamePadDeviceConfigure drv l ref pThis p (he_pWriteBuf e) (idVendor d (w_mem w)) (idProduct d (w_mem w)) x w;
         Some (ok, GamePadDriver x, w) }
     | MIDIDriver x \<Rightarrow> do {
         (p, w) \<leftarrow> malloc_block w;
         (ok, x, w) \<leftarrow> USBMIDIDeviceConfigure drv l ref pThis p x w; Some (ok, MIDIDriver x, w) })"

text \<open>The loop over the functions: those that cannot be configured are deleted.\<close>

fun configure_loop ::
    "(addr \<Rightarrow> usb_driver \<Rightarrow> 'w \<Rightarrow> (bool \<times> usb_driver \<times> 'w) option) \<Rightarrow> (addr \<times> usb_driver) option list \<Rightarrow> 'w
     \<Rightarrow> (bool \<times> (addr \<times> usb_driver) option list \<times> 'w) option" where
  "configure_loop cfg [] w = Some (False, [], w)"
| "configure_loop cfg (None # fs) w = do { (b, fs, w) \<leftarrow> configure_loop cfg fs w; Some (b, None # fs, w) }"
| "configure_loop cfg (Some (ref, f) # fs) w = do {
     (ok, f, w) \<leftarrow> cfg ref f w;
     slot \<leftarrow> (if ok then Some (Some (ref, f)) else do { _ \<leftarrow> USBFunction_dtor (driver_function f); Some None });
     (b, fs, w) \<leftarrow> configure_loop cfg fs w;
     Some (ok \<or> b, slot # fs, w) }"

definition USBDeviceConfigure ::
    "(addr \<Rightarrow> TUSBStandardHub \<Rightarrow> 'a enum_world_scheme \<Rightarrow> (bool \<times> TUSBStandardHub \<times> 'a enum_world_scheme) option)
     \<Rightarrow> 'a enum_world_scheme driver_code \<Rightarrow> locals \<Rightarrow> host_env \<Rightarrow> addr \<Rightarrow> TUSBDeviceParts \<Rightarrow> 'a enum_world_scheme
     \<Rightarrow> (bool \<times> TUSBDeviceParts \<times> 'a enum_world_scheme) option" where
  "USBDeviceConfigure hubcfg drv l e pThis d w = do {
     ep0 \<leftarrow> endpoint0 pThis w;
     if dp_pConfigDesc d = 0 then Some (False, d, w)
     else do {
       (ok, w) \<leftarrow> usb_set_configuration drv l (Some ep0) (w_mem w (dp_pConfigDesc d + 5)) w;
       if \<not> ok then Some (False, d, w)
       else do {
         (bResult, fs, w) \<leftarrow> configure_loop (configure_function hubcfg drv l e d) (dp_pFunction d) w;
         Some (bResult, d\<lparr>dp_pFunction := fs\<rparr>, w) } } }"

definition USBDeviceGetDeviceDescriptor :: "TUSBDeviceParts \<Rightarrow> uintptr option" where
  "USBDeviceGetDeviceDescriptor d = do { c_assert (dp_pDeviceDesc d \<noteq> 0); Some (dp_pDeviceDesc d) }"

definition USBDeviceGetConfigurationDescriptor :: "TUSBDeviceParts \<Rightarrow> uintptr option" where
  "USBDeviceGetConfigurationDescriptor d = do { c_assert (dp_pConfigDesc d \<noteq> 0); Some (dp_pConfigDesc d) }"

end
