(* ===== verification/StandardHub.thy ===== *)
theory StandardHub
  imports UsbDevice
begin

text \<open>
  Hubs (\<^verbatim>\<open>lib/usbstandardhub.c\<close>), the root port (\<^verbatim>\<open>lib/dwhcirootport.c\<close>) and the initialisation of the host controller
  driver (\<^verbatim>\<open>DWHCIDeviceInitialize\<close> in \<^verbatim>\<open>lib/dwhcidevice.c\<close>), which together enumerate the tree of devices.

  Configuring a hub enumerates the devices on its ports, which may be hubs again.  \<open>hub_configure n\<close> follows that recursion through
  \<open>n\<close> levels of hubs; more levels than there are do not change the result.
\<close>

unbundle bit_operations_syntax

section \<open>Constants\<close>

definition REQUEST_TO_OTHER :: u8 where "REQUEST_TO_OTHER = 3"
definition GET_STATUS :: u8 where "GET_STATUS = 0"
definition CLEAR_FEATURE :: u8 where "CLEAR_FEATURE = 1"
definition SET_FEATURE :: u8 where "SET_FEATURE = 3"
definition DESCRIPTOR_HUB :: u8 where "DESCRIPTOR_HUB = 0x29"
definition PORT_RESET :: u16 where "PORT_RESET = 4"
definition PORT_POWER :: u16 where "PORT_POWER = 8"
definition HUB_OVER_CURRENT__MASK :: u16 where "HUB_OVER_CURRENT__MASK = 2"
definition PORT_CONNECTION__MASK :: u16 where "PORT_CONNECTION__MASK = 0x1"
definition PORT_ENABLE__MASK :: u16 where "PORT_ENABLE__MASK = 0x2"
definition PORT_OVER_CURRENT__MASK :: u16 where "PORT_OVER_CURRENT__MASK = 0x8"
definition PORT_POWER__MASK :: u16 where "PORT_POWER__MASK = 0x100"
definition PORT_LOW_SPEED__MASK :: u16 where "PORT_LOW_SPEED__MASK = 0x200"
definition PORT_HIGH_SPEED__MASK :: u16 where "PORT_HIGH_SPEED__MASK = 0x400"
definition sizeof_TUSBHubDescriptor :: u32 where "sizeof_TUSBHubDescriptor = 9"

section \<open>Ports\<close>

text \<open>\<^verbatim>\<open>for (nPort = 0; nPort < n; nPort++)\<close>; the body says whether the loop goes on.\<close>

fun ports_loop :: "(nat \<Rightarrow> 's \<Rightarrow> (bool \<times> 's) option) \<Rightarrow> nat \<Rightarrow> nat \<Rightarrow> 's \<Rightarrow> (bool \<times> 's) option" where
  "ports_loop body nPort 0 s = Some (True, s)"
| "ports_loop body nPort (Suc n) s = do {
     (go, s) \<leftarrow> body nPort s;
     if go then ports_loop body (nPort + 1) n s else Some (False, s) }"

definition port_feature ::
    "'a io_world_scheme driver_code \<Rightarrow> locals \<Rightarrow> addr option \<Rightarrow> u8 \<Rightarrow> u16 \<Rightarrow> nat \<Rightarrow> 'a io_world_scheme
     \<Rightarrow> (int \<times> 'a io_world_scheme) option" where
  "port_feature drv l ep0 ucRequest usFeature nPort w =
     usb_control drv l ep0 (REQUEST_OUT OR REQUEST_CLASS OR REQUEST_TO_OTHER) ucRequest usFeature (of_nat (nPort + 1)) w"

definition port_status ::
    "'a io_world_scheme driver_code \<Rightarrow> locals \<Rightarrow> addr option \<Rightarrow> nat \<Rightarrow> uintptr \<Rightarrow> 'a io_world_scheme
     \<Rightarrow> (int \<times> 'a io_world_scheme) option" where
  "port_status drv l ep0 nPort pStatus w =
     usb_control_data drv l ep0 (REQUEST_IN OR REQUEST_CLASS OR REQUEST_TO_OTHER) GET_STATUS 0 (of_nat (nPort + 1)) pStatus 4 w"

definition status_of :: "uintptr \<Rightarrow> 'a io_world_scheme \<Rightarrow> u16" where
  "status_of pStatus w = word16 (mem_read pStatus 2 (w_mem w))"

definition port_speed :: "u16 \<Rightarrow> TUSBSpeed" where
  "port_speed wPortStatus =
     (if wPortStatus AND PORT_LOW_SPEED__MASK \<noteq> 0 then USBSpeedLow
      else if wPortStatus AND PORT_HIGH_SPEED__MASK \<noteq> 0 then USBSpeedHigh else USBSpeedFull)"

text \<open>Split transfers of a device on port \<open>nPort\<close> of a hub: whether, and through which hub port.\<close>

definition port_split :: "TUSBDevice \<Rightarrow> nat \<Rightarrow> TUSBSpeed \<Rightarrow> bool \<times> u8 \<times> u8" where
  "port_split pHubDevice nPort Speed =
     (let bSplit = USBDeviceIsSplit pHubDevice;
          ucHubAddress = USBDeviceGetHubAddress pHubDevice;
          ucHubPortNumber = USBDeviceGetHubPortNumber pHubDevice
      in if \<not> bSplit \<and> USBDeviceGetSpeed pHubDevice = USBSpeedHigh \<and> (Speed = USBSpeedLow \<or> Speed = USBSpeedFull)
         then (True, USBDeviceGetAddress pHubDevice, of_nat (nPort + 1))
         else (bSplit, ucHubAddress, ucHubPortNumber))"

definition delete_device :: "addr \<Rightarrow> TUSBDeviceParts \<Rightarrow> 'a enum_world_scheme \<Rightarrow> 'a enum_world_scheme option" where
  "delete_device a d w = do {
     (_, w) \<leftarrow> USBDevice_dtor a d w;
     Some ((free_device a w)\<lparr>w_parts := (w_parts w)(a := None)\<rparr>) }"

text \<open>The part of the detection after the port is known to be enabled and not overloaded.\<close>

definition attach_device ::
    "'a enum_world_scheme driver_code \<Rightarrow> locals \<Rightarrow> host_env \<Rightarrow> nat \<Rightarrow> TUSBSpeed \<Rightarrow> TUSBStandardHub \<times> 'a enum_world_scheme
     \<Rightarrow> (bool \<times> TUSBStandardHub \<times> 'a enum_world_scheme) option" where
  "attach_device drv l e nPort Speed = (\<lambda>(h, w). do {
     pHubDevice \<leftarrow> deref (st_devs (w_store w)) (USBFunctionGetDevice (hub_USBFunction h));
     let (bSplit, ucHubAddress, ucHubPortNumber) = port_split pHubDevice nPort Speed;
     slot \<leftarrow> array_get (hub_pDevice h) nPort;
     c_assert (slot = None);
     let (a, w) = malloc_object w;
     (d, w) \<leftarrow> USBDevice a Speed bSplit ucHubAddress ucHubPortNumber w;
     (ok, d, w) \<leftarrow> USBDeviceInitialize drv l e a d w;
     if \<not> ok then do {
       w \<leftarrow> delete_device a d w;
       Some (True, h, w) }
     else do {
       ds \<leftarrow> array_set (hub_pDevice h) nPort (Some a);
       Some (True, h\<lparr>hub_pDevice := ds\<rparr>, w\<lparr>w_parts := (w_parts w)(a \<mapsto> d)\<rparr>) } })"

text \<open>The body of the detection loop; it ends the loop where the function returns \<^verbatim>\<open>FALSE\<close>.\<close>

definition detect_port ::
    "'a enum_world_scheme driver_code \<Rightarrow> locals \<Rightarrow> host_env \<Rightarrow> addr option \<Rightarrow> nat \<Rightarrow> TUSBStandardHub \<times> 'a enum_world_scheme
     \<Rightarrow> (bool \<times> TUSBStandardHub \<times> 'a enum_world_scheme) option" where
  "detect_port drv l e ep0 nPort = (\<lambda>(h, w). do {
     st \<leftarrow> array_get (hub_pStatus h) nPort;
     c_assert (st = 0);
     (p, w) \<leftarrow> malloc_block w;
     sts \<leftarrow> array_set (hub_pStatus h) nPort p;
     let h = h\<lparr>hub_pStatus := sts\<rparr>;
     (n, w) \<leftarrow> port_status drv l ep0 nPort p w;
     if n \<noteq> 4 then Some (True, h, w)
     else do {
       c_assert (status_of p w AND PORT_POWER__MASK \<noteq> 0);
       if status_of p w AND PORT_CONNECTION__MASK = 0 then Some (True, h, w)
       else do {
         (n, w) \<leftarrow> port_feature drv l ep0 SET_FEATURE PORT_RESET nPort w;
         if n < 0 then Some (True, h, w)
         else do {
           let w = w\<lparr>w_io := msDelay 100 (w_io w)\<rparr>;
           (n, w) \<leftarrow> port_status drv l ep0 nPort p w;
           if n \<noteq> 4 then Some (False, h, w)
           else if status_of p w AND PORT_ENABLE__MASK = 0 then Some (True, h, w)
           else if status_of p w AND PORT_OVER_CURRENT__MASK \<noteq> 0 then do {
             (_, w) \<leftarrow> port_feature drv l ep0 CLEAR_FEATURE PORT_POWER nPort w;
             Some (False, h, w) }
           else attach_device drv l e nPort (port_speed (status_of p w)) (h, w) } } } })"

definition configure_port ::
    "(addr \<Rightarrow> TUSBStandardHub \<Rightarrow> 'a enum_world_scheme \<Rightarrow> (bool \<times> TUSBStandardHub \<times> 'a enum_world_scheme) option)
     \<Rightarrow> 'a enum_world_scheme driver_code \<Rightarrow> locals \<Rightarrow> host_env \<Rightarrow> nat \<Rightarrow> TUSBStandardHub \<times> 'a enum_world_scheme
     \<Rightarrow> (bool \<times> TUSBStandardHub \<times> 'a enum_world_scheme) option" where
  "configure_port hubcfg drv l e nPort = (\<lambda>(h, w). do {
     slot \<leftarrow> array_get (hub_pDevice h) nPort;
     (case slot of None \<Rightarrow> Some (True, h, w)
      | Some a \<Rightarrow> do {
          d \<leftarrow> w_parts w a;
          (ok, d, w) \<leftarrow> USBDeviceConfigure hubcfg drv l e a d w;
          if \<not> ok then do {
            w \<leftarrow> delete_device a d w;
            ds \<leftarrow> array_set (hub_pDevice h) nPort None;
            Some (True, h\<lparr>hub_pDevice := ds\<rparr>, w) }
          else Some (True, h, w\<lparr>w_parts := (w_parts w)(a \<mapsto> d)\<rparr>) }) })"

text \<open>The last loop: ports with an over-current condition are switched off, and the result becomes \<^verbatim>\<open>FALSE\<close>.\<close>

definition check_port ::
    "'a enum_world_scheme driver_code \<Rightarrow> locals \<Rightarrow> addr option \<Rightarrow> uintptr list \<Rightarrow> nat \<Rightarrow> bool \<times> 'a enum_world_scheme
     \<Rightarrow> (bool \<times> bool \<times> 'a enum_world_scheme) option" where
  "check_port drv l ep0 sts nPort = (\<lambda>(bResult, w). do {
     p \<leftarrow> array_get sts nPort;
     (n, w) \<leftarrow> port_status drv l ep0 nPort p w;
     if n \<noteq> 4 then Some (True, bResult, w)
     else if status_of p w AND PORT_OVER_CURRENT__MASK \<noteq> 0 then do {
       (_, w) \<leftarrow> port_feature drv l ep0 CLEAR_FEATURE PORT_POWER nPort w;
       Some (True, False, w) }
     else Some (True, bResult, w) })"

definition USBStandardHubEnumeratePorts ::
    "(addr \<Rightarrow> TUSBStandardHub \<Rightarrow> 'a enum_world_scheme \<Rightarrow> (bool \<times> TUSBStandardHub \<times> 'a enum_world_scheme) option)
     \<Rightarrow> 'a enum_world_scheme driver_code \<Rightarrow> locals \<Rightarrow> host_env \<Rightarrow> TUSBStandardHub \<Rightarrow> 'a enum_world_scheme
     \<Rightarrow> (bool \<times> TUSBStandardHub \<times> 'a enum_world_scheme) option" where
  "USBStandardHubEnumeratePorts hubcfg drv l e h w = do {
     ep0 \<leftarrow> USBFunctionGetEndpoint0 (w_store w) (hub_USBFunction h);
     c_assert (hub_nPorts h > 0);
     let nPorts = unat (hub_nPorts h);
     (ok, w) \<leftarrow> ports_loop (\<lambda>nPort w. do {
                  (n, w) \<leftarrow> port_feature drv l (Some ep0) SET_FEATURE PORT_POWER nPort w; Some (\<not> n < 0, w) }) 0 nPorts w;
     if \<not> ok then Some (False, h, w)
     else do {
       let w = w\<lparr>w_io := msDelay 510 (w_io w)\<rparr>;
       (ok, h, w) \<leftarrow> ports_loop (detect_port drv l e (Some ep0)) 0 nPorts (h, w);
       if \<not> ok then Some (False, h, w)
       else do {
         (_, h, w) \<leftarrow> ports_loop (configure_port hubcfg drv l e) 0 nPorts (h, w);
         (p, w) \<leftarrow> malloc_block w;
         (n, w) \<leftarrow> usb_control_data drv l (Some ep0) (REQUEST_IN OR REQUEST_CLASS) GET_STATUS 0 0 p 4 w;
         if n \<noteq> 4 then Some (False, h, w)
         else if status_of p w AND HUB_OVER_CURRENT__MASK \<noteq> 0 then do {
           (_, w) \<leftarrow> ports_loop (\<lambda>nPort w. do {
                        (_, w) \<leftarrow> port_feature drv l (Some ep0) CLEAR_FEATURE PORT_POWER nPort w; Some (True, w) }) 0 nPorts w;
           Some (False, h, w) }
         else do {
           (_, bResult, w) \<leftarrow> ports_loop (check_port drv l (Some ep0) (hub_pStatus h)) 0 nPorts (True, w);
           Some (bResult, h, w) } } } }"

section \<open>The hub\<close>

definition USBStandardHubConfigure ::
    "(addr \<Rightarrow> TUSBStandardHub \<Rightarrow> 'a enum_world_scheme \<Rightarrow> (bool \<times> TUSBStandardHub \<times> 'a enum_world_scheme) option)
     \<Rightarrow> 'a enum_world_scheme driver_code \<Rightarrow> locals \<Rightarrow> host_env \<Rightarrow> TUSBStandardHub \<Rightarrow> 'a enum_world_scheme
     \<Rightarrow> (bool \<times> TUSBStandardHub \<times> 'a enum_world_scheme) option" where
  "USBStandardHubConfigure hubcfg drv l e h w = do {
     nEndpoints \<leftarrow> USBFunctionGetNumEndpoints (hub_USBFunction h);
     if nEndpoints \<noteq> 1 then do { _ \<leftarrow> USBFunctionConfigurationError (hub_USBFunction h); Some (False, h, w) }
     else do {
       (pEndpointDesc, f) \<leftarrow> USBFunctionGetDescriptor (hub_USBFunction h) DESCRIPTOR_ENDPOINT;
       let h = h\<lparr>hub_USBFunction := f\<rparr>;
       good \<leftarrow> (case pEndpointDesc of None \<Rightarrow> Some False
                | Some i \<Rightarrow> do { desc \<leftarrow> get_endpoint_descriptor f i; Some (is_input desc \<and> is_interrupt desc) });
       if \<not> good then do { _ \<leftarrow> USBFunctionConfigurationError (hub_USBFunction h); Some (False, h, w) }
       else do {
         (ok, w) \<leftarrow> USBFunctionConfigure drv l (hub_USBFunction h) w;
         if \<not> ok then Some (False, h, w)
         else do {
           _ \<leftarrow> USBFunctionGetHost (w_store w) (hub_USBFunction h);
           c_assert (hub_pHubDesc h = 0);
           (p, w) \<leftarrow> malloc_block w;
           ep0 \<leftarrow> USBFunctionGetEndpoint0 (w_store w) (hub_USBFunction h);
           (n, w) \<leftarrow> usb_get_descriptor drv l (Some ep0) DESCRIPTOR_HUB 0 p sizeof_TUSBHubDescriptor (REQUEST_IN OR REQUEST_CLASS) w;
           if n \<noteq> uint sizeof_TUSBHubDescriptor then Some (False, h, w)
           else do {
             let h = h\<lparr>hub_nPorts := ucast (w_mem w (p + 2))\<rparr>;
             if unat (hub_nPorts h) > USB_HUB_MAX_PORTS then Some (False, h, w)
             else USBStandardHubEnumeratePorts hubcfg drv l e (h\<lparr>hub_pHubDesc := p\<rparr>) w } } } } }"

text \<open>The destructor; nothing in the library calls it.\<close>

fun delete_ports :: "nat \<Rightarrow> nat \<Rightarrow> TUSBStandardHub \<Rightarrow> 'a enum_world_scheme \<Rightarrow> (TUSBStandardHub \<times> 'a enum_world_scheme) option" where
  "delete_ports nPort 0 h w = Some (h, w)"
| "delete_ports nPort (Suc n) h w = do {
     sts \<leftarrow> array_set (hub_pStatus h) nPort 0;
     slot \<leftarrow> array_get (hub_pDevice h) nPort;
     w \<leftarrow> (case slot of None \<Rightarrow> Some w | Some a \<Rightarrow> do { d \<leftarrow> w_parts w a; delete_device a d w });
     ds \<leftarrow> array_set (hub_pDevice h) nPort None;
     delete_ports (nPort + 1) n (h\<lparr>hub_pStatus := sts, hub_pDevice := ds\<rparr>) w }"

definition USBStandardHub_dtor ::
    "TUSBStandardHub \<Rightarrow> 'a enum_world_scheme \<Rightarrow> (TUSBStandardHub \<times> 'a enum_world_scheme) option" where
  "USBStandardHub_dtor h w = do {
     (h, w) \<leftarrow> delete_ports 0 (unat (hub_nPorts h)) h w;
     f \<leftarrow> USBFunction_dtor (hub_USBFunction h);
     Some (h\<lparr>hub_nPorts := 0, hub_pHubDesc := 0, hub_USBFunction := f\<rparr>, w) }"

text \<open>\<^verbatim>\<open>Configure\<close> of hubs in a tree of at most \<open>n\<close> levels of hubs.\<close>

primrec hub_configure ::
    "'a enum_world_scheme driver_code \<Rightarrow> locals \<Rightarrow> host_env \<Rightarrow> nat \<Rightarrow> addr \<Rightarrow> TUSBStandardHub \<Rightarrow> 'a enum_world_scheme
     \<Rightarrow> (bool \<times> TUSBStandardHub \<times> 'a enum_world_scheme) option" where
  "hub_configure drv l e 0 = (\<lambda>ref h w. None)"
| "hub_configure drv l e (Suc n) = (\<lambda>ref h w. USBStandardHubConfigure (hub_configure drv l e n) drv l e h w)"

section \<open>The root port\<close>

record TDWHCIRootPort =
  rp_pDevice :: "addr option"

definition DWHCIRootPort :: TDWHCIRootPort where
  "DWHCIRootPort = \<lparr>rp_pDevice = None\<rparr>"

definition DWHCIRootPort_dtor ::
    "TDWHCIRootPort \<Rightarrow> 'a enum_world_scheme \<Rightarrow> (TDWHCIRootPort \<times> 'a enum_world_scheme) option" where
  "DWHCIRootPort_dtor rp w = (case rp_pDevice rp of None \<Rightarrow> Some (rp, w)
     | Some a \<Rightarrow> do { d \<leftarrow> w_parts w a; w \<leftarrow> delete_device a d w; Some (rp\<lparr>rp_pDevice := None\<rparr>, w) })"

definition DWHCIRootPortInitialize ::
    "'a enum_world_scheme driver_code \<Rightarrow> locals \<Rightarrow> host_env \<Rightarrow> nat \<Rightarrow> TDWHCIRootPort \<Rightarrow> 'a enum_world_scheme
     \<Rightarrow> (bool \<times> TDWHCIRootPort \<times> 'a enum_world_scheme) option" where
  "DWHCIRootPortInitialize drv l e n rp w = do {
     let (Speed, io) = DWHCIDeviceGetPortSpeed (w_io w);
     let w = w\<lparr>w_io := io\<rparr>;
     if Speed = USBSpeedUnknown then Some (False, rp, w)
     else do {
       c_assert (rp_pDevice rp = None);
       let (a, w) = malloc_object w;
       (d, w) \<leftarrow> USBDevice a Speed False 0 1 w;
       (ok, d, w) \<leftarrow> USBDeviceInitialize drv l e a d w;
       if \<not> ok then do { w \<leftarrow> delete_device a d w; Some (False, rp, w) }
       else do {
         (ok, d, w) \<leftarrow> USBDeviceConfigure (hub_configure drv l e n) drv l e a d w;
         if \<not> ok then do { w \<leftarrow> delete_device a d w; Some (False, rp, w) }
         else do {
           let (over, io) = DWHCIDeviceOvercurrentDetected (w_io w);
           let w = w\<lparr>w_io := io\<rparr>;
           if over then do {
             io \<leftarrow> DWHCIDeviceDisableRootPort (w_io w);
             w \<leftarrow> delete_device a d (w\<lparr>w_io := io\<rparr>);
             Some (False, rp, w) }
           else Some (True, rp\<lparr>rp_pDevice := Some a\<rparr>, w\<lparr>w_parts := (w_parts w)(a \<mapsto> d)\<rparr>) } } } }"

section \<open>Initialisation of the host controller driver\<close>

definition DWHCIDevice_dtor ::
    "TDWHCIRootPort \<Rightarrow> 'a enum_world_scheme \<Rightarrow> (TDWHCIRootPort \<times> 'a enum_world_scheme) option" where
  "DWHCIDevice_dtor rp w = DWHCIRootPort_dtor rp w"

text \<open>
  \<open>bPowerOn\<close> is the result of \<^verbatim>\<open>SetPowerStateOn\<close>.  \<^verbatim>\<open>ConnectInterrupt\<close> has no effect of its own here: interrupts arrive from
  the oracle of events while the driver waits.
\<close>

definition DWHCIDeviceInitialize ::
    "bool \<Rightarrow> 'a enum_world_scheme driver_code \<Rightarrow> locals \<Rightarrow> host_env \<Rightarrow> nat \<Rightarrow> TDWHCIRootPort \<Rightarrow> 'a enum_world_scheme
     \<Rightarrow> (bool \<times> TDWHCIRootPort \<times> 'a enum_world_scheme) option" where
  "DWHCIDeviceInitialize bPowerOn drv l e n rp w = do {
     let (v, _, io) = DWHCIRegisterRead (DWHCIRegister DWHCI_CORE_VENDOR_ID) (w_io w);
     if v \<noteq> 0x4F54280A then Some (False, rp, w\<lparr>w_io := io\<rparr>)
     else if \<not> bPowerOn then Some (False, rp, w\<lparr>w_io := io\<rparr>)
     else do {
       let (_, AHBConfig, io) = DWHCIRegisterRead (DWHCIRegister DWHCI_CORE_AHB_CFG) io;
       AHBConfig \<leftarrow> DWHCIRegisterAnd AHBConfig (NOT DWHCI_CORE_AHB_CFG_GLOBALINT_MASK);
       io \<leftarrow> DWHCIRegisterWrite AHBConfig io;
       (ok, host, io) \<leftarrow> DWHCIDeviceInitCore (w_host w) io;
       let w = w\<lparr>w_host := host, w_io := io\<rparr>;
       if \<not> ok then Some (False, rp, w)
       else do {
         io \<leftarrow> DWHCIDeviceEnableGlobalInterrupts (w_io w);
         (ok, io) \<leftarrow> DWHCIDeviceInitHost io;
         let w = w\<lparr>w_io := io\<rparr>;
         if \<not> ok then Some (False, rp, w)
         else do {
           (ok, io) \<leftarrow> DWHCIDeviceEnableRootPort (w_io w);
           let w = w\<lparr>w_io := io\<rparr>;
           if \<not> ok then Some (True, rp, w)
           else do {
             (_, rp, w) \<leftarrow> DWHCIRootPortInitialize drv l e n rp w;
             Some (True, rp, w) } } } } }"

end
