(* ===== verification/DriverFrame.thy ===== *)
theory DriverFrame
  imports StandardHub MassProtocol
begin

text \<open>
  What configuring a driver leaves alone.  The \<^verbatim>\<open>Configure\<close> routines of the drivers (all but the hub, which enumerates devices)
  talk to their device, make endpoints and register a name; they neither touch the table of devices nor the counter of
  addresses, and objects are only ever added.  \<open>quiet\<close> says so, one lemma per routine proves it.
\<close>

unbundle bit_operations_syntax

section \<open>The relation\<close>

definition quiet :: "'a io_world_scheme \<Rightarrow> 'a io_world_scheme \<Rightarrow> bool" where
  "quiet w w' \<longleftrightarrow> st_devs (w_store w') = st_devs (w_store w) \<and> io_world.more w' = io_world.more w \<and> w_next w \<le> w_next w'"

lemma io_sig_quiet: "io_sig w' = io_sig w \<Longrightarrow> quiet w w'"
  by (auto simp: io_sig_def quiet_def store_sig_def)

lemma world_sig_quiet: "world_sig w' = world_sig w \<Longrightarrow> quiet w w'"
  by (intro io_sig_quiet world_sig_io_sig)

lemma quiet_refl [simp]: "quiet w w"
  by (simp add: quiet_def)

lemma quiet_trans: "quiet w w' \<Longrightarrow> quiet w' w'' \<Longrightarrow> quiet w w''"
  by (auto simp: quiet_def)

lemma quiet_updates [simp]:
  "quiet w (w'\<lparr>w_mem := m\<rparr>) = quiet w w'" "quiet w (w'\<lparr>w_io := io\<rparr>) = quiet w w'"
  "quiet w (w'\<lparr>w_names := ns\<rparr>) = quiet w w'" "quiet w (w'\<lparr>w_nDeviceNumber := n\<rparr>) = quiet w w'"
  "quiet w (put_urb u r w') = quiet w w'" "quiet w (put_local p bs w') = quiet w w'"
  "quiet (w\<lparr>w_mem := m\<rparr>) w' = quiet w w'" "quiet (w\<lparr>w_io := io\<rparr>) w' = quiet w w'"
  "quiet (w\<lparr>w_names := ns\<rparr>) w' = quiet w w'" "quiet (w\<lparr>w_nDeviceNumber := n\<rparr>) w' = quiet w w'"
  "quiet (put_urb u r w) w' = quiet w w'" "quiet (put_local p bs w) w' = quiet w w'"
  by (simp_all add: quiet_def put_urb_def put_local_def)

lemma new_endpoint_quiet: "(a, w') = new_endpoint ep w \<Longrightarrow> quiet w w'"
  by (auto simp: new_endpoint_def quiet_def)

lemma register_quiet:
  "register_device cls fmt p b w = Some w' \<Longrightarrow> quiet w w'" "register_pad ref n w = Some w' \<Longrightarrow> quiet w w'"
  by (auto simp: register_device_def register_pad_def bind_Some_iff)

lemma start_request_quiet:
  assumes "start_report_request n f u p ep b k w = Some (ok, w')"
  shows "quiet w w'"
proof -
  have "world_sig w' = world_sig v" if "DWHCIDeviceTransferStageAsync u bIn bS v = Some (ok, w')" for v bIn bS
    using Async_sig[OF refl, of v u bIn bS] that by (simp add: keepsr_def)
  note a = this[THEN world_sig_quiet]
  have "quiet v w'" if "DWHCIDeviceSubmitAsyncRequest u v = Some (ok, w')" for v
    using that by (auto simp: DWHCIDeviceSubmitAsyncRequest_def set_urb_status_def bind_Some_iff split: if_splits) (auto dest!: a)
  note s = this
  from assms show ?thesis by (auto simp: start_report_request_def bind_Some_iff split: if_splits dest!: s)
qed


section \<open>Messages and endpoints\<close>

lemmas message_quiet = usb_control_sig[THEN io_sig_quiet] usb_control_data_sig[THEN io_sig_quiet]
  usb_transfer_sig[THEN io_sig_quiet] USBFunctionConfigure_sig[THEN io_sig_quiet]

lemma find_report_endpoint_quiet: "find_report_endpoint p f w = Some r \<Longrightarrow> quiet w (snd (snd r))"
proof (erule find_report_endpoint.raw_induct[where P = "\<lambda>p f w r. quiet w (snd (snd r))", rotated], goal_cases)
  case (1 rec p f w r)
  from 1(2) show ?case
    by (rule ends_D[rotated], intro ends_rules) (auto simp: ends_def quiet_def dest!: 1(1) new_endpoint_quiet[OF sym] split: prod.splits)
qed

lemma take_endpoint_quiet:
  "take_endpoint desc d w = Some (ok, d', w') \<Longrightarrow> quiet w w'"
  "take_pad_endpoint desc g w = Some (ok, g', w') \<Longrightarrow> quiet w w'"
  "take_bulk_endpoint desc f p q w = Some (ok, p', q', w') \<Longrightarrow> quiet w w'"
  "take_midi_endpoint b desc m w = Some (m', w') \<Longrightarrow> quiet w w'"
  by (auto simp: take_endpoint_def take_pad_endpoint_def take_bulk_endpoint_def take_midi_endpoint_def bind_Some_iff
      new_endpoint_def quiet_def Let_def split: if_splits)

lemma find_endpoints_quiet: "find_endpoints d w = Some r \<Longrightarrow> quiet w (snd (snd r))"
proof (erule find_endpoints.raw_induct[where P = "\<lambda>d w r. quiet w (snd (snd r))", rotated], goal_cases)
  case (1 rec d w r)
  from 1(2) show ?case
    by (rule ends_D[rotated], intro ends_rules) (auto simp: ends_def quiet_def dest!: 1(1) take_endpoint_quiet split: prod.splits)
qed

lemma find_pad_endpoints_quiet: "find_pad_endpoints d w = Some r \<Longrightarrow> quiet w (snd (snd r))"
proof (erule find_pad_endpoints.raw_induct[where P = "\<lambda>d w r. quiet w (snd (snd r))", rotated], goal_cases)
  case (1 rec d w r)
  from 1(2) show ?case
    by (rule ends_D[rotated], intro ends_rules) (auto simp: ends_def quiet_def dest!: 1(1) take_endpoint_quiet split: prod.splits)
qed

lemma find_bulk_endpoints_quiet: "find_bulk_endpoints f p q w = Some r \<Longrightarrow> quiet w (snd (snd (snd (snd r))))"
proof (erule find_bulk_endpoints.raw_induct[where P = "\<lambda>f p q w r. quiet w (snd (snd (snd (snd r))))", rotated], goal_cases)
  case (1 rec f p q w r)
  from 1(2) show ?case
    by (rule ends_D[rotated], intro ends_rules) (auto simp: ends_def quiet_def dest!: 1(1) take_endpoint_quiet split: prod.splits)
qed

lemma find_midi_endpoint_quiet: "find_midi_endpoint b d w = Some r \<Longrightarrow> quiet w (snd r)"
proof (erule find_midi_endpoint.raw_induct[where P = "\<lambda>b d w r. quiet w (snd r)", rotated], goal_cases)
  case (1 rec b d w r)
  from 1(2) show ?case
    by (rule ends_D[rotated], intro ends_rules) (auto simp: ends_def quiet_def dest!: 1(1) take_endpoint_quiet split: prod.splits)
qed

lemmas find_quiet = find_report_endpoint_quiet find_endpoints_quiet find_pad_endpoints_quiet find_bulk_endpoints_quiet
  find_midi_endpoint_quiet

lemma hid_quiet:
  assumes drv: "drv_keeps drv"
  shows "set_boot_protocol drv l f w = Some (n, w') \<Longrightarrow> quiet w w'"
    and "get_report_descriptor drv l f h p k w = Some (n, w') \<Longrightarrow> quiet w w'"
    and "set_report drv l f v p k w = Some w' \<Longrightarrow> quiet w w'"
    and "USBKeyboardDeviceSetLEDs drv l d m w = Some w' \<Longrightarrow> quiet w w'"
  by (auto simp: set_boot_protocol_def get_report_descriptor_def set_report_def USBKeyboardDeviceSetLEDs_def bind_Some_iff
      dest!: message_quiet[OF _ drv])

section \<open>The drivers\<close>

lemma keyboard_quiet:
  assumes drv: "drv_keeps drv"
  shows "ends (\<lambda>(ok, d', w'). quiet w w') (USBKeyboardDeviceConfigure drv l ref pThis d w)"
  unfolding USBKeyboardDeviceConfigure_def USBKeyboardDeviceStartRequest_def
  by (intro ends_rules)
     (auto simp: quiet_def dest!: find_quiet message_quiet[OF _ drv] hid_quiet[OF drv] register_quiet start_request_quiet)


lemma mouse_quiet:
  assumes drv: "drv_keeps drv"
  shows "ends (\<lambda>(ok, d', w'). quiet w w') (USBMouseDeviceConfigure drv l ref pThis p d w)"
  unfolding USBMouseDeviceConfigure_def USBMouseDeviceStartRequest_def
  by (intro ends_rules)
     (auto simp: quiet_def dest!: find_quiet message_quiet[OF _ drv] hid_quiet[OF drv] register_quiet start_request_quiet)

lemma midi_quiet:
  assumes drv: "drv_keeps drv"
  shows "ends (\<lambda>(ok, d', w'). quiet w w') (USBMIDIDeviceConfigure drv l ref pThis p d w)"
  unfolding USBMIDIDeviceConfigure_def USBMIDIDeviceStartRequest_def
  by (intro ends_rules)
     (auto simp: quiet_def dest!: find_quiet message_quiet[OF _ drv] register_quiet start_request_quiet)

lemma ps3_quiet:
  assumes drv: "drv_keeps drv"
  shows "USBGamePadDevicePS3Configure drv l p d w = Some w' \<Longrightarrow> quiet w w'"
  by (auto simp: USBGamePadDevicePS3Configure_def bind_Some_iff quiet_def dest!: hid_quiet[OF drv])

lemma start_pad_quiet:
  assumes drv: "drv_keeps drv"
  shows "ends (\<lambda>(ok, d', w'). quiet w w') (start_pad drv l ref pThis pb v p d w)"
  unfolding start_pad_def USBGamePadDeviceStartRequest_def
  by (intro ends_rules)
     (auto simp: quiet_def dest!: message_quiet[OF _ drv] ps3_quiet[OF drv] register_quiet start_request_quiet
       split: if_splits)

lemma gamepad_quiet:
  assumes drv: "drv_keeps drv"
  shows "ends (\<lambda>(ok, d', w'). quiet w w') (USBGamePadDeviceConfigure drv l ref pThis p pb v i d w)"
proof -
  note s = ends_D[OF start_pad_quiet[OF drv]]
  show ?thesis
    unfolding USBGamePadDeviceConfigure_def
    by (intro ends_rules)
       (auto simp: quiet_def ends_def dest!: find_quiet message_quiet[OF _ drv] hid_quiet[OF drv] s)
qed

lemma configure_unit_quiet:
  assumes drv: "drv_keeps drv"
  shows "ends (\<lambda>(ok, d', w'). quiet w w') (configure_unit drv l p d w)"
proof -
  note c = ends_D[OF local_command_sig[OF drv]] and r = ends_D[OF ready_loop_sig[OF drv]]
  show ?thesis
    unfolding configure_unit_def
    by (intro ends_rules)
       (auto simp: quiet_def ends_def io_sig_def store_sig_def bind_Some_iff dest!: c r register_quiet
         split: prod.splits bool.splits)
qed

lemma mass_storage_quiet:
  assumes drv: "drv_keeps drv"
  shows "ends (\<lambda>(ok, d', w'). quiet w w') (USBBulkOnlyMassStorageDeviceConfigure drv l ref d w)"
proof -
  note u = ends_D[OF configure_unit_quiet[OF drv]]
  show ?thesis
    unfolding USBBulkOnlyMassStorageDeviceConfigure_def
    by (intro ends_rules) (auto simp: quiet_def ends_def dest!: find_quiet message_quiet[OF _ drv] u)
qed

text \<open>The Ethernet drivers run their register accesses one after the other as long as they succeed.\<close>

lemma then_stage_quiet:
  assumes "ends (\<lambda>(ok, w'). quiet w w') m" and "\<And>v. ends (\<lambda>(ok, w'). quiet v w') (f v)"
  shows "ends (\<lambda>(ok, w'). quiet w w') (then_stage m f)"
  using assms unfolding then_stage_def ends_def bind_Some_iff by (fastforce split: if_splits intro: quiet_trans)

lemma reg_quiet:
  assumes drv: "drv_keeps drv"
  shows "eth_write_reg drv l f i v w = Some (ok, w') \<Longrightarrow> quiet w w'"
    and "eth_read_reg drv l f i w = Some (ok, x, w') \<Longrightarrow> quiet w w'"
  using eth_write_reg_effect(2)[OF _ drv] eth_read_reg_effect(2)[OF _ drv] by (blast intro: io_sig_quiet)+

lemma wait_reg_quiet:
  assumes "wait_reg (ms_delay k) rd again n w = Some (ok, w')" and rd: "\<And>v b x v'. rd v = Some (b, x, v') \<Longrightarrow> quiet v v'"
  shows "quiet w w'"
  using assms(1)
proof (induction n arbitrary: w)
  case 0
  then show ?case by (subst (asm) wait_reg.simps) (auto simp: ms_delay_def)
next
  case (Suc n)
  from Suc.prems show ?case
    by (subst (asm) wait_reg.simps)
       (auto simp: bind_Some_iff ms_delay_def Let_def split: if_splits dest!: rd Suc.IH intro: quiet_trans)
qed

lemma chip_quiet:
  assumes drv: "drv_keeps drv"
  shows "ends (\<lambda>(ok, w'). quiet w w') (SMSC951xDeviceWriteReg drv l s i v w)"
    and "ends (\<lambda>(ok, w'). quiet w w') (LAN7800DeviceWriteReg drv l d i v w)"
    and "ends (\<lambda>(ok, x, w'). quiet w w') (LAN7800DeviceReadReg drv l d i w)"
    and "ends (\<lambda>(ok, w'). quiet w w') (LAN7800DeviceReadWriteReg drv l d i a b w)"
    and "ends (\<lambda>(ok, w'). quiet w w') (LAN7800DeviceWaitReg drv l d i a b w)"
  unfolding SMSC951xDeviceWriteReg_def LAN7800DeviceWriteReg_def LAN7800DeviceReadReg_def LAN7800DeviceReadWriteReg_def
    LAN7800DeviceWaitReg_def
  by (auto simp: ends_def bind_Some_iff split: if_splits dest!: reg_quiet[OF drv] wait_reg_quiet intro: quiet_trans)

lemma phy_quiet:
  assumes drv: "drv_keeps drv"
  shows "ends (\<lambda>(ok, w'). quiet w w') (LAN7800DevicePHYWrite drv l d i v w)"
    and "ends (\<lambda>(x, w'). quiet w w') (LAN7800DevicePHYRead drv l d i w)"
proof -
  note r = chip_quiet[OF drv] and s = ends_D[OF chip_quiet(3)[OF drv]] ends_D[OF chip_quiet(5)[OF drv]]
  show "ends (\<lambda>(ok, w'). quiet w w') (LAN7800DevicePHYWrite drv l d i v w)"
    unfolding LAN7800DevicePHYWrite_def phy_write_def by (intro ends_bind then_stage_quiet r)
  have "ends (\<lambda>(ok, w'). quiet v w') (then_stage (LAN7800DeviceWriteReg drv l d a c v) (LAN7800DeviceWaitReg drv l d j x y))"
    for a c v j x y by (intro then_stage_quiet r)
  note t = ends_D[OF this]
  show "ends (\<lambda>(x, w'). quiet w w') (LAN7800DevicePHYRead drv l d i w)"
    unfolding LAN7800DevicePHYRead_def phy_read_def
    by (intro ends_rules) (auto simp: quiet_def dest!: s t)
qed

lemma lan_steps_quiet:
  assumes drv: "drv_keeps drv"
  shows "ends (\<lambda>(ok, w'). quiet w w') (lan_reset drv l d w)"
    and "ends (\<lambda>(ok, w'). quiet w w') (lan_setup drv l d w)"
    and "ends (\<lambda>(ok, w'). quiet w w') (LAN7800DeviceInitPHY drv l d w)"
    and "ends (\<lambda>(ok, d', w'). quiet w w') (LAN7800DeviceInitMACAddress drv l mac d w)"
proof -
  note r = chip_quiet[OF drv] and p = ends_D[OF phy_quiet(1)[OF drv]] ends_D[OF phy_quiet(2)[OF drv]]
    and rd = ends_D[OF chip_quiet(3)[OF drv]]
  have t: "ends (\<lambda>(ok, w'). quiet v w') (then_stage (LAN7800DeviceReadWriteReg drv l d i a b v) (LAN7800DeviceWaitReg drv l d i x y))"
    for v i a b x y by (intro then_stage_quiet r)
  note t = ends_D[OF t]
  show "ends (\<lambda>(ok, w'). quiet w w') (lan_reset drv l d w)"
    unfolding lan_reset_def by (intro ends_rules) (auto simp: ends_def quiet_def dest!: rd t)
  show "ends (\<lambda>(ok, w'). quiet w w') (lan_setup drv l d w)"
    unfolding lan_setup_def by (simp, intro then_stage_quiet r) (simp add: ends_def)
  show "ends (\<lambda>(ok, w'). quiet w w') (LAN7800DeviceInitPHY drv l d w)"
    unfolding LAN7800DeviceInitPHY_def by (intro ends_rules) (auto simp: ends_def quiet_def dest!: p)
  have u: "ends (\<lambda>(ok, w'). quiet v w') (then_stage (LAN7800DeviceWriteReg drv l d i a v) (LAN7800DeviceWriteReg drv l d j b))"
    for v d i a j b by (intro then_stage_quiet r)
  note u = ends_D[OF u]
  show "ends (\<lambda>(ok, d', w'). quiet w w') (LAN7800DeviceInitMACAddress drv l mac d w)"
    unfolding LAN7800DeviceInitMACAddress_def by (intro ends_rules) (auto simp: quiet_def dest!: u)
qed

lemma lan_start_quiet:
  assumes drv: "drv_keeps drv"
  shows "ends (\<lambda>(ok, d', w'). quiet w w') (lan_start drv l ref mac d w)"
proof -
  note s = ends_D[OF lan_steps_quiet(1)[OF drv]] ends_D[OF lan_steps_quiet(4)[OF drv]]
  have "ends (\<lambda>(ok, w'). quiet v w') (then_stage (lan_setup drv l d v) (LAN7800DeviceInitPHY drv l d))" for v d
    by (intro then_stage_quiet lan_steps_quiet drv)
  note t = ends_D[OF this]
  show ?thesis unfolding lan_start_def
    by (intro ends_rules) (auto simp: quiet_def dest!: s t register_quiet)
qed

lemma lan7800_quiet:
  assumes drv: "drv_keeps drv"
  shows "ends (\<lambda>(ok, d', w'). quiet w w') (LAN7800DeviceConfigure drv l ref mac d w)"
proof -
  note s = ends_D[OF lan_start_quiet[OF drv]]
  show ?thesis unfolding LAN7800DeviceConfigure_def
    by (intro ends_rules) (auto simp: quiet_def ends_def dest!: s find_quiet message_quiet[OF _ drv])
qed

lemma smsc_start_quiet:
  assumes drv: "drv_keeps drv"
  shows "ends (\<lambda>(ok, d', w'). quiet w w') (smsc_start drv l ref d w)"
proof -
  note r = chip_quiet(1)[OF drv]
  have "ends (\<lambda>(ok, w'). quiet v w') (then_stage (SMSC951xDeviceWriteReg drv l d i a v) (SMSC951xDeviceWriteReg drv l d j b))"
    for v i a j b by (intro then_stage_quiet r)
  note t = ends_D[OF this]
  have "ends (\<lambda>(ok, w'). quiet v w') (then_stage (then_stage (SMSC951xDeviceWriteReg drv l d i a v)
      (SMSC951xDeviceWriteReg drv l d j b)) (SMSC951xDeviceWriteReg drv l d k c))"
    for v i a j b k c by (intro then_stage_quiet r)
  note u = ends_D[OF this]
  show ?thesis unfolding smsc_start_def
    by (intro ends_rules) (auto simp: quiet_def dest!: t u register_quiet)
qed

lemma smsc951x_quiet:
  assumes drv: "drv_keeps drv"
  shows "ends (\<lambda>(ok, d', w'). quiet w w') (SMSC951xDeviceConfigure drv l ref mac d w)"
proof -
  note s = ends_D[OF smsc_start_quiet[OF drv]]
  show ?thesis unfolding SMSC951xDeviceConfigure_def
    by (intro ends_rules) (auto simp: quiet_def ends_def dest!: s find_quiet message_quiet[OF _ drv])
qed

end
