(* ===== verification/HostLive.thy ===== *)
theory HostLive
  imports TransferFrame
begin

text \<open>
  Progress of the host driver.  The theories before say what a transfer has done when it returns; here is that it returns.  If
  the controller raises the interrupt of the channel and shows a completed transfer, a stage on a high-speed device
  ends after one interrupt, and a control message after two or three.

  What the controller shows is the sequence of values of the register reads: a stage reads nine of them, in the order the driver
  asks (interrupt mask, the channel's characteristics twice, the two interrupt registers, size, status twice, mask).
\<close>

unbundle bit_operations_syntax

section \<open>Starting a stage\<close>

lemma cache_io [simp]:
  "io_oracle (CleanAndInvalidateDataCacheRange a n io) = io_oracle io"
  "io_pos (CleanAndInvalidateDataCacheRange a n io) = io_pos io"
  by (simp_all add: CleanAndInvalidateDataCacheRange_def)

text \<open>A stage of a high-speed device as the constructor leaves it.\<close>

definition live_stage :: "usb_store \<Rightarrow> TDWHCITransferStageData \<Rightarrow> addr \<Rightarrow> TUSBEndpoint \<Rightarrow> bool" where
  "live_stage st x a ep \<longleftrightarrow> xs_nChannel x = 0 \<and> \<not> xs_bSplitTransaction x \<and> \<not> xs_bFrameSchedulerUsed x
     \<and> xs_nState x = StageStateNoSplitTransfer
     \<and> xs_pEndpoint x = Some a \<and> st_eps st a = Some ep \<and> endpoint_ok ep \<and> (xs_bStatusStage x \<longrightarrow> ep_Type ep = EndpointTypeControl)
     \<and> (\<exists>b dev. xs_pDevice x = Some b \<and> st_devs st b = Some dev)
     \<and> xs_nPacketsPerTransaction x = xs_nPackets x \<and> xs_nBytesPerTransaction x = xs_nTransferSize x
     \<and> xs_nTotalBytesTransfered x = 0 \<and> xs_pBufferPointer x \<noteq> 0"

lemma live_getters:
  assumes "live_stage st x a ep"
  shows "\<exists>p. DWHCITransferStageDataGetPID st x = Some p" "\<exists>d. DWHCITransferStageDataGetDMAAddress x = Some d"
    "\<exists>d. DWHCITransferStageDataGetDeviceAddress st x = Some d" "\<exists>t. DWHCITransferStageDataGetEndpointType st x = Some t"
    "\<exists>n. DWHCITransferStageDataGetEndpointNumber st x = Some n" "\<exists>m. DWHCITransferStageDataGetStatusMask st x = Some m"
    "DWHCITransferStageDataGetFrameScheduler x = None"
  using assms
  by (auto simp: live_stage_def DWHCITransferStageDataGetPID_def USBEndpointGetNextPID_def endpoint_ok_def
      DWHCITransferStageDataGetDMAAddress_def DWHCITransferStageDataGetDeviceAddress_def DWHCITransferStageDataGetEndpointType_def
      DWHCITransferStageDataGetEndpointNumber_def DWHCITransferStageDataGetStatusMask_def DWHCITransferStageDataIsPeriodic_def
      DWHCITransferStageDataGetFrameScheduler_def endpoint_getters stage_getters Let_def split: TEndpointType.splits)

lemma character_reg_live:
  assumes "live_stage st x a ep" and "reg_bValid r"
  shows "\<exists>r'. character_reg st x r = Some r' \<and> reg_bValid r' \<and> reg_nAddress r' = reg_nAddress r"
  using live_getters(3-5)[OF assms(1)] assms(2)
  by (auto simp: character_reg_def DWHCIRegisterAnd_def DWHCIRegisterOr_def Let_def)

lemma StartChannel_live:
  assumes x: "stage_of w 0 = Some x" and live: "live_stage (w_store w) x a ep" and n: "0 < hd_nChannels (w_host w)"
  shows "\<exists>io. DWHCIDeviceStartChannel 0 w = Some (put_stage 0 (x\<lparr>xs_nSubState := StageSubStateWaitForTransactionComplete\<rparr>) (w\<lparr>w_io := io\<rparr>))
    \<and> io_oracle io = io_oracle (w_io w) \<and> io_pos io = io_pos (w_io w) + 1"
proof -
  let ?x = "x\<lparr>xs_nSubState := StageSubStateWaitForTransactionComplete\<rparr>"
  have live': "live_stage (w_store w) ?x a ep" using live by (simp add: live_stage_def)
  note g = live_getters[OF live']
  have sp: "split_ctrl_reg (w_store w) ?x 0 = Some (DWHCIRegister2 (DWHCI_HOST_CHAN_SPLIT_CTRL 0) 0)"
    using live by (simp add: split_ctrl_reg_def stage_getters live_stage_def)
  have c: "xs_nChannel x = 0" using live by (simp add: live_stage_def)
  have "\<exists>io. program_transfer (w_store w) ?x 0 io0 = Some io \<and> io_oracle io = io_oracle io0 \<and> io_pos io = io_pos io0" for io0
    using g(1,2) sp by (auto simp: program_transfer_def xfer_siz_reg_eq register_fresh stage_getters Let_def)
  moreover have "\<exists>io. enable_channel (w_store w) ?x 0 io0 = Some (?x, io) \<and> io_oracle io = io_oracle io0 \<and> io_pos io = io_pos io0 + 1" for io0
  proof -
    let ?r = "DWHCIRegisterSet (DWHCIRegister (DWHCI_HOST_CHAN_CHARACTER 0)) (io_oracle io0 (io_pos io0))"
    from character_reg_live[OF live', of ?r] obtain r' where "character_reg (w_store w) ?x ?r = Some r'" "reg_bValid r'"
      by (auto simp: register_ops)
    with g(6,7) show ?thesis
      by (auto simp: enable_channel_def wait_frame_def register_ops Let_def case_prod_beta)
  qed
  ultimately show ?thesis using x n c
    by (simp add: DWHCIDeviceStartChannel_def stage_getters Let_def) (metis (no_types, lifting) bind.bind_lunit case_prod_conv)
qed

lemma StartTransaction_live:
  assumes "stage_of w 0 = Some x" and live: "live_stage (w_store w) x a ep" and "0 < hd_nChannels (w_host w)"
    and off: "io_oracle (w_io w) (io_pos (w_io w)) AND DWHCI_HOST_CHAN_CHARACTER_ENABLE = 0"
  shows "\<exists>io. DWHCIDeviceStartTransaction 0 w
      = Some (put_stage 0 (x\<lparr>xs_nSubState := StageSubStateWaitForTransactionComplete\<rparr>) (w\<lparr>w_io := io\<rparr>))
    \<and> io_oracle io = io_oracle (w_io w) \<and> io_pos io = io_pos (w_io w) + 2"
proof -
  have c: "xs_nChannel x = 0" using live by (simp add: live_stage_def)
  let ?w = "w\<lparr>w_io := snd (mmio_read (DWHCI_HOST_CHAN_CHARACTER 0) (w_io w))\<rparr>"
  have "stage_of ?w 0 = Some x" "live_stage (w_store ?w) x a ep" "0 < hd_nChannels (w_host ?w)"
    using assms by (simp_all add: stage_of_def)
  from StartChannel_live[OF this] obtain io where
    "DWHCIDeviceStartChannel 0 ?w = Some (put_stage 0 (x\<lparr>xs_nSubState := StageSubStateWaitForTransactionComplete\<rparr>) (w\<lparr>w_io := io\<rparr>))"
    "io_oracle io = io_oracle (w_io w)" "io_pos io = io_pos (w_io w) + 2" by auto
  then show ?thesis using assms c
    by (intro exI[of _ io]) (simp add: DWHCIDeviceStartTransaction_def stage_getters register_fresh DWHCIRegisterIsSet_def Let_def case_prod_beta)
qed

section \<open>The end of a stage\<close>

lemma ChannelInterruptHandler_live:
  fixes w :: "'a usb_world_scheme"
  defines "v \<equiv> \<lambda>i. io_oracle (w_io w) (io_pos (w_io w) + i)"
  assumes x: "stage_of w 0 = Some x" and live: "live_stage (w_store w) x a ep"
    and sub: "xs_nSubState x = StageSubStateWaitForTransactionComplete"
    and u: "xs_pURB x = Some u" and r: "urb_of w u = Some r" and host: "urb_pCompletionRoutine r = Some HostCompletionRoutine"
      "urb_pCompletionContext r \<noteq> 0"
    and per: "\<not> endpoint_periodic ep"
    and st: "v 1 \<noteq> DWHCI_HOST_CHAN_INT_HALTED" "v 2 \<noteq> 0" "\<not> status_stops (v 2)"
    and left: "DWHCI_HOST_CHAN_XFER_SIZ_PACKETS (v 0) \<le> xs_nPackets x"
      "v 0 AND DWHCI_HOST_CHAN_XFER_SIZ_BYTES__MASK \<le> xs_nTransferSize x"
    and sk: "USBEndpointSkipPID ep (xs_nPackets x - DWHCI_HOST_CHAN_XFER_SIZ_PACKETS (v 0)) (xs_bStatusStage x) = Some ep'"
    and al: "hd_nChannelAllocated (w_host w) = 1" and n: "0 < hd_nChannels (w_host w)"
  shows "\<exists>io x'. DWHCIDeviceChannelInterruptHandler drv 0 w = Some (w\<lparr>w_io := io,
        w_host := (w_host w)\<lparr>hd_StageData := (hd_StageData (w_host w))[0 := x'], hd_nChannelAllocated := 0, hd_bWaiting := False\<rparr>,
        w_store := (w_store w)\<lparr>st_eps := (st_eps (w_store w))(a \<mapsto> ep'), st_urbs := (st_urbs (w_store w))(u \<mapsto>
          USBRequestSetStatus (if xs_bStatusStage x then r else USBRequestSetResultLen r
            (xs_nTransferSize x - (v 0 AND DWHCI_HOST_CHAN_XFER_SIZ_BYTES__MASK))) True)\<rparr>\<rparr>)
     \<and> io_oracle io = io_oracle (w_io w) \<and> io_pos io = io_pos (w_io w) + 4 \<and> xs_pTempBuffer x' = xs_pTempBuffer x"
proof -
  let ?pl = "DWHCI_HOST_CHAN_XFER_SIZ_PACKETS (v 0)" and ?bl = "v 0 AND DWHCI_HOST_CHAN_XFER_SIZ_BYTES__MASK"
  let ?x = "advance x (v 2) (xs_nPackets x - ?pl) (xs_nTransferSize x - ?bl)"
  let ?st = "(w_store w)\<lparr>st_eps := (st_eps (w_store w))(a \<mapsto> ep')\<rparr>"
  note l = live[unfolded live_stage_def]
  have le: "xs_nTransferSize x - ?bl \<le> xs_nTransferSize x" "xs_nPackets x - ?pl \<le> xs_nPackets x"
    using left by (simp_all add: word_le_nat_alt unat_sub)
  have tc: "DWHCITransferStageDataTransactionComplete (w_store w) x (v 2) ?pl ?bl = Some (?st, ?x)"
    using TransactionComplete_eq[of x a "w_store w" ep ?pl ep' "v 2" "xs_nTransferSize x - ?bl" ?bl] l sk st(3) le
    by (simp add: moved_def)
  have len: "DWHCITransferStageDataGetResultLen ?x = xs_nTransferSize x - ?bl"
    using l le by (simp add: DWHCITransferStageDataGetResultLen_def leD)
  let ?io1 = "CleanAndInvalidateDataCacheRange (ucast (xs_pBufferPointer x)) (xs_nTransferSize x) (w_io w)"
  let ?io2 = "snd (mmio_read (DWHCI_HOST_CHAN_INT 0) (snd (mmio_read (DWHCI_HOST_CHAN_INT 0)
      (snd (mmio_read (DWHCI_HOST_CHAN_XFER_SIZ 0) ?io1)))))"
  let ?w1 = "put_stage 0 ?x (w\<lparr>w_io := ?io2, w_store := ?st\<rparr>)"
  have d: "DWHCITransferStageDataGetDMAAddress x = Some (ucast (xs_pBufferPointer x))"
    using l by (simp add: GetDMAAddress_eq)
  have bp: "DWHCITransferStageDataIsPeriodic (w_store w) x = Some False"
    using l per by (simp add: DWHCITransferStageDataIsPeriodic_def)
  have h: "DWHCIDeviceChannelInterruptHandler drv 0 w = stage_transition drv 0 u ?w1"
    using x u sub d bp st(1) tc l
    by (simp add: DWHCIDeviceChannelInterruptHandler_def stage_getters register_fresh v_def Let_def)
  have len0: "0 < length (hd_StageData (w_host w))" using stage_of_Some[OF x] .
  have x1: "stage_of ?w1 0 = Some ?x" using len0 by (simp add: stage_of_put)
  have r1: "urb_of ?w1 u = Some r" using r by (simp add: urb_of_def)
  let ?r = "USBRequestSetStatus (if xs_bStatusStage x then r else USBRequestSetResultLen r (xs_nTransferSize x - ?bl)) True"
  have rs: "report_success 0 u ?w1 = Some (put_urb u ?r ?w1)"
    using report_success_ok[of ?w1 0, OF _ r1] x1 len by simp
  have ns: "v 2 AND DWHCI_HOST_CHAN_INT_ERROR_MASK = 0"
    "v 2 AND (DWHCI_HOST_CHAN_INT_NAK OR DWHCI_HOST_CHAN_INT_NYET) = 0"
    using st(3) by (simp_all add: status_stops_def bit.conj_disj_distrib word_or_zero)
  have sx: "DWHCITransferStageDataGetState ?x = StageStateNoSplitTransfer"
    "DWHCITransferStageDataGetTransactionStatus ?x = Some (v 2)"
    using l st(2) by (simp_all add: stage_getters DWHCITransferStageDataGetTransactionStatus_def)
  have t: "stage_transition drv 0 u ?w1 = finish_stage drv 0 u (put_urb u ?r ?w1)"
    using x1 sx ns rs by (simp add: stage_transition_def Let_def)
  have rh: "urb_pCompletionRoutine ?r = Some HostCompletionRoutine" "urb_pCompletionContext ?r \<noteq> 0"
    using host by (simp_all add: request_getters)
  let ?io3 = "io_emit (MmioWrite DWHCI_HOST_ALLCHAN_INT_MASK (io_oracle (w_io w) (io_pos (w_io w) + 3) AND NOT 1))
     (snd (mmio_read DWHCI_HOST_ALLCHAN_INT_MASK ?io2))"
  have f: "finish_stage drv 0 u (put_urb u R ?w1) = Some (w\<lparr>w_io := ?io3,
        w_host := (w_host w)\<lparr>hd_StageData := (hd_StageData (w_host w))[0 := DWHCITransferStageData_dtor ?x],
          hd_nChannelAllocated := 0, hd_bWaiting := False\<rparr>,
        w_store := ?st\<lparr>st_urbs := (st_urbs (w_store w))(u \<mapsto> R)\<rparr>\<rparr>)"
    if "urb_pCompletionRoutine R = Some HostCompletionRoutine" "urb_pCompletionContext R \<noteq> 0" for R
    using len0 al n that
    by (simp add: finish_stage_def disable_channel_irq_def DWHCIDeviceDisableChannelInterrupt_def register_fresh
       release_channel_def stage_of_put stage_of_def put_stage_def put_urb_def urb_of_def array_get_def DWHCIDeviceFreeChannel_def
       USBRequestCallCompletionRoutine_def DWHCIDeviceCompletionRoutine_def request_getters Let_def numeral_eq_Suc)
  show ?thesis unfolding h t using f[OF rh]
    by (intro exI[of _ ?io3] exI[of _ "DWHCITransferStageData_dtor ?x"]) (simp add: DWHCITransferStageData_dtor_def advance_def Let_def)
qed

lemma scan_rest:
  assumes "\<not> bit m 0"
  shows "channel_scan drv 1 c m w = Some w"
  using assms
proof (induction drv "1 :: u32" c m w rule: channel_scan.induct)
  case (1 drv c m w)
  have "(1 :: u32) AND m = 0" using 1(2) by (simp add: and_one_eq one_and_eq bit_0 even_iff_mod_2_eq_zero)
  moreover have "\<not> bit (push_bit 1 m) 0" by (simp add: bit_0)
  ultimately show ?case using 1 by (subst channel_scan.simps) simp
qed

text \<open>
  What the controller shows while a stage runs, read by read: the channel is not enabled yet, then an
  interrupt of the first channel alone, with no packets and \<open>left\<close> bytes left and a status without error, NAK or NYET.
\<close>

definition answers :: "mmio \<Rightarrow> u32 \<Rightarrow> bool" where
  "answers io left \<longleftrightarrow> (let v = (\<lambda>i. io_oracle io (io_pos io + i)) in
     v 1 AND DWHCI_HOST_CHAN_CHARACTER_ENABLE = 0 \<and> v 3 AND DWHCI_CORE_INT_STAT_HC_INTR \<noteq> 0 \<and> v 4 = 1
     \<and> DWHCI_HOST_CHAN_XFER_SIZ_PACKETS (v 5) = 0 \<and> v 5 AND DWHCI_HOST_CHAN_XFER_SIZ_BYTES__MASK = left
     \<and> v 6 \<noteq> DWHCI_HOST_CHAN_INT_HALTED \<and> v 7 \<noteq> 0 \<and> \<not> status_stops (v 7))"

definition stage_done ::
    "addr \<Rightarrow> TUSBEndpoint \<Rightarrow> addr \<Rightarrow> TUSBRequest \<Rightarrow> 'a usb_world_scheme \<Rightarrow> 'a usb_world_scheme \<Rightarrow> bool" where
  "stage_done a ep u r w w' \<longleftrightarrow> (\<exists>io x. w' = w\<lparr>w_io := io, w_evpos := w_evpos w + 1,
        w_host := (w_host w)\<lparr>hd_StageData := (hd_StageData (w_host w))[0 := x]\<rparr>,
        w_store := (w_store w)\<lparr>st_eps := (st_eps (w_store w))(a \<mapsto> ep), st_urbs := (st_urbs (w_store w))(u \<mapsto> r)\<rparr>\<rparr>
     \<and> io_oracle io = io_oracle (w_io w) \<and> io_pos io = io_pos (w_io w) + 9
     \<and> xs_pTempBuffer x = xs_pTempBuffer (hd_StageData (w_host w) ! 0))"

lemma InterruptHandler_live:
  fixes w :: "'a usb_world_scheme"
  defines "v \<equiv> \<lambda>i. io_oracle (w_io w) (io_pos (w_io w) + i)"
  assumes irq: "v 0 AND DWHCI_CORE_INT_STAT_HC_INTR \<noteq> 0" "v 1 = 1"
    and x: "stage_of w 0 = Some x" and live: "live_stage (w_store w) x a ep"
    and sub: "xs_nSubState x = StageSubStateWaitForTransactionComplete"
    and u: "xs_pURB x = Some u" and r: "urb_of w u = Some r" and host: "urb_pCompletionRoutine r = Some HostCompletionRoutine"
      "urb_pCompletionContext r \<noteq> 0"
    and per: "\<not> endpoint_periodic ep"
    and st: "v 3 \<noteq> DWHCI_HOST_CHAN_INT_HALTED" "v 4 \<noteq> 0" "\<not> status_stops (v 4)"
    and left: "DWHCI_HOST_CHAN_XFER_SIZ_PACKETS (v 2) = 0" "v 2 AND DWHCI_HOST_CHAN_XFER_SIZ_BYTES__MASK \<le> xs_nTransferSize x"
    and sk: "USBEndpointSkipPID ep (xs_nPackets x) (xs_bStatusStage x) = Some ep'"
    and al: "hd_nChannelAllocated (w_host w) = 1" and n: "0 < hd_nChannels (w_host w)"
  shows "\<exists>io x'. DWHCIDeviceInterruptHandler drv w = Some (w\<lparr>w_io := io,
        w_host := (w_host w)\<lparr>hd_StageData := (hd_StageData (w_host w))[0 := x'], hd_nChannelAllocated := 0, hd_bWaiting := False\<rparr>,
        w_store := (w_store w)\<lparr>st_eps := (st_eps (w_store w))(a \<mapsto> ep'), st_urbs := (st_urbs (w_store w))(u \<mapsto>
          USBRequestSetStatus (if xs_bStatusStage x then r else USBRequestSetResultLen r
            (xs_nTransferSize x - (v 2 AND DWHCI_HOST_CHAN_XFER_SIZ_BYTES__MASK))) True)\<rparr>\<rparr>)
     \<and> io_oracle io = io_oracle (w_io w) \<and> io_pos io = io_pos (w_io w) + 6 \<and> xs_pTempBuffer x' = xs_pTempBuffer x"
proof -
  let ?io1 = "io_emit (MmioWrite DWHCI_HOST_ALLCHAN_INT 1)
     (snd (mmio_read DWHCI_HOST_ALLCHAN_INT (snd (mmio_read DWHCI_CORE_INT_STAT (w_io w)))))"
  let ?w1 = "w\<lparr>w_io := io_emit (MmioWrite (DWHCI_HOST_CHAN_INT_MASK 0) 0) ?io1\<rparr>"
  have p: "io_oracle (w_io ?w1) (io_pos (w_io ?w1) + 0) = v 2" "io_oracle (w_io ?w1) (io_pos (w_io ?w1) + 1) = v 3"
    "io_oracle (w_io ?w1) (io_pos (w_io ?w1) + 2) = v 4" by (simp_all add: v_def numeral_eq_Suc)
  have g: "stage_of ?w1 0 = Some x" "urb_of ?w1 u = Some r" "live_stage (w_store ?w1) x a ep" "hd_nChannelAllocated (w_host ?w1) = 1"
    "0 < hd_nChannels (w_host ?w1)"
    using assms by (simp_all add: stage_of_def urb_of_def)
  have q: "DWHCI_HOST_CHAN_XFER_SIZ_PACKETS (v 2) \<le> xs_nPackets x"
    "USBEndpointSkipPID ep (xs_nPackets x - DWHCI_HOST_CHAN_XFER_SIZ_PACKETS (v 2)) (xs_bStatusStage x) = Some ep'"
    using left(1) sk by simp_all
  from ChannelInterruptHandler_live[OF g(1,3) sub u g(2) host per, unfolded p, OF st q(1) left(2) q(2) g(4,5), of drv]
  obtain io x' where
    h: "DWHCIDeviceChannelInterruptHandler drv 0 ?w1 = Some (?w1\<lparr>w_io := io,
        w_host := (w_host ?w1)\<lparr>hd_StageData := (hd_StageData (w_host ?w1))[0 := x'], hd_nChannelAllocated := 0, hd_bWaiting := False\<rparr>,
        w_store := (w_store ?w1)\<lparr>st_eps := (st_eps (w_store ?w1))(a \<mapsto> ep'), st_urbs := (st_urbs (w_store ?w1))(u \<mapsto>
          USBRequestSetStatus (if xs_bStatusStage x then r else USBRequestSetResultLen r
            (xs_nTransferSize x - (v 2 AND DWHCI_HOST_CHAN_XFER_SIZ_BYTES__MASK))) True)\<rparr>\<rparr>)"
    and io: "io_oracle io = io_oracle (w_io ?w1)" "io_pos io = io_pos (w_io ?w1) + 4" "xs_pTempBuffer x' = xs_pTempBuffer x"
    by blast
  let ?io2 = "io_emit (MmioWrite DWHCI_CORE_INT_STAT (v 0)) io"
  have "channel_scan drv 1 0 1 (w\<lparr>w_io := ?io1\<rparr>) = DWHCIDeviceChannelInterruptHandler drv 0 ?w1"
    using n h by (subst channel_scan.simps) (simp add: register_fresh scan_rest bit_simps)
  with h irq io show ?thesis
    by (intro exI[of _ ?io2] exI[of _ x']) (simp add: DWHCIDeviceInterruptHandler_def register_fresh v_def Let_def)
qed


text \<open>A host driver with no transfer under way.\<close>

definition idle_host :: "TDWHCIDevice \<Rightarrow> bool" where
  "idle_host d \<longleftrightarrow> \<not> hd_bWaiting d \<and> hd_nChannelAllocated d = 0 \<and> 0 < hd_nChannels d \<and> hd_StageData d \<noteq> []"

lemma Async_live:
  fixes w :: "'a usb_world_scheme"
  assumes idle: "hd_nChannelAllocated (w_host w) = 0" "0 < hd_nChannels (w_host w)" "hd_StageData (w_host w) \<noteq> []"
    and ctor: "DWHCITransferStageData (w_store w) (hd_StageData (w_host w) ! 0) 0 (Some u) bIn bS = Some x"
    and live: "live_stage (w_store w) x a ep"
    and off: "io_oracle (w_io w) (io_pos (w_io w) + 1) AND DWHCI_HOST_CHAN_CHARACTER_ENABLE = 0"
  shows "\<exists>io. DWHCIDeviceTransferStageAsync u bIn bS w = Some (True, w\<lparr>w_io := io,
      w_host := (w_host w)\<lparr>hd_StageData := (hd_StageData (w_host w))[0 := x\<lparr>xs_nSubState := StageSubStateWaitForTransactionComplete\<rparr>],
         hd_nChannelAllocated := 1\<rparr>\<rparr>)
    \<and> io_oracle io = io_oracle (w_io w) \<and> io_pos io = io_pos (w_io w) + 3"
proof -
  let ?d = "(w_host w)\<lparr>hd_nChannelAllocated := 1\<rparr>"
  have al: "DWHCIDeviceAllocateChannel (w_host w) = (0, ?d)"
    using idle by (simp add: DWHCIDeviceAllocateChannel_def alloc_scan.simps)
  let ?io1 = "io_emit (MmioWrite DWHCI_HOST_ALLCHAN_INT_MASK (io_oracle (w_io w) (io_pos (w_io w)) OR 1))
     (snd (mmio_read DWHCI_HOST_ALLCHAN_INT_MASK (w_io w)))"
  let ?w1 = "put_stage 0 x (w\<lparr>w_host := ?d, w_io := ?io1\<rparr>)"
  have s: "x\<lparr>xs_nState := StageStateNoSplitTransfer\<rparr> = x" and ns: "\<not> xs_bSplitTransaction x"
    using live by (simp_all add: live_stage_def stage_getters)
  have n: "hd_nChannels (w_host w) \<noteq> 0" using idle(2) by auto
  have pp: "put_stage 0 x ?w1 = ?w1" by (simp add: put_stage_def)
  have g: "stage_of ?w1 0 = Some x" "live_stage (w_store ?w1) x a ep" "0 < hd_nChannels (w_host ?w1)"
    "io_oracle (w_io ?w1) (io_pos (w_io ?w1)) AND DWHCI_HOST_CHAN_CHARACTER_ENABLE = 0"
    using idle live off by (simp_all add: stage_of_put put_stage_simps)
  from StartTransaction_live[OF g] obtain io where
    "DWHCIDeviceStartTransaction 0 ?w1 = Some (put_stage 0 (x\<lparr>xs_nSubState := StageSubStateWaitForTransactionComplete\<rparr>) (?w1\<lparr>w_io := io\<rparr>))"
    "io_oracle io = io_oracle (w_io ?w1)" "io_pos io = io_pos (w_io ?w1) + 2" by blast
  moreover have "DWHCIDeviceTransferStageAsync u bIn bS w = do { w \<leftarrow> DWHCIDeviceStartTransaction 0 ?w1; Some (True, w) }"
    unfolding DWHCIDeviceTransferStageAsync_def al
    using idle ctor ns pp n by (simp add: stage_of_def array_get_def s DWHCIDeviceEnableChannelInterrupt_def register_fresh
      stage_getters Let_def)
  ultimately show ?thesis by (intro exI[of _ io]) (simp add: put_stage_def)
qed


lemma ctor_temp:
  assumes "DWHCITransferStageData st t c u bIn bS = Some x"
  shows "xs_pTempBuffer x = xs_pTempBuffer t"
  using assms unfolding DWHCITransferStageData_def Let_def
  by (simp only: bind_Some_iff case_prod_beta) (elim exE conjE, simp only: option.inject, erule subst, simp)

definition host_request :: "TUSBRequest \<Rightarrow> TUSBRequest" where
  "host_request r = r\<lparr>urb_pCompletionRoutine := Some HostCompletionRoutine, urb_pCompletionParam := 0,
     urb_pCompletionContext := of_nat host_ref\<rparr>"

text \<open>The request when a stage has ended, with \<open>n\<close> bytes moved in a stage that is no status stage.\<close>

definition stage_request :: "TUSBRequest \<Rightarrow> bool \<Rightarrow> u32 \<Rightarrow> TUSBRequest" where
  "stage_request r bStatusStage n =
     USBRequestSetStatus (if bStatusStage then host_request r else USBRequestSetResultLen (host_request r) n) True"

lemma TransferStage_live:
  fixes w :: "'a usb_world_scheme"
  assumes idle: "idle_host (w_host w)" and ev: "w_events w (w_evpos w) = UsbInterrupt"
    and r: "urb_of w u = Some r" and ans: "answers (w_io w) left"
    and ctor: "DWHCITransferStageData (w_store (put_urb u (host_request r) w)) (hd_StageData (w_host w) ! 0) 0 (Some u) bIn bS = Some x"
    and live: "live_stage (w_store w) x a ep" and xs: "xs_pURB x = Some u" "xs_bStatusStage x = bS" "left \<le> xs_nTransferSize x"
    and per: "\<not> endpoint_periodic ep" and sk: "USBEndpointSkipPID ep (xs_nPackets x) bS = Some ep'"
  shows "\<exists>w'. DWHCIDeviceTransferStage drv u bIn bS w = Some (True, w')
    \<and> stage_done a ep' u (stage_request r bS (xs_nTransferSize x - left)) w w'"
proof -
  let ?w0 = "set_waiting True (put_urb u (host_request r) w)"
  let ?x = "x\<lparr>xs_nSubState := StageSubStateWaitForTransactionComplete\<rparr>"
  note i = idle[unfolded idle_host_def] and av = ans[unfolded answers_def Let_def]
  have g: "hd_nChannelAllocated (w_host ?w0) = 0" "0 < hd_nChannels (w_host ?w0)" "hd_StageData (w_host ?w0) \<noteq> []"
    "DWHCITransferStageData (w_store ?w0) (hd_StageData (w_host ?w0) ! 0) 0 (Some u) bIn bS = Some x"
    "live_stage (w_store ?w0) x a ep"
    "io_oracle (w_io ?w0) (io_pos (w_io ?w0) + 1) AND DWHCI_HOST_CHAN_CHARACTER_ENABLE = 0"
    using i ctor live av by (simp_all add: set_waiting_def put_urb_def live_stage_def)
  from Async_live[OF g] obtain io where
    as: "DWHCIDeviceTransferStageAsync u bIn bS ?w0 = Some (True, ?w0\<lparr>w_io := io,
      w_host := (w_host ?w0)\<lparr>hd_StageData := (hd_StageData (w_host ?w0))[0 := ?x], hd_nChannelAllocated := 1\<rparr>\<rparr>)"
    and io: "io_oracle io = io_oracle (w_io ?w0)" "io_pos io = io_pos (w_io ?w0) + 3" by blast
  let ?w1 = "?w0\<lparr>w_io := io, w_evpos := w_evpos w + 1,
      w_host := (w_host ?w0)\<lparr>hd_StageData := (hd_StageData (w_host ?w0))[0 := ?x], hd_nChannelAllocated := 1\<rparr>\<rparr>"
  have v: "io_oracle (w_io ?w1) (io_pos (w_io ?w1) + k) = io_oracle (w_io w) (io_pos (w_io w) + (k + 3))" for k
    using io by (simp add: set_waiting_def put_urb_def ac_simps)
  have q: "io_oracle (w_io ?w1) (io_pos (w_io ?w1) + 0) AND DWHCI_CORE_INT_STAT_HC_INTR \<noteq> 0"
    "io_oracle (w_io ?w1) (io_pos (w_io ?w1) + 1) = 1" "stage_of ?w1 0 = Some ?x" "live_stage (w_store ?w1) ?x a ep"
    "xs_nSubState ?x = StageSubStateWaitForTransactionComplete" "xs_pURB ?x = Some u" "urb_of ?w1 u = Some (host_request r)"
    "urb_pCompletionRoutine (host_request r) = Some HostCompletionRoutine" "urb_pCompletionContext (host_request r) \<noteq> 0"
    "io_oracle (w_io ?w1) (io_pos (w_io ?w1) + 3) \<noteq> DWHCI_HOST_CHAN_INT_HALTED"
    "io_oracle (w_io ?w1) (io_pos (w_io ?w1) + 4) \<noteq> 0" "\<not> status_stops (io_oracle (w_io ?w1) (io_pos (w_io ?w1) + 4))"
    "DWHCI_HOST_CHAN_XFER_SIZ_PACKETS (io_oracle (w_io ?w1) (io_pos (w_io ?w1) + 2)) = 0"
    "io_oracle (w_io ?w1) (io_pos (w_io ?w1) + 2) AND DWHCI_HOST_CHAN_XFER_SIZ_BYTES__MASK \<le> xs_nTransferSize ?x"
    "USBEndpointSkipPID ep (xs_nPackets ?x) (xs_bStatusStage ?x) = Some ep'"
    "hd_nChannelAllocated (w_host ?w1) = 1" "0 < hd_nChannels (w_host ?w1)"
    using av i xs sk live unfolding v
    by (simp_all add: stage_of_def array_get_def set_waiting_def put_urb_def urb_of_def live_stage_def host_request_def host_ref_def)
  from InterruptHandler_live[OF q(1-9) per q(10-17), of drv] obtain io2 x2 where
    h: "DWHCIDeviceInterruptHandler drv ?w1 = Some (?w1\<lparr>w_io := io2,
        w_host := (w_host ?w1)\<lparr>hd_StageData := (hd_StageData (w_host ?w1))[0 := x2], hd_nChannelAllocated := 0, hd_bWaiting := False\<rparr>,
        w_store := (w_store ?w1)\<lparr>st_eps := (st_eps (w_store ?w1))(a \<mapsto> ep'), st_urbs := (st_urbs (w_store ?w1))(u \<mapsto>
          USBRequestSetStatus (if xs_bStatusStage ?x then host_request r else USBRequestSetResultLen (host_request r)
            (xs_nTransferSize ?x - (io_oracle (w_io ?w1) (io_pos (w_io ?w1) + 2) AND DWHCI_HOST_CHAN_XFER_SIZ_BYTES__MASK))) True)\<rparr>\<rparr>)"
    and io2: "io_oracle io2 = io_oracle (w_io ?w1)" "io_pos io2 = io_pos (w_io ?w1) + 6" "xs_pTempBuffer x2 = xs_pTempBuffer ?x" by blast
  have tb: "xs_pTempBuffer x = xs_pTempBuffer (hd_StageData (w_host w) ! 0)"
    by (rule ctor_temp[OF ctor])
  let ?r = "stage_request r bS (xs_nTransferSize x - left)"
  let ?w2 = "w\<lparr>w_io := io2, w_evpos := w_evpos w + 1,
        w_host := (w_host w)\<lparr>hd_StageData := (hd_StageData (w_host w))[0 := x2]\<rparr>,
        w_store := (w_store w)\<lparr>st_eps := (st_eps (w_store w))(a \<mapsto> ep'), st_urbs := (st_urbs (w_store w))(u \<mapsto> ?r)\<rparr>\<rparr>"
  have bl: "io_oracle (w_io ?w1) (io_pos (w_io ?w1) + 2) AND DWHCI_HOST_CHAN_XFER_SIZ_BYTES__MASK = left"
    using av unfolding v by simp
  have "(w_host w)\<lparr>hd_nChannelAllocated := 0, hd_bWaiting := False\<rparr> = w_host w" using i by simp
  then have hh: "(w_host ?w1)\<lparr>hd_StageData := (hd_StageData (w_host ?w1))[0 := x2], hd_nChannelAllocated := 0, hd_bWaiting := False\<rparr>
      = (w_host w)\<lparr>hd_StageData := (hd_StageData (w_host w))[0 := x2]\<rparr>"
    by (cases "w_host w") (simp add: set_waiting_def put_urb_def)
  have h2: "DWHCIDeviceInterruptHandler drv ?w1 = Some ?w2"
    unfolding h bl hh using xs(2) by (simp add: set_waiting_def put_urb_def stage_request_def)
  let ?wa = "?w0\<lparr>w_io := io,
      w_host := (w_host ?w0)\<lparr>hd_StageData := (hd_StageData (w_host ?w0))[0 := ?x], hd_nChannelAllocated := 1\<rparr>\<rparr>"
  have e1: "?wa\<lparr>w_evpos := w_evpos ?wa + 1\<rparr> = ?w1" "w_events ?wa (w_evpos ?wa) = UsbInterrupt" "hd_bWaiting (w_host ?wa)"
    using ev by (simp_all add: set_waiting_def put_urb_def)
  have "wait_done drv ?wa = wait_done drv ?w2"
    by (subst wait_done.simps) (simp only: e1 if_True take_interrupt_def usb_event.case h2 bind.bind_lunit)
  also have "\<dots> = Some ?w2" using i by (subst wait_done.simps) simp
  finally have wd: "wait_done drv ?wa = Some ?w2" .
  have "DWHCIDeviceTransferStage drv u bIn bS w = Some (True, ?w2)"
    unfolding DWHCIDeviceTransferStage_def using r i as wd
    by (simp add: USBRequestSetCompletionRoutine_def host_request_def[symmetric] urb_of_def put_urb_def stage_request_def request_getters)
  moreover have "stage_done a ep' u ?r w ?w2"
    unfolding stage_done_def using io io2 tb by (intro exI[of _ io2] exI[of _ x2]) (simp add: set_waiting_def put_urb_def)
  ultimately show ?thesis by blast
qed


section \<open>Control messages\<close>

definition aligned :: "uintptr \<Rightarrow> bool" where
  "aligned p \<longleftrightarrow> p \<noteq> 0 \<and> p AND 3 = 0"

text \<open>The host driver is idle and the next events are interrupts of the controller.\<close>

definition live_bus :: "'a usb_world_scheme \<Rightarrow> bool" where
  "live_bus w \<longleftrightarrow> idle_host (w_host w) \<and> (\<forall>k. w_events w k = UsbInterrupt) \<and> aligned (xs_pTempBuffer (hd_StageData (w_host w) ! 0))"

text \<open>A control endpoint of a high-speed device; \<open>s\<close> says whether a setup packet comes next.\<close>

definition control_endpoint :: "usb_store \<Rightarrow> addr \<Rightarrow> bool \<Rightarrow> bool" where
  "control_endpoint st a s \<longleftrightarrow> (\<exists>ep b dev. st_eps st a = Some ep \<and> endpoint_ok ep \<and> ep_Type ep = EndpointTypeControl
     \<and> (ep_NextPID ep = USBPIDSetup \<longleftrightarrow> s) \<and> ep_nMaxPacketSize ep \<noteq> 0 \<and> ep_pDevice ep = Some b \<and> st_devs st b = Some dev
     \<and> dev_Speed dev = USBSpeedHigh)"

text \<open>Where a stage moves its bytes, and how many there are.\<close>

definition stage_buffer :: "TUSBRequest \<Rightarrow> bool \<Rightarrow> bool \<Rightarrow> uintptr \<Rightarrow> (uintptr \<times> u32) option" where
  "stage_buffer r s bS pTemp = (if bS then Some (pTemp, 0)
     else if s then map_option (\<lambda>(p, _). (p, sizeof_TSetupData)) (urb_pSetupData r)
     else Some (urb_pBuffer r, urb_nBufLen r))"

lemma control_stage_live:
  fixes w :: "'a usb_world_scheme"
  assumes bus: "live_bus w" and ctl: "control_endpoint (w_store w) a s" and r: "urb_of w u = Some r" "urb_pEndpoint r = Some a"
    and buf: "stage_buffer r s bS (xs_pTempBuffer (hd_StageData (w_host w) ! 0)) = Some (p, n)" "aligned p"
    and ans: "answers (w_io w) left" "left \<le> n"
  shows "\<exists>w'. DWHCIDeviceTransferStage drv u bIn bS w = Some (True, w') \<and> live_bus w' \<and> control_endpoint (w_store w') a bS
     \<and> urb_of w' u = Some (stage_request r bS (n - left)) \<and> io_oracle (w_io w') = io_oracle (w_io w)
     \<and> io_pos (w_io w') = io_pos (w_io w) + 9
     \<and> xs_pTempBuffer (hd_StageData (w_host w') ! 0) = xs_pTempBuffer (hd_StageData (w_host w) ! 0)"
proof -
  from ctl obtain ep b dev where e: "st_eps (w_store w) a = Some ep" "endpoint_ok ep" "ep_Type ep = EndpointTypeControl"
     "ep_NextPID ep = USBPIDSetup \<longleftrightarrow> s" "ep_nMaxPacketSize ep \<noteq> 0" "ep_pDevice ep = Some b" "st_devs (w_store w) b = Some dev"
     "dev_Speed dev = USBSpeedHigh" by (auto simp: control_endpoint_def)
  let ?st = "w_store (put_urb u (host_request r) w)" and ?t = "hd_StageData (w_host w) ! 0"
  have "\<exists>x. DWHCITransferStageData ?st ?t 0 (Some u) bIn bS = Some x \<and> live_stage (w_store w) x a ep
      \<and> xs_pURB x = Some u \<and> xs_bStatusStage x = bS \<and> xs_nTransferSize x = n"
    using e r buf
    by (auto simp: DWHCITransferStageData_def stage_sizes_def put_urb_def host_request_def request_getters endpoint_getters
        stage_buffer_def aligned_def live_stage_def USBEndpointGetNextPID_def USBRequestGetSetupData_def USBRequestGetBuffer_def
        USBDeviceGetSpeed_def deref_def Let_def split: if_splits)
  then obtain x where x: "DWHCITransferStageData ?st ?t 0 (Some u) bIn bS = Some x" "live_stage (w_store w) x a ep"
      "xs_pURB x = Some u" "xs_bStatusStage x = bS" "xs_nTransferSize x = n" by blast
  have per: "\<not> endpoint_periodic ep" using e(3) by (simp add: endpoint_periodic_def endpoint_getters)
  from skip_defined[OF e(2), of bS "xs_nPackets x"] e(3) obtain ep' where
    sk: "USBEndpointSkipPID ep (xs_nPackets x) bS = Some ep'" "endpoint_ok ep'" by blast
  have ep': "ep_Type ep' = EndpointTypeControl" "ep_NextPID ep' = USBPIDSetup \<longleftrightarrow> bS" "ep_nMaxPacketSize ep' = ep_nMaxPacketSize ep"
    "ep_pDevice ep' = ep_pDevice ep"
    using sk(1) e(3) by (auto simp: USBEndpointSkipPID_def split: if_splits TUSBPID.splits)
  from bus have i: "idle_host (w_host w)" and ev: "w_events w (w_evpos w) = UsbInterrupt" by (simp_all add: live_bus_def)
  have l: "left \<le> xs_nTransferSize x" using x(5) ans(2) by simp
  from TransferStage_live[OF i ev r(1) ans(1) x(1,2,3,4) l per sk(1), of drv] obtain w' where
    t: "DWHCIDeviceTransferStage drv u bIn bS w = Some (True, w')"
    and d: "stage_done a ep' u (stage_request r bS (n - left)) w w'" by (auto simp: x(5))
  have "hd_StageData (w_host w) \<noteq> []" using i by (simp add: idle_host_def)
  with d bus e ep' sk(2) have "live_bus w' \<and> control_endpoint (w_store w') a bS
     \<and> urb_of w' u = Some (stage_request r bS (n - left)) \<and> io_oracle (w_io w') = io_oracle (w_io w)
     \<and> io_pos (w_io w') = io_pos (w_io w) + 9
     \<and> xs_pTempBuffer (hd_StageData (w_host w') ! 0) = xs_pTempBuffer (hd_StageData (w_host w) ! 0)"
    by (auto simp: stage_done_def live_bus_def idle_host_def control_endpoint_def urb_of_def)
  with t show ?thesis by blast
qed

definition answers_at :: "mmio \<Rightarrow> nat \<Rightarrow> u32 \<Rightarrow> bool" where
  "answers_at io k left \<longleftrightarrow> answers (io\<lparr>io_pos := io_pos io + 9 * k\<rparr>) left"

lemma answers_at_0: "answers io left \<longleftrightarrow> answers_at io 0 left"
  by (simp add: answers_at_def answers_def)

definition advanced :: "mmio \<Rightarrow> mmio \<Rightarrow> bool" where
  "advanced io io' \<longleftrightarrow> io_oracle io' = io_oracle io \<and> io_pos io' = io_pos io + 9"

lemma answers_at_step: "advanced io io' \<Longrightarrow> answers_at io' k left \<longleftrightarrow> answers_at io (Suc k) left"
  by (simp add: advanced_def answers_at_def answers_def ac_simps)

lemma stage_request_fields [simp]:
  "urb_pEndpoint (stage_request r bS n) = urb_pEndpoint r" "urb_pSetupData (stage_request r bS n) = urb_pSetupData r"
  "urb_pBuffer (stage_request r bS n) = urb_pBuffer r" "urb_nBufLen (stage_request r bS n) = urb_nBufLen r"
  "urb_bStatus (stage_request r bS n)" "urb_nResultLen (stage_request r bS n) = (if bS then urb_nResultLen r else n)"
  by (simp_all add: stage_request_def host_request_def request_getters)

text \<open>A world in which request \<open>u\<close> can run its next stage.\<close>

definition stage_ready :: "addr \<Rightarrow> addr \<Rightarrow> bool \<Rightarrow> TUSBRequest \<Rightarrow> 'a usb_world_scheme \<Rightarrow> bool" where
  "stage_ready u a s r w \<longleftrightarrow> live_bus w \<and> control_endpoint (w_store w) a s \<and> urb_of w u = Some r \<and> urb_pEndpoint r = Some a"

lemma stage_step:
  assumes "stage_ready u a s r w" and "stage_buffer r s bS (xs_pTempBuffer (hd_StageData (w_host w) ! 0)) = Some (p, n)" "aligned p"
    and "answers_at (w_io w) 0 left" "left \<le> n"
  shows "\<exists>w'. DWHCIDeviceTransferStage drv u bIn bS w = Some (True, w') \<and> stage_ready u a bS (stage_request r bS (n - left)) w'
    \<and> advanced (w_io w) (w_io w')"
proof -
  from assms control_stage_live[of w a s u r bS p n left drv bIn] obtain w' where
    t: "DWHCIDeviceTransferStage drv u bIn bS w = Some (True, w')" "live_bus w'" "control_endpoint (w_store w') a bS"
     "urb_of w' u = Some (stage_request r bS (n - left))" "io_oracle (w_io w') = io_oracle (w_io w)"
     "io_pos (w_io w') = io_pos (w_io w) + 9" by (auto simp: stage_ready_def answers_at_0)
  with assms(1) show ?thesis by (auto simp: stage_ready_def advanced_def)
qed

lemma setup_stage:
  assumes "stage_ready u a True r w" and "urb_pSetupData r = Some (p, sd)" "aligned p" and "answers_at (w_io w) 0 0"
  shows "\<exists>w'. DWHCIDeviceTransferStage drv u False False w = Some (True, w') \<and> stage_ready u a False (stage_request r False 8) w'
    \<and> advanced (w_io w) (w_io w')"
  using stage_step[OF assms(1), of False p 8 0 drv False] assms(2-) by (simp add: stage_buffer_def sizeof_TSetupData_def)

lemma data_stage:
  assumes "stage_ready u a False r w" and "aligned (urb_pBuffer r)" and "answers_at (w_io w) 0 left" "left \<le> urb_nBufLen r"
  shows "\<exists>w'. DWHCIDeviceTransferStage drv u bIn False w = Some (True, w')
    \<and> stage_ready u a False (stage_request r False (urb_nBufLen r - left)) w'
    \<and> advanced (w_io w) (w_io w')"
  using stage_step[OF assms(1), of False "urb_pBuffer r" "urb_nBufLen r" left drv bIn] assms(2-) by (simp add: stage_buffer_def)

lemma status_stage:
  assumes "stage_ready u a False r w" and "answers_at (w_io w) 0 0"
  shows "\<exists>w'. DWHCIDeviceTransferStage drv u bIn True w = Some (True, w') \<and> stage_ready u a True (stage_request r True 0) w'
    \<and> advanced (w_io w) (w_io w')"
  using stage_step[OF assms(1), of True "xs_pTempBuffer (hd_StageData (w_host w) ! 0)" 0 0 drv bIn] assms
  by (simp add: stage_buffer_def stage_ready_def live_bus_def)

text \<open>The stages of a control message: the lengths the controller leaves over in each.\<close>

definition message_answers :: "mmio \<Rightarrow> u16 \<Rightarrow> u16 \<Rightarrow> bool" where
  "message_answers io n left \<longleftrightarrow> answers_at io 0 0 \<and>
     (if n = 0 then answers_at io 1 0 else answers_at io 1 (ucast left) \<and> left \<le> n \<and> answers_at io 2 0)"

lemma submit_live:
  assumes rdy: "stage_ready u a True r w" and sp: "urb_pSetupData r = Some (p, sd)" "aligned p"
    and len: "urb_nBufLen r = ucast n" and buf: "n \<noteq> 0 \<longrightarrow> aligned (urb_pBuffer r)"
    and dir: "sd_bmRequestType sd AND REQUEST_IN \<noteq> 0 \<longrightarrow> n \<noteq> 0" and ans: "message_answers (w_io w) n left"
  shows "\<exists>w' r'. DWHCIDeviceSubmitBlockingRequest drv u w = Some (True, w') \<and> stage_ready u a True r' w'
     \<and> urb_bStatus r' \<and> urb_nResultLen r' = (if n = 0 then 8 else ucast (n - left))
     \<and> io_pos (w_io w') = io_pos (w_io w) + (if n = 0 then 18 else 27) \<and> io_oracle (w_io w') = io_oracle (w_io w)"
proof -
  let ?r = "USBRequestSetStatus r False" and ?w = "put_urb u (USBRequestSetStatus r False) w"
  have r: "urb_of w u = Some r" "urb_pEndpoint r = Some a" using rdy by (simp_all add: stage_ready_def)
  have rdy': "stage_ready u a True ?r ?w"
    using rdy by (simp add: stage_ready_def live_bus_def control_endpoint_def put_urb_def urb_of_def request_getters)
  have a0: "answers_at (w_io ?w) 0 0" using ans by (simp add: message_answers_def put_urb_def)
  from setup_stage[OF rdy' _ sp(2) a0, of sd drv] sp(1) obtain w1 where
    s1: "DWHCIDeviceTransferStage drv u False False ?w = Some (True, w1)" "stage_ready u a False (stage_request ?r False 8) w1"
    "advanced (w_io ?w) (w_io w1)" by (auto simp: request_getters)
  from rdy obtain ep where ep: "st_eps (w_store w) a = Some ep" "ep_Type ep = EndpointTypeControl"
    by (auto simp: stage_ready_def control_endpoint_def)
  have nz: "(ucast n :: u32) = 0 \<longleftrightarrow> n = 0" by (simp add: word_unat_eq_iff unat_ucast_up)
  have sb: "DWHCIDeviceSubmitBlockingRequest drv u w =
     (if sd_bmRequestType sd AND REQUEST_IN \<noteq> 0 then then_stage (then_stage (Some (True, w1)) (DWHCIDeviceTransferStage drv u True False))
           (DWHCIDeviceTransferStage drv u False True)
      else if n = 0 then then_stage (Some (True, w1)) (DWHCIDeviceTransferStage drv u True True)
      else then_stage (then_stage (Some (True, w1)) (DWHCIDeviceTransferStage drv u False False))
              (DWHCIDeviceTransferStage drv u True True))"
    using r ep sp len dir s1(1) nz
    by (auto simp: DWHCIDeviceSubmitBlockingRequest_def set_urb_status_def urb_of_def put_urb_def request_getters endpoint_getters
        USBRequestGetSetupData_def deref_def word_neq_0_conv[symmetric])
  show ?thesis
  proof (cases "n = 0")
    case True
    have "answers_at (w_io w1) 0 0" using ans True answers_at_step[OF s1(3)] by (simp add: message_answers_def put_urb_def)
    from status_stage[OF s1(2) this, of drv True] obtain w2 where
      "DWHCIDeviceTransferStage drv u True True w1 = Some (True, w2)" "stage_ready u a True (stage_request (stage_request ?r False 8) True 0) w2"
      "advanced (w_io w1) (w_io w2)" by blast
    with True dir sb s1(3) show ?thesis
      by (intro exI[of _ w2] exI[of _ "stage_request (stage_request ?r False 8) True 0"])
         (simp add: then_stage_def advanced_def put_urb_def)
  next
    case False
    let ?r1 = "stage_request ?r False 8"
    let ?r2 = "stage_request ?r1 False (urb_nBufLen ?r1 - ucast left)"
    have a1: "answers_at (w_io w1) 0 (ucast left)" "left \<le> n"
      using ans False answers_at_step[OF s1(3)] by (simp_all add: message_answers_def put_urb_def)
    have b: "aligned (urb_pBuffer ?r1)" "ucast left \<le> urb_nBufLen ?r1"
      using buf False a1(2) len by (simp_all add: request_getters word_le_nat_alt unat_ucast_up)
    have two: "\<exists>w2 w3. DWHCIDeviceTransferStage drv u bIn False w1 = Some (True, w2)
        \<and> DWHCIDeviceTransferStage drv u bS True w2 = Some (True, w3) \<and> stage_ready u a True (stage_request ?r2 True 0) w3
        \<and> advanced (w_io w1) (w_io w2) \<and> advanced (w_io w2) (w_io w3)" for bIn bS
    proof -
      from data_stage[OF s1(2) b(1) a1(1) b(2), of drv bIn] obtain w2 where
        s2: "DWHCIDeviceTransferStage drv u bIn False w1 = Some (True, w2)" "stage_ready u a False ?r2 w2"
        "advanced (w_io w1) (w_io w2)" by blast
      have "answers_at (w_io w2) 0 0"
        using ans False answers_at_step[OF s1(3)] answers_at_step[OF s2(3)] by (simp add: message_answers_def put_urb_def numeral_eq_Suc)
      from status_stage[OF s2(2) this, of drv bS] s2 show ?thesis by blast
    qed
    have len': "urb_nBufLen ?r1 - ucast left = ucast (n - left)"
      using len a1(2) by (simp add: request_getters word_unat_eq_iff unat_sub word_le_nat_alt unat_ucast_up)
    show ?thesis
    proof (cases "sd_bmRequestType sd AND REQUEST_IN \<noteq> 0")
      case True
      from two[of True False] obtain w2 w3 where s: "DWHCIDeviceTransferStage drv u True False w1 = Some (True, w2)"
        "DWHCIDeviceTransferStage drv u False True w2 = Some (True, w3)" "stage_ready u a True (stage_request ?r2 True 0) w3"
        "advanced (w_io w1) (w_io w2)" "advanced (w_io w2) (w_io w3)" by blast
      then show ?thesis using True sb s1(3) \<open>n \<noteq> 0\<close> len'
        by (intro exI[of _ w3] exI[of _ "stage_request ?r2 True 0"]) (simp add: then_stage_def advanced_def put_urb_def)
    next
      case False
      from two[of False True] obtain w2 w3 where s: "DWHCIDeviceTransferStage drv u False False w1 = Some (True, w2)"
        "DWHCIDeviceTransferStage drv u True True w2 = Some (True, w3)" "stage_ready u a True (stage_request ?r2 True 0) w3"
        "advanced (w_io w1) (w_io w2)" "advanced (w_io w2) (w_io w3)" by blast
      then show ?thesis using False sb s1(3) \<open>n \<noteq> 0\<close> len'
        by (intro exI[of _ w3] exI[of _ "stage_request ?r2 True 0"]) (simp add: then_stage_def advanced_def put_urb_def)
    qed
  qed
qed


text \<open>
  Claim C10. Control messages return.  When the driver is idle and the controller completes each stage of the message, with \<open>left\<close>
  bytes of the data stage not moved, then the message to a high-speed device ends with success: the result is the number
  of bytes moved (8, those of the setup packet, if there is no data stage), after exactly two or three interrupts; the
  driver is idle again and the endpoint is back at the start of a control transfer.
\<close>

theorem control_message_completes:
  fixes w :: "'a usb_world_scheme"
  assumes "live_bus w" and "control_endpoint (w_store w) a True" and "aligned pSetup"
    and "if n = 0 then t AND REQUEST_IN = 0 else aligned pData" and "message_answers (w_io w) n left"
  shows "\<exists>w'. DWHCIDeviceControlMessage drv u pSetup (Some a) t rq v i pData n w
        = Some (if n = 0 then 8 else int (unat (n - left)), w')
     \<and> live_bus w' \<and> control_endpoint (w_store w') a True
     \<and> io_pos (w_io w') = io_pos (w_io w) + (if n = 0 then 18 else 27) \<and> io_oracle (w_io w') = io_oracle (w_io w)"
proof -
  let ?sd = "\<lparr>sd_bmRequestType = t, sd_bRequest = rq, sd_wValue = v, sd_wIndex = i, sd_wLength = n\<rparr>"
  let ?r = "\<lparr>urb_pEndpoint = Some a, urb_pSetupData = Some (pSetup, ?sd), urb_pBuffer = pData,
           urb_nBufLen = ucast n, urb_bStatus = False, urb_nResultLen = 0,
           urb_pCompletionRoutine = None, urb_pCompletionParam = 0, urb_pCompletionContext = 0\<rparr>"
  have nz: "(ucast n :: u32) = 0 \<longleftrightarrow> n = 0" by (simp add: word_unat_eq_iff unat_ucast_up)
  have q: "USBRequest (Some a) pData (ucast n) (Some (pSetup, ?sd)) = Some ?r"
    using assms(4) nz by (auto simp: USBRequest_def aligned_def split: if_splits)
  have rdy: "stage_ready u a True ?r (put_urb u ?r w)"
    using assms(1,2) by (simp add: stage_ready_def live_bus_def control_endpoint_def put_urb_def urb_of_def)
  have ans: "message_answers (w_io (put_urb u ?r w)) n left" using assms(5) by (simp add: put_urb_def)
  from submit_live[OF rdy _ assms(3) _ _ _ ans, of ?sd drv] assms(4) obtain w1 r1 where
    s: "DWHCIDeviceSubmitBlockingRequest drv u (put_urb u ?r w) = Some (True, w1)" "stage_ready u a True r1 w1" "urb_bStatus r1"
      "urb_nResultLen r1 = (if n = 0 then 8 else ucast (n - left))"
      "io_pos (w_io w1) = io_pos (w_io w) + (if n = 0 then 18 else 27)" "io_oracle (w_io w1) = io_oracle (w_io w)"
    by (auto simp: put_urb_def split: if_splits)
  have sint: "sint (ucast (n - left) :: u32) = int (unat (n - left))"
  proof -
    have lt: "uint (n - left) < 2 ^ 16" using uint_lt2p[of "n - left"] by simp
    have "unat (ucast (n - left) :: u32) = unat (n - left)" by (simp add: unat_ucast_up)
    then have "uint (ucast (n - left) :: u32) = int (unat (n - left))" by (metis uint_nat)
    with lt show ?thesis
      by (simp add: sint_uint signed_take_bit_int_eq_self_iff order_trans[OF _ uint_ge_0])
  qed
  let ?w = "put_urb u (USBRequest_dtor r1) w1"
  have "urb_of w1 u = Some r1" using s(2) by (simp add: stage_ready_def)
  then have "DWHCIDeviceControlMessage drv u pSetup (Some a) t rq v i pData n w
        = Some (if n = 0 then 8 else int (unat (n - left)), ?w)"
    using s q sint by (simp add: DWHCIDeviceControlMessage_def USBRequestGetResultLength_def)
  moreover have "live_bus ?w \<and> control_endpoint (w_store ?w) a True \<and> io_pos (w_io ?w) = io_pos (w_io w) + (if n = 0 then 18 else 27)
     \<and> io_oracle (w_io ?w) = io_oracle (w_io w)"
    using s by (simp add: stage_ready_def live_bus_def control_endpoint_def put_urb_def)
  ultimately show ?thesis by blast
qed

text \<open>A world with one channel, a high-speed device at address 3 and its control endpoint at 5.\<close>

definition live_world :: usb_world where
  "live_world = fast_world\<lparr>w_host := (w_host fast_world)\<lparr>hd_nChannels := 1, hd_nChannelAllocated := 0,
       hd_StageData := [sample_memory]\<rparr>,
     w_store := \<lparr>st_devs = [3 \<mapsto> \<lparr>dev_ucAddress = 1, dev_Speed = USBSpeedHigh, dev_pEndpoint0 = Some 5, dev_bSplitTransfer = False,
          dev_ucHubAddress = 0, dev_ucHubPortNumber = 1\<rparr>],
        st_eps = [5 \<mapsto> \<lparr>ep_pDevice = Some 3, ep_ucNumber = 0, ep_Type = EndpointTypeControl, ep_bDirectionIn = False,
          ep_nMaxPacketSize = 64, ep_nInterval = 1, ep_NextPID = USBPIDSetup\<rparr>], st_urbs = Map.empty\<rparr>,
     w_io := \<lparr>io_oracle = (\<lambda>n. [0, 0, 0, 2 ^ 25, 1, if n = 14 then 10 else 0, 1, 1, 0] ! (n mod 9)), io_pos = 0, io_trace = []\<rparr>\<rparr>"

theorem control_message_completes_witness:
  "\<exists>w'. DWHCIDeviceControlMessage no_driver 7 0x4000 (Some 5) REQUEST_IN 6 0x100 0 0x5000 18 live_world = Some (8, w')
     \<and> live_bus w' \<and> io_pos (w_io w') = 27"
proof -
  have bus: "live_bus live_world"
    by (simp add: live_world_def live_bus_def idle_host_def aligned_def fast_simps)
  have ctl: "control_endpoint (w_store live_world) 5 True"
    by (simp add: live_world_def control_endpoint_def endpoint_ok_def)
  have ans: "message_answers (w_io live_world) 18 10"
    by (simp add: live_world_def message_answers_def answers_at_def answers_def Let_def status_stops_def chan_int_bits
        DWHCI_CORE_INT_STAT_HC_INTR_def DWHCI_HOST_CHAN_XFER_SIZ_PACKETS_def DWHCI_HOST_CHAN_XFER_SIZ_BYTES__MASK_def)
  from control_message_completes[OF bus ctl _ _ ans, where pSetup = "0x4000" and t = REQUEST_IN and pData = "0x5000"
      and drv = no_driver and u = 7 and rq = 6 and v = "0x100" and i = 0]
  show ?thesis by (auto simp: aligned_def live_world_def)
qed

end
