(* ===== verification/Enumeration.thy ===== *)
theory Enumeration
  imports DriverFrame HostLive
begin

text \<open>
  The enumeration of the bus as a whole (\<^verbatim>\<open>lib/dwhcidevice.c\<close>, \<^verbatim>\<open>lib/dwhcirootport.c\<close>, \<^verbatim>\<open>lib/usbdevice.c\<close>,
  \<^verbatim>\<open>lib/usbstandardhub.c\<close>): what the components of \<^verbatim>\<open>UsbDevice\<close> and \<^verbatim>\<open>StandardHub\<close> promise together.  A device
  takes one address from the counter of \<^verbatim>\<open>usbdevice.c\<close>; the drivers touch neither the counter nor the devices; so
  along any run, through any tree of hubs, the devices of the bus have distinct addresses.  The last section is about
  the split parameters: they name the translator that the path from the root port to the device determines.
\<close>

unbundle bit_operations_syntax

definition calm :: "'a enum_world_scheme \<Rightarrow> 'a enum_world_scheme \<Rightarrow> bool" where
  "calm w w' \<longleftrightarrow> st_devs (w_store w') = st_devs (w_store w) \<and> w_ucNextAddress w' = w_ucNextAddress w \<and> w_next w \<le> w_next w'"

lemma quiet_calm:
  fixes w w' :: "'a enum_world_scheme"
  assumes "quiet w w'"
  shows "calm w w'"
proof -
  from assms have "io_world.more w' = io_world.more w" by (simp add: quiet_def)
  then have "w_ucNextAddress w' = w_ucNextAddress w" by (cases w; cases w') simp
  with assms show ?thesis by (simp add: quiet_def calm_def)
qed

lemma calm_updates [simp]:
  "calm w (w'\<lparr>w_io := io\<rparr>) = calm w w'" "calm (w\<lparr>w_io := io\<rparr>) w' = calm w w'"
  "calm w (w'\<lparr>w_parts := p\<rparr>) = calm w w'" "calm (w\<lparr>w_parts := p\<rparr>) w' = calm w w'"
  by (simp_all add: calm_def)

lemma block_calm:
  "next_block w = (p, w') \<Longrightarrow> calm w w'" "(p, w') = next_block w \<Longrightarrow> calm w w'" "malloc_block w = Some (p, w') \<Longrightarrow> calm w w'"
  by (auto simp: malloc_block_def next_block_def calm_def split: if_splits)

lemmas message_calm = usb_control_sig[THEN io_sig_quiet, THEN quiet_calm]
  usb_control_data_sig[THEN io_sig_quiet, THEN quiet_calm]

lemma set_configuration_calm:
  fixes w :: "'a enum_world_scheme"
  assumes drv: "drv_keeps drv"
  shows "usb_set_configuration drv l ep v w = Some (ok, w') \<Longrightarrow> calm w w'"
    and "usb_set_address drv l ep v w = Some (ok, w') \<Longrightarrow> calm w w'"
    and "usb_get_descriptor drv l ep t i p n r w = Some (k, w') \<Longrightarrow> calm w w'"
  by (auto simp: usb_set_configuration_def usb_set_address_def usb_get_descriptor_def bind_Some_iff split: if_splits
      dest!: message_calm[OF _ drv])

lemma put_endpoint_calm [simp]: "calm w (put_endpoint a ep w') = calm w w'" "calm (put_endpoint a ep w) w' = calm w w'"
  by (simp_all add: calm_def put_endpoint_def)

lemma read_device_descriptor_calm:
  assumes drv: "drv_keeps drv"
  shows "ends (\<lambda>(ok, d', w'). calm w w') (read_device_descriptor drv l a d w)"
  unfolding read_device_descriptor_def
  by (intro ends_rules) (auto simp: calm_def put_endpoint_def dest!: block_calm set_configuration_calm[OF drv])

lemma string_calm:
  fixes w :: "'a enum_world_scheme"
  assumes drv: "drv_keeps drv"
  shows "ends (\<lambda>(ok, p, w'). calm w w') (read_string_descriptor drv l s i lg m p q w)"
  unfolding read_string_descriptor_def get_string_descriptor_def
  by (intro ends_rules) (auto simp: calm_def bind_Some_iff dest!: message_calm[OF _ drv])

lemma read_strings_calm:
  assumes drv: "drv_keeps drv"
  shows "ends (\<lambda>(d', w'). calm w w') (read_strings drv l d w)"
proof -
  note s = ends_D[OF string_calm[OF drv]]
  have g: "calm v v'" if "USBStringGetFromDescriptor drv l p q this i lg v = Some (ok, s', v')" for v v' p q this i lg ok s'
    using that by (auto simp: USBStringGetFromDescriptor_def bind_Some_iff Let_def split: if_splits dest!: s)
  have i: "calm v v'" if "USBStringGetLanguageID drv l p q this v = Some (n, v')" for v v' p q this n
    using that by (auto simp: USBStringGetLanguageID_def bind_Some_iff Let_def split: if_splits dest!: s)
  show ?thesis unfolding read_strings_def
    by (intro ends_rules) (auto simp: calm_def bind_Some_iff split: if_splits prod.splits dest!: g i block_calm)
qed

lemma read_configuration_calm:
  assumes drv: "drv_keeps drv"
  shows "ends (\<lambda>(ok, d', w'). calm w w') (read_configuration drv l a d w)"
  unfolding read_configuration_def
  by (intro ends_rules) (auto simp: calm_def ends_def dest!: block_calm set_configuration_calm[OF drv] split: outcome.splits)

lemma new_driver_calm: "new_driver e cls f ref w = Some (d, w') \<Longrightarrow> calm w w'"
  by (cases cls) (auto simp: new_driver_def bind_Some_iff dest!: block_calm(3), auto simp: calm_def)

lemma factory_calm: "USBDeviceFactoryGetDevice e f s w = Some (c, w') \<Longrightarrow> calm w w'"
  by (auto simp: USBDeviceFactoryGetDevice_def bind_Some_iff malloc_object_def Let_def split: option.splits dest!: new_driver_calm)
     (auto simp: calm_def)

lemma find_driver_calm: "ends (\<lambda>(c, w'). calm w w') (find_driver e n f d w)"
  unfolding find_driver_def
  by (intro ends_rules) (auto simp: ends_def calm_def bind_Some_iff split: if_splits option.splits dest!: factory_calm)

lemma function_loop_calm: "function_loop e a n i d w = Some r \<Longrightarrow> calm w (snd (snd r))"
proof (erule function_loop.raw_induct[where P = "\<lambda>e a n i d w r. calm w (snd (snd r))", rotated], goal_cases)
  case (1 rec e a n i d w r)
  note f = ends_D[OF find_driver_calm]
  from 1(2) show ?case
    by (rule ends_D[rotated], intro ends_rules) (auto simp: ends_def calm_def Let_def dest!: 1(1) f split: if_splits)
qed

lemma assign_address_effect:
  fixes w :: "'a enum_world_scheme"
  assumes "assign_address drv l a w = Some (ok, w')" and drv: "drv_keeps drv" and dev: "st_devs (w_store w) a = Some dev"
  shows "w_ucNextAddress w' = w_ucNextAddress w + 1" and "w_next w \<le> w_next w'"
    and "ok \<Longrightarrow> w_ucNextAddress w \<le> USB_MAX_ADDRESS"
    and "st_devs (w_store w') =
      (if ok then (st_devs (w_store w))(a \<mapsto> dev\<lparr>dev_ucAddress := w_ucNextAddress w\<rparr>) else st_devs (w_store w))"
proof -
  note c = set_configuration_calm(2)[OF drv]
  have "ends (\<lambda>(ok, w'). w_ucNextAddress w' = w_ucNextAddress w + 1 \<and> w_next w \<le> w_next w'
      \<and> (ok \<longrightarrow> w_ucNextAddress w \<le> USB_MAX_ADDRESS)
      \<and> st_devs (w_store w') = (if ok then (st_devs (w_store w))(a \<mapsto> dev\<lparr>dev_ucAddress := w_ucNextAddress w\<rparr>)
           else st_devs (w_store w))) (assign_address drv l a w)"
    unfolding assign_address_def USBDeviceSetAddress_def
    by (intro ends_rules) (auto simp: calm_def put_device_def dev bind_Some_iff not_less dest!: c split: if_splits)
  from ends_D[OF this assms(1)] show "w_ucNextAddress w' = w_ucNextAddress w + 1" "w_next w \<le> w_next w'"
    "ok \<Longrightarrow> w_ucNextAddress w \<le> USB_MAX_ADDRESS"
    "st_devs (w_store w') =
      (if ok then (st_devs (w_store w))(a \<mapsto> dev\<lparr>dev_ucAddress := w_ucNextAddress w\<rparr>) else st_devs (w_store w))"
    by simp_all
qed

definition init_result :: "addr \<Rightarrow> TUSBDevice \<Rightarrow> 'a enum_world_scheme \<Rightarrow> bool \<Rightarrow> 'a enum_world_scheme \<Rightarrow> bool" where
  "init_result a dev w ok w' \<longleftrightarrow> w_next w \<le> w_next w' \<and>
     (\<exists>k dev'. k \<le> 1 \<and> w_ucNextAddress w' = w_ucNextAddress w + of_nat k
       \<and> st_devs (w_store w') = (st_devs (w_store w))(a \<mapsto> dev')
       \<and> (ok \<longrightarrow> k = 1 \<and> w_ucNextAddress w \<le> USB_MAX_ADDRESS \<and> dev' = dev\<lparr>dev_ucAddress := w_ucNextAddress w\<rparr>))"

lemma init_result_fails:
  "calm w w' \<Longrightarrow> st_devs (w_store w) a = Some dev \<Longrightarrow> init_result a dev w False w'"
  unfolding init_result_def calm_def by (intro conjI exI[of _ 0] exI[of _ dev]) auto

lemma USBDeviceInitialize_effect:
  fixes w :: "'a enum_world_scheme"
  assumes "USBDeviceInitialize drv l e a d w = Some (ok, d', w')" and drv: "drv_keeps drv" and dev: "st_devs (w_store w) a = Some dev"
  shows "init_result a dev w ok w'"
proof -
  note c = ends_D[OF read_device_descriptor_calm[OF drv]] ends_D[OF read_strings_calm[OF drv]]
    ends_D[OF read_configuration_calm[OF drv]] function_loop_calm
  have fin: "init_result a dev w b w3"
    if "calm w w1" "assign_address drv l a w1 = Some (True, w2)" "calm w2 w3" for w1 w2 w3 b
  proof -
    from dev that(1) have "st_devs (w_store w1) a = Some dev" by (simp add: calm_def)
    from assign_address_effect[OF that(2) drv this] that(1,3) show ?thesis
      unfolding init_result_def by (intro conjI exI[of _ 1] exI[of _ "dev\<lparr>dev_ucAddress := w_ucNextAddress w\<rparr>"]) (auto simp: calm_def)
  qed
  have bad: "init_result a dev w False w2" if "calm w w1" "assign_address drv l a w1 = Some (False, w2)" for w1 w2
  proof -
    from dev that(1) have "st_devs (w_store w1) a = Some dev" by (simp add: calm_def)
    from assign_address_effect[OF that(2) drv this] that(1) dev show ?thesis
      unfolding init_result_def by (intro conjI exI[of _ 1] exI[of _ dev]) (auto simp: calm_def)
  qed
  have tr: "calm w1 w3" if "calm w1 w2" "calm w2 w3" for w1 w2 w3 :: "'a enum_world_scheme" using that by (auto simp: calm_def)
  have "ends (\<lambda>(ok, d', w'). init_result a dev w ok w') (USBDeviceInitialize drv l e a d w)"
    unfolding USBDeviceInitialize_def
    apply (intro ends_rules)
    apply (auto dest!: c intro: init_result_fails[OF _ dev] bad)
    apply (blast intro: fin tr)+
    done
  from ends_D[OF this assms(1)] show ?thesis by simp
qed

definition addresses_ok :: "u8 \<Rightarrow> (addr \<Rightarrow> TUSBDevice option) \<Rightarrow> bool" where
  "addresses_ok nNext devs \<longleftrightarrow> 1 \<le> nNext
     \<and> (\<forall>a d. devs a = Some d \<longrightarrow> 1 \<le> dev_ucAddress d \<and> dev_ucAddress d \<le> USB_MAX_ADDRESS \<and> dev_ucAddress d < nNext)
     \<and> (\<forall>a b d d'. devs a = Some d \<longrightarrow> devs b = Some d' \<longrightarrow> dev_ucAddress d = dev_ucAddress d' \<longrightarrow> a = b)"

definition bus_ok :: "'a enum_world_scheme \<Rightarrow> bool" where
  "bus_ok w \<longleftrightarrow> addresses_ok (w_ucNextAddress w) (st_devs (w_store w))"

definition grows :: "'a enum_world_scheme \<Rightarrow> 'a enum_world_scheme \<Rightarrow> bool" where
  "grows w w' \<longleftrightarrow> (\<exists>k. w_ucNextAddress w' = w_ucNextAddress w + of_nat k \<and> w_next w + k \<le> w_next w'
     \<and> (unat (w_ucNextAddress w) + k < 256 \<longrightarrow> bus_ok w \<longrightarrow> bus_ok w'))"

lemma calm_grows: "calm w w' \<Longrightarrow> grows w w'"
  unfolding grows_def calm_def bus_ok_def by (intro exI[of _ 0]) auto

lemma grows_refl [simp]: "grows w w"
  by (rule calm_grows) (simp add: calm_def)

lemma unat_add_small:
  assumes "unat (x :: u8) + k < 256"
  shows "unat (x + of_nat k) = unat x + k"
  using assms by (simp add: unat_word_ariths unsigned_of_nat take_bit_eq_mod mod_simps)

lemma grows_trans:
  assumes "grows w w'" and "grows w' w''"
  shows "grows w w''"
proof -
  from assms obtain k k' where k: "w_ucNextAddress w' = w_ucNextAddress w + of_nat k" "w_next w + k \<le> w_next w'"
      "unat (w_ucNextAddress w) + k < 256 \<longrightarrow> bus_ok w \<longrightarrow> bus_ok w'"
    and k': "w_ucNextAddress w'' = w_ucNextAddress w' + of_nat k'" "w_next w' + k' \<le> w_next w''"
      "unat (w_ucNextAddress w') + k' < 256 \<longrightarrow> bus_ok w' \<longrightarrow> bus_ok w''"
    by (auto simp: grows_def)
  have "bus_ok w''" if s: "unat (w_ucNextAddress w) + (k + k') < 256" and ok: "bus_ok w"
  proof -
    from s have "unat (w_ucNextAddress w) + k < 256" by simp
    from unat_add_small[OF this] k(1) have "unat (w_ucNextAddress w') = unat (w_ucNextAddress w) + k" by simp
    with s k(3) k'(3) ok show ?thesis by simp
  qed
  with k k' show ?thesis unfolding grows_def by (intro exI[of _ "k + k'"]) auto
qed

lemma addresses_subset:
  assumes "addresses_ok n devs" and "n \<le> n'" and "devs' \<subseteq>\<^sub>m devs"
  shows "addresses_ok n' devs'"
proof -
  from assms(3) have s: "devs a = Some d" if "devs' a = Some d" for a d
    using that by (auto simp: map_le_def dom_def)
  from assms(1,2) show ?thesis
    unfolding addresses_ok_def by (blast dest: s intro: order_trans order_less_le_trans)
qed

lemma addresses_new:
  assumes "addresses_ok n devs" and "n < n'" and "n \<le> USB_MAX_ADDRESS" and "dev_ucAddress d = n"
  shows "addresses_ok n' (devs(a \<mapsto> d))"
proof -
  have lt: "dev_ucAddress x < n" if "devs b = Some x" for b x using assms(1) that by (auto simp: addresses_ok_def)
  from assms lt show ?thesis
    unfolding addresses_ok_def by (auto intro: order_less_trans split: if_splits dest!: lt)
qed

lemma delete_device_effect:
  assumes "delete_device a d w = Some w'"
  shows "st_devs (w_store w') = (st_devs (w_store w))(a := None)" and "w_ucNextAddress w' = w_ucNextAddress w"
    and "w_next w' = w_next w"
  using assms
  by (auto simp: delete_device_def USBDevice_dtor_def free_device_def put_device_def free_endpoint_def bind_Some_iff
      split: option.splits)

lemma delete_device_grows: "delete_device a d w = Some w' \<Longrightarrow> grows w w'"
  unfolding grows_def bus_ok_def
  by (intro exI[of _ 0]) (auto simp: delete_device_effect elim!: addresses_subset simp: map_le_def)

text \<open>Making a device object, initialising it, and deleting it again if that fails.\<close>

lemma new_device_grows:
  fixes w :: "'a enum_world_scheme"
  assumes "malloc_object w = (a, w1)" and "USBDevice a sp b h p w1 = Some (d, w2)"
    and "USBDeviceInitialize drv l e a d w2 = Some (ok, d', w3)" and drv: "drv_keeps drv"
  shows "if ok then grows w w3 else \<forall>w4. delete_device a d' w3 = Some w4 \<longrightarrow> grows w w4"
proof -
  from assms(1,2) obtain dev where w2: "st_devs (w_store w2) = (st_devs (w_store w))(a \<mapsto> dev)"
      "w_next w + 1 \<le> w_next w2" "w_ucNextAddress w2 = w_ucNextAddress w"
    by (auto simp: malloc_object_def USBDevice_def put_device_def new_endpoint_def bind_Some_iff Let_def split: if_splits)
  from USBDeviceInitialize_effect[OF assms(3) drv, of dev] w2(1) have "init_result a dev w2 ok w3" by simp
  then obtain k dev' where i: "w_next w2 \<le> w_next w3" "k \<le> 1" "w_ucNextAddress w3 = w_ucNextAddress w + of_nat k"
      "st_devs (w_store w3) = (st_devs (w_store w))(a \<mapsto> dev')"
      "ok \<longrightarrow> k = 1 \<and> w_ucNextAddress w \<le> USB_MAX_ADDRESS \<and> dev' = dev\<lparr>dev_ucAddress := w_ucNextAddress w\<rparr>"
    using w2 by (auto simp: init_result_def)
  have mono: "w_ucNextAddress w \<le> w_ucNextAddress w3" and less: "k = 1 \<Longrightarrow> w_ucNextAddress w < w_ucNextAddress w3"
    if "unat (w_ucNextAddress w) + k < 256"
    using unat_add_small[OF that] i(3) by (simp_all add: word_le_nat_alt word_less_nat_alt)
  show ?thesis
  proof (cases ok)
    case True
    have "bus_ok w3" if "unat (w_ucNextAddress w) + k < 256" "bus_ok w"
      using addresses_new[of "w_ucNextAddress w" "st_devs (w_store w)" "w_ucNextAddress w3" dev' a] that True i less[OF that(1)]
      by (auto simp: bus_ok_def)
    with True i w2 show ?thesis unfolding grows_def by (auto intro!: exI[of _ k])
  next
    case False
    have "grows w w4" if del: "delete_device a d' w3 = Some w4" for w4
    proof -
      have "bus_ok w4" if "unat (w_ucNextAddress w) + k < 256" "bus_ok w"
        using addresses_subset[of "w_ucNextAddress w" "st_devs (w_store w)" "w_ucNextAddress w4" "st_devs (w_store w4)"]
          that mono[OF that(1)] by (auto simp: bus_ok_def delete_device_effect[OF del] i map_le_def)
      with i w2 show ?thesis unfolding grows_def by (intro exI[of _ k]) (auto simp: delete_device_effect[OF del])
    qed
    with False show ?thesis by simp
  qed
qed


text \<open>A loop over ports preserves what its body preserves.\<close>

locale port_loop =
  fixes R :: "'s \<Rightarrow> 's \<Rightarrow> bool"
  assumes refl: "R s s" and trans: "R s s' \<Longrightarrow> R s' s'' \<Longrightarrow> R s s''"
begin

lemma loop:
  assumes "\<And>n s go s'. body n s = Some (go, s') \<Longrightarrow> R s s'" and "ports_loop body n k s = Some (go, s')"
  shows "R s s'"
  using assms(2)
proof (induction k arbitrary: n s)
  case 0
  then show ?case by (simp add: refl)
next
  case (Suc k)
  then show ?case by (auto simp: bind_Some_iff split: if_splits dest!: assms(1) intro: trans)
qed

end

interpretation bus: port_loop grows
  by unfold_locales (auto intro: grows_trans)

interpretation hub_bus: port_loop "\<lambda>(h, w) (h', w'). grows w w'"
  by unfold_locales (auto intro: grows_trans)

lemma port_messages_grow:
  fixes w :: "'a enum_world_scheme"
  assumes drv: "drv_keeps drv"
  shows "port_feature drv l ep rq f n w = Some (r, w') \<Longrightarrow> grows w w'"
    and "port_status drv l ep n p w = Some (r, w') \<Longrightarrow> grows w w'"
    and "usb_control_data drv l ep t rq v i p k w = Some (r, w') \<Longrightarrow> grows w w'"
  by (auto simp: port_feature_def port_status_def dest!: message_calm[OF _ drv] calm_grows)

lemma grows_updates [simp]:
  "grows w (w'\<lparr>w_io := io\<rparr>) = grows w w'" "grows w (w'\<lparr>w_parts := p\<rparr>) = grows w w'"
  "grows (w\<lparr>w_io := io\<rparr>) w' = grows w w'" "grows (w\<lparr>w_parts := p\<rparr>) w' = grows w w'"
  by (simp_all add: grows_def bus_ok_def)

lemmas block_grows = block_calm[THEN calm_grows]

lemma attach_device_grows:
  assumes drv: "drv_keeps drv"
  shows "ends (\<lambda>(go, h', w'). grows w w') (attach_device drv l e n sp (h, w))"
proof -
  note nd = new_device_grows[OF sym _ _ drv]
  show ?thesis unfolding attach_device_def prod.case
    by (intro ends_rules) (auto dest: nd split: if_splits)
qed

lemma detect_port_grows:
  assumes drv: "drv_keeps drv"
  shows "ends (\<lambda>(go, h', w'). grows w w') (detect_port drv l e ep n (h, w))"
proof -
  note m = port_messages_grow[OF drv] and a = ends_D[OF attach_device_grows[OF drv]]
  show ?thesis unfolding detect_port_def prod.case
    by (intro ends_rules; auto simp: ends_def dest!: m a block_grows; meson grows_trans)
qed

lemma check_port_grows:
  assumes drv: "drv_keeps drv"
  shows "ends (\<lambda>(go, b', w'). grows w w') (check_port drv l ep sts n (b, w))"
proof -
  note m = port_messages_grow[OF drv]
  show ?thesis unfolding check_port_def prod.case
    by (intro ends_rules) (auto dest!: m intro: grows_trans)
qed

lemma configure_function_grows:
  fixes w :: "'a enum_world_scheme"
  assumes drv: "drv_keeps drv" and hub: "\<And>ref h (w :: 'a enum_world_scheme). ends (\<lambda>(ok, h', w'). grows w w') (hubcfg ref h w)"
  shows "ends (\<lambda>(ok, f', w'). grows w w') (configure_function hubcfg drv l e d ref f w)"
proof -
  note q = quiet_calm[THEN calm_grows]
  note c = ends_D[OF keyboard_quiet[OF drv]] ends_D[OF mouse_quiet[OF drv]] ends_D[OF midi_quiet[OF drv]]
    ends_D[OF gamepad_quiet[OF drv]] ends_D[OF mass_storage_quiet[OF drv]] ends_D[OF smsc951x_quiet[OF drv]]
    ends_D[OF lan7800_quiet[OF drv]]
  note h = ends_D[OF hub]
  show ?thesis
    unfolding configure_function_def Let_def
    by (cases f; simp only: usb_driver.case; intro ends_rules; auto dest!: c h block_grows q intro: grows_trans)
qed

lemma configure_loop_grows:
  assumes cfg: "\<And>ref f w ok f' w'. cfg ref f w = Some (ok, f', w') \<Longrightarrow> grows w w'"
  shows "configure_loop cfg fs w = Some (b, fs', w') \<Longrightarrow> grows w w'"
proof (induction fs arbitrary: w b fs')
  case (Cons x fs)
  from Cons.prems show ?case
    by (cases x) (auto simp: bind_Some_iff dest!: cfg Cons.IH intro: grows_trans)
qed simp

lemma USBDeviceConfigure_grows:
  fixes w :: "'a enum_world_scheme"
  assumes drv: "drv_keeps drv" and hub: "\<And>ref h (w :: 'a enum_world_scheme). ends (\<lambda>(ok, h', w'). grows w w') (hubcfg ref h w)"
  shows "ends (\<lambda>(ok, d', w'). grows w w') (USBDeviceConfigure hubcfg drv l e a d w)"
proof -
  have f: "grows v v'" if "configure_function hubcfg drv l e d ref f v = Some (ok, f', v')" for v v' ref f ok f'
    using ends_D[OF configure_function_grows[OF drv hub] that] by simp
  have "grows v v'" if "configure_loop (configure_function hubcfg drv l e d) fs v = Some (b, fs', v')" for v v' fs b fs'
    using configure_loop_grows[OF _ that] f by blast
  note c = this set_configuration_calm(1)[OF drv, THEN calm_grows]
  show ?thesis unfolding USBDeviceConfigure_def
    by (intro ends_rules) (auto dest!: c intro: grows_trans)
qed

lemma configure_port_grows:
  fixes w :: "'a enum_world_scheme"
  assumes drv: "drv_keeps drv" and hub: "\<And>ref h (w :: 'a enum_world_scheme). ends (\<lambda>(ok, h', w'). grows w w') (hubcfg ref h w)"
  shows "ends (\<lambda>(go, h', w'). grows w w') (configure_port hubcfg drv l e n (h, w))"
proof -
  note c = ends_D[OF USBDeviceConfigure_grows[OF drv hub]] delete_device_grows
  show ?thesis unfolding configure_port_def prod.case
    by (intro ends_rules) (auto dest!: c intro: grows_trans)
qed


lemma EnumeratePorts_grows:
  fixes w :: "'a enum_world_scheme"
  assumes drv: "drv_keeps drv" and hub: "\<And>ref h (w :: 'a enum_world_scheme). ends (\<lambda>(ok, h', w'). grows w w') (hubcfg ref h w)"
  shows "ends (\<lambda>(ok, h', w'). grows w w') (USBStandardHubEnumeratePorts hubcfg drv l e h w)"
proof -
  note m = port_messages_grow[OF drv]
  have power: "grows v v'" if "ports_loop (\<lambda>nPort w. do { (n, w) \<leftarrow> port_feature drv l ep rq ft nPort w; Some (go n, w) }) i k v = Some (ok, v')"
    for v v' :: "'a enum_world_scheme" and ep rq ft i k ok and go :: "int \<Rightarrow> bool"
    by (rule bus.loop[OF _ that]) (auto simp: bind_Some_iff dest!: m)
  have detect: "grows v v'" if "ports_loop (detect_port drv l e ep) i k (h, v) = Some (ok, h', v')" for v v' h h' ep i k ok
    using hub_bus.loop[OF _ that] ends_D[OF detect_port_grows[OF drv]] by fast
  have configure: "grows v v'" if "ports_loop (configure_port hubcfg drv l e) i k (h, v) = Some (ok, h', v')" for v v' h h' i k ok
    using hub_bus.loop[OF _ that] ends_D[OF configure_port_grows[OF drv hub]] by fast
  have check: "grows v v'" if "ports_loop (check_port drv l ep sts) i k (b, v) = Some (ok, b', v')" for v v' :: "'a enum_world_scheme" and ep sts b b' i k ok
    using hub_bus.loop[OF _ that] ends_D[OF check_port_grows[OF drv]] by fast
  show ?thesis unfolding USBStandardHubEnumeratePorts_def
    by (intro ends_rules; auto dest!: power detect configure check m block_grows; meson grows_trans)
qed


lemma HubConfigure_grows:
  fixes w :: "'a enum_world_scheme"
  assumes drv: "drv_keeps drv" and hub: "\<And>ref h (w :: 'a enum_world_scheme). ends (\<lambda>(ok, h', w'). grows w w') (hubcfg ref h w)"
  shows "ends (\<lambda>(ok, h', w'). grows w w') (USBStandardHubConfigure hubcfg drv l e h w)"
proof -
  note c = ends_D[OF EnumeratePorts_grows[OF drv hub]] set_configuration_calm(3)[OF drv, THEN calm_grows]
    message_quiet(4)[OF _ drv, THEN quiet_calm, THEN calm_grows] block_grows
  show ?thesis unfolding USBStandardHubConfigure_def
    by (intro ends_rules; auto simp: ends_def dest!: c; meson grows_trans)
qed

lemma hub_configure_grows:
  assumes "drv_keeps drv"
  shows "ends (\<lambda>(ok, h', w'). grows w w') (hub_configure drv l e n ref h w)"
proof (induction n arbitrary: ref h w)
  case (Suc n)
  show ?case using HubConfigure_grows[OF assms Suc.IH] by simp
qed (simp add: ends_None)

lemma root_port_grows:
  fixes w :: "'a enum_world_scheme"
  assumes drv: "drv_keeps drv"
  shows "ends (\<lambda>(ok, rp', w'). grows w w') (DWHCIRootPortInitialize drv l e n rp w)"
proof -
  have nd: "if ok then grows w w3 else \<forall>w4. delete_device a d' w3 = Some w4 \<longrightarrow> grows w w4"
    if "(a, w1) = malloc_object (w\<lparr>w_io := io\<rparr>)" "USBDevice a sp b h p w1 = Some (d, w2)"
      "USBDeviceInitialize drv l e a d w2 = Some (ok, d', w3)" for a w1 io sp b h p d w2 ok d' w3
    using new_device_grows[OF sym[OF that(1)] that(2,3) drv] by (simp split: if_splits)
  note ok = nd[where ok = True, simplified] and bad = nd[where ok = False, simplified, rule_format]
  note c = ends_D[OF USBDeviceConfigure_grows[OF drv hub_configure_grows[OF drv]]]
  have del: "grows v v'" if "delete_device a d (v\<lparr>w_io := io\<rparr>) = Some v'" for a d v io and v' :: "'a enum_world_scheme"
    using delete_device_grows[OF that] by simp
  show ?thesis unfolding DWHCIRootPortInitialize_def
    apply (intro ends_rules)
    apply (auto dest!: c)
    subgoal using bad by blast
    subgoal using ok delete_device_grows grows_trans by meson
    subgoal using ok del grows_trans by meson
    subgoal using ok grows_trans by meson
    done
qed

lemma grows_host [simp]: "grows (w\<lparr>w_host := h\<rparr>) w' = grows w w'" "grows w (w'\<lparr>w_host := h\<rparr>) = grows w w'"
  by (simp_all add: grows_def bus_ok_def)

lemma host_initialize_grows:
  assumes "drv_keeps drv"
  shows "ends (\<lambda>(ok, rp', w'). grows w w') (DWHCIDeviceInitialize bPowerOn drv l e n rp w)"
proof -
  note r = ends_D[OF root_port_grows[OF assms]]
  show ?thesis unfolding DWHCIDeviceInitialize_def
    by (intro ends_rules) (auto dest!: r)
qed


text \<open>The start of the controller when no device is on the root port.\<close>

definition empty_start :: "TDWHCIDevice \<Rightarrow> mmio \<Rightarrow> (TDWHCIDevice \<times> mmio) option" where
  "empty_start d io = do {
     let (v, _, io) = DWHCIRegisterRead (DWHCIRegister DWHCI_CORE_VENDOR_ID) io;
     c_assert (v = 0x4F54280A);
     let (_, AHBConfig, io) = DWHCIRegisterRead (DWHCIRegister DWHCI_CORE_AHB_CFG) io;
     AHBConfig \<leftarrow> DWHCIRegisterAnd AHBConfig (NOT DWHCI_CORE_AHB_CFG_GLOBALINT_MASK);
     io \<leftarrow> DWHCIRegisterWrite AHBConfig io;
     (ok, d, io) \<leftarrow> DWHCIDeviceInitCore d io;
     c_assert ok;
     io \<leftarrow> DWHCIDeviceEnableGlobalInterrupts io;
     (ok, io) \<leftarrow> DWHCIDeviceInitHost io;
     c_assert ok;
     (ok, io) \<leftarrow> DWHCIDeviceEnableRootPort io;
     c_assert (\<not> ok);
     Some (d, io) }"

definition start_io :: mmio where
  "start_io = \<lparr>io_oracle = (\<lambda>n. if n < 7 then [0x4F54280A, 0, 0, 0x80000000, 0, 0, 0x1C010] ! n else 0), io_pos = 0, io_trace = []\<rparr>"

lemma start_io_run: "map_option (\<lambda>_. ()) (empty_start (DWHCIDevice []) start_io) = Some ()" by code_simp

lemma empty_start_run:
  fixes w :: "'a enum_world_scheme"
  assumes "empty_start (w_host w) (w_io w) = Some (d, io)"
  shows "DWHCIDeviceInitialize True drv l e n rp w = Some (True, rp, w\<lparr>w_host := d, w_io := io\<rparr>)"
proof -
  from assms obtain v r1 io1 x r2 io2 r3 io3 io4 io5 io6 where
    "DWHCIRegisterRead (DWHCIRegister DWHCI_CORE_VENDOR_ID) (w_io w) = (v, r1, io1)" "v = 0x4F54280A"
    "DWHCIRegisterRead (DWHCIRegister DWHCI_CORE_AHB_CFG) io1 = (x, r2, io2)"
    "DWHCIRegisterAnd r2 (NOT DWHCI_CORE_AHB_CFG_GLOBALINT_MASK) = Some r3" "DWHCIRegisterWrite r3 io2 = Some io3"
    "DWHCIDeviceInitCore (w_host w) io3 = Some (True, d, io4)" "DWHCIDeviceEnableGlobalInterrupts io4 = Some io5"
    "DWHCIDeviceInitHost io5 = Some (True, io6)" "DWHCIDeviceEnableRootPort io6 = Some (False, io)"
    by (auto simp: empty_start_def bind_Some_iff Let_def c_assert_def split: if_splits prod.splits)
  then show ?thesis by (simp add: DWHCIDeviceInitialize_def)
qed
text \<open>A bus with two devices, and a controller that starts with nothing on its root port.\<close>

definition two_devices :: "addr \<Rightarrow> TUSBDevice option" where
  "two_devices = [2 \<mapsto> \<lparr>dev_ucAddress = 2, dev_Speed = USBSpeedHigh, dev_pEndpoint0 = None, dev_bSplitTransfer = False,
       dev_ucHubAddress = 0, dev_ucHubPortNumber = 1\<rparr>,
     3 \<mapsto> \<lparr>dev_ucAddress = 1, dev_Speed = USBSpeedHigh, dev_pEndpoint0 = None, dev_bSplitTransfer = False,
       dev_ucHubAddress = 0, dev_ucHubPortNumber = 1\<rparr>]"

definition two_world :: enum_world where
  "two_world = \<lparr>w_timer = w_timer idle_world, w_io = start_io,
     w_host = DWHCIDevice [], w_store = \<lparr>st_devs = two_devices, st_eps = Map.empty, st_urbs = Map.empty\<rparr>,
     w_events = (\<lambda>_. UsbInterrupt), w_evpos = 0, w_mem = (\<lambda>_. 0), w_data = (\<lambda>_ _. 0), w_datapos = 0, w_wire = [],
     w_names = Some \<lparr>dns_pList = []\<rparr>, w_nDeviceNumber = (\<lambda>_. 1), w_next = 10, w_malloc = (\<lambda>n. replicate n NUL),
     w_parts = Map.empty, w_ucNextAddress = 3, w_blocks = (\<lambda>_. 0), w_blockpos = 0\<rparr>"

definition two_driver :: "enum_world driver_code" where
  "two_driver = \<lparr>drv_completion = (\<lambda>_ _ _ _ w. Some w), drv_timer = (\<lambda>_ _ _ _ w. Some w)\<rparr>"

lemma two_driver_keeps: "drv_keeps two_driver"
  by (simp add: drv_keeps_def two_driver_def keeps_def)

definition two_env :: host_env where
  "two_env = \<lparr>he_MACAddress = None, he_pWriteBuf = 0, he_nDeviceIndex = 0, he_usReportDescriptorLength = 0,
     he_usBufferSize = 0, he_MAC = \<lparr>mac_bValid = False, mac_Address = []\<rparr>\<rparr>"

lemma two_devices_ok: "addresses_ok 3 two_devices"
  by (auto simp: addresses_ok_def two_devices_def USB_MAX_ADDRESS_def split: if_splits)


section \<open>Transaction translators\<close>

text \<open>
  A hop of a path: the speed and the address of the next device, and the port of the hub it is on.  \<open>path_device\<close> follows a
  path from the device on the root port with the parameters the hub driver passes to \<^verbatim>\<open>USBDevice\<close>.
\<close>

type_synonym hop = "TUSBSpeed \<times> u8 \<times> nat"

definition child_device :: "TUSBDevice \<Rightarrow> hop \<Rightarrow> TUSBDevice" where
  "child_device hub h = (case h of (s, a, nPort) \<Rightarrow>
     let (bSplit, ucHubAddress, ucHubPortNumber) = port_split hub nPort s in
     \<lparr>dev_ucAddress = a, dev_Speed = s, dev_pEndpoint0 = None, dev_bSplitTransfer = bSplit, dev_ucHubAddress = ucHubAddress,
      dev_ucHubPortNumber = ucHubPortNumber\<rparr>)"

definition root_device :: "TUSBSpeed \<Rightarrow> u8 \<Rightarrow> TUSBDevice" where
  "root_device s a = \<lparr>dev_ucAddress = a, dev_Speed = s, dev_pEndpoint0 = None, dev_bSplitTransfer = False, dev_ucHubAddress = 0,
     dev_ucHubPortNumber = 1\<rparr>"

fun translator :: "TUSBSpeed \<Rightarrow> u8 \<Rightarrow> hop list \<Rightarrow> (u8 \<times> u8) option" where
  "translator s a [] = None"
| "translator s a ((s', a', nPort) # hops) =
     (if s = USBSpeedHigh \<and> (s' = USBSpeedLow \<or> s' = USBSpeedFull) then Some (a, of_nat (nPort + 1)) else translator s' a' hops)"

lemmas split_simps = child_device_def port_split_def USBDeviceIsSplit_def USBDeviceGetSpeed_def USBDeviceGetAddress_def
  USBDeviceGetHubAddress_def USBDeviceGetHubPortNumber_def Let_def

lemma split_inherited:
  assumes "dev_bSplitTransfer d"
  shows "dev_bSplitTransfer (foldl child_device d hops) \<and> dev_ucHubAddress (foldl child_device d hops) = dev_ucHubAddress d
    \<and> dev_ucHubPortNumber (foldl child_device d hops) = dev_ucHubPortNumber d"
  using assms
proof (induction hops arbitrary: d)
  case (Cons x hops)
  from Cons.IH[of "child_device d x"] Cons.prems show ?case by (simp add: split_simps split: prod.splits)
qed simp

definition split_of :: "TUSBDevice \<Rightarrow> bool \<times> u8 \<times> u8" where
  "split_of d = (dev_bSplitTransfer d, dev_ucHubAddress d, dev_ucHubPortNumber d)"

lemma translator_refines:
  assumes "\<not> dev_bSplitTransfer d"
  shows "split_of (foldl child_device d hops) = (case translator (dev_Speed d) (dev_ucAddress d) hops of
           Some (h, p) \<Rightarrow> (True, h, p) | None \<Rightarrow> (False, dev_ucHubAddress d, dev_ucHubPortNumber d))"
  using assms
proof (induction hops arbitrary: d)
  case Nil
  then show ?case by (simp add: split_of_def)
next
  case (Cons x hops)
  obtain s a nPort where x: "x = (s, a, nPort)" by (cases x)
  let ?c = "child_device d x"
  show ?case
  proof (cases "dev_Speed d = USBSpeedHigh \<and> (s = USBSpeedLow \<or> s = USBSpeedFull)")
    case True
    with Cons.prems have "dev_bSplitTransfer ?c" "dev_ucHubAddress ?c = dev_ucAddress d" "dev_ucHubPortNumber ?c = of_nat (nPort + 1)"
      by (auto simp: x split_simps)
    with split_inherited[of ?c hops] True show ?thesis by (simp add: split_of_def x)
  next
    case False
    with Cons.prems have "\<not> dev_bSplitTransfer ?c" "dev_ucHubAddress ?c = dev_ucHubAddress d"
      "dev_ucHubPortNumber ?c = dev_ucHubPortNumber d" "dev_Speed ?c = s" "dev_ucAddress ?c = a"
      by (auto simp: x split_simps)
    with Cons.IH[of ?c] False show ?thesis by (auto simp: x split: option.splits)
  qed
qed

text \<open>The step of a path is what the hub driver does: the device that is attached is the child the path has.\<close>

lemma attach_device_child:
  fixes w :: "'a enum_world_scheme"
  assumes run: "attach_device drv l e nPort Speed (h, w) = Some (go, h', w')" and drv: "drv_keeps drv"
    and hub: "deref (st_devs (w_store w)) (USBFunctionGetDevice (hub_USBFunction h)) = Some hub"
  shows "st_devs (w_store w') = (st_devs (w_store w))(w_next w := None)
    \<or> (\<exists>ep. st_devs (w_store w') = (st_devs (w_store w))
         (w_next w \<mapsto> (child_device hub (Speed, w_ucNextAddress w, nPort))\<lparr>dev_pEndpoint0 := ep\<rparr>))"
proof -
  obtain b ha hp where ps: "port_split hub nPort Speed = (b, ha, hp)" by (cases "port_split hub nPort Speed") auto
  obtain a w1 where m: "malloc_object w = (a, w1)" by fastforce
  from run hub ps m obtain d w2 ok d' w3 where
    u: "USBDevice a Speed b ha hp w1 = Some (d, w2)" and i: "USBDeviceInitialize drv l e a d w2 = Some (ok, d', w3)"
    and r: "if ok then st_devs (w_store w') = st_devs (w_store w3) else delete_device a d' w3 = Some w'"
    by (auto simp: attach_device_def bind_Some_iff Let_def split: if_splits)
  from u m obtain ep where a: "a = w_next w" "w_ucNextAddress w2 = w_ucNextAddress w"
    and w2: "st_devs (w_store w2) = (st_devs (w_store w))(a \<mapsto> (child_device hub (Speed, 0, nPort))\<lparr>dev_pEndpoint0 := ep\<rparr>)"
    using ps by (auto simp: malloc_object_def USBDevice_def put_device_def new_endpoint_def bind_Some_iff Let_def child_device_def
        USB_DEFAULT_ADDRESS_def split: if_splits)
  from USBDeviceInitialize_effect[OF i drv] w2
  have res: "init_result a ((child_device hub (Speed, 0, nPort))\<lparr>dev_pEndpoint0 := ep\<rparr>) w2 ok w3" by simp
  show ?thesis
  proof (cases ok)
    case True
    with res r a w2 ps show ?thesis by (auto simp: init_result_def child_device_def)
  next
    case False
    with r have "st_devs (w_store w') = (st_devs (w_store w3))(a := None)" by (simp add: delete_device_effect)
    with res a w2 show ?thesis by (auto simp: init_result_def)
  qed
qed


end
