(* ===== verification/NetDrivers.thy ===== *)
theory NetDrivers
  imports Smsc951x Lan7800
begin

text \<open>
  What the two Ethernet drivers do on the wire: frames in both directions, and the access to the PHY.  The
  statements rest on the interpretations of \<open>register_port\<close> and \<open>frame_device\<close>.
\<close>

unbundle bit_operations_syntax

section \<open>A concrete device\<close>

definition net_store :: usb_store where
  "net_store = \<lparr>st_devs = [0 \<mapsto> \<lparr>dev_ucAddress = 3, dev_Speed = USBSpeedHigh, dev_pEndpoint0 = Some 1,
       dev_bSplitTransfer = False, dev_ucHubAddress = 0, dev_ucHubPortNumber = 1\<rparr>],
     st_eps = [1 \<mapsto> \<lparr>ep_pDevice = Some 0, ep_ucNumber = 0, ep_Type = EndpointTypeControl, ep_bDirectionIn = False,
                ep_nMaxPacketSize = 64, ep_nInterval = 1, ep_NextPID = USBPIDSetup\<rparr>,
               2 \<mapsto> \<lparr>ep_pDevice = Some 0, ep_ucNumber = 1, ep_Type = EndpointTypeBulk, ep_bDirectionIn = True,
                ep_nMaxPacketSize = 512, ep_nInterval = 1, ep_NextPID = USBPIDData0\<rparr>,
               3 \<mapsto> \<lparr>ep_pDevice = Some 0, ep_ucNumber = 2, ep_Type = EndpointTypeBulk, ep_bDirectionIn = False,
                ep_nMaxPacketSize = 512, ep_nInterval = 1, ep_NextPID = USBPIDData0\<rparr>],
     st_urbs = (\<lambda>_. None)\<rparr>"

definition net_world :: "u32 \<Rightarrow> u8 list list \<Rightarrow> io_world" where
  "net_world left data = \<lparr>w_timer = w_timer idle_world,
     w_io = \<lparr>io_oracle = (\<lambda>n. [0, 0, 0, 2 ^ 25, 1, left, 1, 1, 1] ! (n mod 9)), io_pos = 0, io_trace = []\<rparr>,
     w_host = w_host idle_world, w_store = net_store, w_events = (\<lambda>_. UsbInterrupt), w_evpos = 0,
     w_mem = (\<lambda>_. 0), w_data = (\<lambda>i j. data ! i ! j), w_datapos = 0, w_wire = [],
     w_names = Some \<lparr>dns_pList = []\<rparr>, w_nDeviceNumber = (\<lambda>_. 1), w_next = 10, w_malloc = (\<lambda>n. replicate n NUL)\<rparr>"

definition net_locals :: locals where
  "net_locals = \<lparr>loc_urb = 7, loc_setup = 0x1000, loc_CBW = 0x2000, loc_CSW = 0x3000, loc_cmd = 0x4000, loc_rsp = 0x5000\<rparr>"

definition net_no_driver :: "io_world driver_code" where
  "net_no_driver = \<lparr>drv_completion = (\<lambda>_ _ _ _ w. Some w), drv_timer = (\<lambda>_ _ _ _ w. Some w)\<rparr>"

definition net_function :: TUSBFunction where
  "net_function = \<lparr>fn_Configure = None, fn_pDevice = Some 0, fn_pConfigParser = None, fn_pInterfaceDesc = None\<rparr>"

definition smsc_sample :: TSMSC951xDevice where
  "smsc_sample = \<lparr>sm_USBFunction = net_function, sm_pEndpointBulkIn = Some 2, sm_pEndpointBulkOut = Some 3,
     sm_MACAddress = \<lparr>mac_bValid = False, mac_Address = []\<rparr>, sm_pTxBuffer = 0x8000\<rparr>"



definition lan_sample :: TLAN7800Device where
  "lan_sample = \<lparr>la_USBFunction = net_function, la_pEndpointBulkIn = Some 2, la_pEndpointBulkOut = Some 3,
     la_MACAddress = \<lparr>mac_bValid = False, mac_Address = []\<rparr>, la_pTxBuffer = 0x8000\<rparr>"


text \<open>A received transfer with a frame of five bytes, and a frame of three bytes to send.\<close>

definition smsc_transfer :: "u8 list" where "smsc_transfer = [0, 0, 9, 0, 10, 11, 12, 13, 14, 1, 2, 3, 4]"
definition lan_transfer :: "u8 list" where "lan_transfer = [9, 0, 0, 0, 0, 0, 0, 0, 0, 0, 10, 11, 12, 13, 14, 1, 2, 3, 4]"

lemma smsc_receive_run:
  "map_option (\<lambda>(fs, w). fs) (receive_frames (SMSC951xDeviceReceiveFrame net_no_driver net_locals smsc_sample) [0x6000]
     (net_world 1587 [smsc_transfer])) = Some [[10, 11, 12, 13, 14]]"
  by code_simp

lemma lan_receive_run:
  "map_option (\<lambda>(fs, w). fs) (receive_frames (LAN7800DeviceReceiveFrame net_no_driver net_locals lan_sample) [0x6000]
     (net_world 1581 [lan_transfer])) = Some [[10, 11, 12, 13, 14]]"
  by code_simp

lemma smsc_send_run:
  "map_option fst (SMSC951xDeviceSendFrame net_no_driver net_locals smsc_sample 0x6000 3 (net_world 0 [])) = Some True"
  by code_simp

lemma lan_send_run:
  "map_option fst (LAN7800DeviceSendFrame net_no_driver net_locals lan_sample 0x6000 3 (net_world 0 [])) = Some True"
  by code_simp

lemma net_no_driver_keeps: "drv_keeps net_no_driver"
  by (simp add: drv_keeps_def net_no_driver_def keeps_def)

lemma net_ready: "frame_ready net_no_driver (Some 3) (net_world left data)"
  by (simp add: frame_ready_def net_no_driver_keeps ep_dir_def net_world_def net_store_def USBEndpointIsDirectionIn_def)

section \<open>Frames\<close>

text \<open>
  Claim C31.  Receiving.  Over any sequence of receive calls the frames the caller finds in its buffers are exactly the frames
  of the transfers that came in on the device's bulk endpoint, in order: each without the header and without the check sum, and
  none for a transfer that failed, is too short or is marked bad by the chip.  This holds for both drivers,
  the SMSC9514 with a header of 4 bytes and the LAN7800 with a header of 10 bytes.
\<close>

theorem ethernet_receive_in_order:
  assumes "frame_ready drv (sm_pEndpointBulkOut s) w" and "receive_frames (SMSC951xDeviceReceiveFrame drv l s) ps w = Some (fs, w1)"
    and "frame_ready drv' (la_pEndpointBulkOut d) v" and "receive_frames (LAN7800DeviceReceiveFrame drv' l d) ps v = Some (gs, w2)"
  shows "(\<exists>es. w_wire w1 = w_wire w @ es \<and> fs = frames_in (sm_pEndpointBulkIn s) smsc_decode es)
     \<and> (\<exists>es. w_wire w2 = w_wire v @ es \<and> gs = frames_in (la_pEndpointBulkIn d) lan_decode es)"
  using smsc.frames_received[OF assms(1,2)] lan.frames_received[OF assms(3,4)] by blast

theorem ethernet_receive_in_order_witness:
  "(\<exists>w1 es. receive_frames (SMSC951xDeviceReceiveFrame net_no_driver net_locals smsc_sample) [0x6000] (net_world 1587 [smsc_transfer])
       = Some ([[10, 11, 12, 13, 14]], w1) \<and> w_wire w1 = es \<and> frames_in (Some 2) smsc_decode es = [[10, 11, 12, 13, 14]])
   \<and> (\<exists>w2 es. receive_frames (LAN7800DeviceReceiveFrame net_no_driver net_locals lan_sample) [0x6000] (net_world 1581 [lan_transfer])
       = Some ([[10, 11, 12, 13, 14]], w2) \<and> w_wire w2 = es \<and> frames_in (Some 2) lan_decode es = [[10, 11, 12, 13, 14]])"
proof -
  from smsc_receive_run obtain w1 where
    r1: "receive_frames (SMSC951xDeviceReceiveFrame net_no_driver net_locals smsc_sample) [0x6000] (net_world 1587 [smsc_transfer])
       = Some ([[10, 11, 12, 13, 14]], w1)" by (auto simp del: receive_frames.simps)
  from lan_receive_run obtain w2 where
    r2: "receive_frames (LAN7800DeviceReceiveFrame net_no_driver net_locals lan_sample) [0x6000] (net_world 1581 [lan_transfer])
       = Some ([[10, 11, 12, 13, 14]], w2)" by (auto simp del: receive_frames.simps)
  have p: "sm_pEndpointBulkOut smsc_sample = Some 3" "la_pEndpointBulkOut lan_sample = Some 3"
    "sm_pEndpointBulkIn smsc_sample = Some 2" "la_pEndpointBulkIn lan_sample = Some 2"
    by (simp_all add: smsc_sample_def lan_sample_def)
  have v: "w_wire (net_world left data) = []" for left data by (simp add: net_world_def)
  from ethernet_receive_in_order[of net_no_driver smsc_sample, unfolded p, OF net_ready r1, of net_no_driver lan_sample,
      unfolded p, OF net_ready r2] r1 r2 v
  show ?thesis by auto
qed

text \<open>
  Claim C32.  Sending.  A frame that is too long for the transmit buffer is refused and nothing happens; any other frame is sent with
  one transfer that holds the header of the chip and the caller's bytes, and success is reported exactly if the transfer
  succeeded.  The length field of the header is the length of the frame.
\<close>

theorem ethernet_send:
  assumes "frame_ready drv (sm_pEndpointBulkOut s) w" and "SMSC951xDeviceSendFrame drv l s p n w = Some (ok, w1)"
    and "block p (unat n) \<inter> block (sm_pTxBuffer s) (unat n + 8) = {}"
    and "frame_ready drv (la_pEndpointBulkOut d) w" and "LAN7800DeviceSendFrame drv l d p n w = Some (ok', w2)"
    and "block p (unat n) \<inter> block (la_pTxBuffer d) (unat n + 8) = {}"
  shows "(if 1591 < unat n then \<not> ok \<and> w1 = w
      else word32 (take 4 (smsc_header n)) AND TX_CMD_A_BUF_SIZE = n
        \<and> (\<exists>r. w_wire w1 = w_wire w @ [WireOut (sm_pEndpointBulkOut s) (smsc_header n @ mem_read p (unat n) (w_mem w)) r]
              \<and> ok = (r \<ge> 0)))
     \<and> (if 1592 < unat n then \<not> ok' \<and> w2 = w
      else word32 (take 4 (lan_header n)) AND TX_CMD_A_LEN_MASK = n
        \<and> (\<exists>r. w_wire w2 = w_wire w @ [WireOut (la_pEndpointBulkOut d) (lan_header n @ mem_read p (unat n) (w_mem w)) r]
              \<and> ok' = (r \<ge> 0)))"
proof -
  have m: "TX_CMD_A_BUF_SIZE = mask 11" "TX_CMD_A_LEN_MASK = mask 20" "TX_CMD_A_FIRST_SEG = 2 ^ 13"
    "TX_CMD_A_LAST_SEG = 2 ^ 12" "TX_CMD_A_FCS = 2 ^ 22"
    by (simp_all add: TX_CMD_A_BUF_SIZE_def TX_CMD_A_LEN_MASK_def TX_CMD_A_FIRST_SEG_def TX_CMD_A_LAST_SEG_def
        TX_CMD_A_FCS_def mask_eq_exp_minus_1)
  have f: "(2 ^ j OR 2 ^ k OR x) AND mask i = x" "((x AND mask i) OR 2 ^ j) AND mask i = x"
    if "i \<le> j" "i \<le> k" "unat x < 2 ^ i" for i j k and x :: u32
    using that word_bit_bound[OF that(3)] by (auto intro!: bit_word_eqI simp: bit_simps)
  have h1: "word32 (take 4 (smsc_header n)) AND TX_CMD_A_BUF_SIZE = n" if "unat n \<le> 1591"
    using f(1)[of 11 13 12 n] that by (simp only: smsc_header_def m) (simp add: word32_bytes32)
  have h2: "word32 (take 4 (lan_header n)) AND TX_CMD_A_LEN_MASK = n" if "unat n \<le> 1592"
    using f(2)[of 20 22 22 n] that by (simp only: lan_header_def m) (simp add: word32_bytes32)
  show ?thesis
    using smsc.too_long[of n drv l s p w] smsc.sent[OF assms(1,2) _ assms(3)] assms(2) h1
      lan.too_long[of n drv l d p w] lan.sent[OF assms(4,5) _ assms(6)] assms(5) h2
    by (auto simp: not_less)
qed

theorem ethernet_send_witness:
  "\<exists>w1 w2 r r'. SMSC951xDeviceSendFrame net_no_driver net_locals smsc_sample 0x6000 3 (net_world 0 []) = Some (True, w1)
     \<and> w_wire w1 = [WireOut (Some 3) (smsc_header 3 @ [0, 0, 0]) r] \<and> r \<ge> 0
     \<and> LAN7800DeviceSendFrame net_no_driver net_locals lan_sample 0x6000 3 (net_world 0 []) = Some (True, w2)
     \<and> w_wire w2 = [WireOut (Some 3) (lan_header 3 @ [0, 0, 0]) r'] \<and> r' \<ge> 0"
proof -
  let ?w = "net_world 0 []"
  from smsc_send_run obtain w1 where r1: "SMSC951xDeviceSendFrame net_no_driver net_locals smsc_sample 0x6000 3 ?w = Some (True, w1)"
    by auto
  from lan_send_run obtain w2 where r2: "LAN7800DeviceSendFrame net_no_driver net_locals lan_sample 0x6000 3 ?w = Some (True, w2)"
    by auto
  have p: "sm_pEndpointBulkOut smsc_sample = Some 3" "la_pEndpointBulkOut lan_sample = Some 3"
    "sm_pTxBuffer smsc_sample = 0x8000" "la_pTxBuffer lan_sample = 0x8000"
    by (simp_all add: smsc_sample_def lan_sample_def)
  have v: "w_wire ?w = []" "mem_read 0x6000 3 (w_mem ?w) = [0, 0, 0]" by code_simp+
  have b: "block 0x6000 (unat (3 :: u32)) \<inter> block 0x8000 (unat (3 :: u32) + 8) = {}" by code_simp
  from ethernet_send[of net_no_driver smsc_sample ?w, unfolded p, OF net_ready r1 b, of lan_sample, unfolded p, OF net_ready r2 b]
    r1 r2 v show ?thesis by auto
qed

section \<open>The PHY\<close>

definition phy_read_accesses :: "u32 \<Rightarrow> u32 \<Rightarrow> u32 \<Rightarrow> (u32 \<Rightarrow> bool) \<Rightarrow> u16 \<Rightarrow> reg_access list \<Rightarrow> bool" where
  "phy_read_accesses aReg dReg cmd busy x as \<longleftrightarrow> (\<exists>es es' v. as = es @ [RegWrite (ucast aReg) cmd True] @ es' @ [RegRead (ucast dReg) (Some v)]
     \<and> polled aReg busy es \<and> polled aReg busy es' \<and> x = ucast v)"

definition phy_write_accesses :: "u32 \<Rightarrow> u32 \<Rightarrow> u32 \<Rightarrow> (u32 \<Rightarrow> bool) \<Rightarrow> u16 \<Rightarrow> reg_access list \<Rightarrow> bool" where
  "phy_write_accesses aReg dReg cmd busy x as \<longleftrightarrow> (\<exists>es es'. as = es @ [RegWrite (ucast dReg) (ucast x) True, RegWrite (ucast aReg) cmd True] @ es'
     \<and> polled aReg busy es \<and> polled aReg busy es')"

lemma phy_commands:
  assumes "i \<le> (31 :: u8)"
  shows "nMIIAddress i OR MII_BUSY = push_bit 6 (ucast i) OR 0x801"
    and "nMIIAddress i OR MII_WRITE OR MII_BUSY = push_bit 6 (ucast i) OR 0x803"
    and "nMIIAccess i (MII_ACC_MII_READ OR MII_ACC_MII_BUSY) = push_bit 6 (ucast i) OR 0x801"
    and "nMIIAccess i (MII_ACC_MII_WRITE OR MII_ACC_MII_BUSY) = push_bit 6 (ucast i) OR 0x803"
proof -
  have m: "0x7C0 = push_bit 6 (mask 5 :: u32)" by (simp add: mask_eq_exp_minus_1)
  have "unat i < 2 ^ 5" using assms by (simp add: word_le_nat_alt)
  from word_bit_bound[OF this] have a: "push_bit 6 (ucast i) AND 0x7C0 = (push_bit 6 (ucast i) :: u32)"
    unfolding m by (auto intro!: bit_word_eqI simp: bit_simps)
  have c: "(0x800 :: u32) OR x OR 1 = x OR 0x801" "(0x800 :: u32) OR x OR 3 = x OR 0x803" for x :: u32
  proof -
    have e: "(0x801 :: u32) = 0x800 OR 1" "(0x803 :: u32) = 0x800 OR 3" by simp_all
    show "(0x800 :: u32) OR x OR 1 = x OR 0x801" "(0x800 :: u32) OR x OR 3 = x OR 0x803"
      unfolding e by (simp_all only: or.left_commute)
  qed
  show "nMIIAddress i OR MII_BUSY = push_bit 6 (ucast i) OR 0x801"
    "nMIIAddress i OR MII_WRITE OR MII_BUSY = push_bit 6 (ucast i) OR 0x803"
    by (simp_all add: nMIIAddress_def PHY_ID_INTERNAL_def MII_BUSY_def MII_WRITE_def or.assoc c)
  show "nMIIAccess i (MII_ACC_MII_READ OR MII_ACC_MII_BUSY) = push_bit 6 (ucast i) OR 0x801"
    "nMIIAccess i (MII_ACC_MII_WRITE OR MII_ACC_MII_BUSY) = push_bit 6 (ucast i) OR 0x803"
    by (simp_all add: nMIIAccess_def MII_ACC_PHY_ADDR_SHIFT_def PHY_ADDRESS_def MII_ACC_PHY_ADDR_MASK_def
        MII_ACC_MIIRINDA_SHIFT_def MII_ACC_MIIRINDA_MASK_def MII_ACC_MII_READ_def MII_ACC_MII_WRITE_def MII_ACC_MII_BUSY_def
        a or.assoc c)
qed

lemma busy_bit: "(\<lambda>v. v AND MII_BUSY \<noteq> 0) = odd" "(\<lambda>v. v AND MII_ACC_MII_BUSY \<noteq> 0) = odd"
  by (simp_all add: fun_eq_iff MII_BUSY_def MII_ACC_MII_BUSY_def and_one_eq even_iff_mod_2_eq_zero odd_iff_mod_2_eq_one)

text \<open>
  A register of the PHY is read by this sequence of register accesses and no other: the access register is read until
  it is not busy, the read command with the register number is written to it, it is read again until it is not busy, and
  then the data register is read, whose low 16 bits are the result.  Writing puts the value into the data
  register before the command.  No wait looks more than 999 times.
\<close>

theorem phy_access:
  assumes "drv_keeps drv"
  shows "(case SMSC951xDevicePHYRead drv l s i w of
            Some (Some x, w') \<Rightarrow> \<exists>as. accesses w' = accesses w @ as \<and> phy_read_accesses 0x114 0x118 (push_bit 6 (ucast i) OR 0x801) odd x as
          | _ \<Rightarrow> True)
     \<and> (case SMSC951xDevicePHYWrite drv l s i y w of
            Some (True, w') \<Rightarrow> \<exists>as. accesses w' = accesses w @ as \<and> phy_write_accesses 0x114 0x118 (push_bit 6 (ucast i) OR 0x803) odd y as
          | _ \<Rightarrow> True)
     \<and> (case LAN7800DevicePHYRead drv l d i w of
            Some (Some x, w') \<Rightarrow> \<exists>as. accesses w' = accesses w @ as \<and> phy_read_accesses 0x120 0x124 (push_bit 6 (ucast i) OR 0x801) odd x as
          | _ \<Rightarrow> True)
     \<and> (case LAN7800DevicePHYWrite drv l d i y w of
            Some (True, w') \<Rightarrow> \<exists>as. accesses w' = accesses w @ as \<and> phy_write_accesses 0x120 0x124 (push_bit 6 (ucast i) OR 0x803) odd y as
          | _ \<Rightarrow> True)"
proof -
  have rd: "\<exists>as. accesses w' = accesses w @ as \<and> phy_read_accesses a b cmd again x as"
    if "phy_read (wait_reg (ms_delay 1) (eth_read_reg drv l f a) again n) (eth_write_reg drv l f) (eth_read_reg drv l f) a b cmd w
      = Some (Some x, w')" for a b cmd again n f x w'
    using port.phy_read_seen[OF assms that] unfolding phy_read_accesses_def by blast
  have wr: "\<exists>as. accesses w' = accesses w @ as \<and> phy_write_accesses a b cmd again y as"
    if "phy_write (wait_reg (ms_delay 1) (eth_read_reg drv l f a) again n) (eth_write_reg drv l f) a b cmd y w
      = Some (True, w')" for a b cmd again n f w'
    using port.phy_write_seen[OF assms that] unfolding phy_write_accesses_def by blast
  note smsc = SMSC951xDevicePHYWaitNotBusy_def SMSC951xDeviceReadReg_def SMSC951xDeviceWriteReg_def MII_ADDR_def MII_DATA_def busy_bit
  note lan = LAN7800DeviceWaitReg_def LAN7800DeviceReadReg_def LAN7800DeviceWriteReg_def MII_ACC_def lan_MII_DATA_def busy_bit
  have le: "i \<le> 31" if "i \<le> 30" using that by (simp add: word_le_nat_alt)
  show ?thesis
  proof (intro conjI)
    show "case SMSC951xDevicePHYRead drv l s i w of
            Some (Some x, w') \<Rightarrow> \<exists>as. accesses w' = accesses w @ as \<and> phy_read_accesses 0x114 0x118 (push_bit 6 (ucast i) OR 0x801) odd x as
          | _ \<Rightarrow> True"
      unfolding SMSC951xDevicePHYRead_def smsc
      by (auto split: option.splits prod.splits simp: phy_commands dest!: rd)
  next
    show "case SMSC951xDevicePHYWrite drv l s i y w of
            Some (True, w') \<Rightarrow> \<exists>as. accesses w' = accesses w @ as \<and> phy_write_accesses 0x114 0x118 (push_bit 6 (ucast i) OR 0x803) odd y as
          | _ \<Rightarrow> True"
      unfolding SMSC951xDevicePHYWrite_def smsc
      by (auto split: option.splits prod.splits bool.splits simp: phy_commands dest!: wr)
  next
    show "case LAN7800DevicePHYRead drv l d i w of
            Some (Some x, w') \<Rightarrow> \<exists>as. accesses w' = accesses w @ as \<and> phy_read_accesses 0x120 0x124 (push_bit 6 (ucast i) OR 0x801) odd x as
          | _ \<Rightarrow> True"
      unfolding LAN7800DevicePHYRead_def lan
      by (auto split: option.splits prod.splits simp: phy_commands[OF le] dest!: rd)
  next
    show "case LAN7800DevicePHYWrite drv l d i y w of
            Some (True, w') \<Rightarrow> \<exists>as. accesses w' = accesses w @ as \<and> phy_write_accesses 0x120 0x124 (push_bit 6 (ucast i) OR 0x803) odd y as
          | _ \<Rightarrow> True"
      unfolding LAN7800DevicePHYWrite_def lan
      by (auto split: option.splits prod.splits bool.splits simp: phy_commands[OF le] dest!: wr)
  qed
qed

theorem phy_access_witness:
  "case SMSC951xDevicePHYRead net_no_driver net_locals smsc_sample 1 (net_world 0 []) of
       Some (Some x, w') \<Rightarrow> \<exists>as. accesses w' = as \<and> phy_read_accesses 0x114 0x118 0x841 odd x as
     | _ \<Rightarrow> True"
proof -
  have a: "accesses (net_world 0 []) = []" by (simp add: accesses_def net_world_def)
  have c: "push_bit 6 (ucast (1 :: u8)) OR 0x801 = (0x841 :: u32)" by simp
  from conjunct1[OF phy_access[OF net_no_driver_keeps, where l = net_locals and s = smsc_sample and i = 1 and w = "net_world 0 []"]]
  show ?thesis unfolding a c append_Nil .
qed

end
