(* ===== verification/UspiLibrary.thy ===== *)
theory UspiLibrary
  imports Enumeration NetDrivers
begin

text \<open>
  The interface of the library to the kernel (\<^verbatim>\<open>lib/uspilibrary.c\<close>): initialisation, the table of the devices an
  application may use, and the calls that go to their drivers.

  The static \<^verbatim>\<open>s_pLibrary\<close> is an optional record.  Its \<^verbatim>\<open>NameService\<close> and \<^verbatim>\<open>DWHCI\<close> are the name service and the host
  of the world; the root port of the host is kept here.  A device is a pointer to a driver object; the objects are
  the functions of the devices on the bus, found by their address.
\<close>

unbundle bit_operations_syntax

section \<open>State\<close>

definition MAX_DEVICES :: nat where "MAX_DEVICES = 4"

record TUSPiLibrary =
  lb_RootPort :: TDWHCIRootPort
  lb_pUKBD1 :: "addr option"
  lb_pUMouse1 :: "addr option"
  lb_pUMSD :: "addr option list"
  lb_pEth0 :: "addr option"
  lb_pEth10 :: "addr option"
  lb_pUPAD :: "addr option list"
  lb_pMIDI1 :: "addr option"

section \<open>Driver objects\<close>

text \<open>Every object has an address below the next free one.\<close>

definition slots :: "TUSBDeviceParts \<Rightarrow> (addr \<times> usb_driver) list" where
  "slots d = List.map_filter id (dp_pFunction d)"

definition all_slots :: "'a enum_world_scheme \<Rightarrow> (addr \<times> usb_driver) list" where
  "all_slots w = concat (map (\<lambda>a. case w_parts w a of None \<Rightarrow> [] | Some d \<Rightarrow> slots d) [0..<w_next w])"

definition driver_at :: "'a enum_world_scheme \<Rightarrow> addr \<Rightarrow> usb_driver option" where
  "driver_at w p = map_of (all_slots w) p"

definition put_slot :: "addr \<Rightarrow> usb_driver \<Rightarrow> TUSBDeviceParts \<Rightarrow> TUSBDeviceParts" where
  "put_slot p f d = d\<lparr>dp_pFunction := map (map_option (\<lambda>(q, g). (q, if q = p then f else g))) (dp_pFunction d)\<rparr>"

definition put_driver :: "addr \<Rightarrow> usb_driver \<Rightarrow> 'a enum_world_scheme \<Rightarrow> 'a enum_world_scheme" where
  "put_driver p f w = w\<lparr>w_parts := (\<lambda>a. map_option (put_slot p f) (w_parts w a))\<rparr>"

definition keyboard_at :: "'a enum_world_scheme \<Rightarrow> addr \<Rightarrow> TUSBKeyboardDevice option" where
  "keyboard_at w p = (case driver_at w p of Some (KeyboardDriver d) \<Rightarrow> Some d | _ \<Rightarrow> None)"

definition mouse_at :: "'a enum_world_scheme \<Rightarrow> addr \<Rightarrow> TUSBMouseDevice option" where
  "mouse_at w p = (case driver_at w p of Some (MouseDriver d) \<Rightarrow> Some d | _ \<Rightarrow> None)"

definition mass_storage_at :: "'a enum_world_scheme \<Rightarrow> addr \<Rightarrow> TUSBBulkOnlyMassStorageDevice option" where
  "mass_storage_at w p = (case driver_at w p of Some (MassStorageDriver d) \<Rightarrow> Some d | _ \<Rightarrow> None)"

definition gamepad_at :: "'a enum_world_scheme \<Rightarrow> addr \<Rightarrow> TUSBGamePadDevice option" where
  "gamepad_at w p = (case driver_at w p of Some (GamePadDriver d) \<Rightarrow> Some d | _ \<Rightarrow> None)"

definition midi_at :: "'a enum_world_scheme \<Rightarrow> addr \<Rightarrow> TUSBMIDIDevice option" where
  "midi_at w p = (case driver_at w p of Some (MIDIDriver d) \<Rightarrow> Some d | _ \<Rightarrow> None)"

definition smsc951x_at :: "'a enum_world_scheme \<Rightarrow> addr \<Rightarrow> TSMSC951xDevice option" where
  "smsc951x_at w p = (case driver_at w p of Some (SMSC951xDriver d) \<Rightarrow> Some d | _ \<Rightarrow> None)"

definition lan7800_at :: "'a enum_world_scheme \<Rightarrow> addr \<Rightarrow> TLAN7800Device option" where
  "lan7800_at w p = (case driver_at w p of Some (LAN7800Driver d) \<Rightarrow> Some d | _ \<Rightarrow> None)"

section \<open>Initialisation\<close>

definition get_device :: "string \<Rightarrow> bool \<Rightarrow> 'a enum_world_scheme \<Rightarrow> addr option option" where
  "get_device pName bBlockDevice w = do {
     names \<leftarrow> DeviceNameServiceGet (w_names w);
     DeviceNameServiceGetDevice names (Some pName) bBlockDevice }"

definition get_numbered :: "string \<Rightarrow> bool \<Rightarrow> 'a enum_world_scheme \<Rightarrow> u32 \<Rightarrow> addr option option" where
  "get_numbered pFormat bBlockDevice w i = do {
     DeviceName \<leftarrow> StringFormat (w_malloc w) new_string pFormat [VaInt (i + 1)];
     pName \<leftarrow> StringGet DeviceName;
     get_device pName bBlockDevice w }"

fun get_table :: "(u32 \<Rightarrow> addr option option) \<Rightarrow> u32 list \<Rightarrow> addr option list option" where
  "get_table get [] = Some []"
| "get_table get (i # is) = do { p \<leftarrow> get i; ps \<leftarrow> get_table get is; Some (p # ps) }"

definition table_indices :: "u32 list" where
  "table_indices = map of_nat [0..<MAX_DEVICES]"

text \<open>
  \<open>mem\<close> is what the block from \<^verbatim>\<open>malloc\<close> holds where the stage data of the host will be.  The arguments \<open>bPowerOn\<close>, \<open>e\<close>
  and \<open>n\<close> are those of the host initialisation.
\<close>

definition USPiInitialize ::
    "bool \<Rightarrow> 'a enum_world_scheme driver_code \<Rightarrow> locals \<Rightarrow> host_env \<Rightarrow> nat \<Rightarrow> TDWHCITransferStageData list
     \<Rightarrow> TUSPiLibrary option \<Rightarrow> 'a enum_world_scheme \<Rightarrow> (int \<times> TUSPiLibrary option \<times> 'a enum_world_scheme) option" where
  "USPiInitialize bPowerOn drv l e n mem s_pLibrary w = do {
     c_assert (s_pLibrary = None);
     names \<leftarrow> DeviceNameService (w_names w);
     let w = w\<lparr>w_names := names, w_host := DWHCIDevice mem\<rparr>;
     (ok, rp, w) \<leftarrow> DWHCIDeviceInitialize bPowerOn drv l e n DWHCIRootPort w;
     if \<not> ok then do {
       (_, w) \<leftarrow> DWHCIDevice_dtor rp w;
       names \<leftarrow> w_names w;
       (_, names) \<leftarrow> DeviceNameService_dtor names;
       Some (0, None, w\<lparr>w_names := names\<rparr>) }
     else do {
       pUKBD1 \<leftarrow> get_device ''ukbd1'' False w;
       pUMouse1 \<leftarrow> get_device ''umouse1'' False w;
       pMIDI1 \<leftarrow> get_device ''umidi1'' False w;
       pUMSD \<leftarrow> get_table (get_numbered ''umsd%u'' True w) table_indices;
       pEth0 \<leftarrow> get_device ''eth0'' False w;
       pEth10 \<leftarrow> get_device ''eth10'' False w;
       pUPAD \<leftarrow> get_table (get_numbered ''upad%u'' False w) table_indices;
       Some (1, Some \<lparr>lb_RootPort = rp, lb_pUKBD1 = pUKBD1, lb_pUMouse1 = pUMouse1, lb_pUMSD = pUMSD, lb_pEth0 = pEth0,
                      lb_pEth10 = pEth10, lb_pUPAD = pUPAD, lb_pMIDI1 = pMIDI1\<rparr>, w) } }"

section \<open>Keyboard and mouse\<close>

definition USPiKeyboardAvailable :: "TUSPiLibrary option \<Rightarrow> bool option" where
  "USPiKeyboardAvailable s_pLibrary = do { lib \<leftarrow> s_pLibrary; Some (lb_pUKBD1 lib \<noteq> None) }"

text \<open>The calls that enter a handler in a driver differ in the driver's routine only.\<close>

definition with_keyboard ::
    "(TUSBKeyboardDevice \<Rightarrow> 'a enum_world_scheme \<Rightarrow> (TUSBKeyboardDevice \<times> 'a enum_world_scheme) option)
     \<Rightarrow> TUSPiLibrary option \<Rightarrow> 'a enum_world_scheme \<Rightarrow> 'a enum_world_scheme option" where
  "with_keyboard f s_pLibrary w = do {
     lib \<leftarrow> s_pLibrary;
     p \<leftarrow> lb_pUKBD1 lib;
     d \<leftarrow> keyboard_at w p;
     (d, w) \<leftarrow> f d w;
     Some (put_driver p (KeyboardDriver d) w) }"

definition USPiKeyboardRegisterKeyPressedHandler ::
    "TUSPiLibrary option \<Rightarrow> addr option \<Rightarrow> 'a enum_world_scheme \<Rightarrow> 'a enum_world_scheme option" where
  "USPiKeyboardRegisterKeyPressedHandler s_pLibrary h =
     with_keyboard (\<lambda>d w. map_option (\<lambda>d. (d, w)) (USBKeyboardDeviceRegisterKeyPressedHandler d h)) s_pLibrary"

definition USPiKeyboardRegisterShutdownHandler ::
    "TUSPiLibrary option \<Rightarrow> addr option \<Rightarrow> 'a enum_world_scheme \<Rightarrow> 'a enum_world_scheme option" where
  "USPiKeyboardRegisterShutdownHandler s_pLibrary h =
     with_keyboard (\<lambda>d w. map_option (\<lambda>d. (d, w)) (USBKeyboardDeviceRegisterShutdownHandler d h)) s_pLibrary"

definition USPiKeyboardUpdateLEDs ::
    "'a enum_world_scheme driver_code \<Rightarrow> locals \<Rightarrow> TUSPiLibrary option \<Rightarrow> 'a enum_world_scheme \<Rightarrow> 'a enum_world_scheme option" where
  "USPiKeyboardUpdateLEDs drv l s_pLibrary = with_keyboard (USBKeyboardDeviceUpdateLEDs drv l) s_pLibrary"

definition USPiKeyboardRegisterKeyStatusHandlerRaw ::
    "TUSPiLibrary option \<Rightarrow> addr option \<Rightarrow> 'a enum_world_scheme \<Rightarrow> 'a enum_world_scheme option" where
  "USPiKeyboardRegisterKeyStatusHandlerRaw s_pLibrary h =
     with_keyboard (\<lambda>d w. map_option (\<lambda>d. (d, w)) (USBKeyboardDeviceRegisterKeyStatusHandlerRaw d h)) s_pLibrary"

definition USPiKeyboardSetLEDs ::
    "'a enum_world_scheme driver_code \<Rightarrow> locals \<Rightarrow> TUSPiLibrary option \<Rightarrow> u8 \<Rightarrow> 'a enum_world_scheme \<Rightarrow> 'a enum_world_scheme option" where
  "USPiKeyboardSetLEDs drv l s_pLibrary ucLEDMask =
     with_keyboard (\<lambda>d w. map_option (\<lambda>w. (d, w)) (USBKeyboardDeviceSetLEDs drv l d ucLEDMask w)) s_pLibrary"

definition USPiMouseAvailable :: "TUSPiLibrary option \<Rightarrow> bool option" where
  "USPiMouseAvailable s_pLibrary = do { lib \<leftarrow> s_pLibrary; Some (lb_pUMouse1 lib \<noteq> None) }"

definition USPiMouseRegisterStatusHandler ::
    "TUSPiLibrary option \<Rightarrow> addr option \<Rightarrow> 'a enum_world_scheme \<Rightarrow> 'a enum_world_scheme option" where
  "USPiMouseRegisterStatusHandler s_pLibrary h w = do {
     lib \<leftarrow> s_pLibrary;
     p \<leftarrow> lb_pUMouse1 lib;
     d \<leftarrow> mouse_at w p;
     d \<leftarrow> USBMouseDeviceRegisterStatusHandler d h;
     Some (put_driver p (MouseDriver d) w) }"

section \<open>Mass storage\<close>

text \<open>The loops that count devices stop at the first free entry.\<close>

fun count_devices :: "addr option list \<Rightarrow> nat" where
  "count_devices [] = 0"
| "count_devices (p # ps) = (if p = None then 0 else Suc (count_devices ps))"

definition USPiMassStorageDeviceAvailable :: "TUSPiLibrary option \<Rightarrow> int option" where
  "USPiMassStorageDeviceAvailable s_pLibrary = do { lib \<leftarrow> s_pLibrary; Some (int (count_devices (lb_pUMSD lib))) }"

definition table_entry :: "addr option list \<Rightarrow> u32 \<Rightarrow> addr option" where
  "table_entry ps nDeviceIndex = (if unat nDeviceIndex \<ge> MAX_DEVICES then None else ps ! unat nDeviceIndex)"

definition USPiMassStorageDeviceRead ::
    "'a enum_world_scheme driver_code \<Rightarrow> locals \<Rightarrow> TUSPiLibrary option \<Rightarrow> u64 \<Rightarrow> uintptr \<Rightarrow> u32 \<Rightarrow> u32 \<Rightarrow> 'a enum_world_scheme
     \<Rightarrow> (int \<times> 'a enum_world_scheme) option" where
  "USPiMassStorageDeviceRead drv l s_pLibrary ullOffset pBuffer nCount nDeviceIndex w = do {
     lib \<leftarrow> s_pLibrary;
     (case table_entry (lb_pUMSD lib) nDeviceIndex of
        None \<Rightarrow> Some (-1, w)
      | Some p \<Rightarrow> do {
          d \<leftarrow> mass_storage_at w p;
          let (ullResult, d) = USBBulkOnlyMassStorageDeviceSeek d ullOffset;
          if ullResult \<noteq> ullOffset then Some (-1, put_driver p (MassStorageDriver d) w)
          else do {
            (nResult, d, w) \<leftarrow> USBBulkOnlyMassStorageDeviceRead drv l d pBuffer nCount w;
            Some (nResult, put_driver p (MassStorageDriver d) w) } }) }"

definition USPiMassStorageDeviceWrite ::
    "'a enum_world_scheme driver_code \<Rightarrow> locals \<Rightarrow> TUSPiLibrary option \<Rightarrow> u64 \<Rightarrow> uintptr \<Rightarrow> u32 \<Rightarrow> u32 \<Rightarrow> 'a enum_world_scheme
     \<Rightarrow> (int \<times> 'a enum_world_scheme) option" where
  "USPiMassStorageDeviceWrite drv l s_pLibrary ullOffset pBuffer nCount nDeviceIndex w = do {
     lib \<leftarrow> s_pLibrary;
     (case table_entry (lb_pUMSD lib) nDeviceIndex of
        None \<Rightarrow> Some (-1, w)
      | Some p \<Rightarrow> do {
          d \<leftarrow> mass_storage_at w p;
          let (ullResult, d) = USBBulkOnlyMassStorageDeviceSeek d ullOffset;
          if ullResult \<noteq> ullOffset then Some (-1, put_driver p (MassStorageDriver d) w)
          else do {
            (nResult, d, w) \<leftarrow> USBBulkOnlyMassStorageDeviceWrite drv l d pBuffer nCount w;
            Some (nResult, put_driver p (MassStorageDriver d) w) } }) }"

definition USPiMassStorageDeviceGetCapacity :: "TUSPiLibrary option \<Rightarrow> u32 \<Rightarrow> 'a enum_world_scheme \<Rightarrow> u32 option" where
  "USPiMassStorageDeviceGetCapacity s_pLibrary nDeviceIndex w = do {
     lib \<leftarrow> s_pLibrary;
     (case table_entry (lb_pUMSD lib) nDeviceIndex of
        None \<Rightarrow> Some 0
      | Some p \<Rightarrow> do { d \<leftarrow> mass_storage_at w p; Some (USBBulkOnlyMassStorageDeviceGetCapacity d) }) }"

section \<open>Ethernet\<close>

text \<open>The LAN7800 chip comes first; without it the SMSC951x chip must be there.\<close>

definition USPiEthernetAvailable :: "TUSPiLibrary option \<Rightarrow> bool option" where
  "USPiEthernetAvailable s_pLibrary = do { lib \<leftarrow> s_pLibrary; Some (lb_pEth0 lib \<noteq> None \<or> lb_pEth10 lib \<noteq> None) }"

definition ethernet_call :: "(TLAN7800Device \<Rightarrow> 'r option) \<Rightarrow> (TSMSC951xDevice \<Rightarrow> 'r option) \<Rightarrow> TUSPiLibrary option
     \<Rightarrow> 'a enum_world_scheme \<Rightarrow> 'r option" where
  "ethernet_call lan smsc s_pLibrary w = do {
     lib \<leftarrow> s_pLibrary;
     (case lb_pEth10 lib of
        Some p \<Rightarrow> do { d \<leftarrow> lan7800_at w p; lan d }
      | None \<Rightarrow> do { p \<leftarrow> lb_pEth0 lib; d \<leftarrow> smsc951x_at w p; smsc d }) }"

definition USPiGetMACAddress :: "TUSPiLibrary option \<Rightarrow> u8 list \<Rightarrow> 'a enum_world_scheme \<Rightarrow> u8 list option" where
  "USPiGetMACAddress s_pLibrary Buffer w = do {
     pMACAddress \<leftarrow> ethernet_call (\<lambda>d. Some (LAN7800DeviceGetMACAddress d)) (\<lambda>d. Some (SMSC951xDeviceGetMACAddress d)) s_pLibrary w;
     MACAddressCopyTo pMACAddress Buffer }"

definition USPiEthernetIsLinkUp ::
    "'a enum_world_scheme driver_code \<Rightarrow> locals \<Rightarrow> TUSPiLibrary option \<Rightarrow> 'a enum_world_scheme \<Rightarrow> (bool \<times> 'a enum_world_scheme) option" where
  "USPiEthernetIsLinkUp drv l s_pLibrary w =
     ethernet_call (\<lambda>d. LAN7800DeviceIsLinkUp drv l d w) (\<lambda>d. SMSC951xDeviceIsLinkUp drv l d w) s_pLibrary w"

definition USPiSendFrame ::
    "'a enum_world_scheme driver_code \<Rightarrow> locals \<Rightarrow> TUSPiLibrary option \<Rightarrow> uintptr \<Rightarrow> u32 \<Rightarrow> 'a enum_world_scheme
     \<Rightarrow> (bool \<times> 'a enum_world_scheme) option" where
  "USPiSendFrame drv l s_pLibrary pBuffer nLength w =
     ethernet_call (\<lambda>d. LAN7800DeviceSendFrame drv l d pBuffer nLength w) (\<lambda>d. SMSC951xDeviceSendFrame drv l d pBuffer nLength w)
       s_pLibrary w"

definition USPiReceiveFrame ::
    "'a enum_world_scheme driver_code \<Rightarrow> locals \<Rightarrow> TUSPiLibrary option \<Rightarrow> uintptr \<Rightarrow> 'a enum_world_scheme
     \<Rightarrow> (u32 option \<times> 'a enum_world_scheme) option" where
  "USPiReceiveFrame drv l s_pLibrary pBuffer w =
     ethernet_call (\<lambda>d. LAN7800DeviceReceiveFrame drv l d pBuffer w) (\<lambda>d. SMSC951xDeviceReceiveFrame drv l d pBuffer w)
       s_pLibrary w"

section \<open>Game pads and MIDI\<close>

definition USPiGamePadAvailable :: "TUSPiLibrary option \<Rightarrow> int option" where
  "USPiGamePadAvailable s_pLibrary = do { lib \<leftarrow> s_pLibrary; Some (int (count_devices (lb_pUPAD lib))) }"

fun register_pads :: "addr option \<Rightarrow> addr option list \<Rightarrow> 'a enum_world_scheme \<Rightarrow> 'a enum_world_scheme option" where
  "register_pads h [] w = Some w"
| "register_pads h (None # ps) w = register_pads h ps w"
| "register_pads h (Some p # ps) w = do {
     d \<leftarrow> gamepad_at w p;
     d \<leftarrow> USBGamePadDeviceRegisterStatusHandler d h;
     register_pads h ps (put_driver p (GamePadDriver d) w) }"

definition USPiGamePadRegisterStatusHandler ::
    "TUSPiLibrary option \<Rightarrow> addr option \<Rightarrow> 'a enum_world_scheme \<Rightarrow> 'a enum_world_scheme option" where
  "USPiGamePadRegisterStatusHandler s_pLibrary h w = do { lib \<leftarrow> s_pLibrary; register_pads h (lb_pUPAD lib) w }"

definition USPiGamePadGetStatus ::
    "'a enum_world_scheme driver_code \<Rightarrow> locals \<Rightarrow> TUSPiLibrary option \<Rightarrow> u32 \<Rightarrow> 'a enum_world_scheme
     \<Rightarrow> (USPiGamePadState option \<times> 'a enum_world_scheme) option" where
  "USPiGamePadGetStatus drv l s_pLibrary nDeviceIndex w = do {
     lib \<leftarrow> s_pLibrary;
     (case table_entry (lb_pUPAD lib) nDeviceIndex of
        None \<Rightarrow> Some (None, w)
      | Some p \<Rightarrow> do {
          d \<leftarrow> gamepad_at w p;
          (d, w) \<leftarrow> USBGamePadDeviceGetReport drv l d w;
          Some (Some (gp_State d), put_driver p (GamePadDriver d) w) }) }"

definition USPiMIDIAvailable :: "TUSPiLibrary option \<Rightarrow> bool option" where
  "USPiMIDIAvailable s_pLibrary = do { lib \<leftarrow> s_pLibrary; Some (lb_pMIDI1 lib \<noteq> None) }"

definition USPiMIDIRegisterPacketHandler ::
    "TUSPiLibrary option \<Rightarrow> addr option \<Rightarrow> 'a enum_world_scheme \<Rightarrow> 'a enum_world_scheme option" where
  "USPiMIDIRegisterPacketHandler s_pLibrary h w = do {
     lib \<leftarrow> s_pLibrary;
     p \<leftarrow> lb_pMIDI1 lib;
     d \<leftarrow> midi_at w p;
     d \<leftarrow> USBMIDIDeviceRegisterPacketHandler d h;
     Some (put_driver p (MIDIDriver d) w) }"

section \<open>Information about a device\<close>

record TUSPiDeviceInformation =
  inf_idVendor :: u16
  inf_idProduct :: u16
  inf_bcdDevice :: u16
  inf_pManufacturer :: string
  inf_pProduct :: string

definition KEYBOARD_CLASS :: u32 where "KEYBOARD_CLASS = 1"
definition MOUSE_CLASS :: u32 where "MOUSE_CLASS = 2"
definition STORAGE_CLASS :: u32 where "STORAGE_CLASS = 3"
definition ETHERNET_CLASS :: u32 where "ETHERNET_CLASS = 4"
definition GAMEPAD_CLASS :: u32 where "GAMEPAD_CLASS = 5"
definition MIDI_CLASS :: u32 where "MIDI_CLASS = 6"

definition information_function :: "TUSPiLibrary \<Rightarrow> u32 \<Rightarrow> u32 \<Rightarrow> addr option" where
  "information_function lib nClass nDeviceIndex =
     (if nClass = KEYBOARD_CLASS then if nDeviceIndex = 0 then lb_pUKBD1 lib else None
      else if nClass = MOUSE_CLASS then if nDeviceIndex = 0 then lb_pUMouse1 lib else None
      else if nClass = STORAGE_CLASS then table_entry (lb_pUMSD lib) nDeviceIndex
      else if nClass = ETHERNET_CLASS then
        if nDeviceIndex = 0 then if lb_pEth10 lib \<noteq> None then lb_pEth10 lib else lb_pEth0 lib else None
      else if nClass = GAMEPAD_CLASS then table_entry (lb_pUPAD lib) nDeviceIndex
      else if nClass = MIDI_CLASS then if nDeviceIndex = 0 then lb_pMIDI1 lib else None
      else None)"

definition bcdDevice :: "TUSBDeviceParts \<Rightarrow> mem \<Rightarrow> u16" where "bcdDevice d m = desc16 (dp_pDeviceDesc d) 12 m"

definition USPiDeviceGetInformation ::
    "TUSPiLibrary option \<Rightarrow> u32 \<Rightarrow> u32 \<Rightarrow> 'a enum_world_scheme \<Rightarrow> TUSPiDeviceInformation option option" where
  "USPiDeviceGetInformation s_pLibrary nClass nDeviceIndex w = do {
     lib \<leftarrow> s_pLibrary;
     (case information_function lib nClass nDeviceIndex of
        None \<Rightarrow> Some None
      | Some p \<Rightarrow> do {
          f \<leftarrow> driver_at w p;
          pUSBDevice \<leftarrow> USBFunctionGetDevice (driver_function f);
          d \<leftarrow> w_parts w pUSBDevice;
          _ \<leftarrow> USBDeviceGetDeviceDescriptor d;
          pManufacturer \<leftarrow> USBStringGet (dp_ManufacturerString d);
          pProduct \<leftarrow> USBStringGet (dp_ProductString d);
          Some (Some \<lparr>inf_idVendor = idVendor d (w_mem w), inf_idProduct = idProduct d (w_mem w),
                      inf_bcdDevice = bcdDevice d (w_mem w), inf_pManufacturer = pManufacturer, inf_pProduct = pProduct\<rparr>) }) }"

section \<open>Driver objects are a store\<close>

lemma slots_put: "slots (put_slot p f d) = map (\<lambda>(q, g). (q, if q = p then f else g)) (slots d)"
proof -
  have "List.map_filter id (map (map_option h) xs) = map h (List.map_filter id xs)" for h :: "addr \<times> usb_driver \<Rightarrow> addr \<times> usb_driver" and xs
    by (induction xs) (auto simp: map_filter_simps split: option.splits)
  then show ?thesis by (simp add: slots_def put_slot_def)
qed

lemma all_slots_put: "all_slots (put_driver p f w) = map (\<lambda>(q, g). (q, if q = p then f else g)) (all_slots w)"
proof -
  have "(case map_option (put_slot p f) x of None \<Rightarrow> [] | Some d \<Rightarrow> slots d)
      = map (\<lambda>(q, g). (q, if q = p then f else g)) (case x of None \<Rightarrow> [] | Some d \<Rightarrow> slots d)" for x
    by (cases x) (simp_all add: slots_put)
  then show ?thesis by (simp add: all_slots_def put_driver_def map_concat comp_def)
qed

lemma map_of_put: "map_of (map (\<lambda>(q, g). (q, if q = p then f else g)) xs) q
    = (if q = p then map_option (\<lambda>_. f) (map_of xs p) else map_of xs q)"
  by (induction xs) auto

lemma driver_at_put [simp]:
  "driver_at (put_driver p f w) q = (if q = p then map_option (\<lambda>_. f) (driver_at w p) else driver_at w q)"
  by (simp add: driver_at_def all_slots_put map_of_put)

lemma put_driver_frame [simp]:
  "w_names (put_driver p f w) = w_names w" "w_store (put_driver p f w) = w_store w" "w_mem (put_driver p f w) = w_mem w"
  "w_wire (put_driver p f w) = w_wire w" "w_host (put_driver p f w) = w_host w" "w_next (put_driver p f w) = w_next w"
  by (simp_all add: put_driver_def)

text \<open>Registering a handler for keys: the driver of the keyboard has it afterwards, and no other driver is touched.\<close>

lemma key_handler_registered:
  assumes "USPiKeyboardRegisterKeyPressedHandler s h w = Some w'"
  shows "\<exists>lib p d. s = Some lib \<and> lb_pUKBD1 lib = Some p \<and> keyboard_at w p = Some d \<and> h \<noteq> None
    \<and> keyboard_at w' p = Some (d\<lparr>kb_pKeyPressedHandler := h\<rparr>) \<and> (\<forall>q. q \<noteq> p \<longrightarrow> driver_at w' q = driver_at w q)"
proof -
  from assms obtain lib p d d' where s: "s = Some lib" "lb_pUKBD1 lib = Some p" and d: "keyboard_at w p = Some d"
    and d': "USBKeyboardDeviceRegisterKeyPressedHandler d h = Some d'" and w': "w' = put_driver p (KeyboardDriver d') w"
    by (auto simp: USPiKeyboardRegisterKeyPressedHandler_def with_keyboard_def bind_Some_iff)
  from d have "driver_at w p = Some (KeyboardDriver d)"
    by (auto simp: keyboard_at_def split: option.splits usb_driver.splits)
  then have "keyboard_at w' p = Some d'" "\<forall>q. q \<noteq> p \<longrightarrow> driver_at w' q = driver_at w q"
    by (simp_all add: w' keyboard_at_def)
  with s d d' show ?thesis by (auto simp: USBKeyboardDeviceRegisterKeyPressedHandler_def bind_Some_iff c_assert_def split: if_splits)
qed

section \<open>The tables are those of the name service\<close>

lemma upad_name: "format_ref ''upad%u'' [VaInt n] = Some (''upad'' @ decimal n)"
  using decimal_ok[of n]
  by (simp add: parse_spec_def skip_if_def is_digit_def arg_ref_def number_ref_def va_unsigned_def pad_ref_def)

lemma get_numbered_eq:
  assumes m: "malloc_ok (w_malloc w)" and f: "format_ref fmt [VaInt (i + 1)] = Some t" "NUL \<notin> set t" "length t + 1 < 2 ^ 62"
    and names: "w_names w = Some ns"
  shows "get_numbered fmt b w i = names_find ns t b"
proof -
  from StringFormatV_ok[OF m f, of new_string] obtain s where
    "StringFormat (w_malloc w) new_string fmt [VaInt (i + 1)] = Some s" "StringGet s = Some t" by (auto simp: StringFormat_def)
  then show ?thesis by (simp add: get_numbered_def get_device_def DeviceNameServiceGet_def names_find_def names)
qed

lemma get_table_nth: "get_table get is = Some ps \<Longrightarrow> length ps = length is \<and> (\<forall>k < length is. get (is ! k) = Some (ps ! k))"
proof (induction "is" arbitrary: ps)
  case (Cons i "is")
  from Cons.prems obtain p ps' where "get i = Some p" "get_table get is = Some ps'" "ps = p # ps'" by (auto simp: bind_Some_iff)
  with Cons.IH[of ps'] show ?case by (auto simp: nth_Cons split: nat.splits)
qed simp

lemma numbered_table:
  assumes t: "get_table (get_numbered fmt b w) table_indices = Some ps" and m: "malloc_ok (w_malloc w)" and names: "w_names w = Some ns"
    and f: "\<And>n. format_ref fmt [VaInt n] = Some (pre @ decimal n)" and pre: "NUL \<notin> set pre" "length pre \<le> 20"
  shows "length ps = MAX_DEVICES \<and> (\<forall>k < MAX_DEVICES. names_find ns (pre @ decimal (of_nat (k + 1))) b = Some (ps ! k))"
proof -
  have g: "get_numbered fmt b w i = names_find ns (pre @ decimal (i + 1)) b" for i
    using decimal_ok[of "i + 1"] pre by (intro get_numbered_eq[OF m f _ _ names]) auto
  from get_table_nth[OF t] show ?thesis by (auto simp: table_indices_def g add.commute)
qed

lemma count_devices_spec:
  "count_devices ps \<le> length ps \<and> (\<forall>k < count_devices ps. ps ! k \<noteq> None) \<and> (count_devices ps < length ps \<longrightarrow> ps ! count_devices ps = None)"
proof (induction ps)
  case (Cons p ps)
  then show ?case by (auto simp: nth_Cons split: nat.splits)
qed simp

text \<open>
  What the initialised library holds: each entry is the answer of the name service to the name of the device, and
  the numbers of mass storage devices and game pads count the names \<^verbatim>\<open>umsd1\<close>, \<^verbatim>\<open>umsd2\<close>, \<dots> up to the first that is free.
\<close>

definition library_ok :: "TDeviceNameService \<Rightarrow> TUSPiLibrary \<Rightarrow> bool" where
  "library_ok ns lib \<longleftrightarrow> names_find ns ''ukbd1'' False = Some (lb_pUKBD1 lib) \<and> names_find ns ''umouse1'' False = Some (lb_pUMouse1 lib)
     \<and> names_find ns ''umidi1'' False = Some (lb_pMIDI1 lib) \<and> names_find ns ''eth0'' False = Some (lb_pEth0 lib)
     \<and> names_find ns ''eth10'' False = Some (lb_pEth10 lib)
     \<and> length (lb_pUMSD lib) = MAX_DEVICES \<and> length (lb_pUPAD lib) = MAX_DEVICES
     \<and> (\<forall>k < MAX_DEVICES. names_find ns (''umsd'' @ decimal (of_nat (k + 1))) True = Some (lb_pUMSD lib ! k)
          \<and> names_find ns (''upad'' @ decimal (of_nat (k + 1))) False = Some (lb_pUPAD lib ! k))"

text \<open>How many of the names \<open>pre1\<close>, \<open>pre2\<close>, \<dots> are registered in a row, at most as many as the tables hold.\<close>

definition names_in_row :: "TDeviceNameService \<Rightarrow> string \<Rightarrow> bool \<Rightarrow> nat \<Rightarrow> bool" where
  "names_in_row ns pre b k \<longleftrightarrow> k \<le> MAX_DEVICES
     \<and> (\<forall>i < k. \<exists>p. names_find ns (pre @ decimal (of_nat (i + 1))) b = Some (Some p))
     \<and> (k < MAX_DEVICES \<longrightarrow> names_find ns (pre @ decimal (of_nat (k + 1))) b = Some None)"

lemma count_in_row:
  assumes "length ps = MAX_DEVICES" and "\<forall>k < MAX_DEVICES. names_find ns (pre @ decimal (of_nat (k + 1))) b = Some (ps ! k)"
  shows "names_in_row ns pre b (count_devices ps)"
  using assms count_devices_spec[of ps] by (auto simp: names_in_row_def)

text \<open>
  Claim C35. Initialising the library.  When it returns 0 then no library is left and the name service is gone.
  Otherwise it returns 1 and the library offers exactly the devices that the drivers have registered: every entry is what
  the name service gives for the name, and the numbers of mass storage devices and of game pads are how many of the names
  \<^verbatim>\<open>umsd1\<close>, \<^verbatim>\<open>umsd2\<close>, \<dots> and \<^verbatim>\<open>upad1\<close>, \<^verbatim>\<open>upad2\<close>, \<dots> are registered in a row, at most as many as the tables have entries.
\<close>

theorem library_tables:
  assumes run: "USPiInitialize bPowerOn drv l e n mem s w = Some (r, s', w')" and m: "malloc_ok (w_malloc w')"
  shows "(r = 0 \<and> s' = None \<and> w_names w' = None)
    \<or> (r = 1 \<and> (\<exists>lib ns k j. s' = Some lib \<and> w_names w' = Some ns \<and> library_ok ns lib
         \<and> USPiMassStorageDeviceAvailable s' = Some (int k) \<and> names_in_row ns ''umsd'' True k
         \<and> USPiGamePadAvailable s' = Some (int j) \<and> names_in_row ns ''upad'' False j))"
proof (cases "r = 1")
  case False
  with run show ?thesis
    by (auto simp: USPiInitialize_def bind_Some_iff Let_def DeviceNameService_dtor_def split: if_splits)
next
  case True
  with run obtain rp k1 mo mi ms e0 e10 up where
    t: "get_device ''ukbd1'' False w' = Some k1" "get_device ''umouse1'' False w' = Some mo" "get_device ''umidi1'' False w' = Some mi"
      "get_table (get_numbered ''umsd%u'' True w') table_indices = Some ms" "get_device ''eth0'' False w' = Some e0"
      "get_device ''eth10'' False w' = Some e10" "get_table (get_numbered ''upad%u'' False w') table_indices = Some up"
    and s': "s' = Some \<lparr>lb_RootPort = rp, lb_pUKBD1 = k1, lb_pUMouse1 = mo, lb_pUMSD = ms, lb_pEth0 = e0, lb_pEth10 = e10,
               lb_pUPAD = up, lb_pMIDI1 = mi\<rparr>"
    by (auto simp: USPiInitialize_def bind_Some_iff Let_def split: if_splits)
  from t(1) obtain ns where ns: "w_names w' = Some ns" by (auto simp: get_device_def DeviceNameServiceGet_def bind_Some_iff)
  have g: "names_find ns nm b = Some x" if "get_device nm b w' = Some x" for nm b x
    using that ns by (simp add: get_device_def DeviceNameServiceGet_def names_find_def)
  have tab: "length ms = MAX_DEVICES \<and> (\<forall>k < MAX_DEVICES. names_find ns (''umsd'' @ decimal (of_nat (k + 1))) True = Some (ms ! k))"
    "length up = MAX_DEVICES \<and> (\<forall>k < MAX_DEVICES. names_find ns (''upad'' @ decimal (of_nat (k + 1))) False = Some (up ! k))"
    using numbered_table[OF t(4) m ns umsd_name] numbered_table[OF t(7) m ns upad_name] by simp_all
  then have ok: "library_ok ns (the s')"
    using g[OF t(1)] g[OF t(2)] g[OF t(3)] g[OF t(5)] g[OF t(6)] by (simp add: library_ok_def s')
  from tab count_in_row[of ms ns "''umsd''" True] count_in_row[of up ns "''upad''" False]
  have "names_in_row ns ''umsd'' True (count_devices ms)" "names_in_row ns ''upad'' False (count_devices up)" by simp_all
  with ok show ?thesis using True s' ns
    by (auto simp: USPiMassStorageDeviceAvailable_def USPiGamePadAvailable_def)
qed

theorem library_tables_witness:
  "\<exists>lib w'. USPiInitialize True two_driver enum_locals two_env 3 [] None (two_world\<lparr>w_names := None\<rparr>) = Some (1, Some lib, w')
     \<and> w_names w' = Some \<lparr>dns_pList = []\<rparr> \<and> library_ok \<lparr>dns_pList = []\<rparr> lib \<and> USPiMassStorageDeviceAvailable (Some lib) = Some 0"
proof -
  let ?w = "two_world\<lparr>w_names := Some \<lparr>dns_pList = []\<rparr>, w_host := DWHCIDevice []\<rparr>"
  from start_io_run obtain d io where "empty_start (DWHCIDevice []) start_io = Some (d, io)" by auto
  then have i: "DWHCIDeviceInitialize True two_driver enum_locals two_env 3 DWHCIRootPort ?w
      = Some (True, DWHCIRootPort, ?w\<lparr>w_host := d, w_io := io\<rparr>)"
    by (intro empty_start_run) (simp add: two_world_def)
  let ?w1 = "two_world\<lparr>w_names := Some \<lparr>dns_pList = []\<rparr>, w_host := d, w_io := io\<rparr>"
  have g: "get_device nm b ?w1 = Some None" for nm b
    by (simp add: get_device_def DeviceNameServiceGet_def DeviceNameServiceGetDevice_def)
  have m: "malloc_ok (w_malloc ?w1)" by (simp add: malloc_ok_def two_world_def)
  have nf: "names_find \<lparr>dns_pList = []\<rparr> t b = Some None" for t b
    by (simp add: names_find_def DeviceNameServiceGetDevice_def)
  have n: "get_numbered ''umsd%u'' True ?w1 k = Some None" "get_numbered ''upad%u'' False ?w1 k = Some None" for k
    using get_numbered_eq[OF m umsd_name, of k "\<lparr>dns_pList = []\<rparr>"] get_numbered_eq[OF m upad_name, of k "\<lparr>dns_pList = []\<rparr>"]
      decimal_ok[of "k + 1"] nf by auto
  have tab: "get_table (get_numbered ''umsd%u'' True ?w1) is = Some (replicate (length is) None)"
    "get_table (get_numbered ''upad%u'' False ?w1) is = Some (replicate (length is) None)" for "is"
    by (induction "is") (simp_all add: n)
  have run: "\<exists>lib. USPiInitialize True two_driver enum_locals two_env 3 [] None (two_world\<lparr>w_names := None\<rparr>) = Some (1, Some lib, ?w1)"
    using i by (simp add: USPiInitialize_def DeviceNameService_def g tab)
  then obtain lib where r: "USPiInitialize True two_driver enum_locals two_env 3 [] None (two_world\<lparr>w_names := None\<rparr>) = Some (1, Some lib, ?w1)" ..
  from library_tables[OF r m] show ?thesis using r nf by (auto simp: names_in_row_def MAX_DEVICES_def; metis gr0I)
qed

end
