(* ===== verification/Firmware.thy ===== *)
theory Firmware
  imports MassProtocol
begin

text \<open>
  Talking to the firmware of the graphics processor: the mailbox (\<^verbatim>\<open>env/lib/bcmmailbox.c\<close>), property tags
  (\<^verbatim>\<open>env/lib/bcmpropertytags.c\<close>), the frame buffer (\<^verbatim>\<open>env/lib/bcmframebuffer.c\<close>) and the two services of the environment built on them (\<^verbatim>\<open>env/lib/uspibind.c\<close>): switching on
  the power of the USB controller and reading the MAC address of the board.

  The firmware is not in the repository.  What the status and data registers read is the oracle of \<^verbatim>\<open>Mmio\<close>; what the firmware does
  to the memory when a message arrives is the function \<open>fw_gpu\<close> of the world.
\<close>

unbundle bit_operations_syntax

section \<open>The mailbox\<close>

record fw_world =
  fw_io :: mmio
  fw_mem :: mem
  fw_gpu :: "u32 \<Rightarrow> mem \<Rightarrow> mem"

definition MAILBOX_BASE :: uintptr where "MAILBOX_BASE = 0x3F00B880"
definition MAILBOX0_READ :: uintptr where "MAILBOX0_READ = MAILBOX_BASE + 0x00"
definition MAILBOX0_STATUS :: uintptr where "MAILBOX0_STATUS = MAILBOX_BASE + 0x18"
definition MAILBOX_STATUS_EMPTY :: u32 where "MAILBOX_STATUS_EMPTY = 0x40000000"
definition MAILBOX1_WRITE :: uintptr where "MAILBOX1_WRITE = MAILBOX_BASE + 0x20"
definition MAILBOX1_STATUS :: uintptr where "MAILBOX1_STATUS = MAILBOX_BASE + 0x38"
definition MAILBOX_STATUS_FULL :: u32 where "MAILBOX_STATUS_FULL = 0x80000000"
definition MAILBOX_CHANNEL_FB :: u32 where "MAILBOX_CHANNEL_FB = 1"
definition BCM_MAILBOX_PROP_OUT :: u32 where "BCM_MAILBOX_PROP_OUT = 8"

record TBcmMailBox =
  mb_nChannel :: u32

definition BcmMailBox :: "u32 \<Rightarrow> TBcmMailBox" where
  "BcmMailBox nChannel = \<lparr>mb_nChannel = nChannel\<rparr>"

text \<open>The loops wait for the firmware; nothing bounds them, so that not returning is \<open>None\<close>.\<close>

partial_function (option) flush_loop :: "mmio \<Rightarrow> mmio option" where
  [code]: "flush_loop io =
     (let (nStatus, io) = mmio_read MAILBOX0_STATUS io
      in if nStatus AND MAILBOX_STATUS_EMPTY = 0
         then let (_, io) = mmio_read MAILBOX0_READ io in flush_loop (msDelay 20 io)
         else Some io)"

definition BcmMailBoxFlush :: "TBcmMailBox \<Rightarrow> mmio \<Rightarrow> mmio option" where
  "BcmMailBoxFlush pThis io = flush_loop io"

partial_function (option) wait_loop :: "uintptr \<Rightarrow> u32 \<Rightarrow> mmio \<Rightarrow> mmio option" where
  [code]: "wait_loop nAddress nMask io =
     (let (nStatus, io) = mmio_read nAddress io
      in if nStatus AND nMask \<noteq> 0 then wait_loop nAddress nMask io else Some io)"

partial_function (option) read_loop :: "u32 \<Rightarrow> mmio \<Rightarrow> (u32 \<times> mmio) option" where
  [code]: "read_loop nChannel io = do {
     io \<leftarrow> wait_loop MAILBOX0_STATUS MAILBOX_STATUS_EMPTY io;
     let (nResult, io) = mmio_read MAILBOX0_READ io;
     if nResult AND 0xF \<noteq> nChannel then read_loop nChannel io else Some (nResult, io) }"

definition BcmMailBoxRead :: "TBcmMailBox \<Rightarrow> mmio \<Rightarrow> (u32 \<times> mmio) option" where
  "BcmMailBoxRead pThis io = do {
     (nResult, io) \<leftarrow> read_loop (mb_nChannel pThis) io;
     Some (nResult AND NOT 0xF, io) }"

definition BcmMailBoxWrite :: "TBcmMailBox \<Rightarrow> u32 \<Rightarrow> mmio \<Rightarrow> mmio option" where
  "BcmMailBoxWrite pThis nData io = do {
     io \<leftarrow> wait_loop MAILBOX1_STATUS MAILBOX_STATUS_FULL io;
     c_assert (nData AND 0xF = 0);
     Some (io_emit (MmioWrite MAILBOX1_WRITE (mb_nChannel pThis OR nData)) io) }"

definition BcmMailBoxWriteRead :: "TBcmMailBox \<Rightarrow> u32 \<Rightarrow> 'a fw_world_scheme \<Rightarrow> (u32 \<times> 'a fw_world_scheme) option" where
  "BcmMailBoxWriteRead pThis nData w = do {
     io \<leftarrow> BcmMailBoxFlush pThis (fw_io w);
     io \<leftarrow> BcmMailBoxWrite pThis nData io;
     let m = fw_gpu w (mb_nChannel pThis OR nData) (fw_mem w);
     (nResult, io) \<leftarrow> BcmMailBoxRead pThis io;
     Some (nResult, w\<lparr>fw_io := io, fw_mem := m\<rparr>) }"

section \<open>Property tags\<close>

definition MEM_COHERENT_REGION :: uintptr where "MEM_COHERENT_REGION = 0x400000"
definition CODE_REQUEST :: u32 where "CODE_REQUEST = 0"
definition CODE_RESPONSE_SUCCESS :: u32 where "CODE_RESPONSE_SUCCESS = 0x80000000"
definition PROPTAG_END :: u32 where "PROPTAG_END = 0"
definition PROPTAG_GET_MAC_ADDRESS :: u32 where "PROPTAG_GET_MAC_ADDRESS = 0x00010003"
definition PROPTAG_SET_POWER_STATE :: u32 where "PROPTAG_SET_POWER_STATE = 0x00028001"
definition PROPTAG_GET_DISPLAY_DIMENSIONS :: u32 where "PROPTAG_GET_DISPLAY_DIMENSIONS = 0x00040003"
definition VALUE_LENGTH_RESPONSE :: u32 where "VALUE_LENGTH_RESPONSE = push_bit 31 1"
definition sizeof_TPropertyBuffer :: u32 where "sizeof_TPropertyBuffer = 8"
definition sizeof_TPropertyTag :: u32 where "sizeof_TPropertyTag = 12"
definition sizeof_TPropertyTagSimple :: u32 where "sizeof_TPropertyTagSimple = 16"

record TBcmPropertyTags =
  pt_MailBox :: TBcmMailBox

definition BcmPropertyTags :: TBcmPropertyTags where
  "BcmPropertyTags = \<lparr>pt_MailBox = BcmMailBox BCM_MAILBOX_PROP_OUT\<rparr>"

text \<open>The buffer of a request: size, code, the tag with its header filled in, and the end tag.\<close>

definition put32 :: "uintptr \<Rightarrow> u32 \<Rightarrow> mem \<Rightarrow> mem" where
  "put32 p v m = mem_write p (bytes32 v) m"

definition get32 :: "uintptr \<Rightarrow> mem \<Rightarrow> u32" where
  "get32 p m = word32 (mem_read p 4 m)"

definition fill_request :: "u32 \<Rightarrow> u8 list \<Rightarrow> u32 \<Rightarrow> mem \<Rightarrow> mem" where
  "fill_request nTagId pTag nRequestParmSize m =
     (let nTagSize = of_nat (length pTag);
          pBuffer = MEM_COHERENT_REGION;
          m = put32 pBuffer (sizeof_TPropertyBuffer + nTagSize + 4) m;
          m = put32 (pBuffer + 4) CODE_REQUEST m;
          m = mem_write (pBuffer + 8) pTag m;
          m = put32 (pBuffer + 8) nTagId m;
          m = put32 (pBuffer + 12) (nTagSize - sizeof_TPropertyTag) m;
          m = put32 (pBuffer + 16) (nRequestParmSize AND NOT VALUE_LENGTH_RESPONSE) m
      in put32 (pBuffer + 8 + of_nat (length pTag)) PROPTAG_END m)"

text \<open>The tag structure of the caller is the list of its bytes, before and after.\<close>

definition BcmPropertyTagsGetTag ::
    "TBcmPropertyTags \<Rightarrow> u32 \<Rightarrow> u8 list \<Rightarrow> u32 \<Rightarrow> 'a fw_world_scheme \<Rightarrow> (bool \<times> u8 list \<times> 'a fw_world_scheme) option" where
  "BcmPropertyTagsGetTag pThis nTagId pTag nRequestParmSize w = do {
     let nTagSize = of_nat (length pTag);
     c_assert (nTagSize \<ge> sizeof_TPropertyTagSimple);
     c_assert ((sizeof_TPropertyBuffer + nTagSize + 4) AND 3 = 0);
     let w = w\<lparr>fw_mem := fill_request nTagId pTag nRequestParmSize (fw_mem w)\<rparr>;
     let nBufferAddress = BUS_ADDRESS (ucast MEM_COHERENT_REGION);
     (nResult, w) \<leftarrow> BcmMailBoxWriteRead (pt_MailBox pThis) nBufferAddress w;
     if nResult \<noteq> nBufferAddress then Some (False, pTag, w)
     else if get32 (MEM_COHERENT_REGION + 4) (fw_mem w) \<noteq> CODE_RESPONSE_SUCCESS then Some (False, pTag, w)
     else do {
       let nValueLength = get32 (MEM_COHERENT_REGION + 16) (fw_mem w);
       if nValueLength AND VALUE_LENGTH_RESPONSE = 0 then Some (False, pTag, w)
       else do {
         let nValueLength = nValueLength AND NOT VALUE_LENGTH_RESPONSE;
         let w = w\<lparr>fw_mem := put32 (MEM_COHERENT_REGION + 16) nValueLength (fw_mem w)\<rparr>;
         if nValueLength = 0 then Some (False, pTag, w)
         else Some (True, mem_read (MEM_COHERENT_REGION + 8) (length pTag) (fw_mem w), w) } } }"

section \<open>Services of the environment\<close>

definition POWER_STATE_ON :: u32 where "POWER_STATE_ON = 1"
definition POWER_STATE_WAIT :: u32 where "POWER_STATE_WAIT = 2"
definition POWER_STATE_NO_DEVICE :: u32 where "POWER_STATE_NO_DEVICE = 2"

text \<open>\<open>hdr\<close> is what the stack holds in the header of the tag: twelve bytes that are not initialised.\<close>

definition SetPowerStateOn :: "u8 list \<Rightarrow> u32 \<Rightarrow> 'a fw_world_scheme \<Rightarrow> (bool \<times> 'a fw_world_scheme) option" where
  "SetPowerStateOn hdr nDeviceId w = do {
     let PowerState = hdr @ bytes32 nDeviceId @ bytes32 (POWER_STATE_ON OR POWER_STATE_WAIT);
     (ok, PowerState, w) \<leftarrow> BcmPropertyTagsGetTag BcmPropertyTags PROPTAG_SET_POWER_STATE PowerState 8 w;
     let nState = word32 (take 4 (drop 16 PowerState));
     Some (ok \<and> nState AND POWER_STATE_NO_DEVICE = 0 \<and> nState AND POWER_STATE_ON \<noteq> 0, w) }"

text \<open>The result is the six bytes written to the caller's buffer, if any.\<close>

definition fw_GetMACAddress :: "u8 list \<Rightarrow> u8 list \<Rightarrow> 'a fw_world_scheme \<Rightarrow> (u8 list option \<times> 'a fw_world_scheme) option" where
  "fw_GetMACAddress hdr val w = do {
     (ok, MACAddress, w) \<leftarrow> BcmPropertyTagsGetTag BcmPropertyTags PROPTAG_GET_MAC_ADDRESS (hdr @ val) 0 w;
     Some (if ok then Some (take 6 (drop 12 MACAddress)) else None, w) }"

section \<open>The frame buffer\<close>

text \<open>
  The information block of \<^verbatim>\<open>env/lib/bcmframebuffer.c\<close> is shared with the firmware: ten words and a palette in memory, at the
  address that \<^verbatim>\<open>malloc\<close> gave.
\<close>

definition PALETTE_ENTRIES :: nat where "PALETTE_ENTRIES = 256"

record TBcmFrameBuffer =
  fb_pInfo :: uintptr
  fb_MailBox :: TBcmMailBox

definition info_field :: "uintptr \<Rightarrow> nat \<Rightarrow> uintptr" where
  "info_field pInfo k = pInfo + of_nat (4 * k)"

definition info_words :: "u32 \<Rightarrow> u32 \<Rightarrow> u32 \<Rightarrow> u32 list" where
  "info_words nWidth nHeight nDepth = [nWidth, nHeight, nWidth, nHeight, 0, nDepth, 0, 0, 0, 0]"

definition display_size :: "u8 list \<Rightarrow> 'a fw_world_scheme \<Rightarrow> (u32 \<times> u32 \<times> 'a fw_world_scheme) option" where
  "display_size tag w = do {
     (ok, Dimensions, w) \<leftarrow> BcmPropertyTagsGetTag BcmPropertyTags PROPTAG_GET_DISPLAY_DIMENSIONS tag 0 w;
     let nWidth = word32 (take 4 (drop 12 Dimensions));
     let nHeight = word32 (take 4 (drop 16 Dimensions));
     Some (if \<not> ok \<or> nWidth < 640 \<or> nWidth > 1920 \<or> nHeight < 480 \<or> nHeight > 1080 then (640, 480, w) else (nWidth, nHeight, w)) }"

definition BcmFrameBuffer ::
    "u8 list \<Rightarrow> uintptr \<Rightarrow> u32 \<Rightarrow> u32 \<Rightarrow> u32 \<Rightarrow> 'a fw_world_scheme \<Rightarrow> (TBcmFrameBuffer \<times> 'a fw_world_scheme) option" where
  "BcmFrameBuffer tag pInfo nWidth nHeight nDepth w = do {
     (nWidth, nHeight, w) \<leftarrow> (if nWidth = 0 \<or> nHeight = 0 then display_size tag w else Some (nWidth, nHeight, w));
     let m = (if nDepth = 8 then mem_write (pInfo + 40) (replicate (2 * PALETTE_ENTRIES) 0) (fw_mem w) else fw_mem w);
     let m = mem_write pInfo (concat (map bytes32 (info_words nWidth nHeight nDepth))) m;
     Some (\<lparr>fb_pInfo = pInfo, fb_MailBox = BcmMailBox MAILBOX_CHANNEL_FB\<rparr>, w\<lparr>fw_mem := m\<rparr>) }"

definition BcmFrameBufferGetWidth :: "TBcmFrameBuffer \<Rightarrow> mem \<Rightarrow> u32" where
  "BcmFrameBufferGetWidth pThis m = get32 (info_field (fb_pInfo pThis) 0) m"

definition BcmFrameBufferGetHeight :: "TBcmFrameBuffer \<Rightarrow> mem \<Rightarrow> u32" where
  "BcmFrameBufferGetHeight pThis m = get32 (info_field (fb_pInfo pThis) 1) m"

definition BcmFrameBufferGetPitch :: "TBcmFrameBuffer \<Rightarrow> mem \<Rightarrow> u32" where
  "BcmFrameBufferGetPitch pThis m = get32 (info_field (fb_pInfo pThis) 4) m"

definition BcmFrameBufferGetDepth :: "TBcmFrameBuffer \<Rightarrow> mem \<Rightarrow> u32" where
  "BcmFrameBufferGetDepth pThis m = get32 (info_field (fb_pInfo pThis) 5) m"

definition BcmFrameBufferGetBuffer :: "TBcmFrameBuffer \<Rightarrow> mem \<Rightarrow> u32" where
  "BcmFrameBufferGetBuffer pThis m = get32 (info_field (fb_pInfo pThis) 8) m AND 0x3FFFFFFF"

definition BcmFrameBufferGetSize :: "TBcmFrameBuffer \<Rightarrow> mem \<Rightarrow> u32" where
  "BcmFrameBufferGetSize pThis m = get32 (info_field (fb_pInfo pThis) 9) m"

definition BcmFrameBufferSetPalette :: "TBcmFrameBuffer \<Rightarrow> u8 \<Rightarrow> u16 \<Rightarrow> 'a fw_world_scheme \<Rightarrow> 'a fw_world_scheme" where
  "BcmFrameBufferSetPalette pThis nIndex nColor w =
     (if BcmFrameBufferGetDepth pThis (fw_mem w) = 8
      then w\<lparr>fw_mem := mem_write (fb_pInfo pThis + 40 + 2 * ucast nIndex) (bytes16 nColor) (fw_mem w)\<rparr> else w)"

definition BcmFrameBufferInitialize :: "TBcmFrameBuffer \<Rightarrow> 'a fw_world_scheme \<Rightarrow> (bool \<times> 'a fw_world_scheme) option" where
  "BcmFrameBufferInitialize pThis w = do {
     (nResult, w) \<leftarrow> BcmMailBoxWriteRead (fb_MailBox pThis) (BUS_ADDRESS (ucast (fb_pInfo pThis))) w;
     Some (nResult = 0 \<and> get32 (info_field (fb_pInfo pThis) 8) (fw_mem w) \<noteq> 0, w) }"

section \<open>The exchange of a message\<close>

text \<open>The next reads of the registers give the list.\<close>

definition reads_from :: "mmio \<Rightarrow> u32 list \<Rightarrow> bool" where
  "reads_from io xs \<longleftrightarrow> (\<forall>i < length xs. io_oracle io (io_pos io + i) = xs ! i)"

text \<open>So many reads later, with nothing written.\<close>

definition reads_on :: "mmio \<Rightarrow> nat \<Rightarrow> mmio \<Rightarrow> bool" where
  "reads_on io n io' \<longleftrightarrow> io_oracle io' = io_oracle io \<and> io_pos io' = io_pos io + n \<and> (\<forall>a. reg_writes a io' = reg_writes a io)"

lemma reads_on_trans: "reads_on io n io' \<Longrightarrow> reads_on io' k io'' \<Longrightarrow> reads_on io (n + k) io''"
  by (simp add: reads_on_def)

lemma reads_from_on: "reads_from io (xs @ ys) \<Longrightarrow> reads_on io (length xs) io' \<Longrightarrow> reads_from io' ys"
  unfolding reads_from_def reads_on_def by (auto simp: nth_append add.assoc dest: spec[of _ "length xs + _"])

lemma reads_from_front: "reads_from io (xs @ ys) \<Longrightarrow> reads_from io xs"
  unfolding reads_from_def by (auto simp: nth_append)

lemma flush_run:
  assumes "reads_from io (concat (map (\<lambda>(s, x). [s, x]) junk) @ [e])" and "\<forall>(s, x) \<in> set junk. s AND MAILBOX_STATUS_EMPTY = 0"
    and "e AND MAILBOX_STATUS_EMPTY \<noteq> 0"
  shows "\<exists>io'. flush_loop io = Some io' \<and> reads_on io (2 * length junk + 1) io'"
  using assms(1,2)
proof (induction junk arbitrary: io)
  case Nil
  with assms(3) show ?case by (subst flush_loop.simps) (auto simp: reads_on_def Let_def reads_from_def case_prod_beta)
next
  case (Cons p junk)
  obtain s x where p: "p = (s, x)" by (cases p)
  let ?io = "msDelay 20 (snd (mmio_read MAILBOX0_READ (snd (mmio_read MAILBOX0_STATUS io))))"
  have two: "reads_on io 2 ?io" by (simp add: reads_on_def)
  have "reads_from io ([s, x] @ (concat (map (\<lambda>(s, x). [s, x]) junk) @ [e]))" using Cons.prems(1) by (simp add: p)
  from reads_from_on[OF this, of ?io] two have "reads_from ?io (concat (map (\<lambda>(s, x). [s, x]) junk) @ [e])" by (simp add: numeral_2_eq_2)
  from Cons.IH[OF this] Cons.prems(2) obtain io' where io': "flush_loop ?io = Some io'" "reads_on ?io (2 * length junk + 1) io'" by auto
  have s: "io_oracle io (io_pos io) = s" "s AND MAILBOX_STATUS_EMPTY = 0" using Cons.prems by (auto simp: p reads_from_def)
  have "flush_loop io = flush_loop ?io"
    by (subst flush_loop.simps) (simp add: s mmio_read_def Let_def)
  with io' reads_on_trans[OF two io'(2)] show ?case by simp
qed

lemma wait_run:
  assumes "reads_from io (ss @ [s])" and "\<forall>x \<in> set ss. x AND m \<noteq> 0" and "s AND m = 0"
  shows "\<exists>io'. wait_loop a m io = Some io' \<and> reads_on io (length ss + 1) io'"
  using assms(1,2)
proof (induction ss arbitrary: io)
  case Nil
  with assms(3) show ?case by (subst wait_loop.simps) (auto simp: reads_on_def Let_def reads_from_def case_prod_beta)
next
  case (Cons x ss)
  let ?io = "snd (mmio_read a io)"
  have one: "reads_on io 1 ?io" by (simp add: reads_on_def)
  from reads_from_on[of io "[x]" "ss @ [s]" ?io] Cons.prems(1) one have "reads_from ?io (ss @ [s])" by simp
  from Cons.IH[OF this] Cons.prems(2) obtain io' where io': "wait_loop a m ?io = Some io'" "reads_on ?io (length ss + 1) io'" by auto
  have "io_oracle io (io_pos io) = x" "x AND m \<noteq> 0" using Cons.prems by (auto simp: reads_from_def)
  then have "wait_loop a m io = wait_loop a m ?io" by (subst wait_loop.simps) (simp add: mmio_read_def Let_def)
  with io' reads_on_trans[OF one io'(2)] show ?case by simp
qed

text \<open>An answer: the words of the status while the mailbox is empty, the status when it is not, and the word read then.\<close>

type_synonym answer = "u32 list \<times> u32 \<times> u32"

definition answer_reads :: "answer \<Rightarrow> u32 list" where
  "answer_reads = (\<lambda>(ws, s, x). ws @ [s, x])"

definition answer_ok :: "answer \<Rightarrow> bool" where
  "answer_ok = (\<lambda>(ws, s, x). (\<forall>v \<in> set ws. v AND MAILBOX_STATUS_EMPTY \<noteq> 0) \<and> s AND MAILBOX_STATUS_EMPTY = 0)"

lemma read_one:
  assumes "reads_from io (answer_reads (ws, s, x))" and "answer_ok (ws, s, x)"
  shows "\<exists>io'. read_loop c io = (if x AND 0xF \<noteq> c then read_loop c io' else Some (x, io')) \<and> reads_on io (length ws + 2) io'"
proof -
  have r: "reads_from io ((ws @ [s]) @ [x])" using assms(1) by (simp add: answer_reads_def)
  from wait_run[OF reads_from_front[OF r], of MAILBOX_STATUS_EMPTY MAILBOX0_STATUS] assms(2) obtain io1 where
    io1: "wait_loop MAILBOX0_STATUS MAILBOX_STATUS_EMPTY io = Some io1" "reads_on io (length ws + 1) io1"
    by (auto simp: answer_ok_def)
  from reads_from_on[OF r] io1(2) have x: "io_oracle io1 (io_pos io1) = x" by (simp add: reads_from_def)
  let ?io = "snd (mmio_read MAILBOX0_READ io1)"
  have one: "reads_on io1 1 ?io" by (simp add: reads_on_def)
  have "read_loop c io = (if x AND 0xF \<noteq> c then read_loop c ?io else Some (x, ?io))"
    by (subst read_loop.simps) (simp add: io1(1) x mmio_read_def Let_def)
  with reads_on_trans[OF io1(2) one] show ?thesis by (intro exI[of _ ?io]) simp
qed

lemma read_run:
  assumes "reads_from io (concat (map answer_reads (others @ [(ws, s, x)])))" and "\<forall>q \<in> set (others @ [(ws, s, x)]). answer_ok q"
    and "\<forall>(_, _, y) \<in> set others. y AND 0xF \<noteq> c" and "x AND 0xF = c"
  shows "\<exists>io'. read_loop c io = Some (x, io') \<and> reads_on io (length (concat (map answer_reads (others @ [(ws, s, x)])))) io'"
  using assms(1-3)
proof (induction others arbitrary: io)
  case Nil
  from read_one[of io ws s x c] Nil assms(4) show ?case by (auto simp: answer_reads_def)
next
  case (Cons q others)
  obtain vs t y where q: "q = (vs, t, y)" by (cases q)
  let ?rest = "concat (map answer_reads (others @ [(ws, s, x)]))"
  have r: "reads_from io (answer_reads q @ ?rest)" using Cons.prems(1) by simp
  from read_one[of io vs t y c] reads_from_front[OF r] Cons.prems(2,3) obtain io1 where
    io1: "read_loop c io = read_loop c io1" "reads_on io (length (answer_reads q)) io1"
    by (auto simp: q answer_reads_def)
  from Cons.IH[OF reads_from_on[OF r io1(2)]] Cons.prems(2,3) obtain io' where
    io': "read_loop c io1 = Some (x, io')" "reads_on io1 (length ?rest) io'" by auto
  with reads_on_trans[OF io1(2) io'(2)] io1(1) show ?case by simp
qed


text \<open>
  What the registers show during an exchange: words that are flushed, the status when the mailbox is empty, the status while the
  other mailbox is full and when it is not, and the answers; the last answer is the first for the channel.
\<close>

record exchange =
  ex_junk :: "(u32 \<times> u32) list"
  ex_empty :: u32
  ex_full :: "u32 list"
  ex_ready :: u32
  ex_others :: "answer list"
  ex_answer :: answer

definition exchange_reads :: "exchange \<Rightarrow> u32 list" where
  "exchange_reads x = (concat (map (\<lambda>(s, v). [s, v]) (ex_junk x)) @ [ex_empty x]) @ (ex_full x @ [ex_ready x])
     @ concat (map answer_reads (ex_others x @ [ex_answer x]))"

definition exchange_ok :: "u32 \<Rightarrow> exchange \<Rightarrow> bool" where
  "exchange_ok c x \<longleftrightarrow> (\<forall>(s, v) \<in> set (ex_junk x). s AND MAILBOX_STATUS_EMPTY = 0) \<and> ex_empty x AND MAILBOX_STATUS_EMPTY \<noteq> 0
     \<and> (\<forall>s \<in> set (ex_full x). s AND MAILBOX_STATUS_FULL \<noteq> 0) \<and> ex_ready x AND MAILBOX_STATUS_FULL = 0
     \<and> (\<forall>q \<in> set (ex_others x @ [ex_answer x]). answer_ok q)
     \<and> (\<forall>(_, _, y) \<in> set (ex_others x). y AND 0xF \<noteq> c) \<and> snd (snd (ex_answer x)) AND 0xF = c"

lemma exchange_run:
  fixes w :: "'a fw_world_scheme"
  assumes rd: "reads_from (fw_io w) (exchange_reads x)" and ok: "exchange_ok (mb_nChannel box) x" and data: "nData AND 0xF = 0"
  shows "\<exists>io'. BcmMailBoxWriteRead box nData w = Some (snd (snd (ex_answer x)) AND NOT 0xF,
           w\<lparr>fw_io := io', fw_mem := fw_gpu w (mb_nChannel box OR nData) (fw_mem w)\<rparr>)
     \<and> io_pos io' = io_pos (fw_io w) + length (exchange_reads x)
     \<and> (\<forall>a. reg_writes a io' = reg_writes a (fw_io w) @ (if a = MAILBOX1_WRITE then [mb_nChannel box OR nData] else []))"
proof -
  let ?a = "concat (map (\<lambda>(s, v). [s, v]) (ex_junk x)) @ [ex_empty x]" and ?b = "ex_full x @ [ex_ready x]"
    and ?c = "concat (map answer_reads (ex_others x @ [ex_answer x]))"
  obtain ws s v where ans: "ex_answer x = (ws, s, v)" by (cases "ex_answer x")
  have la: "length ?a = 2 * length (ex_junk x) + 1" by (induction "ex_junk x") (auto simp: length_concat comp_def case_prod_beta sum_list_triv)
  have r1: "reads_from (fw_io w) (?a @ ?b @ ?c)" using rd by (simp add: exchange_reads_def)
  from flush_run[OF reads_from_front[OF r1]] ok obtain io1 where
    io1: "flush_loop (fw_io w) = Some io1" "reads_on (fw_io w) (length ?a) io1" unfolding la by (auto simp: exchange_ok_def)
  have r2: "reads_from io1 (?b @ ?c)" using reads_from_on[OF r1 io1(2)] .
  from wait_run[OF reads_from_front[OF r2], of MAILBOX_STATUS_FULL MAILBOX1_STATUS] ok obtain io2 where
    io2: "wait_loop MAILBOX1_STATUS MAILBOX_STATUS_FULL io1 = Some io2" "reads_on io1 (length ?b) io2"
    by (auto simp: exchange_ok_def)
  let ?io = "io_emit (MmioWrite MAILBOX1_WRITE (mb_nChannel box OR nData)) io2"
  have r3: "reads_from ?io ?c" using reads_from_on[OF r2 io2(2)] by (simp add: reads_from_def)
  from read_run[of ?io "ex_others x" ws s v "mb_nChannel box"] r3 ok ans obtain io3 where
    io3: "read_loop (mb_nChannel box) ?io = Some (v, io3)" "reads_on ?io (length ?c) io3" by (auto simp: exchange_ok_def)
  have "BcmMailBoxWriteRead box nData w = Some (v AND NOT 0xF, w\<lparr>fw_io := io3, fw_mem := fw_gpu w (mb_nChannel box OR nData) (fw_mem w)\<rparr>)"
    using data by (simp add: BcmMailBoxWriteRead_def BcmMailBoxFlush_def BcmMailBoxWrite_def BcmMailBoxRead_def io1(1) io2(1) io3(1))
  with reads_on_trans[OF io1(2) io2(2)] io3(2) ans show ?thesis
    by (auto simp: reads_on_def exchange_reads_def)
qed


section \<open>Switching on the power\<close>

text \<open>The buffer of a request as the firmware finds it.\<close>

definition request_bytes :: "u32 \<Rightarrow> u8 list \<Rightarrow> u32 \<Rightarrow> u8 list" where
  "request_bytes nTagId pTag n = bytes32 (of_nat (length pTag) + 12) @ bytes32 CODE_REQUEST @ bytes32 nTagId
     @ bytes32 (of_nat (length pTag) - 12) @ bytes32 (n AND NOT VALUE_LENGTH_RESPONSE) @ drop 12 pTag @ bytes32 PROPTAG_END"

lemma bytes32_length [simp]: "length (bytes32 x) = 4"
  by (simp add: bytes32_def)

lemma request_layout:
  assumes "12 \<le> length pTag" and "length pTag < 2 ^ 32"
  shows "fill_request nTagId pTag n m = mem_write MEM_COHERENT_REGION (request_bytes nTagId pTag n) m"
proof -
  let ?p = "MEM_COHERENT_REGION" and ?A = "bytes32 (sizeof_TPropertyBuffer + of_nat (length pTag) + 4)" and ?B = "bytes32 CODE_REQUEST"
    and ?C = "bytes32 nTagId" and ?D = "bytes32 (of_nat (length pTag) - sizeof_TPropertyTag)"
    and ?E = "bytes32 (n AND NOT VALUE_LENGTH_RESPONSE)"
  have 1: "mem_write (?p + 8) pTag (put32 (?p + 4) CODE_REQUEST (put32 ?p (sizeof_TPropertyBuffer + of_nat (length pTag) + 4) m))
      = mem_write ?p (?A @ ?B @ pTag) m"
    by (simp add: put32_def mem_write_append add.commute)
  have sp: "put32 (?p + of_nat k) v (mem_write ?p bs m) = mem_write ?p (take k bs @ bytes32 v @ drop (k + 4) bs) m"
    if "k + 4 \<le> length bs" "length bs \<le> 2 ^ 64" for k v bs
    using mem_write_splice[of k "bytes32 v" bs ?p m] that by (simp add: put32_def)
  from assms have l: "length pTag + 8 \<le> 2 ^ 64" "8 + 12 \<le> length pTag + 8" by simp_all
  have 2: "put32 (?p + 8) nTagId (mem_write ?p (?A @ ?B @ pTag) m) = mem_write ?p (?A @ ?B @ ?C @ drop 4 pTag) m"
    using sp[of 8 "?A @ ?B @ pTag" nTagId] l by simp
  have 3: "put32 (?p + 12) v (mem_write ?p (?A @ ?B @ ?C @ drop 4 pTag) m) = mem_write ?p (?A @ ?B @ ?C @ bytes32 v @ drop 8 pTag) m" for v
    using sp[of 12 "?A @ ?B @ ?C @ drop 4 pTag" v] l by simp
  have 4: "put32 (?p + 16) v (mem_write ?p (?A @ ?B @ ?C @ ?D @ drop 8 pTag) m) = mem_write ?p (?A @ ?B @ ?C @ ?D @ bytes32 v @ drop 12 pTag) m" for v
    using sp[of 16 "?A @ ?B @ ?C @ ?D @ drop 8 pTag" v] l by simp
  have 5: "put32 (?p + 8 + of_nat (length pTag)) PROPTAG_END (mem_write ?p (?A @ ?B @ ?C @ ?D @ ?E @ drop 12 pTag) m)
      = mem_write ?p ((?A @ ?B @ ?C @ ?D @ ?E @ drop 12 pTag) @ bytes32 PROPTAG_END) m"
    using assms(1) mem_write_append[of ?p "?A @ ?B @ ?C @ ?D @ ?E @ drop 12 pTag" "bytes32 PROPTAG_END" m]
    by (simp add: put32_def of_nat_diff algebra_simps)
  have "fill_request nTagId pTag n m = mem_write ?p ((?A @ ?B @ ?C @ ?D @ ?E @ drop 12 pTag) @ bytes32 PROPTAG_END) m"
    unfolding fill_request_def Let_def 1 2 3 4 5 ..
  then show ?thesis by (simp add: request_bytes_def sizeof_TPropertyBuffer_def sizeof_TPropertyTag_def add.commute)
qed


lemma mem_read_part: "k + j \<le> n \<Longrightarrow> take j (drop k (mem_read p n m)) = mem_read (p + of_nat k) j m"
proof -
  assume "k + j \<le> n"
  then obtain r where "n = k + (j + r)" by (metis le_Suc_ex add.assoc)
  then show ?thesis by (simp add: mem_read_add del: of_nat_add)
qed

lemma get32_put32_later: "get32 (MEM_COHERENT_REGION + 24) (put32 (MEM_COHERENT_REGION + 16) v m) = get32 (MEM_COHERENT_REGION + 24) m"
proof -
  have "mem_read p 4 m' = [m' p, m' (p + 1), m' (p + 2), m' (p + 3)]" for p m' by (simp add: numeral_eq_Suc add.assoc)
  then show ?thesis by (simp add: get32_def put32_def bytes32_def MEM_COHERENT_REGION_def)
qed

lemma region_address: "BUS_ADDRESS (ucast MEM_COHERENT_REGION) = 0xC0400000"
  by (simp add: BUS_ADDRESS_def MEM_COHERENT_REGION_def)

text \<open>The answer of the firmware to the request for power, in the memory it leaves.\<close>

definition power_granted :: "u32 \<Rightarrow> mem \<Rightarrow> bool" where
  "power_granted nAnswer m \<longleftrightarrow> nAnswer AND NOT 0xF = 0xC0400000 \<and> get32 (MEM_COHERENT_REGION + 4) m = CODE_RESPONSE_SUCCESS
     \<and> get32 (MEM_COHERENT_REGION + 16) m AND VALUE_LENGTH_RESPONSE \<noteq> 0
     \<and> get32 (MEM_COHERENT_REGION + 16) m AND NOT VALUE_LENGTH_RESPONSE \<noteq> 0
     \<and> get32 (MEM_COHERENT_REGION + 24) m AND POWER_STATE_NO_DEVICE = 0 \<and> get32 (MEM_COHERENT_REGION + 24) m AND POWER_STATE_ON \<noteq> 0"

text \<open>
  Claim C36. Switching on the power of a device.  When the mailbox of the firmware becomes empty, takes the message and
  answers on the channel after any number of words for others, then the call returns: the firmware has got one
  message, the address of a buffer that holds exactly the request with the device and the state asked for; and the result
  is success if and only if the firmware granted the power: it answered with the buffer, the code of success, a non-empty
  value, and a state that says the device exists and is on.
\<close>

theorem power_on_iff:
  fixes w :: "'a fw_world_scheme"
  assumes hdr: "length hdr = 12" and rd: "reads_from (fw_io w) (exchange_reads x)" and ok: "exchange_ok BCM_MAILBOX_PROP_OUT x"
  shows "\<exists>w'. SetPowerStateOn hdr nDeviceId w =
      Some (power_granted (snd (snd (ex_answer x)))
              (fw_gpu w 0xC0400008 (mem_write MEM_COHERENT_REGION
                 (bytes32 32 @ bytes32 0 @ bytes32 PROPTAG_SET_POWER_STATE @ bytes32 8 @ bytes32 8 @ bytes32 nDeviceId @ bytes32 3 @ bytes32 0)
                 (fw_mem w))), w')
    \<and> reg_writes MAILBOX1_WRITE (fw_io w') = reg_writes MAILBOX1_WRITE (fw_io w) @ [0xC0400008]"
proof -
  define T where "T = hdr @ bytes32 nDeviceId @ bytes32 (POWER_STATE_ON OR POWER_STATE_WAIT)"
  let ?w = "w\<lparr>fw_mem := fill_request PROPTAG_SET_POWER_STATE T 8 (fw_mem w)\<rparr>"
  define m where "m = fw_gpu w 0xC0400008 (fill_request PROPTAG_SET_POWER_STATE T 8 (fw_mem w))"
  have len: "length T = 20" using hdr by (simp add: T_def)
  have req: "request_bytes PROPTAG_SET_POWER_STATE T 8
      = bytes32 32 @ bytes32 0 @ bytes32 PROPTAG_SET_POWER_STATE @ bytes32 8 @ bytes32 8 @ bytes32 nDeviceId @ bytes32 3 @ bytes32 0"
    using hdr len by (simp add: T_def request_bytes_def CODE_REQUEST_def PROPTAG_END_def VALUE_LENGTH_RESPONSE_def POWER_STATE_ON_def POWER_STATE_WAIT_def)
  have box: "pt_MailBox BcmPropertyTags = BcmMailBox 8" "mb_nChannel (BcmMailBox 8) = 8"
    by (simp_all add: BcmPropertyTags_def BcmMailBox_def BCM_MAILBOX_PROP_OUT_def)
  from exchange_run[where w = ?w and x = x and box = "BcmMailBox 8" and nData = "0xC0400000"] rd ok obtain io' where
    run: "BcmMailBoxWriteRead (BcmMailBox 8) 0xC0400000 ?w = Some (snd (snd (ex_answer x)) AND NOT 0xF, w\<lparr>fw_io := io', fw_mem := m\<rparr>)"
    and wr: "reg_writes MAILBOX1_WRITE io' = reg_writes MAILBOX1_WRITE (fw_io w) @ [0xC0400008]"
    by (auto simp: box m_def BCM_MAILBOX_PROP_OUT_def)
  define st where "st = (\<lambda>v. mem_read (MEM_COHERENT_REGION + 8) 20 (put32 (MEM_COHERENT_REGION + 16) v m))"
  have st: "word32 (take 4 (drop 16 (st v))) = get32 (MEM_COHERENT_REGION + 24) m" for v
    using mem_read_part[of 16 4 20 "MEM_COHERENT_REGION + 8" "put32 (MEM_COHERENT_REGION + 16) v m"] get32_put32_later[of v m]
    by (simp add: get32_def add.assoc st_def)
  have "\<exists>w'. SetPowerStateOn hdr nDeviceId w = Some (power_granted (snd (snd (ex_answer x))) m, w') \<and> fw_io w' = io'"
    using run len
    by (auto simp: SetPowerStateOn_def T_def[symmetric] BcmPropertyTagsGetTag_def box region_address sizeof_TPropertyTagSimple_def
        sizeof_TPropertyBuffer_def Let_def power_granted_def st_def[THEN fun_cong, symmetric] st)
  then show ?thesis using wr request_layout[of T PROPTAG_SET_POWER_STATE 8 "fw_mem w"] len req by (auto simp: m_def)
qed

text \<open>A firmware that grants the power, and registers with a word to flush, a full mailbox and a word for another channel.\<close>

definition granting_gpu :: "u32 \<Rightarrow> mem \<Rightarrow> mem" where
  "granting_gpu a m = put32 (MEM_COHERENT_REGION + 4) CODE_RESPONSE_SUCCESS
     (put32 (MEM_COHERENT_REGION + 16) (VALUE_LENGTH_RESPONSE OR 8) (put32 (MEM_COHERENT_REGION + 24) 1 m))"

definition sample_exchange :: exchange where
  "sample_exchange = \<lparr>ex_junk = [(0, 5)], ex_empty = MAILBOX_STATUS_EMPTY, ex_full = [MAILBOX_STATUS_FULL], ex_ready = 0,
     ex_others = [([MAILBOX_STATUS_EMPTY], 0, 0x11)], ex_answer = ([], 0, 0xC0400008)\<rparr>"

definition granting_world :: fw_world where
  "granting_world = \<lparr>fw_io = \<lparr>io_oracle = (\<lambda>n. exchange_reads sample_exchange ! n), io_pos = 0, io_trace = []\<rparr>, fw_mem = (\<lambda>_. 0),
     fw_gpu = granting_gpu\<rparr>"

lemma get32_put32: "get32 p (put32 p v m) = v"
  using mem_read_write[of "bytes32 v" p m] by (simp add: get32_def put32_def word32_bytes32)

lemma power_granted_gpu: "power_granted 0xC0400008 (granting_gpu a m)"
proof -
  have r: "mem_read p 4 m' = [m' p, m' (p + 1), m' (p + 2), m' (p + 3)]" for p m' by (simp add: numeral_eq_Suc add.assoc)
  have a: "get32 (MEM_COHERENT_REGION + 4) (granting_gpu a m) = CODE_RESPONSE_SUCCESS" by (simp add: granting_gpu_def get32_put32)
  have b: "get32 (MEM_COHERENT_REGION + 16) (granting_gpu a m) = get32 (MEM_COHERENT_REGION + 16)
      (put32 (MEM_COHERENT_REGION + 16) (VALUE_LENGTH_RESPONSE OR 8) (put32 (MEM_COHERENT_REGION + 24) 1 m))"
    and c: "get32 (MEM_COHERENT_REGION + 24) (granting_gpu a m) = get32 (MEM_COHERENT_REGION + 24) (put32 (MEM_COHERENT_REGION + 24) 1 m)"
    by (simp_all add: granting_gpu_def get32_def r put32_def[of _ CODE_RESPONSE_SUCCESS] put32_def[of _ "VALUE_LENGTH_RESPONSE OR 8"]
        bytes32_def MEM_COHERENT_REGION_def)
  show ?thesis
    by (simp add: power_granted_def a b c get32_put32 VALUE_LENGTH_RESPONSE_def POWER_STATE_NO_DEVICE_def POWER_STATE_ON_def)
qed

theorem power_on_iff_witness:
  "\<exists>w'. SetPowerStateOn (replicate 12 0) 3 granting_world = Some (True, w')
     \<and> reg_writes MAILBOX1_WRITE (fw_io w') = [0xC0400008]"
proof -
  have rd: "reads_from (fw_io granting_world) (exchange_reads sample_exchange)"
    by (simp add: reads_from_def granting_world_def)
  have ok: "exchange_ok BCM_MAILBOX_PROP_OUT sample_exchange"
    by (simp add: exchange_ok_def sample_exchange_def answer_ok_def BCM_MAILBOX_PROP_OUT_def MAILBOX_STATUS_EMPTY_def MAILBOX_STATUS_FULL_def)
  have "reg_writes a (fw_io granting_world) = []" for a
    by (simp add: reg_writes_def granting_world_def List.map_filter_def)
  moreover have "snd (snd (ex_answer sample_exchange)) = 0xC0400008" "fw_gpu granting_world = granting_gpu"
    by (simp_all add: sample_exchange_def granting_world_def)
  ultimately show ?thesis using power_on_iff[of "replicate 12 0", OF _ rd ok, of 3] by (auto simp: power_granted_gpu)
qed

end
