(* ===== verification/Allocator.thy ===== *)
theory Allocator
  imports Prelude
begin

text \<open>
  The memory allocator of the environment (\<^verbatim>\<open>env/lib/alloc.c\<close>), as it is compiled for the 32-bit ARM: pointers and
  \<^verbatim>\<open>unsigned long\<close> have 32 bits, a block header has 16 bytes, and \<^verbatim>\<open>MEM_DEBUG\<close> is not set.

  Blocks are cut from the start of a region and never given back to it; a freed block goes to the free list of the bucket of its
  size.  The memory the allocator reads and writes itself is the headers of blocks and of free pages, two functions from the
  address to what is stored there.  \<^verbatim>\<open>EnterCritical\<close> and \<^verbatim>\<open>LeaveCritical\<close> around the list operations do not appear: a call here is one
  step.
\<close>

unbundle bit_operations_syntax

section \<open>State\<close>

definition BLOCK_ALIGN :: u32 where "BLOCK_ALIGN = 16"
definition ALIGN_MASK :: u32 where "ALIGN_MASK = BLOCK_ALIGN - 1"
definition PAGE_SIZE :: u32 where "PAGE_SIZE = 4096"
definition PAGE_MASK :: u32 where "PAGE_MASK = PAGE_SIZE - 1"
definition BLOCK_MAGIC :: u32 where "BLOCK_MAGIC = 0x424C4D43"
definition FREEPAGE_MAGIC :: u32 where "FREEPAGE_MAGIC = 0x50474D43"
definition MEM_HEAP_START :: u32 where "MEM_HEAP_START = 0x500000"
definition sizeof_TBlockHeader :: u32 where "sizeof_TBlockHeader = 16"

record TBlockHeader =
  bh_nMagic :: u32
  bh_nSize :: u32
  bh_pNext :: u32

record TBlockBucket =
  bk_nSize :: u32
  bk_pFreeList :: u32

record TFreePage =
  fp_nMagic :: u32
  fp_pNext :: u32

record heap =
  s_pNextBlock :: u32
  s_pBlockLimit :: u32
  s_pNextPage :: u32
  s_pPageLimit :: u32
  s_BlockBucket :: "TBlockBucket list"
  s_PageBucket :: u32
  hp_header :: "u32 \<Rightarrow> TBlockHeader"
  hp_page :: "u32 \<Rightarrow> TFreePage"

text \<open>The table of buckets ends with a bucket of size 0, which is left out here.\<close>

definition initial_buckets :: "TBlockBucket list" where
  "initial_buckets = map (\<lambda>n. \<lparr>bk_nSize = n, bk_pFreeList = 0\<rparr>) [0x40, 0x400, 0x1000, 0x4000, 0x40000, 0x80000]"

section \<open>Operations\<close>

definition mem_init :: "u32 \<Rightarrow> u32 \<Rightarrow> heap \<Rightarrow> heap" where
  "mem_init ulBase ulSize h =
     (let ulLimit = ulBase + ulSize;
          ulBase = (if ulBase < MEM_HEAP_START then MEM_HEAP_START else ulBase);
          ulSize = ulLimit - ulBase;
          ulQuarterSize = ulSize div 4
      in h\<lparr>s_pNextBlock := ulBase, s_pBlockLimit := ulBase + ulQuarterSize,
           s_pNextPage := (ulBase + ulQuarterSize + PAGE_SIZE) AND NOT PAGE_MASK, s_pPageLimit := ulLimit\<rparr>)"

definition mem_get_size :: "heap \<Rightarrow> u32" where
  "mem_get_size h = (s_pBlockLimit h - s_pNextBlock h) + (s_pPageLimit h - s_pNextPage h)"

text \<open>The first bucket that is large enough, by its index.\<close>

fun find_bucket :: "(u32 \<Rightarrow> bool) \<Rightarrow> nat \<Rightarrow> TBlockBucket list \<Rightarrow> nat option" where
  "find_bucket P i [] = None"
| "find_bucket P i (b # bs) = (if P (bk_nSize b) then Some i else find_bucket P (Suc i) bs)"

definition block_step :: "u32 \<Rightarrow> u32" where
  "block_step ulSize = (sizeof_TBlockHeader + ulSize + BLOCK_ALIGN - 1) AND NOT ALIGN_MASK"

definition malloc_result :: "u32 \<Rightarrow> heap \<Rightarrow> (u32 \<times> heap) option" where
  "malloc_result pBlockHeader h = do {
     let h = h\<lparr>hp_header := (hp_header h)(pBlockHeader := (hp_header h pBlockHeader)\<lparr>bh_pNext := 0\<rparr>)\<rparr>;
     let pResult = pBlockHeader + sizeof_TBlockHeader;
     c_assert (pResult AND ALIGN_MASK = 0);
     Some (pResult, h) }"

definition malloc_new :: "u32 \<Rightarrow> heap \<Rightarrow> (u32 \<times> heap) option" where
  "malloc_new ulSize h = do {
     let pBlockHeader = s_pNextBlock h;
     let h = h\<lparr>s_pNextBlock := s_pNextBlock h + block_step ulSize\<rparr>;
     if s_pNextBlock h > s_pBlockLimit h then Some (0, h)
     else malloc_result pBlockHeader
            (h\<lparr>hp_header := (hp_header h)(pBlockHeader := (hp_header h pBlockHeader)\<lparr>bh_nMagic := BLOCK_MAGIC, bh_nSize := ulSize\<rparr>)\<rparr>) }"

definition env_malloc :: "u32 \<Rightarrow> heap \<Rightarrow> (u32 \<times> heap) option" where
  "env_malloc ulSize h = do {
     c_assert (s_pNextBlock h \<noteq> 0);
     (case find_bucket (\<lambda>nSize. ulSize \<le> nSize) 0 (s_BlockBucket h) of
        None \<Rightarrow> malloc_new ulSize h
      | Some i \<Rightarrow>
          (let b = s_BlockBucket h ! i; p = bk_pFreeList b in
           if p \<noteq> 0 then do {
             c_assert (bh_nMagic (hp_header h p) = BLOCK_MAGIC);
             malloc_result p (h\<lparr>s_BlockBucket := (s_BlockBucket h)[i := b\<lparr>bk_pFreeList := bh_pNext (hp_header h p)\<rparr>]\<rparr>) }
           else malloc_new (bk_nSize b) h)) }"

definition env_free :: "u32 \<Rightarrow> heap \<Rightarrow> heap option" where
  "env_free pBlock h = do {
     c_assert (pBlock \<noteq> 0);
     let pBlockHeader = pBlock - sizeof_TBlockHeader;
     c_assert (bh_nMagic (hp_header h pBlockHeader) = BLOCK_MAGIC);
     (case find_bucket (\<lambda>nSize. bh_nSize (hp_header h pBlockHeader) = nSize) 0 (s_BlockBucket h) of
        None \<Rightarrow> Some h
      | Some i \<Rightarrow> let b = s_BlockBucket h ! i in
          Some (h\<lparr>hp_header := (hp_header h)(pBlockHeader := (hp_header h pBlockHeader)\<lparr>bh_pNext := bk_pFreeList b\<rparr>),
                  s_BlockBucket := (s_BlockBucket h)[i := b\<lparr>bk_pFreeList := pBlockHeader\<rparr>]\<rparr>)) }"

definition palloc :: "heap \<Rightarrow> (u32 \<times> heap) option" where
  "palloc h = do {
     c_assert (s_pNextPage h \<noteq> 0);
     let pFreePage = s_PageBucket h;
     if pFreePage \<noteq> 0 then do {
       let pg = hp_page h pFreePage;
       c_assert (fp_nMagic pg = FREEPAGE_MAGIC);
       Some (pFreePage, h\<lparr>s_PageBucket := fp_pNext pg, hp_page := (hp_page h)(pFreePage := pg\<lparr>fp_nMagic := 0\<rparr>)\<rparr>) }
     else do {
       let pFreePage = s_pNextPage h;
       let h = h\<lparr>s_pNextPage := s_pNextPage h + PAGE_SIZE\<rparr>;
       Some (if s_pNextPage h > s_pPageLimit h then 0 else pFreePage, h) } }"

definition pfree :: "u32 \<Rightarrow> heap \<Rightarrow> heap option" where
  "pfree pPage h = do {
     c_assert (pPage \<noteq> 0);
     Some (h\<lparr>hp_page := (hp_page h)(pPage := \<lparr>fp_nMagic = FREEPAGE_MAGIC, fp_pNext = s_PageBucket h\<rparr>), s_PageBucket := pPage\<rparr>) }"

section \<open>Arithmetic of blocks\<close>

lemma align_mask: "ALIGN_MASK = mask 4"
  by (simp add: ALIGN_MASK_def BLOCK_ALIGN_def mask_eq_exp_minus_1)

lemma round_down_16: "unat ((x :: u32) AND NOT ALIGN_MASK) = unat x div 16 * 16"
proof -
  have "x AND NOT ALIGN_MASK = push_bit 4 (drop_bit 4 x)"
    unfolding align_mask by (rule bit_word_eqI) (auto simp: bit_simps)
  moreover have "unat x div 16 * 16 < 2 ^ 32" using unat_less_2p[of x] by simp
  ultimately show ?thesis
    by (simp add: push_bit_eq_mult drop_bit_eq_div unat_word_ariths unat_div)
qed

lemma block_step_unat:
  assumes "unat n < 2 ^ 31"
  shows "unat (block_step n) = (unat n + 31) div 16 * 16"
proof -
  have "unat (n + 31) = unat n + 31" using assms by (simp add: unat_word_ariths)
  moreover have "sizeof_TBlockHeader + n + BLOCK_ALIGN - 1 = n + 31" by (simp add: sizeof_TBlockHeader_def BLOCK_ALIGN_def)
  ultimately show ?thesis unfolding block_step_def by (simp only: round_down_16)
qed

lemma and_align: "(x :: u32) AND ALIGN_MASK = 0 \<longleftrightarrow> unat x mod 16 = 0"
proof -
  have "unat (x AND ALIGN_MASK) = unat x mod 16"
    unfolding align_mask by (simp add: take_bit_eq_mask[symmetric] unsigned_take_bit_eq take_bit_eq_mod unat_mod)
  then show ?thesis by (metis unat_0 unat_eq_zero)
qed

section \<open>The invariant\<close>

text \<open>A free list in memory.\<close>

fun chain :: "(u32 \<Rightarrow> TBlockHeader) \<Rightarrow> u32 \<Rightarrow> u32 list \<Rightarrow> bool" where
  "chain hdr p [] \<longleftrightarrow> p = 0"
| "chain hdr p (x # xs) \<longleftrightarrow> p = x \<and> x \<noteq> 0 \<and> chain hdr (bh_pNext (hdr x)) xs"

lemma chain_cong: "(\<And>x. x \<in> set xs \<Longrightarrow> bh_pNext (hdr' x) = bh_pNext (hdr x)) \<Longrightarrow> chain hdr' p xs = chain hdr p xs"
  by (induction xs arbitrary: p) auto

definition block_end :: "heap \<Rightarrow> u32 \<Rightarrow> nat" where
  "block_end h b = unat b + unat (block_step (bh_nSize (hp_header h b)))"

text \<open>The blocks cut so far: inside the region, aligned, with their header, and apart from each other.\<close>

definition blocks_ok :: "nat \<Rightarrow> heap \<Rightarrow> u32 set \<Rightarrow> bool" where
  "blocks_ok base h B \<longleftrightarrow>
     (\<forall>b \<in> B. base \<le> unat b \<and> unat b mod 16 = 0 \<and> bh_nMagic (hp_header h b) = BLOCK_MAGIC \<and> unat (bh_nSize (hp_header h b)) < 2 ^ 31 - 64
        \<and> block_end h b \<le> unat (s_pNextBlock h) \<and> block_end h b \<le> unat (s_pBlockLimit h))
   \<and> (\<forall>b \<in> B. \<forall>c \<in> B. b \<noteq> c \<longrightarrow> block_end h b \<le> unat c \<or> block_end h c \<le> unat b)"

text \<open>The free lists: \<open>F i\<close> are the blocks on the list of bucket \<open>i\<close>.\<close>

definition lists_ok :: "heap \<Rightarrow> u32 set \<Rightarrow> (nat \<Rightarrow> u32 list) \<Rightarrow> bool" where
  "lists_ok h B F \<longleftrightarrow> map bk_nSize (s_BlockBucket h) = map bk_nSize initial_buckets
   \<and> (\<forall>i < length initial_buckets. chain (hp_header h) (bk_pFreeList (s_BlockBucket h ! i)) (F i) \<and> distinct (F i) \<and> set (F i) \<subseteq> B
        \<and> (\<forall>b \<in> set (F i). bh_nSize (hp_header h b) = bk_nSize (s_BlockBucket h ! i)))"

definition live_ok :: "heap \<Rightarrow> u32 set \<Rightarrow> (nat \<Rightarrow> u32 list) \<Rightarrow> (u32 \<rightharpoonup> u32) \<Rightarrow> bool" where
  "live_ok h B F live \<longleftrightarrow> (\<forall>p n. live p = Some n \<longrightarrow> p - sizeof_TBlockHeader \<in> B \<and> n \<le> bh_nSize (hp_header h (p - sizeof_TBlockHeader))
     \<and> (\<forall>i < length initial_buckets. p - sizeof_TBlockHeader \<notin> set (F i)))"

text \<open>
  A request that fails has moved the end of the used memory behind the limit; \<open>t\<close> bounds how far.
\<close>

definition region_ok :: "nat \<Rightarrow> nat \<Rightarrow> heap \<Rightarrow> bool" where
  "region_ok base t h \<longleftrightarrow> 0 < base \<and> base \<le> unat (s_pNextBlock h) \<and> unat (s_pNextBlock h) mod 16 = 0
     \<and> unat (s_pNextBlock h) \<le> unat (s_pBlockLimit h) + t \<and> unat (s_pBlockLimit h) < 2 ^ 29"

definition heap_ok :: "nat \<Rightarrow> nat \<Rightarrow> heap \<Rightarrow> (u32 \<rightharpoonup> u32) \<Rightarrow> bool" where
  "heap_ok base t h live \<longleftrightarrow> region_ok base t h \<and> (\<exists>B F. blocks_ok base h B \<and> lists_ok h B F \<and> live_ok h B F live)"

lemma bucket_sizes:
  assumes "map bk_nSize bs = map bk_nSize initial_buckets" and "i < length initial_buckets"
  shows "length bs = length initial_buckets" "bk_nSize (bs ! i) = bk_nSize (initial_buckets ! i)"
  using assms by (metis length_map, metis nth_map length_map)

lemma find_bucket_Some: "find_bucket P i bs = Some j \<Longrightarrow> i \<le> j \<and> j < i + length bs \<and> P (bk_nSize (bs ! (j - i)))"
proof (induction bs arbitrary: i)
  case (Cons b bs)
  show ?case
  proof (cases "P (bk_nSize b)")
    case False
    with Cons.prems have "find_bucket P (Suc i) bs = Some j" by simp
    from Cons.IH[OF this] have j: "Suc i \<le> j" "j < Suc i + length bs" "P (bk_nSize (bs ! (j - Suc i)))" by auto
    then have "j - i = Suc (j - Suc i)" by simp
    with j show ?thesis by simp
  qed (use Cons.prems in simp)
qed simp

lemma initial_sizes: "i < length initial_buckets \<Longrightarrow> unat (bk_nSize (initial_buckets ! i)) < 2 ^ 20"
proof -
  have "list_all (\<lambda>b. unat (bk_nSize b) < 2 ^ 20) initial_buckets" by (simp add: initial_buckets_def)
  then show "i < length initial_buckets \<Longrightarrow> unat (bk_nSize (initial_buckets ! i)) < 2 ^ 20" by (simp add: list_all_length)
qed

lemma initial_sizes_distinct:
  "\<lbrakk>i < length initial_buckets; j < length initial_buckets; bk_nSize (initial_buckets ! i) = bk_nSize (initial_buckets ! j)\<rbrakk> \<Longrightarrow> i = j"
proof -
  have "distinct (map bk_nSize initial_buckets)" by (simp add: initial_buckets_def)
  then show "\<lbrakk>i < length initial_buckets; j < length initial_buckets; bk_nSize (initial_buckets ! i) = bk_nSize (initial_buckets ! j)\<rbrakk> \<Longrightarrow> i = j"
    by (metis distinct_conv_nth length_map nth_map)
qed


section \<open>The operations keep it\<close>

text \<open>Changing only the link of one header keeps all that does not look at that link.\<close>

lemma blocks_link:
  "blocks_ok base h B \<Longrightarrow> blocks_ok base (h\<lparr>hp_header := (hp_header h)(x := (hp_header h x)\<lparr>bh_pNext := v\<rparr>)\<rparr>) B"
  unfolding blocks_ok_def block_end_def by auto

lemma header_link [simp]:
  "bh_nSize (((hp_header h)(x := (hp_header h x)\<lparr>bh_pNext := v\<rparr>)) b) = bh_nSize (hp_header h b)"
  "bh_nMagic (((hp_header h)(x := (hp_header h x)\<lparr>bh_pNext := v\<rparr>)) b) = bh_nMagic (hp_header h b)"
  by auto

lemma block_pos: "blocks_ok base h B \<Longrightarrow> 0 < base \<Longrightarrow> b \<in> B \<Longrightarrow> b \<noteq> 0"
  unfolding blocks_ok_def by (metis not_less0 unat_0 le_0_eq not_gr_zero)

lemma result_aligned: "unat (b :: u32) mod 16 = 0 \<Longrightarrow> unat b < 2 ^ 31 \<Longrightarrow> (b + sizeof_TBlockHeader) AND ALIGN_MASK = 0"
  unfolding and_align by (simp add: sizeof_TBlockHeader_def unat_word_ariths)

lemma malloc_result_link:
  assumes "unat b mod 16 = 0" and "unat b < 2 ^ 31"
  shows "malloc_result b h = Some (b + sizeof_TBlockHeader, h\<lparr>hp_header := (hp_header h)(b := (hp_header h b)\<lparr>bh_pNext := 0\<rparr>)\<rparr>)"
  using result_aligned[OF assms] by (simp add: malloc_result_def)

lemma block_small: "blocks_ok base h B \<Longrightarrow> region_ok base t h \<Longrightarrow> b \<in> B \<Longrightarrow> unat b < 2 ^ 31 \<and> unat b mod 16 = 0"
  unfolding blocks_ok_def region_ok_def block_end_def by fastforce

lemma sizes_update: "map bk_nSize (bs[i := (bs ! i)\<lparr>bk_pFreeList := v\<rparr>]) = map bk_nSize bs"
proof (rule nth_equalityI)
  fix k assume "k < length (map bk_nSize (bs[i := (bs ! i)\<lparr>bk_pFreeList := v\<rparr>]))"
  then show "map bk_nSize (bs[i := (bs ! i)\<lparr>bk_pFreeList := v\<rparr>]) ! k = map bk_nSize bs ! k" by (cases "k = i") auto
qed simp

text \<open>Taking a block from a free list.\<close>

lemma take_free:
  assumes reg: "region_ok base t h" and B: "blocks_ok base h B" and F: "lists_ok h B F" and live: "live_ok h B F live"
    and i: "i < length initial_buckets" and p: "bk_pFreeList (s_BlockBucket h ! i) = p" "p \<noteq> 0" and n: "n \<le> bk_nSize (s_BlockBucket h ! i)"
  shows "bh_nMagic (hp_header h p) = BLOCK_MAGIC \<and> live (p + sizeof_TBlockHeader) = None
    \<and> (\<exists>h'. malloc_result p (h\<lparr>s_BlockBucket := (s_BlockBucket h)[i := (s_BlockBucket h ! i)\<lparr>bk_pFreeList := bh_pNext (hp_header h p)\<rparr>]\<rparr>)
         = Some (p + sizeof_TBlockHeader, h') \<and> heap_ok base t h' (live(p + sizeof_TBlockHeader \<mapsto> n)))"
proof -
  let ?bs = "(s_BlockBucket h)[i := (s_BlockBucket h ! i)\<lparr>bk_pFreeList := bh_pNext (hp_header h p)\<rparr>]"
  let ?h = "h\<lparr>s_BlockBucket := ?bs, hp_header := (hp_header h)(p := (hp_header h p)\<lparr>bh_pNext := 0\<rparr>)\<rparr>"
  have sizes: "map bk_nSize (s_BlockBucket h) = map bk_nSize initial_buckets" using F by (simp add: lists_ok_def)
  note len = bucket_sizes(1)[OF sizes i]
  from F i have Fi: "chain (hp_header h) p (F i)" "distinct (F i)" "set (F i) \<subseteq> B"
      "\<forall>b \<in> set (F i). bh_nSize (hp_header h b) = bk_nSize (s_BlockBucket h ! i)" by (auto simp: lists_ok_def p(1))
  from Fi(1) p(2) obtain xs where xs: "F i = p # xs" "chain (hp_header h) (bh_pNext (hp_header h p)) xs" by (cases "F i") auto
  have pB: "p \<in> B" using Fi(3) xs by auto
  let ?F = "F(i := xs)"
  have other: "p \<notin> set (?F j)" if "j < length initial_buckets" for j
  proof (cases "j = i")
    case True then show ?thesis using Fi(2) xs by simp
  next
    case False
    show ?thesis
    proof
      assume "p \<in> set (?F j)"
      with False F that have "bh_nSize (hp_header h p) = bk_nSize (s_BlockBucket h ! j)" by (auto simp: lists_ok_def)
      with Fi(4) xs have "bk_nSize (s_BlockBucket h ! i) = bk_nSize (s_BlockBucket h ! j)" by simp
      then show False using bucket_sizes(2)[OF sizes i] bucket_sizes(2)[OF sizes that] initial_sizes_distinct[OF i that] False by simp
    qed
  qed
  have L: "lists_ok ?h B ?F" unfolding lists_ok_def
  proof (intro conjI allI impI)
    show "map bk_nSize (s_BlockBucket ?h) = map bk_nSize initial_buckets" using sizes by (simp add: sizes_update)
  next
    fix j assume j: "j < length initial_buckets"
    have "chain (hp_header ?h) q (?F j) = chain (hp_header h) q (?F j)" for q
      using other[OF j] by (intro chain_cong) auto
    moreover have "chain (hp_header h) (bk_pFreeList (s_BlockBucket ?h ! j)) (?F j)"
      using F j xs len by (cases "j = i") (auto simp: lists_ok_def)
    ultimately show "chain (hp_header ?h) (bk_pFreeList (s_BlockBucket ?h ! j)) (?F j)" by simp
    show "distinct (?F j)" "set (?F j) \<subseteq> B" using F j Fi xs by (auto simp: lists_ok_def)
    show "\<forall>b \<in> set (?F j). bh_nSize (hp_header ?h b) = bk_nSize (s_BlockBucket ?h ! j)"
      using F j xs len Fi by (cases "j = i") (auto simp: lists_ok_def)
  qed
  have "live_ok ?h B ?F (live(p + sizeof_TBlockHeader \<mapsto> n))"
  proof -
    have "q \<notin> set (?F j)" if "q \<notin> set (F j)" for q j using that xs by (auto split: if_splits)
    then show ?thesis using live pB other n Fi(4) xs i unfolding live_ok_def by (auto split: if_splits)
  qed
  moreover have "blocks_ok base ?h B" using B unfolding blocks_ok_def block_end_def by auto
  ultimately have ok: "heap_ok base t ?h (live(p + sizeof_TBlockHeader \<mapsto> n))"
    using L reg unfolding heap_ok_def by (auto simp: region_ok_def)
  have "live (p + sizeof_TBlockHeader) = None"
  proof (rule ccontr)
    assume "\<not> ?thesis"
    with live i xs show False unfolding live_ok_def by fastforce
  qed
  moreover have "bh_nMagic (hp_header h p) = BLOCK_MAGIC" using B pB by (auto simp: blocks_ok_def)
  ultimately show ?thesis using block_small[OF B reg pB] ok by (auto simp: malloc_result_link)
qed

text \<open>Cutting a new block.\<close>

lemma new_block:
  assumes reg: "region_ok base t h" and B: "blocks_ok base h B" and F: "lists_ok h B F" and live: "live_ok h B F live"
    and size: "unat ulSize < 2 ^ 31 - 64" and n: "n \<le> ulSize" and t: "t \<le> 2 ^ 30"
  shows "(\<exists>h'. malloc_new ulSize h = Some (0, h') \<and> heap_ok base (t + unat (block_step ulSize)) h' live)
    \<or> (\<exists>p h'. malloc_new ulSize h = Some (p, h') \<and> p \<noteq> 0 \<and> live p = None \<and> heap_ok base t h' (live(p \<mapsto> n)))"
proof -
  let ?b = "s_pNextBlock h" and ?s = "block_step ulSize"
  have st: "unat ?s = (unat ulSize + 31) div 16 * 16" using size by (intro block_step_unat) simp
  have lim: "unat ?b < 2 ^ 29 + 2 ^ 30" "unat ?b mod 16 = 0" "0 < base" "base \<le> unat ?b" using reg t by (auto simp: region_ok_def)
  have "unat ?b + unat ?s < 2 ^ 32" using lim st size by simp
  then have sum: "unat (?b + ?s) = unat ?b + unat ?s" by (simp add: unat_word_ariths)
  show ?thesis
  proof (cases "?b + ?s > s_pBlockLimit h")
    case False
    then have fits: "unat ?b + unat ?s \<le> unat (s_pBlockLimit h)" using sum by (simp add: word_le_nat_alt word_less_nat_alt)
    have small: "unat ?b < 2 ^ 31" using lim by simp
    let ?hd = "(hp_header h)(?b := (hp_header h ?b)\<lparr>bh_nMagic := BLOCK_MAGIC, bh_nSize := ulSize, bh_pNext := 0\<rparr>)"
    let ?h = "h\<lparr>s_pNextBlock := ?b + ?s, hp_header := ?hd\<rparr>"
    have run: "malloc_new ulSize h = Some (?b + sizeof_TBlockHeader, ?h)"
      using False lim small by (simp add: malloc_new_def malloc_result_link Let_def)
    have old: "b \<noteq> ?b \<and> unat b < unat ?b" if "b \<in> B" for b
    proof -
      from B that have "block_end h b \<le> unat ?b" "unat (bh_nSize (hp_header h b)) < 2 ^ 31" by (auto simp: blocks_ok_def)
      with block_step_unat[of "bh_nSize (hp_header h b)"] show ?thesis by (auto simp: block_end_def)
    qed
    have ends: "block_end ?h b = (if b = ?b then unat ?b + unat ?s else block_end h b)" for b by (simp add: block_end_def)
    have "blocks_ok base ?h (insert ?b B)"
      using B old lim size sum fits unfolding blocks_ok_def ends by (auto simp: block_end_def intro: le_trans)
    moreover have "lists_ok ?h (insert ?b B) F"
    proof -
      have "?b \<notin> set (F i)" if "i < length initial_buckets" for i using F that old by (auto simp: lists_ok_def)
      then have "chain ?hd q (F i) = chain (hp_header h) q (F i) \<and> (\<forall>b \<in> set (F i). b \<noteq> ?b)" if "i < length initial_buckets" for i q
        using that by (intro conjI chain_cong) auto
      then show ?thesis using F unfolding lists_ok_def by auto
    qed
    moreover have "live_ok ?h (insert ?b B) F (live(?b + sizeof_TBlockHeader \<mapsto> n))"
    proof -
      have "?b \<notin> set (F i)" if "i < length initial_buckets" for i using F that old by (auto simp: lists_ok_def)
      then show ?thesis using live old n unfolding live_ok_def by (auto split: if_splits)
    qed
    moreover have "region_ok base t ?h" using reg fits sum lim st by (auto simp: region_ok_def)
    ultimately have "heap_ok base t ?h (live(?b + sizeof_TBlockHeader \<mapsto> n))" unfolding heap_ok_def by blast
    moreover have "live (?b + sizeof_TBlockHeader) = None"
    proof (rule ccontr)
      assume "\<not> ?thesis"
      with live have "?b \<in> B" unfolding live_ok_def by fastforce
      with old show False by blast
    qed
    moreover have "unat (?b + sizeof_TBlockHeader) = unat ?b + 16" using lim by (simp add: sizeof_TBlockHeader_def unat_word_ariths)
    then have "?b + sizeof_TBlockHeader \<noteq> 0" by (metis unat_0 add_is_0 zero_neq_numeral)
    ultimately show ?thesis using run by blast
  next
    case True
    let ?h = "h\<lparr>s_pNextBlock := ?b + ?s\<rparr>"
    have "blocks_ok base ?h B" using B sum by (auto simp: blocks_ok_def block_end_def)
    moreover have "lists_ok ?h B F" "live_ok ?h B F live" using F live by (simp_all add: lists_ok_def live_ok_def)
    moreover have "region_ok base (t + unat ?s) ?h" using reg sum lim st by (auto simp: region_ok_def)
    ultimately have "heap_ok base (t + unat ?s) ?h live" unfolding heap_ok_def by blast
    with True show ?thesis by (simp add: malloc_new_def Let_def)
  qed
qed

text \<open>What a request takes from the region: the size of its bucket, or its own, with header and rounding.\<close>

definition request_size :: "u32 \<Rightarrow> nat" where
  "request_size n = unat (block_step (case find_bucket (\<lambda>nSize. n \<le> nSize) 0 initial_buckets of
     None \<Rightarrow> n | Some i \<Rightarrow> bk_nSize (initial_buckets ! i)))"

lemma find_bucket_sizes: "map bk_nSize bs = map bk_nSize cs \<Longrightarrow> find_bucket P i bs = find_bucket P i cs"
proof (induction bs arbitrary: i cs)
  case (Cons b bs)
  then obtain c cs' where "cs = c # cs'" "bk_nSize b = bk_nSize c" "map bk_nSize bs = map bk_nSize cs'" by (cases cs) auto
  with Cons.IH show ?case by simp
qed simp

lemma env_malloc_ok:
  assumes ok: "heap_ok base t h live" and n: "unat n < 2 ^ 31 - 64" and t: "t \<le> 2 ^ 30"
  shows "\<exists>p h'. env_malloc n h = Some (p, h')
    \<and> (if p = 0 then heap_ok base (t + request_size n) h' live else live p = None \<and> heap_ok base t h' (live(p \<mapsto> n)))"
proof -
  from ok obtain B F where a: "region_ok base t h" "blocks_ok base h B" "lists_ok h B F" "live_ok h B F live" by (auto simp: heap_ok_def)
  have nz: "s_pNextBlock h \<noteq> 0" using a(1) by (auto simp: region_ok_def)
  have sizes: "map bk_nSize (s_BlockBucket h) = map bk_nSize initial_buckets" using a(3) by (simp add: lists_ok_def)
  note fb = find_bucket_sizes[OF sizes, of "\<lambda>nSize. n \<le> nSize" 0]
  show ?thesis
  proof (cases "find_bucket (\<lambda>nSize. n \<le> nSize) 0 (s_BlockBucket h)")
    case None
    from new_block[OF a n order_refl t] None nz fb show ?thesis by (auto simp: env_malloc_def request_size_def)
  next
    case (Some i)
    from find_bucket_Some[OF Some] have i: "i < length (s_BlockBucket h)" "n \<le> bk_nSize (s_BlockBucket h ! i)" by auto
    then have i': "i < length initial_buckets" using sizes by (metis length_map)
    have small: "unat (bk_nSize (s_BlockBucket h ! i)) < 2 ^ 31 - 64" using bucket_sizes(2)[OF sizes i'] initial_sizes[OF i'] by simp
    show ?thesis
    proof (cases "bk_pFreeList (s_BlockBucket h ! i) = 0")
      case True
      have rs: "request_size n = unat (block_step (bk_nSize (s_BlockBucket h ! i)))"
        using Some fb bucket_sizes(2)[OF sizes i'] by (simp add: request_size_def)
      from new_block[OF a small i(2) t] True Some nz show ?thesis unfolding rs by (auto simp: env_malloc_def Let_def)
    next
      case False
      note tf = take_free[OF a i' refl False i(2)]
      have "bk_pFreeList (s_BlockBucket h ! i) + sizeof_TBlockHeader \<noteq> 0"
      proof -
        from a(3) i' False obtain xs where "F i = bk_pFreeList (s_BlockBucket h ! i) # xs" "set (F i) \<subseteq> B"
          by (cases "F i") (auto simp: lists_ok_def)
        then have "unat (bk_pFreeList (s_BlockBucket h ! i)) < 2 ^ 31" using block_small[OF a(2,1)] by auto
        then have "unat (bk_pFreeList (s_BlockBucket h ! i) + 16) = unat (bk_pFreeList (s_BlockBucket h ! i)) + 16" by (simp add: unat_word_ariths)
        then show ?thesis by (metis add_is_0 sizeof_TBlockHeader_def unat_0 zero_neq_numeral)
      qed
      with tf False Some nz show ?thesis by (auto simp: env_malloc_def Let_def)
    qed
  qed
qed

text \<open>Giving a block back.\<close>

lemma env_free_ok:
  assumes ok: "heap_ok base t h live" and p: "live p = Some n"
  shows "\<exists>h'. env_free p h = Some h' \<and> heap_ok base t h' (live(p := None))"
proof -
  let ?b = "p - sizeof_TBlockHeader"
  from ok obtain B F where a: "region_ok base t h" "blocks_ok base h B" "lists_ok h B F" "live_ok h B F live" by (auto simp: heap_ok_def)
  from a(4) p have b: "?b \<in> B" "\<And>i. i < length initial_buckets \<Longrightarrow> ?b \<notin> set (F i)" by (auto simp: live_ok_def)
  have magic: "bh_nMagic (hp_header h ?b) = BLOCK_MAGIC" using a(2) b(1) by (auto simp: blocks_ok_def)
  have bnz: "?b \<noteq> 0" using block_pos[OF a(2) _ b(1)] a(1) by (simp add: region_ok_def)
  have "p \<noteq> 0"
  proof
    assume "p = 0"
    then have "unat ?b = 2 ^ 32 - 16" by (simp add: sizeof_TBlockHeader_def)
    with block_small[OF a(2,1) b(1)] show False by simp
  qed
  note start = this magic
  have sizes: "map bk_nSize (s_BlockBucket h) = map bk_nSize initial_buckets" using a(3) by (simp add: lists_ok_def)
  show ?thesis
  proof (cases "find_bucket (\<lambda>nSize. bh_nSize (hp_header h ?b) = nSize) 0 (s_BlockBucket h)")
    case None
    moreover have "live_ok h B F (live(p := None))" using a(4) by (auto simp: live_ok_def)
    ultimately show ?thesis using start a unfolding heap_ok_def by (auto simp: env_free_def)
  next
    case (Some i)
    from find_bucket_Some[OF Some] have i: "i < length (s_BlockBucket h)" "bh_nSize (hp_header h ?b) = bk_nSize (s_BlockBucket h ! i)" by auto
    then have i': "i < length initial_buckets" using sizes by (metis length_map)
    let ?bk = "s_BlockBucket h ! i"
    let ?h = "h\<lparr>hp_header := (hp_header h)(?b := (hp_header h ?b)\<lparr>bh_pNext := bk_pFreeList ?bk\<rparr>),
                s_BlockBucket := (s_BlockBucket h)[i := ?bk\<lparr>bk_pFreeList := ?b\<rparr>]\<rparr>"
    let ?F = "F(i := ?b # F i)"
    have "lists_ok ?h B ?F" unfolding lists_ok_def
    proof (intro conjI allI impI)
      show "map bk_nSize (s_BlockBucket ?h) = map bk_nSize initial_buckets" using sizes by (simp add: sizes_update)
    next
      fix j assume j: "j < length initial_buckets"
      have c: "chain (hp_header ?h) q (F j) = chain (hp_header h) q (F j)" for q
        using b(2)[OF j] by (intro chain_cong) auto
      show "chain (hp_header ?h) (bk_pFreeList (s_BlockBucket ?h ! j)) (?F j)"
        using a(3) j i c bnz by (cases "j = i") (auto simp: lists_ok_def)
      show "distinct (?F j)" "set (?F j) \<subseteq> B" using a(3) j b by (auto simp: lists_ok_def)
      show "\<forall>b \<in> set (?F j). bh_nSize (hp_header ?h b) = bk_nSize (s_BlockBucket ?h ! j)"
        using a(3) j i by (cases "j = i") (auto simp: lists_ok_def)
    qed
    moreover have "live_ok ?h B ?F (live(p := None))"
    proof -
      have "q - sizeof_TBlockHeader \<noteq> ?b" if "q \<noteq> p" for q using that by simp
      with a(4) show ?thesis unfolding live_ok_def by auto
    qed
    moreover have "blocks_ok base ?h B" using a(2) unfolding blocks_ok_def block_end_def by auto
    moreover have "region_ok base t ?h" using a(1) by (simp add: region_ok_def)
    ultimately show ?thesis using Some start unfolding heap_ok_def by (auto simp: env_free_def Let_def)
  qed
qed

section \<open>Clients\<close>

text \<open>
  What a client does with the allocator: blocks it asks for, which it gets or does not, and blocks it gives back once; \<open>live\<close> are
  the blocks it has, with the size it asked for, and \<open>t\<close> is the total size of the requests that failed.
\<close>

inductive allocs :: "heap \<Rightarrow> heap \<Rightarrow> (u32 \<rightharpoonup> u32) \<Rightarrow> nat \<Rightarrow> bool" for h0 where
  allocs_init: "allocs h0 h0 Map.empty 0"
| allocs_malloc: "\<lbrakk>allocs h0 h live t; unat n < 2 ^ 31 - 64; env_malloc n h = Some (p, h'); p \<noteq> 0\<rbrakk> \<Longrightarrow> allocs h0 h' (live(p \<mapsto> n)) t"
| allocs_fail: "\<lbrakk>allocs h0 h live t; unat n < 2 ^ 31 - 64; env_malloc n h = Some (0, h')\<rbrakk> \<Longrightarrow> allocs h0 h' live (t + request_size n)"
| allocs_free: "\<lbrakk>allocs h0 h live t; live p \<noteq> None; env_free p h = Some h'\<rbrakk> \<Longrightarrow> allocs h0 h' (live(p := None)) t"

lemma allocs_ok: "allocs h0 h live t \<Longrightarrow> t \<le> 2 ^ 30 \<Longrightarrow> heap_ok base 0 h0 Map.empty \<Longrightarrow> heap_ok base t h live"
proof (induction rule: allocs.induct)
  case (allocs_malloc h live t n p h')
  from env_malloc_ok[OF allocs_malloc.IH[OF allocs_malloc.prems] allocs_malloc.hyps(2) allocs_malloc.prems(1)] allocs_malloc.hyps(3,4)
  show ?case by (simp del: fun_upd_apply)
next
  case (allocs_fail h live t n h')
  then have t: "t \<le> 2 ^ 30" by simp
  from env_malloc_ok[OF allocs_fail.IH[OF t allocs_fail.prems(2)] allocs_fail.hyps(2) t] allocs_fail.hyps(3) show ?case by simp
next
  case (allocs_free h live t p h')
  then obtain n where "live p = Some n" by blast
  from env_free_ok[OF allocs_free.IH[OF allocs_free.prems] this] allocs_free.hyps(3) show ?case by (simp del: fun_upd_apply)
qed

lemma allocs_limit: "allocs h0 h live t \<Longrightarrow> s_pBlockLimit h = s_pBlockLimit h0"
  by (induction rule: allocs.induct)
     (auto simp: env_malloc_def env_free_def malloc_new_def malloc_result_def bind_Some_iff Let_def split: option.splits if_splits)

lemma heap_init:
  assumes "s_BlockBucket h = initial_buckets" and "MEM_HEAP_START \<le> ulSize" "ulSize \<le> 0x40000000"
  shows "heap_ok 0x500000 0 (mem_init 0 ulSize h) Map.empty \<and> s_pBlockLimit (mem_init 0 ulSize h) \<le> ulSize"
proof -
  let ?h = "mem_init 0 ulSize h"
  have u: "unat ulSize \<le> 0x40000000" "0x500000 \<le> unat ulSize" using assms(2,3) by (simp_all add: word_le_nat_alt MEM_HEAP_START_def)
  have d: "unat (ulSize - 0x500000) = unat ulSize - 0x500000" using u by (simp add: unat_sub word_le_nat_alt)
  have q: "unat (0x500000 + (ulSize - 0x500000) div 4) = 0x500000 + (unat ulSize - 0x500000) div 4"
    using u by (simp add: unat_word_ariths unat_div d)
  have f: "s_pNextBlock ?h = 0x500000" "s_pBlockLimit ?h = 0x500000 + (ulSize - 0x500000) div 4" "s_BlockBucket ?h = initial_buckets"
    using assms(1) by (simp_all add: mem_init_def Let_def MEM_HEAP_START_def)
  have "region_ok 0x500000 0 ?h" using u by (simp add: region_ok_def f word_le_nat_alt q)
  moreover have "blocks_ok 0x500000 ?h {}" by (simp add: blocks_ok_def)
  moreover have "bk_pFreeList (initial_buckets ! i) = 0" if "i < length initial_buckets" for i
  proof -
    have "list_all (\<lambda>b. bk_pFreeList b = 0) initial_buckets" by (simp add: initial_buckets_def)
    with that show ?thesis by (simp add: list_all_length)
  qed
  then have "lists_ok ?h {} (\<lambda>_. [])" by (simp add: lists_ok_def f)
  moreover have "live_ok ?h {} (\<lambda>_. []) Map.empty" by (simp add: live_ok_def)
  ultimately show ?thesis using u unfolding heap_ok_def by (auto simp: f word_le_nat_alt q)
qed

text \<open>What the invariant says of the blocks of the client.\<close>

lemma heap_ok_live:
  assumes "heap_ok base t h live" and "live p = Some n"
  shows "unat p mod 16 = 0 \<and> base + 16 \<le> unat p \<and> unat p + unat n \<le> unat (s_pBlockLimit h)"
    and "live q = Some k \<Longrightarrow> p \<noteq> q \<Longrightarrow> unat p + unat n + 16 \<le> unat q \<or> unat q + unat k + 16 \<le> unat p"
    and "i < length initial_buckets \<Longrightarrow> \<exists>bs. chain (hp_header h) (bk_pFreeList (s_BlockBucket h ! i)) bs
      \<and> (\<forall>b \<in> set bs. unat p + unat n \<le> unat b \<or> unat b + 32 \<le> unat p)"
proof -
  from assms(1) obtain B F where a: "region_ok base t h" "blocks_ok base h B" "live_ok h B F live" and l: "lists_ok h B F"
    by (auto simp: heap_ok_def)
  define at where "at r m b \<longleftrightarrow> unat r = unat b + 16 \<and> unat b mod 16 = 0 \<and> base \<le> unat b \<and> unat r + unat m \<le> block_end h b
      \<and> block_end h b \<le> unat (s_pBlockLimit h)" for r m :: u32 and b :: u32
  have blk: "r - sizeof_TBlockHeader \<in> B \<and> at r m (r - sizeof_TBlockHeader)" if "live r = Some m" for r m
  proof -
    let ?b = "r - sizeof_TBlockHeader"
    from a(3) that have b: "?b \<in> B" "m \<le> bh_nSize (hp_header h ?b)" by (auto simp: live_ok_def)
    with a(2) have c: "base \<le> unat ?b" "unat ?b mod 16 = 0" "unat (bh_nSize (hp_header h ?b)) < 2 ^ 31" "block_end h ?b \<le> unat (s_pBlockLimit h)"
      by (auto simp: blocks_ok_def)
    have "unat (?b + 16) = unat ?b + 16" using block_small[OF a(2,1) b(1)] by (simp only: unat_word_ariths) simp
    then have r: "unat r = unat ?b + 16" by (simp add: sizeof_TBlockHeader_def)
    have "unat r + unat m \<le> block_end h ?b"
      using block_step_unat[OF c(3)] r b(2) by (simp add: block_end_def word_le_nat_alt)
    then show ?thesis using b(1) c(1,2,4) r by (simp add: at_def)
  qed
  have apart: "block_end h b \<le> unat c \<or> block_end h c \<le> unat b" if "b \<in> B" "c \<in> B" "b \<noteq> c" for b c
    using a(2) that by (auto simp: blocks_ok_def)
  let ?b = "p - sizeof_TBlockHeader"
  have b: "?b \<in> B" "at p n ?b" using blk[OF assms(2)] by simp_all
  then show "unat p mod 16 = 0 \<and> base + 16 \<le> unat p \<and> unat p + unat n \<le> unat (s_pBlockLimit h)" by (simp add: at_def)
  show "unat p + unat n + 16 \<le> unat q \<or> unat q + unat k + 16 \<le> unat p" if "live q = Some k" "p \<noteq> q"
    using apart[of ?b "q - sizeof_TBlockHeader"] b blk[OF that(1)] that(2) by (auto simp: at_def)
  show "\<exists>bs. chain (hp_header h) (bk_pFreeList (s_BlockBucket h ! i)) bs
      \<and> (\<forall>b \<in> set bs. unat p + unat n \<le> unat b \<or> unat b + 32 \<le> unat p)" if i: "i < length initial_buckets"
  proof (intro exI[of _ "F i"] conjI ballI)
    show "chain (hp_header h) (bk_pFreeList (s_BlockBucket h ! i)) (F i)" using l i by (simp add: lists_ok_def)
    fix c assume c: "c \<in> set (F i)"
    with l i have "c \<in> B" by (auto simp: lists_ok_def)
    moreover have "c \<noteq> ?b" using a(3) assms(2) i c by (auto simp: live_ok_def)
    moreover have "unat c + 16 \<le> block_end h c"
    proof -
      have "unat (bh_nSize (hp_header h c)) < 2 ^ 31" using a(2) \<open>c \<in> B\<close> by (auto simp: blocks_ok_def)
      from block_step_unat[OF this] show ?thesis by (simp add: block_end_def)
    qed
    ultimately show "unat p + unat n \<le> unat c \<or> unat c + 32 \<le> unat p" using apart[of ?b c] b by (auto simp: at_def)
  qed
qed


text \<open>A heap of 128 MB; two blocks, a request that is too large, and the first block given back and used again.\<close>

definition boot_heap :: heap where
  "boot_heap = \<lparr>s_pNextBlock = 0, s_pBlockLimit = 0, s_pNextPage = 0, s_pPageLimit = 0, s_BlockBucket = initial_buckets, s_PageBucket = 0,
     hp_header = (\<lambda>_. \<lparr>bh_nMagic = 0, bh_nSize = 0, bh_pNext = 0\<rparr>), hp_page = (\<lambda>_. \<lparr>fp_nMagic = 0, fp_pNext = 0\<rparr>)\<rparr>"

definition heap0 :: heap where "heap0 = mem_init 0 0x8000000 boot_heap"
definition heap1 :: heap where "heap1 = snd (the (env_malloc 100 heap0))"
definition heap2 :: heap where "heap2 = snd (the (env_malloc 10 heap1))"
definition heap3 :: heap where "heap3 = snd (the (env_malloc 0x10000000 heap2))"
definition heap4 :: heap where "heap4 = the (env_free 0x500010 heap3)"
definition heap5 :: heap where "heap5 = snd (the (env_malloc 1000 heap4))"

lemma heap_steps:
  "map_option fst (env_malloc 100 heap0) = Some 0x500010" "map_option fst (env_malloc 10 heap1) = Some 0x500420"
  "map_option fst (env_malloc 0x10000000 heap2) = Some 0" "map_option (\<lambda>_. ()) (env_free 0x500010 heap3) = Some ()"
  "map_option fst (env_malloc 1000 heap4) = Some 0x500010"
  by code_simp+

lemma request_256MB: "request_size 0x10000000 = 0x10000010"
  by (simp add: request_size_def initial_buckets_def block_step_unat)

lemma heap_runs:
  "env_malloc 100 heap0 = Some (0x500010, heap1)" "env_malloc 10 heap1 = Some (0x500420, heap2)"
  "env_malloc 0x10000000 heap2 = Some (0, heap3)" "env_free 0x500010 heap3 = Some heap4" "env_malloc 1000 heap4 = Some (0x500010, heap5)"
  using heap_steps by (auto simp: heap1_def heap2_def heap3_def heap4_def heap5_def)


text \<open>
  Where the bounds of the claim matter.  A request close to four gigabytes runs over in the size of the block: it succeeds and the
  block has no room at all.  A request that fails still moves the end of the used memory, so that after one
  that was too large every request for new memory fails; and when the requests that fail add up to the address space, the end runs
  through it: the sixteenth request of 256 MB is granted outside of the memory, and the next block that is given is one that is in use.
\<close>

lemma malloc_size_overflow:
  "map_option (\<lambda>(p, h). (p, s_pNextBlock h)) (env_malloc 0xFFFFFFFF heap0) = Some (0x500010, 0x500010)"
  by code_simp

lemma malloc_failure_sticks:
  "map_option fst (env_malloc 16 (snd (the (env_malloc 0x10000000 heap0)))) = Some 0"
  by code_simp

fun mallocs :: "u32 list \<Rightarrow> heap \<Rightarrow> u32 list" where
  "mallocs [] h = []"
| "mallocs (n # ns) h = (case env_malloc n h of None \<Rightarrow> [] | Some (p, h) \<Rightarrow> p # mallocs ns h)"

lemma malloc_failures_overlap:
  "mallocs (100 # replicate 15 0x0FFFFFF0 @ [0x0FFFFBE0, 100]) heap0 = 0x500010 # replicate 15 0 @ [0xF0500420, 0x500010]"
  by code_simp

end
