(* ===== verification/MemorySystem.thy ===== *)
theory MemorySystem
  imports Firmware Allocator
begin

text \<open>
  The memory system of the environment (\<^verbatim>\<open>env/lib/memory.c\<close>) and its page table (\<^verbatim>\<open>env/lib/pagetable.c\<close>): the size of the memory is
  asked from the firmware, the heap is set up in it, and one section descriptor for each megabyte of the address space maps it to itself.

  The registers of the system control coprocessor are a record; the assembly statements read and write its fields.  The maintenance of the
  caches and of the translation buffer between these writes has no effect on the state of the model.  The end of the
  program text, a symbol of the linker, is the parameter \<open>etext\<close>.
\<close>

unbundle bit_operations_syntax

section \<open>Constants and state\<close>

definition MEGABYTE :: u32 where "MEGABYTE = 0x100000"
definition MEM_SIZE :: u32 where "MEM_SIZE = 256 * MEGABYTE"
definition GPU_MEM_SIZE :: u32 where "GPU_MEM_SIZE = 64 * MEGABYTE"
definition ARM_MEM_SIZE :: u32 where "ARM_MEM_SIZE = MEM_SIZE - GPU_MEM_SIZE"
definition KERNEL_MAX_SIZE :: u32 where "KERNEL_MAX_SIZE = 2 * MEGABYTE"
definition KERNEL_STACK_SIZE :: u32 where "KERNEL_STACK_SIZE = 0x20000"
definition EXCEPTION_STACK_SIZE :: u32 where "EXCEPTION_STACK_SIZE = 0x8000"
definition MEM_KERNEL_START :: u32 where "MEM_KERNEL_START = 0x8000"
definition MEM_KERNEL_END :: u32 where "MEM_KERNEL_END = MEM_KERNEL_START + KERNEL_MAX_SIZE"
definition MEM_KERNEL_STACK :: u32 where "MEM_KERNEL_STACK = MEM_KERNEL_END + KERNEL_STACK_SIZE"
definition MEM_ABORT_STACK :: u32 where "MEM_ABORT_STACK = MEM_KERNEL_STACK + EXCEPTION_STACK_SIZE"
definition MEM_IRQ_STACK :: u32 where "MEM_IRQ_STACK = MEM_ABORT_STACK + EXCEPTION_STACK_SIZE"
definition MEM_PAGE_TABLE1 :: u32 where "MEM_PAGE_TABLE1 = MEM_IRQ_STACK"

definition ARMV6MMUL1SECTION_NORMAL :: u32 where "ARMV6MMUL1SECTION_NORMAL = 0x0040E"
definition ARMV6MMUL1SECTION_NORMAL_XN :: u32 where "ARMV6MMUL1SECTION_NORMAL_XN = 0x0041E"
definition ARMV6MMUL1SECTION_DEVICE :: u32 where "ARMV6MMUL1SECTION_DEVICE = 0x10416"
definition ARMV6MMUL1SECTION_COHERENT :: u32 where "ARMV6MMUL1SECTION_COHERENT = 0x10412"
definition ARM_TTBR_INNER_WRITE_BACK :: u32 where "ARM_TTBR_INNER_WRITE_BACK = push_bit 6 1 OR 1"
definition ARM_TTBR_OUTER_WRITE_BACK :: u32 where "ARM_TTBR_OUTER_WRITE_BACK = push_bit 3 3"
definition TTBR_MODE :: u32 where "TTBR_MODE = ARM_TTBR_INNER_WRITE_BACK OR ARM_TTBR_OUTER_WRITE_BACK"
definition ARM_CONTROL_MMU :: u32 where "ARM_CONTROL_MMU = 1"
definition ARM_CONTROL_L1_CACHE :: u32 where "ARM_CONTROL_L1_CACHE = push_bit 2 1"
definition ARM_CONTROL_BRANCH_PREDICTION :: u32 where "ARM_CONTROL_BRANCH_PREDICTION = push_bit 11 1"
definition ARM_CONTROL_L1_INSTRUCTION_CACHE :: u32 where "ARM_CONTROL_L1_INSTRUCTION_CACHE = push_bit 12 1"
definition MMU_MODE :: u32 where
  "MMU_MODE = ARM_CONTROL_MMU OR ARM_CONTROL_L1_CACHE OR ARM_CONTROL_L1_INSTRUCTION_CACHE OR ARM_CONTROL_BRANCH_PREDICTION"
definition ARM_AUX_CONTROL_SMP :: u32 where "ARM_AUX_CONTROL_SMP = push_bit 6 1"
definition ARM_TLB_TYPE_SEPARATE_TLBS :: u32 where "ARM_TLB_TYPE_SEPARATE_TLBS = 1"
definition DOMAIN_CLIENT :: u32 where "DOMAIN_CLIENT = 1"
definition TTBCR_SPLIT :: u32 where "TTBCR_SPLIT = 0"
definition PROPTAG_GET_ARM_MEMORY :: u32 where "PROPTAG_GET_ARM_MEMORY = 0x00010005"

record TPageTable =
  pg_pTable :: u32

record TMemorySystem =
  ms_bEnableMMU :: bool
  ms_nMemSize :: u32
  ms_pPageTable :: "(u32 \<times> TPageTable) option" \<comment> \<open>the address from \<^verbatim>\<open>malloc\<close> and the object there\<close>

record cp15 =
  cp_aux :: u32
  cp_tlb_type :: u32
  cp_ttbcr :: u32
  cp_ttbr0 :: u32
  cp_dacr :: u32
  cp_control :: u32

record mem_world = fw_world +
  mw_heap :: heap
  mw_cp15 :: cp15

section \<open>The page table\<close>

definition page_entry :: "u32 \<Rightarrow> u32 \<Rightarrow> nat \<Rightarrow> u32" where
  "page_entry etext nMemSize nEntry =
     (let nBaseAddress = MEGABYTE * of_nat nEntry
      in if nBaseAddress = ucast MEM_COHERENT_REGION then ARMV6MMUL1SECTION_COHERENT OR nBaseAddress
         else if nBaseAddress < nMemSize
              then (if nBaseAddress < etext then ARMV6MMUL1SECTION_NORMAL OR nBaseAddress
                    else ARMV6MMUL1SECTION_NORMAL_XN OR nBaseAddress)
         else ARMV6MMUL1SECTION_DEVICE OR nBaseAddress)"

definition PageTable :: "u32 \<Rightarrow> u32 \<Rightarrow> mem \<Rightarrow> (TPageTable \<times> mem) option" where
  "PageTable etext nMemSize m = do {
     let pTable = MEM_PAGE_TABLE1;
     c_assert (pTable AND 0x3FFF = 0);
     Some (\<lparr>pg_pTable = pTable\<rparr>, mem_write (ucast pTable) (concat (map (\<lambda>nEntry. bytes32 (page_entry etext nMemSize nEntry)) [0..<4096])) m) }"

definition PageTableGetBaseAddress :: "TPageTable \<Rightarrow> u32" where
  "PageTableGetBaseAddress pThis = pg_pTable pThis OR TTBR_MODE"

section \<open>The memory system\<close>

definition MemorySystemEnableMMU :: "TMemorySystem \<Rightarrow> cp15 \<Rightarrow> cp15 option" where
  "MemorySystemEnableMMU pThis c = do {
     c_assert (ms_bEnableMMU pThis);
     let c = c\<lparr>cp_aux := cp_aux c OR ARM_AUX_CONTROL_SMP\<rparr>;
     c_assert (cp_tlb_type c AND ARM_TLB_TYPE_SEPARATE_TLBS = 0);
     let c = c\<lparr>cp_ttbcr := TTBCR_SPLIT\<rparr>;
     (_, t) \<leftarrow> ms_pPageTable pThis;
     let c = c\<lparr>cp_ttbr0 := PageTableGetBaseAddress t\<rparr>;
     let c = c\<lparr>cp_dacr := push_bit 0 DOMAIN_CLIENT\<rparr>;
     Some (c\<lparr>cp_control := cp_control c OR MMU_MODE\<rparr>) }"

definition MemorySystem :: "u8 list \<Rightarrow> u32 \<Rightarrow> bool \<Rightarrow> 'a mem_world_scheme \<Rightarrow> (TMemorySystem \<times> 'a mem_world_scheme) option" where
  "MemorySystem tag etext bEnableMMU w = do {
     (ok, TagMemory, w) \<leftarrow> BcmPropertyTagsGetTag BcmPropertyTags PROPTAG_GET_ARM_MEMORY tag 0 w;
     let nBaseAddress = (if ok then word32 (take 4 (drop 12 TagMemory)) else 0);
     let nSize = (if ok then word32 (take 4 (drop 16 TagMemory)) else ARM_MEM_SIZE);
     c_assert (nBaseAddress = 0);
     let w = w\<lparr>mw_heap := mem_init nBaseAddress nSize (mw_heap w)\<rparr>;
     if \<not> bEnableMMU then Some (\<lparr>ms_bEnableMMU = False, ms_nMemSize = nSize, ms_pPageTable = None\<rparr>, w)
     else do {
       (p, h) \<leftarrow> env_malloc 4 (mw_heap w);
       c_assert (p \<noteq> 0);
       (t, m) \<leftarrow> PageTable etext nSize (fw_mem w);
       let pThis = \<lparr>ms_bEnableMMU = True, ms_nMemSize = nSize, ms_pPageTable = Some (p, t)\<rparr>;
       c \<leftarrow> MemorySystemEnableMMU pThis (mw_cp15 w);
       Some (pThis, w\<lparr>mw_heap := h, fw_mem := m, mw_cp15 := c\<rparr>) } }"

text \<open>\<^verbatim>\<open>free\<close> refuses a null pointer, so that a memory system without the page table cannot be destroyed.\<close>

definition MemorySystem_dtor :: "TMemorySystem \<Rightarrow> 'a mem_world_scheme \<Rightarrow> (TMemorySystem \<times> 'a mem_world_scheme) option" where
  "MemorySystem_dtor pThis w = do {
     let w = (if ms_bEnableMMU pThis
              then w\<lparr>mw_cp15 := (mw_cp15 w)\<lparr>cp_control := cp_control (mw_cp15 w) AND NOT MMU_MODE\<rparr>\<rparr> else w);
     (p, _) \<leftarrow> ms_pPageTable pThis;
     h \<leftarrow> env_free p (mw_heap w);
     Some (pThis\<lparr>ms_pPageTable := None\<rparr>, w\<lparr>mw_heap := h\<rparr>) }"

definition MemorySystemGetMemSize :: "TMemorySystem \<Rightarrow> u32" where
  "MemorySystemGetMemSize pThis = ms_nMemSize pThis"

section \<open>What the processor makes of the table\<close>

text \<open>The translation of an address through a table of sections, as the architecture defines it.\<close>

datatype memory_type = StronglyOrdered | SharedDevice | NormalMemory bool \<comment> \<open>whether code may run there\<close> | OtherType

definition section_type :: "u32 \<Rightarrow> memory_type" where
  "section_type a = (let tex = drop_bit 12 a AND 7; c = bit a 3; b = bit a 2; xn = bit a 4
     in if tex \<noteq> 0 then OtherType
        else if \<not> c \<and> \<not> b then StronglyOrdered
        else if \<not> c then SharedDevice
        else NormalMemory (\<not> xn))"

definition section_walk :: "u32 \<Rightarrow> mem \<Rightarrow> u32 \<Rightarrow> (u32 \<times> memory_type) option" where
  "section_walk ttbr m va =
     (let desc = get32 (ucast (ttbr AND NOT (mask 14)) + 4 * ucast (drop_bit 20 va)) m;
          a = desc AND mask 20
      in if a AND 3 \<noteq> 2 then None else Some ((desc AND NOT (mask 20)) OR (va AND mask 20), section_type a))"

definition section_base :: "u32 \<Rightarrow> u32" where
  "section_base va = va AND NOT (mask 20)"

definition memory_kind :: "u32 \<Rightarrow> u32 \<Rightarrow> u32 \<Rightarrow> memory_type" where
  "memory_kind etext nMemSize va =
     (if section_base va = ucast MEM_COHERENT_REGION then StronglyOrdered
      else if section_base va < nMemSize then NormalMemory (section_base va < etext) else SharedDevice)"

lemma take_drop_concat:
  assumes "\<And>x. length (f x) = k" and "n < length xs"
  shows "take k (drop (k * n) (concat (map f xs))) = f (xs ! n)"
  using assms(2)
proof (induction n arbitrary: xs)
  case 0
  then show ?case by (cases xs) (simp_all add: assms(1))
next
  case (Suc n)
  then obtain x ys where "xs = x # ys" by (cases xs) auto
  with Suc show ?case by (simp add: assms(1))
qed

lemma concat_length:
  assumes "\<And>x. length (f x) = k"
  shows "length (concat (map f xs)) = k * length xs"
  by (induction xs) (simp_all add: assms)

lemma table_entry_read:
  assumes "n < 4096"
  shows "get32 (p + 4 * of_nat n) (mem_write p (concat (map (\<lambda>k. bytes32 (f k)) [0..<4096])) m) = f n"
proof -
  let ?bs = "concat (map (\<lambda>k. bytes32 (f k)) [0..<4096])"
  have len: "length ?bs = 16384" using concat_length[of "\<lambda>k. bytes32 (f k)" 4 "[0..<4096]"] by simp
  have "mem_read (p + of_nat (4 * n)) 4 (mem_write p ?bs m) = take 4 (drop (4 * n) (mem_read p (length ?bs) (mem_write p ?bs m)))"
    using assms by (intro mem_read_part[symmetric]) (simp add: len)
  also have "\<dots> = take 4 (drop (4 * n) ?bs)" using mem_read_write[of ?bs p m] by (simp add: len)
  also have "\<dots> = bytes32 (f n)" using take_drop_concat[of "\<lambda>k. bytes32 (f k)" 4 n "[0..<4096]"] assms by simp
  finally show ?thesis by (simp add: get32_def word32_bytes32)
qed

lemma section_number:
  shows "MEGABYTE * of_nat (unat (drop_bit 20 va)) = section_base va" and "unat (drop_bit 20 (va :: u32)) < 4096"
    and "ucast (drop_bit 20 va) = (of_nat (unat (drop_bit 20 va)) :: uintptr)"
proof -
  have "MEGABYTE * of_nat (unat (drop_bit 20 va)) = push_bit 20 (drop_bit 20 va)"
    by (simp add: MEGABYTE_def push_bit_eq_mult)
  also have "\<dots> = section_base va" unfolding section_base_def by (rule bit_word_eqI) (auto simp: bit_simps)
  finally show "MEGABYTE * of_nat (unat (drop_bit 20 va)) = section_base va" .
  show "unat (drop_bit 20 va) < 4096" using unat_less_2p[of va] by (simp add: drop_bit_eq_div unat_div_distrib less_mult_imp_div_less)
  show "ucast (drop_bit 20 va) = (of_nat (unat (drop_bit 20 va)) :: uintptr)" by simp
qed

lemma section_parts:
  assumes "c AND NOT (mask 20) = 0"
  shows "(c OR section_base va) AND mask 20 = c" and "(c OR section_base va) AND NOT (mask 20) = section_base va"
    and "section_base va OR (va AND mask 20) = va"
proof -
  have c: "n < 20" if "bit c n" "n < 32" for n using arg_cong[OF assms, of "\<lambda>w. bit w n"] that by (simp add: bit_simps not_less)
  show "(c OR section_base va) AND mask 20 = c" unfolding section_base_def
    by (rule bit_word_eqI) (use c in \<open>auto simp: bit_simps not_less\<close>)
  show "(c OR section_base va) AND NOT (mask 20) = section_base va" unfolding section_base_def
    by (rule bit_word_eqI) (use c in \<open>fastforce simp: bit_simps not_less\<close>)
  show "section_base va OR (va AND mask 20) = va" unfolding section_base_def
    by (rule bit_word_eqI) (auto simp: bit_simps)
qed

lemma page_entry_section:
  "\<exists>c. page_entry etext nMemSize (unat (drop_bit 20 va)) = c OR section_base va \<and> c AND NOT (mask 20) = 0 \<and> c AND 3 = 2
    \<and> section_type c = memory_kind etext nMemSize va"
proof -
  let ?c = "if section_base va = ucast MEM_COHERENT_REGION then ARMV6MMUL1SECTION_COHERENT
    else if section_base va < nMemSize then (if section_base va < etext then ARMV6MMUL1SECTION_NORMAL else ARMV6MMUL1SECTION_NORMAL_XN)
    else ARMV6MMUL1SECTION_DEVICE"
  have "page_entry etext nMemSize (unat (drop_bit 20 va)) = ?c OR section_base va"
    unfolding page_entry_def section_number(1) Let_def by (simp split: if_splits)
  moreover have "?c AND NOT (mask 20) = 0" "?c AND 3 = 2"
    by (simp_all add: ARMV6MMUL1SECTION_COHERENT_def ARMV6MMUL1SECTION_NORMAL_def ARMV6MMUL1SECTION_NORMAL_XN_def ARMV6MMUL1SECTION_DEVICE_def
        mask_eq_exp_minus_1)
  moreover have "section_type ?c = memory_kind etext nMemSize va"
    by (simp add: memory_kind_def ARMV6MMUL1SECTION_COHERENT_def ARMV6MMUL1SECTION_NORMAL_def ARMV6MMUL1SECTION_NORMAL_XN_def
        ARMV6MMUL1SECTION_DEVICE_def section_type_def)
  ultimately show ?thesis by blast
qed

text \<open>
  Claim C40. The page table maps the memory to itself.  It is built without a fault, and the processor, given the base
  address with its mode bits, finds a section for every address of the address space that translates it to itself:
  strongly ordered in the region that is shared with the firmware, cached below the size of the memory with code in the sections of the
  program text only, and device memory above.
\<close>

theorem page_table_identity:
  "\<exists>t m'. PageTable etext nMemSize m = Some (t, m')
    \<and> (\<forall>va. section_walk (PageTableGetBaseAddress t) m' va = Some (va, memory_kind etext nMemSize va))"
proof -
  let ?f = "page_entry etext nMemSize"
  let ?m = "mem_write (ucast MEM_PAGE_TABLE1) (concat (map (\<lambda>k. bytes32 (?f k)) [0..<4096])) m"
  have tab: "MEM_PAGE_TABLE1 = 0x238000"
    by (simp add: MEM_PAGE_TABLE1_def MEM_IRQ_STACK_def MEM_ABORT_STACK_def MEM_KERNEL_STACK_def MEM_KERNEL_END_def MEM_KERNEL_START_def
        KERNEL_MAX_SIZE_def KERNEL_STACK_SIZE_def EXCEPTION_STACK_SIZE_def MEGABYTE_def)
  have base: "(MEM_PAGE_TABLE1 OR TTBR_MODE) AND NOT (mask 14) = MEM_PAGE_TABLE1"
    by (simp add: tab TTBR_MODE_def ARM_TTBR_INNER_WRITE_BACK_def ARM_TTBR_OUTER_WRITE_BACK_def mask_eq_exp_minus_1)
  have walk: "section_walk (MEM_PAGE_TABLE1 OR TTBR_MODE) ?m va = Some (va, memory_kind etext nMemSize va)" for va
  proof -
    let ?n = "unat (drop_bit 20 va)"
    note sec = section_number[of va]
    have e: "get32 (ucast MEM_PAGE_TABLE1 + 4 * ucast (drop_bit 20 va)) ?m = ?f ?n"
      using table_entry_read[OF sec(2)] by (simp only: sec(3))
    from page_entry_section obtain c where
      c: "?f ?n = c OR section_base va" "c AND NOT (mask 20) = 0" "c AND 3 = 2" "section_type c = memory_kind etext nMemSize va" by blast
    note parts = section_parts[OF c(2), of va]
    show ?thesis unfolding section_walk_def Let_def base e c(1) parts using c(3,4) by simp
  qed
  moreover have "PageTable etext nMemSize m = Some (\<lparr>pg_pTable = MEM_PAGE_TABLE1\<rparr>, ?m)" by (simp add: PageTable_def tab)
  ultimately show ?thesis by (auto simp: PageTableGetBaseAddress_def)
qed

end
