(* ===== verification/Interrupts.thy ===== *)
theory Interrupts
  imports HostCore
begin

text \<open>
  Interrupts of the processor: critical sections and cache maintenance (\<^verbatim>\<open>lib/synchronize.c\<close>, \<^verbatim>\<open>env/lib/synchronize.c\<close>) and the
  interrupt controller (\<^verbatim>\<open>env/lib/interrupt.c\<close>).

  The processor state that matters is whether it takes interrupts; the single instructions that set or read that flag, and
  the cache operations on one line, are what the assembly statements do.  The registers of the interrupt controller are those
  of \<^verbatim>\<open>Mmio\<close>.  Handlers are code of others: the parameter \<open>call\<close> says what a call of one does.
\<close>

unbundle bit_operations_syntax

section \<open>Critical sections\<close>

record cpu =
  cpu_enabled :: bool
  s_nCriticalLevel :: u32
  s_bWereEnabled :: bool

definition EnterCritical :: "'a cpu_scheme \<Rightarrow> 'a cpu_scheme" where
  "EnterCritical c =
     (let bEnabled = cpu_enabled c;
          c = c\<lparr>cpu_enabled := False\<rparr>;
          nLevel = s_nCriticalLevel c;
          c = c\<lparr>s_nCriticalLevel := nLevel + 1\<rparr>
      in if nLevel = 0 then c\<lparr>s_bWereEnabled := bEnabled\<rparr> else c)"

definition LeaveCritical :: "'a cpu_scheme \<Rightarrow> 'a cpu_scheme option" where
  "LeaveCritical c = do {
     c_assert (s_nCriticalLevel c > 0);
     let c = c\<lparr>s_nCriticalLevel := s_nCriticalLevel c - 1\<rparr>;
     Some (if s_nCriticalLevel c = 0 \<and> s_bWereEnabled c then c\<lparr>cpu_enabled := True\<rparr> else c) }"

section \<open>Cache maintenance\<close>

definition DATA_CACHE_LINE_LENGTH_MIN :: u32 where "DATA_CACHE_LINE_LENGTH_MIN = 64"

text \<open>The loop of the three range operations, which differ in the instruction only: the addresses it is given, in order.\<close>

function cache_range_loop :: "u32 \<Rightarrow> u32 \<Rightarrow> u32 list" where
  "cache_range_loop nAddress nLength =
     nAddress # (if nLength < DATA_CACHE_LINE_LENGTH_MIN then []
                 else cache_range_loop (nAddress + DATA_CACHE_LINE_LENGTH_MIN) (nLength - DATA_CACHE_LINE_LENGTH_MIN))"
  by pat_completeness auto

termination
  by (relation "measure (\<lambda>(_, n). unat n)") (auto simp: DATA_CACHE_LINE_LENGTH_MIN_def unat_sub word_le_nat_alt word_less_nat_alt)

declare cache_range_loop.simps [simp del]

definition cache_range :: "u32 \<Rightarrow> u32 \<Rightarrow> u32 list" where
  "cache_range nAddress nLength = cache_range_loop nAddress (nLength + DATA_CACHE_LINE_LENGTH_MIN)"

text \<open>The operations on the whole cache go through sets and ways of both levels.\<close>

definition set_way :: "nat \<Rightarrow> nat \<Rightarrow> nat \<Rightarrow> nat \<Rightarrow> nat \<Rightarrow> u32 list" where
  "set_way nSets nWays nWayShift nSetShift nLevel =
     [push_bit nWayShift (of_nat nWay) OR push_bit nSetShift (of_nat nSet) OR push_bit 1 (of_nat nLevel). nSet \<leftarrow> [0..<nSets], nWay \<leftarrow> [0..<nWays]]"

definition data_cache_all :: "u32 list" where
  "data_cache_all = set_way 128 4 30 6 0 @ set_way 512 16 28 6 1"

text \<open>The instructions of the cache, and the operations as the sequences of them.\<close>

datatype cache_instruction = DCISW u32 | DCCSW u32 | DCIMVAC u32 | DCCMVAC u32 | DCCIMVAC u32

definition InvalidateDataCache :: "cache_instruction list" where
  "InvalidateDataCache = map DCISW data_cache_all"

definition CleanDataCache :: "cache_instruction list" where
  "CleanDataCache = map DCCSW data_cache_all"

definition InvalidateDataCacheRange :: "u32 \<Rightarrow> u32 \<Rightarrow> cache_instruction list" where
  "InvalidateDataCacheRange nAddress nLength = map DCIMVAC (cache_range nAddress nLength)"

definition CleanDataCacheRange :: "u32 \<Rightarrow> u32 \<Rightarrow> cache_instruction list" where
  "CleanDataCacheRange nAddress nLength = map DCCMVAC (cache_range nAddress nLength)"

definition CleanAndInvalidateDataCacheRange :: "u32 \<Rightarrow> u32 \<Rightarrow> cache_instruction list" where
  "CleanAndInvalidateDataCacheRange nAddress nLength = map DCCIMVAC (cache_range nAddress nLength)"

section \<open>The interrupt controller\<close>

definition IRQ_LINES :: nat where "IRQ_LINES = 32 * 2 + 8"
definition ARM_IRQ2_BASE :: nat where "ARM_IRQ2_BASE = 32"
definition ARM_IRQBASIC_BASE :: nat where "ARM_IRQBASIC_BASE = 64"
definition ARM_IC_BASE :: uintptr where "ARM_IC_BASE = 0x3F00B000"
definition ARM_IC_IRQ_BASIC_PENDING :: uintptr where "ARM_IC_IRQ_BASIC_PENDING = ARM_IC_BASE + 0x200"
definition ARM_IC_IRQ_PENDING_1 :: uintptr where "ARM_IC_IRQ_PENDING_1 = ARM_IC_BASE + 0x204"
definition ARM_IC_IRQ_PENDING_2 :: uintptr where "ARM_IC_IRQ_PENDING_2 = ARM_IC_BASE + 0x208"
definition ARM_IC_FIQ_CONTROL :: uintptr where "ARM_IC_FIQ_CONTROL = ARM_IC_BASE + 0x20C"
definition ARM_IC_ENABLE_IRQS_1 :: uintptr where "ARM_IC_ENABLE_IRQS_1 = ARM_IC_BASE + 0x210"
definition ARM_IC_ENABLE_IRQS_2 :: uintptr where "ARM_IC_ENABLE_IRQS_2 = ARM_IC_BASE + 0x214"
definition ARM_IC_ENABLE_BASIC_IRQS :: uintptr where "ARM_IC_ENABLE_BASIC_IRQS = ARM_IC_BASE + 0x218"
definition ARM_IC_DISABLE_IRQS_1 :: uintptr where "ARM_IC_DISABLE_IRQS_1 = ARM_IC_BASE + 0x21C"
definition ARM_IC_DISABLE_IRQS_2 :: uintptr where "ARM_IC_DISABLE_IRQS_2 = ARM_IC_BASE + 0x220"
definition ARM_IC_DISABLE_BASIC_IRQS :: uintptr where "ARM_IC_DISABLE_BASIC_IRQS = ARM_IC_BASE + 0x224"

definition ARM_IC_IRQ_PENDING :: "nat \<Rightarrow> uintptr" where
  "ARM_IC_IRQ_PENDING irq = (if irq < ARM_IRQ2_BASE then ARM_IC_IRQ_PENDING_1
     else if irq < ARM_IRQBASIC_BASE then ARM_IC_IRQ_PENDING_2 else ARM_IC_IRQ_BASIC_PENDING)"

definition ARM_IC_IRQS_ENABLE :: "nat \<Rightarrow> uintptr" where
  "ARM_IC_IRQS_ENABLE irq = (if irq < ARM_IRQ2_BASE then ARM_IC_ENABLE_IRQS_1
     else if irq < ARM_IRQBASIC_BASE then ARM_IC_ENABLE_IRQS_2 else ARM_IC_ENABLE_BASIC_IRQS)"

definition ARM_IC_IRQS_DISABLE :: "nat \<Rightarrow> uintptr" where
  "ARM_IC_IRQS_DISABLE irq = (if irq < ARM_IRQ2_BASE then ARM_IC_DISABLE_IRQS_1
     else if irq < ARM_IRQBASIC_BASE then ARM_IC_DISABLE_IRQS_2 else ARM_IC_DISABLE_BASIC_IRQS)"

definition ARM_IRQ_MASK :: "nat \<Rightarrow> u32" where
  "ARM_IRQ_MASK irq = push_bit (irq mod 32) 1"

record TInterruptSystem =
  is_apIRQHandler :: "addr option list"
  is_pParam :: "uintptr list"

record irq_world = cpu +
  iw_io :: mmio
  iw_IRQ :: u32
  iw_pThis :: "TInterruptSystem option"

definition write32 :: "uintptr \<Rightarrow> u32 \<Rightarrow> mmio \<Rightarrow> mmio" where
  "write32 nAddress nValue io = io_emit (MmioWrite nAddress nValue) io"

definition InterruptSystem :: "'a irq_world_scheme \<Rightarrow> 'a irq_world_scheme" where
  "InterruptSystem w = w\<lparr>iw_pThis := Some \<lparr>is_apIRQHandler = replicate IRQ_LINES None, is_pParam = replicate IRQ_LINES 0\<rparr>\<rparr>"

definition InterruptSystem_dtor :: "'a irq_world_scheme \<Rightarrow> 'a irq_world_scheme" where
  "InterruptSystem_dtor w = w\<lparr>iw_pThis := None\<rparr>"

definition InterruptSystemGet :: "'a irq_world_scheme \<Rightarrow> TInterruptSystem option" where
  "InterruptSystemGet w = iw_pThis w"

text \<open>A branch from an entry of the exception table to the stub, counted in words from two words after the entry.\<close>

definition ARM_OPCODE_BRANCH :: "u32 \<Rightarrow> u32" where
  "ARM_OPCODE_BRANCH distance = 0xEA000000 OR distance"

definition ARM_DISTANCE :: "u32 \<Rightarrow> u32 \<Rightarrow> u32" where
  "ARM_DISTANCE from to = word_of_int (sint (to - from) div 4) - 2"

definition ARM_EXCEPTION_TABLE_IRQ :: u32 where "ARM_EXCEPTION_TABLE_IRQ = 0x18"

definition ack_pending :: "uintptr \<Rightarrow> mmio \<Rightarrow> mmio" where
  "ack_pending a io = (let (v, io) = mmio_read a io in write32 a v io)"

definition InterruptSystemInitialize :: "u32 \<Rightarrow> 'a irq_world_scheme \<Rightarrow> 'a irq_world_scheme" where
  "InterruptSystemInitialize IRQStub w =
     (let w = w\<lparr>iw_IRQ := ARM_OPCODE_BRANCH (ARM_DISTANCE ARM_EXCEPTION_TABLE_IRQ IRQStub)\<rparr>;
          io = write32 ARM_IC_FIQ_CONTROL 0 (iw_io w);
          io = write32 ARM_IC_DISABLE_IRQS_1 (- 1) io;
          io = write32 ARM_IC_DISABLE_IRQS_2 (- 1) io;
          io = write32 ARM_IC_DISABLE_BASIC_IRQS (- 1) io;
          io = ack_pending ARM_IC_IRQ_BASIC_PENDING io;
          io = ack_pending ARM_IC_IRQ_PENDING_1 io;
          io = ack_pending ARM_IC_IRQ_PENDING_2 io
      in w\<lparr>iw_io := io, cpu_enabled := True\<rparr>)"

definition InterruptSystemEnableIRQ :: "nat \<Rightarrow> mmio \<Rightarrow> mmio option" where
  "InterruptSystemEnableIRQ nIRQ io = do {
     c_assert (nIRQ < IRQ_LINES);
     Some (write32 (ARM_IC_IRQS_ENABLE nIRQ) (ARM_IRQ_MASK nIRQ) io) }"

definition InterruptSystemDisableIRQ :: "nat \<Rightarrow> mmio \<Rightarrow> mmio option" where
  "InterruptSystemDisableIRQ nIRQ io = do {
     c_assert (nIRQ < IRQ_LINES);
     Some (write32 (ARM_IC_IRQS_DISABLE nIRQ) (ARM_IRQ_MASK nIRQ) io) }"

definition InterruptSystemConnectIRQ :: "nat \<Rightarrow> addr option \<Rightarrow> uintptr \<Rightarrow> 'a irq_world_scheme \<Rightarrow> 'a irq_world_scheme option" where
  "InterruptSystemConnectIRQ nIRQ pHandler pParam w = do {
     s \<leftarrow> iw_pThis w;
     c_assert (nIRQ < IRQ_LINES);
     h \<leftarrow> array_get (is_apIRQHandler s) nIRQ;
     c_assert (h = None);
     hs \<leftarrow> array_set (is_apIRQHandler s) nIRQ pHandler;
     ps \<leftarrow> array_set (is_pParam s) nIRQ pParam;
     io \<leftarrow> InterruptSystemEnableIRQ nIRQ (iw_io w);
     Some (w\<lparr>iw_pThis := Some \<lparr>is_apIRQHandler = hs, is_pParam = ps\<rparr>, iw_io := io\<rparr>) }"

definition InterruptSystemDisconnectIRQ :: "nat \<Rightarrow> 'a irq_world_scheme \<Rightarrow> 'a irq_world_scheme option" where
  "InterruptSystemDisconnectIRQ nIRQ w = do {
     s \<leftarrow> iw_pThis w;
     c_assert (nIRQ < IRQ_LINES);
     h \<leftarrow> array_get (is_apIRQHandler s) nIRQ;
     c_assert (h \<noteq> None);
     io \<leftarrow> InterruptSystemDisableIRQ nIRQ (iw_io w);
     hs \<leftarrow> array_set (is_apIRQHandler s) nIRQ None;
     ps \<leftarrow> array_set (is_pParam s) nIRQ 0;
     Some (w\<lparr>iw_pThis := Some \<lparr>is_apIRQHandler = hs, is_pParam = ps\<rparr>, iw_io := io\<rparr>) }"

definition InterruptSystemCallIRQHandler ::
    "(addr \<Rightarrow> uintptr \<Rightarrow> 'a irq_world_scheme \<Rightarrow> 'a irq_world_scheme option) \<Rightarrow> nat \<Rightarrow> 'a irq_world_scheme
     \<Rightarrow> (bool \<times> 'a irq_world_scheme) option" where
  "InterruptSystemCallIRQHandler call nIRQ w = do {
     s \<leftarrow> iw_pThis w;
     c_assert (nIRQ < IRQ_LINES);
     h \<leftarrow> array_get (is_apIRQHandler s) nIRQ;
     (case h of
        Some pHandler \<Rightarrow> do {
          pParam \<leftarrow> array_get (is_pParam s) nIRQ;
          w \<leftarrow> call pHandler pParam w;
          Some (True, w) }
      | None \<Rightarrow> do {
          io \<leftarrow> InterruptSystemDisableIRQ nIRQ (iw_io w);
          Some (False, w\<lparr>iw_io := io\<rparr>) }) }"

text \<open>The loop over the lines: \<open>k\<close> lines from \<open>nIRQ\<close> on.\<close>

fun interrupt_loop ::
    "(addr \<Rightarrow> uintptr \<Rightarrow> 'a irq_world_scheme \<Rightarrow> 'a irq_world_scheme option) \<Rightarrow> nat \<Rightarrow> nat \<Rightarrow> 'a irq_world_scheme
     \<Rightarrow> 'a irq_world_scheme option" where
  "interrupt_loop call nIRQ 0 w = Some w"
| "interrupt_loop call nIRQ (Suc k) w =
     (let (v, io) = mmio_read (ARM_IC_IRQ_PENDING nIRQ) (iw_io w);
          w = w\<lparr>iw_io := io\<rparr>
      in if v AND ARM_IRQ_MASK nIRQ \<noteq> 0 then do {
           (handled, w) \<leftarrow> InterruptSystemCallIRQHandler call nIRQ w;
           if handled then Some w else interrupt_loop call (Suc nIRQ) k w }
         else interrupt_loop call (Suc nIRQ) k w)"

definition InterruptHandler ::
    "(addr \<Rightarrow> uintptr \<Rightarrow> 'a irq_world_scheme \<Rightarrow> 'a irq_world_scheme option) \<Rightarrow> 'a irq_world_scheme \<Rightarrow> 'a irq_world_scheme option" where
  "InterruptHandler call w = do {
     c_assert (iw_pThis w \<noteq> None);
     interrupt_loop call 0 IRQ_LINES w }"

section \<open>Nested critical sections\<close>

datatype critical = Enter | Leave

fun critical_run :: "critical list \<Rightarrow> 'a cpu_scheme \<Rightarrow> 'a cpu_scheme option" where
  "critical_run [] c = Some c"
| "critical_run (Enter # es) c = critical_run es (EnterCritical c)"
| "critical_run (Leave # es) c = Option.bind (LeaveCritical c) (critical_run es)"

text \<open>The depth of nesting, if nothing is left that was not entered.\<close>

fun depth :: "nat \<Rightarrow> critical list \<Rightarrow> nat option" where
  "depth n [] = Some n"
| "depth n (Enter # es) = depth (Suc n) es"
| "depth 0 (Leave # es) = None"
| "depth (Suc n) (Leave # es) = depth n es"

definition at_depth :: "bool \<Rightarrow> nat \<Rightarrow> 'a cpu_scheme \<Rightarrow> bool" where
  "at_depth b n c \<longleftrightarrow> unat (s_nCriticalLevel c) = n \<and> cpu_enabled c = (n = 0 \<and> b) \<and> (0 < n \<longrightarrow> s_bWereEnabled c = b)"

lemma enter_depth:
  assumes "at_depth b n c" and "Suc n < 2 ^ 32"
  shows "at_depth b (Suc n) (EnterCritical c)"
proof -
  have "unat (s_nCriticalLevel c + 1) = Suc n" using assms by (simp add: at_depth_def unat_word_ariths)
  then show ?thesis using assms by (cases n) (auto simp: at_depth_def EnterCritical_def Let_def unat_eq_zero)
qed

lemma leave_depth:
  assumes "at_depth b (Suc n) c"
  shows "\<exists>c'. LeaveCritical c = Some c' \<and> at_depth b n c'"
proof -
  have "s_nCriticalLevel c > 0" using assms by (auto simp: at_depth_def word_less_nat_alt)
  moreover have u: "unat (s_nCriticalLevel c - 1) = n" using assms by (simp add: at_depth_def unat_sub_if')
  then have "s_nCriticalLevel c - 1 = 0 \<longleftrightarrow> n = 0" by (metis unat_0 unat_eq_zero)
  ultimately show ?thesis using assms u by (auto simp: LeaveCritical_def at_depth_def)
qed

lemma critical_depth:
  "\<lbrakk>at_depth b n c; n + length es < 2 ^ 32\<rbrakk> \<Longrightarrow>
   rel_option (\<lambda>c' d. at_depth b d c') (critical_run es c) (depth n es)"
proof (induction n es arbitrary: c rule: depth.induct)
  case (2 n es)
  from enter_depth[OF 2(2)] 2(3) have "at_depth b (Suc n) (EnterCritical c)" by simp
  from 2(1)[OF this] 2(3) show ?case by simp
next
  case (3 es)
  then have "LeaveCritical c = None" by (auto simp: LeaveCritical_def at_depth_def c_assert_def unat_eq_zero)
  then show ?case by simp
next
  case (4 n es)
  from leave_depth[OF 4(2)] obtain c' where "LeaveCritical c = Some c'" "at_depth b n c'" by blast
  with 4(1)[of c'] 4(3) show ?case by simp
qed simp

text \<open>
  Claim C37. Critical sections nest.  Any sequence of entering and leaving, from outside of all sections, runs without a failed
  assertion exactly if it never leaves more sections than it has entered; then the level is the depth of nesting, interrupts
  are disabled inside, and outside of all sections they are enabled again if and only if they were at the start.
\<close>

theorem critical_sections_nest:
  assumes "s_nCriticalLevel c = 0" and "length es < 2 ^ 32"
  shows "map_option (\<lambda>c'. (unat (s_nCriticalLevel c'), cpu_enabled c')) (critical_run es c)
    = map_option (\<lambda>d. (d, d = 0 \<and> cpu_enabled c)) (depth 0 es)"
proof -
  have "at_depth (cpu_enabled c) 0 c" using assms(1) by (simp add: at_depth_def)
  from critical_depth[OF this, of es] assms(2) show ?thesis
    by (cases "critical_run es c"; cases "depth 0 es") (auto simp: at_depth_def)
qed

definition sample_cpu :: cpu where
  "sample_cpu = \<lparr>cpu_enabled = True, s_nCriticalLevel = 0, s_bWereEnabled = False\<rparr>"

theorem critical_sections_nest_witness:
  "map_option (\<lambda>c'. (unat (s_nCriticalLevel c'), cpu_enabled c')) (critical_run [Enter, Enter, Leave] sample_cpu) = Some (1, False)
     \<and> map_option (\<lambda>c'. (unat (s_nCriticalLevel c'), cpu_enabled c')) (critical_run [Enter, Enter, Leave, Leave] sample_cpu) = Some (0, True)
     \<and> map_option (\<lambda>c'. (unat (s_nCriticalLevel c'), cpu_enabled c')) (critical_run [Enter, Leave, Leave] sample_cpu) = None"
proof -
  have s: "s_nCriticalLevel sample_cpu = 0" "cpu_enabled sample_cpu" by (simp_all add: sample_cpu_def)
  note n = critical_sections_nest[OF s(1)]
  show ?thesis by (intro conjI; subst n) (simp_all add: s)
qed

section \<open>Cache lines of a range\<close>

lemma unat_add_of_nat:
  fixes a :: u32
  assumes "unat a + m < 2 ^ 32"
  shows "unat (a + of_nat m) = unat a + m"
  using assms by (simp add: unat_word_ariths unsigned_of_nat take_bit_nat_eq_self)

lemma cache_range_loop_step:
  assumes "j \<le> unat nLength div 64"
  shows "nAddress + of_nat (64 * j) \<in> set (cache_range_loop nAddress nLength)"
  using assms
proof (induction j arbitrary: nAddress nLength)
  case 0
  then show ?case by (subst cache_range_loop.simps) simp
next
  case (Suc j)
  have ge: "64 \<le> unat nLength" using Suc.prems by (cases "unat nLength < 64") auto
  then have n: "\<not> nLength < DATA_CACHE_LINE_LENGTH_MIN" by (simp add: DATA_CACHE_LINE_LENGTH_MIN_def word_less_nat_alt)
  have "unat (nLength - DATA_CACHE_LINE_LENGTH_MIN) = unat nLength - 64"
    using ge by (simp add: DATA_CACHE_LINE_LENGTH_MIN_def unat_sub word_le_nat_alt)
  with Suc.prems ge have "j \<le> unat (nLength - DATA_CACHE_LINE_LENGTH_MIN) div 64" by simp
  from Suc.IH[OF this, of "nAddress + DATA_CACHE_LINE_LENGTH_MIN"] n show ?case
    by (subst cache_range_loop.simps) (simp add: DATA_CACHE_LINE_LENGTH_MIN_def algebra_simps)
qed

text \<open>
  Cache maintenance covers its range.  For a range that does not run over the end of the address space, with any
  alignment, every byte of it is in a cache line that is operated on; a length within 64 of four gigabytes is the only
  exception.
\<close>

theorem cache_range_covers:
  assumes "unat nAddress + unat nLength \<le> 2 ^ 32" and "unat nLength + 64 < 2 ^ 32" and "k < unat nLength"
  shows "\<exists>v \<in> set (cache_range nAddress nLength). unat v div 64 = (unat nAddress + k) div 64"
proof -
  let ?j = "(unat nAddress mod 64 + k) div 64"
  have len: "unat (nLength + DATA_CACHE_LINE_LENGTH_MIN) = unat nLength + 64"
    using assms(2) by (simp add: DATA_CACHE_LINE_LENGTH_MIN_def unat_word_ariths)
  have "unat nAddress mod 64 + k \<le> unat nLength + 64" using assms(3) mod_less_divisor[of 64 "unat nAddress"] by linarith
  then have "?j \<le> (unat nLength + 64) div 64" by (rule div_le_mono)
  then have mem: "nAddress + of_nat (64 * ?j) \<in> set (cache_range nAddress nLength)"
    unfolding cache_range_def by (intro cache_range_loop_step) (simp only: len)
  define q r where "q = unat nAddress div 64" and "r = unat nAddress mod 64"
  have a: "unat nAddress = 64 * q + r" "r < 64" by (simp_all add: q_def r_def)
  have d: "(unat nAddress + k) div 64 = q + ?j" using a by (simp add: div_add1_eq[of "64 * q"] r_def[symmetric] add.assoc)
  have "64 * (q + ?j) \<le> unat nAddress + k" unfolding d[symmetric] by simp
  then have "64 * (q + ?j) < 2 ^ 32" using assms(1,3) by linarith
  then have lt: "q + ?j < 67108864" by simp
  have "64 * q + r + 64 * j < 4294967296" if "q + j < 67108864" for j using that a(2) by linarith
  from this[OF lt] have "unat nAddress + 64 * ?j < 2 ^ 32" unfolding a(1) by simp
  then have "unat (nAddress + of_nat (64 * ?j)) = unat nAddress + 64 * ?j" by (rule unat_add_of_nat)
  also have "\<dots> = 64 * (q + ?j) + r" unfolding distrib_left by (subst a(1)) (simp only: ac_simps)
  finally have u: "unat (nAddress + of_nat (64 * ?j)) = 64 * (q + ?j) + r" .
  have "(64 * m + r) div 64 = m" for m using a(2) by simp
  then have "unat (nAddress + of_nat (64 * ?j)) div 64 = (unat nAddress + k) div 64" unfolding u d by (simp only:)
  with mem show ?thesis by blast
qed

theorem cache_range_covers_witness:
  "\<exists>v \<in> set (cache_range 0x1030 100). unat v div 64 = (unat (0x1030 :: u32) + 99) div 64"
  using cache_range_covers[of "0x1030" 100 99] by simp

section \<open>Dispatching an interrupt\<close>

text \<open>Line \<open>n\<close> is pending when its register is read, which is the \<open>n\<close>-th read from now; and what is written to a register meanwhile.\<close>

definition line_pending :: "mmio \<Rightarrow> nat \<Rightarrow> nat \<Rightarrow> bool" where
  "line_pending io i n \<longleftrightarrow> io_oracle io (io_pos io + (n - i)) AND ARM_IRQ_MASK n \<noteq> 0"

definition disabled_lines :: "mmio \<Rightarrow> nat \<Rightarrow> nat \<Rightarrow> uintptr \<Rightarrow> u32 list" where
  "disabled_lines io i n a = map ARM_IRQ_MASK (filter (\<lambda>m. line_pending io i m \<and> ARM_IC_IRQS_DISABLE m = a) [i..<n])"

lemma interrupt_loop_skip:
  fixes w :: "'a irq_world_scheme"
  assumes "iw_pThis w = Some s" and "length (is_apIRQHandler s) = IRQ_LINES" and "i + j \<le> IRQ_LINES"
    and "\<forall>m. i \<le> m \<and> m < i + j \<and> line_pending (iw_io w) i m \<longrightarrow> is_apIRQHandler s ! m = None"
  shows "\<exists>io'. interrupt_loop call i (j + k) w = interrupt_loop call (i + j) k (w\<lparr>iw_io := io'\<rparr>)
    \<and> io_oracle io' = io_oracle (iw_io w) \<and> io_pos io' = io_pos (iw_io w) + j
    \<and> (\<forall>a. reg_writes a io' = reg_writes a (iw_io w) @ disabled_lines (iw_io w) i (i + j) a)"
  using assms
proof (induction j arbitrary: i w)
  case 0
  then show ?case by (intro exI[of _ "iw_io w"]) (simp add: disabled_lines_def)
next
  case (Suc j)
  let ?io = "snd (mmio_read (ARM_IC_IRQ_PENDING i) (iw_io w))"
  let ?p = "line_pending (iw_io w) i i"
  define io1 where "io1 = (if ?p then write32 (ARM_IC_IRQS_DISABLE i) (ARM_IRQ_MASK i) ?io else ?io)"
  have i: "i < IRQ_LINES" using Suc.prems(3) by simp
  have step: "interrupt_loop call i (Suc j + k) w = interrupt_loop call (Suc i) (j + k) (w\<lparr>iw_io := io1\<rparr>)"
  proof (cases ?p)
    case True
    with Suc.prems have "is_apIRQHandler s ! i = None" by simp
    with True Suc.prems(1,2) i show ?thesis
      by (simp add: io1_def line_pending_def InterruptSystemCallIRQHandler_def array_get_def InterruptSystemDisableIRQ_def case_prod_beta Let_def)
  next
    case False
    then show ?thesis by (simp add: io1_def line_pending_def case_prod_beta Let_def)
  qed
  have io1: "io_oracle io1 = io_oracle (iw_io w)" "io_pos io1 = io_pos (iw_io w) + 1" by (simp_all add: io1_def write32_def)
  have lp: "line_pending io1 (Suc i) m = line_pending (iw_io w) i m" if "Suc i \<le> m" for m
  proof -
    have "io_pos (iw_io w) + 1 + (m - Suc i) = io_pos (iw_io w) + (m - i)" using that by simp
    then show ?thesis unfolding line_pending_def io1 by (simp only:)
  qed
  have "\<forall>m. Suc i \<le> m \<and> m < Suc i + j \<and> line_pending io1 (Suc i) m \<longrightarrow> is_apIRQHandler s ! m = None"
    using Suc.prems(4) lp by (metis Suc_leD add_Suc add_Suc_right)
  with Suc.IH[of "w\<lparr>iw_io := io1\<rparr>" "Suc i"] Suc.prems(1-3) obtain io' where
    io': "interrupt_loop call (Suc i) (j + k) (w\<lparr>iw_io := io1\<rparr>) = interrupt_loop call (Suc i + j) k (w\<lparr>iw_io := io'\<rparr>)"
      "io_oracle io' = io_oracle io1" "io_pos io' = io_pos io1 + j"
      "\<forall>a. reg_writes a io' = reg_writes a io1 @ disabled_lines io1 (Suc i) (Suc i + j) a" by auto
  have fl: "filter (\<lambda>m. line_pending io1 (Suc i) m \<and> ARM_IC_IRQS_DISABLE m = a) [Suc i..<Suc i + j]
      = filter (\<lambda>m. line_pending (iw_io w) i m \<and> ARM_IC_IRQS_DISABLE m = a) [Suc i..<Suc i + j]" for a
    using lp by (intro filter_cong) auto
  have "reg_writes a io1 @ disabled_lines io1 (Suc i) (Suc i + j) a = reg_writes a (iw_io w) @ disabled_lines (iw_io w) i (i + Suc j) a" for a
    proof -
    have "[i..<i + Suc j] = i # [Suc i..<Suc i + j]" by (simp add: upt_conv_Cons)
    then show ?thesis unfolding disabled_lines_def fl by (simp add: io1_def write32_def del: upt_Suc)
  qed
  with step io' io1 show ?case by (intro exI[of _ io']) simp
qed

text \<open>
  Claim C38. Which handler an interrupt calls.  The handler of the lowest pending line that has one is called, once, with its
  parameter, and nothing is looked at after that; pending lines before it, which have no handler, are disabled in the controller, and
  no other register is written.  If no pending line has a handler, none is called and all pending lines are disabled.
\<close>

theorem interrupt_dispatch:
  fixes w :: "'a irq_world_scheme"
  assumes s: "iw_pThis w = Some s" and len: "length (is_apIRQHandler s) = IRQ_LINES" "length (is_pParam s) = IRQ_LINES"
    and n: "n \<le> IRQ_LINES" and before: "\<forall>m < n. line_pending (iw_io w) 0 m \<longrightarrow> is_apIRQHandler s ! m = None"
    and here: "n < IRQ_LINES \<longrightarrow> line_pending (iw_io w) 0 n \<and> is_apIRQHandler s ! n \<noteq> None"
  shows "\<exists>io'. InterruptHandler call w = (if n < IRQ_LINES then call (the (is_apIRQHandler s ! n)) (is_pParam s ! n) (w\<lparr>iw_io := io'\<rparr>)
        else Some (w\<lparr>iw_io := io'\<rparr>))
    \<and> (\<forall>a. reg_writes a io' = reg_writes a (iw_io w) @ disabled_lines (iw_io w) 0 n a)"
proof -
  from interrupt_loop_skip[OF s len(1), of 0 n call "IRQ_LINES - n"] n before obtain io' where
    sk: "interrupt_loop call 0 IRQ_LINES w = interrupt_loop call n (IRQ_LINES - n) (w\<lparr>iw_io := io'\<rparr>)"
      "io_oracle io' = io_oracle (iw_io w)" "io_pos io' = io_pos (iw_io w) + n"
      "\<forall>a. reg_writes a io' = reg_writes a (iw_io w) @ disabled_lines (iw_io w) 0 n a" by auto
  show ?thesis
  proof (cases "n < IRQ_LINES")
    case False
    then show ?thesis using sk n s by (intro exI[of _ io']) (simp add: InterruptHandler_def)
  next
    case True
    let ?io = "snd (mmio_read (ARM_IC_IRQ_PENDING n) io')"
    obtain k where k: "IRQ_LINES - n = Suc k" using True by (metis Suc_diff_Suc)
    from here True obtain h where h: "is_apIRQHandler s ! n = Some h" "line_pending (iw_io w) 0 n" by blast
    have "interrupt_loop call n (Suc k) (w\<lparr>iw_io := io'\<rparr>) = call h (is_pParam s ! n) (w\<lparr>iw_io := ?io\<rparr>)"
      using h s len True sk(2,3)
      by (cases "call h (is_pParam s ! n) (w\<lparr>iw_io := ?io\<rparr>)")
         (simp_all add: line_pending_def InterruptSystemCallIRQHandler_def array_get_def case_prod_beta Let_def)
    then show ?thesis using sk s True k h by (intro exI[of _ ?io]) (simp add: InterruptHandler_def)
  qed
qed

definition two_handlers :: irq_world where
  "two_handlers = \<lparr>cpu_enabled = False, s_nCriticalLevel = 0, s_bWereEnabled = False,
     iw_io = \<lparr>io_oracle = (\<lambda>n. if n = 1 then 2 else if n = 9 then 0x200 else 0), io_pos = 0, io_trace = []\<rparr>, iw_IRQ = 0,
     iw_pThis = Some \<lparr>is_apIRQHandler = (replicate IRQ_LINES None)[9 := Some 5], is_pParam = replicate IRQ_LINES 7\<rparr>\<rparr>"

theorem interrupt_dispatch_witness:
  "\<exists>io'. InterruptHandler (\<lambda>h p w. Some (w\<lparr>iw_IRQ := 1\<rparr>)) two_handlers = Some (two_handlers\<lparr>iw_io := io', iw_IRQ := 1\<rparr>)
    \<and> (\<forall>a. reg_writes a io' = reg_writes a (iw_io two_handlers) @ disabled_lines (iw_io two_handlers) 0 9 a)"
  using interrupt_dispatch[of two_handlers "\<lparr>is_apIRQHandler = (replicate IRQ_LINES None)[9 := Some 5], is_pParam = replicate IRQ_LINES 7\<rparr>" 9
      "\<lambda>h p w. Some (w\<lparr>iw_IRQ := 1\<rparr>)"]
  by (simp add: two_handlers_def IRQ_LINES_def line_pending_def ARM_IRQ_MASK_def)

end
