(* ===== verification/Screen.thy ===== *)
theory Screen
  imports Font Firmware Interrupts
begin

text \<open>
  The text screen (\<^verbatim>\<open>env/lib/screen.c\<close>): characters drawn into the frame buffer, a cursor, scrolling, and the escape sequences
  that move the cursor and clear parts of the screen.

  The colour depth is 8, so a pixel is a byte.  The frame buffer is the list of the \<^verbatim>\<open>m_nSize\<close> bytes the firmware gave; an access
  outside of it is a fault (\<open>None\<close>), and so is the block copy of length 0, which runs through the whole address space.
  \<^verbatim>\<open>DeleteChars\<close>, \<^verbatim>\<open>DeleteLines\<close> and \<^verbatim>\<open>InsertLines\<close> are empty in the source.
\<close>

unbundle bit_operations_syntax

section \<open>State\<close>

datatype TScreenState = ScreenStateStart | ScreenStateEscape | ScreenStateBracket | ScreenStateNumber1 | ScreenStateQuestionMark
  | ScreenStateSemicolon | ScreenStateNumber2 | ScreenStateNumber3

definition DEPTH :: u32 where "DEPTH = 8"
definition BLACK_COLOR :: u8 where "BLACK_COLOR = 0"
definition NORMAL_COLOR :: u8 where "NORMAL_COLOR = 1"
definition HIGH_COLOR :: u8 where "HIGH_COLOR = 2"
definition HALF_COLOR :: u8 where "HALF_COLOR = 3"

definition COLOR16 :: "u16 \<Rightarrow> u16 \<Rightarrow> u16 \<Rightarrow> u16" where
  "COLOR16 red green blue = push_bit 11 (red AND 0x1F) OR push_bit 6 (green AND 0x1F) OR (blue AND 0x1F)"

definition ROTORS :: u32 where "ROTORS = 4"

record TScreenDevice =
  sd_nInitWidth :: u32
  sd_nInitHeight :: u32
  sd_pFrameBuffer :: "TBcmFrameBuffer option"
  sd_CharGen :: TCharGenerator
  sd_pBuffer :: "u8 list"
  sd_nSize :: u32
  sd_nPitch :: u32
  sd_nWidth :: u32
  sd_nHeight :: u32
  sd_nUsedHeight :: u32
  sd_nState :: TScreenState
  sd_nCursorX :: u32
  sd_nCursorY :: u32
  sd_bCursorOn :: bool
  sd_Color :: u8
  sd_bInsertOn :: bool
  sd_nParam1 :: u32
  sd_nParam2 :: u32

definition ScreenDevice :: "u32 \<Rightarrow> u32 \<Rightarrow> TScreenDevice \<Rightarrow> TScreenDevice" where
  "ScreenDevice nWidth nHeight pThis = pThis\<lparr>sd_CharGen := CharGenerator, sd_nInitWidth := nWidth, sd_nInitHeight := nHeight,
     sd_pFrameBuffer := None, sd_pBuffer := [], sd_nState := ScreenStateStart, sd_nCursorX := 0, sd_nCursorY := 0,
     sd_bCursorOn := True, sd_Color := NORMAL_COLOR, sd_bInsertOn := False\<rparr>"

definition ScreenDevice_dtor :: "TScreenDevice \<Rightarrow> TScreenDevice option" where
  "ScreenDevice_dtor pThis = do {
     c_assert (sd_pFrameBuffer pThis \<noteq> None);
     Some (pThis\<lparr>sd_pBuffer := [], sd_pFrameBuffer := None\<rparr>) }"

abbreviation char_width :: "TScreenDevice \<Rightarrow> u32" where
  "char_width pThis \<equiv> CharGeneratorGetCharWidth (sd_CharGen pThis)"

abbreviation char_height :: "TScreenDevice \<Rightarrow> u32" where
  "char_height pThis \<equiv> CharGeneratorGetCharHeight (sd_CharGen pThis)"

section \<open>Loops and memory\<close>

fun for_each :: "('i \<Rightarrow> 's \<Rightarrow> 's option) \<Rightarrow> 'i list \<Rightarrow> 's \<Rightarrow> 's option" where
  "for_each f [] s = Some s"
| "for_each f (i # is) s = Option.bind (f i s) (for_each f is)"

text \<open>The values of a loop variable that counts from \<open>a\<close> to below \<open>b\<close>.\<close>

definition counting :: "u32 \<Rightarrow> u32 \<Rightarrow> u32 list" where
  "counting a b = map of_nat [unat a..<unat b]"

text \<open>\<^verbatim>\<open>memset\<close> and \<^verbatim>\<open>memcpy\<close> of \<^verbatim>\<open>env/lib/util.c\<close>, byte by byte, and the block copy of \<^verbatim>\<open>env/lib/util_fast.S\<close>, which
  moves 16 bytes before it tests the count.\<close>

fun buf_memset :: "nat \<Rightarrow> nat \<Rightarrow> u8 \<Rightarrow> u8 list \<Rightarrow> u8 list option" where
  "buf_memset p 0 v b = Some b"
| "buf_memset p (Suc n) v b = Option.bind (array_set b p v) (buf_memset (Suc p) n v)"

fun buf_memcpy :: "nat \<Rightarrow> nat \<Rightarrow> nat \<Rightarrow> u8 list \<Rightarrow> u8 list option" where
  "buf_memcpy pd ps 0 b = Some b"
| "buf_memcpy pd ps (Suc n) b = do { v \<leftarrow> array_get b ps; b \<leftarrow> array_set b pd v; buf_memcpy (Suc pd) (Suc ps) n b }"

definition copy16 :: "nat \<Rightarrow> nat \<Rightarrow> u8 list \<Rightarrow> u8 list option" where
  "copy16 pd ps b = (if ps + 16 \<le> length b \<and> pd + 16 \<le> length b then Some (take pd b @ take 16 (drop ps b) @ drop (pd + 16) b) else None)"

partial_function (option) buf_memcpyblk :: "nat \<Rightarrow> nat \<Rightarrow> u32 \<Rightarrow> u8 list \<Rightarrow> u8 list option" where
  "buf_memcpyblk pd ps n b = do {
     b \<leftarrow> copy16 pd ps b;
     if n - 16 = 0 then Some b else buf_memcpyblk (pd + 16) (ps + 16) (n - 16) b }"

section \<open>Pixels and characters\<close>

definition ScreenDeviceGetWidth :: "TScreenDevice \<Rightarrow> u32" where
  "ScreenDeviceGetWidth pThis = sd_nWidth pThis"

definition ScreenDeviceGetHeight :: "TScreenDevice \<Rightarrow> u32" where
  "ScreenDeviceGetHeight pThis = sd_nHeight pThis"

definition ScreenDeviceSetPixel :: "u32 \<Rightarrow> u32 \<Rightarrow> u8 \<Rightarrow> TScreenDevice \<Rightarrow> TScreenDevice option" where
  "ScreenDeviceSetPixel nPosX nPosY Color pThis =
     (if nPosX < sd_nWidth pThis \<and> nPosY < sd_nHeight pThis then do {
        b \<leftarrow> array_set (sd_pBuffer pThis) (unat (sd_nPitch pThis * nPosY + nPosX)) Color;
        Some (pThis\<lparr>sd_pBuffer := b\<rparr>) }
      else Some pThis)"

definition ScreenDeviceGetPixel :: "u32 \<Rightarrow> u32 \<Rightarrow> TScreenDevice \<Rightarrow> u8 option" where
  "ScreenDeviceGetPixel nPosX nPosY pThis =
     (if nPosX < sd_nWidth pThis \<and> nPosY < sd_nHeight pThis
      then array_get (sd_pBuffer pThis) (unat (sd_nPitch pThis * nPosY + nPosX))
      else Some BLACK_COLOR)"

definition ScreenDeviceDisplayChar2 :: "u8 \<Rightarrow> u32 \<Rightarrow> u32 \<Rightarrow> u8 \<Rightarrow> TScreenDevice \<Rightarrow> TScreenDevice option" where
  "ScreenDeviceDisplayChar2 chChar nPosX nPosY Color pThis =
     for_each (\<lambda>y. for_each (\<lambda>x s. do {
         p \<leftarrow> CharGeneratorGetPixel (sd_CharGen s) chChar x y;
         ScreenDeviceSetPixel (nPosX + x) (nPosY + y) (if p then Color else BLACK_COLOR) s })
       (counting 0 (char_width pThis))) (counting 0 (char_height pThis)) pThis"

definition ScreenDeviceEraseChar :: "u32 \<Rightarrow> u32 \<Rightarrow> TScreenDevice \<Rightarrow> TScreenDevice option" where
  "ScreenDeviceEraseChar nPosX nPosY pThis =
     for_each (\<lambda>y. for_each (\<lambda>x. ScreenDeviceSetPixel (nPosX + x) (nPosY + y) BLACK_COLOR)
       (counting 0 (char_width pThis))) (counting 0 (char_height pThis)) pThis"

definition ScreenDeviceInvertCursor :: "TScreenDevice \<Rightarrow> TScreenDevice option" where
  "ScreenDeviceInvertCursor pThis =
     (if \<not> sd_bCursorOn pThis then Some pThis
      else for_each (\<lambda>y. for_each (\<lambda>x s. do {
             p \<leftarrow> ScreenDeviceGetPixel (sd_nCursorX s + x) (sd_nCursorY s + y) s;
             if p = BLACK_COLOR then ScreenDeviceSetPixel (sd_nCursorX s + x) (sd_nCursorY s + y) (sd_Color s) s
             else ScreenDeviceSetPixel (sd_nCursorX s + x) (sd_nCursorY s + y) BLACK_COLOR s })
           (counting 0 (char_width pThis))) (counting (CharGeneratorGetUnderline (sd_CharGen pThis)) (char_height pThis)) pThis)"

section \<open>The cursor and the lines\<close>

definition ScreenDeviceCarriageReturn :: "TScreenDevice \<Rightarrow> TScreenDevice" where
  "ScreenDeviceCarriageReturn pThis = pThis\<lparr>sd_nCursorX := 0\<rparr>"

text \<open>The loop of \<^verbatim>\<open>ClearLineEnd\<close> and \<^verbatim>\<open>EraseChars\<close>, from \<open>nPosX\<close> to below \<open>nEndX\<close>.\<close>

partial_function (option) erase_loop :: "u32 \<Rightarrow> u32 \<Rightarrow> TScreenDevice \<Rightarrow> TScreenDevice option" where
  "erase_loop nPosX nEndX pThis =
     (if nPosX < nEndX then do {
        pThis \<leftarrow> ScreenDeviceEraseChar nPosX (sd_nCursorY pThis) pThis;
        erase_loop (nPosX + char_width pThis) nEndX pThis }
      else Some pThis)"

definition ScreenDeviceClearLineEnd :: "TScreenDevice \<Rightarrow> TScreenDevice option" where
  "ScreenDeviceClearLineEnd pThis = erase_loop (sd_nCursorX pThis) (sd_nWidth pThis) pThis"

definition ScreenDeviceClearDisplayEnd :: "TScreenDevice \<Rightarrow> TScreenDevice option" where
  "ScreenDeviceClearDisplayEnd pThis = do {
     pThis \<leftarrow> ScreenDeviceClearLineEnd pThis;
     let nPosY = sd_nCursorY pThis + char_height pThis;
     let nOffset = nPosY * sd_nPitch pThis;
     let nSize = sd_nSize pThis - nOffset;
     b \<leftarrow> buf_memset (unat nOffset) (unat nSize) 0 (sd_pBuffer pThis);
     Some (pThis\<lparr>sd_pBuffer := b\<rparr>) }"

definition ScreenDeviceScroll :: "TScreenDevice \<Rightarrow> TScreenDevice option" where
  "ScreenDeviceScroll pThis = do {
     let nLines = char_height pThis;
     let pFrom = unat (nLines * sd_nPitch pThis);
     let nSize = sd_nPitch pThis * (sd_nUsedHeight pThis - nLines);
     let nSizeBlk = nSize AND NOT 0xFF;
     b \<leftarrow> buf_memcpyblk 0 pFrom nSizeBlk (sd_pBuffer pThis);
     b \<leftarrow> buf_memcpy (unat nSizeBlk) (pFrom + unat nSizeBlk) (unat (nSize AND 0xFF)) b;
     let pTo = 4 * unat (nSize div 4);
     let nSize = sd_nPitch pThis * nLines div 4;
     b \<leftarrow> buf_memset pTo (unat (nSize * 4)) 0 b;
     Some (pThis\<lparr>sd_pBuffer := b\<rparr>) }"

definition ScreenDeviceCursorDown :: "TScreenDevice \<Rightarrow> TScreenDevice option" where
  "ScreenDeviceCursorDown pThis =
     (let pThis = pThis\<lparr>sd_nCursorY := sd_nCursorY pThis + char_height pThis\<rparr>
      in if sd_nCursorY pThis \<ge> sd_nUsedHeight pThis then do {
           pThis \<leftarrow> ScreenDeviceScroll pThis;
           Some (pThis\<lparr>sd_nCursorY := sd_nCursorY pThis - char_height pThis\<rparr>) }
         else Some pThis)"

definition ScreenDeviceCursorHome :: "TScreenDevice \<Rightarrow> TScreenDevice" where
  "ScreenDeviceCursorHome pThis = pThis\<lparr>sd_nCursorX := 0, sd_nCursorY := 0\<rparr>"

definition ScreenDeviceCursorLeft :: "TScreenDevice \<Rightarrow> TScreenDevice" where
  "ScreenDeviceCursorLeft pThis =
     (if sd_nCursorX pThis > 0 then pThis\<lparr>sd_nCursorX := sd_nCursorX pThis - char_width pThis\<rparr>
      else if sd_nCursorY pThis > 0
           then pThis\<lparr>sd_nCursorX := sd_nWidth pThis - char_width pThis, sd_nCursorY := sd_nCursorY pThis - char_height pThis\<rparr>
           else pThis)"

definition ScreenDeviceCursorMove :: "u32 \<Rightarrow> u32 \<Rightarrow> TScreenDevice \<Rightarrow> TScreenDevice" where
  "ScreenDeviceCursorMove nRow nColumn pThis =
     (let nPosX = (nColumn - 1) * char_width pThis;
          nPosY = (nRow - 1) * char_height pThis
      in if nPosX < sd_nWidth pThis \<and> nPosY < sd_nUsedHeight pThis
         then pThis\<lparr>sd_nCursorX := nPosX, sd_nCursorY := nPosY\<rparr> else pThis)"

definition ScreenDeviceNewLine :: "TScreenDevice \<Rightarrow> TScreenDevice option" where
  "ScreenDeviceNewLine pThis = ScreenDeviceCursorDown (ScreenDeviceCarriageReturn pThis)"

definition ScreenDeviceCursorRight :: "TScreenDevice \<Rightarrow> TScreenDevice option" where
  "ScreenDeviceCursorRight pThis =
     (let pThis = pThis\<lparr>sd_nCursorX := sd_nCursorX pThis + char_width pThis\<rparr>
      in if sd_nCursorX pThis \<ge> sd_nWidth pThis then ScreenDeviceNewLine pThis else Some pThis)"

definition ScreenDeviceCursorUp :: "TScreenDevice \<Rightarrow> TScreenDevice" where
  "ScreenDeviceCursorUp pThis =
     (if sd_nCursorY pThis \<ge> char_height pThis then pThis\<lparr>sd_nCursorY := sd_nCursorY pThis - char_height pThis\<rparr> else pThis)"

definition ScreenDeviceDeleteChars :: "u32 \<Rightarrow> TScreenDevice \<Rightarrow> TScreenDevice" where
  "ScreenDeviceDeleteChars nCount pThis = pThis"

definition ScreenDeviceDeleteLines :: "u32 \<Rightarrow> TScreenDevice \<Rightarrow> TScreenDevice" where
  "ScreenDeviceDeleteLines nCount pThis = pThis"

definition ScreenDeviceInsertLines :: "u32 \<Rightarrow> TScreenDevice \<Rightarrow> TScreenDevice" where
  "ScreenDeviceInsertLines nCount pThis = pThis"

definition ScreenDeviceDisplayChar :: "u8 \<Rightarrow> TScreenDevice \<Rightarrow> TScreenDevice option" where
  "ScreenDeviceDisplayChar chChar pThis =
     (if 32 \<le> chChar then do {
        pThis \<leftarrow> ScreenDeviceDisplayChar2 chChar (sd_nCursorX pThis) (sd_nCursorY pThis) (sd_Color pThis) pThis;
        ScreenDeviceCursorRight pThis }
      else Some pThis)"

definition ScreenDeviceEraseChars :: "u32 \<Rightarrow> TScreenDevice \<Rightarrow> TScreenDevice option" where
  "ScreenDeviceEraseChars nCount pThis =
     (if nCount = 0 then Some pThis
      else let nEndX = sd_nCursorX pThis + nCount * char_width pThis;
               nEndX = (if nEndX > sd_nWidth pThis then sd_nWidth pThis else nEndX)
           in erase_loop (sd_nCursorX pThis) nEndX pThis)"

definition ScreenDeviceInsertMode :: "bool \<Rightarrow> TScreenDevice \<Rightarrow> TScreenDevice" where
  "ScreenDeviceInsertMode bBegin pThis = pThis\<lparr>sd_bInsertOn := bBegin\<rparr>"

definition ScreenDeviceReverseScroll :: "TScreenDevice \<Rightarrow> TScreenDevice" where
  "ScreenDeviceReverseScroll pThis =
     (if sd_nCursorX pThis = 0 \<and> sd_nCursorY pThis = 0 then ScreenDeviceInsertLines 1 pThis else pThis)"

definition ScreenDeviceSetCursorMode :: "bool \<Rightarrow> TScreenDevice \<Rightarrow> TScreenDevice" where
  "ScreenDeviceSetCursorMode bVisible pThis = pThis\<lparr>sd_bCursorOn := bVisible\<rparr>"

definition ScreenDeviceSetStandoutMode :: "u32 \<Rightarrow> TScreenDevice \<Rightarrow> TScreenDevice" where
  "ScreenDeviceSetStandoutMode nMode pThis =
     (if nMode = 0 \<or> nMode = 27 then pThis\<lparr>sd_Color := NORMAL_COLOR\<rparr>
      else if nMode = 1 then pThis\<lparr>sd_Color := HIGH_COLOR\<rparr>
      else if nMode = 2 then pThis\<lparr>sd_Color := HALF_COLOR\<rparr>
      else pThis)"

definition ScreenDeviceTabulator :: "TScreenDevice \<Rightarrow> TScreenDevice option" where
  "ScreenDeviceTabulator pThis =
     (let nTabWidth = char_width pThis * 8;
          pThis = pThis\<lparr>sd_nCursorX := ((sd_nCursorX pThis + nTabWidth) div nTabWidth) * nTabWidth\<rparr>
      in if sd_nCursorX pThis \<ge> sd_nWidth pThis then ScreenDeviceNewLine pThis else Some pThis)"

definition ScreenDeviceRotor :: "u32 \<Rightarrow> u32 \<Rightarrow> TScreenDevice \<Rightarrow> TScreenDevice option" where
  "ScreenDeviceRotor nIndex nCount pThis = do {
     let nIndex = nIndex mod ROTORS;
     let nCount = nCount AND 3;
     let nPosX = sd_nWidth pThis - (nIndex + 1) * char_width pThis;
     ch \<leftarrow> array_get [0x2D, 0x5C, 0x7C, 0x2F, 0] (unat nCount);
     ScreenDeviceDisplayChar2 ch nPosX 0 HIGH_COLOR pThis }"

section \<open>Characters written to the screen\<close>

abbreviation to_state :: "TScreenState \<Rightarrow> TScreenDevice \<Rightarrow> TScreenDevice" where
  "to_state st pThis \<equiv> pThis\<lparr>sd_nState := st\<rparr>"

definition isdigit8 :: "u8 \<Rightarrow> bool" where
  "isdigit8 ch \<longleftrightarrow> 0x30 \<le> ch \<and> ch \<le> 0x39"

definition digit_value :: "u8 \<Rightarrow> u32" where
  "digit_value ch = ucast (ch - 0x30)"

definition write_start :: "u8 \<Rightarrow> TScreenDevice \<Rightarrow> TScreenDevice option" where
  "write_start ch pThis =
     (if ch = 0x08 then Some (ScreenDeviceCursorLeft pThis)
      else if ch = 0x09 then ScreenDeviceTabulator pThis
      else if ch = 0x0A then ScreenDeviceNewLine pThis
      else if ch = 0x0D then Some (ScreenDeviceCarriageReturn pThis)
      else if ch = 0x1B then Some (to_state ScreenStateEscape pThis)
      else ScreenDeviceDisplayChar ch pThis)"

definition write_escape :: "u8 \<Rightarrow> TScreenDevice \<Rightarrow> TScreenDevice option" where
  "write_escape ch pThis =
     (if ch = 0x4D then Some (to_state ScreenStateStart (ScreenDeviceReverseScroll pThis))
      else if ch = 0x5B then Some (to_state ScreenStateBracket pThis)
      else Some (to_state ScreenStateStart pThis))"

definition write_bracket :: "u8 \<Rightarrow> TScreenDevice \<Rightarrow> TScreenDevice option" where
  "write_bracket ch pThis =
     (if ch = 0x3F then Some (to_state ScreenStateQuestionMark pThis)
      else if ch = 0x41 then Some (to_state ScreenStateStart (ScreenDeviceCursorUp pThis))
      else if ch = 0x42 then map_option (to_state ScreenStateStart) (ScreenDeviceCursorDown pThis)
      else if ch = 0x43 then map_option (to_state ScreenStateStart) (ScreenDeviceCursorRight pThis)
      else if ch = 0x48 then Some (to_state ScreenStateStart (ScreenDeviceCursorHome pThis))
      else if ch = 0x4A then map_option (to_state ScreenStateStart) (ScreenDeviceClearDisplayEnd pThis)
      else if ch = 0x4B then map_option (to_state ScreenStateStart) (ScreenDeviceClearLineEnd pThis)
      else if ch = 0x4C then Some (to_state ScreenStateStart (ScreenDeviceInsertLines 1 pThis))
      else if ch = 0x4D then Some (to_state ScreenStateStart (ScreenDeviceDeleteLines 1 pThis))
      else if ch = 0x50 then Some (to_state ScreenStateStart (ScreenDeviceDeleteChars 1 pThis))
      else if isdigit8 ch then Some (to_state ScreenStateNumber1 (pThis\<lparr>sd_nParam1 := digit_value ch\<rparr>))
      else Some (to_state ScreenStateStart pThis))"

text \<open>One more digit of the first parameter; more than two digits end the sequence.\<close>

definition more_param1 :: "u8 \<Rightarrow> TScreenDevice \<Rightarrow> TScreenDevice option" where
  "more_param1 ch pThis =
     (if isdigit8 ch
      then let pThis = pThis\<lparr>sd_nParam1 := sd_nParam1 pThis * 10 + digit_value ch\<rparr>
           in Some (if sd_nParam1 pThis > 99 then to_state ScreenStateStart pThis else pThis)
      else Some (to_state ScreenStateStart pThis))"

definition write_number1 :: "u8 \<Rightarrow> TScreenDevice \<Rightarrow> TScreenDevice option" where
  "write_number1 ch pThis =
     (if ch = 0x3B then Some (to_state ScreenStateSemicolon pThis)
      else if ch = 0x4C then Some (to_state ScreenStateStart (ScreenDeviceInsertLines (sd_nParam1 pThis) pThis))
      else if ch = 0x4D then Some (to_state ScreenStateStart (ScreenDeviceDeleteLines (sd_nParam1 pThis) pThis))
      else if ch = 0x50 then Some (to_state ScreenStateStart (ScreenDeviceDeleteChars (sd_nParam1 pThis) pThis))
      else if ch = 0x58 then map_option (to_state ScreenStateStart) (ScreenDeviceEraseChars (sd_nParam1 pThis) pThis)
      else if ch = 0x68 \<or> ch = 0x6C
           then Some (to_state ScreenStateStart (if sd_nParam1 pThis = 4 then ScreenDeviceInsertMode (ch = 0x68) pThis else pThis))
      else if ch = 0x6D then Some (to_state ScreenStateStart (ScreenDeviceSetStandoutMode (sd_nParam1 pThis) pThis))
      else more_param1 ch pThis)"

definition write_number2 :: "u8 \<Rightarrow> TScreenDevice \<Rightarrow> TScreenDevice option" where
  "write_number2 ch pThis =
     (if ch = 0x48 then Some (to_state ScreenStateStart (ScreenDeviceCursorMove (sd_nParam1 pThis) (sd_nParam2 pThis) pThis))
      else if isdigit8 ch
      then let pThis = pThis\<lparr>sd_nParam2 := sd_nParam2 pThis * 10 + digit_value ch\<rparr>
           in Some (if sd_nParam2 pThis > 199 then to_state ScreenStateStart pThis else pThis)
      else Some (to_state ScreenStateStart pThis))"

definition write_number3 :: "u8 \<Rightarrow> TScreenDevice \<Rightarrow> TScreenDevice option" where
  "write_number3 ch pThis =
     (if ch = 0x68 \<or> ch = 0x6C
      then Some (to_state ScreenStateStart (if sd_nParam1 pThis = 25 then ScreenDeviceSetCursorMode (ch = 0x68) pThis else pThis))
      else more_param1 ch pThis)"

fun ScreenDeviceWrite2 :: "u8 \<Rightarrow> TScreenDevice \<Rightarrow> TScreenDevice option" where
  "ScreenDeviceWrite2 chChar pThis =
     (case sd_nState pThis of
        ScreenStateStart \<Rightarrow> write_start chChar pThis
      | ScreenStateEscape \<Rightarrow> write_escape chChar pThis
      | ScreenStateBracket \<Rightarrow> write_bracket chChar pThis
      | ScreenStateNumber1 \<Rightarrow> write_number1 chChar pThis
      | ScreenStateSemicolon \<Rightarrow>
          (if isdigit8 chChar then Some (to_state ScreenStateNumber2 (pThis\<lparr>sd_nParam2 := digit_value chChar\<rparr>))
           else Some (to_state ScreenStateStart pThis))
      | ScreenStateQuestionMark \<Rightarrow>
          (if isdigit8 chChar then Some (to_state ScreenStateNumber3 (pThis\<lparr>sd_nParam1 := digit_value chChar\<rparr>))
           else Some (to_state ScreenStateStart pThis))
      | ScreenStateNumber2 \<Rightarrow> write_number2 chChar pThis
      | ScreenStateNumber3 \<Rightarrow> write_number3 chChar pThis)"

declare ScreenDeviceWrite2.simps [simp del]

definition ScreenDeviceWrite :: "u8 list \<Rightarrow> TScreenDevice \<Rightarrow> (int \<times> TScreenDevice) option" where
  "ScreenDeviceWrite pBuffer pThis = do {
     pThis \<leftarrow> ScreenDeviceInvertCursor pThis;
     pThis \<leftarrow> for_each ScreenDeviceWrite2 pBuffer pThis;
     pThis \<leftarrow> ScreenDeviceInvertCursor pThis;
     Some (int (length pBuffer), pThis) }"

text \<open>
  What the firmware answers is read from the information block after the exchange; the bytes of the frame buffer are then
  the screen's.  \<open>tag\<close> and \<open>pInfo\<close> are the memory on the stack and from \<^verbatim>\<open>malloc\<close> that \<^verbatim>\<open>BcmFrameBuffer\<close> fills.
\<close>

definition ScreenDeviceInitialize ::
    "u8 list \<Rightarrow> uintptr \<Rightarrow> TScreenDevice \<Rightarrow> 'a fw_world_scheme \<Rightarrow> (bool \<times> TScreenDevice \<times> 'a fw_world_scheme) option" where
  "ScreenDeviceInitialize tag pInfo pThis w = do {
     (fb, w) \<leftarrow> BcmFrameBuffer tag pInfo (sd_nInitWidth pThis) (sd_nInitHeight pThis) DEPTH w;
     let pThis = pThis\<lparr>sd_pFrameBuffer := Some fb\<rparr>;
     let w = BcmFrameBufferSetPalette fb NORMAL_COLOR (COLOR16 31 31 31) w;
     let w = BcmFrameBufferSetPalette fb HIGH_COLOR (COLOR16 31 0 0) w;
     let w = BcmFrameBufferSetPalette fb HALF_COLOR (COLOR16 0 0 31) w;
     (ok, w) \<leftarrow> BcmFrameBufferInitialize fb w;
     let m = fw_mem w;
     if \<not> ok then Some (False, pThis, w)
     else if BcmFrameBufferGetDepth fb m \<noteq> DEPTH then Some (False, pThis, w)
     else do {
       let pThis = pThis\<lparr>sd_pBuffer := mem_read (ucast (BcmFrameBufferGetBuffer fb m)) (unat (BcmFrameBufferGetSize fb m)) m,
                         sd_nSize := BcmFrameBufferGetSize fb m, sd_nWidth := BcmFrameBufferGetWidth fb m,
                         sd_nHeight := BcmFrameBufferGetHeight fb m\<rparr>;
       if BcmFrameBufferGetPitch fb m mod 4 \<noteq> 0 then Some (False, pThis, w)
       else do {
         let pThis = pThis\<lparr>sd_nPitch := BcmFrameBufferGetPitch fb m,
                           sd_nUsedHeight := sd_nHeight pThis div char_height pThis * char_height pThis\<rparr>;
         pThis \<leftarrow> ScreenDeviceClearDisplayEnd (ScreenDeviceCursorHome pThis);
         pThis \<leftarrow> ScreenDeviceInvertCursor pThis;
         Some (True, pThis, w) } } }"

section \<open>Copies within the buffer\<close>

text \<open>The \<open>n\<close> bytes from \<open>ps\<close> on are at \<open>pd\<close>, and the rest is as before.\<close>

definition block_moved :: "nat \<Rightarrow> nat \<Rightarrow> nat \<Rightarrow> u8 list \<Rightarrow> u8 list \<Rightarrow> bool" where
  "block_moved pd ps n b b' \<longleftrightarrow> length b' = length b
     \<and> (\<forall>j < length b. b' ! j = (if pd \<le> j \<and> j < pd + n then b ! (j + (ps - pd)) else b ! j))"

lemma block_moved_trans:
  assumes "block_moved pd ps n b b'" and "block_moved (pd + n) (ps + n) m b' b''" and "pd \<le> ps" and "ps + n + m \<le> length b"
  shows "block_moved pd ps (n + m) b b''"
  using assms unfolding block_moved_def by auto

lemma buf_memcpy_moved:
  assumes "pd \<le> ps" and "ps + n \<le> length b"
  shows "\<exists>b'. buf_memcpy pd ps n b = Some b' \<and> block_moved pd ps n b b'"
  using assms
proof (induction n arbitrary: pd ps b)
  case 0
  then show ?case by (simp add: block_moved_def)
next
  case (Suc n)
  let ?b = "b[pd := b ! ps]"
  have one: "block_moved pd ps 1 b ?b" using Suc.prems by (auto simp: block_moved_def nth_list_update)
  from Suc.IH[of "Suc pd" "Suc ps" ?b] Suc.prems obtain b' where
    b': "buf_memcpy (Suc pd) (Suc ps) n ?b = Some b'" "block_moved (Suc pd) (Suc ps) n ?b b'" by auto
  from block_moved_trans[OF one, of n b'] b'(2) Suc.prems have "block_moved pd ps (Suc n) b b'" by simp
  with b'(1) Suc.prems show ?case by (simp add: array_get_def array_set_def)
qed

lemma copy16_moved:
  assumes "pd \<le> ps" and "ps + 16 \<le> length b"
  shows "\<exists>b'. copy16 pd ps b = Some b' \<and> block_moved pd ps 16 b b'"
  using assms by (auto simp: copy16_def block_moved_def nth_append min_def add.commute intro!: arg_cong[where f = "(!) b"])

lemma buf_memcpyblk_moved:
  assumes "pd \<le> ps" and "ps + 16 * Suc n \<le> length b" and "unat k = 16 * Suc n"
  shows "\<exists>b'. buf_memcpyblk pd ps k b = Some b' \<and> block_moved pd ps (16 * Suc n) b b'"
  using assms
proof (induction n arbitrary: pd ps k b)
  case 0
  then have "k = 16" by (simp add: word_unat_eq_iff)
  with copy16_moved[of pd ps b] 0 show ?case by (subst buf_memcpyblk.simps) auto
next
  case (Suc n)
  have "(16 :: u32) \<le> k" using Suc.prems(3) by (simp add: word_le_nat_alt)
  then have k: "unat (k - 16) = 16 * Suc n" using Suc.prems(3) by (subst unat_minus_le) simp_all
  then have "k - 16 \<noteq> 0" by auto
  moreover from copy16_moved[of pd ps b] Suc.prems obtain b1 where
    b1: "copy16 pd ps b = Some b1" "block_moved pd ps 16 b b1" by auto
  moreover from Suc.IH[of "pd + 16" "ps + 16" b1 "k - 16"] Suc.prems b1(2) k obtain b2 where
    b2: "buf_memcpyblk (pd + 16) (ps + 16) (k - 16) b1 = Some b2" "block_moved (pd + 16) (ps + 16) (16 * Suc n) b1 b2"
    by (auto simp: block_moved_def)
  moreover from block_moved_trans[OF b1(2) b2(2)] Suc.prems have "block_moved pd ps (16 * Suc (Suc n)) b b2" by simp
  ultimately show ?case by (subst buf_memcpyblk.simps) auto
qed

lemma buf_memset_ok:
  assumes "p + n \<le> length b"
  shows "\<exists>b'. buf_memset p n v b = Some b' \<and> length b' = length b
    \<and> (\<forall>j < length b. b' ! j = (if p \<le> j \<and> j < p + n then v else b ! j))"
  using assms
proof (induction n arbitrary: p b)
  case 0
  then show ?case by auto
next
  case (Suc n)
  from Suc.IH[of "Suc p" "b[p := v]"] Suc.prems obtain b' where
    "buf_memset (Suc p) n v (b[p := v]) = Some b'" "length b' = length b"
    "\<forall>j < length b. b' ! j = (if Suc p \<le> j \<and> j < Suc p + n then v else b[p := v] ! j)" by auto
  with Suc.prems show ?case by (auto simp: array_set_def nth_list_update)
qed

section \<open>Loops that change single bytes\<close>

lemma for_each_append: "for_each f (xs @ ys) s = Option.bind (for_each f xs s) (for_each f ys)"
  by (induction xs arbitrary: s) (auto split: bind_splits)

lemma for_each_pairs: "for_each (\<lambda>(y, x). f y x) (map (Pair y) xs) s = for_each (f y) xs s"
  by (induction xs arbitrary: s) (auto split: bind_splits)

lemma for_each_nested: "for_each (\<lambda>y. for_each (f y) xs) ys s = for_each (\<lambda>(y, x). f y x) (List.product ys xs) s"
proof (induction ys arbitrary: s)
  case (Cons y ys)
  show ?case by (simp add: for_each_append for_each_pairs Cons.IH[abs_def])
qed simp

lemma for_each_update:
  assumes "\<And>i b. i \<in> set is \<Longrightarrow> length b = L \<Longrightarrow> f i (s\<lparr>sd_pBuffer := b\<rparr>) = Some (s\<lparr>sd_pBuffer := b[k i := h i (b ! k i)]\<rparr>)"
    and "\<And>i. i \<in> set is \<Longrightarrow> k i < L" and "inj_on k (set is)" and "distinct is" and "length b = L"
  shows "\<exists>b'. for_each f is (s\<lparr>sd_pBuffer := b\<rparr>) = Some (s\<lparr>sd_pBuffer := b'\<rparr>) \<and> length b' = L
    \<and> (\<forall>i \<in> set is. b' ! k i = h i (b ! k i)) \<and> (\<forall>j. j \<notin> k ` set is \<longrightarrow> b' ! j = b ! j)"
  using assms
proof (induction "is" arbitrary: b)
  case Nil
  then show ?case by auto
next
  case (Cons i "is")
  let ?b = "b[k i := h i (b ! k i)]"
  from Cons.IH[of ?b] Cons.prems obtain b' where
    b': "for_each f is (s\<lparr>sd_pBuffer := ?b\<rparr>) = Some (s\<lparr>sd_pBuffer := b'\<rparr>)" "length b' = L"
      "\<forall>i \<in> set is. b' ! k i = h i (?b ! k i)" "\<forall>j. j \<notin> k ` set is \<longrightarrow> b' ! j = ?b ! j" by auto
  have ne: "k i' \<noteq> k i" if "i' \<in> set is" for i' using Cons.prems(3,4) that by (auto simp: inj_on_def)
  have "b' ! k i = h i (b ! k i)" using b'(4) ne Cons.prems(2,5) by (metis imageE list.set_intros(1) nth_list_update_eq)
  moreover have "\<forall>i' \<in> set is. b' ! k i' = h i' (b ! k i')" using b'(3) ne by (metis nth_list_update_neq)
  moreover have "\<forall>j. j \<notin> k ` set (i # is) \<longrightarrow> b' ! j = b ! j" using b'(4) by simp
  ultimately show ?case using b'(1,2) Cons.prems(1)[of i b] Cons.prems(5) by auto
qed

section \<open>The geometry of the screen\<close>

text \<open>
  A screen of \<open>rows\<close> lines of \<open>cols\<close> characters of 8 by 19 pixels.  The width is a multiple of 8, which is the case for the
  usual resolutions, there are two lines at least, and a block of 256 bytes can be moved when the screen scrolls.
\<close>

definition screen_geom :: "nat \<Rightarrow> nat \<Rightarrow> TScreenDevice \<Rightarrow> bool" where
  "screen_geom rows cols s \<longleftrightarrow> cg_nCharWidth (sd_CharGen s) = 8
     \<and> unat (sd_nWidth s) = 8 * cols \<and> 0 < cols \<and> 8 * cols + 800 < 2 ^ 32
     \<and> unat (sd_nUsedHeight s) = 19 * rows \<and> 1 < rows \<and> 19 * rows \<le> unat (sd_nHeight s) \<and> 19 * rows + 19 < 2 ^ 32
     \<and> 8 * cols \<le> unat (sd_nPitch s) \<and> 4 dvd unat (sd_nPitch s)
     \<and> unat (sd_nPitch s) * unat (sd_nHeight s) \<le> unat (sd_nSize s) \<and> length (sd_pBuffer s) = unat (sd_nSize s)
     \<and> 256 \<le> unat (sd_nPitch s) * (19 * (rows - 1))"

lemma screen_geom_buffer: "screen_geom rows cols s \<Longrightarrow> length b = length (sd_pBuffer s) \<Longrightarrow> screen_geom rows cols (s\<lparr>sd_pBuffer := b\<rparr>)"
  by (simp add: screen_geom_def)

lemma char_size [simp]:
  "screen_geom rows cols s \<Longrightarrow> char_width s = 8"
  "char_height s = 19"
  "CharGeneratorGetUnderline g = 16"
  by (simp_all add: screen_geom_def CharGeneratorGetCharWidth_def CharGeneratorGetCharHeight_def CharGeneratorGetUnderline_def
      font_height_def font_extraheight_def)

definition pos :: "TScreenDevice \<Rightarrow> nat \<Rightarrow> nat \<Rightarrow> nat" where
  "pos s X Y = unat (sd_nPitch s) * Y + X"

lemma pos_inj:
  assumes "screen_geom rows cols s" and "X < 8 * cols" and "X' < 8 * cols" and "pos s X Y = pos s X' Y'"
  shows "X = X'" and "Y = Y'"
proof -
  have lt: "X < unat (sd_nPitch s)" "X' < unat (sd_nPitch s)" using assms by (auto simp: screen_geom_def)
  then have "pos s X Y div unat (sd_nPitch s) = Y" "pos s X' Y' div unat (sd_nPitch s) = Y'"
    "pos s X Y mod unat (sd_nPitch s) = X" "pos s X' Y' mod unat (sd_nPitch s) = X'" by (simp_all add: pos_def)
  with assms(4) show "X = X'" "Y = Y'" by simp_all
qed

lemma pos_less:
  assumes "screen_geom rows cols s" and "X < 8 * cols" and "Y < unat (sd_nHeight s)"
  shows "pos s X Y < length (sd_pBuffer s)" and "pos s X Y < 2 ^ 32"
proof -
  have "pos s X Y < unat (sd_nPitch s) * (Y + 1)" using assms by (auto simp: pos_def screen_geom_def)
  also have "\<dots> \<le> unat (sd_nPitch s) * unat (sd_nHeight s)" using assms(3) by (intro mult_le_mono2) simp
  also have "\<dots> \<le> length (sd_pBuffer s)" using assms(1) by (simp add: screen_geom_def)
  finally show *: "pos s X Y < length (sd_pBuffer s)" .
  also have "\<dots> < 2 ^ 32" using assms(1) unat_less_2p[of "sd_nSize s"] by (simp add: screen_geom_def)
  finally show "pos s X Y < 2 ^ 32" .
qed

lemma pos_word:
  assumes "screen_geom rows cols s" and "unat x = X" and "unat y = Y" and "X < 8 * cols" and "Y < 19 * rows"
  shows "unat (sd_nPitch s * y + x) = pos s X Y" and "x < sd_nWidth s" and "y < sd_nHeight s" and "pos s X Y < length (sd_pBuffer s)"
proof -
  have Y: "Y < unat (sd_nHeight s)" using assms by (simp add: screen_geom_def)
  note lt = pos_less[OF assms(1,4) Y]
  then have lt': "unat (sd_nPitch s) * unat y + unat x < 2 ^ 32" by (simp add: pos_def assms(2,3))
  then have "unat (sd_nPitch s * y) = unat (sd_nPitch s) * unat y" by (simp add: unat_word_ariths)
  with lt' show "unat (sd_nPitch s * y + x) = pos s X Y" by (simp add: unat_plus_if_no_wrap pos_def assms(2,3))
  show "x < sd_nWidth s" "y < sd_nHeight s" "pos s X Y < length (sd_pBuffer s)"
    using assms Y lt by (simp_all add: word_less_nat_alt screen_geom_def)
qed

lemma SetPixel_ok:
  assumes "screen_geom rows cols s" and "unat x = X" and "unat y = Y" and "X < 8 * cols" and "Y < 19 * rows"
  shows "ScreenDeviceSetPixel x y v s = Some (s\<lparr>sd_pBuffer := (sd_pBuffer s)[pos s X Y := v]\<rparr>)"
  using pos_word[OF assms] by (simp add: ScreenDeviceSetPixel_def array_set_def)

lemma GetPixel_ok:
  assumes "screen_geom rows cols s" and "unat x = X" and "unat y = Y" and "X < 8 * cols" and "Y < 19 * rows"
  shows "ScreenDeviceGetPixel x y s = Some (sd_pBuffer s ! pos s X Y)"
  using pos_word[OF assms] by (simp add: ScreenDeviceGetPixel_def array_get_def)

section \<open>Cells\<close>

definition in_cell :: "nat \<Rightarrow> nat \<Rightarrow> nat \<Rightarrow> nat \<Rightarrow> nat \<Rightarrow> bool" where
  "in_cell y0 r c X Y \<longleftrightarrow> 8 * c \<le> X \<and> X < 8 * c + 8 \<and> 19 * r + y0 \<le> Y \<and> Y < 19 * r + 19"

lemma counting_set: "x \<in> set (counting a b) \<longleftrightarrow> unat a \<le> unat x \<and> unat x < unat b"
proof
  assume "unat a \<le> unat x \<and> unat x < unat b"
  then show "x \<in> set (counting a b)" by (auto simp: counting_def image_iff intro: bexI[of _ "unat x"])
next
  assume "x \<in> set (counting a b)"
  then obtain n where n: "unat a \<le> n" "n < unat b" "x = of_nat n" by (auto simp: counting_def)
  then have "unat x = n" using unat_less_2p[of b] by (simp add: unat_of_nat_small)
  with n show "unat a \<le> unat x \<and> unat x < unat b" by simp
qed

lemma counting_distinct: "distinct (counting a b)"
proof -
  have "n < 2 ^ LENGTH(32)" if "n < unat b" for n using that unat_less_2p[of b] by simp
  then show ?thesis by (auto simp: counting_def distinct_map inj_on_def word_unat_eq_iff unat_of_nat_small)
qed

text \<open>The bytes of the pixels of a cell: inside of the buffer and all different.\<close>

definition cell_pos :: "TScreenDevice \<Rightarrow> nat \<Rightarrow> nat \<Rightarrow> u32 \<times> u32 \<Rightarrow> nat" where
  "cell_pos s r c = (\<lambda>(y, x). pos s (8 * c + unat x) (19 * r + unat y))"

lemma cell_pos_ok:
  assumes g: "screen_geom rows cols s" and rc: "r < rows" "c < cols" and A: "A = set (List.product (counting yw 19) (counting 0 8))"
  shows "i \<in> A \<Longrightarrow> cell_pos s r c i < length (sd_pBuffer s)" and "inj_on (cell_pos s r c) A"
    and "\<lbrakk>X < 8 * cols; pos s X Y \<in> cell_pos s r c ` A\<rbrakk> \<Longrightarrow> in_cell (unat yw) r c X Y"
proof -
  have inside: "8 * c + unat x < 8 * cols" "19 * r + unat y < unat (sd_nHeight s)" if "(y, x) \<in> A" for x y :: u32
    using that rc g by (auto simp: A counting_set screen_geom_def)
  then show "i \<in> A \<Longrightarrow> cell_pos s r c i < length (sd_pBuffer s)" by (cases i) (simp add: cell_pos_def pos_less(1)[OF g])
  show "inj_on (cell_pos s r c) A"
  proof (rule inj_onI)
    fix i j assume ij: "i \<in> A" "j \<in> A" "cell_pos s r c i = cell_pos s r c j"
    obtain y x y' x' where e: "i = (y, x)" "j = (y', x')" by (cases i, cases j)
    from ij(3) have "pos s (8 * c + unat x) (19 * r + unat y) = pos s (8 * c + unat x') (19 * r + unat y')" by (simp add: cell_pos_def e)
    from pos_inj[OF g inside(1) inside(1) this] ij e show "i = j" by (simp add: word_unat_eq_iff)
  qed
  assume X: "X < 8 * cols" and "pos s X Y \<in> cell_pos s r c ` A"
  then obtain y x :: u32 where yx: "(y, x) \<in> A" "pos s X Y = pos s (8 * c + unat x) (19 * r + unat y)" by (auto simp: cell_pos_def)
  from pos_inj[OF g X inside(1)[OF yx(1)] yx(2)] yx(1) show "in_cell (unat yw) r c X Y"
    by (auto simp: in_cell_def A counting_set)
qed

text \<open>A loop over the lines from \<open>y0\<close> on and the columns of a cell, whose body changes the byte of its pixel.\<close>

lemma draw_cell:
  assumes g: "screen_geom rows cols s" and rc: "r < rows" "c < cols"
    and f: "\<And>x y b. \<lbrakk>x < 8; unat yw \<le> y; y < 19; length b = length (sd_pBuffer s)\<rbrakk>
      \<Longrightarrow> f (of_nat y) (of_nat x) (s\<lparr>sd_pBuffer := b\<rparr>)
        = Some (s\<lparr>sd_pBuffer := b[pos s (8 * c + x) (19 * r + y) := h x y (b ! pos s (8 * c + x) (19 * r + y))]\<rparr>)"
  shows "\<exists>b. for_each (\<lambda>y. for_each (f y) (counting 0 8)) (counting yw 19) s = Some (s\<lparr>sd_pBuffer := b\<rparr>)
    \<and> length b = length (sd_pBuffer s)
    \<and> (\<forall>X < 8 * cols. \<forall>Y < 19 * rows. b ! pos s X Y =
        (if in_cell (unat yw) r c X Y then h (X - 8 * c) (Y - 19 * r) (sd_pBuffer s ! pos s X Y) else sd_pBuffer s ! pos s X Y))"
proof -
  let ?L = "length (sd_pBuffer s)"
  let ?k = "cell_pos s r c"
  let ?is = "List.product (counting yw 19) (counting 0 8)"
  note k = cell_pos_ok[where yw = yw, OF g rc refl]
  have dist: "distinct ?is" by (intro distinct_product counting_distinct)
  have body: "(\<lambda>(y, x). f y x) i (s\<lparr>sd_pBuffer := b\<rparr>)
      = Some (s\<lparr>sd_pBuffer := b[?k i := (\<lambda>(y, x). h (unat x) (unat y)) i (b ! ?k i)]\<rparr>)" if "i \<in> set ?is" "length b = ?L" for i b
    using that f[of "unat (snd i)" "unat (fst i)" b] by (auto simp: counting_set cell_pos_def)
  from for_each_update[of ?is ?L "\<lambda>(y, x). f y x" s ?k "\<lambda>(y, x). h (unat x) (unat y)" "sd_pBuffer s", OF body k(1,2) dist refl]
  obtain b where b: "for_each (\<lambda>(y, x). f y x) ?is s = Some (s\<lparr>sd_pBuffer := b\<rparr>)" "length b = ?L"
    "\<forall>i \<in> set ?is. b ! ?k i = (\<lambda>(y, x). h (unat x) (unat y)) i (sd_pBuffer s ! ?k i)" "\<forall>j. j \<notin> ?k ` set ?is \<longrightarrow> b ! j = sd_pBuffer s ! j"
    by auto
  have "b ! pos s X Y = (if in_cell (unat yw) r c X Y then h (X - 8 * c) (Y - 19 * r) (sd_pBuffer s ! pos s X Y) else sd_pBuffer s ! pos s X Y)"
    if XY: "X < 8 * cols" for X Y
  proof (cases "in_cell (unat yw) r c X Y")
    case True
    define x y where "x = X - 8 * c" and "y = Y - 19 * r"
    with True have xy: "X = 8 * c + x" "Y = 19 * r + y" "x < 8" "unat yw \<le> y" "y < 19" by (auto simp: in_cell_def)
    then have "(of_nat y, of_nat x) \<in> set ?is" by (simp add: counting_set unat_of_nat_small)
    with b(3) True xy show ?thesis by (force simp: unat_of_nat_small cell_pos_def)
  next
    case False
    with k(3)[OF XY] b(4) show ?thesis by metis
  qed
  with b(1,2) show ?thesis unfolding for_each_nested by blast
qed

end
