(* ===== verification/Terminal.thy ===== *)
theory Terminal
  imports Screen
begin

text \<open>
  The text screen refines a terminal of characters.  The first section is the specification: a grid of cells, a cursor, a
  parser of escape sequences and the actions it gives.  \<open>displays\<close> and \<open>visible\<close> relate the pixels of \<^verbatim>\<open>Screen\<close> to it, the
  lemmas \<open>\<dots>_shows\<close> say that each operation of \<^verbatim>\<open>env/lib/screen.c\<close> carries out one of the terminal, and the last sections put
  them together for a write of any bytes.
\<close>

unbundle bit_operations_syntax

section \<open>A terminal of characters\<close>

text \<open>What the screen promises, without pixels and machine words: a grid of cells, a cursor and a parser of escape sequences.\<close>

datatype cell = Blank | Glyph u8 u8 | Other "nat \<Rightarrow> nat \<Rightarrow> u8" \<comment> \<open>what was there before the screen was cleared\<close>

fun picture :: "cell \<Rightarrow> nat \<Rightarrow> nat \<Rightarrow> u8" where
  "picture Blank x y = BLACK_COLOR"
| "picture (Glyph ch color) x y = (if glyph_bit ch x y then color else BLACK_COLOR)"
| "picture (Other p) x y = p x y"

record terminal =
  t_grid :: "nat \<Rightarrow> nat \<Rightarrow> cell"
  t_row :: nat
  t_col :: nat
  t_color :: u8
  t_cursor :: bool

datatype action = Nothing | Back | Tab | NewLine | Return | Put u8 | Up | Down | Right | Home | ClearDisplay | ClearLine
  | Erase nat | Move nat nat | Color nat | Cursor bool

datatype esc = Plain | Esc | Bracket | Query | Num nat | Semi nat | Num2 nat nat | QNum nat

definition digit8 :: "u8 \<Rightarrow> nat" where
  "digit8 ch = unat ch - 48"

fun parse :: "esc \<Rightarrow> u8 \<Rightarrow> action \<times> esc" where
  "parse Plain ch =
     (if ch = 0x1B then (Nothing, Esc)
      else (if ch = 0x08 then Back else if ch = 0x09 then Tab else if ch = 0x0A then NewLine else if ch = 0x0D then Return
            else if 32 \<le> ch then Put ch else Nothing, Plain))"
| "parse Esc ch = (Nothing, if ch = 0x5B then Bracket else Plain)"
| "parse Bracket ch =
     (if ch = 0x3F then (Nothing, Query)
      else if isdigit8 ch then (Nothing, Num (digit8 ch))
      else (if ch = 0x41 then Up else if ch = 0x42 then Down else if ch = 0x43 then Right else if ch = 0x48 then Home
            else if ch = 0x4A then ClearDisplay else if ch = 0x4B then ClearLine else Nothing, Plain))"
| "parse (Num n) ch =
     (if ch = 0x3B then (Nothing, Semi n)
      else if isdigit8 ch then (Nothing, if 10 * n + digit8 ch > 99 then Plain else Num (10 * n + digit8 ch))
      else (if ch = 0x58 then Erase n else if ch = 0x6D then Color n else Nothing, Plain))"
| "parse (Semi n) ch = (Nothing, if isdigit8 ch then Num2 n (digit8 ch) else Plain)"
| "parse (Num2 n m) ch =
     (if isdigit8 ch then (Nothing, if 10 * m + digit8 ch > 199 then Plain else Num2 n (10 * m + digit8 ch))
      else (if ch = 0x48 then Move n m else Nothing, Plain))"
| "parse Query ch = (Nothing, if isdigit8 ch then QNum (digit8 ch) else Plain)"
| "parse (QNum n) ch =
     (if isdigit8 ch then (Nothing, if 10 * n + digit8 ch > 99 then Plain else QNum (10 * n + digit8 ch))
      else (if (ch = 0x68 \<or> ch = 0x6C) \<and> n = 25 then Cursor (ch = 0x68) else Nothing, Plain))"

definition t_down :: "nat \<Rightarrow> terminal \<Rightarrow> terminal" where
  "t_down rows t = (if t_row t + 1 < rows then t\<lparr>t_row := t_row t + 1\<rparr>
     else t\<lparr>t_grid := (\<lambda>r. if r + 1 < rows then t_grid t (r + 1) else (\<lambda>_. Blank))\<rparr>)"

definition t_to_col :: "nat \<Rightarrow> nat \<Rightarrow> nat \<Rightarrow> terminal \<Rightarrow> terminal" where
  "t_to_col rows cols c t = (if c < cols then t\<lparr>t_col := c\<rparr> else t_down rows (t\<lparr>t_col := 0\<rparr>))"

definition t_erase :: "nat \<Rightarrow> terminal \<Rightarrow> terminal" where
  "t_erase k t = t\<lparr>t_grid := (\<lambda>r c. if r = t_row t \<and> t_col t \<le> c \<and> c < k then Blank else t_grid t r c)\<rparr>"

definition t_clear_below :: "terminal \<Rightarrow> terminal" where
  "t_clear_below t = t\<lparr>t_grid := (\<lambda>r c. if t_row t < r then Blank else t_grid t r c)\<rparr>"

definition t_put :: "u8 \<Rightarrow> terminal \<Rightarrow> terminal" where
  "t_put ch t = t\<lparr>t_grid := (\<lambda>r c. if r = t_row t \<and> c = t_col t then Glyph ch (t_color t) else t_grid t r c)\<rparr>"

fun act :: "nat \<Rightarrow> nat \<Rightarrow> action \<Rightarrow> terminal \<Rightarrow> terminal" where
  "act rows cols Nothing t = t"
| "act rows cols Back t = (if 0 < t_col t then t\<lparr>t_col := t_col t - 1\<rparr>
     else if 0 < t_row t then t\<lparr>t_col := cols - 1, t_row := t_row t - 1\<rparr> else t)"
| "act rows cols Tab t = t_to_col rows cols (8 * (t_col t div 8 + 1)) t"
| "act rows cols NewLine t = t_down rows (t\<lparr>t_col := 0\<rparr>)"
| "act rows cols Return t = t\<lparr>t_col := 0\<rparr>"
| "act rows cols (Put ch) t = t_to_col rows cols (t_col t + 1) (t_put ch t)"
| "act rows cols Up t = t\<lparr>t_row := t_row t - 1\<rparr>"
| "act rows cols Down t = t_down rows t"
| "act rows cols Right t = t_to_col rows cols (t_col t + 1) t"
| "act rows cols Home t = t\<lparr>t_row := 0, t_col := 0\<rparr>"
| "act rows cols ClearDisplay t = t_clear_below (t_erase cols t)"
| "act rows cols ClearLine t = t_erase cols t"
| "act rows cols (Erase n) t = t_erase (min (t_col t + n) cols) t"
| "act rows cols (Move r c) t = (if 1 \<le> r \<and> r \<le> rows \<and> 1 \<le> c \<and> c \<le> cols then t\<lparr>t_row := r - 1, t_col := c - 1\<rparr> else t)"
| "act rows cols (Color n) t = (if n = 0 \<or> n = 27 then t\<lparr>t_color := NORMAL_COLOR\<rparr> else if n = 1 then t\<lparr>t_color := HIGH_COLOR\<rparr>
     else if n = 2 then t\<lparr>t_color := HALF_COLOR\<rparr> else t)"
| "act rows cols (Cursor b) t = t\<lparr>t_cursor := b\<rparr>"

fun terminal_run :: "nat \<Rightarrow> nat \<Rightarrow> u8 list \<Rightarrow> terminal \<times> esc \<Rightarrow> terminal \<times> esc" where
  "terminal_run rows cols [] te = te"
| "terminal_run rows cols (ch # chs) (t, e) = (let (a, e') = parse e ch in terminal_run rows cols chs (act rows cols a t, e'))"

section \<open>The screen shows the terminal\<close>

definition placed :: "nat \<Rightarrow> nat \<Rightarrow> TScreenDevice \<Rightarrow> terminal \<Rightarrow> bool" where
  "placed rows cols s t \<longleftrightarrow> screen_geom rows cols s \<and> t_row t < rows \<and> t_col t < cols
     \<and> unat (sd_nCursorX s) = 8 * t_col t \<and> unat (sd_nCursorY s) = 19 * t_row t
     \<and> sd_Color s = t_color t \<and> sd_bCursorOn s = t_cursor t"

abbreviation cell_pixel :: "terminal \<Rightarrow> nat \<Rightarrow> nat \<Rightarrow> u8" where
  "cell_pixel t X Y \<equiv> picture (t_grid t (Y div 19) (X div 8)) (X mod 8) (Y mod 19)"

definition displays :: "nat \<Rightarrow> nat \<Rightarrow> TScreenDevice \<Rightarrow> terminal \<Rightarrow> bool" where
  "displays rows cols s t \<longleftrightarrow> placed rows cols s t
     \<and> (\<forall>X < 8 * cols. \<forall>Y < 19 * rows. sd_pBuffer s ! pos s X Y = cell_pixel t X Y)"

fun esc_of :: "TScreenState \<Rightarrow> nat \<Rightarrow> nat \<Rightarrow> esc" where
  "esc_of ScreenStateStart p q = Plain"
| "esc_of ScreenStateEscape p q = Esc"
| "esc_of ScreenStateBracket p q = Bracket"
| "esc_of ScreenStateQuestionMark p q = Query"
| "esc_of ScreenStateNumber1 p q = Num p"
| "esc_of ScreenStateSemicolon p q = Semi p"
| "esc_of ScreenStateNumber2 p q = Num2 p q"
| "esc_of ScreenStateNumber3 p q = QNum p"

definition screen_esc :: "TScreenDevice \<Rightarrow> esc" where
  "screen_esc s = esc_of (sd_nState s) (unat (sd_nParam1 s)) (unat (sd_nParam2 s))"

fun esc_ok :: "esc \<Rightarrow> bool" where
  "esc_ok (Num n) \<longleftrightarrow> n \<le> 99"
| "esc_ok (Semi n) \<longleftrightarrow> n \<le> 99"
| "esc_ok (Num2 n m) \<longleftrightarrow> n \<le> 99 \<and> m \<le> 199"
| "esc_ok (QNum n) \<longleftrightarrow> n \<le> 99"
| "esc_ok _ \<longleftrightarrow> True"

text \<open>An operation of the screen carries out one of the terminal, and leaves the parser as it is.\<close>

definition same_parser :: "TScreenDevice \<Rightarrow> TScreenDevice \<Rightarrow> bool" where
  "same_parser s s' \<longleftrightarrow> sd_nState s' = sd_nState s \<and> sd_nParam1 s' = sd_nParam1 s \<and> sd_nParam2 s' = sd_nParam2 s"

definition does :: "nat \<Rightarrow> nat \<Rightarrow> terminal \<Rightarrow> TScreenDevice option \<Rightarrow> TScreenDevice \<Rightarrow> bool" where
  "does rows cols t' res s \<longleftrightarrow> (\<exists>s'. res = Some s' \<and> displays rows cols s' t' \<and> same_parser s s')"

lemma same_parser_trans: "same_parser s s' \<Longrightarrow> same_parser s' s'' \<Longrightarrow> same_parser s s''"
  by (simp add: same_parser_def)

lemma does_bind:
  assumes "does rows cols t' res s" and "\<And>s'. displays rows cols s' t' \<Longrightarrow> same_parser s s' \<Longrightarrow> does rows cols t'' (f s') s'"
  shows "does rows cols t'' (Option.bind res f) s"
  using assms unfolding does_def by (metis bind.bind_lunit same_parser_trans)

lemma in_cell_div: "in_cell 0 r c X Y \<longleftrightarrow> X div 8 = c \<and> Y div 19 = r"
  by (auto simp: in_cell_def)

section \<open>The operations of the screen carry out those of the terminal\<close>

text \<open>Drawing over a whole cell.\<close>

lemma draw_shows:
  assumes sh: "displays rows cols s t" and rc: "r < rows" "c < cols"
    and f: "\<And>x y s'. \<lbrakk>x < 8; y < 19; screen_geom rows cols s'; sd_CharGen s' = sd_CharGen s; sd_nPitch s' = sd_nPitch s\<rbrakk>
      \<Longrightarrow> f (of_nat y) (of_nat x) s' = Some (s'\<lparr>sd_pBuffer := (sd_pBuffer s')[pos s' (8 * c + x) (19 * r + y) := picture p x y]\<rparr>)"
  shows "does rows cols (t\<lparr>t_grid := (\<lambda>r' c'. if r' = r \<and> c' = c then p else t_grid t r' c')\<rparr>)
    (for_each (\<lambda>y. for_each (f y) (counting 0 8)) (counting 0 19) s) s"
proof -
  have g: "screen_geom rows cols s" using sh by (simp add: displays_def placed_def)
  have "f (of_nat y) (of_nat x) (s\<lparr>sd_pBuffer := b\<rparr>)
      = Some (s\<lparr>sd_pBuffer := b[pos s (8 * c + x) (19 * r + y) := (\<lambda>x y _. picture p x y) x y (b ! pos s (8 * c + x) (19 * r + y))]\<rparr>)"
    if "x < 8" "y < 19" "length b = length (sd_pBuffer s)" for x y b
    using f[of x y "s\<lparr>sd_pBuffer := b\<rparr>"] that screen_geom_buffer[OF g that(3)] by (simp add: pos_def)
  with draw_cell[OF g rc, of 0 f "\<lambda>x y _. picture p x y"] obtain b where
    b: "for_each (\<lambda>y. for_each (f y) (counting 0 8)) (counting 0 19) s = Some (s\<lparr>sd_pBuffer := b\<rparr>)" "length b = length (sd_pBuffer s)"
      "\<forall>X < 8 * cols. \<forall>Y < 19 * rows. b ! pos s X Y =
        (if in_cell 0 r c X Y then picture p (X - 8 * c) (Y - 19 * r) else sd_pBuffer s ! pos s X Y)" by auto
  have "X - 8 * c = X mod 8 \<and> Y - 19 * r = Y mod 19" if "in_cell 0 r c X Y" for X Y
    using that by (auto simp: in_cell_div minus_mult_div_eq_mod[symmetric])
  with b sh screen_geom_buffer[OF g b(2)] show ?thesis
    by (auto simp: does_def displays_def placed_def same_parser_def pos_def in_cell_div)
qed

lemma unat_cell:
  fixes X Y :: u32
  assumes "placed rows cols s t" and "x < 8" and "y < 19" and "unat X = 8 * c" and "unat Y = 19 * r" and "r < rows" and "c < cols"
  shows "unat (X + of_nat x) = 8 * c + x" and "unat (Y + of_nat y) = 19 * r + y" and "8 * c + x < 8 * cols" and "19 * r + y < 19 * rows"
proof -
  have big: "8 * cols < 2 ^ 32" "19 * rows < 2 ^ 32" using assms(1) by (auto simp: displays_def placed_def screen_geom_def)
  show le: "8 * c + x < 8 * cols" "19 * r + y < 19 * rows" using assms by simp_all
  have "unat X + x < 2 ^ 32" "unat Y + y < 2 ^ 32" using le big assms(4,5) by linarith+
  from this[THEN unat_add_of_nat] assms(4,5) show "unat (X + of_nat x) = 8 * c + x" "unat (Y + of_nat y) = 19 * r + y" by simp_all
qed

lemma DisplayChar2_shows:
  assumes "displays rows cols s t"
  shows "does rows cols (t_put ch t) (ScreenDeviceDisplayChar2 ch (sd_nCursorX s) (sd_nCursorY s) (sd_Color s) s) s"
proof -
  have st: "t_row t < rows" "t_col t < cols" "unat (sd_nCursorX s) = 8 * t_col t" "unat (sd_nCursorY s) = 19 * t_row t"
    "screen_geom rows cols s" "sd_Color s = t_color t" using assms by (auto simp: displays_def placed_def)
  have pl: "placed rows cols s t" using assms by (simp add: displays_def)
  note u = unat_cell[OF pl _ _ st(3,4,1,2)]
  have cw: "char_width s = 8" using st(5) by simp
  have "(do { p \<leftarrow> CharGeneratorGetPixel (sd_CharGen s') ch (of_nat x) (of_nat y);
              ScreenDeviceSetPixel (sd_nCursorX s + of_nat x) (sd_nCursorY s + of_nat y) (if p then sd_Color s else BLACK_COLOR) s' })
      = Some (s'\<lparr>sd_pBuffer := (sd_pBuffer s')[pos s' (8 * t_col t + x) (19 * t_row t + y) := picture (Glyph ch (t_color t)) x y]\<rparr>)"
    if "x < 8" "y < 19" "screen_geom rows cols s'" for x y s'
    using that st(6) GetPixel_glyph[of "sd_CharGen s'" x y ch] SetPixel_ok[OF that(3) u[OF that(1,2)]] by (simp add: screen_geom_def)
  from draw_shows[OF assms st(1,2), of "\<lambda>y x s'. do { p \<leftarrow> CharGeneratorGetPixel (sd_CharGen s') ch x y;
              ScreenDeviceSetPixel (sd_nCursorX s + x) (sd_nCursorY s + y) (if p then sd_Color s else BLACK_COLOR) s' }", OF this]
  show ?thesis by (simp add: ScreenDeviceDisplayChar2_def cw t_put_def)
qed

lemma EraseChar_shows:
  assumes "displays rows cols s t" and "unat x = 8 * c" and "c < cols"
  shows "does rows cols (t\<lparr>t_grid := (\<lambda>r' c'. if r' = t_row t \<and> c' = c then Blank else t_grid t r' c')\<rparr>)
    (ScreenDeviceEraseChar x (sd_nCursorY s) s) s"
proof -
  have st: "t_row t < rows" "unat (sd_nCursorY s) = 19 * t_row t" "screen_geom rows cols s" using assms(1) by (auto simp: displays_def placed_def)
  have pl: "placed rows cols s t" using assms(1) by (simp add: displays_def)
  note u = unat_cell[OF pl _ _ assms(2) st(2,1) assms(3)]
  have cw: "char_width s = 8" using st(3) by simp
  have "ScreenDeviceSetPixel (x + of_nat i) (sd_nCursorY s + of_nat j) BLACK_COLOR s'
      = Some (s'\<lparr>sd_pBuffer := (sd_pBuffer s')[pos s' (8 * c + i) (19 * t_row t + j) := picture Blank i j]\<rparr>)"
    if "i < 8" "j < 19" "screen_geom rows cols s'" for i j s'
    using SetPixel_ok[OF that(3) u[OF that(1,2)]] by simp
  from draw_shows[OF assms(1) st(1) assms(3), of "\<lambda>j i. ScreenDeviceSetPixel (x + i) (sd_nCursorY s + j) BLACK_COLOR", OF this]
  show ?thesis by (simp add: ScreenDeviceEraseChar_def cw)
qed

lemma erase_loop_shows:
  assumes "displays rows cols s t" and "unat x = 8 * c" and "unat e = 8 * k" and "k \<le> cols"
  shows "does rows cols (t\<lparr>t_grid := (\<lambda>r c'. if r = t_row t \<and> c \<le> c' \<and> c' < k then Blank else t_grid t r c')\<rparr>) (erase_loop x e s) s"
  using assms
proof (induction "k - c" arbitrary: c x s t)
  case 0
  then have "\<not> x < e" by (simp add: word_less_nat_alt)
  moreover have "(\<lambda>r c'. if r = t_row t \<and> c \<le> c' \<and> c' < k then Blank else t_grid t r c') = t_grid t" using 0(1) by (intro ext) auto
  ultimately show ?case using 0(2) by (subst erase_loop.simps) (simp add: does_def same_parser_def)
next
  case (Suc n)
  let ?t = "t\<lparr>t_grid := (\<lambda>r' c'. if r' = t_row t \<and> c' = c then Blank else t_grid t r' c')\<rparr>"
  have lt: "x < e" "c < cols" using Suc by (simp_all add: word_less_nat_alt)
  have "unat x + 8 < 2 ^ 32" using Suc.prems lt(2) by (auto simp: displays_def placed_def screen_geom_def)
  then have x: "unat (x + 8) = 8 * (c + 1)" using unat_add_of_nat[of x 8] Suc.prems(2) by simp
  have "does rows cols (t\<lparr>t_grid := (\<lambda>r c'. if r = t_row t \<and> c \<le> c' \<and> c' < k then Blank else t_grid t r c')\<rparr>)
      (erase_loop (x + char_width s') e s') s'" if s': "displays rows cols s' ?t" for s'
  proof -
    have "char_width s' = 8" using s' by (auto simp: displays_def placed_def)
    moreover have "(\<lambda>r c'. if r = t_row ?t \<and> c + 1 \<le> c' \<and> c' < k then Blank else t_grid ?t r c')
        = (\<lambda>r c'. if r = t_row t \<and> c \<le> c' \<and> c' < k then Blank else t_grid t r c')" using Suc.hyps(2) by (intro ext) auto
    ultimately show ?thesis using Suc.hyps(1)[OF _ s' x Suc.prems(3,4)] Suc.hyps(2) by simp
  qed
  with does_bind[OF EraseChar_shows[OF Suc.prems(1,2) lt(2)]] lt(1) show ?case by (subst erase_loop.simps) simp
qed

section \<open>Scrolling\<close>

lemma and_low_byte: "unat ((w :: u32) AND 0xFF) = unat w mod 256"
proof -
  have "w AND 0xFF = w mod 256" by (simp add: take_bit_eq_mask[of 8 w, symmetric, unfolded mask_eq_exp_minus_1, simplified] take_bit_eq_mod)
  then show ?thesis by (simp add: unat_mod_distrib)
qed

lemma and_not_low_byte: "unat ((w :: u32) AND - 256) = unat w - unat w mod 256"
proof -
  have "w - (w AND 0xFF) = w AND NOT (w AND 0xFF)" by (rule disjunctive_diff_eq_and_not) (rule bit_word_eqI, auto simp: bit_simps)
  also have "\<dots> = w AND NOT 0xFF" by (rule bit_word_eqI) (auto simp: bit_simps)
  finally have "w AND - 256 = w - (w AND 0xFF)" by simp
  then show ?thesis by (simp add: unat_minus_le word_le_nat_alt and_low_byte)
qed

text \<open>The two copies move all lines but the first to the top.\<close>

lemma scroll_copy:
  assumes "unat k = n" and "256 \<le> n" and "d + n \<le> length b"
  shows "\<exists>b'. Option.bind (buf_memcpyblk 0 d (k AND NOT 0xFF) b)
      (buf_memcpy (unat (k AND NOT 0xFF)) (d + unat (k AND NOT 0xFF)) (unat (k AND 0xFF))) = Some b' \<and> block_moved 0 d n b b'"
proof -
  define m r where "m = n - n mod 256" and "r = n mod 256"
  have u: "unat (k AND - 256) = m" "unat (k AND 0xFF) = r" using assms(1) by (simp_all add: and_not_low_byte and_low_byte m_def r_def)
  have n: "n = m + r" by (simp add: m_def r_def)
  obtain j where j: "m = 16 * Suc j"
  proof
    have "m = 16 * (16 * (n div 256))" by (simp add: minus_mod_eq_mult_div m_def)
    moreover have "0 < n div 256" using assms(2) by (simp add: div_greater_zero_iff)
    ultimately show "m = 16 * Suc (16 * (n div 256) - 1)" by simp
  qed
  from buf_memcpyblk_moved[of 0 d j b "k AND - 256"] u(1) assms(3) obtain b1 where
    b1: "buf_memcpyblk 0 d (k AND - 256) b = Some b1" "block_moved 0 d m b b1" unfolding j[symmetric] n by auto
  from buf_memcpy_moved[of m "d + m" r b1] b1(2) assms(3) obtain b2 where
    b2: "buf_memcpy m (d + m) r b1 = Some b2" "block_moved m (d + m) r b1 b2" unfolding n by (auto simp: block_moved_def)
  with b1 u n block_moved_trans[OF b1(2), of r b2] assms(3) show ?thesis by simp
qed

lemma scroll_sizes:
  assumes g: "screen_geom rows cols s" and P: "P = unat (sd_nPitch s)" and n: "n = P * (19 * (rows - 1))"
  shows "n + 19 * P = P * (19 * rows)" and "P * (19 * rows) \<le> length (sd_pBuffer s)" and "unat (19 * sd_nPitch s) = 19 * P"
    and "unat (sd_nPitch s * (sd_nUsedHeight s - 19)) = n" and "4 * unat (sd_nPitch s * (sd_nUsedHeight s - 19) div 4) = n"
    and "unat (sd_nPitch s * 19 div 4 * 4) = 19 * P" and "256 \<le> n" and "8 * cols \<le> P"
proof -
  have geo: "4 dvd P" "1 < rows" using g by (auto simp: screen_geom_def P)
  show "256 \<le> n" "8 * cols \<le> P" using g by (auto simp: screen_geom_def P n)
  show split: "n + 19 * P = P * (19 * rows)" using geo(2) by (cases rows) (simp_all add: n algebra_simps)
  have "P * (19 * rows) \<le> P * unat (sd_nHeight s)" using g by (intro mult_le_mono2) (simp add: screen_geom_def)
  also have "\<dots> \<le> length (sd_pBuffer s)" using g by (simp add: screen_geom_def P)
  finally show len: "P * (19 * rows) \<le> length (sd_pBuffer s)" .
  have sz: "length (sd_pBuffer s) < 2 ^ 32" using g unat_less_2p[of "sd_nSize s"] by (simp add: screen_geom_def)
  show w1: "unat (19 * sd_nPitch s) = 19 * P" using split len sz by (simp add: unat_word_ariths P)
  have "unat (sd_nUsedHeight s - 19) = 19 * (rows - 1)"
    using g by (subst unat_minus_le) (auto simp: screen_geom_def word_le_nat_alt)
  then show w2: "unat (sd_nPitch s * (sd_nUsedHeight s - 19)) = n" using split len sz by (simp add: unat_word_ariths P n)
  show "4 * unat (sd_nPitch s * (sd_nUsedHeight s - 19) div 4) = n" using geo(1) by (simp add: unat_div_distrib w2) (simp add: n)
  have "4 * (19 * P div 4) = 19 * P" using geo(1) by simp
  moreover define q where "q = sd_nPitch s * 19 div 4"
  moreover have "unat q = 19 * P div 4" using w1 by (simp add: q_def unat_div_distrib mult.commute)
  ultimately have "unat q * 4 = 19 * P" by simp
  then have "unat (q * 4) = 19 * P" using w1 unat_less_2p[of "19 * sd_nPitch s"] by (simp add: unat_word_ariths)
  then show "unat (sd_nPitch s * 19 div 4 * 4) = 19 * P" unfolding q_def .
qed

lemma Scroll_ok:
  assumes g: "screen_geom rows cols s"
  shows "\<exists>b. ScreenDeviceScroll s = Some (s\<lparr>sd_pBuffer := b\<rparr>) \<and> length b = length (sd_pBuffer s)
    \<and> (\<forall>X < 8 * cols. \<forall>Y < 19 * rows. b ! pos s X Y =
        (if Y < 19 * (rows - 1) then sd_pBuffer s ! pos s X (Y + 19) else BLACK_COLOR))"
proof -
  define P n where "P = unat (sd_nPitch s)" and "n = P * (19 * (rows - 1))"
  note sz = scroll_sizes[OF g P_def n_def]
  let ?k = "sd_nPitch s * (sd_nUsedHeight s - 19)"
  from scroll_copy[OF sz(4,7), of "19 * P" "sd_pBuffer s"] sz(1,2) obtain b2 where
    b2: "Option.bind (buf_memcpyblk 0 (19 * P) (?k AND NOT 0xFF) (sd_pBuffer s))
      (buf_memcpy (unat (?k AND NOT 0xFF)) (19 * P + unat (?k AND NOT 0xFF)) (unat (?k AND 0xFF))) = Some b2"
      "block_moved 0 (19 * P) n (sd_pBuffer s) b2" by auto
  from buf_memset_ok[of n "19 * P" b2 0] sz(1,2) b2(2) obtain b3 where
    b3: "buf_memset n (19 * P) 0 b2 = Some b3" "length b3 = length (sd_pBuffer s)"
      "\<forall>j < length (sd_pBuffer s). b3 ! j = (if n \<le> j \<and> j < n + 19 * P then 0 else b2 ! j)" by (auto simp: block_moved_def)
  from b2(1) b3(1) have run: "ScreenDeviceScroll s = Some (s\<lparr>sd_pBuffer := b3\<rparr>)"
    by (auto simp: ScreenDeviceScroll_def Let_def sz(3,5,6) bind_eq_Some_conv)
  have "b3 ! pos s X Y = (if Y < 19 * (rows - 1) then sd_pBuffer s ! pos s X (Y + 19) else BLACK_COLOR)"
    if XY: "X < 8 * cols" "Y < 19 * rows" for X Y
  proof -
    have lt: "pos s X Y < P * (Y + 1)" using XY(1) sz(8) by (simp add: pos_def P_def)
    have le: "P * (Y + 1) \<le> P * (19 * rows)" using XY(2) by (intro mult_le_mono2) simp
    show ?thesis
    proof (cases "Y < 19 * (rows - 1)")
      case True
      have "P * (Y + 1) \<le> n" unfolding n_def using True by (intro mult_le_mono2) simp
      with lt have "pos s X Y < n" by simp
      moreover have "pos s X (Y + 19) = pos s X Y + 19 * P" by (simp add: pos_def P_def algebra_simps)
      ultimately show ?thesis using True b3(3) b2(2) sz(1,2) by (auto simp: block_moved_def)
    next
      case False
      then have "n \<le> P * Y" unfolding n_def by (intro mult_le_mono2) simp
      then have "n \<le> pos s X Y" by (simp add: pos_def P_def)
      with lt le show ?thesis using False b3(3) sz(1,2) by (simp add: BLACK_COLOR_def)
    qed
  qed
  with run b3(2) show ?thesis by blast
qed

section \<open>Moving the cursor\<close>

text \<open>Only the position of the cursor changes.\<close>

lemma cursor_shows:
  assumes "displays rows cols s t" and "r < rows" and "c < cols" and "unat x = 8 * c" and "unat y = 19 * r"
  shows "displays rows cols (s\<lparr>sd_nCursorX := x, sd_nCursorY := y\<rparr>) (t\<lparr>t_row := r, t_col := c\<rparr>)"
  using assms by (simp add: displays_def placed_def screen_geom_def pos_def)

lemma does_cursor:
  assumes "displays rows cols s t" and "r < rows" and "c < cols" and "unat x = 8 * c" and "unat y = 19 * r"
    and "s' = s\<lparr>sd_nCursorX := x, sd_nCursorY := y\<rparr>" and "t' = t\<lparr>t_row := r, t_col := c\<rparr>"
  shows "does rows cols t' (Some s') s"
  using cursor_shows[OF assms(1-5)] assms(6,7) by (simp add: does_def same_parser_def)

lemma does_same: "displays rows cols s t \<Longrightarrow> does rows cols t (Some s) s"
  by (simp add: does_def same_parser_def)

lemma displaysD:
  assumes "displays rows cols s t"
  shows "screen_geom rows cols s" and "t_row t < rows" and "t_col t < cols" and "unat (sd_nCursorX s) = 8 * t_col t"
    and "unat (sd_nCursorY s) = 19 * t_row t" and "char_width s = 8" and "char_height s = 19"
    and "unat (sd_nWidth s) = 8 * cols" and "unat (sd_nUsedHeight s) = 19 * rows" and "8 * cols + 800 < 2 ^ 32" and "19 * rows + 19 < 2 ^ 32"
  using assms by (auto simp: displays_def placed_def screen_geom_def CharGeneratorGetCharWidth_def)

text \<open>The column is not part of what \<^verbatim>\<open>CursorDown\<close> looks at: it may be past the last one, as in \<^verbatim>\<open>NewLine\<close>.\<close>

lemma CursorDown_shows:
  assumes d: "displays rows cols s t"
  shows "does rows cols (t_down rows t) (ScreenDeviceCursorDown s) s"
proof -
  note D = displaysD[OF d]
  have "unat (sd_nCursorY s) + 19 < 2 ^ 32" using D by simp
  then have y: "unat (sd_nCursorY s + 19) = 19 * (t_row t + 1)" using unat_add_of_nat[of "sd_nCursorY s" 19] D(5) by simp
  show ?thesis
  proof (cases "t_row t + 1 < rows")
    case True
    then have "\<not> sd_nUsedHeight s \<le> sd_nCursorY s + 19" using y D(9) by (simp add: word_le_nat_alt)
    with True D y show ?thesis
      by (auto simp: ScreenDeviceCursorDown_def t_down_def Let_def intro!: does_cursor[OF d, of "t_row t + 1" "t_col t" "sd_nCursorX s"])
  next
    case False
    then have ge: "sd_nUsedHeight s \<le> sd_nCursorY s + 19" using y D(2,9) by (simp add: word_le_nat_alt)
    let ?s = "s\<lparr>sd_nCursorY := sd_nCursorY s + 19\<rparr>"
    have g: "screen_geom rows cols ?s" using D(1) by (simp add: screen_geom_def)
    from Scroll_ok[OF g] obtain b where
      b: "ScreenDeviceScroll ?s = Some (?s\<lparr>sd_pBuffer := b\<rparr>)" "length b = length (sd_pBuffer s)"
        "\<forall>X < 8 * cols. \<forall>Y < 19 * rows. b ! pos s X Y = (if Y < 19 * (rows - 1) then sd_pBuffer s ! pos s X (Y + 19) else BLACK_COLOR)"
      by (auto simp: pos_def)
    have "b ! pos s X Y = picture (t_grid (t_down rows t) (Y div 19) (X div 8)) (X mod 8) (Y mod 19)"
      if XY: "X < 8 * cols" "Y < 19 * rows" for X Y
    proof -
      have "Y < 19 * (rows - 1) \<longleftrightarrow> Y div 19 + 1 < rows" by (cases rows) (simp_all add: div_less_iff_less_mult mult.commute)
      moreover have "sd_pBuffer s ! pos s X (Y + 19) = picture (t_grid t (Y div 19 + 1) (X div 8)) (X mod 8) (Y mod 19)" if "Y < 19 * (rows - 1)"
      proof -
        have "(Y + 19) div 19 = Y div 19 + 1" "(Y + 19) mod 19 = Y mod 19" "Y + 19 < 19 * rows" using that by simp_all
        with d XY(1) show ?thesis unfolding displays_def by metis
      qed
      ultimately show ?thesis using b(3) XY False by (auto simp: t_down_def)
    qed
    with b(2) d False have "displays rows cols (s\<lparr>sd_pBuffer := b\<rparr>) (t_down rows t)"
      by (auto simp: displays_def placed_def t_down_def screen_geom_def pos_def)
    moreover have "ScreenDeviceCursorDown s = Some (s\<lparr>sd_pBuffer := b\<rparr>)" using ge b(1) by (simp add: ScreenDeviceCursorDown_def Let_def)
    ultimately show ?thesis by (simp add: does_def same_parser_def)
  qed
qed

lemma NewLine_shows:
  assumes "displays rows cols s t"
  shows "does rows cols (t_down rows (t\<lparr>t_col := 0\<rparr>)) (ScreenDeviceNewLine s) s"
proof -
  have d: "displays rows cols (s\<lparr>sd_nCursorX := 0\<rparr>) (t\<lparr>t_col := 0\<rparr>)"
    using cursor_shows[OF assms, of "t_row t" 0 0 "sd_nCursorY s"] displaysD[OF assms] by simp
  from CursorDown_shows[OF d] show ?thesis
    by (simp add: ScreenDeviceNewLine_def ScreenDeviceCarriageReturn_def does_def same_parser_def)
qed

text \<open>A move to a column that may be past the last one: \<^verbatim>\<open>CursorRight\<close> and \<^verbatim>\<open>Tabulator\<close>.\<close>

lemma to_col_shows:
  assumes d: "displays rows cols s t" and x: "unat x = 8 * c"
  shows "does rows cols (t_to_col rows cols c t)
    (if x \<ge> sd_nWidth s then ScreenDeviceNewLine (s\<lparr>sd_nCursorX := x\<rparr>) else Some (s\<lparr>sd_nCursorX := x\<rparr>)) s"
proof (cases "c < cols")
  case True
  note D = displaysD[OF d]
  have "\<not> sd_nWidth s \<le> x" using True x D(8) by (simp add: word_le_nat_alt)
  with True x D show ?thesis by (auto simp: t_to_col_def intro!: does_cursor[OF d, of "t_row t" c x "sd_nCursorY s"])
next
  case False
  have "sd_nWidth s \<le> x" using False x displaysD(8)[OF d] by (simp add: word_le_nat_alt)
  moreover have "ScreenDeviceNewLine (s\<lparr>sd_nCursorX := x\<rparr>) = ScreenDeviceNewLine s"
    by (simp add: ScreenDeviceNewLine_def ScreenDeviceCarriageReturn_def)
  ultimately show ?thesis using NewLine_shows[OF d] False by (simp add: t_to_col_def)
qed

lemma CursorRight_shows:
  assumes d: "displays rows cols s t"
  shows "does rows cols (t_to_col rows cols (t_col t + 1) t) (ScreenDeviceCursorRight s) s"
proof -
  note D = displaysD[OF d]
  have "unat (sd_nCursorX s) + 8 < 2 ^ 32" using D by simp
  then have "unat (sd_nCursorX s + 8) = 8 * (t_col t + 1)" using unat_add_of_nat[of "sd_nCursorX s" 8] D(4) by simp
  from to_col_shows[OF d this] D(6) show ?thesis by (simp add: ScreenDeviceCursorRight_def Let_def)
qed

lemma Tabulator_shows:
  assumes d: "displays rows cols s t"
  shows "does rows cols (t_to_col rows cols (8 * (t_col t div 8 + 1)) t) (ScreenDeviceTabulator s) s"
proof -
  note D = displaysD[OF d]
  have le: "unat (sd_nCursorX s) + 64 < 2 ^ 32" using D by simp
  then have a: "unat (sd_nCursorX s + 64) = 8 * t_col t + 64" using unat_add_of_nat[of "sd_nCursorX s" 64] D(4) by simp
  then have q: "unat ((sd_nCursorX s + 64) div 64) = t_col t div 8 + 1" by (simp add: unat_div_distrib)
  have "unat ((sd_nCursorX s + 64) div 64) * 64 < 2 ^ 32"
    unfolding q using le D(4) div_times_less_eq_dividend[of "t_col t" 8] by simp
  then have "unat ((sd_nCursorX s + 64) div 64 * 64) = 8 * (8 * (t_col t div 8 + 1))" using q by (simp add: unat_word_ariths)
  from to_col_shows[OF d this] D(6) show ?thesis by (simp add: ScreenDeviceTabulator_def Let_def)
qed

lemma CursorLeft_shows:
  assumes d: "displays rows cols s t"
  shows "does rows cols (act rows cols Back t) (Some (ScreenDeviceCursorLeft s)) s"
proof -
  note D = displaysD[OF d]
  have pos: "sd_nCursorX s > 0 \<longleftrightarrow> 0 < t_col t" "sd_nCursorY s > 0 \<longleftrightarrow> 0 < t_row t" using D(4,5) by (simp_all add: word_less_nat_alt)
  have x: "unat (sd_nCursorX s - 8) = 8 * (t_col t - 1)" if "0 < t_col t"
    using that D(4) by (subst unat_minus_le) (auto simp: word_le_nat_alt)
  have y: "unat (sd_nCursorY s - 19) = 19 * (t_row t - 1)" if "0 < t_row t"
    using that D(5) by (subst unat_minus_le) (auto simp: word_le_nat_alt)
  have w: "unat (sd_nWidth s - 8) = 8 * (cols - 1)"
    using D(3,8) by (subst unat_minus_le) (auto simp: word_le_nat_alt)
  consider "0 < t_col t" | "t_col t = 0" "t_row t = 0" | "t_col t = 0" "0 < t_row t" by auto
  then show ?thesis
  proof cases
    case 1
    with pos x D show ?thesis
      by (auto simp: ScreenDeviceCursorLeft_def intro!: does_cursor[OF d, of "t_row t" "t_col t - 1" "sd_nCursorX s - 8" "sd_nCursorY s"])
  next
    case 2
    with pos does_same[OF d] show ?thesis by (simp add: ScreenDeviceCursorLeft_def)
  next
    case 3
    with pos y w D show ?thesis
      by (auto simp: ScreenDeviceCursorLeft_def intro!: does_cursor[OF d, of "t_row t - 1" "cols - 1" "sd_nWidth s - 8" "sd_nCursorY s - 19"])
  qed
qed

lemma CursorUp_shows:
  assumes d: "displays rows cols s t"
  shows "does rows cols (act rows cols Up t) (Some (ScreenDeviceCursorUp s)) s"
proof (cases "t_row t")
  case 0
  then have "act rows cols Up t = t" by (cases t) simp
  moreover have "ScreenDeviceCursorUp s = s" using 0 displaysD[OF d] by (simp add: ScreenDeviceCursorUp_def word_le_nat_alt)
  ultimately show ?thesis using does_same[OF d] by (simp only:)
next
  case (Suc r)
  note D = displaysD[OF d]
  have ge: "19 \<le> sd_nCursorY s" using Suc D(5) by (simp add: word_le_nat_alt)
  then have "unat (sd_nCursorY s - 19) = 19 * r" using D(5) Suc by (simp add: unat_minus_le)
  with ge D Suc show ?thesis
    by (auto simp: ScreenDeviceCursorUp_def intro!: does_cursor[OF d, of r "t_col t" "sd_nCursorX s" "sd_nCursorY s - 19"])
qed

text \<open>The numbers of a sequence have at most two and three digits; a number 0 gives a position far outside and is ignored.\<close>

lemma move_position:
  fixes w k W :: u32
  assumes "unat w * unat k < 2 ^ 32" and "unat W = unat k * L" and "unat W + unat k < 2 ^ 32" and "0 < unat k"
  shows "(w - 1) * k < W \<longleftrightarrow> 1 \<le> unat w \<and> unat w \<le> L" and "w \<noteq> 0 \<Longrightarrow> unat ((w - 1) * k) = unat k * (unat w - 1)"
proof -
  show mul: "unat ((w - 1) * k) = unat k * (unat w - 1)" if "w \<noteq> 0"
  proof -
    have w: "unat (w - 1) = unat w - 1" using that by (rule unat_minus_one)
    have "(unat w - 1) * unat k \<le> unat w * unat k" by (rule mult_le_mono1) simp
    also note assms(1)
    finally show ?thesis unfolding w[symmetric] by (simp add: unat_word_ariths mult.commute)
  qed
  show "(w - 1) * k < W \<longleftrightarrow> 1 \<le> unat w \<and> unat w \<le> L"
  proof (cases "w = 0")
    case True
    have "(unat (- k) + unat k) mod 2 ^ 32 = 0" using unat_word_ariths(1)[of "- k" k] by simp
    then have "2 ^ 32 \<le> unat (- k) + unat k" using assms(4) by (metis add_is_0 less_numeral_extra(3) mod_less not_less)
    with True assms(3) show ?thesis by (simp add: word_less_nat_alt)
  next
    case False
    then obtain j where "unat w = Suc j" by (metis not0_implies_Suc unat_eq_zero)
    with mul[OF False] assms(2,4) show ?thesis by (simp add: word_less_nat_alt Suc_le_eq)
  qed
qed

lemma CursorMove_shows:
  assumes d: "displays rows cols s t" and n: "unat n \<le> 99" and m: "unat m \<le> 199"
  shows "does rows cols (act rows cols (Move (unat n) (unat m)) t) (Some (ScreenDeviceCursorMove n m s)) s"
proof -
  note D = displaysD[OF d]
  have x: "(m - 1) * 8 < sd_nWidth s \<longleftrightarrow> 1 \<le> unat m \<and> unat m \<le> cols" "m \<noteq> 0 \<Longrightarrow> unat ((m - 1) * 8) = 8 * (unat m - 1)"
    using move_position[of m 8 "sd_nWidth s" cols] m D(8,10) by simp_all
  have y: "(n - 1) * 19 < sd_nUsedHeight s \<longleftrightarrow> 1 \<le> unat n \<and> unat n \<le> rows" "n \<noteq> 0 \<Longrightarrow> unat ((n - 1) * 19) = 19 * (unat n - 1)"
    using move_position[of n 19 "sd_nUsedHeight s" rows] n D(9,11) by simp_all
  show ?thesis
  proof (cases "1 \<le> unat n \<and> unat n \<le> rows \<and> 1 \<le> unat m \<and> unat m \<le> cols")
    case True
    then have z: "m \<noteq> 0" "n \<noteq> 0" and lt: "unat n - 1 < rows" "unat m - 1 < cols" by auto
    have "ScreenDeviceCursorMove n m s = s\<lparr>sd_nCursorX := (m - 1) * 8, sd_nCursorY := (n - 1) * 19\<rparr>"
      using True x(1) y(1) D(6,7) unfolding ScreenDeviceCursorMove_def Let_def by (simp only:) simp
    from does_cursor[OF d lt x(2)[OF z(1)] y(2)[OF z(2)] this] True show ?thesis by simp
  next
    case False
    then have "ScreenDeviceCursorMove n m s = s" using x(1) y(1) D(6,7) unfolding ScreenDeviceCursorMove_def Let_def by auto
    with False does_same[OF d] show ?thesis by auto
  qed
qed

section \<open>Clearing\<close>

lemma ClearLineEnd_shows:
  assumes d: "displays rows cols s t"
  shows "does rows cols (t_erase cols t) (ScreenDeviceClearLineEnd s) s"
  using erase_loop_shows[OF d displaysD(4,8)[OF d]] by (simp add: ScreenDeviceClearLineEnd_def t_erase_def)

lemma EraseChars_shows:
  assumes d: "displays rows cols s t" and n: "unat n \<le> 99"
  shows "does rows cols (t_erase (min (t_col t + unat n) cols) t) (ScreenDeviceEraseChars n s) s"
proof (cases "n = 0")
  case True
  have "t_erase (min (t_col t) cols) t = t" by (cases t) (auto simp: t_erase_def fun_eq_iff)
  with True does_same[OF d] show ?thesis by (simp add: ScreenDeviceEraseChars_def)
next
  case False
  note D = displaysD[OF d]
  let ?e = "sd_nCursorX s + n * 8"
  have e: "unat ?e = 8 * (t_col t + unat n)"
  proof -
    have n8: "unat (n * 8) = 8 * unat n" using n by (simp add: unat_word_ariths)
    have "unat (sd_nCursorX s) + unat (n * 8) < 2 ^ 32" using n8 n D(3,4,10) by simp
    then have "unat ?e = unat (sd_nCursorX s) + unat (n * 8)" by (simp add: unat_plus_if_no_wrap)
    with n8 D(4) show ?thesis by simp
  qed
  have k: "unat (if ?e > sd_nWidth s then sd_nWidth s else ?e) = 8 * min (t_col t + unat n) cols"
    using e D(8) by (simp add: word_less_nat_alt min_def)
  from erase_loop_shows[OF d D(4) k] False D(6) show ?thesis by (simp add: ScreenDeviceEraseChars_def t_erase_def Let_def)
qed

lemma clear_below_shows:
  assumes d: "displays rows cols s t"
  shows "does rows cols (t_clear_below t)
    (do { b \<leftarrow> buf_memset (unat ((sd_nCursorY s + 19) * sd_nPitch s)) (unat (sd_nSize s - (sd_nCursorY s + 19) * sd_nPitch s)) 0 (sd_pBuffer s);
          Some (s\<lparr>sd_pBuffer := b\<rparr>) }) s"
proof -
  note D = displaysD[OF d]
  define P where "P = unat (sd_nPitch s)"
  let ?off = "19 * (t_row t + 1) * P"
  have geo: "P * unat (sd_nHeight s) \<le> unat (sd_nSize s)" "19 * rows \<le> unat (sd_nHeight s)" "length (sd_pBuffer s) = unat (sd_nSize s)" "8 * cols \<le> P"
    using D(1) by (auto simp: screen_geom_def P_def)
  have y: "unat (sd_nCursorY s + 19) = 19 * (t_row t + 1)" using unat_add_of_nat[of "sd_nCursorY s" 19] D(2,5,11) by simp
  have "?off \<le> unat (sd_nHeight s) * P" using D(2) geo(2) by (intro mult_le_mono1) simp
  also have "\<dots> \<le> unat (sd_nSize s)" using geo(1) by (simp add: mult.commute)
  finally have le: "?off \<le> unat (sd_nSize s)" .
  have off: "unat ((sd_nCursorY s + 19) * sd_nPitch s) = ?off"
  proof -
    have "unat (sd_nCursorY s + 19) * unat (sd_nPitch s) < 2 ^ 32" using le unat_less_2p[of "sd_nSize s"] by (simp add: y P_def)
    then show ?thesis using y by (simp add: unat_word_ariths P_def)
  qed
  then have size: "unat (sd_nSize s - (sd_nCursorY s + 19) * sd_nPitch s) = unat (sd_nSize s) - ?off"
    using le by (simp add: unat_minus_le word_le_nat_alt)
  from buf_memset_ok[of ?off "unat (sd_nSize s) - ?off" "sd_pBuffer s" 0] le geo(3) obtain b where
    b: "buf_memset ?off (unat (sd_nSize s) - ?off) 0 (sd_pBuffer s) = Some b" "length b = length (sd_pBuffer s)"
      "\<forall>j < length (sd_pBuffer s). b ! j = (if ?off \<le> j then 0 else sd_pBuffer s ! j)" by auto
  have "b ! pos s X Y = cell_pixel (t_clear_below t) X Y" if XY: "X < 8 * cols" "Y < 19 * rows" for X Y
  proof -
    have lt: "pos s X Y < length (sd_pBuffer s)" using pos_less(1)[OF D(1) XY(1)] XY(2) geo(2) by simp
    have "?off \<le> pos s X Y \<longleftrightarrow> t_row t < Y div 19"
    proof -
      have "X < P" using XY(1) geo(4) by simp
      then have "?off \<le> pos s X Y \<longleftrightarrow> 19 * (t_row t + 1) \<le> pos s X Y div P"
        by (subst less_eq_div_iff_mult_less_eq) simp_all
      also have "pos s X Y div P = Y" using \<open>X < P\<close> by (simp add: pos_def P_def)
      also have "19 * (t_row t + 1) \<le> Y \<longleftrightarrow> t_row t + 1 \<le> Y div 19" by (subst less_eq_div_iff_mult_less_eq) (simp_all add: mult.commute)
      finally show ?thesis by (simp add: Suc_le_eq)
    qed
    with b(3) lt d XY show ?thesis by (auto simp: displays_def t_clear_below_def BLACK_COLOR_def)
  qed
  with b(2) d have "displays rows cols (s\<lparr>sd_pBuffer := b\<rparr>) (t_clear_below t)"
    by (auto simp: displays_def placed_def t_clear_below_def screen_geom_def pos_def)
  with b(1) off size show ?thesis by (simp add: does_def same_parser_def)
qed

lemma ClearDisplayEnd_shows:
  assumes d: "displays rows cols s t"
  shows "does rows cols (t_clear_below (t_erase cols t)) (ScreenDeviceClearDisplayEnd s) s"
proof -
  have "does rows cols (t_clear_below (t_erase cols t)) (Option.bind (ScreenDeviceClearLineEnd s) (\<lambda>s.
      do { b \<leftarrow> buf_memset (unat ((sd_nCursorY s + 19) * sd_nPitch s)) (unat (sd_nSize s - (sd_nCursorY s + 19) * sd_nPitch s)) 0 (sd_pBuffer s);
           Some (s\<lparr>sd_pBuffer := b\<rparr>) })) s"
    by (rule does_bind[OF ClearLineEnd_shows[OF d]]) (rule clear_below_shows)
  then show ?thesis by (simp add: ScreenDeviceClearDisplayEnd_def Let_def)
qed

section \<open>The cursor on the screen\<close>

lemma InvertCursor_ok:
  assumes p: "placed rows cols s t"
  shows "\<exists>b. ScreenDeviceInvertCursor s = Some (s\<lparr>sd_pBuffer := b\<rparr>) \<and> length b = length (sd_pBuffer s)
    \<and> (\<forall>X < 8 * cols. \<forall>Y < 19 * rows. b ! pos s X Y =
        (if t_cursor t \<and> in_cell 16 (t_row t) (t_col t) X Y
         then (if sd_pBuffer s ! pos s X Y = BLACK_COLOR then t_color t else BLACK_COLOR) else sd_pBuffer s ! pos s X Y))"
proof (cases "t_cursor t")
  case False
  with p show ?thesis by (auto simp: ScreenDeviceInvertCursor_def placed_def intro!: exI[of _ "sd_pBuffer s"])
next
  case True
  have g: "screen_geom rows cols s" and rc: "t_row t < rows" "t_col t < cols"
    and st: "unat (sd_nCursorX s) = 8 * t_col t" "unat (sd_nCursorY s) = 19 * t_row t" "sd_Color s = t_color t" "sd_bCursorOn s"
    using p True by (auto simp: placed_def)
  let ?f = "\<lambda>y x s. do { p \<leftarrow> ScreenDeviceGetPixel (sd_nCursorX s + x) (sd_nCursorY s + y) s;
      if p = BLACK_COLOR then ScreenDeviceSetPixel (sd_nCursorX s + x) (sd_nCursorY s + y) (sd_Color s) s
      else ScreenDeviceSetPixel (sd_nCursorX s + x) (sd_nCursorY s + y) BLACK_COLOR s }"
  have body: "?f (of_nat y) (of_nat x) (s\<lparr>sd_pBuffer := b\<rparr>) = Some (s\<lparr>sd_pBuffer := b[pos s (8 * t_col t + x) (19 * t_row t + y) :=
      (\<lambda>x y v. if v = BLACK_COLOR then t_color t else BLACK_COLOR) x y (b ! pos s (8 * t_col t + x) (19 * t_row t + y))]\<rparr>)"
    if a: "x < 8" "unat (16 :: u32) \<le> y" "y < 19" "length b = length (sd_pBuffer s)" for x y b
  proof -
    note u = unat_cell[OF p a(1,3) st(1,2) rc]
    note ok = SetPixel_ok[OF screen_geom_buffer[OF g a(4)] u] GetPixel_ok[OF screen_geom_buffer[OF g a(4)] u]
    have "pos (s\<lparr>sd_pBuffer := b\<rparr>) X Y = pos s X Y" for X Y by (simp add: pos_def)
    with ok st(3) show ?thesis by simp
  qed
  have cw: "char_width s = 8" using g by simp
  have inv: "ScreenDeviceInvertCursor s = for_each (\<lambda>y. for_each (?f y) (counting 0 8)) (counting 16 19) s"
    using st(4) unfolding ScreenDeviceInvertCursor_def cw char_size(2,3) by (simp only: simp_thms if_False)
  have u16: "unat (16 :: u32) = 16" by simp
  from draw_cell[OF g rc, of 16 ?f, OF body, unfolded u16] show ?thesis unfolding inv by (simp only: True simp_thms)
qed

fun clean :: "cell \<Rightarrow> bool" where
  "clean (Other p) \<longleftrightarrow> False"
| "clean _ \<longleftrightarrow> True"

text \<open>What is seen between two writes: the cells and, in the last three lines of its cell, the cursor.\<close>

definition visible :: "nat \<Rightarrow> nat \<Rightarrow> TScreenDevice \<Rightarrow> terminal \<Rightarrow> bool" where
  "visible rows cols s t \<longleftrightarrow> placed rows cols s t \<and> (\<forall>r < rows. \<forall>c < cols. clean (t_grid t r c))
     \<and> (\<forall>X < 8 * cols. \<forall>Y < 19 * rows. sd_pBuffer s ! pos s X Y =
          (if t_cursor t \<and> in_cell 16 (t_row t) (t_col t) X Y then t_color t else cell_pixel t X Y))"

lemma clean_underline: "clean p \<Longrightarrow> 16 \<le> y \<Longrightarrow> picture p x y = BLACK_COLOR"
  by (cases p) (auto simp: glyph_bit_def)

lemma in_cell_underline:
  assumes "in_cell 16 r c X Y"
  shows "Y div 19 = r" and "X div 8 = c" and "16 \<le> Y mod 19"
proof -
  show r: "Y div 19 = r" and "X div 8 = c" using assms by (auto simp: in_cell_def)
  then have "Y = 19 * r + Y mod 19" by (metis mult_div_mod_eq)
  with assms show "16 \<le> Y mod 19" by (simp add: in_cell_def)
qed

lemma placed_buffer: "placed rows cols s t \<Longrightarrow> length b = length (sd_pBuffer s) \<Longrightarrow> placed rows cols (s\<lparr>sd_pBuffer := b\<rparr>) t"
  by (simp add: placed_def screen_geom_def)

lemma InvertCursor_hide:
  assumes v: "visible rows cols s t"
  shows "does rows cols t (ScreenDeviceInvertCursor s) s"
proof -
  have p: "placed rows cols s t" using v by (simp add: visible_def)
  from InvertCursor_ok[OF p] obtain b where
    b: "ScreenDeviceInvertCursor s = Some (s\<lparr>sd_pBuffer := b\<rparr>)" "length b = length (sd_pBuffer s)"
      "\<forall>X < 8 * cols. \<forall>Y < 19 * rows. b ! pos s X Y = (if t_cursor t \<and> in_cell 16 (t_row t) (t_col t) X Y
         then (if sd_pBuffer s ! pos s X Y = BLACK_COLOR then t_color t else BLACK_COLOR) else sd_pBuffer s ! pos s X Y)" by blast
  have "b ! pos s X Y = cell_pixel t X Y" if XY: "X < 8 * cols" "Y < 19 * rows" for X Y
  proof (cases "t_cursor t \<and> in_cell 16 (t_row t) (t_col t) X Y")
    case True
    then have "cell_pixel t X Y = BLACK_COLOR"
      using in_cell_underline[of "t_row t" "t_col t" X Y] v p by (auto simp: visible_def placed_def intro: clean_underline)
    with True b(3) v XY show ?thesis by (auto simp: visible_def)
  next
    case False
    with b(3) v XY show ?thesis by (auto simp: visible_def)
  qed
  with b(1,2) placed_buffer[OF p b(2)] show ?thesis by (auto simp: does_def displays_def same_parser_def pos_def)
qed

lemma InvertCursor_show:
  assumes d: "displays rows cols s t" and c: "\<forall>r < rows. \<forall>c < cols. clean (t_grid t r c)"
  shows "\<exists>s'. ScreenDeviceInvertCursor s = Some s' \<and> visible rows cols s' t \<and> same_parser s s'"
proof -
  have p: "placed rows cols s t" using d by (simp add: displays_def)
  from InvertCursor_ok[OF p] obtain b where
    b: "ScreenDeviceInvertCursor s = Some (s\<lparr>sd_pBuffer := b\<rparr>)" "length b = length (sd_pBuffer s)"
      "\<forall>X < 8 * cols. \<forall>Y < 19 * rows. b ! pos s X Y = (if t_cursor t \<and> in_cell 16 (t_row t) (t_col t) X Y
         then (if sd_pBuffer s ! pos s X Y = BLACK_COLOR then t_color t else BLACK_COLOR) else sd_pBuffer s ! pos s X Y)" by blast
  have "b ! pos s X Y = (if t_cursor t \<and> in_cell 16 (t_row t) (t_col t) X Y then t_color t else cell_pixel t X Y)"
    if XY: "X < 8 * cols" "Y < 19 * rows" for X Y
  proof (cases "t_cursor t \<and> in_cell 16 (t_row t) (t_col t) X Y")
    case True
    then have "cell_pixel t X Y = BLACK_COLOR"
      using in_cell_underline[of "t_row t" "t_col t" X Y] c p by (auto simp: placed_def intro: clean_underline)
    with True b(3) d XY show ?thesis by (auto simp: displays_def)
  next
    case False
    with b(3) d XY show ?thesis by (auto simp: displays_def)
  qed
  with b(1,2) c placed_buffer[OF p b(2)] show ?thesis by (auto simp: visible_def same_parser_def pos_def)
qed

section \<open>Escape sequences\<close>

definition goes :: "nat \<Rightarrow> nat \<Rightarrow> terminal \<times> esc \<Rightarrow> TScreenDevice option \<Rightarrow> bool" where
  "goes rows cols te res \<longleftrightarrow> (\<exists>s'. res = Some s' \<and> displays rows cols s' (fst te) \<and> screen_esc s' = snd te)"

lemma displays_parser:
  "displays rows cols (s\<lparr>sd_nState := st\<rparr>) t = displays rows cols s t"
  "displays rows cols (s\<lparr>sd_nParam1 := p\<rparr>) t = displays rows cols s t"
  "displays rows cols (s\<lparr>sd_nParam2 := p\<rparr>) t = displays rows cols s t"
  "displays rows cols (s\<lparr>sd_bInsertOn := b\<rparr>) t = displays rows cols s t"
  by (simp_all add: displays_def placed_def screen_geom_def pos_def)

lemma goes_does: "does rows cols t (res) s \<Longrightarrow> sd_nState s = ScreenStateStart \<Longrightarrow> goes rows cols (t, Plain) res"
  by (auto simp: goes_def does_def same_parser_def screen_esc_def)

lemma goes_done: "does rows cols t (res) s \<Longrightarrow> goes rows cols (t, Plain) (map_option (to_state ScreenStateStart) res)"
  by (auto simp: goes_def does_def screen_esc_def displays_parser)

lemma goes_done_Some: "does rows cols t (Some s') s \<Longrightarrow> goes rows cols (t, Plain) (Some (to_state ScreenStateStart s'))"
  using goes_done by fastforce

lemma goes_state:
  assumes "displays rows cols s t" and "screen_esc s' = e" and "displays rows cols s' t = displays rows cols s t"
  shows "goes rows cols (t, e) (Some s')"
  using assms by (simp add: goes_def)

lemma digit8_less: "isdigit8 ch \<Longrightarrow> digit8 ch \<le> 9"
  by (auto simp: isdigit8_def digit8_def word_le_nat_alt)

lemma digit_value_nat: "isdigit8 ch \<Longrightarrow> unat (digit_value ch) = digit8 ch"
  by (simp add: isdigit8_def digit_value_def digit8_def unat_ucast_up unat_minus_le word_le_nat_alt)

lemma more_digits:
  assumes "isdigit8 ch" and "unat p \<le> 199"
  shows "unat (p * 10 + digit_value ch) = 10 * unat p + digit8 ch"
proof -
  have p: "unat (p * 10) = 10 * unat p" using assms(2) by (simp add: unat_word_ariths)
  have "unat (p * 10) + unat (digit_value ch) < 2 ^ 32" using p assms digit8_less[OF assms(1)] by (simp add: digit_value_nat)
  then show ?thesis using p assms(1) by (simp add: unat_plus_if_no_wrap digit_value_nat)
qed

lemma not_digit:
  "isdigit8 ch \<Longrightarrow> ch \<noteq> 0x3B" "isdigit8 ch \<Longrightarrow> ch \<noteq> 0x3F" "isdigit8 ch \<Longrightarrow> ch \<noteq> 0x41" "isdigit8 ch \<Longrightarrow> ch \<noteq> 0x42"
  "isdigit8 ch \<Longrightarrow> ch \<noteq> 0x43" "isdigit8 ch \<Longrightarrow> ch \<noteq> 0x48" "isdigit8 ch \<Longrightarrow> ch \<noteq> 0x4A" "isdigit8 ch \<Longrightarrow> ch \<noteq> 0x4B"
  "isdigit8 ch \<Longrightarrow> ch \<noteq> 0x4C" "isdigit8 ch \<Longrightarrow> ch \<noteq> 0x4D" "isdigit8 ch \<Longrightarrow> ch \<noteq> 0x50" "isdigit8 ch \<Longrightarrow> ch \<noteq> 0x58"
  "isdigit8 ch \<Longrightarrow> ch \<noteq> 0x68" "isdigit8 ch \<Longrightarrow> ch \<noteq> 0x6C" "isdigit8 ch \<Longrightarrow> ch \<noteq> 0x6D"
  by (auto simp: isdigit8_def)

lemma parse_esc_ok: "esc_ok e \<Longrightarrow> esc_ok (snd (parse e ch))"
  using digit8_less[of ch] by (cases e) auto

abbreviation step_to :: "nat \<Rightarrow> nat \<Rightarrow> terminal \<Rightarrow> action \<times> esc \<Rightarrow> terminal \<times> esc" where
  "step_to rows cols t ae \<equiv> (act rows cols (fst ae) t, snd ae)"

lemma write_start_goes:
  assumes d: "displays rows cols s t" and st: "sd_nState s = ScreenStateStart"
  shows "goes rows cols (step_to rows cols t (parse Plain ch)) (write_start ch s)"
proof -
  consider "ch = 0x08" | "ch = 0x09" | "ch = 0x0A" | "ch = 0x0D" | "ch = 0x1B" | "32 \<le> ch" "ch \<notin> {0x08, 0x09, 0x0A, 0x0D, 0x1B}"
    | "\<not> 32 \<le> ch" "ch \<notin> {0x08, 0x09, 0x0A, 0x0D, 0x1B}" by blast
  then show ?thesis
  proof cases
    case 1
    then show ?thesis using goes_does[OF CursorLeft_shows[OF d] st] by (simp add: write_start_def)
  next
    case 2
    then show ?thesis using goes_does[OF Tabulator_shows[OF d] st] by (simp add: write_start_def)
  next
    case 3
    then show ?thesis using goes_does[OF NewLine_shows[OF d] st] by (simp add: write_start_def)
  next
    case 4
    have "does rows cols (t\<lparr>t_col := 0\<rparr>) (Some (ScreenDeviceCarriageReturn s)) s"
      using displaysD[OF d] by (auto simp: ScreenDeviceCarriageReturn_def intro!: does_cursor[OF d, of "t_row t" 0 0 "sd_nCursorY s"])
    with 4 goes_does st show ?thesis by (simp add: write_start_def)
  next
    case 5
    then show ?thesis using d by (simp add: write_start_def goes_def displays_parser screen_esc_def)
  next
    case 6
    have "does rows cols (act rows cols (Put ch) t) (ScreenDeviceCursorRight s') s'" if "displays rows cols s' (t_put ch t)" for s'
      using CursorRight_shows[OF that] by (simp add: t_put_def)
    from does_bind[OF DisplayChar2_shows[OF d, of ch] this] 6(1)
    have "does rows cols (act rows cols (Put ch) t) (ScreenDeviceDisplayChar ch s) s" by (simp add: ScreenDeviceDisplayChar_def)
    with 6 goes_does st show ?thesis by (simp add: write_start_def)
  next
    case 7
    then show ?thesis using goes_does[OF does_same[OF d] st] by (simp add: write_start_def ScreenDeviceDisplayChar_def)
  qed
qed

lemma write_bracket_goes:
  assumes d: "displays rows cols s t"
  shows "goes rows cols (step_to rows cols t (parse Bracket ch)) (write_bracket ch s)"
proof -
  have home: "does rows cols (t\<lparr>t_row := 0, t_col := 0\<rparr>) (Some (ScreenDeviceCursorHome s)) s"
    using displaysD[OF d] by (auto simp: ScreenDeviceCursorHome_def intro!: does_cursor[OF d, of 0 0 0 0])
  note ops = goes_done_Some[OF CursorUp_shows[OF d]] goes_done[OF CursorDown_shows[OF d]] goes_done[OF CursorRight_shows[OF d]]
    goes_done_Some[OF home] goes_done[OF ClearDisplayEnd_shows[OF d]] goes_done[OF ClearLineEnd_shows[OF d]] goes_done_Some[OF does_same[OF d]]
  show ?thesis
  proof (cases "isdigit8 ch")
    case True
    then show ?thesis using d by (simp add: write_bracket_def not_digit goes_def displays_parser screen_esc_def digit_value_nat)
  next
    case False
    consider "ch = 0x3F" | "ch \<in> {0x41, 0x42, 0x43, 0x48, 0x4A, 0x4B}" | "ch \<notin> {0x3F, 0x41, 0x42, 0x43, 0x48, 0x4A, 0x4B}" by blast
    then show ?thesis
    proof cases
      case 1
      then show ?thesis using d by (simp add: write_bracket_def goes_def displays_parser screen_esc_def)
    next
      case 2
      then show ?thesis using ops False by (auto simp: write_bracket_def)
    next
      case 3
      then show ?thesis using ops(7) False
        by (simp add: write_bracket_def ScreenDeviceInsertLines_def ScreenDeviceDeleteLines_def ScreenDeviceDeleteChars_def)
    qed
  qed
qed

lemma more_param1_goes:
  assumes "displays rows cols s t" and "unat (sd_nParam1 s) \<le> 99" and "isdigit8 ch"
  shows "goes rows cols (t, if 10 * unat (sd_nParam1 s) + digit8 ch > 99 then Plain
      else esc_of (sd_nState s) (10 * unat (sd_nParam1 s) + digit8 ch) (unat (sd_nParam2 s))) (more_param1 ch s)"
proof -
  have "unat (sd_nParam1 s * 10 + digit_value ch) = 10 * unat (sd_nParam1 s) + digit8 ch" using assms(2,3) by (intro more_digits) simp_all
  with assms show ?thesis by (simp add: more_param1_def Let_def goes_def displays_parser screen_esc_def word_less_nat_alt)
qed

lemma write_number1_goes:
  assumes d: "displays rows cols s t" and st: "sd_nState s = ScreenStateNumber1" and n: "unat (sd_nParam1 s) \<le> 99"
  shows "goes rows cols (step_to rows cols t (parse (Num (unat (sd_nParam1 s))) ch)) (write_number1 ch s)"
proof (cases "isdigit8 ch")
  case True
  with more_param1_goes[OF d n True] st show ?thesis by (auto simp: write_number1_def not_digit split: if_splits)
next
  case False
  have color: "does rows cols (act rows cols (Color (unat (sd_nParam1 s))) t) (Some (ScreenDeviceSetStandoutMode (sd_nParam1 s) s)) s"
    using d by (auto simp: ScreenDeviceSetStandoutMode_def does_def same_parser_def displays_def placed_def screen_geom_def pos_def word_unat_eq_iff)
  have mode: "goes rows cols (t, Plain) (Some (to_state ScreenStateStart (if sd_nParam1 s = 4 then ScreenDeviceInsertMode b s else s)))" for b
    using d by (simp add: goes_def ScreenDeviceInsertMode_def displays_parser screen_esc_def)
  have plain: "goes rows cols (t, Plain) (Some (to_state ScreenStateStart s))" by (rule goes_done_Some[OF does_same[OF d]])
  consider "ch = 0x3B" | "ch = 0x58" | "ch = 0x6D" | "ch = 0x68 \<or> ch = 0x6C" | "ch \<notin> {0x3B, 0x58, 0x6D, 0x68, 0x6C}" by blast
  then show ?thesis
  proof cases
    case 1
    then show ?thesis using d by (simp add: write_number1_def goes_def displays_parser screen_esc_def)
  next
    case 2
    with False goes_done[OF EraseChars_shows[OF d n]] show ?thesis by (simp add: write_number1_def)
  next
    case 3
    with False goes_done_Some[OF color] show ?thesis by (simp add: write_number1_def del: act.simps)
  next
    case 4
    with False mode show ?thesis by (auto simp: write_number1_def)
  next
    case 5
    with False plain show ?thesis by (simp add: write_number1_def more_param1_def ScreenDeviceInsertLines_def ScreenDeviceDeleteLines_def ScreenDeviceDeleteChars_def)
  qed
qed

lemma write_number2_goes:
  assumes d: "displays rows cols s t" and st: "sd_nState s = ScreenStateNumber2" and n: "unat (sd_nParam1 s) \<le> 99" and m: "unat (sd_nParam2 s) \<le> 199"
  shows "goes rows cols (step_to rows cols t (parse (Num2 (unat (sd_nParam1 s)) (unat (sd_nParam2 s))) ch)) (write_number2 ch s)"
proof (cases "isdigit8 ch")
  case True
  from more_digits[OF True m] True d st show ?thesis
    by (simp add: write_number2_def not_digit Let_def goes_def displays_parser screen_esc_def word_less_nat_alt)
next
  case False
  show ?thesis
  proof (cases "ch = 0x48")
    case True
    with False goes_done_Some[OF CursorMove_shows[OF d n m]] show ?thesis by (simp add: write_number2_def del: act.simps)
  next
    case no: False
    with False goes_done_Some[OF does_same[OF d]] show ?thesis by (simp add: write_number2_def)
  qed
qed

lemma write_number3_goes:
  assumes d: "displays rows cols s t" and st: "sd_nState s = ScreenStateNumber3" and n: "unat (sd_nParam1 s) \<le> 99"
  shows "goes rows cols (step_to rows cols t (parse (QNum (unat (sd_nParam1 s))) ch)) (write_number3 ch s)"
proof (cases "isdigit8 ch")
  case True
  with more_param1_goes[OF d n True] st show ?thesis by (auto simp: write_number3_def not_digit split: if_splits)
next
  case False
  have 25: "sd_nParam1 s = 25 \<longleftrightarrow> unat (sd_nParam1 s) = 25" by (simp add: word_unat_eq_iff)
  have cur: "displays rows cols (ScreenDeviceSetCursorMode b s) (t\<lparr>t_cursor := b\<rparr>)" for b
    using d by (simp add: ScreenDeviceSetCursorMode_def displays_def placed_def screen_geom_def pos_def)
  show ?thesis
  proof (cases "ch = 0x68 \<or> ch = 0x6C")
    case True
    then show ?thesis using False d cur 25 by (auto simp: write_number3_def goes_def displays_parser screen_esc_def)
  next
    case no: False
    with False goes_done_Some[OF does_same[OF d]] show ?thesis by (simp add: write_number3_def more_param1_def)
  qed
qed

lemma Write2_goes:
  assumes d: "displays rows cols s t" and e: "esc_ok (screen_esc s)"
  shows "goes rows cols (step_to rows cols t (parse (screen_esc s) ch)) (ScreenDeviceWrite2 ch s)"
proof (cases "sd_nState s")
  case ScreenStateStart
  with write_start_goes[OF d this, of ch] show ?thesis by (simp add: ScreenDeviceWrite2.simps screen_esc_def)
next
  case ScreenStateEscape
  then show ?thesis using d by (simp add: ScreenDeviceWrite2.simps write_escape_def goes_def screen_esc_def displays_parser
      ScreenDeviceReverseScroll_def ScreenDeviceInsertLines_def)
next
  case ScreenStateBracket
  with write_bracket_goes[OF d, of ch] show ?thesis by (simp add: ScreenDeviceWrite2.simps screen_esc_def)
next
  case ScreenStateNumber1
  with write_number1_goes[OF d this, of ch] e show ?thesis by (simp add: ScreenDeviceWrite2.simps screen_esc_def)
next
  case ScreenStateQuestionMark
  then show ?thesis using d by (simp add: ScreenDeviceWrite2.simps goes_def screen_esc_def displays_parser digit_value_nat)
next
  case ScreenStateSemicolon
  then show ?thesis using d by (simp add: ScreenDeviceWrite2.simps goes_def screen_esc_def displays_parser digit_value_nat)
next
  case ScreenStateNumber2
  with write_number2_goes[OF d this, of ch] e show ?thesis by (simp add: ScreenDeviceWrite2.simps screen_esc_def)
next
  case ScreenStateNumber3
  with write_number3_goes[OF d this, of ch] e show ?thesis by (simp add: ScreenDeviceWrite2.simps screen_esc_def)
qed

section \<open>Writing a text\<close>

lemma Write2_run:
  assumes "displays rows cols s t" and "esc_ok (screen_esc s)"
  shows "goes rows cols (terminal_run rows cols chs (t, screen_esc s)) (for_each ScreenDeviceWrite2 chs s)"
  using assms
proof (induction chs arbitrary: s t)
  case Nil
  then show ?case by (simp add: goes_def)
next
  case (Cons ch chs)
  from Write2_goes[OF Cons.prems, of ch] obtain s' where
    s': "ScreenDeviceWrite2 ch s = Some s'" "displays rows cols s' (act rows cols (fst (parse (screen_esc s) ch)) t)"
      "screen_esc s' = snd (parse (screen_esc s) ch)" by (auto simp: goes_def)
  moreover have "esc_ok (screen_esc s')" using s'(3) parse_esc_ok[OF Cons.prems(2)] by simp
  ultimately show ?case using Cons.IH[of s'] by (simp add: case_prod_beta)
qed

lemma clean_act: "\<forall>r < rows. \<forall>c < cols. clean (t_grid t r c) \<Longrightarrow> \<forall>r < rows. \<forall>c < cols. clean (t_grid (act rows cols a t) r c)"
  by (cases a) (auto simp: t_to_col_def t_down_def t_put_def t_erase_def t_clear_below_def)

lemma clean_run:
  "\<forall>r < rows. \<forall>c < cols. clean (t_grid t r c) \<Longrightarrow> \<forall>r < rows. \<forall>c < cols. clean (t_grid (fst (terminal_run rows cols chs (t, e))) r c)"
proof (induction chs arbitrary: t e)
  case (Cons ch chs)
  then show ?case using Cons.IH[OF clean_act[OF Cons.prems]] by (simp add: case_prod_beta)
qed simp

lemma parse_run_ok: "esc_ok e \<Longrightarrow> esc_ok (snd (terminal_run rows cols chs (t, e)))"
  by (induction chs arbitrary: t e) (simp_all add: case_prod_beta parse_esc_ok)

lemma screen_terminal:
  assumes "visible rows cols s t" and "esc_ok (screen_esc s)"
  shows "\<exists>s'. ScreenDeviceWrite chs s = Some (int (length chs), s')
    \<and> visible rows cols s' (fst (terminal_run rows cols chs (t, screen_esc s)))
    \<and> screen_esc s' = snd (terminal_run rows cols chs (t, screen_esc s)) \<and> esc_ok (screen_esc s')"
proof -
  let ?te = "terminal_run rows cols chs (t, screen_esc s)"
  from InvertCursor_hide[OF assms(1)] obtain s1 where
    s1: "ScreenDeviceInvertCursor s = Some s1" "displays rows cols s1 t" "screen_esc s1 = screen_esc s"
    by (auto simp: does_def same_parser_def screen_esc_def)
  with Write2_run[OF s1(2), of chs] assms(2) obtain s2 where
    s2: "for_each ScreenDeviceWrite2 chs s1 = Some s2" "displays rows cols s2 (fst ?te)" "screen_esc s2 = snd ?te"
    by (auto simp: goes_def)
  have "\<forall>r < rows. \<forall>c < cols. clean (t_grid (fst ?te) r c)" using assms(1) by (intro clean_run) (simp add: visible_def)
  from InvertCursor_show[OF s2(2) this] obtain s3 where
    s3: "ScreenDeviceInvertCursor s2 = Some s3" "visible rows cols s3 (fst ?te)" "same_parser s2 s3" by blast
  have "screen_esc s3 = snd ?te" using s3(3) s2(3) by (simp add: same_parser_def screen_esc_def)
  with s1(1) s2(1) s3(1,2) parse_run_ok[OF assms(2)] show ?thesis by (simp add: ScreenDeviceWrite_def)
qed

text \<open>
  Claim C13. The screen is a terminal.  Whatever bytes are written, on a screen whose width is a whole number of characters
  the write returns, no access leaves the frame buffer, and the pixels show what the terminal of characters holds after the
  same bytes: every character in its cell with its colour, lines scrolled, cleared cells black, escape sequences carried
  out, and the cursor under its cell if it is on.
\<close>

theorem screen_is_terminal:
  assumes "visible rows cols s t" and "esc_ok (screen_esc s)"
  shows "\<exists>s'. ScreenDeviceWrite chs s = Some (int (length chs), s')
    \<and> visible rows cols s' (fst (terminal_run rows cols chs (t, screen_esc s)))
    \<and> screen_esc s' = snd (terminal_run rows cols chs (t, screen_esc s)) \<and> esc_ok (screen_esc s')"
  by (rule screen_terminal[OF assms])

definition small_screen :: TScreenDevice where
  "small_screen = \<lparr>sd_nInitWidth = 16, sd_nInitHeight = 38, sd_pFrameBuffer = None, sd_CharGen = CharGenerator,
     sd_pBuffer = replicate 608 0, sd_nSize = 608, sd_nPitch = 16, sd_nWidth = 16, sd_nHeight = 38, sd_nUsedHeight = 38,
     sd_nState = ScreenStateStart, sd_nCursorX = 0, sd_nCursorY = 0, sd_bCursorOn = False, sd_Color = NORMAL_COLOR, sd_bInsertOn = False,
     sd_nParam1 = 0, sd_nParam2 = 0\<rparr>"

definition small_terminal :: terminal where
  "small_terminal = \<lparr>t_grid = (\<lambda>_ _. Blank), t_row = 0, t_col = 0, t_color = NORMAL_COLOR, t_cursor = False\<rparr>"

lemma small_visible: "visible 2 2 small_screen small_terminal"
  unfolding visible_def placed_def screen_geom_def small_screen_def small_terminal_def pos_def
  by (auto simp: CharGenerator_def font_width_def BLACK_COLOR_def intro!: nth_replicate)

text \<open>An A, and then the sequence that moves the cursor to the second line.\<close>

theorem screen_is_terminal_witness:
  "\<exists>s'. ScreenDeviceWrite [0x41, 0x1B, 0x5B, 0x32, 0x3B, 0x31, 0x48] small_screen = Some (7, s')
    \<and> visible 2 2 s' \<lparr>t_grid = (\<lambda>r c. if r = 0 \<and> c = 0 then Glyph 0x41 NORMAL_COLOR else Blank), t_row = 1, t_col = 0,
        t_color = NORMAL_COLOR, t_cursor = False\<rparr>"
proof -
  have e: "screen_esc small_screen = Plain" by (simp add: screen_esc_def small_screen_def)
  from screen_is_terminal[OF small_visible, of "[0x41, 0x1B, 0x5B, 0x32, 0x3B, 0x31, 0x48]"] show ?thesis
    unfolding e by (auto simp: isdigit8_def digit8_def small_terminal_def t_to_col_def t_put_def cong: if_cong)
qed

section \<open>Clearing the screen at the start\<close>

text \<open>Whatever the frame buffer holds, clearing it from the first character on gives an empty terminal.\<close>

lemma screen_cleared:
  assumes g: "screen_geom rows cols s" and c: "sd_nCursorX s = 0" "sd_nCursorY s = 0"
  shows "\<exists>s' s'' t. ScreenDeviceClearDisplayEnd s = Some s' \<and> ScreenDeviceInvertCursor s' = Some s'' \<and> visible rows cols s'' t
    \<and> t_row t = 0 \<and> t_col t = 0 \<and> (\<forall>r < rows. \<forall>c < cols. t_grid t r c = Blank)"
proof -
  let ?t = "\<lparr>t_grid = (\<lambda>r c. Other (\<lambda>x y. sd_pBuffer s ! pos s (8 * c + x) (19 * r + y))), t_row = 0, t_col = 0,
      t_color = sd_Color s, t_cursor = sd_bCursorOn s\<rparr>"
  let ?t' = "t_clear_below (t_erase cols ?t)"
  have "displays rows cols s ?t" using g c by (simp add: displays_def placed_def) (simp add: screen_geom_def)
  from ClearDisplayEnd_shows[OF this] obtain s' where s': "ScreenDeviceClearDisplayEnd s = Some s'" "displays rows cols s' ?t'"
    by (auto simp: does_def)
  have b: "\<forall>r < rows. \<forall>c < cols. t_grid ?t' r c = Blank" by (simp add: t_clear_below_def t_erase_def)
  then have "\<forall>r < rows. \<forall>c < cols. clean (t_grid ?t' r c)" by simp
  from InvertCursor_show[OF s'(2) this] obtain s'' where "ScreenDeviceInvertCursor s' = Some s''" "visible rows cols s'' ?t'" by blast
  moreover have "t_row ?t' = 0" "t_col ?t' = 0" by (simp_all add: t_clear_below_def t_erase_def)
  ultimately show ?thesis using s'(1) b by blast
qed

section \<open>What a client of the screen relies on\<close>

text \<open>
  A console takes bytes and shows the terminal they make.  A client that writes a text in pieces gets the same
  as one that writes it at once.
\<close>

lemma terminal_run_append: "terminal_run rows cols (xs @ ys) te = terminal_run rows cols ys (terminal_run rows cols xs te)"
  by (induction rows cols xs te rule: terminal_run.induct) (auto simp: case_prod_beta)

fun write_pieces :: "(u8 list \<Rightarrow> 's \<Rightarrow> (int \<times> 's) option) \<Rightarrow> u8 list list \<Rightarrow> 's \<Rightarrow> 's option" where
  "write_pieces wr [] s = Some s"
| "write_pieces wr (b # bs) s = Option.bind (wr b s) (\<lambda>(_, s). write_pieces wr bs s)"

locale console =
  fixes wr :: "u8 list \<Rightarrow> 's \<Rightarrow> (int \<times> 's) option" and on :: "'s \<Rightarrow> terminal \<times> esc \<Rightarrow> bool" and rows cols :: nat
  assumes write_law: "on s te \<Longrightarrow> \<exists>s'. wr bs s = Some (int (length bs), s') \<and> on s' (terminal_run rows cols bs te)"
begin

lemma pieces: "on s te \<Longrightarrow> \<exists>s'. write_pieces wr bss s = Some s' \<and> on s' (terminal_run rows cols (concat bss) te)"
proof (induction bss arbitrary: s te)
  case (Cons b bss)
  from write_law[OF Cons.prems, of b] obtain s' where "wr b s = Some (int (length b), s')" "on s' (terminal_run rows cols b te)" by blast
  with Cons.IH[of s' "terminal_run rows cols b te"] show ?case by (simp add: terminal_run_append)
qed simp

end

definition screen_on :: "nat \<Rightarrow> nat \<Rightarrow> TScreenDevice \<Rightarrow> terminal \<times> esc \<Rightarrow> bool" where
  "screen_on rows cols s te \<longleftrightarrow> visible rows cols s (fst te) \<and> screen_esc s = snd te \<and> esc_ok (snd te)"

interpretation screen: console ScreenDeviceWrite "screen_on rows cols" rows cols for rows cols
proof unfold_locales
  fix s te bs
  assume "screen_on rows cols s te"
  with screen_terminal[of rows cols s "fst te" bs]
  show "\<exists>s'. ScreenDeviceWrite bs s = Some (int (length bs), s') \<and> screen_on rows cols s' (terminal_run rows cols bs te)"
    by (auto simp: screen_on_def)
qed

end
