(* ===== verification/Logger.thy ===== *)
theory Logger
  imports Terminal CString KernelTimer
begin

text \<open>
  The logger of the environment (\<^verbatim>\<open>env/lib/logger.c\<close>) and the time it puts in front of a message (\<^verbatim>\<open>TimerGetTimeString\<close> of
  \<^verbatim>\<open>env/lib/timer.c\<close>).  It writes to the screen through \<^verbatim>\<open>ScreenDeviceWrite\<close> and formats with the string class, whose code
  in \<^verbatim>\<open>env/lib/string.c\<close> is that of \<^verbatim>\<open>lib/string.c\<close>.  The environment is built for 32 bits, where the \<^verbatim>\<open>unsigned\<close> that is read
  with \<^verbatim>\<open>%lu\<close> is a long.  A panic does not return: the result says whether the call came back.
\<close>

section \<open>State\<close>

datatype TLogSeverity = LogPanic | LogError | LogWarning | LogNotice | LogDebug

primrec severity_value :: "TLogSeverity \<Rightarrow> u32" where
  "severity_value LogPanic = 0"
| "severity_value LogError = 1"
| "severity_value LogWarning = 2"
| "severity_value LogNotice = 3"
| "severity_value LogDebug = 4"

record TLogger =
  lg_nLogLevel :: u32
  lg_pTimer :: "TTimer option"
  lg_bTarget :: bool \<comment> \<open>whether \<^verbatim>\<open>m_pTarget\<close> points to the screen\<close>

record log_world =
  lw_pThis :: "TLogger option"
  lw_screen :: TScreenDevice
  lw_interrupts :: bool

datatype log_result = Logged log_world | Halted log_world

section \<open>Operations\<close>

definition Logger :: "u32 \<Rightarrow> TTimer option \<Rightarrow> log_world \<Rightarrow> log_world" where
  "Logger nLogLevel pTimer w = w\<lparr>lw_pThis := Some \<lparr>lg_nLogLevel = nLogLevel, lg_pTimer = pTimer, lg_bTarget = False\<rparr>\<rparr>"

definition Logger_dtor :: "log_world \<Rightarrow> log_world" where
  "Logger_dtor w = w\<lparr>lw_pThis := None\<rparr>"

definition LoggerGet :: "log_world \<Rightarrow> TLogger option" where
  "LoggerGet w = lw_pThis w"

definition TimerGetTimeString :: "(nat \<Rightarrow> char list) \<Rightarrow> TString \<Rightarrow> TTimer \<Rightarrow> TString option option" where
  "TimerGetTimeString mal fresh this =
     (let nTime = tm_nTime this; nTicks = tm_nTicks this
      in if nTicks = 0 then Some None
         else do {
           let nSecond = nTime mod 60;
           let nTime = nTime div 60;
           let nMinute = nTime mod 60;
           let nTime = nTime div 60;
           let nHours = nTime;
           let nTicks = nTicks mod timer_HZ;
           let nTicks = nTicks * 100 div timer_HZ;
           str \<leftarrow> StringFormat mal (String fresh) ''%02u:%02u:%02u.%02lu'' [VaInt nHours, VaInt nMinute, VaInt nSecond, VaLong (ucast nTicks)];
           Some (Some str) })"

definition LoggerWrite2 :: "string \<Rightarrow> log_world \<Rightarrow> log_world option" where
  "LoggerWrite2 pString w = do {
     this \<leftarrow> lw_pThis w;
     c_assert (lg_bTarget this);
     (_, scr) \<leftarrow> ScreenDeviceWrite (map of_char pString) (lw_screen w);
     Some (w\<lparr>lw_screen := scr\<rparr>) }"

definition write_time :: "(nat \<Rightarrow> char list) \<Rightarrow> TString \<Rightarrow> TLogger \<Rightarrow> log_world \<Rightarrow> log_world option" where
  "write_time mal fresh this w = (case lg_pTimer this of
       None \<Rightarrow> Some w
     | Some tm \<Rightarrow> do {
         pTimeString \<leftarrow> TimerGetTimeString mal fresh tm;
         (case pTimeString of
            None \<Rightarrow> Some w
          | Some str \<Rightarrow> do {
              s \<leftarrow> StringGet str;
              w \<leftarrow> LoggerWrite2 s w;
              LoggerWrite2 '' '' w }) })"

definition LoggerWriteV ::
    "(nat \<Rightarrow> char list) \<Rightarrow> TString \<Rightarrow> string \<Rightarrow> TLogSeverity \<Rightarrow> string \<Rightarrow> va_value list \<Rightarrow> log_world \<Rightarrow> log_result option" where
  "LoggerWriteV mal fresh pSource Severity pMessage Args w = do {
     this \<leftarrow> lw_pThis w;
     if severity_value Severity > lg_nLogLevel this then Some (Logged w)
     else do {
       w \<leftarrow> (if Severity = LogPanic then LoggerWrite2 (CHR 0x1B # ''[1m'') w else Some w);
       w \<leftarrow> write_time mal fresh this w;
       w \<leftarrow> LoggerWrite2 pSource w;
       w \<leftarrow> LoggerWrite2 '': '' w;
       Message \<leftarrow> StringFormatV mal (String fresh) pMessage Args;
       s \<leftarrow> StringGet Message;
       w \<leftarrow> LoggerWrite2 s w;
       w \<leftarrow> (if Severity = LogPanic then LoggerWrite2 (CHR 0x1B # ''[0m'') w else Some w);
       w \<leftarrow> LoggerWrite2 [CHR 0x0A] w;
       Some (if Severity = LogPanic then Halted (w\<lparr>lw_interrupts := False\<rparr>) else Logged w) } }"

definition LoggerWrite ::
    "(nat \<Rightarrow> char list) \<Rightarrow> TString \<Rightarrow> string \<Rightarrow> TLogSeverity \<Rightarrow> string \<Rightarrow> va_value list \<Rightarrow> log_world \<Rightarrow> log_result option" where
  "LoggerWrite mal fresh pSource Severity pMessage Args w = LoggerWriteV mal fresh pSource Severity pMessage Args w"

definition LoggerInitialize :: "(nat \<Rightarrow> char list) \<Rightarrow> TString \<Rightarrow> log_world \<Rightarrow> log_result option" where
  "LoggerInitialize mal fresh w = do {
     this \<leftarrow> lw_pThis w;
     LoggerWrite mal fresh ''logger'' LogNotice ''Logging started'' [] (w\<lparr>lw_pThis := Some (this\<lparr>lg_bTarget := True\<rparr>)\<rparr>) }"

section \<open>A message is a line on the terminal\<close>

text \<open>The screen of the logger shows the terminal, with its parser in state \<open>e\<close>.\<close>

definition log_shows :: "nat \<Rightarrow> nat \<Rightarrow> TLogger \<Rightarrow> log_world \<Rightarrow> terminal \<times> esc \<Rightarrow> bool" where
  "log_shows rows cols this w te \<longleftrightarrow> lw_pThis w = Some this \<and> lg_bTarget this \<and> screen_on rows cols (lw_screen w) te"

lemma LoggerWrite2_shows:
  assumes "log_shows rows cols this w te"
  shows "\<exists>w'. LoggerWrite2 s w = Some w' \<and> log_shows rows cols this w' (terminal_run rows cols (map of_char s) te)
    \<and> lw_interrupts w' = lw_interrupts w"
proof -
  have "screen_on rows cols (lw_screen w) te" using assms by (simp add: log_shows_def)
  from screen.write_law[OF this, of "map of_char s"] assms show ?thesis by (auto simp: LoggerWrite2_def log_shows_def)
qed

text \<open>What is written in front of a message: nothing without a timer or before its first tick, else hours, minutes, seconds and hundredths.\<close>

definition time_stamp :: "TLogger \<Rightarrow> string \<Rightarrow> bool" where
  "time_stamp this stamp \<longleftrightarrow> (case lg_pTimer this of
       None \<Rightarrow> stamp = []
     | Some tm \<Rightarrow> if tm_nTicks tm = 0 then stamp = []
         else (\<exists>text. format_ref ''%02u:%02u:%02u.%02lu'' [VaInt (tm_nTime tm div 60 div 60), VaInt (tm_nTime tm div 60 mod 60),
             VaInt (tm_nTime tm mod 60), VaLong (ucast (tm_nTicks tm mod timer_HZ * 100 div timer_HZ))] = Some text
           \<and> NUL \<notin> set text \<and> length text + 1 < 2 ^ 62 \<and> stamp = text @ '' ''))"

lemma write_time_shows:
  assumes m: "malloc_ok mal" and s: "log_shows rows cols this w te" and st: "time_stamp this stamp"
  shows "\<exists>w'. write_time mal fresh this w = Some w' \<and> log_shows rows cols this w' (terminal_run rows cols (map of_char stamp) te)
    \<and> lw_interrupts w' = lw_interrupts w"
proof (cases "case lg_pTimer this of None \<Rightarrow> True | Some tm \<Rightarrow> tm_nTicks tm = 0")
  case True
  with s st show ?thesis by (auto simp: write_time_def time_stamp_def TimerGetTimeString_def split: option.splits)
next
  case False
  then obtain tm where tm: "lg_pTimer this = Some tm" "tm_nTicks tm \<noteq> 0" by (auto split: option.splits)
  let ?args = "[VaInt (tm_nTime tm div 60 div 60), VaInt (tm_nTime tm div 60 mod 60), VaInt (tm_nTime tm mod 60),
      VaLong (ucast (tm_nTicks tm mod timer_HZ * 100 div timer_HZ))]"
  from st tm obtain line where line: "format_ref ''%02u:%02u:%02u.%02lu'' ?args = Some line" "NUL \<notin> set line" "length line + 1 < 2 ^ 62"
    "stamp = line @ '' ''" unfolding time_stamp_def option.case by (auto simp del: format_ref.simps)
  from StringFormatV_ok[OF m line(1-3), of "String fresh"] obtain str where
    "StringFormatV mal (String fresh) ''%02u:%02u:%02u.%02lu'' ?args = Some str" "StringGet str = Some line" by blast
  then have "write_time mal fresh this w = Option.bind (LoggerWrite2 line w) (LoggerWrite2 '' '')"
    using tm unfolding write_time_def TimerGetTimeString_def Let_def StringFormat_def by simp
  moreover from LoggerWrite2_shows[OF s, of line] obtain w1 where w1: "LoggerWrite2 line w = Some w1"
    "log_shows rows cols this w1 (terminal_run rows cols (map of_char line) te)" "lw_interrupts w1 = lw_interrupts w" by blast
  moreover note LoggerWrite2_shows[OF w1(2), of "'' ''"]
  ultimately show ?thesis using line(4) by (auto simp: terminal_run_append)
qed

definition panic_mark :: "TLogSeverity \<Rightarrow> char \<Rightarrow> string" where
  "panic_mark Severity c = (if Severity = LogPanic then [CHR 0x1B, CHR ''['', c, CHR ''m''] else [])"

lemma panic_mark_shows:
  assumes "log_shows rows cols this w te"
  shows "\<exists>w'. (if Severity = LogPanic then LoggerWrite2 ([CHR 0x1B, CHR ''['', c, CHR ''m'']) w else Some w) = Some w'
    \<and> log_shows rows cols this w' (terminal_run rows cols (map of_char (panic_mark Severity c)) te) \<and> lw_interrupts w' = lw_interrupts w"
proof (cases "Severity = LogPanic")
  case True
  with LoggerWrite2_shows[OF assms] show ?thesis by (simp only: panic_mark_def if_True simp_thms)
next
  case False
  with assms show ?thesis by (simp add: panic_mark_def)
qed

text \<open>
  Claim C39. What a log message does.  A message less severe than the level of the logger changes nothing.  Any other one is
  written as one line: the time, if the timer runs, the source, a colon and the text that the format and its arguments
  give; the terminal is as after these bytes.  A panic is written in the high colour and never comes back, with interrupts off; every
  other message returns.
\<close>

theorem log_message:
  assumes m: "malloc_ok mal" and s: "log_shows rows cols this w te" and st: "time_stamp this stamp"
    and f: "format_ref pMessage Args = Some msg" and t: "NUL \<notin> set msg" "length msg + 1 < 2 ^ 62"
  shows "if severity_value Severity > lg_nLogLevel this then LoggerWriteV mal fresh pSource Severity pMessage Args w = Some (Logged w)
    else \<exists>w'. LoggerWriteV mal fresh pSource Severity pMessage Args w = Some (if Severity = LogPanic then Halted w' else Logged w')
      \<and> log_shows rows cols this w' (terminal_run rows cols (map of_char (panic_mark Severity (CHR ''1'') @ stamp @ pSource @ '': '' @ msg
          @ panic_mark Severity (CHR ''0'') @ [CHR 0x0A])) te)
      \<and> lw_interrupts w' = (Severity \<noteq> LogPanic \<and> lw_interrupts w)"
proof (cases "severity_value Severity > lg_nLogLevel this")
  case True
  with s show ?thesis by (simp add: LoggerWriteV_def log_shows_def)
next
  case False
  note run = terminal_run_append[symmetric] map_append[symmetric] append_assoc
  have lg: "lw_pThis w = Some this" using s by (simp add: log_shows_def)
  from panic_mark_shows[OF s, of Severity "CHR ''1''"] obtain w1 where
    w1: "(if Severity = LogPanic then LoggerWrite2 (CHR 0x1B # ''[1m'') w else Some w) = Some w1" "lw_interrupts w1 = lw_interrupts w"
      and s1: "log_shows rows cols this w1 (terminal_run rows cols (map of_char (panic_mark Severity (CHR ''1''))) te)" by auto
  from write_time_shows[OF m s1 st, of fresh] obtain w2 where w2: "write_time mal fresh this w1 = Some w2" "lw_interrupts w2 = lw_interrupts w1"
    and s2: "log_shows rows cols this w2 (terminal_run rows cols (map of_char (panic_mark Severity (CHR ''1'') @ stamp)) te)"
    unfolding run by blast
  from LoggerWrite2_shows[OF s2, of pSource] obtain w3 where w3: "LoggerWrite2 pSource w2 = Some w3" "lw_interrupts w3 = lw_interrupts w2"
    and s3: "log_shows rows cols this w3 (terminal_run rows cols (map of_char (panic_mark Severity (CHR ''1'') @ stamp @ pSource)) te)"
    unfolding run by blast
  from LoggerWrite2_shows[OF s3, of "'': ''"] obtain w4 where w4: "LoggerWrite2 '': '' w3 = Some w4" "lw_interrupts w4 = lw_interrupts w3"
    and s4: "log_shows rows cols this w4 (terminal_run rows cols (map of_char (panic_mark Severity (CHR ''1'') @ stamp @ pSource @ '': '')) te)"
    unfolding run by blast
  from StringFormatV_ok[OF m f t, of "String fresh"] obtain str where
    str: "StringFormatV mal (String fresh) pMessage Args = Some str" "StringGet str = Some msg" by blast
  from LoggerWrite2_shows[OF s4, of msg] obtain w5 where w5: "LoggerWrite2 msg w4 = Some w5" "lw_interrupts w5 = lw_interrupts w4"
    and s5: "log_shows rows cols this w5 (terminal_run rows cols (map of_char (panic_mark Severity (CHR ''1'') @ stamp @ pSource @ '': '' @ msg)) te)"
    unfolding run by blast
  from panic_mark_shows[OF s5, of Severity "CHR ''0''"] obtain w6 where
    w6: "(if Severity = LogPanic then LoggerWrite2 (CHR 0x1B # ''[0m'') w5 else Some w5) = Some w6" "lw_interrupts w6 = lw_interrupts w5"
      and s6: "log_shows rows cols this w6 (terminal_run rows cols (map of_char (panic_mark Severity (CHR ''1'') @ stamp @ pSource @ '': '' @ msg
        @ panic_mark Severity (CHR ''0''))) te)" unfolding run by auto
  from LoggerWrite2_shows[OF s6, of "[CHR 0x0A]"] obtain w7 where w7: "LoggerWrite2 [CHR 0x0A] w6 = Some w7" "lw_interrupts w7 = lw_interrupts w6"
    and s7: "log_shows rows cols this w7 (terminal_run rows cols (map of_char (panic_mark Severity (CHR ''1'') @ stamp @ pSource @ '': '' @ msg
        @ panic_mark Severity (CHR ''0'') @ [CHR 0x0A])) te)" unfolding run by blast
  have "LoggerWriteV mal fresh pSource Severity pMessage Args w
      = Some (if Severity = LogPanic then Halted (w7\<lparr>lw_interrupts := False\<rparr>) else Logged w7)"
    unfolding LoggerWriteV_def using False lg w1(1) w2(1) w3(1) w4(1) str w5(1) w6(1) w7(1) by simp
  moreover have "log_shows rows cols this (w7\<lparr>lw_interrupts := False\<rparr>) te' = log_shows rows cols this w7 te'" for te' by (simp add: log_shows_def)
  ultimately show ?thesis using False s7 w1(2) w2(2) w3(2) w4(2) w5(2) w6(2) w7(2)
    by (cases "Severity = LogPanic") (simp_all del: append_assoc map_append)
qed

definition small_log :: log_world where
  "small_log = \<lparr>lw_pThis = Some \<lparr>lg_nLogLevel = 3, lg_pTimer = None, lg_bTarget = True\<rparr>, lw_screen = small_screen, lw_interrupts = True\<rparr>"

theorem log_message_witness:
  "\<exists>w'. LoggerWriteV (\<lambda>n. replicate n (CHR ''?'')) \<lparr>s_pBuffer = None, s_nSize = 0, s_pInPtr = 0\<rparr> ''a'' LogError ''%u'' [VaInt 5] small_log
      = Some (Logged w')
    \<and> log_shows 2 2 \<lparr>lg_nLogLevel = 3, lg_pTimer = None, lg_bTarget = True\<rparr> w'
        (terminal_run 2 2 (map of_char (''a: 5'' @ [CHR 0x0A])) (small_terminal, Plain)) \<and> lw_interrupts w'"
proof -
  have r: "format_ref ''%u'' [VaInt 5] = Some ''5''" by code_simp
  have "log_shows 2 2 \<lparr>lg_nLogLevel = 3, lg_pTimer = None, lg_bTarget = True\<rparr> small_log (small_terminal, Plain)"
    using small_visible by (simp add: log_shows_def screen_on_def small_log_def screen_esc_def) (simp add: small_screen_def)
  from log_message[OF _ this _ r, of "\<lambda>n. replicate n (CHR ''?'')" "[]" LogError "\<lparr>s_pBuffer = None, s_nSize = 0, s_pInPtr = 0\<rparr>" "''a''"]
  show ?thesis by (simp add: malloc_ok_def time_stamp_def panic_mark_def small_log_def)
qed

end
