(* ===== verification/Spec2Isabelle.thy ===== *)
theory Spec2Isabelle
  imports MassProtocol MacAddress UspiLibrary MemorySystem Logger
begin

text \<open>
  \<^bold>\<open>USPi, the USB host stack of the kernel\<close>

  The kernel links the C library \<^verbatim>\<open>ext/uspi\<close>: a driver for the DesignWare USB host controller of the Raspberry
  Pi, the USB core above it, the class drivers, and the small environment (\<^verbatim>\<open>env\<close>) that gives the library timers,
  memory and strings.  This development is a shallow embedding of that library.  File names below are
  relative to \<^verbatim>\<open>src/ext/uspi\<close>.

  \<^bold>\<open>The parts and how they interact\<close>

  A class driver fills a request block (\<^verbatim>\<open>TUSBRequest\<close>) for one of its endpoints and gives it to the host controller
  driver, either blocking or asynchronously.  The host controller driver splits the request into stages, allocates a host channel for
  each, programs the channel registers, and moves the stage on in its interrupt handler: transactions, split
  transactions with their frame scheduler, retries with a kernel timer.  When the last stage ends it frees the channel and calls the
  completion routine of the request, which is code of the class driver: that one looks at the data, calls the
  application and submits the request again.

  \<^bold>\<open>Conventions\<close>

  \<^item> Integers keep their width: \<open>u8\<close>, \<open>u16\<close>, \<open>u32\<close>, \<open>u64\<close> and \<open>uintptr\<close> are words, so that \<open>+\<close> wraps as in the C of the
    AArch64 build; signed values are the words that hold them, read with \<open>sint\<close>, or an \<open>int\<close> where the range is evident.
  \<^item> An operation that can fail an assertion, dereference a null or stale pointer, or leave an array returns
    \<open>option\<close>; \<open>None\<close> is that fault.  An error that the C code reports by its result stays a result of the model.
  \<^item> A loop that need not end (polling a register, walking a descriptor of length zero) is a
    \<open>partial_function (option)\<close>, so that not returning is \<open>None\<close> too; claims that an operation returns are stated as such.
    All other loops are total functions with a termination proof or a counter, and no fuel is used where the code
    has none: counters such as the channel scan, the twelve digits of a number or the three retries are the code's own.
  \<^item> Objects are records, with the source's member names behind a short prefix.  Objects that are shared by address live in a store
    (\<open>st_devs\<close>, \<open>st_eps\<close>, \<open>st_urbs\<close>, ...), and a pointer is an \<open>addr option\<close>; raw bytes live in a memory from addresses to bytes.
  \<^item> Reading a register takes its value from an oracle and every access is appended to a trace, so that a
    theorem can speak of the order of accesses.  Interrupts arrive from an oracle of events while the driver waits.
  \<^item> Code that is called through a pointer and not determined by the library (completion routines, the application's handlers) is a
    parameter (\<open>drv\<close>) or, where the library only calls it, a list of calls that the operation returns.
    \<^verbatim>\<open>malloc\<close> is the parameter \<open>w_malloc\<close> where its failure matters; other addresses of new objects and of local variables are
    arguments.

  \<^bold>\<open>Theories\<close>

  \<^item> \<open>Prelude\<close>: integer types, assertions, arrays with bounds, the locale \<open>handle_pool\<close> of finite pools of handles.
  \<^item> \<open>UsbModel\<close> (\<^verbatim>\<open>include/uspi/usb.h\<close>, getters of \<^verbatim>\<open>lib/usbdevice.c\<close>), \<open>Endpoint\<close> (\<^verbatim>\<open>lib/usbendpoint.c\<close>,
    \<^verbatim>\<open>lib/usbrequest.c\<close>): data toggles and requests; every operation keeps the endpoint invariant.
  \<^item> \<open>ConfigParser\<close> (\<^verbatim>\<open>lib/usbconfigparser.c\<close>): the parser accepts exactly the descriptor grammar; the reader refines a list of
    descriptors; two defects are shown, a walk that never ends and a read past the buffer.
  \<^item> \<open>Mmio\<close> (\<^verbatim>\<open>lib/dwhciregister.c\<close>), \<open>FrameSched\<close> (\<^verbatim>\<open>lib/dwhciframesched*.c\<close>): registers; split transactions
    end after a bounded number of complete-splits, proved once in the locale \<open>split_scheduler\<close> for both schedulers.
  \<^item> \<open>XferStage\<close> (\<^verbatim>\<open>lib/dwhcixferstagedata.c\<close>): sizes and progress of a stage as a step relation; DMA stays inside the buffer.
  \<^item> \<open>HostCore\<close>, \<open>HostTransfer\<close>, \<open>TransferFrame\<close> (\<^verbatim>\<open>lib/dwhcidevice.c\<close>): initialisation, channel pool, root port,
    the channel interrupt handler with every branch, blocking and asynchronous requests, control and bulk
    transfers; what requests leave unchanged.
  \<^item> \<open>KernelTimer\<close> (\<^verbatim>\<open>env/lib/timer.c\<close>): the timer table, an instance of \<open>handle_pool\<close>; due timers fire once, in order, also when the
    tick counter wraps.
  \<^item> \<open>Util\<close> (\<^verbatim>\<open>lib/util.c\<close>), \<open>CString\<close> (\<^verbatim>\<open>lib/string.c\<close>), \<open>MacAddress\<close> (\<^verbatim>\<open>lib/macaddress.c\<close>), \<open>DeviceNames\<close>
    (\<^verbatim>\<open>lib/devicenameservice.c\<close>): memory and string functions, the formatter against a plain list function, round trips,
    lookup after registration (locale \<open>name_registry\<close>).
  \<^item> \<open>UsbFunction\<close> (\<^verbatim>\<open>lib/usbfunction.c\<close>): base of the class drivers, with the bytes that transfers move.
  \<^item> \<open>MassStorage\<close>, \<open>MassProtocol\<close> (\<^verbatim>\<open>lib/usbmassdevice.c\<close>): the bulk-only protocol as it appears on the wire.
  \<^item> \<open>HidDevice\<close>: what the drivers of report devices share; the locale \<open>report_driver\<close> says what a completion routine does and is interpreted
    on \<open>Keyboard\<close> (\<^verbatim>\<open>lib/usbkeyboard.c\<close>, with \<open>KeyMap\<close> for \<^verbatim>\<open>lib/keymap.c\<close>), \<open>Mouse\<close> (\<^verbatim>\<open>lib/usbmouse.c\<close>) and \<open>Midi\<close>
    (\<^verbatim>\<open>lib/usbmidi.c\<close>): reports become handler calls, once and in order.
  \<^item> \<open>GamePad\<close> (\<^verbatim>\<open>lib/usbgamepad.c\<close>): the interpreter of report descriptors against a list of items.
  \<^item> \<open>Ethernet\<close>, \<open>Smsc951x\<close>, \<open>Lan7800\<close>, \<open>NetDrivers\<close> (\<^verbatim>\<open>lib/smsc951x.c\<close>, \<^verbatim>\<open>lib/lan7800.c\<close>): the two Ethernet drivers; the locales
    \<open>register_port\<close> and \<open>frame_device\<close> carry what is proved for both: frames come and go in order and PHY accesses follow the busy bit.
  \<^item> \<open>UsbString\<close> (\<^verbatim>\<open>lib/usbstring.c\<close>), \<open>UsbDevice\<close> (\<^verbatim>\<open>lib/usbdevice.c\<close>, \<^verbatim>\<open>lib/usbdevicefactory.c\<close>), \<open>StandardHub\<close>
    (\<^verbatim>\<open>lib/usbstandardhub.c\<close>, \<^verbatim>\<open>lib/dwhcirootport.c\<close>, \<^verbatim>\<open>DWHCIDeviceInitialize\<close>): descriptors, addresses, drivers and hubs.  A hub configures the
    devices behind it, which may be hubs: \<open>hub_configure\<close> has the number of hub levels that are left as its first argument, and
    USB allows five.  Blocks of memory and addresses of objects come from oracles in the world.
  \<^item> \<open>DriverFrame\<close>, \<open>Enumeration\<close>: what configuring a driver leaves alone, and from it that no two devices of
    the bus have the same address and that each knows the translator on its path.
  \<^item> \<open>HostLive\<close>: that transfers return.  If the controller raises the interrupts and shows completed
    transfers, a control message ends after two or three of them; what the controller shows is the oracle of register reads.
  \<^item> \<open>UspiLibrary\<close> (\<^verbatim>\<open>lib/uspilibrary.c\<close>): the interface to the kernel; its tables hold the devices found.
  \<^item> \<open>Firmware\<close> (\<^verbatim>\<open>env/lib/bcmmailbox.c\<close>, \<^verbatim>\<open>env/lib/bcmpropertytags.c\<close>, \<^verbatim>\<open>env/lib/bcmframebuffer.c\<close>, \<^verbatim>\<open>env/lib/uspibind.c\<close>): the
    exchange with the graphics processor, whose polling loops are partial functions; the power is on exactly if the firmware says so.
  \<^item> \<open>Allocator\<close> (\<^verbatim>\<open>env/lib/alloc.c\<close>): blocks in use never overlap.  Addresses have 32 bits there, as in the build of the
    environment: with 64-bit pointers the block header is not a multiple of the alignment.
  \<^item> \<open>MemorySystem\<close> (\<^verbatim>\<open>env/lib/memory.c\<close>, \<^verbatim>\<open>env/lib/pagetable.c\<close>): the page table translates every address to itself, with the
  memory type of its region.  The translation by the processor is the reference definition \<open>section_walk\<close>; cache maintenance has no effect there.
  \<^item> \<open>Interrupts\<close> (\<^verbatim>\<open>lib/synchronize.c\<close>, \<^verbatim>\<open>env/lib/synchronize.c\<close>, \<^verbatim>\<open>env/lib/interrupt.c\<close>): nesting of critical sections, which
    cache lines a range operation touches, and which handler an interrupt calls.
  \<^item> \<open>Font\<close> (\<^verbatim>\<open>env/lib/font.h\<close>, \<^verbatim>\<open>env/lib/chargenerator.c\<close>), \<open>Screen\<close> (\<^verbatim>\<open>env/lib/screen.c\<close>), \<open>Terminal\<close>: the text screen, pixel by
    pixel, refines a terminal of characters with its escape sequences; the locale \<open>console\<close> is what a client sees of it.
  \<^item> \<open>Logger\<close> (\<^verbatim>\<open>env/lib/logger.c\<close>, \<^verbatim>\<open>TimerGetTimeString\<close>): a message is one line on that terminal.

  \<^bold>\<open>Not modelled\<close>

  The calls of \<^verbatim>\<open>LogWrite\<close> inside the drivers and the debug dumps, which have no effect on the modelled state; the start-up code, exception entry and compiler helpers of \<^verbatim>\<open>env\<close>, which are
  assembly or set up the machine; \<^verbatim>\<open>env/lib/string.c\<close> and \<^verbatim>\<open>env/lib/util.c\<close> as far as they repeat \<^verbatim>\<open>lib/string.c\<close> and \<^verbatim>\<open>lib/util.c\<close> line by
  line; the sample programs; the Rust kernel itself.
\<close>

end
